(* ===== verification/Prelude.thy ===== *)
theory Prelude
  imports Main "HOL-Library.Word"
begin

text \<open>
  Shared vocabulary of the development: the names of the machine types the runtime uses,
  the collections of rewrite rules the component theories extend, and generic facts about
  lists, association lists and words that more than one component needs.

  \<^item> \<open>byte\<close> is one element of \<open>std::string\<close>/\<open>char[]\<close> seen as raw memory; \<open>u16\<close>, \<open>u32\<close>
    and \<open>u64\<close> are the fixed-width integers of \<open>cstdint\<close>.
  \<^item> \<open>stream_simps\<close> collects the rewrite rules of the two message streams,
    \<open>registry_simps\<close> those of the bookkeeping components.
\<close>

type_synonym byte = "8 word"
type_synonym u16 = "16 word"
type_synonym u32 = "32 word"
type_synonym u64 = "64 word"

named_theorems stream_simps "rewrite rules of the message streams"
named_theorems registry_simps "rewrite rules of the registries"

section \<open>Lists\<close>

lemma take_append_self: "length xs = n \<Longrightarrow> take n (xs @ ys) = xs"
  by simp

lemma drop_append_self: "length xs = n \<Longrightarrow> drop n (xs @ ys) = ys"
  by simp

lemma take_drop_mid: "length xs = n \<Longrightarrow> length ys = m \<Longrightarrow> take m (drop n (xs @ ys @ zs)) = ys"
  by simp

section \<open>Association lists\<close>

text \<open>
  A \<open>std::unordered_map\<close> is an association list in its iteration order. The operations
  are the ones of the container: \<open>insert\<close> keeps an existing entry, \<open>operator[]\<close>
  followed by an assignment replaces it, \<open>erase\<close> drops the key.
\<close>

definition al_insert :: "'k \<Rightarrow> 'v \<Rightarrow> ('k \<times> 'v) list \<Rightarrow> ('k \<times> 'v) list" where
  "al_insert k v m = (if k \<in> fst ` set m then m else m @ [(k, v)])"

fun al_put :: "'k \<Rightarrow> 'v \<Rightarrow> ('k \<times> 'v) list \<Rightarrow> ('k \<times> 'v) list" where
  "al_put k v [] = [(k, v)]"
| "al_put k v ((k', v') # m) = (if k = k' then (k, v) # m else (k', v') # al_put k v m)"

definition al_erase :: "'k \<Rightarrow> ('k \<times> 'v) list \<Rightarrow> ('k \<times> 'v) list" where
  "al_erase k m = filter (\<lambda>e. fst e \<noteq> k) m"

lemma map_of_al_insert:
  "map_of (al_insert k v m) = (if map_of m k = None then (map_of m)(k \<mapsto> v) else map_of m)"
proof -
  have "k \<notin> fst ` set m \<longleftrightarrow> map_of m k = None"
    by (metis map_of_eq_None_iff)
  then show ?thesis
    by (auto simp: al_insert_def map_add_def fun_eq_iff split: option.splits)
qed

lemma map_of_al_put [simp]: "map_of (al_put k v m) = (map_of m)(k \<mapsto> v)"
  by (induction k v m rule: al_put.induct) auto

lemma map_of_al_erase [simp]: "map_of (al_erase k m) = (map_of m)(k := None)"
  by (induction m) (auto simp: al_erase_def fun_eq_iff)

lemma keys_al_put: "fst ` set (al_put k v m) = insert k (fst ` set m)"
  by (induction k v m rule: al_put.induct) auto

lemma keys_al_erase [simp]: "fst ` set (al_erase k m) = fst ` set m - {k}"
  by (auto simp: al_erase_def)

lemma distinct_al_insert: "distinct (map fst m) \<Longrightarrow> distinct (map fst (al_insert k v m))"
  by (auto simp: al_insert_def)

lemma distinct_al_put: "distinct (map fst m) \<Longrightarrow> distinct (map fst (al_put k v m))"
proof (induction k v m rule: al_put.induct)
  case (2 k v k' v' m)
  have "k' \<notin> fst ` set (al_put k v m)" if "k \<noteq> k'"
    using 2 that by (simp add: keys_al_put)
  with 2 show ?case by simp
qed simp

lemma distinct_al_erase: "distinct (map fst m) \<Longrightarrow> distinct (map fst (al_erase k m))"
  by (induction m) (auto simp: al_erase_def)

lemma al_erase_put [simp]: "al_erase k (al_put k v m) = al_erase k m"
  by (induction k v m rule: al_put.induct) (auto simp: al_erase_def)

lemma set_al_put: "set (al_put k v m) \<subseteq> insert (k, v) (set m)"
  by (induction k v m rule: al_put.induct) auto

lemma set_al_erase: "set (al_erase k m) \<subseteq> set m"
  by (auto simp: al_erase_def)

lemma set_al_insert: "set (al_insert k v m) \<subseteq> insert (k, v) (set m)"
  by (auto simp: al_insert_def)

lemma al_put_nonempty [simp]: "al_put k v m \<noteq> []"
  by (cases m) (auto split: if_splits)

lemma al_insert_nonempty [simp]: "al_insert k v m \<noteq> []"
  by (auto simp: al_insert_def)

text \<open>\<open>insert\<close> of a \<open>std::unordered_set\<close>, a list without repetitions.\<close>

definition set_add :: "'a \<Rightarrow> 'a list \<Rightarrow> 'a list" where
  "set_add x xs = (if x \<in> set xs then xs else xs @ [x])"

text \<open>A log whose entries alternate, the first one being \<open>b\<close>.\<close>

fun alternates :: "bool \<Rightarrow> bool list \<Rightarrow> bool" where
  "alternates b [] = True"
| "alternates b (x # xs) = (x = b \<and> alternates (\<not> b) xs)"

lemma alternates_snoc: "alternates b (xs @ [x]) \<longleftrightarrow> alternates b xs \<and> x = (b = even (length xs))"
  by (induction b xs rule: alternates.induct) auto

section \<open>Errors\<close>

text \<open>Sequencing of operations that may fail: \<open>Inl\<close> is the error, and nothing after it runs.\<close>

fun ebind :: "'e + 'a \<Rightarrow> ('a \<Rightarrow> 'e + 'b) \<Rightarrow> 'e + 'b" where
  "ebind (Inl err) f = Inl err"
| "ebind (Inr x) f = f x"

end
