(* ===== verification/Bytes.thy ===== *)
theory Bytes
  imports Prelude
begin

text \<open>
  Raw memory of integers. The streams copy an integer to and from the message body with
  \<open>reinterpret_cast\<close>, so the bytes are those of the host; the model is a little-endian
  host, which is what the message header announces there. \<open>to_le n w\<close> lists the lowest
  \<open>n\<close> bytes of \<open>w\<close>, \<open>of_le\<close> reassembles a word. The lemma \<open>of_le_to_le\<close> is the round
  trip every integer field of the wire format rests on.
\<close>

unbundle bit_operations_syntax

definition to_le :: "nat \<Rightarrow> 'a::len word \<Rightarrow> byte list" where
  "to_le n w = map (\<lambda>i. ucast (drop_bit (8 * i) w)) [0..<n]"

fun of_le :: "byte list \<Rightarrow> 'a::len word" where
  "of_le [] = 0"
| "of_le (b # bs) = ucast b OR push_bit 8 (of_le bs)"

lemma length_to_le [simp]: "length (to_le n w) = n"
  by (simp add: to_le_def)

lemma bit_of_le:
  "bit (of_le bs :: 'a::len word) i \<longleftrightarrow>
     i < LENGTH('a) \<and> i div 8 < length bs \<and> bit (bs ! (i div 8)) (i mod 8)"
proof (induction bs arbitrary: i)
  case Nil
  then show ?case by simp
next
  case (Cons b bs)
  show ?case
  proof (cases "i < 8")
    case True
    then show ?thesis by (auto simp: bit_simps)
  next
    case False
    have "\<not> bit b i" using False by (simp add: bit_word.rep_eq not_le)
    moreover have "i div 8 = Suc ((i - 8) div 8)" "(i - 8) mod 8 = i mod 8"
      using False by (simp_all add: le_div_geq le_mod_geq)
    ultimately show ?thesis using False by (auto simp: bit_simps Cons.IH)
  qed
qed

lemma of_le_to_le:
  fixes w :: "'a::len word"
  assumes "LENGTH('a) \<le> 8 * n"
  shows "of_le (to_le n w) = w"
proof (rule bit_word_eqI)
  fix i assume i: "i < LENGTH('a)"
  then have "i div 8 < n" using assms by auto
  then show "bit (of_le (to_le n w) :: 'a word) i \<longleftrightarrow> bit w i"
    using i by (simp add: bit_of_le to_le_def bit_simps)
qed

lemma to_le_1 [simp]: "to_le 1 (b :: byte) = [b]" "to_le (Suc 0) (b :: byte) = [b]"
  by (simp_all add: to_le_def)

lemma of_le_1 [simp]: "of_le [b] = (b :: byte)"
  by simp

lemma of_le_to_le16 [simp]: "of_le (to_le 2 (w :: u16)) = w"
  by (rule of_le_to_le) simp
lemma of_le_to_le32 [simp]: "of_le (to_le 4 (w :: u32)) = w"
  by (rule of_le_to_le) simp
lemma of_le_to_le64 [simp]: "of_le (to_le 8 (w :: u64)) = w"
  by (rule of_le_to_le) simp

section \<open>Rounding a position up to a boundary\<close>

text \<open>The specification of alignment: the number of padding bytes, and the next aligned position.\<close>

definition pad :: "nat \<Rightarrow> nat \<Rightarrow> nat" where
  "pad b p = (b - p mod b) mod b"

definition roundup :: "nat \<Rightarrow> nat \<Rightarrow> nat" where
  "roundup b p = p + pad b p"

lemma pad_less: "0 < b \<Longrightarrow> pad b p < b"
  by (simp add: pad_def)

lemma pad_1 [simp]: "pad 1 p = 0" "pad (Suc 0) p = 0"
  by (simp_all add: pad_def)

lemma roundup_eq: "0 < b \<Longrightarrow> roundup b p = (p + (b - 1)) div b * b"
proof -
  assume b: "0 < b"
  define q where "q = p div b"
  define r where "r = p mod b"
  have p: "p = b * q + r" by (simp add: q_def r_def)
  have rb: "r < b" using b by (simp add: r_def)
  have "(p + (b - 1)) div b = (if r = 0 then q else Suc q)"
    by (rule div_nat_eqI) (use p rb b in \<open>auto simp: algebra_simps\<close>)
  moreover have "pad b p = (if r = 0 then 0 else b - r)"
    using rb b by (auto simp: pad_def r_def)
  ultimately show ?thesis using p rb by (auto simp: roundup_def algebra_simps)
qed

lemma roundup_dvd: "0 < b \<Longrightarrow> b dvd roundup b p"
  by (simp add: roundup_eq)

lemma pad_dvd: "0 < b \<Longrightarrow> b dvd p \<Longrightarrow> pad b p = 0"
  by (auto simp: pad_def)

lemma pad_roundup [simp]: "0 < b \<Longrightarrow> pad b (roundup b p) = 0"
  by (simp add: pad_dvd roundup_dvd)

lemma roundup_ge: "p \<le> roundup b p"
  by (simp add: roundup_def)

end
