(* ===== verification/Wire_Types.thy ===== *)
theory Wire_Types
  imports Bytes
begin

text \<open>
  The types the message streams are instantiated with, the values of those types, and the
  type signatures of \<open>DBusTypeOutputStream\<close>.

  The streams are overloaded templates: \<open>writeValue\<close>, \<open>readValue\<close> and \<open>writeType\<close> are
  selected by a C++ type and a deployment object (\<open>DBusDeployment.hpp\<close>). A \<open>ty\<close> is such a
  pair: the flags \<open>isUnixFD_\<close>, \<open>isObjectPath_\<close> and \<open>isDBus_\<close> of the deployments are
  arguments of its constructors, and a null deployment is the flag \<open>False\<close>.
  \<open>TByteBuffer\<close> is \<open>std::vector<uint8_t>\<close> without a deployment, which has an overload of
  its own.
\<close>

section \<open>Types and deployments\<close>

datatype ebase = E8 | E16 | E32

datatype ty =
    TBool
  | TInt8 | TInt16 | TInt32 bool | TInt64
  | TUInt8 | TUInt16 | TUInt32 bool | TUInt64
  | TFloat | TDouble
  | TString bool
  | TVersion
  | TRanged int int
  | TEnum ebase bool nat
  | TStruct "ty list"
  | TVariant bool "ty list"
  | TByteBuffer
  | TVector ty
  | TMap ty ty

text \<open>
  The values. An integer is kept as its bits at its width, so signed and unsigned integers
  of one width share a constructor, and so do the enumerations over them. A float is its
  IEEE bit pattern. A map is the list of its entries in iteration order. The first
  component of a variant is \<open>valueType_\<close>. \<open>VUnset\<close> stands for an object a failed read has
  left as it was, and for the content of a variant that has none.
\<close>

datatype val =
    VBool bool
  | V8 byte | V16 u16 | V32 u32 | V64 u64
  | VFloat u32 | VDouble u64
  | VString "byte list"
  | VVersion u32 u32
  | VStruct "val list"
  | VVariant byte val
  | VBytes "byte list"
  | VVector "val list"
  | VMap "(val \<times> val) list"
  | VUnset

text \<open>
  What the streams use of code outside this repository (CommonAPI core and generated
  code): \<open>ranged_valid\<close> is \<open>RangedInteger<min,max>::validate\<close>, \<open>ranged_init\<close> the content
  of the \<open>RangedInteger\<close> object a value is read into, \<open>enum_valid\<close> the generated
  \<open>validate\<close> of an enumeration (the enumerations of a program are numbered), and
  \<open>visit n k\<close> the alternative (its position) that the visitors of a variant with \<open>n\<close>
  alternatives apply to when \<open>valueType_\<close> is \<open>k\<close>.
\<close>

record ext =
  ranged_valid :: "int \<Rightarrow> int \<Rightarrow> int \<Rightarrow> bool"
  ranged_init :: "int \<Rightarrow> int \<Rightarrow> int"
  enum_valid :: "nat \<Rightarrow> u32 \<Rightarrow> bool"
  visit :: "nat \<Rightarrow> byte \<Rightarrow> nat option"

text \<open>
  A concrete instance for the examples of this development: a range contains its bounds,
  the default value of a ranged integer is its minimum, an enumeration has three values, and
  the alternatives of a variant are numbered from its end, as in CommonAPI.
\<close>

definition some_ext :: ext where
  "some_ext = \<lparr>ranged_valid = (\<lambda>mn mx x. mn \<le> x \<and> x \<le> mx), ranged_init = (\<lambda>mn mx. mn),
     enum_valid = (\<lambda>e w. w < 3), visit = (\<lambda>n k. if 0 < k \<and> unat k \<le> n then Some (n - unat k) else None)\<rparr>"

section \<open>DBusTypeOutputStream\<close>

text \<open>
  \<open>writeType\<close> appends to \<open>signature_\<close>. An enumeration converts to its base type, so its
  base selects the overload (\<open>TEnum\<close> carries whether the base is signed).
\<close>

fun writeType :: "ty \<Rightarrow> string \<Rightarrow> string"
  and writeTypes :: "ty list \<Rightarrow> string \<Rightarrow> string" where
  "writeType TBool sg = sg @ ''b''"
| "writeType TInt8 sg = sg @ ''y''"
| "writeType TInt16 sg = sg @ ''n''"
| "writeType (TInt32 isUnixFD) sg = (if isUnixFD then sg @ ''h'' else sg @ ''i'')"
| "writeType TInt64 sg = sg @ ''x''"
| "writeType TUInt8 sg = sg @ ''y''"
| "writeType TUInt16 sg = sg @ ''q''"
| "writeType (TUInt32 isUnixFD) sg = (if isUnixFD then sg @ ''h'' else sg @ ''u'')"
| "writeType TUInt64 sg = sg @ ''t''"
| "writeType TFloat sg = sg @ ''d''"
| "writeType TDouble sg = sg @ ''d''"
| "writeType (TString isObjectPath) sg = (if isObjectPath then sg @ ''o'' else sg @ ''s'')"
| "writeType TVersion sg = sg @ ''(uu)''"
| "writeType (TRanged mn mx) sg = sg @ ''i''"
| "writeType (TEnum E8 isSigned eid) sg = sg @ ''y''"
| "writeType (TEnum E16 isSigned eid) sg = (if isSigned then sg @ ''n'' else sg @ ''q'')"
| "writeType (TEnum E32 isSigned eid) sg = (if isSigned then sg @ ''i'' else sg @ ''u'')"
| "writeType (TStruct ts) sg = writeTypes ts (sg @ ''('') @ '')''"
| "writeType (TVariant isDBus ts) sg = (if isDBus then sg @ ''v'' else sg @ ''(yv)'')"
| "writeType TByteBuffer sg = sg @ ''ay''"
| "writeType (TVector t) sg = writeType t (sg @ ''a'')"
| "writeType (TMap k v) sg = writeType v (writeType k (sg @ ''a{'')) @ ''}''"
| "writeTypes [] sg = sg"
| "writeTypes (t # ts) sg = writeTypes ts (writeType t sg)"

text \<open>\<open>getSignature\<close> of a fresh stream that one type was written to.\<close>

definition getSignature :: "ty \<Rightarrow> string" where
  "getSignature t = writeType t ''''"

definition sig_bytes :: "ty \<Rightarrow> byte list" where
  "sig_bytes t = map of_char (getSignature t)"

section \<open>TypeCompareVisitor and ApplyTypeCompareVisitor\<close>

definition TypeCompareVisitor :: "string \<Rightarrow> string \<Rightarrow> bool" where
  "TypeCompareVisitor sg t \<longleftrightarrow> t = sg"

text \<open>
  \<open>ApplyTypeCompareVisitor\<close> walks the alternatives. The index of an alternative counts
  from the end of the list: the last has index 1, an empty list index 0 (a \<open>uint8_t\<close>).
\<close>

fun variant_index :: "ty list \<Rightarrow> byte" where
  "variant_index [] = 0"
| "variant_index (t # ts) = variant_index ts + 1"

fun ApplyTypeCompareVisitor :: "string \<Rightarrow> ty list \<Rightarrow> bool \<times> byte" where
  "ApplyTypeCompareVisitor sg [] = (False, 0)"
| "ApplyTypeCompareVisitor sg (t # ts) =
     (if TypeCompareVisitor sg (getSignature t) then (True, variant_index (t # ts))
      else ApplyTypeCompareVisitor sg ts)"

section \<open>The D-Bus type a C++ type stands for\<close>

text \<open>
  The types of the D-Bus specification, their signatures and the parser of a single
  complete type. The container nesting limits of the specification are not modelled.
\<close>

datatype dty =
    DByte | DBoolean | DInt16 | DUInt16 | DInt32 | DUInt32 | DInt64 | DUInt64
  | DDouble | DString | DObjectPath | DUnixFD | DVariant
  | DStruct "dty list" | DArray dty | DDict dty dty

fun print_dty :: "dty \<Rightarrow> string" where
  "print_dty DByte = ''y''"
| "print_dty DBoolean = ''b''"
| "print_dty DInt16 = ''n''"
| "print_dty DUInt16 = ''q''"
| "print_dty DInt32 = ''i''"
| "print_dty DUInt32 = ''u''"
| "print_dty DInt64 = ''x''"
| "print_dty DUInt64 = ''t''"
| "print_dty DDouble = ''d''"
| "print_dty DString = ''s''"
| "print_dty DObjectPath = ''o''"
| "print_dty DUnixFD = ''h''"
| "print_dty DVariant = ''v''"
| "print_dty (DStruct ds) = ''('' @ concat (map print_dty ds) @ '')''"
| "print_dty (DArray d) = ''a'' @ print_dty d"
| "print_dty (DDict k v) = ''a{'' @ print_dty k @ print_dty v @ ''}''"

fun dbus_type :: "ty \<Rightarrow> dty" where
  "dbus_type TBool = DBoolean"
| "dbus_type TInt8 = DByte"
| "dbus_type TInt16 = DInt16"
| "dbus_type (TInt32 fd) = (if fd then DUnixFD else DInt32)"
| "dbus_type TInt64 = DInt64"
| "dbus_type TUInt8 = DByte"
| "dbus_type TUInt16 = DUInt16"
| "dbus_type (TUInt32 fd) = (if fd then DUnixFD else DUInt32)"
| "dbus_type TUInt64 = DUInt64"
| "dbus_type TFloat = DDouble"
| "dbus_type TDouble = DDouble"
| "dbus_type (TString isPath) = (if isPath then DObjectPath else DString)"
| "dbus_type TVersion = DStruct [DUInt32, DUInt32]"
| "dbus_type (TRanged mn mx) = DInt32"
| "dbus_type (TEnum E8 isSigned e) = DByte"
| "dbus_type (TEnum E16 isSigned e) = (if isSigned then DInt16 else DUInt16)"
| "dbus_type (TEnum E32 isSigned e) = (if isSigned then DInt32 else DUInt32)"
| "dbus_type (TStruct ts) = DStruct (map dbus_type ts)"
| "dbus_type (TVariant db ts) = (if db then DVariant else DStruct [DByte, DVariant])"
| "dbus_type TByteBuffer = DArray DByte"
| "dbus_type (TVector t) = DArray (dbus_type t)"
| "dbus_type (TMap k v) = DDict (dbus_type k) (dbus_type v)"

lemma writeType_append:
  "writeType t sg = sg @ print_dty (dbus_type t)"
  "writeTypes ts sg = sg @ concat (map (print_dty \<circ> dbus_type) ts)"
  by (induction t sg and ts sg rule: writeType_writeTypes.induct)
     (simp_all add: comp_def)

lemma getSignature_eq: "getSignature t = print_dty (dbus_type t)"
  by (simp add: getSignature_def writeType_append)

section \<open>Signatures are unambiguous\<close>

text \<open>
  No type signature is empty or starts with a closing bracket, and none is a proper prefix
  of another: a signature read from a message names one type.
\<close>

lemma print_dty_head:
  "\<exists>c cs. print_dty d = c # cs \<and> c \<noteq> CHR '')'' \<and> c \<noteq> CHR ''{'' \<and> c \<noteq> CHR ''}''"
  by (cases d) auto

lemma print_dty_not_close:
  "print_dty d @ r \<noteq> CHR '')'' # r'" "print_dty d @ r \<noteq> CHR ''{'' # r'"
  using print_dty_head[of d] by auto

lemma concat_prefix_free:
  assumes "\<And>d d' r r'. d \<in> set ds \<Longrightarrow> print_dty d @ r = print_dty d' @ r' \<Longrightarrow> d = d' \<and> r = r'"
    and "concat (map print_dty ds) @ CHR '')'' # r = concat (map print_dty ds') @ CHR '')'' # r'"
  shows "ds = ds' \<and> r = r'"
  using assms
proof (induction ds arbitrary: ds')
  case Nil
  show ?case
  proof (cases ds')
    case (Cons e es)
    with Nil.prems(2) show ?thesis
      using print_dty_not_close(1)[of e "concat (map print_dty es) @ CHR '')'' # r'" r]
      by simp
  qed (use Nil.prems(2) in simp)
next
  case (Cons d ds)
  show ?case
  proof (cases ds')
    case Nil
    with Cons.prems(2) show ?thesis
      using print_dty_not_close(1)[of d "concat (map print_dty ds) @ CHR '')'' # r" r']
      by simp
  next
    case (Cons e es)
    with Cons.prems(2) have "print_dty d @ (concat (map print_dty ds) @ CHR '')'' # r)
        = print_dty e @ (concat (map print_dty es) @ CHR '')'' # r')" by simp
    with Cons.prems(1)[of d] have "d = e"
      and eq: "concat (map print_dty ds) @ CHR '')'' # r = concat (map print_dty es) @ CHR '')'' # r'"
      by auto
    have "ds = es \<and> r = r'"
      by (rule Cons.IH[OF _ eq]) (use Cons.prems(1) in auto)
    with \<open>d = e\<close> Cons show ?thesis by simp
  qed
qed

lemma print_dty_prefix_free:
  "print_dty d @ r = print_dty d' @ r' \<Longrightarrow> d = d' \<and> r = r'"
proof (induction d arbitrary: d' r r')
  case (DStruct ds)
  then obtain ds' where d': "d' = DStruct ds'" by (cases d') auto
  with DStruct.prems
  have "concat (map print_dty ds) @ CHR '')'' # r = concat (map print_dty ds') @ CHR '')'' # r'"
    by simp
  with DStruct.IH have "ds = ds' \<and> r = r'" by (rule concat_prefix_free)
  with d' show ?case by simp
next
  case (DArray d)
  then show ?case using print_dty_not_close(2)[of d r] by (cases d') auto
next
  case (DDict k v)
  show ?case
  proof (cases d')
    case (DArray e)
    with DDict.prems show ?thesis using print_dty_not_close(2)[of e r', THEN not_sym] by auto
  next
    case d': (DDict k' v')
    with DDict.prems have "print_dty k @ (print_dty v @ CHR ''}'' # r)
        = print_dty k' @ (print_dty v' @ CHR ''}'' # r')" by simp
    with DDict.IH(1) have "k = k'" and v: "print_dty v @ (CHR ''}'' # r) = print_dty v' @ (CHR ''}'' # r')"
      by blast+
    with DDict.IH(2)[OF v] d' show ?thesis by simp
  qed (use DDict.prems in auto)
qed (case_tac [!] d', auto)

lemma getSignature_inj: "getSignature t = getSignature t' \<longleftrightarrow> dbus_type t = dbus_type t'"
  using print_dty_prefix_free[of "dbus_type t" "[]" "dbus_type t'" "[]"]
  by (auto simp: getSignature_eq)

lemma getSignature_nonempty: "getSignature t \<noteq> []"
  using print_dty_head[of "dbus_type t"] by (auto simp: getSignature_eq)

section \<open>Selection of an alternative by its signature\<close>

lemma variant_index_nat: "length ts < 256 \<Longrightarrow> unat (variant_index ts) = length ts"
  by (induction ts) (auto simp: unat_word_ariths)

text \<open>
  \<open>ApplyTypeCompareVisitor\<close> succeeds on the first alternative whose D-Bus type has the
  given signature, and on no other.
\<close>

lemma ApplyTypeCompareVisitor_first:
  assumes "i < length ts" and "\<And>j. j < i \<Longrightarrow> dbus_type (ts ! j) \<noteq> dbus_type (ts ! i)"
  shows "ApplyTypeCompareVisitor (getSignature (ts ! i)) ts = (True, variant_index (drop i ts))"
  using assms
proof (induction ts arbitrary: i)
  case (Cons t ts)
  show ?case
  proof (cases i)
    case 0
    then show ?thesis by (simp add: TypeCompareVisitor_def)
  next
    case (Suc i')
    have "dbus_type t \<noteq> dbus_type (ts ! i')" using Cons.prems(2)[of 0] Suc by simp
    moreover have "dbus_type (ts ! j) \<noteq> dbus_type (ts ! i')" if "j < i'" for j
      using Cons.prems(2)[of "Suc j"] Suc that by simp
    ultimately show ?thesis using Cons.IH[of i'] Cons.prems(1) Suc
      by (simp add: TypeCompareVisitor_def getSignature_inj)
  qed
qed simp

lemma ApplyTypeCompareVisitor_none:
  "sg \<notin> getSignature ` set ts \<Longrightarrow> ApplyTypeCompareVisitor sg ts = (False, 0)"
  by (induction ts) (auto simp: TypeCompareVisitor_def)

end
