(* ===== verification/Ieee_Float.thy ===== *)
theory Ieee_Float
  imports Bytes
begin

text \<open>
  The conversions between \<open>float\<close> and \<open>double\<close> that the streams apply: D-Bus has no single
  precision type, so \<open>writeValue(float)\<close> casts to \<open>double\<close> and \<open>_readValue(float)\<close> casts back.
  Both are IEEE 754 conversions on the bit patterns (binary32 and binary64), written as
  arithmetic on sign, exponent and fraction. The narrowing conversion rounds to nearest, ties
  to even, and quiets a NaN, as the hardware instruction does. \<open>d2f_f2d\<close> is the round trip:
  every float but a signalling NaN survives.
\<close>

fun ilog2 :: "nat \<Rightarrow> nat" where
  "ilog2 n = (if n \<le> 1 then 0 else Suc (ilog2 (n div 2)))"

declare ilog2.simps [simp del]

lemma ilog2_bounds: "0 < n \<Longrightarrow> 2 ^ ilog2 n \<le> n \<and> n < 2 * 2 ^ ilog2 n"
proof (induction n rule: ilog2.induct)
  case (1 n)
  show ?case
  proof (cases "n \<le> 1")
    case True
    with "1.prems" show ?thesis by (simp add: ilog2.simps)
  next
    case False
    with "1.IH" have "2 ^ ilog2 (n div 2) \<le> n div 2 \<and> n div 2 < 2 * 2 ^ ilog2 (n div 2)" by simp
    with False show ?thesis by (subst (1 2) ilog2.simps) auto
  qed
qed

section \<open>Widening\<close>

text \<open>\<open>widen e m\<close>: the exponent and fraction fields of the double that equals the float with fields \<open>e\<close>, \<open>m\<close>.\<close>

definition widen :: "nat \<Rightarrow> nat \<Rightarrow> nat \<times> nat" where
  "widen e m =
     (if e = 255 then (2047, if m = 0 then 0 else (if m < 2 ^ 22 then m + 2 ^ 22 else m) * 2 ^ 29)
      else if e = 0 then
        (if m = 0 then (0, 0)
         else (let k = ilog2 m in (k + 874, (m - 2 ^ k) * 2 ^ (52 - k))))
      else (e + 896, m * 2 ^ 29))"

definition float_to_double :: "u32 \<Rightarrow> u64" where
  "float_to_double w =
     (let n = unat w; s = n div 2 ^ 31; e = n div 2 ^ 23 mod 2 ^ 8; m = n mod 2 ^ 23;
          (e', m') = widen e m
      in of_nat (s * 2 ^ 63 + e' * 2 ^ 52 + m'))"

section \<open>Narrowing\<close>

definition round_even :: "nat \<Rightarrow> nat \<Rightarrow> nat" where
  "round_even x k =
     (let q = x div 2 ^ k; r = x mod 2 ^ k
      in if 2 * r > 2 ^ k \<or> (2 * r = 2 ^ k \<and> odd q) then q + 1 else q)"

text \<open>\<open>narrow e m\<close>: the lower 31 bits of the float nearest to the double with fields \<open>e\<close>, \<open>m\<close>.\<close>

definition narrow :: "nat \<Rightarrow> nat \<Rightarrow> nat" where
  "narrow e m =
     (if e = 2047 then
        (if m = 0 then 255 * 2 ^ 23
         else 255 * 2 ^ 23 + (let q = m div 2 ^ 29 in if q < 2 ^ 22 then q + 2 ^ 22 else q))
      else if e = 0 then 0
      else if 897 \<le> e then min ((e - 897) * 2 ^ 23 + round_even (2 ^ 52 + m) 29) (255 * 2 ^ 23)
      else round_even (2 ^ 52 + m) (926 - e))"

definition double_to_float :: "u64 \<Rightarrow> u32" where
  "double_to_float w =
     (let n = unat w; s = n div 2 ^ 63; e = n div 2 ^ 52 mod 2 ^ 11; m = n mod 2 ^ 52
      in of_nat (s * 2 ^ 31 + narrow e m))"

definition is_snan :: "u32 \<Rightarrow> bool" where
  "is_snan w \<longleftrightarrow> (let e = unat w div 2 ^ 23 mod 2 ^ 8; m = unat w mod 2 ^ 23
     in e = 255 \<and> 0 < m \<and> m < 2 ^ 22)"

section \<open>Round trip\<close>

lemma round_even_exact: "round_even (x * 2 ^ k) k = x"
  by (simp add: round_even_def Let_def)

lemma widen_bounds:
  assumes "e < 256" "m < 2 ^ 23" "widen e m = (e', m')"
  shows "e' < 2048 \<and> m' < 2 ^ 52"
proof (cases "e = 0 \<and> m \<noteq> 0")
  case True
  define k where "k = ilog2 m"
  have k: "2 ^ k \<le> m" "m < 2 * 2 ^ k" using ilog2_bounds[of m] True by (auto simp: k_def)
  have "k < 23" using k(1) assms(2) by (meson le_less_trans nat_power_less_imp_less zero_less_numeral)
  have "(m - 2 ^ k) * 2 ^ (52 - k) < 2 ^ k * 2 ^ (52 - k)" using k by simp
  also have "\<dots> = 2 ^ 52" using \<open>k < 23\<close> by (simp flip: power_add)
  finally show ?thesis using True assms(3) \<open>k < 23\<close> by (auto simp: widen_def k_def Let_def)
next
  case False
  with assms show ?thesis by (auto simp: widen_def split: if_splits)
qed

lemma narrow_widen:
  assumes "e < 256" "m < 2 ^ 23" "widen e m = (e', m')" "\<not> (e = 255 \<and> 0 < m \<and> m < 2 ^ 22)"
  shows "narrow e' m' = e * 2 ^ 23 + m"
proof (cases "e = 0")
  case True
  show ?thesis
  proof (cases "m = 0")
    case True
    with \<open>e = 0\<close> assms(3) show ?thesis by (simp add: widen_def narrow_def)
  next
    case False
    define k where "k = ilog2 m"
    have k: "2 ^ k \<le> m" "m < 2 * 2 ^ k" using ilog2_bounds[of m] False by (auto simp: k_def)
    have k23: "k < 23" using k(1) assms(2)
      by (meson le_less_trans nat_power_less_imp_less zero_less_numeral)
    have e': "e' = k + 874" and m': "m' = (m - 2 ^ k) * 2 ^ (52 - k)"
      using assms(3) \<open>e = 0\<close> False by (auto simp: widen_def k_def Let_def)
    have "(2::nat) ^ 52 = 2 ^ k * 2 ^ (52 - k)" using k23 by (simp flip: power_add)
    then have "2 ^ 52 + m' = (2 ^ k + (m - 2 ^ k)) * 2 ^ (52 - k)"
      by (simp only: m' distrib_right)
    then have "2 ^ 52 + m' = m * 2 ^ (52 - k)" using k(1) by simp
    moreover have "926 - e' = 52 - k" using k23 by (simp add: e')
    ultimately have "narrow e' m' = round_even (m * 2 ^ (52 - k)) (52 - k)"
      using k23 e' by (simp add: narrow_def)
    then show ?thesis by (simp add: round_even_exact \<open>e = 0\<close>)
  qed
next
  case False
  show ?thesis
  proof (cases "e = 255")
    case True
    with assms show ?thesis by (auto simp: widen_def narrow_def)
  next
    case e255: False
    have e': "e' = e + 896" and m': "m' = m * 2 ^ 29"
      using assms(3) False e255 by (auto simp: widen_def)
    have "2 ^ 52 + m' = (2 ^ 23 + m) * 2 ^ 29" by (simp add: m')
    then have "round_even (2 ^ 52 + m') 29 = 2 ^ 23 + m" by (simp only: round_even_exact)
    moreover have "(e - 1) * 2 ^ 23 + (2 ^ 23 + m) = e * 2 ^ 23 + m"
      using False by (cases e) auto
    moreover have "e * 2 ^ 23 + m \<le> 255 * 2 ^ 23"
    proof -
      have "e \<le> 254" using assms(1) e255 by simp
      with assms(2) show ?thesis by simp
    qed
    ultimately show ?thesis using False e255 assms(1) by (simp add: narrow_def e')
  qed
qed

lemma split_fields:
  fixes s e m a b :: nat
  assumes "e < 2 ^ b" "m < 2 ^ a"
  shows "(s * 2 ^ (a + b) + e * 2 ^ a + m) mod 2 ^ a = m"
    and "(s * 2 ^ (a + b) + e * 2 ^ a + m) div 2 ^ a mod 2 ^ b = e"
    and "(s * 2 ^ (a + b) + e * 2 ^ a + m) div 2 ^ (a + b) = s"
proof -
  have eq: "s * 2 ^ (a + b) + e * 2 ^ a + m = (s * 2 ^ b + e) * 2 ^ a + m"
    by (simp add: power_add algebra_simps)
  show "(s * 2 ^ (a + b) + e * 2 ^ a + m) mod 2 ^ a = m"
    unfolding eq using assms by simp
  have d: "(s * 2 ^ (a + b) + e * 2 ^ a + m) div 2 ^ a = s * 2 ^ b + e"
    unfolding eq using assms by simp
  then show "(s * 2 ^ (a + b) + e * 2 ^ a + m) div 2 ^ a mod 2 ^ b = e"
    using assms by simp
  show "(s * 2 ^ (a + b) + e * 2 ^ a + m) div 2 ^ (a + b) = s"
    using d assms by (simp add: power_add div_mult2_eq)
qed

theorem d2f_f2d: "\<not> is_snan w \<Longrightarrow> double_to_float (float_to_double w) = w"
proof -
  assume nan: "\<not> is_snan w"
  define n where "n = unat w"
  define s where "s = n div 2 ^ 31"
  define e where "e = n div 2 ^ 23 mod 2 ^ 8"
  define m where "m = n mod 2 ^ 23"
  obtain e' m' where wid: "widen e m = (e', m')" by (cases "widen e m") auto
  have "unat w < 2 ^ LENGTH(32)" by (rule unsigned_less)
  then have n: "n < 2 ^ 32" by (simp add: n_def)
  have s: "s < 2" using n by (simp add: s_def less_mult_imp_div_less)
  have em: "e < 256" "m < 2 ^ 23" by (simp_all add: e_def m_def)
  note b = widen_bounds[OF em wid]
  have nn: "n = s * 2 ^ 31 + e * 2 ^ 23 + m"
  proof -
    have "n div 2 ^ 31 = n div 2 ^ 23 div 2 ^ 8" by (simp flip: div_mult2_eq)
    then have "n div 2 ^ 23 = s * 2 ^ 8 + e" by (simp add: s_def e_def)
    then have "n = (s * 2 ^ 8 + e) * 2 ^ 23 + m" by (metis div_mult_mod_eq m_def)
    then show ?thesis by simp
  qed
  define d where "d = s * 2 ^ 63 + e' * 2 ^ 52 + m'"
  have "float_to_double w = of_nat d"
    using wid by (simp add: float_to_double_def d_def s_def e_def m_def n_def)
  moreover have "d < 2 ^ 64" using s b by (auto simp: d_def)
  ultimately have u: "unat (float_to_double w) = d"
    by (simp add: unat_of_nat)
  have "d div 2 ^ 63 = s" "d div 2 ^ 52 mod 2 ^ 11 = e'" "d mod 2 ^ 52 = m'"
    using split_fields[where s = s and e = e' and m = m' and a = 52 and b = 11] b
    by (simp_all add: d_def)
  then have "double_to_float (float_to_double w) = of_nat (s * 2 ^ 31 + narrow e' m')"
    by (simp add: double_to_float_def Let_def u)
  also have "narrow e' m' = e * 2 ^ 23 + m"
    by (rule narrow_widen[OF em wid]) (use nan in \<open>auto simp: is_snan_def Let_def e_def m_def n_def\<close>)
  also have "s * 2 ^ 31 + (e * 2 ^ 23 + m) = n" using nn by simp
  finally show ?thesis by (simp add: n_def)
qed

end
