(* ===== verification/Out_Stream.thy ===== *)
theory Out_Stream
  imports Wire_Types Ieee_Float
begin

text \<open>
  \<open>DBusOutputStream\<close> (\<open>DBusOutputStream.hpp\<close>, \<open>DBusOutputStream.cpp\<close>): the stream that
  serialises values into the body of a message. Its state is \<open>payload_\<close>, the stack
  \<open>positions_\<close> (the head of the list is \<open>back()\<close>) and \<open>errorOccurred_\<close>. Messages to the log
  are not modelled.
\<close>

record ostream =
  payload :: "byte list"
  positions :: "nat list"
  errorOccurred :: bool

definition new_ostream :: ostream where
  "new_ostream = \<lparr>payload = [], positions = [], errorOccurred = False\<rparr>"

section \<open>Raw operations\<close>

definition getPosition :: "ostream \<Rightarrow> nat" where
  "getPosition s = length (payload s)"

definition pushPosition :: "ostream \<Rightarrow> ostream" where
  "pushPosition s = s\<lparr>positions := length (payload s) # positions s\<rparr>"

definition popPosition :: "ostream \<Rightarrow> nat \<times> ostream" where
  "popPosition s = (hd (positions s), s\<lparr>positions := tl (positions s)\<rparr>)"

definition hasError :: "ostream \<Rightarrow> bool" where
  "hasError s = errorOccurred s"

definition setError :: "ostream \<Rightarrow> ostream" where
  "setError s = s\<lparr>errorOccurred := True\<rparr>"

definition writeRaw :: "byte list \<Rightarrow> ostream \<Rightarrow> ostream" where
  "writeRaw data s = s\<lparr>payload := payload s @ data\<rparr>"

definition writeRawAt :: "byte list \<Rightarrow> nat \<Rightarrow> ostream \<Rightarrow> ostream" where
  "writeRawAt data pos s =
     s\<lparr>payload := take pos (payload s) @ data @ drop (pos + length data) (payload s)\<rparr>"

definition eightByteZeroString :: "byte list" where
  "eightByteZeroString = replicate 8 0"

text \<open>
  \<open>align\<close> computes with \<open>size_t\<close>. The source reads \<open>necessary\<close> bytes of a constant that has
  eight; \<open>align_eq\<close> below shows at most seven are needed for every boundary in use.
\<close>

definition align :: "nat \<Rightarrow> ostream \<Rightarrow> ostream" where
  "align boundary s =
     (let mask = (of_nat boundary :: u64) - 1;
          necessary = ((mask - (of_nat (length (payload s)) AND mask)) + 1) AND mask
      in writeRaw (take (unat necessary) eightByteZeroString) s)"

definition writeInt :: "nat \<Rightarrow> 'a::len word \<Rightarrow> ostream \<Rightarrow> ostream" where
  "writeInt n w s = writeRaw (to_le n w) (if n > 1 then align n s else s)"

definition writeIntAt :: "nat \<Rightarrow> nat \<Rightarrow> 'a::len word \<Rightarrow> ostream \<Rightarrow> ostream" where
  "writeIntAt n pos w s = writeRawAt (to_le n w) pos s"

text \<open>
  \<open>c_str()\<close> is the content followed by a terminator. \<open>writeString\<close> receives the length
  truncated to 32 bits and refuses data that is not terminated there.
\<close>

definition writeString :: "byte list \<Rightarrow> u32 \<Rightarrow> ostream \<Rightarrow> ostream" where
  "writeString data len s =
     (if (data @ [0]) ! unat len \<noteq> 0 then s
      else writeRaw (take (unat len + 1) (data @ [0])) (writeInt 4 len s))"

definition writeByteBuffer :: "byte list \<Rightarrow> u32 \<Rightarrow> ostream \<Rightarrow> ostream" where
  "writeByteBuffer data len s = writeRaw (take (unat len) data) (writeInt 4 len s)"

definition writeSignature :: "byte list \<Rightarrow> ostream \<Rightarrow> ostream" where
  "writeSignature sg s =
     (let wireLength = of_nat (length sg) :: byte
      in writeRaw (take (unat wireLength + 1) (sg @ [0])) (writeInt 1 wireLength s))"

section \<open>Containers\<close>

text \<open>The boundary \<open>alignVector<Type_>\<close> aligns to (1 where it does nothing).\<close>

fun alignVector_boundary :: "ty \<Rightarrow> nat" where
  "alignVector_boundary TBool = 1"
| "alignVector_boundary TInt8 = 1"
| "alignVector_boundary TInt16 = 1"
| "alignVector_boundary (TInt32 fd) = 1"
| "alignVector_boundary TInt64 = 8"
| "alignVector_boundary TUInt8 = 1"
| "alignVector_boundary TUInt16 = 1"
| "alignVector_boundary (TUInt32 fd) = 1"
| "alignVector_boundary TUInt64 = 8"
| "alignVector_boundary TFloat = 8"
| "alignVector_boundary TDouble = 8"
| "alignVector_boundary (TString isPath) = 1"
| "alignVector_boundary TVersion = 8"
| "alignVector_boundary (TRanged mn mx) = 8"
| "alignVector_boundary (TEnum E8 isSigned e) = 1"
| "alignVector_boundary (TEnum E16 isSigned e) = 2"
| "alignVector_boundary (TEnum E32 isSigned e) = 4"
| "alignVector_boundary (TStruct ts) = 8"
| "alignVector_boundary (TVariant isDBus ts) = 8"
| "alignVector_boundary TByteBuffer = 1"
| "alignVector_boundary (TVector t) = 1"
| "alignVector_boundary (TMap k v) = 4"

lemma alignVector_boundary_cases: "alignVector_boundary t \<in> {1, 2, 4, 8}"
  by (cases t rule: alignVector_boundary.cases) auto

definition alignVector :: "ty \<Rightarrow> ostream \<Rightarrow> ostream" where
  "alignVector t s = (if alignVector_boundary t = 1 then s else align (alignVector_boundary t) s)"

text \<open>
  A container starts with a placeholder for its length, whose position is pushed, and the
  aligned start of its data, also pushed. The end pops both and patches the placeholder.
\<close>

definition beginWriteVector :: "ty \<Rightarrow> ostream \<Rightarrow> ostream" where
  "beginWriteVector t s =
     pushPosition (alignVector t (writeInt 4 (0 :: u32) (pushPosition (align 4 s))))"

definition beginWriteMap :: "ostream \<Rightarrow> ostream" where
  "beginWriteMap s = pushPosition (align 8 (writeInt 4 (0 :: u32) (pushPosition (align 4 s))))"

definition beginWriteVectorOfSerializableStructs :: "ostream \<Rightarrow> ostream" where
  "beginWriteVectorOfSerializableStructs s =
     pushPosition (align 8 (writeInt 4 (0 :: u32) (pushPosition (align 4 s))))"

definition endWriteVector :: "ostream \<Rightarrow> ostream" where
  "endWriteVector s =
     (let (start, s1) = popPosition s;
          len = of_nat (getPosition s - start) :: u32;
          (pos, s2) = popPosition s1
      in writeIntAt 4 pos len s2)"

definition endWriteMap :: "ostream \<Rightarrow> ostream" where
  "endWriteMap s =
     (let (start, s1) = popPosition s;
          len = of_nat (getPosition s - start) :: u32;
          (pos, s2) = popPosition s1
      in writeIntAt 4 pos len s2)"

text \<open>The loops over the elements. A map returns at once on an error, a vector leaves the loop.\<close>

fun writeElems :: "(val \<Rightarrow> ostream \<Rightarrow> ostream) \<Rightarrow> val list \<Rightarrow> ostream \<Rightarrow> ostream" where
  "writeElems wr [] s = s"
| "writeElems wr (v # vs) s = (let s' = wr v s in if hasError s' then s' else writeElems wr vs s')"

fun writeEntries :: "(val \<Rightarrow> ostream \<Rightarrow> ostream) \<Rightarrow> (val \<Rightarrow> ostream \<Rightarrow> ostream) \<Rightarrow>
    (val \<times> val) list \<Rightarrow> ostream \<Rightarrow> ostream" where
  "writeEntries wk wv [] s = endWriteMap s"
| "writeEntries wk wv ((k, v) # es) s =
     (let s' = wv v (wk k (align 8 s)) in if hasError s' then s' else writeEntries wk wv es s')"

section \<open>The overloads of writeValue\<close>

text \<open>
  One equation per overload. The inner \<open>case\<close> binds the value; its default branch is for
  values of another type, which C++ rules out. \<open>writeFields\<close> is \<open>StructWriter\<close>: the fields
  in order. \<open>writeAlternative\<close> is the pair of visitors of a variant: the signature of the
  visited alternative, then its value.
\<close>

fun writeValue :: "ext \<Rightarrow> ty \<Rightarrow> val \<Rightarrow> ostream \<Rightarrow> ostream"
  and writeFields :: "ext \<Rightarrow> ty list \<Rightarrow> val list \<Rightarrow> ostream \<Rightarrow> ostream"
  and writeAlternative :: "ext \<Rightarrow> ty list \<Rightarrow> nat \<Rightarrow> val \<Rightarrow> ostream \<Rightarrow> ostream" where
  "writeValue E TBool v s = (case v of VBool b \<Rightarrow> writeInt 4 (if b then 1 else 0 :: u32) s | _ \<Rightarrow> s)"
| "writeValue E TInt8 v s = (case v of V8 w \<Rightarrow> writeInt 1 w s | _ \<Rightarrow> s)"
| "writeValue E TInt16 v s = (case v of V16 w \<Rightarrow> writeInt 2 w s | _ \<Rightarrow> s)"
| "writeValue E (TInt32 fd) v s = (case v of V32 w \<Rightarrow> writeInt 4 w s | _ \<Rightarrow> s)"
| "writeValue E TInt64 v s = (case v of V64 w \<Rightarrow> writeInt 8 w s | _ \<Rightarrow> s)"
| "writeValue E TUInt8 v s = (case v of V8 w \<Rightarrow> writeInt 1 w s | _ \<Rightarrow> s)"
| "writeValue E TUInt16 v s = (case v of V16 w \<Rightarrow> writeInt 2 w s | _ \<Rightarrow> s)"
| "writeValue E (TUInt32 fd) v s = (case v of V32 w \<Rightarrow> writeInt 4 w s | _ \<Rightarrow> s)"
| "writeValue E TUInt64 v s = (case v of V64 w \<Rightarrow> writeInt 8 w s | _ \<Rightarrow> s)"
| "writeValue E TFloat v s = (case v of VFloat w \<Rightarrow> writeInt 8 (float_to_double w) s | _ \<Rightarrow> s)"
| "writeValue E TDouble v s = (case v of VDouble w \<Rightarrow> writeInt 8 w s | _ \<Rightarrow> s)"
| "writeValue E (TString isPath) v s =
     (case v of VString bs \<Rightarrow> writeString bs (of_nat (length bs)) s | _ \<Rightarrow> s)"
| "writeValue E TVersion v s =
     (case v of VVersion major minor \<Rightarrow> writeInt 4 minor (writeInt 4 major (align 8 s)) | _ \<Rightarrow> s)"
| "writeValue E (TRanged mn mx) v s =
     (case v of V32 w \<Rightarrow> if ranged_valid E mn mx (sint w) then writeInt 4 w s else setError s
      | _ \<Rightarrow> s)"
| "writeValue E (TEnum base isSigned e) v s =
     (case v of V8 w \<Rightarrow> if base = E8 then writeInt 1 w s else s
      | V16 w \<Rightarrow> if base = E16 then writeInt 2 w s else s
      | V32 w \<Rightarrow> if base = E32 then writeInt 4 w s else s
      | _ \<Rightarrow> s)"
| "writeValue E (TStruct ts) v s =
     (case v of VStruct vs \<Rightarrow> writeFields E ts vs (align 8 s) | _ \<Rightarrow> s)"
| "writeValue E (TVariant isDBus ts) v s =
     (case v of VVariant k x \<Rightarrow>
        (let s1 = (if isDBus then align 1 s else writeInt 1 k (align 8 s))
         in case visit E (length ts) k of
              None \<Rightarrow> writeSignature [] s1
            | Some i \<Rightarrow> writeAlternative E ts i x s1)
      | _ \<Rightarrow> s)"
| "writeValue E TByteBuffer v s =
     (case v of VBytes bs \<Rightarrow> writeByteBuffer bs (of_nat (length bs)) (align 4 s) | _ \<Rightarrow> s)"
| "writeValue E (TVector t) v s =
     (case v of VVector vs \<Rightarrow>
        endWriteVector (writeElems (\<lambda>x s. writeValue E t x s) vs (beginWriteVector t s))
      | _ \<Rightarrow> s)"
| "writeValue E (TMap kt vt) v s =
     (case v of VMap es \<Rightarrow>
        writeEntries (\<lambda>x s. writeValue E kt x s) (\<lambda>x s. writeValue E vt x s) es (beginWriteMap s)
      | _ \<Rightarrow> s)"
| "writeFields E [] vs s = s"
| "writeFields E (t # ts) vs s =
     (case vs of v # vs' \<Rightarrow> writeFields E ts vs' (writeValue E t v s) | [] \<Rightarrow> s)"
| "writeAlternative E [] i v s = s"
| "writeAlternative E (t # ts) i v s =
     (case i of 0 \<Rightarrow> writeValue E t v (writeSignature (sig_bytes t) s)
      | Suc i' \<Rightarrow> writeAlternative E ts i' v s)"

text \<open>\<open>flush\<close> copies the payload into the body of the message.\<close>

definition flush :: "ostream \<Rightarrow> byte list" where
  "flush s = payload s"

end
