(* ===== verification/In_Stream.thy ===== *)
theory In_Stream
  imports Out_Stream
begin

text \<open>
  \<open>DBusInputStream\<close> (\<open>DBusInputStream.hpp\<close>, \<open>DBusInputStream.cpp\<close>): the stream that reads
  values out of the body of a message. Its state is the body (\<open>begin_\<close>, \<open>size_\<close>),
  \<open>current_\<close>, whether \<open>exception_\<close> is set, and the stacks \<open>sizes_\<close> and \<open>positions_\<close> (the
  head of a list is \<open>back()\<close>).

  Two fields record what C++ leaves undefined or unbounded. \<open>oob\<close> is set when a string is
  read through a pointer beyond the end of the body; \<open>hang\<close> when an element loop makes more
  iterations than its fuel, which is a loop that does not end.
\<close>

record istream =
  body :: "byte list"
  current :: nat
  exception :: bool
  sizes :: "u32 list"
  marks :: "nat list"
  oob :: bool
  hang :: bool

definition new_istream :: "byte list \<Rightarrow> istream" where
  "new_istream bs = \<lparr>body = bs, current = 0, exception = False, sizes = [], marks = [],
     oob = False, hang = False\<rparr>"

section \<open>Raw operations\<close>

definition isErrorSet :: "istream \<Rightarrow> bool" where
  "isErrorSet s = exception s"

definition clearError :: "istream \<Rightarrow> istream" where
  "clearError s = s\<lparr>exception := False\<rparr>"

definition in_setError :: "istream \<Rightarrow> istream" where
  "in_setError s = s\<lparr>exception := True\<rparr>"

text \<open>The mask is an \<open>unsigned int\<close>, and its complement is taken at that width.\<close>

definition in_align :: "nat \<Rightarrow> istream \<Rightarrow> istream" where
  "in_align boundary s =
     (let mask = (of_nat boundary :: u32) - 1
      in s\<lparr>current := unat ((of_nat (current s) + ucast mask :: u64) AND ucast (NOT mask))\<rparr>)"

text \<open>
  \<open>_readRaw\<close> hands out the next bytes, or \<open>NULL\<close> with the error set. Sizes are below
  \<open>2^32 + 1\<close> and \<open>current_\<close> does not pass the end of the body by more than seven bytes, so
  the sum does not wrap.
\<close>

definition readRaw :: "nat \<Rightarrow> istream \<Rightarrow> byte list option \<times> istream" where
  "readRaw n s =
     (if current s + n > length (body s) then (None, in_setError s)
      else (Some (take n (drop (current s) (body s))), s\<lparr>current := current s + n\<rparr>))"

definition in_pushPosition :: "istream \<Rightarrow> istream" where
  "in_pushPosition s = s\<lparr>marks := current s # marks s\<rparr>"

definition in_popPosition :: "istream \<Rightarrow> nat \<times> istream" where
  "in_popPosition s = (hd (marks s), s\<lparr>marks := tl (marks s)\<rparr>)"

definition pushSize :: "u32 \<Rightarrow> istream \<Rightarrow> istream" where
  "pushSize n s = s\<lparr>sizes := n # sizes s\<rparr>"

definition popSize :: "istream \<Rightarrow> u32 \<times> istream" where
  "popSize s = (hd (sizes s), s\<lparr>sizes := tl (sizes s)\<rparr>)"

text \<open>\<open>_readValue\<close> for integers and \<open>double\<close>: \<open>None\<close> leaves the target as it was.\<close>

definition readInt :: "nat \<Rightarrow> istream \<Rightarrow> 'a::len word option \<times> istream" where
  "readInt n s =
     (let (raw, s') = readRaw n (if n > 1 then in_align n s else s)
      in (if isErrorSet s' then None else map_option of_le raw, s'))"

definition orelse :: "'a option \<Rightarrow> 'a \<Rightarrow> 'a" where
  "orelse x d = (case x of Some y \<Rightarrow> y | None \<Rightarrow> d)"

definition as_val :: "('a \<Rightarrow> val) \<Rightarrow> 'a option \<Rightarrow> val" where
  "as_val f x = (case x of Some y \<Rightarrow> f y | None \<Rightarrow> VUnset)"

definition skipSignature :: "istream \<Rightarrow> istream" where
  "skipSignature s =
     (let (len, s1) = readInt 1 s in snd (readRaw (unat (orelse len 0 :: byte) + 1) s1))"

section \<open>Leaves\<close>

definition readBool :: "istream \<Rightarrow> val \<times> istream" where
  "readBool s =
     (let (r, s1) = readInt 4 s; tmp = orelse r (2 :: u32)
      in (VBool (tmp \<noteq> 0), if tmp > 1 then in_setError s1 else s1))"

text \<open>
  The assignment \<open>_value = data\<close> of a \<open>char *\<close> copies up to the first terminator, wherever
  that is. \<open>length + 1\<close> is computed at 32 bits.
\<close>

definition c_string :: "byte list \<Rightarrow> byte list" where
  "c_string mem = takeWhile (\<lambda>b. b \<noteq> 0) mem"

definition readString :: "istream \<Rightarrow> val \<times> istream" where
  "readString s =
     (let (r, s1) = readInt 4 s;
          len = orelse r (0 :: u32);
          data = drop (current s1) (body s1);
          (raw, s2) = readRaw (unat (len + 1)) s1
      in if isErrorSet s2 then (VUnset, s2)
         else (VString (c_string data), s2\<lparr>oob := oob s2 \<or> 0 \<notin> set data\<rparr>))"

definition readVersion :: "istream \<Rightarrow> val \<times> istream" where
  "readVersion s =
     (let (major, s1) = readInt 4 (in_align 8 s); (minor, s2) = readInt 4 s1
      in (VVersion (orelse major 0) (orelse minor 0), s2))"

definition readRanged :: "ext \<Rightarrow> int \<Rightarrow> int \<Rightarrow> istream \<Rightarrow> val \<times> istream" where
  "readRanged E mn mx s =
     (let (tmpValue, s1) = readInt 4 s;
          s2 = (if ranged_valid E mn mx (ranged_init E mn mx) then s1 else in_setError s1)
      in (if isErrorSet s2 then VUnset else as_val V32 tmpValue, s2))"

definition readEnum :: "ext \<Rightarrow> ebase \<Rightarrow> nat \<Rightarrow> istream \<Rightarrow> val \<times> istream" where
  "readEnum E base e s =
     (case base of
        E8 \<Rightarrow> (let (r, s1) = readInt 1 s
          in (as_val V8 r, case r of Some w \<Rightarrow> if enum_valid E e (ucast w) then s1 else in_setError s1 | None \<Rightarrow> s1))
      | E16 \<Rightarrow> (let (r, s1) = readInt 2 s
          in (as_val V16 r, case r of Some w \<Rightarrow> if enum_valid E e (ucast w) then s1 else in_setError s1 | None \<Rightarrow> s1))
      | E32 \<Rightarrow> (let (r, s1) = readInt 4 s
          in (as_val V32 r, case r of Some w \<Rightarrow> if enum_valid E e w then s1 else in_setError s1 | None \<Rightarrow> s1)))"

definition readByteBuffer :: "istream \<Rightarrow> val \<times> istream" where
  "readByteBuffer s =
     (let (r, s1) = readInt 4 s; (raw, s2) = readRaw (unat (orelse r (0 :: u32))) s1
      in (if isErrorSet s2 then VUnset else as_val VBytes raw, s2))"

section \<open>Containers\<close>

definition in_alignVector :: "ty \<Rightarrow> istream \<Rightarrow> istream" where
  "in_alignVector t s = (if alignVector_boundary t = 1 then s else in_align (alignVector_boundary t) s)"

text \<open>
  The element loop of a vector or a map: while the recorded size is not used up, read one
  element; on an error leave the loop without it.
\<close>

fun readLoop :: "(istream \<Rightarrow> 'a \<times> istream) \<Rightarrow> nat \<Rightarrow> istream \<Rightarrow> 'a list \<times> istream" where
  "readLoop rd 0 s = ([], s\<lparr>hang := True\<rparr>)"
| "readLoop rd (Suc fuel) s =
     (if unat (hd (sizes s)) > current s - hd (marks s) then
        (case rd s of (v, s') \<Rightarrow>
           if isErrorSet s' then ([], s')
           else (case readLoop rd fuel s' of (vs, s'') \<Rightarrow> (v # vs, s'')))
      else ([], s))"

text \<open>
  An element takes at least one byte and \<open>current_\<close> stays within seven bytes of the body, so
  this fuel is never used up (\<open>readValue_no_hang\<close>).
\<close>

definition loop_fuel :: "istream \<Rightarrow> nat" where
  "loop_fuel s = length (body s) + 9"

definition readVector :: "ty \<Rightarrow> (istream \<Rightarrow> val \<times> istream) \<Rightarrow> istream \<Rightarrow> val \<times> istream" where
  "readVector t rd s =
     (let (itsSize, s1) = readInt 4 s;
          s2 = in_pushPosition (in_alignVector t (pushSize (orelse itsSize 0) s1));
          (vs, s3) = readLoop rd (loop_fuel s2) s2
      in (VVector vs, snd (in_popPosition (snd (popSize s3)))))"

definition readEntry :: "(istream \<Rightarrow> val \<times> istream) \<Rightarrow> (istream \<Rightarrow> val \<times> istream) \<Rightarrow> istream \<Rightarrow>
    (val \<times> val) \<times> istream" where
  "readEntry rk rv s =
     (let (k, s1) = rk (in_align 8 s); (v, s2) = rv s1 in ((k, v), s2))"

definition insert_entries :: "('k \<times> 'v) list \<Rightarrow> ('k \<times> 'v) list" where
  "insert_entries es = fold (\<lambda>(k, v) m. al_insert k v m) es []"

definition readMap :: "(istream \<Rightarrow> val \<times> istream) \<Rightarrow> (istream \<Rightarrow> val \<times> istream) \<Rightarrow> istream \<Rightarrow>
    val \<times> istream" where
  "readMap rk rv s =
     (let (itsSize, s1) = readInt 4 s;
          s2 = in_pushPosition (in_align 8 (pushSize (orelse itsSize 0) s1));
          (es, s3) = readLoop (readEntry rk rv) (loop_fuel s2) s2
      in (VMap (insert_entries es), snd (in_popPosition (snd (popSize s3)))))"

text \<open>The operations generated code uses to read a map of polymorphic structs itself.\<close>

definition beginReadMapOfSerializableStructs :: "istream \<Rightarrow> istream" where
  "beginReadMapOfSerializableStructs s =
     (let (itsSize, s1) = readInt 4 s in in_pushPosition (in_align 8 (pushSize (orelse itsSize 0) s1)))"

definition readMapCompleted :: "istream \<Rightarrow> bool" where
  "readMapCompleted s \<longleftrightarrow> unat (hd (sizes s)) \<le> current s - hd (marks s)"

definition endReadMapOfSerializableStructs :: "istream \<Rightarrow> istream" where
  "endReadMapOfSerializableStructs s = snd (in_popPosition (snd (popSize s)))"

definition skipMap :: "istream \<Rightarrow> istream" where
  "skipMap s =
     (let (itsSize, s1) = readInt 4 s in snd (readRaw (unat (orelse itsSize (0 :: u32))) (in_align 8 s1)))"

section \<open>The overloads of readValue\<close>

text \<open>
  \<open>readFields\<close> is \<open>StructReader\<close>, \<open>readAlternative\<close> the visitor that reads the content of
  the alternative \<open>visit\<close> selects.
\<close>

definition readDBusVariantType :: "ty list \<Rightarrow> istream \<Rightarrow> byte option \<times> istream" where
  "readDBusVariantType ts s =
     (let (r, s1) = readInt 1 s;
          signatureLength = unat (orelse r (0 :: byte));
          (raw, s2) = readRaw (signatureLength + 1) s1
      in if isErrorSet s2 then (None, s2)
         else (case ApplyTypeCompareVisitor (map (\<lambda>b. char_of (unat b)) (take signatureLength (orelse raw []))) ts of
            (success, valueType) \<Rightarrow> if success then (Some valueType, s2) else (None, in_setError s2)))"

definition readVariantType :: "istream \<Rightarrow> byte \<times> istream" where
  "readVariantType s = (let (k, s1) = readInt 1 (in_align 8 s) in (orelse k 0, skipSignature s1))"

fun readValue :: "ext \<Rightarrow> ty \<Rightarrow> istream \<Rightarrow> val \<times> istream"
  and readFields :: "ext \<Rightarrow> ty list \<Rightarrow> istream \<Rightarrow> val list \<times> istream"
  and readAlternative :: "ext \<Rightarrow> ty list \<Rightarrow> nat \<Rightarrow> istream \<Rightarrow> val \<times> istream" where
  "readValue E TBool s = readBool s"
| "readValue E TInt8 s = apfst (as_val V8) (readInt 1 s)"
| "readValue E TInt16 s = apfst (as_val V16) (readInt 2 s)"
| "readValue E (TInt32 fd) s = apfst (as_val V32) (readInt 4 s)"
| "readValue E TInt64 s = apfst (as_val V64) (readInt 8 s)"
| "readValue E TUInt8 s = apfst (as_val V8) (readInt 1 s)"
| "readValue E TUInt16 s = apfst (as_val V16) (readInt 2 s)"
| "readValue E (TUInt32 fd) s = apfst (as_val V32) (readInt 4 s)"
| "readValue E TUInt64 s = apfst (as_val V64) (readInt 8 s)"
| "readValue E TFloat s = apfst (as_val (\<lambda>w. VFloat (double_to_float w))) (readInt 8 s)"
| "readValue E TDouble s = apfst (as_val VDouble) (readInt 8 s)"
| "readValue E (TString isPath) s = readString s"
| "readValue E TVersion s = readVersion s"
| "readValue E (TRanged mn mx) s = readRanged E mn mx s"
| "readValue E (TEnum base isSigned e) s = readEnum E base e s"
| "readValue E (TStruct ts) s = apfst VStruct (readFields E ts (in_align 8 s))"
| "readValue E (TVariant isDBus ts) s =
     (if isDBus then
        (case readDBusVariantType ts s of
           (None, s1) \<Rightarrow> (VUnset, s1)
         | (Some k, s1) \<Rightarrow>
             (case visit E (length ts) k of None \<Rightarrow> (VVariant k VUnset, s1)
              | Some i \<Rightarrow> apfst (VVariant k) (readAlternative E ts i s1)))
      else
        (case readVariantType s of
           (k, s1) \<Rightarrow>
             (case visit E (length ts) k of None \<Rightarrow> (VVariant k VUnset, s1)
              | Some i \<Rightarrow> apfst (VVariant k) (readAlternative E ts i s1))))"
| "readValue E TByteBuffer s = readByteBuffer s"
| "readValue E (TVector t) s = readVector t (\<lambda>s. readValue E t s) s"
| "readValue E (TMap kt vt) s = readMap (\<lambda>s. readValue E kt s) (\<lambda>s. readValue E vt s) s"
| "readFields E [] s = ([], s)"
| "readFields E (t # ts) s =
     (case readValue E t s of (v, s1) \<Rightarrow> apfst ((#) v) (readFields E ts s1))"
| "readAlternative E [] i s = (VUnset, s)"
| "readAlternative E (t # ts) i s =
     (case i of 0 \<Rightarrow> readValue E t s | Suc i' \<Rightarrow> readAlternative E ts i' s)"

end
