(* ===== verification/Wire_Format.thy ===== *)
theory Wire_Format
  imports Out_Stream
begin

text \<open>
  What the output stream puts on the wire, as a function of the value and the position it is
  written at: no placeholders, no position stack, no error flag. \<open>write_refines\<close> is the
  refinement: the imperative writer with its back-patched lengths appends exactly \<open>enc\<close>.
\<close>

section \<open>Alignment\<close>

lemma necessary_eq:
  assumes "b = 2 ^ k" "k \<le> 3"
  shows "unat ((((of_nat b :: u64) - 1 - (of_nat p AND (of_nat b - 1))) + 1) AND (of_nat b - 1)) = pad b p"
proof -
  have mask: "(of_nat b :: u64) - 1 = mask k" using assms by (simp add: mask_eq_exp_minus_1)
  have r: "(of_nat p :: u64) AND mask k = of_nat (p mod b)"
    unfolding take_bit_eq_mask [symmetric] of_nat_take_bit [symmetric]
    by (simp add: assms take_bit_eq_mod)
  have lt: "p mod b < b" using assms by simp
  have "(of_nat b :: u64) - 1 - of_nat (p mod b) + 1 = of_nat (b - p mod b)"
    using lt by (simp add: of_nat_diff)
  then have "(((of_nat b :: u64) - 1 - of_nat (p mod b)) + 1) AND mask k = take_bit k (of_nat (b - p mod b))"
    by (simp add: take_bit_eq_mask)
  moreover have "take_bit k (of_nat (b - p mod b) :: u64) = of_nat ((b - p mod b) mod b)"
    unfolding of_nat_take_bit [symmetric] by (simp add: assms take_bit_eq_mod)
  moreover have "unat (of_nat ((b - p mod b) mod b) :: u64) = (b - p mod b) mod b"
  proof -
    have "b \<le> 8" using assms by (auto simp: le_Suc_eq numeral_3_eq_3)
    moreover have "(b - p mod b) mod b < b" using lt by simp
    ultimately have "(b - p mod b) mod b < 2 ^ 64" by simp
    then show ?thesis by (simp add: unat_of_nat)
  qed
  ultimately show ?thesis unfolding mask r by (simp add: pad_def)
qed

lemma align_eq:
  assumes "b \<in> {1, 2, 4, 8}"
  shows "align b s = s\<lparr>payload := payload s @ replicate (pad b (length (payload s))) 0\<rparr>"
proof -
  obtain k where k: "b = 2 ^ k" "k \<le> 3"
  proof -
    from assms consider "b = 1" | "b = 2" | "b = 4" | "b = 8" by auto
    then show ?thesis
      by cases (use that[of 0] that[of 1] that[of 2] that[of 3] in auto)
  qed
  have "pad b (length (payload s)) < 8"
    using assms pad_less[of b "length (payload s)"] by auto
  then show ?thesis
    unfolding align_def Let_def necessary_eq[OF k] by (simp add: writeRaw_def eightByteZeroString_def)
qed

section \<open>The encoding\<close>

definition zeros :: "nat \<Rightarrow> byte list" where
  "zeros n = replicate n 0"

definition encInt :: "nat \<Rightarrow> 'a::len word \<Rightarrow> nat \<Rightarrow> byte list" where
  "encInt n w p = zeros (pad n p) @ to_le n w"

definition encSignature :: "byte list \<Rightarrow> byte list" where
  "encSignature sg = [of_nat (length sg)] @ sg @ [0]"

fun encElems :: "('a \<Rightarrow> nat \<Rightarrow> byte list) \<Rightarrow> 'a list \<Rightarrow> nat \<Rightarrow> byte list" where
  "encElems en [] p = []"
| "encElems en (v # vs) p = en v p @ encElems en vs (p + length (en v p))"

fun encEntries :: "(val \<Rightarrow> nat \<Rightarrow> byte list) \<Rightarrow> (val \<Rightarrow> nat \<Rightarrow> byte list) \<Rightarrow>
    (val \<times> val) list \<Rightarrow> nat \<Rightarrow> byte list" where
  "encEntries ek ev [] p = []"
| "encEntries ek ev ((k, v) # es) p =
     (let a = zeros (pad 8 p) @ ek k (roundup 8 p);
          b = a @ ev v (p + length a)
      in b @ encEntries ek ev es (p + length b))"

text \<open>A counted block: the length at a multiple of 4, padding to the elements' boundary, the data.\<close>

definition encBlock :: "nat \<Rightarrow> (nat \<Rightarrow> byte list) \<Rightarrow> nat \<Rightarrow> byte list" where
  "encBlock b body p =
     (let q = roundup 4 p + 4; data = body (roundup b q)
      in encInt 4 (of_nat (length data) :: u32) p @ zeros (pad b q) @ data)"

fun enc :: "ext \<Rightarrow> ty \<Rightarrow> val \<Rightarrow> nat \<Rightarrow> byte list"
  and encFields :: "ext \<Rightarrow> ty list \<Rightarrow> val list \<Rightarrow> nat \<Rightarrow> byte list"
  and encAlternative :: "ext \<Rightarrow> ty list \<Rightarrow> nat \<Rightarrow> val \<Rightarrow> nat \<Rightarrow> byte list" where
  "enc E TBool v p = (case v of VBool b \<Rightarrow> encInt 4 (if b then 1 else 0 :: u32) p | _ \<Rightarrow> [])"
| "enc E TInt8 v p = (case v of V8 w \<Rightarrow> encInt 1 w p | _ \<Rightarrow> [])"
| "enc E TInt16 v p = (case v of V16 w \<Rightarrow> encInt 2 w p | _ \<Rightarrow> [])"
| "enc E (TInt32 fd) v p = (case v of V32 w \<Rightarrow> encInt 4 w p | _ \<Rightarrow> [])"
| "enc E TInt64 v p = (case v of V64 w \<Rightarrow> encInt 8 w p | _ \<Rightarrow> [])"
| "enc E TUInt8 v p = (case v of V8 w \<Rightarrow> encInt 1 w p | _ \<Rightarrow> [])"
| "enc E TUInt16 v p = (case v of V16 w \<Rightarrow> encInt 2 w p | _ \<Rightarrow> [])"
| "enc E (TUInt32 fd) v p = (case v of V32 w \<Rightarrow> encInt 4 w p | _ \<Rightarrow> [])"
| "enc E TUInt64 v p = (case v of V64 w \<Rightarrow> encInt 8 w p | _ \<Rightarrow> [])"
| "enc E TFloat v p = (case v of VFloat w \<Rightarrow> encInt 8 (float_to_double w) p | _ \<Rightarrow> [])"
| "enc E TDouble v p = (case v of VDouble w \<Rightarrow> encInt 8 w p | _ \<Rightarrow> [])"
| "enc E (TString isPath) v p =
     (case v of VString bs \<Rightarrow> encInt 4 (of_nat (length bs) :: u32) p @ bs @ [0] | _ \<Rightarrow> [])"
| "enc E TVersion v p =
     (case v of VVersion major minor \<Rightarrow> zeros (pad 8 p) @ to_le 4 major @ to_le 4 minor | _ \<Rightarrow> [])"
| "enc E (TRanged mn mx) v p = (case v of V32 w \<Rightarrow> encInt 4 w p | _ \<Rightarrow> [])"
| "enc E (TEnum base isSigned e) v p =
     (case v of V8 w \<Rightarrow> encInt 1 w p | V16 w \<Rightarrow> encInt 2 w p | V32 w \<Rightarrow> encInt 4 w p | _ \<Rightarrow> [])"
| "enc E (TStruct ts) v p =
     (case v of VStruct vs \<Rightarrow> zeros (pad 8 p) @ encFields E ts vs (roundup 8 p) | _ \<Rightarrow> [])"
| "enc E (TVariant isDBus ts) v p =
     (case v of VVariant k x \<Rightarrow>
        (case visit E (length ts) k of None \<Rightarrow> []
         | Some i \<Rightarrow> let a = (if isDBus then [] else zeros (pad 8 p) @ [k])
                     in a @ encAlternative E ts i x (p + length a))
      | _ \<Rightarrow> [])"
| "enc E TByteBuffer v p =
     (case v of VBytes bs \<Rightarrow> encInt 4 (of_nat (length bs) :: u32) p @ bs | _ \<Rightarrow> [])"
| "enc E (TVector t) v p =
     (case v of VVector vs \<Rightarrow>
        encBlock (alignVector_boundary t) (encElems (\<lambda>x p. enc E t x p) vs) p | _ \<Rightarrow> [])"
| "enc E (TMap kt vt) v p =
     (case v of VMap es \<Rightarrow>
        encBlock 8 (encEntries (\<lambda>x p. enc E kt x p) (\<lambda>x p. enc E vt x p) es) p | _ \<Rightarrow> [])"
| "encFields E [] vs p = []"
| "encFields E (t # ts) vs p =
     (case vs of v # vs' \<Rightarrow> enc E t v p @ encFields E ts vs' (p + length (enc E t v p)) | [] \<Rightarrow> [])"
| "encAlternative E [] i v p = []"
| "encAlternative E (t # ts) i v p =
     (case i of 0 \<Rightarrow> (let a = encSignature (sig_bytes t) in a @ enc E t v (p + length a))
      | Suc i' \<Rightarrow> encAlternative E ts i' v p)"

section \<open>Values of a type\<close>

text \<open>
  \<open>wt E t v\<close>: \<open>v\<close> is a value the streams carry faithfully at type \<open>t\<close>. Strings hold no
  terminator and their length fits 32 bits, integers with a range and enumerations are
  valid, floats are not signalling, the visited alternative of a variant exists and its
  signature fits the length byte. A D-Bus variant carries no index on the wire, so its
  alternative has to be the first of its D-Bus type.
\<close>

fun wt :: "ext \<Rightarrow> ty \<Rightarrow> val \<Rightarrow> bool"
  and wtFields :: "ext \<Rightarrow> ty list \<Rightarrow> val list \<Rightarrow> bool"
  and wtAlternative :: "ext \<Rightarrow> ty list \<Rightarrow> nat \<Rightarrow> val \<Rightarrow> bool" where
  "wt E TBool v = (case v of VBool b \<Rightarrow> True | _ \<Rightarrow> False)"
| "wt E TInt8 v = (case v of V8 w \<Rightarrow> True | _ \<Rightarrow> False)"
| "wt E TInt16 v = (case v of V16 w \<Rightarrow> True | _ \<Rightarrow> False)"
| "wt E (TInt32 fd) v = (case v of V32 w \<Rightarrow> True | _ \<Rightarrow> False)"
| "wt E TInt64 v = (case v of V64 w \<Rightarrow> True | _ \<Rightarrow> False)"
| "wt E TUInt8 v = (case v of V8 w \<Rightarrow> True | _ \<Rightarrow> False)"
| "wt E TUInt16 v = (case v of V16 w \<Rightarrow> True | _ \<Rightarrow> False)"
| "wt E (TUInt32 fd) v = (case v of V32 w \<Rightarrow> True | _ \<Rightarrow> False)"
| "wt E TUInt64 v = (case v of V64 w \<Rightarrow> True | _ \<Rightarrow> False)"
| "wt E TFloat v = (case v of VFloat w \<Rightarrow> \<not> is_snan w | _ \<Rightarrow> False)"
| "wt E TDouble v = (case v of VDouble w \<Rightarrow> True | _ \<Rightarrow> False)"
| "wt E (TString isPath) v =
     (case v of VString bs \<Rightarrow> 0 \<notin> set bs \<and> length bs < 2 ^ 32 - 1 | _ \<Rightarrow> False)"
| "wt E TVersion v = (case v of VVersion a b \<Rightarrow> True | _ \<Rightarrow> False)"
| "wt E (TRanged mn mx) v =
     (case v of V32 w \<Rightarrow> ranged_valid E mn mx (sint w) | _ \<Rightarrow> False)"
| "wt E (TEnum base isSigned e) v =
     (case v of V8 w \<Rightarrow> base = E8 \<and> enum_valid E e (ucast w)
      | V16 w \<Rightarrow> base = E16 \<and> enum_valid E e (ucast w)
      | V32 w \<Rightarrow> base = E32 \<and> enum_valid E e w | _ \<Rightarrow> False)"
| "wt E (TStruct ts) v = (case v of VStruct vs \<Rightarrow> wtFields E ts vs | _ \<Rightarrow> False)"
| "wt E (TVariant isDBus ts) v =
     (case v of VVariant k x \<Rightarrow>
        (case visit E (length ts) k of None \<Rightarrow> False
         | Some i \<Rightarrow> wtAlternative E ts i x \<and>
             (isDBus \<longrightarrow> ApplyTypeCompareVisitor (getSignature (ts ! i)) ts = (True, k)))
      | _ \<Rightarrow> False)"
| "wt E TByteBuffer v = (case v of VBytes bs \<Rightarrow> length bs < 2 ^ 32 | _ \<Rightarrow> False)"
| "wt E (TVector t) v = (case v of VVector vs \<Rightarrow> list_all (\<lambda>x. wt E t x) vs | _ \<Rightarrow> False)"
| "wt E (TMap kt vt) v =
     (case v of VMap es \<Rightarrow> distinct (map fst es) \<and> list_all (\<lambda>e. wt E kt (fst e) \<and> wt E vt (snd e)) es
      | _ \<Rightarrow> False)"
| "wtFields E [] vs = (vs = [])"
| "wtFields E (t # ts) vs = (case vs of v # vs' \<Rightarrow> wt E t v \<and> wtFields E ts vs' | [] \<Rightarrow> False)"
| "wtAlternative E [] i v = False"
| "wtAlternative E (t # ts) i v =
     (case i of 0 \<Rightarrow> wt E t v \<and> length (getSignature t) < 256
      | Suc i' \<Rightarrow> wtAlternative E ts i' v)"

end
