(* ===== verification/Read_Safe.thy ===== *)
theory Read_Safe
  imports In_Stream Wire_Format
begin

text \<open>
  What every read keeps, on any body, well-formed or not: the body and both stacks are as
  before, an error stays set, \<open>current_\<close> does not move back and stays within the padding
  that follows the body, and no element loop runs on forever.
\<close>

section \<open>The invariant of a read\<close>

definition near :: "istream \<Rightarrow> bool" where
  "near s \<longleftrightarrow> length (body s) + 16 < 2 ^ 32 \<and> current s \<le> roundup 8 (length (body s))"

definition reads :: "istream \<Rightarrow> istream \<Rightarrow> bool" where
  "reads s s' \<longleftrightarrow> body s' = body s \<and> sizes s' = sizes s \<and> marks s' = marks s \<and>
     (exception s \<longrightarrow> exception s') \<and> (oob s \<longrightarrow> oob s') \<and> hang s' = hang s \<and>
     current s \<le> current s' \<and> near s'"

definition advances :: "istream \<Rightarrow> istream \<Rightarrow> bool" where
  "advances s s' \<longleftrightarrow> reads s s' \<and> (\<not> exception s' \<longrightarrow> current s < current s')"

lemma reads_refl: "near s \<Longrightarrow> reads s s"
  by (simp add: reads_def)

lemma reads_trans: "reads s s1 \<Longrightarrow> reads s1 s2 \<Longrightarrow> reads s s2"
  by (auto simp: reads_def)

lemma reads_near: "reads s s' \<Longrightarrow> near s'"
  by (simp add: reads_def)

lemma advances_reads: "advances s s' \<Longrightarrow> reads s s'"
  by (simp add: advances_def)

lemma reads_advances: "reads s s1 \<Longrightarrow> advances s1 s2 \<Longrightarrow> advances s s2"
  by (auto simp: advances_def reads_def)

lemma advances_trans: "advances s s1 \<Longrightarrow> reads s1 s2 \<Longrightarrow> advances s s2"
  by (auto simp: advances_def reads_def)

lemmas reads_intros = reads_refl reads_near advances_reads

section \<open>The raw operations\<close>

lemma mask_complement:
  assumes "b = 2 ^ k" "k \<le> 3"
  shows "(ucast ((of_nat b :: u32) - 1) :: u64) = mask k"
    and "(ucast (NOT ((of_nat b :: u32) - 1)) :: u64) = take_bit 32 (NOT (mask k))"
proof -
  have m: "(of_nat b :: u32) - 1 = mask k" using assms by (simp add: mask_eq_exp_minus_1)
  show "(ucast ((of_nat b :: u32) - 1) :: u64) = mask k"
    unfolding m using assms(2) by (intro bit_word_eqI) (auto simp: bit_simps)
  show "(ucast (NOT ((of_nat b :: u32) - 1)) :: u64) = take_bit 32 (NOT (mask k))"
    unfolding m using assms(2) by (intro bit_word_eqI) (auto simp: bit_simps)
qed

lemma and_complement:
  fixes w :: u64
  assumes "unat w < 2 ^ 32" "k \<le> 3"
  shows "unat (w AND take_bit 32 (NOT (mask k))) = unat w div 2 ^ k * 2 ^ k"
proof -
  have w: "take_bit 32 w = w"
    by (rule word_unat_eq_iff [THEN iffD2]) (use assms(1) in \<open>simp add: unsigned_take_bit_eq take_bit_nat_eq_self\<close>)
  have "w AND take_bit 32 (NOT (mask k)) = push_bit k (drop_bit k w)"
  proof (rule bit_word_eqI)
    fix i assume i: "i < LENGTH(64)"
    have "bit w i \<Longrightarrow> i < 32"
      by (subst (asm) w [symmetric]) (simp add: bit_simps)
    then show "bit (w AND take_bit 32 (NOT (mask k))) i \<longleftrightarrow> bit (push_bit k (drop_bit k w)) i"
      using i by (auto simp: bit_simps)
  qed
  moreover have "unat (push_bit k (drop_bit k w)) = push_bit k (drop_bit k (unat w))"
  proof -
    have "push_bit k (drop_bit k (unat w)) \<le> unat w"
      by (simp add: push_bit_eq_mult drop_bit_eq_div)
    then have lt: "push_bit k (drop_bit k (unat w)) < 2 ^ 64" using assms(1) by simp
    moreover have "take_bit 64 (unat w) = unat w" using assms(1) by (simp add: take_bit_nat_eq_self)
    ultimately show ?thesis
      by (simp add: unsigned_push_bit_eq unsigned_drop_bit_eq take_bit_nat_eq_self)
  qed
  ultimately show ?thesis by (simp add: push_bit_eq_mult drop_bit_eq_div)
qed

lemma in_align_eq:
  assumes b: "b \<in> {1, 2, 4, 8}" and s: "current s + 7 < 2 ^ 32"
  shows "in_align b s = s\<lparr>current := roundup b (current s)\<rparr>"
proof -
  obtain k where k: "b = 2 ^ k" "k \<le> 3"
  proof -
    from b consider "b = 1" | "b = 2" | "b = 4" | "b = 8" by auto
    then show ?thesis by cases (use that[of 0] that[of 1] that[of 2] that[of 3] in auto)
  qed
  have b8: "0 < b" "b \<le> 8" using b by auto
  have "(of_nat (current s) + mask k :: u64) = of_nat (current s + (b - 1))"
    unfolding of_nat_add using k b8 by (simp add: mask_eq_exp_minus_1 of_nat_diff)
  moreover have lt: "current s + (b - 1) < 2 ^ 32" using s b8 by simp
  moreover have "unat (of_nat (current s + (b - 1)) :: u64) = current s + (b - 1)"
    using lt by (simp only: unat_of_nat) simp
  ultimately have u: "unat (of_nat (current s) + mask k :: u64) = current s + (b - 1)"
    by simp
  show ?thesis
    unfolding in_align_def Let_def mask_complement[OF k]
    using and_complement[of "of_nat (current s) + mask k" k] u lt k(2)
    by (simp add: roundup_eq b8 k(1))
qed

lemma roundup_mono: "0 < b \<Longrightarrow> p \<le> q \<Longrightarrow> roundup b p \<le> roundup b q"
  by (simp add: roundup_eq div_le_mono)

lemma roundup_8_le:
  assumes "b \<in> {1, 2, 4, 8}" "p \<le> roundup 8 n"
  shows "roundup b p \<le> roundup 8 n"
proof -
  have "b dvd 8" "0 < b" using assms(1) by auto
  then have "b dvd roundup 8 n" using roundup_dvd[of 8 n] by (meson dvd_trans zero_less_numeral)
  then have "roundup b (roundup 8 n) = roundup 8 n"
    using \<open>0 < b\<close> by (simp add: roundup_def pad_dvd)
  then show ?thesis using roundup_mono[OF \<open>0 < b\<close> assms(2)] by simp
qed

lemma roundup_8_less: "roundup 8 n < n + 8"
  using pad_less[of 8 n] by (simp add: roundup_def)

lemma near_align [stream_simps]:
  assumes "near s" "b \<in> {1, 2, 4, 8}"
  shows "in_align b s = s\<lparr>current := roundup b (current s)\<rparr>"
  by (rule in_align_eq[OF assms(2)])
     (use assms(1) roundup_8_less[of "length (body s)"] in \<open>simp add: near_def\<close>)

lemma reads_align: "near s \<Longrightarrow> b \<in> {1, 2, 4, 8} \<Longrightarrow> reads s (in_align b s)"
  using roundup_8_le[of b "current s" "length (body s)"] roundup_ge[of "current s" b]
  by (simp add: near_align reads_def near_def)

lemma reads_setError: "near s \<Longrightarrow> reads s (in_setError s)"
  by (simp add: reads_def in_setError_def near_def)

lemma reads_readRaw: "near s \<Longrightarrow> reads s (snd (readRaw n s))"
  using roundup_ge[of "length (body s)" 8]
  by (auto simp: reads_def readRaw_def in_setError_def near_def)

lemma advances_readRaw: "near s \<Longrightarrow> 0 < n \<Longrightarrow> advances s (snd (readRaw n s))"
  using reads_readRaw[of s n] by (auto simp: advances_def readRaw_def in_setError_def)

lemma advances_readInt:
  assumes "near s" "n \<in> {1, 2, 4, 8}"
  shows "advances s (snd (readInt n s))"
proof -
  let ?s = "if n > 1 then in_align n s else s"
  have "reads s ?s" using assms(1) reads_align[OF assms] by (simp add: reads_refl)
  moreover have "advances ?s (snd (readRaw n ?s))"
    using reads_near[OF \<open>reads s ?s\<close>] assms(2) by (intro advances_readRaw) auto
  ultimately show ?thesis
    unfolding readInt_def Let_def by (auto simp: split_beta intro: reads_advances)
qed

lemma advances_setError: "advances s s' \<Longrightarrow> advances s (in_setError s')"
  using reads_setError[of s'] by (meson advances_trans advances_reads reads_near)

text \<open>The same facts for a read that is part of a larger one.\<close>

lemma readIntD: "readInt n s = (r, s') \<Longrightarrow> near s \<Longrightarrow> n \<in> {1, 2, 4, 8} \<Longrightarrow> advances s s'"
  using advances_readInt[of s n] by (metis snd_conv)

lemma readRawD: "readRaw n s = (r, s') \<Longrightarrow> near s \<Longrightarrow> reads s s'"
  using reads_readRaw[of s n] by simp

section \<open>Leaves\<close>

lemma advances_skipSignature:
  assumes "near s" shows "advances s (skipSignature s)"
proof -
  obtain r s1 where r: "readInt 1 s = (r :: byte option, s1)" by force
  have "advances s s1" using readIntD[OF r assms] by simp
  moreover from this have "near s1" by (meson advances_reads reads_near)
  ultimately show ?thesis
    by (simp add: skipSignature_def r advances_trans[OF _ reads_readRaw] del: One_nat_def)
qed

lemma advances_readBool:
  assumes "near s" shows "advances s (snd (readBool s))"
proof -
  obtain r s1 where r: "readInt 4 s = (r :: u32 option, s1)" by force
  have "advances s s1" using readIntD[OF r assms] by simp
  then show ?thesis by (simp add: readBool_def r Let_def advances_setError)
qed

lemma advances_oob: "advances s s' \<Longrightarrow> advances s (s'\<lparr>oob := oob s' \<or> b\<rparr>)"
  by (auto simp: advances_def reads_def near_def)

lemma advances_readString:
  assumes "near s" shows "advances s (snd (readString s))"
proof -
  obtain r s1 where r: "readInt 4 s = (r :: u32 option, s1)" by force
  have a: "advances s s1" using readIntD[OF r assms] by simp
  obtain raw s2 where q: "readRaw (unat (orelse r 0 + 1)) s1 = (raw, s2)" by force
  have "advances s s2" using a readRawD[OF q] by (meson advances_reads advances_trans reads_near)
  then show ?thesis by (simp add: readString_def r q Let_def advances_oob)
qed

lemma advances_readVersion:
  assumes "near s" shows "advances s (snd (readVersion s))"
proof -
  have a: "reads s (in_align 8 s)" using assms by (simp add: reads_align)
  obtain r s1 where r: "readInt 4 (in_align 8 s) = (r :: u32 option, s1)" by force
  have b: "advances (in_align 8 s) s1" using readIntD[OF r] reads_near[OF a] by simp
  obtain q s2 where q: "readInt 4 s1 = (q :: u32 option, s2)" by force
  have "advances s1 s2" using readIntD[OF q] b by (meson advances_reads insertCI reads_near)
  with a b show ?thesis
    by (simp add: readVersion_def r q) (meson advances_reads advances_trans reads_advances)
qed

lemma advances_readRanged:
  assumes "near s" shows "advances s (snd (readRanged E mn mx s))"
proof -
  obtain r s1 where r: "readInt 4 s = (r :: u32 option, s1)" by force
  have "advances s s1" using readIntD[OF r assms] by simp
  then show ?thesis by (simp add: readRanged_def r Let_def advances_setError)
qed

lemma advances_readEnum:
  assumes "near s" shows "advances s (snd (readEnum E base e s))"
proof -
  obtain q1 s1 where r1: "readInt 1 s = (q1 :: byte option, s1)" by force
  obtain q2 s2 where r2: "readInt 2 s = (q2 :: u16 option, s2)" by force
  obtain q4 s4 where r4: "readInt 4 s = (q4 :: u32 option, s4)" by force
  have "advances s s1" "advances s s2" "advances s s4"
    using readIntD[OF r1 assms] readIntD[OF r2 assms] readIntD[OF r4 assms] by simp_all
  then show ?thesis
    by (auto simp: readEnum_def r1 r2 r4 Let_def advances_setError simp del: One_nat_def
        split: ebase.splits option.splits)
qed

lemma advances_readByteBuffer:
  assumes "near s" shows "advances s (snd (readByteBuffer s))"
proof -
  obtain r s1 where r: "readInt 4 s = (r :: u32 option, s1)" by force
  have a: "advances s s1" using readIntD[OF r assms] by simp
  obtain raw s2 where q: "readRaw (unat (orelse r 0)) s1 = (raw, s2)" by force
  have "advances s s2" using a readRawD[OF q] by (meson advances_reads advances_trans reads_near)
  then show ?thesis by (simp add: readByteBuffer_def r q Let_def)
qed

section \<open>Element readers\<close>

text \<open>
  The contract between the element loops and the readers they call: a family of readers,
  indexed by the type of the element. On a proper type a reader keeps the invariant and
  does not succeed without consuming a byte. Everything below holds for the containers of
  such a family; at the end \<open>readValue\<close> is shown to be one.
\<close>

locale element_readers =
  fixes rd :: "'t \<Rightarrow> istream \<Rightarrow> 'a \<times> istream" and proper :: "'t \<Rightarrow> bool"
  assumes rd_advances: "proper t \<Longrightarrow> near s \<Longrightarrow> advances s (snd (rd t s))"
begin

lemma rd_reads: "proper t \<Longrightarrow> near s \<Longrightarrow> reads s (snd (rd t s))"
  using rd_advances by (simp add: advances_reads)

lemma loop_reads:
  assumes "proper t" "near s" "roundup 8 (length (body s)) < fuel + current s"
  shows "reads s (snd (readLoop (rd t) fuel s))"
  using assms(2,3)
proof (induction fuel arbitrary: s)
  case 0
  then show ?case by (simp add: near_def)
next
  case (Suc fuel)
  obtain v s' where r: "rd t s = (v, s')" by force
  have a: "advances s s'" using rd_advances[OF assms(1) Suc.prems(1)] by (simp add: r)
  show ?case
  proof (cases "exception s'")
    case True
    with a Suc.prems(1) show ?thesis by (simp add: r isErrorSet_def reads_refl advances_reads)
  next
    case False
    have "reads s' (snd (readLoop (rd t) fuel s'))"
      by (rule Suc.IH) (use a False Suc.prems in \<open>auto simp: advances_def reads_def\<close>)
    with a False Suc.prems(1) show ?thesis
      by (auto simp: r isErrorSet_def reads_refl split_beta intro: reads_trans advances_reads)
  qed
qed

lemma block_advances:
  fixes s :: istream
  assumes "proper t" "near s" "b \<in> {1, 2, 4, 8}" and r: "readInt 4 s = (q, s1)"
    and s2: "s2 = in_pushPosition (in_align b (pushSize (orelse q 0) s1))"
    and l: "readLoop (rd t) (loop_fuel s2) s2 = (vs, s3)"
  shows "advances s (snd (in_popPosition (snd (popSize s3))))"
proof -
  have a: "advances s s1" using readIntD[OF r assms(2)] by simp
  then have n1: "near s1" by (meson advances_reads reads_near)
  let ?p = "pushSize (orelse q 0) s1"
  have np: "near ?p" using n1 by (simp add: pushSize_def near_def)
  have al: "reads ?p (in_align b ?p)" by (rule reads_align[OF np assms(3)])
  have n2: "near s2" using reads_near[OF al] by (simp add: s2 in_pushPosition_def near_def)
  have "reads s2 (snd (readLoop (rd t) (loop_fuel s2) s2))"
    by (rule loop_reads[OF assms(1) n2])
       (use roundup_8_less[of "length (body s2)"] in \<open>simp add: loop_fuel_def\<close>)
  then have "reads s2 s3" by (simp add: l)
  with al have "reads s1 (snd (in_popPosition (snd (popSize s3))))"
    by (auto simp: s2 in_popPosition_def popSize_def reads_def pushSize_def in_pushPosition_def near_def)
  with a show ?thesis by (rule advances_trans)
qed

end

text \<open>Readers of values, the case of the elements of a vector.\<close>

locale value_readers = element_readers rd proper
  for rd :: "'t \<Rightarrow> istream \<Rightarrow> val \<times> istream" and proper
begin

lemma readVector_advances:
  assumes "proper t" "near s"
  shows "advances s (snd (readVector u (rd t) s))"
proof -
  obtain q s1 where r: "readInt 4 s = (q :: u32 option, s1)" by force
  let ?s2 = "in_pushPosition (in_alignVector u (pushSize (orelse q 0) s1))"
  have "\<exists>b \<in> {1, 2, 4, 8}. ?s2 = in_pushPosition (in_align b (pushSize (orelse q 0) s1))"
  proof (cases "alignVector_boundary u = 1")
    case True
    have "near (pushSize (orelse q 0) s1)"
      using readIntD[OF r assms(2)] by (auto simp: advances_def reads_def pushSize_def near_def)
    then have "in_align 1 (pushSize (orelse q 0) s1) = pushSize (orelse q 0) s1"
      by (simp add: near_align roundup_def)
    with True show ?thesis by (intro bexI[of _ 1]) (simp_all add: in_alignVector_def)
  next
    case False
    then show ?thesis using alignVector_boundary_cases[of u] by (auto simp: in_alignVector_def)
  qed
  then obtain b where b: "b \<in> {1, 2, 4, 8}" "?s2 = in_pushPosition (in_align b (pushSize (orelse q 0) s1))"
    by blast
  obtain vs s3 where l: "readLoop (rd t) (loop_fuel ?s2) ?s2 = (vs, s3)" by force
  show ?thesis using block_advances[OF assms b(1) r b(2) l] by (simp add: readVector_def r l Let_def)
qed

end

lemma readEntry_readers:
  assumes "element_readers (\<lambda>_ :: unit. rk) (\<lambda>_. True)" "element_readers (\<lambda>_ :: unit. rv) (\<lambda>_. True)"
  shows "element_readers (\<lambda>_ :: unit. readEntry rk rv) (\<lambda>_. True)"
proof
  fix s assume n: "near s"
  have a: "reads s (in_align 8 s)" using n by (simp add: reads_align)
  obtain k s1 where k: "rk (in_align 8 s) = (k, s1)" by force
  have b: "advances (in_align 8 s) s1"
    using element_readers.rd_advances[OF assms(1) TrueI, of "in_align 8 s"] reads_near[OF a] by (simp add: k)
  obtain v s2 where v: "rv s1 = (v, s2)" by force
  have "advances s1 s2"
    using element_readers.rd_advances[OF assms(2) TrueI, of s1] b by (simp add: v advances_def reads_def)
  with a b show "advances s (snd (readEntry rk rv s))"
    by (simp add: readEntry_def k v) (meson advances_reads advances_trans reads_advances)
qed

lemma readMap_advances:
  assumes "element_readers (\<lambda>_ :: unit. rk) (\<lambda>_. True)" "element_readers (\<lambda>_ :: unit. rv) (\<lambda>_. True)"
    and "near s"
  shows "advances s (snd (readMap rk rv s))"
proof -
  obtain q s1 where r: "readInt 4 s = (q :: u32 option, s1)" by force
  let ?s2 = "in_pushPosition (in_align 8 (pushSize (orelse q 0) s1))"
  obtain es s3 where l: "readLoop (readEntry rk rv) (loop_fuel ?s2) ?s2 = (es, s3)" by force
  show ?thesis
    using element_readers.block_advances[OF readEntry_readers[OF assms(1,2)] _ assms(3) _ r refl l]
    by (simp add: readMap_def r l Let_def)
qed

section \<open>readValue is a family of element readers\<close>

text \<open>A struct of C++ has a field (\<open>itsSize - 1\<close> would not compile otherwise).\<close>

fun valid_ty :: "ty \<Rightarrow> bool" where
  "valid_ty (TStruct ts) = (ts \<noteq> [] \<and> list_all valid_ty ts)"
| "valid_ty (TVariant isDBus ts) = list_all valid_ty ts"
| "valid_ty (TVector t) = valid_ty t"
| "valid_ty (TMap k v) = (valid_ty k \<and> valid_ty v)"
| "valid_ty t = True"

abbreviation reader_ok :: "ext \<Rightarrow> ty \<Rightarrow> bool" where
  "reader_ok E t \<equiv> value_readers (\<lambda>_ :: unit. readValue E t) (\<lambda>_. True)"

lemma reader_okD: "reader_ok E t \<Longrightarrow> near s \<Longrightarrow> readValue E t s = (v, s') \<Longrightarrow> advances s s'"
  using element_readers.rd_advances[of "\<lambda>_ :: unit. readValue E t" "\<lambda>_. True" "()" s]
  by (simp add: value_readers_def)

lemma readFields_reads:
  assumes "\<And>t. t \<in> set ts \<Longrightarrow> reader_ok E t" "near s"
  shows "reads s (snd (readFields E ts s))"
  using assms
proof (induction ts arbitrary: s)
  case (Cons t ts)
  obtain v s1 where r: "readValue E t s = (v, s1)" by force
  have a: "advances s s1" by (rule reader_okD[OF _ Cons.prems(2) r]) (use Cons.prems in simp)
  then have "reads s1 (snd (readFields E ts s1))"
    using Cons by (simp add: reads_near[OF advances_reads])
  with a show ?case by (simp add: r) (meson advances_reads reads_trans)
qed (simp add: reads_refl)

lemma readFields_advances:
  assumes "\<And>t. t \<in> set ts \<Longrightarrow> reader_ok E t" "near s" "ts \<noteq> []"
  shows "advances s (snd (readFields E ts s))"
proof -
  obtain t ts' where ts: "ts = t # ts'" using assms(3) by (cases ts) auto
  obtain v s1 where r: "readValue E t s = (v, s1)" by force
  have a: "advances s s1" by (rule reader_okD[OF _ assms(2) r]) (simp add: assms(1) ts)
  have "reads s1 (snd (readFields E ts' s1))"
    by (rule readFields_reads) (use assms(1) ts a in \<open>auto simp: advances_def reads_def\<close>)
  with a show ?thesis by (simp add: ts r) (meson advances_trans)
qed

lemma readAlternative_reads:
  assumes "\<And>t. t \<in> set ts \<Longrightarrow> reader_ok E t" "near s"
  shows "reads s (snd (readAlternative E ts i s))"
  using assms
proof (induction ts arbitrary: i)
  case (Cons t ts)
  show ?case
  proof (cases i)
    case 0
    have "advances s (snd (readValue E t s))"
      using reader_okD[of E t s "fst (readValue E t s)"] Cons.prems by simp
    with 0 show ?thesis by (simp add: advances_reads)
  qed (use Cons in simp)
qed (simp add: reads_refl)

lemma advances_readVariantType:
  assumes "near s" shows "advances s (snd (readVariantType s))"
proof -
  have a: "reads s (in_align 8 s)" using assms by (simp add: reads_align)
  obtain k s1 where r: "readInt 1 (in_align 8 s) = (k :: byte option, s1)" by force
  have b: "advances (in_align 8 s) s1" using readIntD[OF r] reads_near[OF a] by simp
  then have "advances s1 (skipSignature s1)" by (meson advances_reads advances_skipSignature reads_near)
  with a b show ?thesis
    by (simp add: readVariantType_def r del: One_nat_def) (meson advances_reads advances_trans reads_advances)
qed

lemma advances_readDBusVariantType:
  assumes "near s" shows "advances s (snd (readDBusVariantType ts s))"
proof -
  obtain q s1 where r: "readInt 1 s = (q :: byte option, s1)" by force
  have a: "advances s s1" using readIntD[OF r assms] by simp
  obtain raw s2 where q: "readRaw (unat (orelse q 0) + 1) s1 = (raw, s2)" by force
  have "advances s s2" using a readRawD[OF q] by (meson advances_reads advances_trans reads_near)
  then show ?thesis
    by (simp add: readDBusVariantType_def r q Let_def advances_setError del: One_nat_def split: prod.splits)
qed

lemma readVariant_ok:
  assumes "\<And>t. t \<in> set ts \<Longrightarrow> reader_ok E t" "near s"
  shows "advances s (snd (readValue E (TVariant isDBus ts) s))"
proof -
  have alt: "advances s (snd (readAlternative E ts i s'))" if "advances s s'" for i s'
    using advances_trans[OF that readAlternative_reads[OF assms(1)]] reads_near[OF advances_reads[OF that]]
    by blast
  show ?thesis
    using advances_readVariantType[OF assms(2)] advances_readDBusVariantType[OF assms(2), of ts] alt
    by (auto split: prod.splits option.splits)
qed

lemma readValue_ok: "valid_ty t \<Longrightarrow> reader_ok E t"
proof (induction t)
  case (TStruct ts)
  then have ok: "reader_ok E t" if "t \<in> set ts" for t using that by (simp add: list_all_iff)
  show ?case
  proof
    fix s assume n: "near s"
    then have a: "reads s (in_align 8 s)" by (simp add: reads_align)
    have "advances (in_align 8 s) (snd (readFields E ts (in_align 8 s)))"
      by (rule readFields_advances) (use ok TStruct.prems reads_near[OF a] in auto)
    with a show "advances s (snd (readValue E (TStruct ts) s))" by (simp add: reads_advances)
  qed
next
  case (TVariant isDBus ts)
  then show ?case by unfold_locales (rule readVariant_ok, simp_all add: list_all_iff)
next
  case (TVector t)
  then have "reader_ok E t" by simp
  from value_readers.readVector_advances[OF this] show ?case by unfold_locales simp
next
  case (TMap k v)
  then have "reader_ok E k" "reader_ok E v" by simp_all
  from readMap_advances[OF this[unfolded value_readers_def]] show ?case by unfold_locales simp
qed (unfold_locales, simp add: advances_readBool advances_readString advances_readVersion
  advances_readRanged advances_readEnum advances_readByteBuffer advances_readInt)+

interpretation rv: value_readers "readValue E" valid_ty
proof
  fix t and s :: istream assume "valid_ty t" "near s"
  then show "advances s (snd (readValue E t s))"
    using reader_okD[OF readValue_ok, of t s E "fst (readValue E t s)"] by simp
qed

section \<open>Properties\<close>

text \<open>C10: reading terminates on every body. Whatever the bytes of a message, reading a value of a
  type from it makes no element loop run forever, keeps the body and both stacks, and leaves
  \<open>current_\<close> at or after where it was, at most seven bytes past the end.\<close>

theorem readValue_terminates:
  assumes "valid_ty t" "length bs + 16 < 2 ^ 32"
  shows "let s' = snd (readValue E t (new_istream bs))
    in \<not> hang s' \<and> body s' = bs \<and> sizes s' = [] \<and> marks s' = [] \<and> current s' < length bs + 8"
proof -
  have "near (new_istream bs)" using assms(2) by (simp add: near_def new_istream_def)
  from rv.rd_reads[OF assms(1) this, of E]
  have r: "reads (new_istream bs) (snd (readValue E t (new_istream bs)))" .
  then have "body (snd (readValue E t (new_istream bs))) = bs" by (simp add: reads_def new_istream_def)
  with r roundup_8_less[of "length bs"] show ?thesis
    by (auto simp: reads_def near_def Let_def new_istream_def)
qed

theorem readValue_terminates_witness:
  "\<not> hang (snd (readValue some_ext (TVector (TVariant True [TUInt8, TVector TInt64])) (new_istream [255, 255, 255, 255, 1])))"
  using readValue_terminates[of "TVector (TVariant True [TUInt8, TVector TInt64])" "[255, 255, 255, 255, 1]" some_ext]
  by (simp add: Let_def)

text \<open>A read that does not end in an error has consumed at least one byte, and an error that
  is set before a read is still set after it.\<close>

theorem readValue_progress:
  assumes "valid_ty t" "near s" "readValue E t s = (v, s')"
  shows "(isErrorSet s \<longrightarrow> isErrorSet s') \<and> (\<not> isErrorSet s' \<longrightarrow> current s < current s')"
  using rv.rd_advances[OF assms(1,2), of E] assms(3) by (auto simp: advances_def reads_def isErrorSet_def)

theorem readValue_progress_witness:
  "current (new_istream [1, 0, 0, 0]) < current (snd (readValue some_ext TBool (new_istream [1, 0, 0, 0])))"
proof -
  have n: "near (new_istream [1, 0, 0, 0])" by (simp add: near_def new_istream_def)
  have "\<not> isErrorSet (snd (readBool (new_istream [1, 0, 0, 0])))" by code_simp
  with readValue_progress[OF _ n, of TBool some_ext] show ?thesis
    by (metis prod.collapse readValue.simps(1) valid_ty.simps(5))
qed

text \<open>The length of a string is incremented at 32 bits. A body that announces
  \<open>2^32 - 1\<close> bytes passes the bounds check (the sum is 0), no error is set, and the
  string is then copied from beyond the end of the body.\<close>

theorem readString_length_wraps:
  "let (v, s') = readValue E (TString isPath) (new_istream [255, 255, 255, 255])
   in \<not> isErrorSet s' \<and> oob s' \<and> current s' = 4"
proof -
  have "let (v, s') = readString (new_istream [255, 255, 255, 255])
   in \<not> isErrorSet s' \<and> oob s' \<and> current s' = 4" by code_simp
  then show ?thesis by simp
qed

text \<open>C28: reading a string, for every announced length. A length that ends behind the body is refused with
  the error set: nothing is taken from the body and no byte outside it is touched. Otherwise the value is the bytes
  before the first terminator, and the copy leaves the body exactly when no terminator follows in it. The
  increment of the length wraps at 32 bits, so \<open>2^32 - 1\<close> counts as 0 here. If the length itself cannot be read, the error is set.\<close>

theorem readString_in_bounds:
  fixes n :: "u32 option"
  assumes "\<not> isErrorSet s" "readInt 4 s = (n, s1)" "readValue E (TString isPath) s = (v, s')"
  shows "case n of
      None \<Rightarrow> isErrorSet s' \<and> v = VUnset \<and> oob s' = oob s
    | Some k \<Rightarrow>
        (let rest = drop (current s1) (body s); size = unat (k + 1)
         in if length rest < size then isErrorSet s' \<and> v = VUnset \<and> oob s' = oob s \<and> current s' = current s1
            else \<not> isErrorSet s' \<and> v = VString (takeWhile (\<lambda>b. b \<noteq> 0) rest) \<and>
              (oob s' \<longleftrightarrow> oob s \<or> 0 \<notin> set rest) \<and> current s' = current s1 + size)"
proof -
  have o: "oob s1 = oob s" and b: "body s1 = body s"
    using assms(2) by (auto simp: readInt_def readRaw_def in_align_def in_setError_def Let_def split: if_splits)
  have r: "readString s = (v, s')" using assms(3) by simp
  show ?thesis
  proof (cases n)
    case None
    then have "exception s1"
      using assms(2) by (auto simp: readInt_def readRaw_def in_align_def in_setError_def isErrorSet_def Let_def split: if_splits)
    then show ?thesis using r None o
      by (auto simp: readString_def assms(2) readRaw_def in_setError_def isErrorSet_def Let_def split: if_splits)
  next
    case (Some k)
    have e: "\<not> exception s1" and c: "current s1 \<le> length (body s)"
      using assms(1,2) Some by (auto simp: readInt_def readRaw_def in_align_def in_setError_def isErrorSet_def Let_def split: if_splits)
    show ?thesis using r Some o b e c
      by (auto simp: readString_def assms(2) readRaw_def in_setError_def isErrorSet_def c_string_def orelse_def Let_def split: if_splits)
  qed
qed

theorem readString_in_bounds_witness:
  "\<exists>s'. readValue some_ext (TString False) (new_istream [2, 0, 0, 0, 104, 0, 0]) = (VString [104], s') \<and> current s' = 7 \<and>
     \<not> isErrorSet s' \<and> \<not> oob s'"
proof -
  let ?s = "new_istream [2, 0, 0, 0, 104, 0, 0]"
  have r: "readInt 4 ?s = (Some (2 :: u32), ?s\<lparr>current := 4\<rparr>)" by code_simp
  obtain v s' where v: "readValue some_ext (TString False) ?s = (v, s')" by fastforce
  have "\<not> isErrorSet ?s" by (simp add: new_istream_def isErrorSet_def)
  from readString_in_bounds[OF this r v] show ?thesis using v
    by (auto simp: new_istream_def isErrorSet_def)
qed

end
