(* ===== verification/Write_Correct.thy ===== *)
theory Write_Correct
  imports Wire_Format
begin

text \<open>
  The output stream refines the wire format: \<open>write_refines\<close> for one value of a type,
  by induction on the type, from one lemma per raw operation and container.
\<close>

section \<open>The raw operations append\<close>

abbreviation plen :: "ostream \<Rightarrow> nat" where
  "plen s \<equiv> length (payload s)"

lemma writeRaw_sel [simp]:
  "payload (writeRaw bs s) = payload s @ bs" "positions (writeRaw bs s) = positions s"
  "errorOccurred (writeRaw bs s) = errorOccurred s" "writeRaw [] s = s"
  "writeRaw cs (writeRaw bs s) = writeRaw (bs @ cs) s"
  by (simp_all add: writeRaw_def)

lemma length_zeros [simp]: "length (zeros n) = n" "zeros 0 = []"
  by (simp_all add: zeros_def)

lemma align_writeRaw: "b \<in> {1, 2, 4, 8} \<Longrightarrow> align b s = writeRaw (zeros (pad b (plen s))) s"
  by (simp only: align_eq) (simp add: writeRaw_def zeros_def)

lemma align_1 [simp]: "align (Suc 0) s = s"
  using align_writeRaw[of 1 s] by simp

lemma writeInt_eq [stream_simps]:
  "writeInt 1 w s = writeRaw (encInt 1 w (plen s)) s"
  "writeInt (Suc 0) w s = writeRaw (encInt 1 w (plen s)) s"
  "writeInt 2 w s = writeRaw (encInt 2 w (plen s)) s"
  "writeInt 4 w s = writeRaw (encInt 4 w (plen s)) s"
  "writeInt 8 w s = writeRaw (encInt 8 w (plen s)) s"
  by (simp_all add: writeInt_def encInt_def align_writeRaw)

lemma encInt_1 [simp]: "encInt 1 (w :: byte) p = [w]" "encInt (Suc 0) (w :: byte) p = [w]"
  by (simp_all add: encInt_def)

lemma length_encInt [simp]: "length (encInt n w p) = pad n p + n"
  by (simp add: encInt_def)

lemma roundup_pad: "p + pad b p = roundup b p" "pad b p + p = roundup b p"
  by (simp_all add: roundup_def)

lemma unat_length32: "n < 2 ^ 32 \<Longrightarrow> unat (of_nat n :: u32) = n"
  by (simp add: unat_of_nat)

lemma writeString_eq:
  assumes "length bs < 2 ^ 32 - 1"
  shows "writeString bs (of_nat (length bs)) s
    = writeRaw (encInt 4 (of_nat (length bs) :: u32) (plen s) @ bs @ [0]) s"
proof -
  have u: "unat (of_nat (length bs) :: u32) = length bs" by (rule unat_length32) (use assms in simp)
  show ?thesis by (simp add: writeString_def u stream_simps)
qed

lemma writeByteBuffer_eq:
  assumes "length bs < 2 ^ 32"
  shows "writeByteBuffer bs (of_nat (length bs)) s
    = writeRaw (encInt 4 (of_nat (length bs) :: u32) (plen s) @ bs) s"
proof -
  have u: "unat (of_nat (length bs) :: u32) = length bs" by (rule unat_length32) (use assms in simp)
  show ?thesis by (simp add: writeByteBuffer_def u stream_simps)
qed

lemma writeSignature_eq:
  assumes "length sg < 256"
  shows "writeSignature sg s = writeRaw (encSignature sg) s"
proof -
  have u: "unat (of_nat (length sg) :: byte) = length sg" using assms by (simp add: unat_of_nat)
  show ?thesis by (simp add: writeSignature_def Let_def u stream_simps encSignature_def)
qed

section \<open>Containers\<close>

lemma writeElems_eq:
  assumes "\<And>v s. v \<in> set vs \<Longrightarrow> \<not> errorOccurred s \<Longrightarrow> wr v s = writeRaw (en v (plen s)) s"
    and "\<not> errorOccurred s"
  shows "writeElems wr vs s = writeRaw (encElems en vs (plen s)) s"
  using assms
proof (induction vs arbitrary: s)
  case (Cons v vs)
  have "wr v s = writeRaw (en v (plen s)) s" using Cons.prems by simp
  moreover have "writeElems wr vs (writeRaw (en v (plen s)) s)
      = writeRaw (encElems en vs (plen s + length (en v (plen s)))) (writeRaw (en v (plen s)) s)"
    using Cons.IH[of "writeRaw (en v (plen s)) s"] Cons.prems by simp
  ultimately show ?case using Cons.prems(2) by (simp add: Let_def hasError_def)
qed simp

lemma writeEntries_eq:
  assumes "\<And>k v s. (k, v) \<in> set es \<Longrightarrow> \<not> errorOccurred s \<Longrightarrow> wk k s = writeRaw (ek k (plen s)) s"
    and "\<And>k v s. (k, v) \<in> set es \<Longrightarrow> \<not> errorOccurred s \<Longrightarrow> wv v s = writeRaw (ev v (plen s)) s"
    and "\<not> errorOccurred s"
  shows "writeEntries wk wv es s = endWriteMap (writeRaw (encEntries ek ev es (plen s)) s)"
  using assms
proof (induction es arbitrary: s)
  case (Cons e es)
  obtain k v where e: "e = (k, v)" by force
  let ?a = "zeros (pad 8 (plen s)) @ ek k (roundup 8 (plen s))"
  let ?b = "?a @ ev v (plen s + length ?a)"
  have "wk k (align 8 s) = writeRaw ?a s"
    using Cons.prems(1)[of k v "align 8 s"] Cons.prems(3) by (simp add: e align_writeRaw roundup_pad)
  then have wv: "wv v (wk k (align 8 s)) = writeRaw ?b s"
    using Cons.prems(2)[of k v "writeRaw ?a s"] Cons.prems(3) by (simp add: e)
  have "writeEntries wk wv es (writeRaw ?b s)
      = endWriteMap (writeRaw (encEntries ek ev es (plen (writeRaw ?b s))) (writeRaw ?b s))"
    by (rule Cons.IH)
       (use Cons.prems(1) in force, use Cons.prems(2) in force, use Cons.prems(3) in simp)
  with Cons.prems(3) show ?case by (simp add: e Let_def wv hasError_def add.assoc)
qed simp

lemma alignVector_eq: "alignVector t s = writeRaw (zeros (pad (alignVector_boundary t) (plen s))) s"
  using align_writeRaw[OF alignVector_boundary_cases[of t]] by (simp add: alignVector_def)

lemma begin_block:
  assumes "b \<in> {1, 2, 4, 8}"
  shows "pushPosition (align b (writeInt 4 (0 :: u32) (pushPosition (align 4 s)))) =
    (let p = plen s; q = roundup 4 p + 4
     in s\<lparr>payload := payload s @ zeros (pad 4 p) @ to_le 4 (0 :: u32) @ zeros (pad b q),
          positions := roundup b q # roundup 4 p # positions s\<rparr>)"
  using assms
  by (simp add: pushPosition_def stream_simps Let_def align_writeRaw encInt_def roundup_pad writeRaw_def
      ac_simps) (simp add: roundup_def ac_simps)

lemma end_block:
  fixes data :: "byte list"
  assumes "positions s = start # pos # ps" and "payload s = a @ ph @ c @ data"
    and "length a = pos" "length ph = 4" "start = pos + 4 + length c"
  shows "endWriteVector s = s\<lparr>payload := a @ to_le 4 (of_nat (length data) :: u32) @ c @ data, positions := ps\<rparr>"
    and "endWriteMap s = s\<lparr>payload := a @ to_le 4 (of_nat (length data) :: u32) @ c @ data, positions := ps\<rparr>"
  using assms
  by (simp_all add: endWriteVector_def endWriteMap_def popPosition_def getPosition_def writeIntAt_def
      writeRawAt_def)

lemma block_eq:
  fixes s :: ostream
  defines "p \<equiv> plen s"
  assumes b: "b \<in> {1, 2, 4, 8}" and d: "data = body (roundup b (roundup 4 p + 4))"
  shows "endWriteVector (writeRaw data (pushPosition (align b (writeInt 4 (0 :: u32) (pushPosition (align 4 s))))))
      = writeRaw (encBlock b body p) s" (is "endWriteVector ?s = _")
    and "endWriteMap (writeRaw data (pushPosition (align b (writeInt 4 (0 :: u32) (pushPosition (align 4 s))))))
      = writeRaw (encBlock b body p) s"
proof -
  let ?q = "roundup 4 p + 4"
  note st = begin_block[OF b, of s, unfolded Let_def, folded p_def]
  have pos: "positions ?s = roundup b ?q # roundup 4 p # positions s" by (simp add: st)
  have pay: "payload ?s = (payload s @ zeros (pad 4 p)) @ to_le 4 (0 :: u32) @ zeros (pad b ?q) @ data"
    by (simp add: st)
  have l: "length (payload s @ zeros (pad 4 p)) = roundup 4 p" by (simp add: p_def roundup_pad)
  have l2: "roundup b ?q = roundup 4 p + 4 + length (zeros (pad b ?q))" by (simp add: roundup_def)
  note e = end_block[OF pos pay l length_to_le l2]
  show "endWriteVector ?s = writeRaw (encBlock b body p) s"
    unfolding e(1) by (simp add: st writeRaw_def encBlock_def encInt_def Let_def d)
  show "endWriteMap ?s = writeRaw (encBlock b body p) s"
    unfolding e(2) by (simp add: st writeRaw_def encBlock_def encInt_def Let_def d)
qed

lemma plen_begin:
  assumes "b \<in> {1, 2, 4, 8}"
  shows "plen (pushPosition (align b (writeInt 4 (0 :: u32) (pushPosition (align 4 s)))))
      = roundup b (roundup 4 (plen s) + 4)"
    and "errorOccurred (pushPosition (align b (writeInt 4 (0 :: u32) (pushPosition (align 4 s)))))
      = errorOccurred s"
  by (simp_all only: begin_block[OF assms] Let_def) (simp_all add: roundup_def)

lemma beginWriteVector_align:
  "beginWriteVector t s = pushPosition (align (alignVector_boundary t) (writeInt 4 (0 :: u32) (pushPosition (align 4 s))))"
  using alignVector_boundary_cases[of t]
  by (simp add: beginWriteVector_def alignVector_def)

section \<open>writeValue\<close>

definition refines_at :: "ext \<Rightarrow> ty \<Rightarrow> bool" where
  "refines_at E t \<longleftrightarrow> (\<forall>v s. wt E t v \<longrightarrow> \<not> errorOccurred s \<longrightarrow>
     writeValue E t v s = writeRaw (enc E t v (plen s)) s)"

lemma writeFields_refines:
  assumes "\<And>t. t \<in> set ts \<Longrightarrow> refines_at E t" and "wtFields E ts vs" and "\<not> errorOccurred s"
  shows "writeFields E ts vs s = writeRaw (encFields E ts vs (plen s)) s"
  using assms
proof (induction ts arbitrary: vs s)
  case (Cons t ts)
  then obtain v vs' where vs: "vs = v # vs'" "wt E t v" "wtFields E ts vs'"
    by (auto split: list.splits)
  have "writeValue E t v s = writeRaw (enc E t v (plen s)) s"
    using Cons.prems vs by (simp add: refines_at_def)
  then show ?case using Cons.IH[OF _ vs(3), of "writeRaw (enc E t v (plen s)) s"] Cons.prems vs(1)
    by simp
qed simp

lemma writeAlternative_refines:
  assumes "\<And>t. t \<in> set ts \<Longrightarrow> refines_at E t" and "wtAlternative E ts i v" and "\<not> errorOccurred s"
  shows "writeAlternative E ts i v s = writeRaw (encAlternative E ts i v (plen s)) s"
  using assms
proof (induction ts arbitrary: i)
  case (Cons t ts)
  show ?case
  proof (cases i)
    case 0
    with Cons.prems have "wt E t v" "length (sig_bytes t) < 256" by (simp_all add: sig_bytes_def)
    with Cons.prems 0 show ?thesis
      by (simp add: writeSignature_eq refines_at_def Let_def)
  next
    case (Suc i')
    with Cons show ?thesis by simp
  qed
qed simp

lemma refines_leaf:
  "refines_at E TBool" "refines_at E TInt8" "refines_at E TInt16" "refines_at E (TInt32 fd)"
  "refines_at E TInt64" "refines_at E TUInt8" "refines_at E TUInt16" "refines_at E (TUInt32 fd)"
  "refines_at E TUInt64" "refines_at E TFloat" "refines_at E TDouble" "refines_at E (TRanged mn mx)"
  "refines_at E (TEnum base isSigned e)"
  by (auto simp: refines_at_def stream_simps split: val.splits)

lemma refines_string: "refines_at E (TString isPath)"
  by (auto simp: refines_at_def writeString_eq split: val.splits)

lemma refines_bytes: "refines_at E TByteBuffer"
  by (auto simp: refines_at_def writeByteBuffer_eq align_writeRaw encInt_def roundup_pad split: val.splits)

lemma pad_8_4: "pad 4 (roundup 8 p) = 0" "pad 4 (roundup 8 p + 4) = 0"
proof -
  have "8 dvd roundup 8 p" by (rule roundup_dvd) simp
  then have "4 dvd roundup 8 p" by (rule dvd_trans[rotated]) simp
  then show "pad 4 (roundup 8 p) = 0" "pad 4 (roundup 8 p + 4) = 0"
    by (simp_all add: pad_dvd)
qed

lemma pad_4_version: "pad 4 (p + (pad 8 p + 4)) = 0"
  using pad_8_4(2)[of p] by (simp add: roundup_def add.assoc)

lemma refines_version: "refines_at E TVersion"
  by (auto simp: refines_at_def stream_simps align_writeRaw encInt_def roundup_pad pad_8_4 pad_4_version split: val.splits)

theorem write_refines_at: "refines_at E t"
proof (induction t)
  case (TStruct ts)
  then show ?case
    by (auto simp: refines_at_def[of _ "TStruct ts"] align_writeRaw writeFields_refines roundup_pad
        split: val.splits)
next
  case (TVariant isDBus ts)
  show ?case unfolding refines_at_def
  proof (intro allI impI)
    fix v and s :: ostream assume "wt E (TVariant isDBus ts) v" and e: "\<not> errorOccurred s"
    then obtain k x i where v: "v = VVariant k x" "visit E (length ts) k = Some i" "wtAlternative E ts i x"
      by (auto split: val.splits option.splits)
    then show "writeValue E (TVariant isDBus ts) v s = writeRaw (enc E (TVariant isDBus ts) v (plen s)) s"
      using e by (simp add: writeAlternative_refines[OF TVariant] align_writeRaw stream_simps Let_def)
  qed
next
  case (TVector t)
  show ?case unfolding refines_at_def
  proof (intro allI impI)
    fix v and s :: ostream assume "wt E (TVector t) v" and e: "\<not> errorOccurred s"
    then obtain vs where v: "v = VVector vs" "\<forall>x\<in>set vs. wt E t x"
      by (auto split: val.splits simp: list_all_iff)
    let ?b = "alignVector_boundary t"
    let ?s = "pushPosition (align ?b (writeInt 4 (0 :: u32) (pushPosition (align 4 s))))"
    note b = alignVector_boundary_cases[of t]
    have "writeElems (\<lambda>x s. writeValue E t x s) vs ?s = writeRaw (encElems (\<lambda>x p. enc E t x p) vs (plen ?s)) ?s"
      by (rule writeElems_eq) (use TVector v e plen_begin(2)[OF b] in \<open>auto simp: refines_at_def\<close>)
    then show "writeValue E (TVector t) v s = writeRaw (enc E (TVector t) v (plen s)) s"
      by (simp add: v(1) beginWriteVector_align)
         (simp only: plen_begin(1)[OF b] block_eq(1)[OF b, OF refl])
  qed
next
  case (TMap kt vt)
  show ?case unfolding refines_at_def
  proof (intro allI impI)
    fix v and s :: ostream assume "wt E (TMap kt vt) v" and e: "\<not> errorOccurred s"
    then obtain es where v: "v = VMap es" "\<forall>e\<in>set es. wt E kt (fst e) \<and> wt E vt (snd e)"
      by (auto split: val.splits simp: list_all_iff)
    let ?s = "pushPosition (align 8 (writeInt 4 (0 :: u32) (pushPosition (align 4 s))))"
    have b: "8 \<in> {1, 2, 4, 8 :: nat}" by simp
    have "writeEntries (\<lambda>x s. writeValue E kt x s) (\<lambda>x s. writeValue E vt x s) es ?s
        = endWriteMap (writeRaw (encEntries (\<lambda>x p. enc E kt x p) (\<lambda>x p. enc E vt x p) es (plen ?s)) ?s)"
      by (rule writeEntries_eq) (use TMap v e plen_begin(2)[OF b] in \<open>auto simp: refines_at_def\<close>)
    then show "writeValue E (TMap kt vt) v s = writeRaw (enc E (TMap kt vt) v (plen s)) s"
      by (simp add: v(1) beginWriteMap_def)
         (simp only: plen_begin(1)[OF b] block_eq(2)[OF b, OF refl])
  qed
qed (rule refines_leaf refines_string refines_bytes refines_version)+

lemma write_refines:
  "wt E t v \<Longrightarrow> \<not> errorOccurred s \<Longrightarrow> writeValue E t v s = writeRaw (enc E t v (plen s)) s"
  using write_refines_at by (simp add: refines_at_def)

section \<open>Properties\<close>

text \<open>C12: serialising a value of a type appends to the payload exactly the wire format of that
  value at the current position: every placeholder length is patched to the size of its data,
  the position stack is as before, no error is set.\<close>

theorem writeValue_refines_wire_format:
  assumes "wt E t v" "\<not> hasError s"
  shows "writeValue E t v s = s\<lparr>payload := payload s @ enc E t v (getPosition s)\<rparr>"
  using write_refines[of E t v s] assms by (simp add: hasError_def getPosition_def writeRaw_def)

text \<open>A concrete value: a map from strings to vectors of structs of a 64-bit integer and a variant.\<close>

definition some_ty :: ty where
  "some_ty = TMap (TString False) (TVector (TStruct [TInt64, TVariant False [TUInt8, TFloat]]))"

definition some_val :: val where
  "some_val = VMap [(VString [104, 105], VVector [VStruct [V64 7, VVariant 2 (V8 9)]])]"

lemma some_val_wt: "wt some_ext some_ty some_val"
  by (simp add: some_ty_def some_val_def some_ext_def list_all_iff getSignature_def)

theorem writeValue_refines_wire_format_witness:
  "writeValue some_ext some_ty some_val new_ostream
     = new_ostream\<lparr>payload := payload new_ostream @ enc some_ext some_ty some_val (getPosition new_ostream)\<rparr>"
  by (rule writeValue_refines_wire_format[OF some_val_wt]) (simp add: hasError_def new_ostream_def)

text \<open>\<open>align\<close> adds the least number of zero bytes that makes the position a multiple of the
  boundary, and never needs more than the seven it has a constant for.\<close>

theorem align_pads_to_boundary:
  assumes "b \<in> {1, 2, 4, 8}"
  shows "align b s = s\<lparr>payload := payload s @ replicate (pad b (getPosition s)) 0\<rparr>
    \<and> b dvd getPosition (align b s) \<and> pad b (getPosition s) \<le> 7"
proof -
  have "0 < b" "b \<le> 8" using assms by auto
  with pad_less[of b "length (payload s)"] roundup_dvd[of b "length (payload s)"] show ?thesis
    by (simp add: align_eq[OF assms] getPosition_def roundup_def)
qed

theorem align_pads_to_boundary_witness:
  "8 dvd getPosition (align 8 (writeRaw [1, 2, 3] new_ostream))"
  using align_pads_to_boundary[of 8 "writeRaw [1, 2, 3] new_ostream"] by blast

end
