(* ===== verification/Read_Correct.thy ===== *)
theory Read_Correct
  imports Read_Safe Write_Correct
begin

text \<open>
  The input stream inverts the wire format: on a body that holds the encoding of a value at
  the current position, \<open>readValue\<close> returns that value, consumes exactly its encoding and
  leaves the rest of the stream as it was (\<open>readValue_enc\<close>). Together with \<open>write_refines\<close>
  this is the round trip through a message.
\<close>

section \<open>A body with given bytes ahead\<close>

definition skip :: "nat \<Rightarrow> istream \<Rightarrow> istream" where
  "skip n s = s\<lparr>current := current s + n\<rparr>"

definition ahead :: "istream \<Rightarrow> byte list \<Rightarrow> bool" where
  "ahead s bs \<longleftrightarrow> (\<exists>pre post. body s = pre @ bs @ post \<and> current s = length pre) \<and>
     \<not> exception s \<and> length (body s) + 16 < 2 ^ 32"

lemma skip_sel [simp]:
  "body (skip n s) = body s" "current (skip n s) = current s + n" "exception (skip n s) = exception s"
  "sizes (skip n s) = sizes s" "marks (skip n s) = marks s" "oob (skip n s) = oob s"
  "hang (skip n s) = hang s" "skip 0 s = s" "skip m (skip n s) = skip (n + m) s"
  by (simp_all add: skip_def)

lemma ahead_append: "ahead s (xs @ ys) \<longleftrightarrow> ahead s xs \<and> ahead (skip (length xs) s) ys"
proof
  assume "ahead s (xs @ ys)"
  then obtain pre post where p: "body s = pre @ (xs @ ys) @ post" "current s = length pre"
    and r: "\<not> exception s" "length (body s) + 16 < 2 ^ 32"
    by (auto simp: ahead_def)
  have "body s = pre @ xs @ (ys @ post)" "body s = (pre @ xs) @ ys @ post"
    "length (pre @ xs) = current (skip (length xs) s)" using p by simp_all
  with p(2) r show "ahead s xs \<and> ahead (skip (length xs) s) ys"
    unfolding ahead_def by (metis skip_sel(1,3))
next
  assume "ahead s xs \<and> ahead (skip (length xs) s) ys"
  then obtain pre post pre' post' where p: "body s = pre @ xs @ post" "current s = length pre"
    "body s = pre' @ ys @ post'" "length pre' = current s + length xs"
    and r: "\<not> exception s" "length (body s) + 16 < 2 ^ 32"
    by (auto simp: ahead_def)
  have "pre @ xs = pre'"
    using p by (metis append_assoc append_eq_append_conv length_append)
  with p(3) have "body s = pre @ (xs @ ys) @ post'" by simp
  with p(2) r show "ahead s (xs @ ys)" unfolding ahead_def by blast
qed

lemma ahead_bound: "ahead s bs \<Longrightarrow> current s + length bs \<le> length (body s)"
  by (auto simp: ahead_def)

lemma ahead_near: "ahead s bs \<Longrightarrow> near s"
  using ahead_bound[of s bs] roundup_ge[of "length (body s)" 8] by (simp add: near_def ahead_def)

lemma ahead_small: "ahead s bs \<Longrightarrow> length bs < 2 ^ 32"
  using ahead_bound[of s bs] by (simp add: ahead_def)

lemma ahead_readRaw: "ahead s bs \<Longrightarrow> n = length bs \<Longrightarrow> readRaw n s = (Some bs, skip n s)"
  using ahead_bound[of s bs] by (auto simp: readRaw_def skip_def ahead_def)

lemma ahead_cong:
  "ahead s bs \<Longrightarrow> body s' = body s \<Longrightarrow> current s' = current s \<Longrightarrow> exception s' = exception s \<Longrightarrow> ahead s' bs"
  by (simp add: ahead_def)

lemma ahead_align:
  "ahead s (zeros (pad b (current s))) \<Longrightarrow> b \<in> {1, 2, 4, 8} \<Longrightarrow> in_align b s = skip (pad b (current s)) s"
  by (simp add: near_align[OF ahead_near] skip_def roundup_def)

lemma ahead_not_error: "ahead s bs \<Longrightarrow> \<not> exception s"
  by (simp add: ahead_def)

lemma ahead_readInt:
  fixes w :: "'a::len word"
  assumes "ahead s (encInt n w (current s))" "n \<in> {1, 2, 4, 8}" "LENGTH('a) \<le> 8 * n"
  shows "readInt n s = (Some w, skip (length (encInt n w (current s))) s)"
proof -
  have a: "ahead s (zeros (pad n (current s)))" "ahead (skip (pad n (current s)) s) (to_le n w)"
    using assms(1) by (simp_all add: encInt_def ahead_append)
  have "(if n > 1 then in_align n s else s) = skip (pad n (current s)) s"
    using ahead_align[OF a(1) assms(2)] assms(2) by auto
  then show ?thesis
    using ahead_readRaw[OF a(2), of n] ahead_not_error[OF a(1)]
    by (simp add: readInt_def isErrorSet_def of_le_to_le[OF assms(3)])
qed

lemmas ahead_readInt_len [stream_simps] =
  ahead_readInt[of _ 1, where ?'a = 8, simplified]
  ahead_readInt[of _ 2, where ?'a = 16, simplified]
  ahead_readInt[of _ 4, where ?'a = 32, simplified]
  ahead_readInt[of _ 8, where ?'a = 64, simplified]

lemma ahead_skipSignature:
  assumes "ahead s (encSignature sg)" "length sg < 256"
  shows "skipSignature s = skip (length (encSignature sg)) s"
proof -
  have a: "ahead s (encInt 1 (of_nat (length sg) :: byte) (current s))"
    "ahead (skip 1 s) (sg @ [0])"
    using assms(1) ahead_append[of s "[of_nat (length sg)]" "sg @ [0]"] by (simp_all add: encSignature_def)
  have u: "unat (of_nat (length sg) :: byte) = length sg" using assms(2) by (simp add: unat_of_nat)
  show ?thesis
    using ahead_readInt[OF a(1)] ahead_readRaw[OF a(2), of "length sg + 1"]
    by (simp add: skipSignature_def orelse_def u encSignature_def)
qed

section \<open>Leaves\<close>

definition reads_back :: "ext \<Rightarrow> ty \<Rightarrow> bool" where
  "reads_back E t \<longleftrightarrow> (\<forall>v s. wt E t v \<longrightarrow> ahead s (enc E t v (current s)) \<longrightarrow>
     readValue E t s = (v, skip (length (enc E t v (current s))) s))"

lemma reads_backI:
  "(\<And>v s. wt E t v \<Longrightarrow> ahead s (enc E t v (current s)) \<Longrightarrow>
     readValue E t s = (v, skip (length (enc E t v (current s))) s)) \<Longrightarrow> reads_back E t"
  by (simp add: reads_back_def)

lemma reads_back_int:
  "reads_back E TInt8" "reads_back E TInt16" "reads_back E (TInt32 fd)" "reads_back E TInt64"
  "reads_back E TUInt8" "reads_back E TUInt16" "reads_back E (TUInt32 fd)" "reads_back E TUInt64"
  "reads_back E TDouble"
  by (rule reads_backI; auto simp: stream_simps as_val_def split: val.splits)+

lemma reads_back_float: "reads_back E TFloat"
  by (rule reads_backI) (auto simp: stream_simps as_val_def d2f_f2d split: val.splits)

lemma reads_back_bool: "reads_back E TBool"
  by (rule reads_backI) (auto simp: stream_simps readBool_def orelse_def split: val.splits)

lemma reads_back_enum: "reads_back E (TEnum base isSigned e)"
  by (rule reads_backI) (auto simp: stream_simps readEnum_def as_val_def split: val.splits)

lemma reads_back_ranged:
  "ranged_valid E mn mx (ranged_init E mn mx) \<Longrightarrow> reads_back E (TRanged mn mx)"
  by (rule reads_backI)
     (auto simp: stream_simps readRanged_def as_val_def isErrorSet_def ahead_not_error split: val.splits)

lemma c_string_eq: "0 \<notin> set bs \<Longrightarrow> c_string (bs @ 0 # r) = bs"
  by (induction bs) (auto simp: c_string_def)

lemma reads_back_string: "reads_back E (TString isPath)"
proof (rule reads_backI)
  fix v s assume "wt E (TString isPath) v" and a: "ahead s (enc E (TString isPath) v (current s))"
  then obtain bs where v: "v = VString bs" "0 \<notin> set bs" "length bs < 2 ^ 32 - 1"
    by (auto split: val.splits)
  let ?n = "length (encInt 4 (of_nat (length bs) :: u32) (current s))"
  from a v have a1: "ahead s (encInt 4 (of_nat (length bs) :: u32) (current s))"
    and a2: "ahead (skip ?n s) (bs @ [0])"
    by (simp_all add: ahead_append)
  have u: "unat (of_nat (length bs) + 1 :: u32) = length (bs @ [0])"
    using v(3) by (simp add: unat_word_ariths unat_of_nat)
  obtain r where r: "drop (current (skip ?n s)) (body (skip ?n s)) = bs @ 0 # r"
    using a2 by (auto simp: ahead_def)
  show "readValue E (TString isPath) s = (v, skip (length (enc E (TString isPath) v (current s))) s)"
    using ahead_readInt[OF a1] ahead_readRaw[OF a2, OF u] r ahead_not_error[OF a2] u
    by (simp add: readString_def Let_def orelse_def isErrorSet_def v(1) c_string_eq[OF v(2)] skip_def)
qed

lemma reads_back_bytes: "reads_back E TByteBuffer"
proof (rule reads_backI)
  fix v s assume "wt E TByteBuffer v" and a: "ahead s (enc E TByteBuffer v (current s))"
  then obtain bs where v: "v = VBytes bs" "length bs < 2 ^ 32"
    by (auto split: val.splits)
  let ?n = "length (encInt 4 (of_nat (length bs) :: u32) (current s))"
  from a v have a1: "ahead s (encInt 4 (of_nat (length bs) :: u32) (current s))"
    and a2: "ahead (skip ?n s) bs"
    by (simp_all add: ahead_append)
  have u: "unat (of_nat (length bs) :: u32) = length bs" using v(2) by (rule unat_length32)
  show "readValue E TByteBuffer s = (v, skip (length (enc E TByteBuffer v (current s))) s)"
    using ahead_readInt[OF a1] ahead_readRaw[OF a2, OF u] ahead_not_error[OF a2] u
    by (simp add: readByteBuffer_def Let_def orelse_def isErrorSet_def as_val_def v(1))
qed

lemma reads_back_version: "reads_back E TVersion"
proof (rule reads_backI)
  fix v s assume "wt E TVersion v" and a: "ahead s (enc E TVersion v (current s))"
  then obtain x y where v: "v = VVersion x y" by (auto split: val.splits)
  let ?p = "pad 8 (current s)"
  have e: "encInt 4 w (current s + ?p) = to_le 4 w" "encInt 4 w (current s + (?p + 4)) = to_le 4 w" for w :: u32
    using pad_8_4[of "current s"] by (simp_all add: encInt_def roundup_def add.assoc)
  from a v have a0: "ahead s (zeros ?p)" and a1: "ahead (skip ?p s) (to_le 4 x)"
    and a2: "ahead (skip (?p + 4) s) (to_le 4 y)"
    by (simp_all add: ahead_append)
  show "readValue E TVersion s = (v, skip (length (enc E TVersion v (current s))) s)"
    using ahead_align[OF a0] ahead_readInt[of "skip ?p s" 4 x] ahead_readInt[of "skip (?p + 4) s" 4 y] a1 a2
    by (simp add: readVersion_def orelse_def v e)
qed

section \<open>Containers\<close>

lemma readLoop_back:
  assumes "\<And>v s. v \<in> set vs \<Longrightarrow> ahead s (en v (current s)) \<Longrightarrow>
      rd s = (v, skip (length (en v (current s))) s)"
    and "\<And>v p. v \<in> set vs \<Longrightarrow> en v p \<noteq> []"
    and "ahead s (encElems en vs (current s))"
    and "unat (hd (sizes s)) = current s - hd (marks s) + length (encElems en vs (current s))"
    and "hd (marks s) \<le> current s" "length (encElems en vs (current s)) < fuel"
  shows "readLoop rd fuel s = (vs, skip (length (encElems en vs (current s))) s)"
  using assms
proof (induction vs arbitrary: s fuel)
  case Nil
  then show ?case by (cases fuel) simp_all
next
  case (Cons v vs)
  then obtain f where f: "fuel = Suc f" by (cases fuel) auto
  let ?n = "length (en v (current s))"
  have n: "0 < ?n" using Cons.prems(2)[of v] by simp
  from Cons.prems(3) have a1: "ahead s (en v (current s))"
    and a2: "ahead (skip ?n s) (encElems en vs (current s + ?n))"
    by (simp_all add: ahead_append)
  have rd: "rd s = (v, skip ?n s)" using Cons.prems(1)[OF _ a1] by simp
  have "readLoop rd f (skip ?n s)
      = (vs, skip (length (encElems en vs (current (skip ?n s)))) (skip ?n s))"
  proof (rule Cons.IH)
    show "length (encElems en vs (current (skip ?n s))) < f"
      using Cons.prems(6) n unfolding f encElems.simps length_append skip_sel by linarith
  qed (use Cons.prems a2 in auto)
  then show ?case
    using rd Cons.prems(4) n ahead_not_error[OF a2] by (simp add: f isErrorSet_def)
qed

lemma encBlock_ahead:
  assumes "ahead s (encBlock b bd (current s))" "b \<in> {1, 2, 4, 8}"
  defines "q \<equiv> roundup 4 (current s) + 4"
  defines "data \<equiv> bd (roundup b q)"
  obtains s1 where "readInt 4 s = (Some (of_nat (length data) :: u32), s1)"
    and "s1 = s\<lparr>current := q\<rparr>"
    and "ahead (pushSize n s1) (zeros (pad b (current (pushSize n s1))))"
    and "ahead (s\<lparr>current := roundup b q\<rparr>) data"
    and "length (encBlock b bd (current s)) + current s = roundup b q + length data"
proof -
  let ?w = "of_nat (length data) :: u32"
  have len: "length (encInt 4 ?w (current s)) + current s = q"
    by (simp add: q_def roundup_def)
  have e: "encBlock b bd (current s) = encInt 4 ?w (current s) @ zeros (pad b q) @ data"
    by (simp add: encBlock_def Let_def q_def data_def)
  from assms(1) have a1: "ahead s (encInt 4 ?w (current s))"
    and a2: "ahead (skip (length (encInt 4 ?w (current s))) s) (zeros (pad b q))"
    and a3: "ahead (skip (length (encInt 4 ?w (current s)) + pad b q) s) data"
    unfolding e ahead_append by simp_all
  have s1: "skip (length (encInt 4 ?w (current s))) s = s\<lparr>current := q\<rparr>"
    using len by (simp add: skip_def add.commute)
  have s2: "skip (length (encInt 4 ?w (current s)) + pad b q) s = s\<lparr>current := roundup b q\<rparr>"
    using len by (simp add: skip_def roundup_def)
  show thesis
  proof (rule that)
    show "readInt 4 s = (Some ?w, s\<lparr>current := q\<rparr>)"
      using ahead_readInt[OF a1] unfolding s1 by simp
    show "ahead (pushSize n (s\<lparr>current := q\<rparr>)) (zeros (pad b (current (pushSize n (s\<lparr>current := q\<rparr>)))))"
      using a2 unfolding s1 by (simp add: pushSize_def ahead_def)
    show "ahead (s\<lparr>current := roundup b q\<rparr>) data" using a3 unfolding s2 .
    show "length (encBlock b bd (current s)) + current s = roundup b q + length data"
      using len by (simp add: e roundup_def)
  qed (rule refl)
qed

text \<open>Reading a counted block back, for any reader of its elements.\<close>

lemma block_back:
  assumes a: "ahead s (encBlock b (encElems en vs) (current s))" and b: "b \<in> {1, 2, 4, 8}"
    and al: "\<And>s. b = 1 \<Longrightarrow> al s = s" "\<And>s. b \<noteq> 1 \<Longrightarrow> al s = in_align b s"
    and rd: "\<And>v s. v \<in> set vs \<Longrightarrow> ahead s (en v (current s)) \<Longrightarrow>
      rd s = (v, skip (length (en v (current s))) s)"
    and ne: "\<And>v p. v \<in> set vs \<Longrightarrow> en v p \<noteq> []"
  shows "\<exists>n s1 s2. readInt 4 s = (Some (n :: u32), s1) \<and>
    s2 = in_pushPosition (al (pushSize n s1)) \<and>
    (\<exists>s3. readLoop rd (loop_fuel s2) s2 = (vs, s3) \<and>
      snd (in_popPosition (snd (popSize s3))) = skip (length (encBlock b (encElems en vs) (current s))) s)"
proof -
  let ?q = "roundup 4 (current s) + 4"
  let ?data = "encElems en vs (roundup b ?q)"
  let ?n = "of_nat (length ?data) :: u32"
  obtain s1 where r: "readInt 4 s = (Some ?n, s1)" and s1: "s1 = s\<lparr>current := ?q\<rparr>"
    and z: "ahead (pushSize ?n s1) (zeros (pad b (current (pushSize ?n s1))))"
    and d: "ahead (s\<lparr>current := roundup b ?q\<rparr>) ?data"
    and len: "length (encBlock b (encElems en vs) (current s)) + current s = roundup b ?q + length ?data"
    by (rule encBlock_ahead[OF a b, of ?n])
  let ?s2 = "in_pushPosition (al (pushSize ?n s1))"
  have "al (pushSize ?n s1) = skip (pad b (current (pushSize ?n s1))) (pushSize ?n s1)"
    using ahead_align[OF z b] al by (cases "b = 1") simp_all
  then have s2: "?s2 = s\<lparr>current := roundup b ?q, sizes := ?n # sizes s, marks := roundup b ?q # marks s\<rparr>"
    by (simp add: in_pushPosition_def pushSize_def s1 skip_def roundup_def)
  have u: "unat ?n = length ?data" by (rule unat_length32) (rule ahead_small[OF d])
  have "readLoop rd (loop_fuel ?s2) ?s2 = (vs, skip (length (encElems en vs (current ?s2))) ?s2)"
  proof (rule readLoop_back)
    show "ahead ?s2 (encElems en vs (current ?s2))"
      using ahead_cong[OF d, of ?s2] by (simp add: s2)
  qed (use rd ne u ahead_bound[OF d] in \<open>simp_all add: s2 loop_fuel_def\<close>)
  moreover have "snd (in_popPosition (snd (popSize (skip (length (encElems en vs (current ?s2))) ?s2))))
      = skip (length (encBlock b (encElems en vs) (current s))) s"
    using len by (simp add: s2 in_popPosition_def popSize_def skip_def)
  ultimately show ?thesis using r by blast
qed

section \<open>readValue\<close>

text \<open>
  The types \<open>readValue\<close> can read back: a struct has fields, and the object a ranged
  integer is read into passes its own check (the source checks that object, not the value
  that was read).
\<close>

fun readable :: "ext \<Rightarrow> ty \<Rightarrow> bool" where
  "readable E (TRanged mn mx) = ranged_valid E mn mx (ranged_init E mn mx)"
| "readable E (TStruct ts) = (ts \<noteq> [] \<and> list_all (readable E) ts)"
| "readable E (TVariant isDBus ts) = list_all (readable E) ts"
| "readable E (TVector t) = readable E t"
| "readable E (TMap k v) = (readable E k \<and> readable E v)"
| "readable E t = True"

lemma wtAlternative_nth:
  "wtAlternative E ts i v \<longleftrightarrow> i < length ts \<and> wt E (ts ! i) v \<and> length (getSignature (ts ! i)) < 256"
  by (induction ts arbitrary: i) (auto simp: nth_Cons' split: nat.splits)

lemma encAlternative_nth:
  "i < length ts \<Longrightarrow> encAlternative E ts i v p =
     encSignature (sig_bytes (ts ! i)) @ enc E (ts ! i) v (p + length (encSignature (sig_bytes (ts ! i))))"
  by (induction ts arbitrary: i) (auto simp: nth_Cons' Let_def split: nat.splits)

lemma readAlternative_nth: "i < length ts \<Longrightarrow> readAlternative E ts i s = readValue E (ts ! i) s"
  by (induction ts arbitrary: i) (auto simp: nth_Cons' split: nat.splits)

lemma enc_nonempty: "readable E t \<Longrightarrow> wt E t v \<Longrightarrow> enc E t v p \<noteq> []"
proof (induction t arbitrary: v p)
  case (TStruct ts)
  then obtain t ts' where "ts = t # ts'" by (cases ts) auto
  with TStruct show ?case by (auto split: val.splits list.splits)
qed (auto simp: encInt_def encBlock_def Let_def to_le_def wtAlternative_nth encAlternative_nth
    encSignature_def upt_rec split: val.splits option.splits)

lemma readFields_back:
  assumes "\<And>t. t \<in> set ts \<Longrightarrow> reads_back E t" "wtFields E ts vs" "ahead s (encFields E ts vs (current s))"
  shows "readFields E ts s = (vs, skip (length (encFields E ts vs (current s))) s)"
  using assms
proof (induction ts arbitrary: vs s)
  case (Cons t ts)
  then obtain v vs' where vs: "vs = v # vs'" "wt E t v" "wtFields E ts vs'" by (auto split: list.splits)
  let ?n = "length (enc E t v (current s))"
  have a: "ahead s (enc E t v (current s))" "ahead (skip ?n s) (encFields E ts vs' (current (skip ?n s)))"
    using Cons.prems(3) by (simp_all add: vs(1) ahead_append)
  have "readValue E t s = (v, skip ?n s)"
    using Cons.prems(1)[of t] vs(2) a(1) by (simp add: reads_back_def)
  then show ?case using Cons.IH[OF _ vs(3) a(2)] Cons.prems(1) by (simp add: vs(1))
qed simp

lemma reads_back_struct:
  assumes "\<And>t. t \<in> set ts \<Longrightarrow> reads_back E t"
  shows "reads_back E (TStruct ts)"
proof (rule reads_backI)
  fix v s assume "wt E (TStruct ts) v" and a: "ahead s (enc E (TStruct ts) v (current s))"
  then obtain vs where v: "v = VStruct vs" "wtFields E ts vs" by (auto split: val.splits)
  let ?p = "pad 8 (current s)"
  have a1: "ahead s (zeros ?p)" and a2: "ahead (skip ?p s) (encFields E ts vs (current (skip ?p s)))"
    using a by (simp_all add: v(1) ahead_append roundup_def)
  show "readValue E (TStruct ts) s = (v, skip (length (enc E (TStruct ts) v (current s))) s)"
    using readFields_back[OF assms v(2) a2] ahead_align[OF a1] by (simp add: v(1) roundup_def)
qed

lemma char_of_sig_bytes: "map (\<lambda>b. char_of (unat b)) (sig_bytes t) = getSignature t"
proof -
  have "char_of (unat (of_char c :: byte)) = c" for c
  proof -
    have "unat (of_nat (of_char c) :: byte) = of_char c" by (simp only: unat_of_nat) simp
    then show ?thesis by (simp add: of_nat_of_char)
  qed
  then show ?thesis by (simp add: sig_bytes_def comp_def)
qed

lemma length_sig_bytes [simp]: "length (sig_bytes t) = length (getSignature t)"
  by (simp add: sig_bytes_def)

lemma reads_back_variant:
  assumes "\<And>t. t \<in> set ts \<Longrightarrow> reads_back E t"
  shows "reads_back E (TVariant isDBus ts)"
proof (rule reads_backI)
  fix v s assume "wt E (TVariant isDBus ts) v" and a: "ahead s (enc E (TVariant isDBus ts) v (current s))"
  then obtain k x i where v: "v = VVariant k x" "visit E (length ts) k = Some i" "i < length ts"
    "wt E (ts ! i) x" "length (getSignature (ts ! i)) < 256"
    and db: "isDBus \<Longrightarrow> ApplyTypeCompareVisitor (getSignature (ts ! i)) ts = (True, k)"
    by (auto simp: wtAlternative_nth split: val.splits option.splits)
  let ?sg = "sig_bytes (ts ! i)"
  let ?e = "encSignature ?sg"
  have bk: "readAlternative E ts i r = (x, skip (length (enc E (ts ! i) x (current r))) r)"
    if "ahead r (enc E (ts ! i) x (current r))" for r
    using assms[of "ts ! i"] v that by (simp add: readAlternative_nth reads_back_def)
  have le: "length ?e = length ?sg + 2" by (simp add: encSignature_def)
  show "readValue E (TVariant isDBus ts) s = (v, skip (length (enc E (TVariant isDBus ts) v (current s))) s)"
  proof (cases isDBus)
    case True
    from a True v have a1: "ahead s ?e" and a2: "ahead (skip (length ?e) s) (enc E (ts ! i) x (current s + length ?e))"
      by (simp_all add: encAlternative_nth ahead_append)
    have b: "ahead s [of_nat (length ?sg)]" "ahead (skip 1 s) (?sg @ [0])"
      using a1 ahead_append[of s "[of_nat (length ?sg)]" "?sg @ [0]"] by (simp_all add: encSignature_def)
    have u: "unat (of_nat (length ?sg) :: byte) = length ?sg" using v(5) by (simp add: unat_of_nat)
    have "readDBusVariantType ts s = (Some k, skip (length ?e) s)"
      using ahead_readInt[of s 1 "of_nat (length ?sg) :: byte"] b(1)
        ahead_readRaw[OF b(2), of "length ?sg + 1"] ahead_not_error[OF b(1)] db[OF True]
      by (simp add: readDBusVariantType_def orelse_def u le isErrorSet_def char_of_sig_bytes
          del: length_sig_bytes)
    with True v bk[of "skip (length ?e) s"] a2 show ?thesis by (simp add: encAlternative_nth)
  next
    case False
    let ?p = "pad 8 (current s)"
    have e: "enc E (TVariant isDBus ts) v (current s)
        = zeros ?p @ [k] @ ?e @ enc E (ts ! i) x (current s + (?p + 1 + length ?e))"
      using False v by (simp add: encAlternative_nth Let_def add.assoc)
    from a[unfolded e] have a1: "ahead s (zeros ?p)" and a2: "ahead (skip ?p s) [k]"
      and a3: "ahead (skip (?p + 1) s) ?e"
      and a4: "ahead (skip (?p + 1 + length ?e) s) (enc E (ts ! i) x (current s + (?p + 1 + length ?e)))"
      unfolding ahead_append by simp_all
    have "readVariantType s = (k, skip (?p + 1 + length ?e) s)"
      using ahead_align[OF a1] ahead_readInt[of "skip ?p s" 1 k] a2 ahead_skipSignature[OF a3] v(5)
      by (simp add: readVariantType_def orelse_def)
    with False v bk[of "skip (?p + 1 + length ?e) s"] a4 show ?thesis
      unfolding e by (simp add: add.assoc)
  qed
qed

lemma reads_back_vector:
  assumes "reads_back E t" "readable E t"
  shows "reads_back E (TVector t)"
proof (rule reads_backI)
  fix v s assume "wt E (TVector t) v" and a: "ahead s (enc E (TVector t) v (current s))"
  then obtain vs where v: "v = VVector vs" "\<And>x. x \<in> set vs \<Longrightarrow> wt E t x"
    by (auto split: val.splits simp: list_all_iff)
  from a have a': "ahead s (encBlock (alignVector_boundary t) (encElems (\<lambda>x p. enc E t x p) vs) (current s))"
    by (simp add: v(1))
  have "\<exists>n s1 s2. readInt 4 s = (Some (n :: u32), s1) \<and>
    s2 = in_pushPosition (in_alignVector t (pushSize n s1)) \<and>
    (\<exists>s3. readLoop (\<lambda>s. readValue E t s) (loop_fuel s2) s2 = (vs, s3) \<and>
      snd (in_popPosition (snd (popSize s3)))
        = skip (length (encBlock (alignVector_boundary t) (encElems (\<lambda>x p. enc E t x p) vs) (current s))) s)"
    by (rule block_back[OF a' alignVector_boundary_cases])
       (use assms v(2) enc_nonempty in \<open>auto simp: in_alignVector_def reads_back_def\<close>)
  then show "readValue E (TVector t) s = (v, skip (length (enc E (TVector t) v (current s))) s)"
    by (auto simp: v(1) readVector_def orelse_def Let_def)
qed

definition encEntry :: "(val \<Rightarrow> nat \<Rightarrow> byte list) \<Rightarrow> (val \<Rightarrow> nat \<Rightarrow> byte list) \<Rightarrow> val \<times> val \<Rightarrow> nat \<Rightarrow> byte list" where
  "encEntry ek ev e p =
     (let a = zeros (pad 8 p) @ ek (fst e) (roundup 8 p) in a @ ev (snd e) (p + length a))"

lemma encEntries_eq: "encEntries ek ev es p = encElems (encEntry ek ev) es p"
  by (induction ek ev es p rule: encEntries.induct) (simp_all add: encEntry_def Let_def add.assoc)

lemma insert_entries_distinct: "distinct (map fst es) \<Longrightarrow> insert_entries es = es"
proof -
  have "fold (\<lambda>(k, v) m. al_insert k v m) es m = m @ es" if "distinct (map fst (m @ es))" for m :: "('a \<times> 'b) list"
    using that
  proof (induction es arbitrary: m)
    case (Cons e es)
    obtain k v where e: "e = (k, v)" by force
    have "al_insert k v m = m @ [(k, v)]" using Cons.prems by (auto simp: al_insert_def e)
    then show ?case using Cons.IH[of "m @ [(k, v)]"] Cons.prems by (simp add: e)
  qed simp
  from this[of "[]"] show "distinct (map fst es) \<Longrightarrow> insert_entries es = es" by (simp add: insert_entries_def)
qed

lemma readEntry_back:
  assumes "reads_back E kt" "reads_back E vt" "wt E kt (fst e)" "wt E vt (snd e)"
    and "ahead s (encEntry (\<lambda>x p. enc E kt x p) (\<lambda>x p. enc E vt x p) e (current s))"
  shows "readEntry (\<lambda>s. readValue E kt s) (\<lambda>s. readValue E vt s) s
    = (e, skip (length (encEntry (\<lambda>x p. enc E kt x p) (\<lambda>x p. enc E vt x p) e (current s))) s)"
proof -
  let ?p = "pad 8 (current s)"
  let ?k = "enc E kt (fst e) (current s + ?p)"
  have e: "encEntry (\<lambda>x p. enc E kt x p) (\<lambda>x p. enc E vt x p) e (current s)
      = zeros ?p @ ?k @ enc E vt (snd e) (current s + (?p + length ?k))"
    by (simp add: encEntry_def Let_def roundup_def)
  from assms(5)[unfolded e] have a1: "ahead s (zeros ?p)" and a2: "ahead (skip ?p s) ?k"
    and a3: "ahead (skip (?p + length ?k) s) (enc E vt (snd e) (current s + (?p + length ?k)))"
    unfolding ahead_append by simp_all
  have "readValue E kt (skip ?p s) = (fst e, skip (length ?k) (skip ?p s))"
    using assms(1,3) a2 by (simp add: reads_back_def)
  moreover have "readValue E vt (skip (?p + length ?k) s) = (snd e,
      skip (length (enc E vt (snd e) (current s + (?p + length ?k)))) (skip (?p + length ?k) s))"
    using assms(2,4) a3 by (simp add: reads_back_def)
  ultimately show ?thesis
    using ahead_align[OF a1] unfolding e by (simp add: readEntry_def add.assoc)
qed

lemma reads_back_map:
  assumes "reads_back E kt" "reads_back E vt" "readable E kt"
  shows "reads_back E (TMap kt vt)"
proof (rule reads_backI)
  fix v s assume "wt E (TMap kt vt) v" and a: "ahead s (enc E (TMap kt vt) v (current s))"
  then obtain es where v: "v = VMap es" "distinct (map fst es)"
      "\<And>e. e \<in> set es \<Longrightarrow> wt E kt (fst e) \<and> wt E vt (snd e)"
    by (auto split: val.splits simp: list_all_iff)
  let ?en = "encEntry (\<lambda>x p. enc E kt x p) (\<lambda>x p. enc E vt x p)"
  let ?rd = "readEntry (\<lambda>s. readValue E kt s) (\<lambda>s. readValue E vt s)"
  have en: "encEntries (\<lambda>x p. enc E kt x p) (\<lambda>x p. enc E vt x p) es = encElems ?en es"
    by (rule ext) (rule encEntries_eq)
  from a have a': "ahead s (encBlock 8 (encElems ?en es) (current s))" by (simp add: v(1) en)
  have b: "8 \<in> {1, 2, 4, 8 :: nat}" by simp
  have "\<exists>n s1 s2. readInt 4 s = (Some (n :: u32), s1) \<and>
    s2 = in_pushPosition (in_align 8 (pushSize n s1)) \<and>
    (\<exists>s3. readLoop ?rd (loop_fuel s2) s2 = (es, s3) \<and>
      snd (in_popPosition (snd (popSize s3))) = skip (length (encBlock 8 (encElems ?en es) (current s))) s)"
  proof (rule block_back[OF a' b])
    fix e s assume "e \<in> set es" "ahead s (?en e (current s))"
    then show "?rd s = (e, skip (length (?en e (current s))) s)"
      using readEntry_back[OF assms(1,2)] v(3) by blast
  next
    fix e p assume "e \<in> set es"
    then show "?en e p \<noteq> []"
      using enc_nonempty[OF assms(3)] v(3) by (simp add: encEntry_def Let_def)
  qed simp_all
  then show "readValue E (TMap kt vt) s = (v, skip (length (enc E (TMap kt vt) v (current s))) s)"
    by (auto simp: v(1) en readMap_def orelse_def Let_def insert_entries_distinct[OF v(2)])
qed

lemma reads_back_readable: "readable E t \<Longrightarrow> reads_back E t"
proof (induction t)
  case (TStruct ts)
  then show ?case by (intro reads_back_struct) (simp add: list_all_iff)
next
  case (TVariant isDBus ts)
  then show ?case by (intro reads_back_variant) (simp add: list_all_iff)
next
  case (TVector t)
  then show ?case by (intro reads_back_vector) simp_all
next
  case (TMap kt vt)
  then show ?case by (intro reads_back_map) simp_all
qed (simp_all add: reads_back_int reads_back_float reads_back_bool reads_back_enum reads_back_ranged
  reads_back_string reads_back_bytes reads_back_version)

lemma readValue_enc:
  "readable E t \<Longrightarrow> wt E t v \<Longrightarrow> ahead s (enc E t v (current s)) \<Longrightarrow>
     readValue E t s = (v, skip (length (enc E t v (current s))) s)"
  using reads_back_readable by (simp add: reads_back_def)

section \<open>Through a message\<close>

text \<open>
  A value written into a stream is read back from any body that starts with what the stream
  holds afterwards, wherever in the message it stands.
\<close>

lemma write_read:
  assumes "readable E t" "wt E t v" "\<not> errorOccurred s"
    and "body r = flush (writeValue E t v s) @ rest" "current r = length (flush s)" "\<not> exception r"
    and "length (body r) + 16 < 2 ^ 32"
  shows "readValue E t r = (v, r\<lparr>current := length (flush (writeValue E t v s))\<rparr>)"
proof -
  have "ahead r (enc E t v (current r))"
    using assms(4-7) write_refines[OF assms(2,3)] by (auto simp: ahead_def flush_def)
  from readValue_enc[OF assms(1,2) this] show ?thesis
    using write_refines[OF assms(2,3)] assms(5) by (simp add: flush_def skip_def)
qed

section \<open>Properties\<close>

text \<open>C1: round trip through a message. A value written at any position of an output stream is read
  back, by an input stream on a body that starts with the stream's content, as the same value;
  the reader ends exactly where the writer ended, without error.\<close>

theorem write_read_roundtrip:
  assumes "readable E t" "wt E t v" "\<not> hasError s"
    and "body r = flush (writeValue E t v s) @ rest" "current r = getPosition s" "\<not> isErrorSet r"
    and "length (body r) + 16 < 2 ^ 32"
  shows "readValue E t r = (v, r\<lparr>current := getPosition (writeValue E t v s)\<rparr>)"
  using write_read[OF assms(1,2), of s r rest] assms(3-7)
  by (simp add: hasError_def isErrorSet_def flush_def getPosition_def)

theorem write_read_roundtrip_witness:
  "let t = TVector (TVariant False [TUInt8]); v = VVector [VVariant 1 (V8 5)]
   in fst (readValue some_ext t (new_istream (flush (writeValue some_ext t v new_ostream)))) = v"
proof -
  let ?t = "TVector (TVariant False [TUInt8])" and ?v = "VVector [VVariant 1 (V8 5)]"
  let ?bs = "flush (writeValue some_ext ?t ?v new_ostream)"
  have w: "wt some_ext ?t ?v" by (simp add: some_ext_def getSignature_def)
  have "enc some_ext ?t ?v 0 = [5, 0, 0, 0, 0, 0, 0, 0, 1, 1, 121, 0, 5]" by code_simp
  then have "length ?bs + 16 < 2 ^ 32"
    using write_refines[OF w, of new_ostream] by (simp only: flush_def new_ostream_def) simp
  then show ?thesis
    using write_read_roundtrip[OF _ w, of new_ostream "new_istream ?bs" "[]"]
    by (simp add: new_istream_def new_ostream_def hasError_def isErrorSet_def getPosition_def Let_def)
qed

text \<open>The range check of an incoming \<open>RangedInteger\<close> looks at the object before the assignment,
  so it does not depend on the message: with a valid old object every integer is accepted, with an
  invalid one every integer is refused.\<close>

theorem readRanged_ignores_value:
  assumes "readInt 4 s = (Some (w :: u32), s1)" "\<not> isErrorSet s1"
  shows "readValue E (TRanged mn mx) s =
    (if ranged_valid E mn mx (ranged_init E mn mx) then (V32 w, s1) else (VUnset, in_setError s1))"
  using assms by (simp add: readRanged_def as_val_def isErrorSet_def in_setError_def)

theorem readRanged_ignores_value_witness:
  "fst (readValue some_ext (TRanged 0 9) (new_istream [100, 0, 0, 0])) = V32 100 \<and>
   \<not> ranged_valid some_ext 0 9 (sint (100 :: u32))"
proof -
  let ?s = "new_istream [100, 0, 0, 0]"
  have r: "readInt 4 ?s = (Some (100 :: u32), ?s\<lparr>current := 4\<rparr>)" by code_simp
  have "\<not> isErrorSet (?s\<lparr>current := 4\<rparr>)" by (simp add: isErrorSet_def new_istream_def)
  from readRanged_ignores_value[OF r this, of some_ext 0 9] show ?thesis
    by (simp add: some_ext_def)
qed

text \<open>A float survives the detour through the \<open>double\<close> of the wire (signalling NaNs are
  quieted, everything else comes back bit by bit).\<close>

theorem float_roundtrip:
  assumes "\<not> is_snan w"
  shows "double_to_float (float_to_double w) = w"
  using assms by (rule d2f_f2d)

theorem float_roundtrip_witness: "double_to_float (float_to_double 0x3F800000) = 0x3F800000"
  by (rule float_roundtrip) (simp add: is_snan_def)

end
