(* ===== verification/Read_Typed.thy ===== *)
theory Read_Typed
  imports Read_Safe
begin

text \<open>
  What a successful read yields is a value of the type that was read, whatever the body holds: \<open>typed\<close> is what
  is left of \<open>wt\<close> for values that somebody else has sent. Enumerations are valid, strings end before their
  terminator, the keys of a map are distinct; integers with a range are not checked, and a variant that
  carries an unknown alternative is empty.
\<close>

section \<open>Values that may come in\<close>

fun typed :: "ext \<Rightarrow> ty \<Rightarrow> val \<Rightarrow> bool"
  and typedFields :: "ext \<Rightarrow> ty list \<Rightarrow> val list \<Rightarrow> bool"
  and typedAlternative :: "ext \<Rightarrow> ty list \<Rightarrow> nat \<Rightarrow> val \<Rightarrow> bool" where
  "typed E TBool v = (case v of VBool b \<Rightarrow> True | _ \<Rightarrow> False)"
| "typed E TInt8 v = (case v of V8 w \<Rightarrow> True | _ \<Rightarrow> False)"
| "typed E TInt16 v = (case v of V16 w \<Rightarrow> True | _ \<Rightarrow> False)"
| "typed E (TInt32 fd) v = (case v of V32 w \<Rightarrow> True | _ \<Rightarrow> False)"
| "typed E TInt64 v = (case v of V64 w \<Rightarrow> True | _ \<Rightarrow> False)"
| "typed E TUInt8 v = (case v of V8 w \<Rightarrow> True | _ \<Rightarrow> False)"
| "typed E TUInt16 v = (case v of V16 w \<Rightarrow> True | _ \<Rightarrow> False)"
| "typed E (TUInt32 fd) v = (case v of V32 w \<Rightarrow> True | _ \<Rightarrow> False)"
| "typed E TUInt64 v = (case v of V64 w \<Rightarrow> True | _ \<Rightarrow> False)"
| "typed E TFloat v = (case v of VFloat w \<Rightarrow> True | _ \<Rightarrow> False)"
| "typed E TDouble v = (case v of VDouble w \<Rightarrow> True | _ \<Rightarrow> False)"
| "typed E (TString isPath) v = (case v of VString bs \<Rightarrow> 0 \<notin> set bs | _ \<Rightarrow> False)"
| "typed E TVersion v = (case v of VVersion a b \<Rightarrow> True | _ \<Rightarrow> False)"
| "typed E (TRanged mn mx) v = (case v of V32 w \<Rightarrow> True | _ \<Rightarrow> False)"
| "typed E (TEnum base isSigned e) v =
     (case v of V8 w \<Rightarrow> base = E8 \<and> enum_valid E e (ucast w)
      | V16 w \<Rightarrow> base = E16 \<and> enum_valid E e (ucast w)
      | V32 w \<Rightarrow> base = E32 \<and> enum_valid E e w | _ \<Rightarrow> False)"
| "typed E (TStruct ts) v = (case v of VStruct vs \<Rightarrow> typedFields E ts vs | _ \<Rightarrow> False)"
| "typed E (TVariant isDBus ts) v =
     (case v of VVariant k x \<Rightarrow>
        (case visit E (length ts) k of None \<Rightarrow> x = VUnset | Some i \<Rightarrow> typedAlternative E ts i x)
      | _ \<Rightarrow> False)"
| "typed E TByteBuffer v = (case v of VBytes bs \<Rightarrow> True | _ \<Rightarrow> False)"
| "typed E (TVector t) v = (case v of VVector vs \<Rightarrow> list_all (\<lambda>x. typed E t x) vs | _ \<Rightarrow> False)"
| "typed E (TMap kt vt) v =
     (case v of VMap es \<Rightarrow> distinct (map fst es) \<and> list_all (\<lambda>e. typed E kt (fst e) \<and> typed E vt (snd e)) es
      | _ \<Rightarrow> False)"
| "typedFields E [] vs = (vs = [])"
| "typedFields E (t # ts) vs = (case vs of v # vs' \<Rightarrow> typed E t v \<and> typedFields E ts vs' | [] \<Rightarrow> False)"
| "typedAlternative E [] i v = (v = VUnset)"
| "typedAlternative E (t # ts) i v = (case i of 0 \<Rightarrow> typed E t v | Suc i' \<Rightarrow> typedAlternative E ts i' v)"

section \<open>Leaves\<close>

definition yields :: "('a \<Rightarrow> bool) \<Rightarrow> (istream \<Rightarrow> 'a \<times> istream) \<Rightarrow> bool" where
  "yields P rd \<longleftrightarrow> (\<forall>s v s'. near s \<longrightarrow> rd s = (v, s') \<longrightarrow> \<not> exception s' \<longrightarrow> P v)"

lemma yieldsI: "(\<And>s v s'. near s \<Longrightarrow> rd s = (v, s') \<Longrightarrow> \<not> exception s' \<Longrightarrow> P v) \<Longrightarrow> yields P rd"
  by (simp add: yields_def)

lemma yieldsD: "yields P rd \<Longrightarrow> near s \<Longrightarrow> rd s = (v, s') \<Longrightarrow> \<not> exception s' \<Longrightarrow> P v"
  by (simp add: yields_def)

lemma readRaw_some: "readRaw n s = (r, s') \<Longrightarrow> \<not> exception s' \<Longrightarrow> \<exists>bs. r = Some bs"
  by (auto simp: readRaw_def in_setError_def split: if_splits)

lemma readInt_some: "readInt n s = (r, s') \<Longrightarrow> \<not> exception s' \<Longrightarrow> \<exists>w. r = Some w"
  by (auto simp: readInt_def isErrorSet_def Let_def split: prod.splits if_splits dest: readRaw_some)

lemma yields_int:
  fixes f :: "'a::len word \<Rightarrow> val"
  assumes "\<And>w. P (f w)"
  shows "yields P (\<lambda>s. apfst (as_val f) (readInt n s))"
proof (rule yieldsI)
  fix s v s' assume "apfst (as_val f) (readInt n s) = (v, s')" "\<not> exception s'"
  moreover obtain r s1 where "readInt n s = (r :: 'a word option, s1)" by force
  ultimately show "P v" using readInt_some[of n s r s1] assms by (auto simp: as_val_def)
qed

lemma yields_string: "yields (typed E (TString isPath)) readString"
  by (rule yieldsI) (auto simp: readString_def isErrorSet_def c_string_def Let_def split: prod.splits if_splits dest: set_takeWhileD)

lemma yields_ranged: "yields (typed E (TRanged mn mx)) (readRanged E mn mx)"
proof (rule yieldsI)
  fix s v s' assume "readRanged E mn mx s = (v, s')" "\<not> exception s'"
  moreover obtain r s1 where "readInt 4 s = (r :: u32 option, s1)" by force
  ultimately show "typed E (TRanged mn mx) v"
    using readInt_some[of 4 s r s1] by (auto simp: readRanged_def isErrorSet_def as_val_def in_setError_def Let_def split: if_splits)
qed

lemma yields_enum: "yields (typed E (TEnum base sg e)) (readEnum E base e)"
proof (rule yieldsI)
  fix s v s' assume a: "readEnum E base e s = (v, s')" "\<not> exception s'"
  show "typed E (TEnum base sg e) v"
  proof (cases base)
    case E8
    obtain r s1 where r: "readInt 1 s = (r :: byte option, s1)" by force
    with a E8 show ?thesis
      using readInt_some[OF r] by (auto simp: readEnum_def as_val_def in_setError_def split: option.splits if_splits)
  next
    case E16
    obtain r s1 where r: "readInt 2 s = (r :: u16 option, s1)" by force
    with a E16 show ?thesis
      using readInt_some[OF r] by (auto simp: readEnum_def as_val_def in_setError_def split: option.splits if_splits)
  next
    case E32
    obtain r s1 where r: "readInt 4 s = (r :: u32 option, s1)" by force
    with a E32 show ?thesis
      using readInt_some[OF r] by (auto simp: readEnum_def as_val_def in_setError_def split: option.splits if_splits)
  qed
qed

lemma yields_bytes: "yields (typed E TByteBuffer) readByteBuffer"
proof (rule yieldsI)
  fix s v s' assume a: "readByteBuffer s = (v, s')" "\<not> exception s'"
  obtain r s1 where r: "readInt 4 s = (r :: u32 option, s1)" by force
  obtain raw s2 where "readRaw (unat (orelse r 0)) s1 = (raw, s2)" by force
  with a r show "typed E TByteBuffer v"
    using readRaw_some by (fastforce simp: readByteBuffer_def isErrorSet_def as_val_def)
qed

section \<open>Containers\<close>

abbreviation reads_on :: "(istream \<Rightarrow> 'a \<times> istream) \<Rightarrow> bool" where
  "reads_on rd \<equiv> element_readers (\<lambda>_ :: unit. rd) (\<lambda>_. True)"

lemma reads_onD: "reads_on rd \<Longrightarrow> near s \<Longrightarrow> rd s = (v, s') \<Longrightarrow> advances s s'"
  using element_readers.rd_advances[of "\<lambda>_ :: unit. rd" "\<lambda>_. True" "()" s] by simp

lemma loop_yields:
  assumes "reads_on rd" "yields P rd" "near s"
  shows "\<forall>v\<in>set (fst (readLoop rd fuel s)). P v"
  using assms(3)
proof (induction fuel arbitrary: s)
  case (Suc fuel)
  obtain v s' where r: "rd s = (v, s')" by force
  have "near s'" using reads_onD[OF assms(1) Suc.prems r] by (simp add: advances_def reads_def)
  moreover have "P v" if "\<not> exception s'" using yieldsD[OF assms(2) Suc.prems r that] .
  ultimately show ?case using r Suc.IH[of s'] by (auto simp: isErrorSet_def split: prod.splits)
qed simp

lemma yields_entry:
  assumes "yields P rk" "yields Q rv" "reads_on rk" "reads_on rv"
  shows "yields (\<lambda>e. P (fst e) \<and> Q (snd e)) (readEntry rk rv)"
proof (rule yieldsI)
  fix s e s' assume n: "near s" and e: "readEntry rk rv s = (e, s')" and x: "\<not> exception s'"
  have n8: "near (in_align 8 s)" using reads_align[OF n, of 8] by (simp add: reads_def)
  obtain k s1 where k: "rk (in_align 8 s) = (k, s1)" by force
  have n1: "near s1" using reads_onD[OF assms(3) n8 k] by (simp add: advances_def reads_def)
  obtain v s2 where v: "rv s1 = (v, s2)" by force
  have "s2 = s'" "e = (k, v)" using e k v by (simp_all add: readEntry_def)
  moreover have "\<not> exception s1" using reads_onD[OF assms(4) n1 v] x calculation by (auto simp: advances_def reads_def)
  ultimately show "P (fst e) \<and> Q (snd e)" using yieldsD[OF assms(1) n8 k] yieldsD[OF assms(2) n1 v] x by simp
qed

text \<open>Where the loop of a container begins.\<close>

lemma block_near:
  assumes "near s" "b \<in> {1, 2, 4, 8}" "readInt 4 s = (q :: u32 option, s1)"
  shows "near (in_pushPosition (in_align b (pushSize x s1)))"
proof -
  have "near s1" using readIntD[OF assms(3,1)] by (simp add: advances_def reads_def)
  then have "near (pushSize x s1)" by (simp add: pushSize_def near_def)
  then have "near (in_align b (pushSize x s1))" using reads_near[OF reads_align[OF _ assms(2)]] by blast
  then show ?thesis by (simp add: in_pushPosition_def near_def)
qed

lemma vector_near:
  assumes "near s" "readInt 4 s = (q :: u32 option, s1)"
  shows "near (in_pushPosition (in_alignVector t (pushSize x s1)))"
proof (cases "alignVector_boundary t = 1")
  case True
  have "near s1" using readIntD[OF assms(2,1)] by (simp add: advances_def reads_def)
  with True show ?thesis by (simp add: in_alignVector_def in_pushPosition_def pushSize_def near_def)
next
  case False
  then show ?thesis using block_near[OF assms(1) _ assms(2)] alignVector_boundary_cases[of t] by (auto simp: in_alignVector_def)
qed

lemma yields_vector:
  assumes "reads_on rd" "yields P rd"
  shows "\<exists>vs. fst (readVector t rd s) = VVector vs \<and> (near s \<longrightarrow> list_all P vs)"
proof -
  obtain q s1 where r: "readInt 4 s = (q :: u32 option, s1)" by force
  let ?s2 = "in_pushPosition (in_alignVector t (pushSize (orelse q 0) s1))"
  have "near s \<Longrightarrow> list_all P (fst (readLoop rd (loop_fuel ?s2) ?s2))"
    using loop_yields[OF assms vector_near[OF _ r]] by (simp add: list_all_iff)
  then show ?thesis by (simp add: readVector_def r Let_def split_beta)
qed

lemma insert_entries_props:
  "set (fold (\<lambda>(k, v) m. al_insert k v m) es m) \<subseteq> set es \<union> set m \<and>
    (distinct (map fst m) \<longrightarrow> distinct (map fst (fold (\<lambda>(k, v) m. al_insert k v m) es m)))"
proof (induction es arbitrary: m)
  case (Cons e es)
  have "set (al_insert (fst e) (snd e) m) \<subseteq> insert e (set m)" using set_al_insert[of "fst e" "snd e" m] by simp
  moreover have "distinct (map fst m) \<longrightarrow> distinct (map fst (al_insert (fst e) (snd e) m))" by (auto simp: al_insert_def)
  ultimately show ?case using Cons.IH[of "al_insert (fst e) (snd e) m"] by (cases e) auto
qed simp

lemma yields_map:
  assumes "yields P rk" "yields Q rv" "reads_on rk" "reads_on rv"
  shows "\<exists>es. fst (readMap rk rv s) = VMap es \<and> distinct (map fst es) \<and>
    (near s \<longrightarrow> list_all (\<lambda>e. P (fst e) \<and> Q (snd e)) es)"
proof -
  obtain q s1 where r: "readInt 4 s = (q :: u32 option, s1)" by force
  let ?s2 = "in_pushPosition (in_align 8 (pushSize (orelse q 0) s1))"
  let ?es = "fst (readLoop (readEntry rk rv) (loop_fuel ?s2) ?s2)"
  have "near s \<Longrightarrow> \<forall>e\<in>set ?es. P (fst e) \<and> Q (snd e)"
    using loop_yields[OF readEntry_readers[OF assms(3,4)] yields_entry[OF assms] block_near[OF _ _ r, of 8]] by simp
  then show ?thesis
    using insert_entries_props[of ?es "[]"] by (auto simp: readMap_def r Let_def split_beta insert_entries_def list_all_iff)
qed

section \<open>Every type\<close>

lemma yields_fields:
  assumes "\<And>t. t \<in> set ts \<Longrightarrow> yields (typed E t) (readValue E t) \<and> reads_on (readValue E t)"
  shows "yields (typedFields E ts) (readFields E ts)"
proof (rule yieldsI)
  fix s vs s' assume "near s" "readFields E ts s = (vs, s')" "\<not> exception s'"
  with assms show "typedFields E ts vs"
  proof (induction ts arbitrary: s vs)
    case (Cons t ts)
    obtain v s1 where v: "readValue E t s = (v, s1)" by force
    obtain ws s2 where ws: "readFields E ts s1 = (ws, s2)" by force
    have e: "vs = v # ws" "s2 = s'" using Cons.prems(3) v ws by simp_all
    have n: "near s1" using reads_onD[of "readValue E t", OF _ Cons.prems(2) v] Cons.prems(1)[of t] by (simp add: advances_def reads_def)
    have "reads s1 (snd (readFields E ts s1))"
    proof (rule readFields_reads[OF _ n])
      fix u assume "u \<in> set ts"
      then show "reader_ok E u" using Cons.prems(1)[of u] by (simp add: value_readers_def)
    qed
    then have "\<not> exception s1" using ws e Cons.prems(4) by (auto simp: reads_def)
    then have "typed E t v" using yieldsD[of "typed E t" "readValue E t", OF _ Cons.prems(2) v] Cons.prems(1)[of t] by simp
    moreover have "typedFields E ts ws"
      by (rule Cons.IH[OF _ n]) (use Cons.prems(1,4) ws e in simp_all)
    ultimately show ?case by (simp add: e)
  qed simp
qed

lemma yields_alternative:
  assumes "\<And>t. t \<in> set ts \<Longrightarrow> yields (typed E t) (readValue E t)"
  shows "yields (typedAlternative E ts i) (readAlternative E ts i)"
  using assms
proof (induction ts arbitrary: i)
  case Nil
  then show ?case by (simp add: yields_def)
next
  case (Cons t ts)
  then show ?case by (cases i) (simp_all add: yields_def)
qed

lemma readVariantType_near: "near s \<Longrightarrow> readVariantType s = (k, s') \<Longrightarrow> near s'"
  using advances_readVariantType[of s] by (simp add: advances_def reads_def)

lemma readDBusVariantType_near: "near s \<Longrightarrow> readDBusVariantType ts s = (k, s') \<Longrightarrow> near s'"
  using advances_readDBusVariantType[of s ts] by (simp add: advances_def reads_def)

lemma readDBusVariantType_none: "readDBusVariantType ts s = (None, s') \<Longrightarrow> exception s'"
  by (auto simp: readDBusVariantType_def isErrorSet_def in_setError_def Let_def split: prod.splits if_splits)

lemma yields_variant:
  assumes "\<And>t. t \<in> set ts \<Longrightarrow> yields (typed E t) (readValue E t)"
  shows "yields (typed E (TVariant isDBus ts)) (readValue E (TVariant isDBus ts))"
proof (rule yieldsI)
  fix s v s' assume n: "near s" and r: "readValue E (TVariant isDBus ts) s = (v, s')" and e: "\<not> exception s'"
  have alt: "typed E (TVariant isDBus ts) v"
    if "near s1" "(case visit E (length ts) k of None \<Rightarrow> (VVariant k VUnset, s1)
        | Some i \<Rightarrow> apfst (VVariant k) (readAlternative E ts i s1)) = (v, s')" for k s1
  proof (cases "visit E (length ts) k")
    case None
    with that show ?thesis by auto
  next
    case (Some i)
    obtain x s2 where x: "readAlternative E ts i s1 = (x, s2)" by force
    have "typedAlternative E ts i x"
      using yieldsD[OF yields_alternative[OF assms] that(1) x] that(2) Some x e by simp
    then show ?thesis using that(2) Some x by auto
  qed
  show "typed E (TVariant isDBus ts) v"
  proof (cases isDBus)
    case True
    obtain k s1 where k: "readDBusVariantType ts s = (k, s1)" by force
    show ?thesis
    proof (cases k)
      case None
      with True k r e show ?thesis using readDBusVariantType_none[of ts s s1] by simp
    next
      case (Some y)
      then show ?thesis using alt[OF readDBusVariantType_near[OF n k], of y] True k r by simp
    qed
  next
    case False
    obtain k s1 where k: "readVariantType s = (k, s1)" by force
    then show ?thesis using alt[OF readVariantType_near[OF n k], of k] False r by simp
  qed
qed

lemma yields_leaf: "(\<And>s. readValue E t s = rd s) \<Longrightarrow> yields P rd \<Longrightarrow> yields P (readValue E t)"
  by (simp add: yields_def)

lemma yields_int_leaf:
  fixes f :: "'a::len word \<Rightarrow> val"
  assumes "\<And>s. readValue E t s = apfst (as_val f) (readInt n s)" "\<And>w. typed E t (f w)"
  shows "yields (typed E t) (readValue E t)"
  by (rule yields_leaf[OF assms(1)], rule yields_int) (rule assms(2))

lemma yields_leaves:
  "yields (typed E TBool) (readValue E TBool)" "yields (typed E TVersion) (readValue E TVersion)"
  "yields (typed E TInt8) (readValue E TInt8)" "yields (typed E TUInt8) (readValue E TUInt8)"
  "yields (typed E TInt16) (readValue E TInt16)" "yields (typed E TUInt16) (readValue E TUInt16)"
  "yields (typed E (TInt32 fd)) (readValue E (TInt32 fd))" "yields (typed E (TUInt32 fd)) (readValue E (TUInt32 fd))"
  "yields (typed E TInt64) (readValue E TInt64)" "yields (typed E TUInt64) (readValue E TUInt64)"
  "yields (typed E TDouble) (readValue E TDouble)" "yields (typed E TFloat) (readValue E TFloat)"
  "yields (typed E (TString isPath)) (readValue E (TString isPath))" "yields (typed E TByteBuffer) (readValue E TByteBuffer)"
  "yields (typed E (TRanged mn mx)) (readValue E (TRanged mn mx))" "yields (typed E (TEnum base sg e)) (readValue E (TEnum base sg e))"
proof -
  show "yields (typed E TBool) (readValue E TBool)" "yields (typed E TVersion) (readValue E TVersion)"
    by (auto simp: yields_def readBool_def readVersion_def Let_def split_beta)
  show "yields (typed E TInt8) (readValue E TInt8)" "yields (typed E TUInt8) (readValue E TUInt8)"
    by (rule yields_int_leaf[of _ _ V8 1], simp_all)+
  show "yields (typed E TInt16) (readValue E TInt16)" "yields (typed E TUInt16) (readValue E TUInt16)"
    by (rule yields_int_leaf[of _ _ V16 2], simp_all)+
  show "yields (typed E (TInt32 fd)) (readValue E (TInt32 fd))" "yields (typed E (TUInt32 fd)) (readValue E (TUInt32 fd))"
    by (rule yields_int_leaf[of _ _ V32 4], simp_all)+
  show "yields (typed E TInt64) (readValue E TInt64)" "yields (typed E TUInt64) (readValue E TUInt64)"
    by (rule yields_int_leaf[of _ _ V64 8], simp_all)+
  show "yields (typed E TDouble) (readValue E TDouble)" by (rule yields_int_leaf[of _ _ VDouble 8]) simp_all
  show "yields (typed E TFloat) (readValue E TFloat)" by (rule yields_int_leaf[of _ _ "\<lambda>w. VFloat (double_to_float w)" 8]) simp_all
  show "yields (typed E (TString isPath)) (readValue E (TString isPath))" by (rule yields_leaf[OF _ yields_string]) simp
  show "yields (typed E TByteBuffer) (readValue E TByteBuffer)" by (rule yields_leaf[OF _ yields_bytes]) simp
  show "yields (typed E (TRanged mn mx)) (readValue E (TRanged mn mx))" by (rule yields_leaf[OF _ yields_ranged]) simp
  show "yields (typed E (TEnum base sg e)) (readValue E (TEnum base sg e))" by (rule yields_leaf[OF _ yields_enum]) simp
qed

lemma readValue_yields: "valid_ty t \<Longrightarrow> yields (typed E t) (readValue E t)"
proof (induction t)
  case (TStruct ts)
  then have a: "yields (typed E t) (readValue E t) \<and> reads_on (readValue E t)" if "t \<in> set ts" for t
    using that readValue_ok[of t E] by (simp add: list_all_iff value_readers_def)
  show ?case
  proof (rule yieldsI)
    fix s v s' assume "near s" "readValue E (TStruct ts) s = (v, s')" "\<not> exception s'"
    moreover obtain vs s1 where "readFields E ts (in_align 8 s) = (vs, s1)" by force
    moreover have "near (in_align 8 s)" using reads_align[of s 8] calculation(1) by (simp add: reads_def)
    ultimately show "typed E (TStruct ts) v" using yieldsD[OF yields_fields[OF a]] by fastforce
  qed
next
  case (TVariant isDBus ts)
  then show ?case by (intro yields_variant) (simp add: list_all_iff)
next
  case (TVector t)
  then have a: "reads_on (readValue E t)" "yields (typed E t) (readValue E t)"
    using readValue_ok[of t E] by (simp_all add: value_readers_def)
  show ?case
  proof (rule yieldsI)
    fix s v s' assume "near s" "readValue E (TVector t) s = (v, s')"
    moreover obtain vs where "fst (readVector t (readValue E t) s) = VVector vs" "near s \<longrightarrow> list_all (typed E t) vs"
      using yields_vector[OF a] by blast
    ultimately show "typed E (TVector t) v" by simp
  qed
next
  case (TMap k v)
  then have a: "yields (typed E k) (readValue E k)" "yields (typed E v) (readValue E v)" "reads_on (readValue E k)" "reads_on (readValue E v)"
    using readValue_ok[of k E] readValue_ok[of v E] by (simp_all add: value_readers_def)
  show ?case
  proof (rule yieldsI)
    fix s x s' assume "near s" "readValue E (TMap k v) s = (x, s')"
    moreover obtain es where "fst (readMap (readValue E k) (readValue E v) s) = VMap es" "distinct (map fst es)"
      "near s \<longrightarrow> list_all (\<lambda>e. typed E k (fst e) \<and> typed E v (snd e)) es"
      using yields_map[OF a] by blast
    ultimately show "typed E (TMap k v) x" by simp
  qed
qed (rule yields_leaves)+

text \<open>C11: what a read yields when it reports no error is a value of the type that was read, on every body, also on
  one that somebody else has sent: every part of it, down to the elements, has its type, enumerations are
  valid and the keys of a map are distinct.\<close>

theorem readValue_typed:
  assumes "valid_ty t" "length bs + 16 < 2 ^ 32" "readValue E t (new_istream bs) = (v, s')" "\<not> isErrorSet s'"
  shows "typed E t v"
proof -
  have "near (new_istream bs)" using assms(2) by (simp add: near_def new_istream_def)
  then show ?thesis using yieldsD[OF readValue_yields[OF assms(1)] _ assms(3)] assms(4) by (simp add: isErrorSet_def)
qed

theorem readValue_typed_witness:
  "typed some_ext (TMap TUInt8 (TVector TUInt8)) (fst (readValue some_ext (TMap TUInt8 (TVector TUInt8)) (new_istream [9, 0, 0, 0, 0, 0, 0, 0, 5, 0, 0, 0, 1, 0, 0, 0, 7])))"
proof -
  let ?t = "TMap TUInt8 (TVector TUInt8)" and ?bs = "[9, 0, 0, 0, 0, 0, 0, 0, 5, 0, 0, 0, 1, 0, 0, 0, 7]"
  have "\<not> isErrorSet (snd (readValue some_ext ?t (new_istream ?bs)))" by code_simp
  then show ?thesis by (intro readValue_typed[of ?t ?bs some_ext _ "snd (readValue some_ext ?t (new_istream ?bs))"]) simp_all
qed

end
