(* ===== verification/Wire_Spec.thy ===== *)
theory Wire_Spec
  imports Write_Correct
begin

text \<open>
  The marshalling rules of the D-Bus specification, written down independently of the
  runtime: values that carry their D-Bus type, the alignment of a type, and the bytes of a
  value at a position. \<open>to_dbus\<close> is the D-Bus value a C++ value stands for, and
  \<open>enc_conforms\<close> states for which types the output stream follows the specification.
\<close>

section \<open>The specification\<close>

fun dalign :: "dty \<Rightarrow> nat" where
  "dalign DByte = 1"
| "dalign DBoolean = 4"
| "dalign DInt16 = 2"
| "dalign DUInt16 = 2"
| "dalign DInt32 = 4"
| "dalign DUInt32 = 4"
| "dalign DInt64 = 8"
| "dalign DUInt64 = 8"
| "dalign DDouble = 8"
| "dalign DString = 4"
| "dalign DObjectPath = 4"
| "dalign DUnixFD = 4"
| "dalign DVariant = 1"
| "dalign (DStruct ds) = 8"
| "dalign (DArray d) = 4"
| "dalign (DDict k v) = 4"

datatype dval =
    DVByte byte | DVBoolean bool | DV16 u16 | DV32 u32 | DV64 u64
  | DVString "byte list"
  | DVVariant dty dval
  | DVStruct "dval list"
  | DVArray dty "dval list"
  | DVDict "dval list"
  | DVEntry dval dval

fun denc :: "dval \<Rightarrow> nat \<Rightarrow> byte list"
  and dencs :: "dval list \<Rightarrow> nat \<Rightarrow> byte list" where
  "denc (DVByte b) p = [b]"
| "denc (DVBoolean b) p = zeros (pad 4 p) @ to_le 4 (if b then 1 else 0 :: u32)"
| "denc (DV16 w) p = zeros (pad 2 p) @ to_le 2 w"
| "denc (DV32 w) p = zeros (pad 4 p) @ to_le 4 w"
| "denc (DV64 w) p = zeros (pad 8 p) @ to_le 8 w"
| "denc (DVString bs) p = zeros (pad 4 p) @ to_le 4 (of_nat (length bs) :: u32) @ bs @ [0]"
| "denc (DVVariant d x) p =
     (let sg = print_dty d; a = [of_nat (length sg)] @ map of_char sg @ [0] in a @ denc x (p + length a))"
| "denc (DVStruct xs) p = zeros (pad 8 p) @ dencs xs (p + pad 8 p)"
| "denc (DVArray d xs) p =
     (let q = roundup 4 p + 4; data = dencs xs (roundup (dalign d) q)
      in zeros (pad 4 p) @ to_le 4 (of_nat (length data) :: u32) @ zeros (pad (dalign d) q) @ data)"
| "denc (DVDict xs) p =
     (let q = roundup 4 p + 4; data = dencs xs (roundup 8 q)
      in zeros (pad 4 p) @ to_le 4 (of_nat (length data) :: u32) @ zeros (pad 8 q) @ data)"
| "denc (DVEntry k v) p =
     (let a = zeros (pad 8 p) @ denc k (p + pad 8 p) in a @ denc v (p + length a))"
| "dencs [] p = []"
| "dencs (x # xs) p = denc x p @ dencs xs (p + length (denc x p))"

section \<open>The D-Bus value of a C++ value\<close>

fun to_dbus :: "ext \<Rightarrow> ty \<Rightarrow> val \<Rightarrow> dval"
  and to_dbus_fields :: "ext \<Rightarrow> ty list \<Rightarrow> val list \<Rightarrow> dval list"
  and to_dbus_alternative :: "ext \<Rightarrow> ty list \<Rightarrow> nat \<Rightarrow> val \<Rightarrow> dval" where
  "to_dbus E TBool v = (case v of VBool b \<Rightarrow> DVBoolean b | _ \<Rightarrow> DVStruct [])"
| "to_dbus E TInt8 v = (case v of V8 w \<Rightarrow> DVByte w | _ \<Rightarrow> DVStruct [])"
| "to_dbus E TInt16 v = (case v of V16 w \<Rightarrow> DV16 w | _ \<Rightarrow> DVStruct [])"
| "to_dbus E (TInt32 fd) v = (case v of V32 w \<Rightarrow> DV32 w | _ \<Rightarrow> DVStruct [])"
| "to_dbus E TInt64 v = (case v of V64 w \<Rightarrow> DV64 w | _ \<Rightarrow> DVStruct [])"
| "to_dbus E TUInt8 v = (case v of V8 w \<Rightarrow> DVByte w | _ \<Rightarrow> DVStruct [])"
| "to_dbus E TUInt16 v = (case v of V16 w \<Rightarrow> DV16 w | _ \<Rightarrow> DVStruct [])"
| "to_dbus E (TUInt32 fd) v = (case v of V32 w \<Rightarrow> DV32 w | _ \<Rightarrow> DVStruct [])"
| "to_dbus E TUInt64 v = (case v of V64 w \<Rightarrow> DV64 w | _ \<Rightarrow> DVStruct [])"
| "to_dbus E TFloat v = (case v of VFloat w \<Rightarrow> DV64 (float_to_double w) | _ \<Rightarrow> DVStruct [])"
| "to_dbus E TDouble v = (case v of VDouble w \<Rightarrow> DV64 w | _ \<Rightarrow> DVStruct [])"
| "to_dbus E (TString isPath) v = (case v of VString bs \<Rightarrow> DVString bs | _ \<Rightarrow> DVStruct [])"
| "to_dbus E TVersion v = (case v of VVersion x y \<Rightarrow> DVStruct [DV32 x, DV32 y] | _ \<Rightarrow> DVStruct [])"
| "to_dbus E (TRanged mn mx) v = (case v of V32 w \<Rightarrow> DV32 w | _ \<Rightarrow> DVStruct [])"
| "to_dbus E (TEnum base isSigned e) v =
     (case v of V8 w \<Rightarrow> DVByte w | V16 w \<Rightarrow> DV16 w | V32 w \<Rightarrow> DV32 w | _ \<Rightarrow> DVStruct [])"
| "to_dbus E (TStruct ts) v = (case v of VStruct vs \<Rightarrow> DVStruct (to_dbus_fields E ts vs) | _ \<Rightarrow> DVStruct [])"
| "to_dbus E (TVariant isDBus ts) v =
     (case v of VVariant k x \<Rightarrow>
        (case visit E (length ts) k of None \<Rightarrow> DVStruct []
         | Some i \<Rightarrow> let y = to_dbus_alternative E ts i x
                     in if isDBus then y else DVStruct [DVByte k, y])
      | _ \<Rightarrow> DVStruct [])"
| "to_dbus E TByteBuffer v = (case v of VBytes bs \<Rightarrow> DVArray DByte (map DVByte bs) | _ \<Rightarrow> DVStruct [])"
| "to_dbus E (TVector t) v =
     (case v of VVector vs \<Rightarrow> DVArray (dbus_type t) (map (\<lambda>x. to_dbus E t x) vs) | _ \<Rightarrow> DVStruct [])"
| "to_dbus E (TMap kt vt) v =
     (case v of VMap es \<Rightarrow> DVDict (map (\<lambda>e. DVEntry (to_dbus E kt (fst e)) (to_dbus E vt (snd e))) es)
      | _ \<Rightarrow> DVStruct [])"
| "to_dbus_fields E [] vs = []"
| "to_dbus_fields E (t # ts) vs =
     (case vs of v # vs' \<Rightarrow> to_dbus E t v # to_dbus_fields E ts vs' | [] \<Rightarrow> [])"
| "to_dbus_alternative E [] i v = DVStruct []"
| "to_dbus_alternative E (t # ts) i v =
     (case i of 0 \<Rightarrow> DVVariant (dbus_type t) (to_dbus E t v) | Suc i' \<Rightarrow> to_dbus_alternative E ts i' v)"

section \<open>Conformance\<close>

text \<open>
  \<open>conforms\<close> leaves out the two element types for which \<open>alignVector\<close> pads to 8 although
  the specification aligns their arrays to less.
\<close>

fun vector_aligned :: "ty \<Rightarrow> bool" where
  "vector_aligned (TVariant isDBus ts) = (\<not> isDBus)"
| "vector_aligned (TRanged mn mx) = False"
| "vector_aligned t = True"

fun conforms :: "ty \<Rightarrow> bool" where
  "conforms (TStruct ts) = list_all conforms ts"
| "conforms (TVariant isDBus ts) = list_all conforms ts"
| "conforms (TVector t) = (vector_aligned t \<and> conforms t)"
| "conforms (TMap k v) = (conforms k \<and> conforms v)"
| "conforms t = True"

lemma pad_after_length: "b \<in> {1, 2, 4} \<Longrightarrow> pad b (roundup 4 p + 4) = 0"
proof -
  assume b: "b \<in> {1, 2, 4}"
  have "4 dvd roundup 4 p + 4" using roundup_dvd[of 4 p] by simp
  moreover have "b dvd 4" "0 < b" using b by auto
  ultimately show ?thesis by (meson dvd_trans pad_dvd)
qed

lemma vector_aligned_cases:
  "vector_aligned t \<Longrightarrow>
     alignVector_boundary t = 8 \<and> dalign (dbus_type t) = 8 \<or>
     alignVector_boundary t \<in> {1, 2, 4} \<and> dalign (dbus_type t) \<in> {1, 2, 4}"
  by (cases t rule: alignVector_boundary.cases) auto

lemma vector_aligned_pad:
  "vector_aligned t \<Longrightarrow> pad (alignVector_boundary t) (roundup 4 p + 4) = pad (dalign (dbus_type t)) (roundup 4 p + 4)"
  by (drule vector_aligned_cases) (elim disjE conjE; simp only: pad_after_length)

lemma dencs_map:
  "(\<And>x p. x \<in> set xs \<Longrightarrow> en x p = denc (f x) p) \<Longrightarrow> encElems en xs p = dencs (map f xs) p"
  by (induction xs arbitrary: p) simp_all

lemma dencs_bytes: "dencs (map DVByte bs) p = bs"
  by (induction bs arbitrary: p) simp_all

definition conforming :: "ext \<Rightarrow> ty \<Rightarrow> bool" where
  "conforming E t \<longleftrightarrow> (\<forall>v p. wt E t v \<longrightarrow> enc E t v p = denc (to_dbus E t v) p)"

lemma encFields_denc:
  "(\<And>t. t \<in> set ts \<Longrightarrow> conforming E t) \<Longrightarrow> wtFields E ts vs \<Longrightarrow>
     encFields E ts vs p = dencs (to_dbus_fields E ts vs) p"
  by (induction ts arbitrary: vs p) (auto simp: conforming_def split: list.splits)

lemma encAlternative_denc:
  "(\<And>t. t \<in> set ts \<Longrightarrow> conforming E t) \<Longrightarrow> wtAlternative E ts i v \<Longrightarrow>
     encAlternative E ts i v p = denc (to_dbus_alternative E ts i v) p"
  by (induction ts arbitrary: i)
     (auto simp: conforming_def encSignature_def sig_bytes_def getSignature_eq Let_def split: nat.splits)

lemma encEntries_denc:
  assumes "\<And>e p. e \<in> set es \<Longrightarrow> ek (fst e) p = denc (fk (fst e)) p"
    and "\<And>e p. e \<in> set es \<Longrightarrow> ev (snd e) p = denc (fv (snd e)) p"
  shows "encEntries ek ev es p = dencs (map (\<lambda>e. DVEntry (fk (fst e)) (fv (snd e))) es) p"
  using assms
proof (induction es arbitrary: p)
  case (Cons e es)
  obtain k v where e: "e = (k, v)" by force
  have "ek k q = denc (fk k) q" "ev v q = denc (fv v) q" for q
    using Cons.prems(1)[of e] Cons.prems(2)[of e] by (simp_all add: e)
  moreover have "encEntries ek ev es q = dencs (map (\<lambda>e. DVEntry (fk (fst e)) (fv (snd e))) es) q" for q
    by (rule Cons.IH) (use Cons.prems in simp_all)
  ultimately show ?case by (simp add: e Let_def roundup_def add.assoc)
qed simp

lemma enc_conforms_at: "conforms t \<Longrightarrow> conforming E t"
proof (induction t)
  case (TStruct ts)
  then show ?case
    by (auto simp: conforming_def[of _ "TStruct ts"] list_all_iff encFields_denc roundup_def split: val.splits)
next
  case (TVariant isDBus ts)
  then have "\<And>t. t \<in> set ts \<Longrightarrow> conforming E t" by (simp add: list_all_iff)
  then show ?case
    by (auto simp: conforming_def[of _ "TVariant isDBus ts"] encAlternative_denc Let_def add.assoc
        split: val.splits option.splits)
next
  case (TVector t)
  then have "conforming E t" "vector_aligned t" by simp_all
  then show ?case
    by (auto simp: conforming_def encBlock_def encInt_def Let_def roundup_def[of "alignVector_boundary t"]
        roundup_def[of "dalign (dbus_type t)"] vector_aligned_pad list_all_iff
        dencs_map[where f = "\<lambda>x. to_dbus E t x"] split: val.splits)
next
  case (TMap kt vt)
  then have c: "conforming E kt" "conforming E vt" by simp_all
  then have "encEntries (\<lambda>x p. enc E kt x p) (\<lambda>x p. enc E vt x p) es p
      = dencs (map (\<lambda>e. DVEntry (to_dbus E kt (fst e)) (to_dbus E vt (snd e))) es) p"
    if "list_all (\<lambda>e. wt E kt (fst e) \<and> wt E vt (snd e)) es" for es p
    using that by (intro encEntries_denc) (auto simp: conforming_def list_all_iff)
  then show ?case
    by (auto simp: conforming_def[of _ "TMap kt vt"] encBlock_def encInt_def Let_def split: val.splits)
qed (auto simp: conforming_def encInt_def dencs_bytes roundup_def pad_4_version pad_8_4[unfolded roundup_def]
    Let_def split: val.splits)

lemma enc_conforms: "conforms t \<Longrightarrow> wt E t v \<Longrightarrow> enc E t v p = denc (to_dbus E t v) p"
  using enc_conforms_at by (simp add: conforming_def)

section \<open>Properties\<close>

text \<open>C2: for every conforming type, what the output stream appends is the marshalling the D-Bus
  specification prescribes for the D-Bus value, alignment, lengths and signatures included.\<close>

theorem writeValue_marshals:
  assumes "conforms t" "wt E t v" "\<not> hasError s"
  shows "flush (writeValue E t v s) = flush s @ denc (to_dbus E t v) (getPosition s)"
  using write_refines[of E t v s] enc_conforms[of t E v "plen s"] assms
  by (simp add: hasError_def getPosition_def flush_def)

theorem writeValue_marshals_witness:
  "flush (writeValue some_ext some_ty some_val new_ostream)
     = flush new_ostream @ denc (to_dbus some_ext some_ty some_val) (getPosition new_ostream)"
  by (rule writeValue_marshals[OF _ some_val_wt]) (simp_all add: some_ty_def hasError_def new_ostream_def)

text \<open>The exception is real. A vector of D-Bus variants gets four bytes of padding between its
  length and its first element that the specification does not allow, because
  \<open>alignVector\<close> treats the class \<open>Variant\<close> like a struct.\<close>

theorem vector_of_variants_misaligned:
  "wt some_ext (TVector (TVariant True [TUInt8])) (VVector [VVariant 1 (V8 5)]) \<and>
   flush (writeValue some_ext (TVector (TVariant True [TUInt8])) (VVector [VVariant 1 (V8 5)]) new_ostream)
     = [4, 0, 0, 0] @ [0, 0, 0, 0] @ [1, 121, 0, 5] \<and>
   denc (to_dbus some_ext (TVector (TVariant True [TUInt8])) (VVector [VVariant 1 (V8 5)])) 0
     = [4, 0, 0, 0] @ [1, 121, 0, 5]"
proof -
  have w: "wt some_ext (TVector (TVariant True [TUInt8])) (VVector [VVariant 1 (V8 5)])"
    by (simp add: some_ext_def getSignature_def TypeCompareVisitor_def)
  have "enc some_ext (TVector (TVariant True [TUInt8])) (VVector [VVariant 1 (V8 5)]) 0
     = [4, 0, 0, 0] @ [0, 0, 0, 0] @ [1, 121, 0, 5]" by code_simp
  with write_refines[OF w, of new_ostream]
  have "flush (writeValue some_ext (TVector (TVariant True [TUInt8])) (VVector [VVariant 1 (V8 5)]) new_ostream)
     = [4, 0, 0, 0] @ [0, 0, 0, 0] @ [1, 121, 0, 5]"
    by (simp add: new_ostream_def flush_def)
  moreover have "denc (to_dbus some_ext (TVector (TVariant True [TUInt8])) (VVector [VVariant 1 (V8 5)])) 0
     = [4, 0, 0, 0] @ [1, 121, 0, 5]" by code_simp
  ultimately show ?thesis using w by blast
qed

end
