(* ===== verification/Address.thy ===== *)
theory Address
  imports Prelude "HOL-Library.List_Lexorder" "HOL-Library.Char_ord"
begin

text \<open>
  \<open>DBusAddress\<close> (\<open>DBusAddress.cpp\<close>): service name, object path and interface name. The
  comparison operators are those of the class; \<open>operator<\<close> is shown to be a strict total
  order that agrees with \<open>operator==\<close>, which is what \<open>std::map<DBusAddress, ...>\<close> needs, by
  instantiating \<open>linorder\<close> with it. A \<open>CommonAPI::Address\<close> is its domain, interface and
  instance; its class is not part of the repository.
\<close>

datatype DBusAddress = DBusAddress (getService: string) (getObjectPath: string) (getInterface: string)

fun setService :: "string \<Rightarrow> DBusAddress \<Rightarrow> DBusAddress" where
  "setService s (DBusAddress sv p i) = DBusAddress s p i"

fun setObjectPath :: "string \<Rightarrow> DBusAddress \<Rightarrow> DBusAddress" where
  "setObjectPath o' (DBusAddress sv p i) = DBusAddress sv o' i"

fun setInterface :: "string \<Rightarrow> DBusAddress \<Rightarrow> DBusAddress" where
  "setInterface j (DBusAddress sv p i) = DBusAddress sv p j"

definition address_eq :: "DBusAddress \<Rightarrow> DBusAddress \<Rightarrow> bool" where
  "address_eq a b \<longleftrightarrow>
     getService a = getService b \<and> getObjectPath a = getObjectPath b \<and> getInterface a = getInterface b"

definition address_neq :: "DBusAddress \<Rightarrow> DBusAddress \<Rightarrow> bool" where
  "address_neq a b \<longleftrightarrow>
     getService a \<noteq> getService b \<or> getObjectPath a \<noteq> getObjectPath b \<or> getInterface a \<noteq> getInterface b"

definition address_less :: "DBusAddress \<Rightarrow> DBusAddress \<Rightarrow> bool" where
  "address_less a b =
     (if getService a < getService b then True
      else if getService a = getService b then
        if getObjectPath a < getObjectPath b then True
        else if getObjectPath a = getObjectPath b then getInterface a < getInterface b
        else False
      else False)"

instantiation DBusAddress :: linorder
begin

definition less_DBusAddress :: "DBusAddress \<Rightarrow> DBusAddress \<Rightarrow> bool" where
  "less_DBusAddress a b = address_less a b"

definition less_eq_DBusAddress :: "DBusAddress \<Rightarrow> DBusAddress \<Rightarrow> bool" where
  "less_eq_DBusAddress a b \<longleftrightarrow> address_less a b \<or> address_eq a b"

instance
proof
  fix x y z :: DBusAddress
  show "x < y \<longleftrightarrow> x \<le> y \<and> \<not> y \<le> x"
    by (cases x; cases y) (auto simp: less_DBusAddress_def less_eq_DBusAddress_def address_less_def address_eq_def)
  show "x \<le> x" by (simp add: less_eq_DBusAddress_def address_eq_def)
  show "x \<le> y \<Longrightarrow> y \<le> z \<Longrightarrow> x \<le> z"
    by (cases x; cases y; cases z) (auto simp: less_eq_DBusAddress_def address_less_def address_eq_def split: if_splits)
  show "x \<le> y \<Longrightarrow> y \<le> x \<Longrightarrow> x = y"
    by (cases x; cases y) (auto simp: less_eq_DBusAddress_def address_less_def address_eq_def split: if_splits)
  show "x \<le> y \<or> y \<le> x"
    by (cases x; cases y) (auto simp: less_eq_DBusAddress_def address_less_def address_eq_def)
qed

end

lemma address_eq_iff [simp]: "address_eq a b \<longleftrightarrow> a = b"
  by (cases a; cases b) (auto simp: address_eq_def)

lemma address_neq_iff [simp]: "address_neq a b \<longleftrightarrow> a \<noteq> b"
  by (cases a; cases b) (auto simp: address_neq_def)

lemma address_less_iff [simp]: "address_less a b \<longleftrightarrow> a < b"
  by (simp add: less_DBusAddress_def)

text \<open>The external class: only its three components are used.\<close>

record capi_address =
  capi_domain :: string
  capi_interface :: string
  capi_instance :: string

section \<open>Properties\<close>

text \<open>\<open>operator<\<close> of \<open>DBusAddress\<close> is a strict total order and its equivalence is
  \<open>operator==\<close>: of two addresses exactly one of less, equal and greater holds, and less is
  transitive.\<close>

lemma address_order:
  "(address_less a b \<or> address_eq a b \<or> address_less b a)
   \<and> \<not> (address_less a b \<and> address_eq a b) \<and> \<not> (address_less a b \<and> address_less b a)
   \<and> (address_less a b \<and> address_less b c \<longrightarrow> address_less a c)
   \<and> address_neq a b = (\<not> address_eq a b)"
  by auto

lemma address_order_witness:
  "address_less (DBusAddress ''a.b'' ''/x'' ''i.j'') (DBusAddress ''a.c'' ''/'' ''i'')"
proof -
  have "address_less (DBusAddress ''a.b'' ''/x'' ''i.j'') (DBusAddress ''a.b'' ''/y'' ''i'')"
    "address_less (DBusAddress ''a.b'' ''/y'' ''i'') (DBusAddress ''a.c'' ''/'' ''i'')" by code_simp+
  then show ?thesis
    using address_order[of "DBusAddress ''a.b'' ''/x'' ''i.j''" "DBusAddress ''a.b'' ''/y'' ''i''"
      "DBusAddress ''a.c'' ''/'' ''i''"] by blast
qed

end
