(* ===== verification/Names.thy ===== *)
theory Names
  imports Prelude "HOL-Library.Char_ord"
begin

text \<open>
  The string operations of \<open>std::string\<close> the address translator uses, and the two checks on
  names: \<open>DBusAddressTranslator::isValid\<close>, a loop over separator positions, and
  \<open>isValidVersion\<close>. \<open>isValid_eq\<close> gives \<open>isValid\<close> its meaning: the parts between separators.
\<close>

section \<open>std::string\<close>

definition std_find :: "char \<Rightarrow> string \<Rightarrow> nat \<Rightarrow> nat option" where
  "std_find c s pos =
     (let k = length (takeWhile (\<lambda>x. x \<noteq> c) (drop pos s))
      in if pos + k < length s then Some (pos + k) else None)"

definition std_rfind :: "char \<Rightarrow> string \<Rightarrow> nat option" where
  "std_rfind c s =
     (let k = length (takeWhile (\<lambda>x. x \<noteq> c) (rev s)) in if k < length s then Some (length s - Suc k) else None)"

definition std_substr :: "nat \<Rightarrow> nat \<Rightarrow> string \<Rightarrow> string" where
  "std_substr pos n s = take n (drop pos s)"

definition std_replace :: "char \<Rightarrow> char \<Rightarrow> string \<Rightarrow> string" where
  "std_replace a b s = map (\<lambda>x. if x = a then b else x) s"

lemma std_find_Some:
  "std_find c s pos = Some p \<Longrightarrow> pos \<le> p \<and> p < length s \<and> s ! p = c \<and> (\<forall>i. pos \<le> i \<and> i < p \<longrightarrow> s ! i \<noteq> c)"
proof -
  assume a: "std_find c s pos = Some p"
  let ?w = "takeWhile (\<lambda>x. x \<noteq> c) (drop pos s)"
  from a have p: "p = pos + length ?w" and lt: "pos + length ?w < length s"
    by (auto simp: std_find_def Let_def split: if_splits)
  have "drop pos s ! length ?w = c"
    using nth_length_takeWhile[of "\<lambda>x. x \<noteq> c" "drop pos s"] lt by simp
  moreover have "s ! i \<noteq> c" if "pos \<le> i" "i < p" for i
  proof -
    have "?w ! (i - pos) = drop pos s ! (i - pos)" using that p by (intro takeWhile_nth) simp
    moreover have "?w ! (i - pos) \<in> set ?w" using that p by (intro nth_mem) simp
    ultimately show ?thesis using that lt p by (auto dest: set_takeWhileD)
  qed
  ultimately show ?thesis using p lt by simp
qed

lemma std_find_None: "std_find c s pos = None \<Longrightarrow> c \<notin> set (drop pos s)"
proof
  assume a: "std_find c s pos = None" and c: "c \<in> set (drop pos s)"
  obtain as bs where "drop pos s = as @ c # bs" "c \<notin> set as" using split_list_first[OF c] by blast
  then have "length (takeWhile (\<lambda>x. x \<noteq> c) (drop pos s)) < length (drop pos s)"
    by (simp add: takeWhile_append)
  with a show False by (auto simp: std_find_def Let_def split: if_splits)
qed

section \<open>isValid\<close>

text \<open>The check of one character, with the bounds of the source's condition.\<close>

definition illegal_char :: "bool \<Rightarrow> char \<Rightarrow> bool" where
  "illegal_char isBusName c \<longleftrightarrow> \<not> (isBusName \<and> c = CHR ''-'') \<and>
     (c < CHR ''0'' \<or> (c > CHR ''9'' \<and> c < CHR ''A'') \<or> (c > CHR ''Z'' \<and> c < CHR ''_'') \<or>
      (c > CHR ''_'' \<and> c < CHR ''a'') \<or> c > CHR ''z'')"

text \<open>\<open>DBUS_MAXIMUM_NAME_LENGTH\<close> is a macro of libdbus; it is the first argument.\<close>

function isValid_loop :: "nat \<Rightarrow> string \<Rightarrow> char \<Rightarrow> bool \<Rightarrow> bool \<Rightarrow> nat \<Rightarrow> nat option \<Rightarrow> bool" where
  "isValid_loop maxlen name sep isBusName isInitial start separatorPos =
     (let start' = (if isInitial then start else start + 1);
          part = (case separatorPos of None \<Rightarrow> drop start' name | Some p \<Rightarrow> std_substr start' (p - start') name)
      in if part = [] then False
         else if list_ex (illegal_char isBusName) part then False
         else (case separatorPos of
                 None \<Rightarrow> \<not> length name > maxlen
               | Some p \<Rightarrow> isValid_loop maxlen name sep isBusName False p (std_find sep name (p + 1))))"
  by pat_completeness auto
termination
  by (relation "measure (\<lambda>(_, name, _, _, _, _, sp). case sp of None \<Rightarrow> 0 | Some p \<Rightarrow> Suc (length name - p))")
     (auto dest!: std_find_Some split: option.splits)

declare isValid_loop.simps [simp del]

definition isValid :: "nat \<Rightarrow> string \<Rightarrow> char \<Rightarrow> bool \<Rightarrow> bool \<Rightarrow> bool \<Rightarrow> bool" where
  "isValid maxlen name sep ignoreFirst isAllowedToStartWithDigit isBusName =
     (case std_find sep name 0 of
        None \<Rightarrow> False
      | Some separatorPos \<Rightarrow>
          if ignoreFirst then
            if separatorPos = 0 then
              if length name = 1 then True
              else isValid_loop maxlen name sep isBusName True 1 (std_find sep name (separatorPos + 1))
            else isValid_loop maxlen name sep isBusName True 1 (Some separatorPos)
          else isValid_loop maxlen name sep isBusName True 0 (Some separatorPos))"

definition isValidVersion :: "string \<Rightarrow> bool" where
  "isValidVersion v =
     (if v = [] then False
      else if std_find (CHR ''_'') v 0 = None then False
      else if hd v \<noteq> CHR ''v'' then False
      else list_all (\<lambda>c. (CHR ''0'' \<le> c \<and> c \<le> CHR ''9'') \<or> c = CHR ''_'') (tl v))"

section \<open>The meaning of isValid\<close>

fun split_parts :: "char \<Rightarrow> string \<Rightarrow> string list" where
  "split_parts c [] = [[]]"
| "split_parts c (x # xs) =
     (if x = c then [] # split_parts c xs
      else (case split_parts c xs of p # ps \<Rightarrow> (x # p) # ps | [] \<Rightarrow> [[x]]))"

definition legal_part :: "bool \<Rightarrow> string \<Rightarrow> bool" where
  "legal_part isBusName part \<longleftrightarrow> part \<noteq> [] \<and> \<not> list_ex (illegal_char isBusName) part"

lemma split_parts_ne: "split_parts c s \<noteq> []"
  by (induction s) (auto split: list.splits)

lemma split_parts_none: "c \<notin> set s \<Longrightarrow> split_parts c s = [s]"
  by (induction s) auto

lemma split_parts_append: "c \<notin> set a \<Longrightarrow> split_parts c (a @ c # b) = a # split_parts c b"
  by (induction a) auto

lemma isValid_loop_parts:
  "\<lbrakk>s0 = (if ini then start else start + 1); s0 \<le> length name; separatorPos = std_find sep name s0\<rbrakk> \<Longrightarrow>
     isValid_loop maxlen name sep bus ini start separatorPos \<longleftrightarrow>
       list_all (legal_part bus) (split_parts sep (drop s0 name)) \<and> length name \<le> maxlen"
proof (induction maxlen name sep bus ini start separatorPos arbitrary: s0 rule: isValid_loop.induct)
  case (1 maxlen name sep bus ini start separatorPos)
  show ?case
  proof (cases separatorPos)
    case None
    then have "split_parts sep (drop s0 name) = [drop s0 name]"
      using 1(4) std_find_None by (simp add: split_parts_none)
    then show ?thesis using None 1(2)
      by (subst isValid_loop.simps) (auto simp: Let_def legal_part_def)
  next
    case (Some p)
    with 1(4) have p: "s0 \<le> p" "p < length name" "name ! p = sep" "\<And>i. s0 \<le> i \<Longrightarrow> i < p \<Longrightarrow> name ! i \<noteq> sep"
      using std_find_Some[of sep name s0 p] by auto
    let ?part = "std_substr s0 (p - s0) name"
    have d: "drop s0 name = ?part @ sep # drop (p + 1) name"
      using p by (metis (no_types, lifting) Cons_nth_drop_Suc Suc_eq_plus1 append_take_drop_id drop_drop
          le_add_diff_inverse2 std_substr_def)
    have "sep \<notin> set ?part"
      using p by (auto simp: std_substr_def in_set_conv_nth)
    then have sp: "split_parts sep (drop s0 name) = ?part # split_parts sep (drop (p + 1) name)"
      unfolding d by (rule split_parts_append)
    have IH: "?part \<noteq> [] \<Longrightarrow> \<not> list_ex (illegal_char bus) ?part \<Longrightarrow>
        isValid_loop maxlen name sep bus False p (std_find sep name (p + 1)) \<longleftrightarrow>
          list_all (legal_part bus) (split_parts sep (drop (p + 1) name)) \<and> length name \<le> maxlen"
      using 1(1)[OF refl refl _ _ Some, of "p + 1"] 1(2) p(2) Some by simp
    show ?thesis unfolding sp using IH 1(2) Some
      by (subst isValid_loop.simps) (auto simp: Let_def legal_part_def)
  qed
qed

lemma std_find_in: "std_find c s 0 \<noteq> None \<longleftrightarrow> c \<in> set s"
  using std_find_None[of c s 0] std_find_Some[of c s 0] by (auto intro: nth_mem)

text \<open>
  \<open>isValid\<close> accepts a name iff it contains the separator and either is the separator alone
  (with the first character ignored), or is short enough and all its parts, of the name or of
  what follows the ignored character, are non-empty and legal.
\<close>

lemma isValid_eq:
  "isValid maxlen name sep ign dig bus \<longleftrightarrow> sep \<in> set name \<and>
     (ign \<and> name = [sep] \<or>
      list_all (legal_part bus) (split_parts sep (if ign then tl name else name)) \<and> length name \<le> maxlen)"
proof (cases "std_find sep name 0")
  case None
  then show ?thesis using std_find_in[of sep name] by (simp add: isValid_def)
next
  case (Some p)
  note p = std_find_Some[OF Some]
  have ins: "sep \<in> set name" using p by auto
  have len: "1 \<le> length name" using p by (cases name) auto
  note L0 = isValid_loop_parts[of 0 True 0 name "Some p" sep maxlen bus]
  note L1 = isValid_loop_parts[of 1 True 1 name _ sep maxlen bus]
  show ?thesis
  proof (cases ign)
    case False
    then show ?thesis using L0 Some ins by (simp add: isValid_def)
  next
    case True
    show ?thesis
    proof (cases "p = 0")
      case p0: True
      show ?thesis
      proof (cases "length name = 1")
        case True
        then have "name = [sep]" using p p0 by (cases name) auto
        then show ?thesis using Some \<open>ign\<close> p0 by (simp add: isValid_def)
      next
        case False
        then have "name \<noteq> [sep]" by auto
        then show ?thesis using L1[of "std_find sep name 1"] Some ins p0 False \<open>ign\<close> len
          by (simp add: isValid_def drop_Suc)
      qed
    next
      case False
      have "std_find sep name 1 = Some p"
      proof -
        obtain x xs where n: "name = x # xs" using len by (cases name) auto
        have "x \<noteq> sep" using p False by (auto simp: n dest: spec[of _ 0])
        then show ?thesis using Some by (simp add: std_find_def n Let_def split: if_splits)
      qed
      moreover have "name \<noteq> [sep]"
      proof
        assume "name = [sep]"
        then have "length name = 1" by simp
        with p False show False by simp
      qed
      ultimately show ?thesis using L1[of "Some p"] Some ins False \<open>ign\<close> len
        by (simp add: isValid_def drop_Suc)
    qed
  qed
qed

section \<open>Properties\<close>

text \<open>The scanning loop of \<open>isValid\<close> accepts exactly the names that contain the separator and
  whose parts are all non-empty and legal and whose length is within the limit; with the first
  character ignored, also the separator alone.\<close>

theorem isValid_meaning:
  "isValid maxlen name sep ign dig bus \<longleftrightarrow> sep \<in> set name \<and>
     (ign \<and> name = [sep] \<or>
      list_all (legal_part bus) (split_parts sep (if ign then tl name else name)) \<and> length name \<le> maxlen)"
  by (rule isValid_eq)

end
