(* ===== verification/Translator.thy ===== *)
theory Translator
  imports Address Names
begin

text \<open>
  \<open>DBusAddressTranslator\<close> (\<open>DBusAddressTranslator.cpp\<close>): the two maps between CommonAPI
  and D-Bus addresses, filled from the ini file, by \<open>insert\<close> and on demand by \<open>translate\<close>.
  Calls are atomic (the source holds \<open>mutex_\<close>, which it gives up only around its own
  \<open>insert\<close>). A \<open>std::map\<close> is a HOL map.
\<close>

datatype DBusType_t = SESSION | SYSTEM

record translator =
  isDefault :: bool
  defaultDomain :: string
  forwards :: "capi_address \<rightharpoonup> DBusAddress"
  backwards :: "DBusAddress \<rightharpoonup> capi_address"
  compatibility :: "string \<rightharpoonup> string"
  unversioned :: "capi_address \<rightharpoonup> string \<times> string \<times> string"
  persistentAddresses :: "capi_address \<rightharpoonup> DBusAddress"
  dbusTypes :: "string \<rightharpoonup> DBusType_t"
  orgFreedesktopDBusPeerMapped :: bool

text \<open>
  External code: the constructor \<open>CommonAPI::Address(std::string)\<close>, \<open>getAddress()\<close>, and
  libdbus' maximal length of a name.
\<close>

record tr_ext =
  parse_address :: "string \<Rightarrow> capi_address"
  print_address :: "capi_address \<Rightarrow> string"
  max_name :: nat

text \<open>The constructor, before \<open>init\<close> reads the configuration.\<close>

definition new_translator :: "bool \<Rightarrow> translator" where
  "new_translator isDflt = \<lparr>isDefault = isDflt, defaultDomain = ''local'', forwards = Map.empty,
     backwards = Map.empty, compatibility = Map.empty, unversioned = Map.empty,
     persistentAddresses = Map.empty, dbusTypes = Map.empty, orgFreedesktopDBusPeerMapped = False\<rparr>"

text \<open>\<open>std::map::insert\<close>: an existing entry stays.\<close>

definition map_insert :: "'k \<Rightarrow> 'v \<Rightarrow> ('k \<rightharpoonup> 'v) \<Rightarrow> ('k \<rightharpoonup> 'v)" where
  "map_insert k v m = (case m k of None \<Rightarrow> m(k \<mapsto> v) | Some _ \<Rightarrow> m)"

section \<open>insert\<close>

definition valid_service :: "tr_ext \<Rightarrow> string \<Rightarrow> bool" where
  "valid_service X sv =
     (let unique = (length sv > 0 \<and> hd sv = CHR '':'')
      in isValid (max_name X) sv (CHR ''.'') unique unique True)"

definition insert_valid :: "tr_ext \<Rightarrow> string \<Rightarrow> string \<Rightarrow> string \<Rightarrow> bool \<Rightarrow> bool" where
  "insert_valid X service path interface objPathStartWithDigits \<longleftrightarrow>
     valid_service X service
     \<and> isValid (max_name X) path (CHR ''/'') True objPathStartWithDigits False
     \<and> isValid (max_name X) interface (CHR ''.'') False False False"

definition tr_insert :: "tr_ext \<Rightarrow> string \<Rightarrow> string \<Rightarrow> string \<Rightarrow> string \<Rightarrow> bool \<Rightarrow> translator \<Rightarrow> translator" where
  "tr_insert X addr service path interface objPathStartWithDigits T =
     (if insert_valid X service path interface objPathStartWithDigits then
        (let address = parse_address X addr;
             dbusAddress = DBusAddress service path interface;
             T1 = T\<lparr>persistentAddresses := (persistentAddresses T)(address \<mapsto> dbusAddress)\<rparr>
         in if forwards T address = None \<and> backwards T dbusAddress = None then
              T1\<lparr>forwards := (forwards T)(address \<mapsto> dbusAddress),
                 backwards := (backwards T)(dbusAddress \<mapsto> address),
                 orgFreedesktopDBusPeerMapped :=
                   (if orgFreedesktopDBusPeerMapped T then True else interface = ''org.freedesktop.DBus.Peer'')\<rparr>
            else T1)
      else T)"

section \<open>Translation of a CommonAPI address\<close>

definition use_unversioned :: "tr_ext \<Rightarrow> capi_address \<Rightarrow> translator \<Rightarrow> translator" where
  "use_unversioned X key T =
     (case std_rfind (CHR '':'') (capi_interface key) of
        None \<Rightarrow> T
      | Some itsVersionPos \<Rightarrow>
          (let itsCapiAddress = key\<lparr>capi_interface := std_substr 0 itsVersionPos (capi_interface key)\<rparr>
           in case unversioned T itsCapiAddress of
                None \<Rightarrow> T
              | Some (service, path, interface) \<Rightarrow>
                  (let T1 = tr_insert X (print_address X key) service path interface False T
                   in T1\<lparr>unversioned := (unversioned T1)(itsCapiAddress := None)\<rparr>)))"

text \<open>The address computed when no mapping exists, or \<open>None\<close> if a name is not valid.\<close>

definition default_dbus_address :: "tr_ext \<Rightarrow> capi_address \<Rightarrow> translator \<Rightarrow> DBusAddress option" where
  "default_dbus_address X key T =
     (let interfaceName = std_replace (CHR '':'') (CHR ''.'') (capi_interface key);
          objectPath = std_replace (CHR ''.'') (CHR ''/'') (''/'' @ capi_instance key);
          service = interfaceName @ ''_'' @ capi_instance key
      in if isValid (max_name X) service (CHR ''.'') False False True
            \<and> isValid (max_name X) objectPath (CHR ''/'') True False False
            \<and> isValid (max_name X) interfaceName (CHR ''.'') False False False then
           (case compatibility T (capi_interface key) of
              Some new_interface \<Rightarrow>
                (let interfaceName = std_replace (CHR '':'') (CHR ''.'') new_interface
                 in Some (DBusAddress (interfaceName @ ''_'' @ capi_instance key) objectPath interfaceName))
            | None \<Rightarrow> Some (DBusAddress service objectPath interfaceName))
         else None)"

text \<open>\<open>translate\<close> returns its result and output parameter as an option.\<close>

definition tr_translate :: "tr_ext \<Rightarrow> capi_address \<Rightarrow> translator \<Rightarrow> DBusAddress option \<times> translator" where
  "tr_translate X key T0 =
     (let T = use_unversioned X key T0
      in case forwards T key of
           Some d \<Rightarrow> (Some d, T)
         | None \<Rightarrow>
             if isDefault T then
               (case default_dbus_address X key T of
                  Some d \<Rightarrow> (Some d, T\<lparr>forwards := map_insert key d (forwards T),
                                      backwards := map_insert d key (backwards T)\<rparr>)
                | None \<Rightarrow> (None, T))
             else (None, T))"

definition tr_translate_string :: "tr_ext \<Rightarrow> string \<Rightarrow> translator \<Rightarrow> DBusAddress option \<times> translator" where
  "tr_translate_string X key T = tr_translate X (parse_address X key) T"

section \<open>Translation of a D-Bus address\<close>

text \<open>The last part of the interface name becomes a version if it looks like one.\<close>

definition version_interface :: "string \<Rightarrow> string" where
  "version_interface interfaceName =
     (case std_rfind (CHR ''.'') interfaceName of
        None \<Rightarrow> interfaceName
      | Some p \<Rightarrow>
          (let itsInterfacePos = p + 1
           in if length interfaceName - itsInterfacePos \<ge> 4
                 \<and> isValidVersion (drop itsInterfacePos interfaceName)
              then take (itsInterfacePos - 1) interfaceName @ '':'' @ drop itsInterfacePos interfaceName
              else interfaceName))"

definition default_capi_address :: "DBusAddress \<Rightarrow> translator \<Rightarrow> capi_address" where
  "default_capi_address key T =
     \<lparr>capi_domain = defaultDomain T,
      capi_interface = version_interface (getInterface key),
      capi_instance = std_replace (CHR ''/'') (CHR ''.'') (drop 1 (getObjectPath key))\<rparr>"

definition tr_translate_back :: "tr_ext \<Rightarrow> DBusAddress \<Rightarrow> translator \<Rightarrow> capi_address option \<times> translator" where
  "tr_translate_back X key T =
     (case backwards T key of
        Some a \<Rightarrow> (Some a, T)
      | None \<Rightarrow>
          if isDefault T then
            if isValid (max_name X) (getObjectPath key) (CHR ''/'') True False False
               \<and> isValid (max_name X) (getInterface key) (CHR ''.'') False False False then
              (let a = default_capi_address key T
               in (Some a,
                   if valid_service X (getService key) then
                     T\<lparr>forwards := map_insert a key (forwards T), backwards := map_insert key a (backwards T)\<rparr>
                   else T))
            else (None, T)
          else (None, T))"

definition tr_translate_back_string :: "tr_ext \<Rightarrow> DBusAddress \<Rightarrow> translator \<Rightarrow> string option \<times> translator" where
  "tr_translate_back_string X key T = apfst (map_option (print_address X)) (tr_translate_back X key T)"

section \<open>remove\<close>

definition tr_remove :: "capi_address \<Rightarrow> translator \<Rightarrow> translator" where
  "tr_remove address T =
     (if persistentAddresses T address \<noteq> None then T
      else
        (let (dbusAddress, T1) =
               (case forwards T address of
                  Some d \<Rightarrow> (d, T\<lparr>forwards := (forwards T)(address := None)\<rparr>)
                | None \<Rightarrow> (DBusAddress [] [] [], T))
         in case backwards T1 dbusAddress of
              Some _ \<Rightarrow> T1\<lparr>backwards := (backwards T1)(dbusAddress := None)\<rparr>
            | None \<Rightarrow> T1))"

section \<open>The configuration\<close>

text \<open>
  A section of the ini file: its name, its mappings in the order of the \<open>std::map\<close>, and
  \<open>getValue\<close>, as the (external) reader returns them.
\<close>

type_synonym ini_section = "string \<times> (string \<times> string) list \<times> (string \<Rightarrow> string)"

fun read_segments :: "(string \<times> string) list \<Rightarrow> translator \<Rightarrow> translator" where
  "read_segments [] T = T"
| "read_segments ((connectionId, busType) # ms) T =
     read_segments ms
       (if busType = ''SESSION'' then T\<lparr>dbusTypes := map_insert connectionId SESSION (dbusTypes T)\<rparr>
        else if busType = ''SYSTEM'' then T\<lparr>dbusTypes := map_insert connectionId SYSTEM (dbusTypes T)\<rparr>
        else T)"

definition unversioned_interface :: "string \<Rightarrow> string" where
  "unversioned_interface itsInterface =
     (let pos = (case std_rfind (CHR '':'') itsInterface of Some p \<Rightarrow> p + 1 | None \<Rightarrow> 0)
      in if length itsInterface - pos \<ge> 4 \<and> isValidVersion (drop pos itsInterface)
         then (if pos = 0 then itsInterface else take (pos - 1) itsInterface) else [])"

fun read_compatibility :: "(string \<times> string) list \<Rightarrow> translator \<Rightarrow> translator" where
  "read_compatibility [] T = T"
| "read_compatibility ((itsInterface, itsNewInterface) # ms) T =
     read_compatibility ms
       (T\<lparr>compatibility := (compatibility T)(itsInterface \<mapsto>
            (if itsNewInterface = [] then unversioned_interface itsInterface else itsNewInterface))\<rparr>)"

definition is_substring :: "string \<Rightarrow> string \<Rightarrow> bool" where
  "is_substring p s \<longleftrightarrow> list_ex (\<lambda>i. take (length p) (drop i s) = p) [0..<length s + 1]"

definition read_address :: "tr_ext \<Rightarrow> string \<Rightarrow> (string \<Rightarrow> string) \<Rightarrow> translator \<Rightarrow> translator" where
  "read_address X name getValue T =
     (let itsAddress = parse_address X name
      in if is_substring (capi_interface itsAddress) name then
           tr_insert X name (getValue ''service'') (getValue ''path'') (getValue ''interface'') False T
         else
           (let capiInterfaceName = (case std_rfind (CHR '':'') (capi_interface itsAddress) of
                  Some p \<Rightarrow> take p (capi_interface itsAddress) | None \<Rightarrow> capi_interface itsAddress)
            in T\<lparr>unversioned := (unversioned T)(itsAddress\<lparr>capi_interface := capiInterfaceName\<rparr> \<mapsto>
                  (getValue ''service'', getValue ''path'', getValue ''interface''))\<rparr>))"

fun readConfiguration :: "tr_ext \<Rightarrow> ini_section list \<Rightarrow> translator \<Rightarrow> translator" where
  "readConfiguration X [] T = T"
| "readConfiguration X ((name, mappings, getValue) # ss) T =
     readConfiguration X ss
       (if name = ''segments'' then read_segments mappings T
        else if name = ''compatibility'' then read_compatibility mappings T
        else read_address X name getValue T)"

definition getDBusBusType :: "string \<Rightarrow> translator \<Rightarrow> DBusType_t" where
  "getDBusBusType connectionId T = (case dbusTypes T connectionId of Some t \<Rightarrow> t | None \<Rightarrow> SESSION)"

definition isOrgFreedesktopDBusPeerMapped :: "translator \<Rightarrow> bool" where
  "isOrgFreedesktopDBusPeerMapped T = orgFreedesktopDBusPeerMapped T"

end
