(* ===== verification/Translator_Correct.thy ===== *)
theory Translator_Correct
  imports Translator
begin

text \<open>
  The translator keeps its two maps inverse to each other as long as no two addresses of one
  side compute the same address of the other. The contract is the locale \<open>two_way_table\<close>, a
  table of pairs with lookups in both directions; the translator's maps are an instance.
\<close>

section \<open>Two-way tables\<close>

locale two_way_table =
  fixes fwd :: "'t \<Rightarrow> 'a \<Rightarrow> 'b option" and bwd :: "'t \<Rightarrow> 'b \<Rightarrow> 'a option"
    and add :: "'a \<Rightarrow> 'b \<Rightarrow> 't \<Rightarrow> 't" and del :: "'a \<Rightarrow> 't \<Rightarrow> 't"
  assumes fwd_add: "fwd (add a b t) = (case fwd t a of None \<Rightarrow> (fwd t)(a \<mapsto> b) | Some _ \<Rightarrow> fwd t)"
    and bwd_add: "bwd (add a b t) = (case bwd t b of None \<Rightarrow> (bwd t)(b \<mapsto> a) | Some _ \<Rightarrow> bwd t)"
    and fwd_del: "fwd t a = Some b \<Longrightarrow> fwd (del a t) = (fwd t)(a := None)"
    and bwd_del: "fwd t a = Some b \<Longrightarrow> bwd (del a t) = (bwd t)(b := None)"
begin

definition inverse :: "'t \<Rightarrow> bool" where
  "inverse t \<longleftrightarrow> (\<forall>a b. fwd t a = Some b \<longleftrightarrow> bwd t b = Some a)"

lemma inverse_add: "inverse t \<Longrightarrow> fwd t a = None \<Longrightarrow> bwd t b = None \<Longrightarrow> inverse (add a b t)"
  by (auto simp: inverse_def fwd_add bwd_add) (metis option.distinct(1))+

lemma inverse_del: "inverse t \<Longrightarrow> fwd t a = Some b \<Longrightarrow> inverse (del a t)"
  by (auto simp: inverse_def fwd_del bwd_del) (metis option.inject)+

lemma inverse_inj: "inverse t \<Longrightarrow> fwd t a = Some b \<Longrightarrow> fwd t a' = Some b \<Longrightarrow> a = a'"
  by (metis inverse_def option.inject)

lemma bwd_add_fresh: "bwd t b = None \<Longrightarrow> bwd (add a b t) b = Some a"
  by (simp add: bwd_add)

lemma fwd_add_fresh: "fwd t a = None \<Longrightarrow> fwd (add a b t) a = Some b"
  by (simp add: fwd_add)

end

section \<open>The translator's maps are such a table\<close>

text \<open>The pair of \<open>std::map::insert\<close> calls, and the two erasures of \<open>remove\<close>.\<close>

definition add_mapping :: "capi_address \<Rightarrow> DBusAddress \<Rightarrow> translator \<Rightarrow> translator" where
  "add_mapping a d T = T\<lparr>forwards := map_insert a d (forwards T), backwards := map_insert d a (backwards T)\<rparr>"

definition drop_mapping :: "capi_address \<Rightarrow> translator \<Rightarrow> translator" where
  "drop_mapping a T = (case forwards T a of None \<Rightarrow> T
     | Some d \<Rightarrow> T\<lparr>forwards := (forwards T)(a := None), backwards := (backwards T)(d := None)\<rparr>)"

interpretation tw: two_way_table forwards backwards add_mapping drop_mapping
  by unfold_locales (auto simp: add_mapping_def drop_mapping_def map_insert_def split: option.splits)

abbreviation inverse_maps :: "translator \<Rightarrow> bool" where
  "inverse_maps \<equiv> tw.inverse"

text \<open>The default-constructed D-Bus address, which \<open>remove\<close> may look up, is never a key.\<close>

definition no_empty_key :: "translator \<Rightarrow> bool" where
  "no_empty_key T \<longleftrightarrow> backwards T (DBusAddress [] [] []) = None"

definition consistent :: "translator \<Rightarrow> bool" where
  "consistent T \<longleftrightarrow> inverse_maps T \<and> no_empty_key T"

lemma consistent_cong:
  "forwards T' = forwards T \<Longrightarrow> backwards T' = backwards T \<Longrightarrow> consistent T' = consistent T"
  by (simp add: consistent_def no_empty_key_def tw.inverse_def)

lemma consistent_unversioned [simp]: "consistent (T\<lparr>unversioned := u\<rparr>) = consistent T"
  by (rule consistent_cong) simp_all

lemma consistent_new: "consistent (new_translator b)"
  by (simp add: consistent_def no_empty_key_def tw.inverse_def new_translator_def)

lemma isValid_nonempty: "isValid n s c i g b \<Longrightarrow> s \<noteq> []"
  by (auto simp: isValid_eq)

lemma consistent_add:
  assumes "consistent T" "forwards T a = None" "backwards T d = None" "d \<noteq> DBusAddress [] [] []"
  shows "consistent (add_mapping a d T)"
  using tw.inverse_add[of T a d] assms
  by (simp add: consistent_def no_empty_key_def add_mapping_def map_insert_def)

lemma tr_insert_maps:
  "forwards (tr_insert X addr sv p i g T) =
     (if insert_valid X sv p i g \<and> forwards T (parse_address X addr) = None \<and> backwards T (DBusAddress sv p i) = None
      then (forwards T)(parse_address X addr \<mapsto> DBusAddress sv p i) else forwards T)"
  "backwards (tr_insert X addr sv p i g T) =
     (if insert_valid X sv p i g \<and> forwards T (parse_address X addr) = None \<and> backwards T (DBusAddress sv p i) = None
      then (backwards T)(DBusAddress sv p i \<mapsto> parse_address X addr) else backwards T)"
  by (simp_all add: tr_insert_def Let_def)

lemma insert_valid_path: "insert_valid X sv p i g \<Longrightarrow> p \<noteq> []"
  by (auto simp: insert_valid_def dest: isValid_nonempty)

lemma consistent_insert:
  assumes "consistent T" shows "consistent (tr_insert X addr sv p i g T)"
proof (cases "insert_valid X sv p i g \<and> forwards T (parse_address X addr) = None \<and> backwards T (DBusAddress sv p i) = None")
  case True
  then have "consistent (add_mapping (parse_address X addr) (DBusAddress sv p i) T)"
    using assms insert_valid_path[of X sv p i g] by (intro consistent_add) auto
  moreover have "forwards (tr_insert X addr sv p i g T) = forwards (add_mapping (parse_address X addr) (DBusAddress sv p i) T)"
    "backwards (tr_insert X addr sv p i g T) = backwards (add_mapping (parse_address X addr) (DBusAddress sv p i) T)"
    using True by (simp_all add: tr_insert_maps add_mapping_def map_insert_def)
  ultimately show ?thesis using consistent_cong by metis
next
  case False
  then show ?thesis using assms consistent_cong[of "tr_insert X addr sv p i g T" T]
    by (simp only: tr_insert_maps if_False)
qed

text \<open>What \<open>use_unversioned\<close> does: nothing, or an \<open>insert\<close> and the removal of the entry it used.\<close>

lemma use_unversioned_cases:
  obtains "use_unversioned X k T = T"
  | k' sv p i where "unversioned T k' = Some (sv, p, i)"
    "use_unversioned X k T = (tr_insert X (print_address X k) sv p i False T)
       \<lparr>unversioned := (unversioned (tr_insert X (print_address X k) sv p i False T))(k' := None)\<rparr>"
proof (cases "std_rfind (CHR '':'') (capi_interface k)")
  case None
  then show thesis using that(1) by (simp add: use_unversioned_def)
next
  case (Some n)
  let ?k = "k\<lparr>capi_interface := std_substr 0 n (capi_interface k)\<rparr>"
  show thesis
  proof (cases "unversioned T ?k")
    case None
    then show thesis using that(1) Some by (simp add: use_unversioned_def Let_def)
  next
    case (Some e)
    obtain sv p i where e: "e = (sv, p, i)" using prod_cases3 by blast
    show thesis
      by (rule that(2)[of ?k sv p i])
         (use Some e \<open>std_rfind _ _ = Some n\<close> in \<open>simp_all add: use_unversioned_def Let_def\<close>)
  qed
qed

lemma consistent_use_unversioned:
  assumes "consistent T" shows "consistent (use_unversioned X k T)"
proof (cases rule: use_unversioned_cases[of X k T])
  case 1
  then show ?thesis using assms by simp
next
  case (2 k' sv p i)
  have "consistent (tr_insert X (print_address X k) sv p i False T)" using assms by (rule consistent_insert)
  then show ?thesis unfolding 2(2) by simp
qed

lemma read_segments_maps:
  "forwards (read_segments ms T) = forwards T \<and> backwards (read_segments ms T) = backwards T"
  by (induction ms T rule: read_segments.induct) auto

lemma read_compatibility_maps:
  "forwards (read_compatibility ms T) = forwards T \<and> backwards (read_compatibility ms T) = backwards T"
  by (induction ms T rule: read_compatibility.induct) auto

lemma consistent_read_address: "consistent T \<Longrightarrow> consistent (read_address X n g T)"
  by (simp add: read_address_def Let_def consistent_insert)

lemma consistent_readConfiguration: "consistent T \<Longrightarrow> consistent (readConfiguration X ss T)"
proof (induction X ss T rule: readConfiguration.induct)
  case (2 X name mappings getValue ss T)
  have "consistent (read_segments mappings T) = consistent T"
    "consistent (read_compatibility mappings T) = consistent T"
    by (rule consistent_cong; simp add: read_segments_maps read_compatibility_maps)+
  with 2 show ?case by (simp add: consistent_read_address)
qed simp

lemma tr_remove_eq:
  assumes "no_empty_key T" "persistentAddresses T a = None" "consistent T"
  shows "tr_remove a T = drop_mapping a T"
proof (cases "forwards T a")
  case None
  then show ?thesis using assms by (simp add: tr_remove_def drop_mapping_def no_empty_key_def)
next
  case (Some d)
  then have "backwards T d = Some a" using assms(3) by (simp add: consistent_def tw.inverse_def)
  with Some show ?thesis using assms by (simp add: tr_remove_def drop_mapping_def)
qed

lemma consistent_remove: "consistent T \<Longrightarrow> consistent (tr_remove a T)"
proof (cases "persistentAddresses T a = None \<and> forwards T a \<noteq> None")
  case True
  assume c: "consistent T"
  from True obtain d where d: "forwards T a = Some d" "persistentAddresses T a = None" by blast
  have "no_empty_key T" using c by (simp add: consistent_def)
  then show ?thesis
    using tw.inverse_del[OF _ d(1)] c d tr_remove_eq[OF _ d(2) c]
    by (simp add: consistent_def) (simp add: drop_mapping_def no_empty_key_def)
next
  case False
  assume c: "consistent T"
  then have "tr_remove a T = T"
    using False tr_remove_eq[of T a] by (cases "persistentAddresses T a") (auto simp: consistent_def tr_remove_def drop_mapping_def)
  with c show ?thesis by simp
qed

section \<open>translate\<close>

section \<open>translate\<close>

lemma use_unversioned_idem: "use_unversioned X k (use_unversioned X k T) = use_unversioned X k T"
proof (cases "std_rfind (CHR '':'') (capi_interface k)")
  case (Some n)
  let ?k = "k\<lparr>capi_interface := std_substr 0 n (capi_interface k)\<rparr>"
  show ?thesis
  proof (cases "unversioned T ?k")
    case (Some e)
    then obtain sv p i where e: "unversioned T ?k = Some (sv, p, i)" using prod_cases3 by metis
    show ?thesis by (simp add: use_unversioned_def \<open>std_rfind _ _ = Some n\<close> Let_def e)
  qed (simp add: use_unversioned_def \<open>std_rfind _ _ = Some n\<close> Let_def)
qed (simp add: use_unversioned_def)

lemma use_unversioned_add:
  assumes "use_unversioned X k T = T"
  shows "use_unversioned X k (add_mapping a d T) = add_mapping a d T"
proof (cases rule: use_unversioned_cases[of X k T])
  case (2 k' sv p i)
  have "unversioned (use_unversioned X k T) k' = None" unfolding 2(2) by simp
  then show ?thesis using 2(1) assms by simp
next
  case 1
  show ?thesis
  proof (cases "std_rfind (CHR '':'') (capi_interface k)")
    case (Some n)
    let ?k = "k\<lparr>capi_interface := std_substr 0 n (capi_interface k)\<rparr>"
    have "unversioned T ?k = None"
    proof (rule ccontr)
      assume "unversioned T ?k \<noteq> None"
      then obtain sv p i where e: "unversioned T ?k = Some (sv, p, i)" using prod_cases3 by (metis not_None_eq)
      have "unversioned (use_unversioned X k T) ?k = None" by (simp add: use_unversioned_def Some Let_def e)
      with assms e show False by simp
    qed
    then show ?thesis by (simp add: use_unversioned_def Some Let_def add_mapping_def)
  qed (simp add: use_unversioned_def)
qed

lemma default_dbus_nonempty: "default_dbus_address X k T = Some d \<Longrightarrow> getService d \<noteq> []"
  by (auto simp: default_dbus_address_def Let_def split: if_splits option.splits)

lemma tr_translate_new:
  assumes "use_unversioned X k T = T'" "forwards T' k = None" "isDefault T'" "default_dbus_address X k T' = Some d"
  shows "tr_translate X k T = (Some d, add_mapping k d T')"
  using assms by (simp add: tr_translate_def add_mapping_def)

lemma tr_translate_newD:
  assumes "tr_translate X k T = (Some d, T')" "forwards (use_unversioned X k T) k = None"
  shows "T' = add_mapping k d (use_unversioned X k T)" "default_dbus_address X k (use_unversioned X k T) = Some d"
  using assms by (auto simp: tr_translate_def add_mapping_def Let_def split: if_splits option.splits)

lemma tr_translate_stable:
  assumes "tr_translate X k T = (Some d, T')"
  shows "tr_translate X k T' = (Some d, T') \<and> forwards T' k = Some d"
proof -
  let ?U = "use_unversioned X k T"
  have idem: "use_unversioned X k ?U = ?U" by (rule use_unversioned_idem)
  show ?thesis
  proof (cases "forwards ?U k")
    case None
    have T': "T' = add_mapping k d ?U" by (rule tr_translate_newD(1)[OF assms None])
    then show ?thesis using use_unversioned_add[OF idem] None
      by (simp add: tr_translate_def) (simp add: add_mapping_def map_insert_def)
  next
    case (Some d')
    with assms have "T' = ?U" "d' = d" by (simp_all add: tr_translate_def)
    then show ?thesis using Some idem by (simp add: tr_translate_def)
  qed
qed

lemma consistent_translate:
  assumes "consistent T" "tr_translate X k T = (Some d, T')"
    and "forwards (use_unversioned X k T) k = None \<Longrightarrow> backwards (use_unversioned X k T) d = None"
  shows "consistent T' \<and> backwards T' d = Some k"
proof -
  let ?U = "use_unversioned X k T"
  have c: "consistent ?U" using assms(1) by (rule consistent_use_unversioned)
  show ?thesis
  proof (cases "forwards ?U k")
    case None
    note T' = tr_translate_newD(1)[OF assms(2) None] and d = tr_translate_newD(2)[OF assms(2) None]
    have "d \<noteq> DBusAddress [] [] []" using default_dbus_nonempty[OF d] by (cases d) auto
    then show ?thesis
      using consistent_add[OF c None assms(3)[OF None]] tw.bwd_add_fresh[OF assms(3)[OF None], of k] T' by simp
  next
    case (Some d')
    with assms(2) have "T' = ?U" "d' = d" by (simp_all add: tr_translate_def)
    then show ?thesis using c Some by (simp add: consistent_def tw.inverse_def)
  qed
qed

section \<open>The default addresses\<close>

lemma takeWhile_all: "c \<notin> set b \<Longrightarrow> takeWhile (\<lambda>x. x \<noteq> c) (b @ c # a) = b"
  by (induction b) auto

lemma std_rfind_last:
  assumes "c \<notin> set b" shows "std_rfind c (a @ c # b) = Some (length a)"
proof -
  have "takeWhile (\<lambda>x. x \<noteq> c) (rev (a @ c # b)) = rev b"
    using takeWhile_all[of c "rev b" "rev a"] assms by simp
  then show ?thesis by (simp add: std_rfind_def)
qed

lemma std_replace_back: "b \<notin> set s \<Longrightarrow> std_replace b a (std_replace a b s) = s"
  by (induction s) (auto simp: std_replace_def)

lemma std_replace_id: "a \<notin> set s \<Longrightarrow> std_replace a b s = s"
  by (induction s) (auto simp: std_replace_def)

lemma isValidVersion_chars: "isValidVersion v \<Longrightarrow> CHR ''.'' \<notin> set v \<and> CHR '':'' \<notin> set v"
proof (cases v)
  case (Cons c cs)
  assume "isValidVersion v"
  then have "c = CHR ''v''" "\<forall>x \<in> set cs. (CHR ''0'' \<le> x \<and> x \<le> CHR ''9'') \<or> x = CHR ''_''"
    using Cons by (auto simp: isValidVersion_def list_all_iff split: if_splits)
  moreover have "\<not> (CHR ''0'' \<le> CHR ''.'' \<and> CHR ''.'' \<le> CHR ''9'')" "\<not> (CHR ''0'' \<le> CHR '':'' \<and> CHR '':'' \<le> CHR ''9'')"
    by code_simp+
  ultimately show ?thesis using Cons by auto
qed simp

lemma valid_no_slash:
  assumes "isValid n s (CHR ''.'') False g True" shows "CHR ''/'' \<notin> set s"
proof -
  have part: "list_all (legal_part True) ps \<Longrightarrow> p \<in> set ps \<Longrightarrow> x \<in> set p \<Longrightarrow> x \<noteq> CHR ''/''" for ps p x
  proof -
    assume "list_all (legal_part True) ps" "p \<in> set ps" "x \<in> set p"
    then have "\<not> illegal_char True x" by (auto simp: list_all_iff legal_part_def list_ex_iff)
    moreover have "illegal_char True (CHR ''/'')" by code_simp
    ultimately show "x \<noteq> CHR ''/''" by metis
  qed
  have "x \<in> set s \<Longrightarrow> x \<noteq> CHR ''.'' \<Longrightarrow> \<exists>p \<in> set (split_parts (CHR ''.'') s). x \<in> set p" for x
    by (induction s) (auto split: list.splits)
  from this[of "CHR ''/''"] have "CHR ''/'' \<in> set s \<Longrightarrow> \<exists>p \<in> set (split_parts (CHR ''.'') s). CHR ''/'' \<in> set p"
    by simp
  moreover have "list_all (legal_part True) (split_parts (CHR ''.'') s)" using assms by (simp add: isValid_eq)
  ultimately show ?thesis using part by blast
qed

lemma default_back:
  assumes "default_dbus_address X k T = Some d" "compatibility T (capi_interface k) = None"
    and "capi_interface k = base @ '':'' @ version" "isValidVersion version" "4 \<le> length version"
    and "CHR '':'' \<notin> set base" "capi_domain k = defaultDomain T"
  shows "default_capi_address d T' = k\<lparr>capi_domain := defaultDomain T'\<rparr>"
proof -
  note v = isValidVersion_chars[OF assms(4)]
  have i: "std_replace (CHR '':'') (CHR ''.'') (capi_interface k) = base @ ''.'' @ version"
    using assms(3,6) v std_replace_id[of "CHR '':''" base] std_replace_id[of "CHR '':''" version]
    by (simp add: std_replace_def)
  have d: "getObjectPath d = ''/'' @ std_replace (CHR ''.'') (CHR ''/'') (capi_instance k)"
    "getInterface d = base @ ''.'' @ version"
    and val: "isValid (max_name X) (base @ ''.'' @ version @ ''_'' @ capi_instance k) (CHR ''.'') False False True"
    using assms(1,2) i by (auto simp: default_dbus_address_def Let_def std_replace_def split: if_splits)
  have "CHR ''/'' \<notin> set (capi_instance k)" using valid_no_slash[OF val] by auto
  then have inst: "std_replace (CHR ''/'') (CHR ''.'') (std_replace (CHR ''.'') (CHR ''/'') (capi_instance k)) = capi_instance k"
    by (rule std_replace_back)
  have "version_interface (base @ ''.'' @ version) = capi_interface k"
    using std_rfind_last[of "CHR ''.''" version base] v assms(3-5)
    by (simp add: version_interface_def Let_def)
  then show ?thesis using d inst by (cases k) (simp add: default_capi_address_def)
qed

section \<open>Properties\<close>

text \<open>C14: reading the configuration, inserting and removing keep the two maps of the translator
  inverse to each other, starting from the empty ones of the constructor.\<close>

theorem translator_maps_inverse:
  "consistent (readConfiguration X ss (new_translator b)) \<and>
   (\<forall>T. consistent T \<longrightarrow> consistent (tr_insert X addr sv p i g T) \<and> consistent (tr_remove a T)
      \<and> consistent (readConfiguration X ss T))"
  by (simp add: consistent_readConfiguration consistent_new consistent_insert consistent_remove)

definition some_tr_ext :: tr_ext where
  "some_tr_ext = \<lparr>parse_address = (\<lambda>s. \<lparr>capi_domain = ''local'', capi_interface = ''a.b:v1_0'', capi_instance = s\<rparr>),
     print_address = capi_instance, max_name = 255\<rparr>"

theorem translator_maps_inverse_witness:
  "consistent (tr_remove (parse_address some_tr_ext ''x.y'')
     (tr_insert some_tr_ext ''x.y'' ''s.t'' ''/x/y'' ''a.b'' False (new_translator True)))"
proof -
  have "consistent (readConfiguration some_tr_ext [] (new_translator True))"
    using translator_maps_inverse by blast
  then have "consistent (new_translator True)" by simp
  then have "consistent (tr_insert some_tr_ext ''x.y'' ''s.t'' ''/x/y'' ''a.b'' False (new_translator True))"
    using translator_maps_inverse by blast
  then show ?thesis using translator_maps_inverse by blast
qed

text \<open>C29: translating a CommonAPI address is stable, a second call returns the same D-Bus address and
  changes nothing; and with consistent maps and no other address on the computed D-Bus address, the
  translation back returns the CommonAPI address.\<close>

theorem translate_stable_and_invertible:
  assumes "tr_translate X k T = (Some d, T')"
  shows "tr_translate X k T' = (Some d, T') \<and>
    (consistent T \<longrightarrow> (forwards (use_unversioned X k T) k = None \<longrightarrow> backwards (use_unversioned X k T) d = None) \<longrightarrow>
       consistent T' \<and> tr_translate_back X d T' = (Some k, T'))"
  using tr_translate_stable[OF assms] consistent_translate[OF _ assms] by (auto simp: tr_translate_back_def)

theorem translate_stable_and_invertible_witness:
  "let k = \<lparr>capi_domain = ''local'', capi_interface = ''a.b:v1_0'', capi_instance = ''x''\<rparr>;
       (r, T) = tr_translate some_tr_ext k (new_translator True)
   in r = Some (DBusAddress ''a.b.v1_0_x'' ''/x'' ''a.b.v1_0'') \<and> tr_translate some_tr_ext k T = (r, T)"
proof -
  let ?k = "\<lparr>capi_domain = ''local'', capi_interface = ''a.b:v1_0'', capi_instance = ''x''\<rparr>"
  let ?d = "DBusAddress ''a.b.v1_0_x'' ''/x'' ''a.b.v1_0''"
  have "fst (tr_translate some_tr_ext ?k (new_translator True)) = Some ?d" by code_simp
  then obtain T where t: "tr_translate some_tr_ext ?k (new_translator True) = (Some ?d, T)"
    by (metis prod.collapse)
  from translate_stable_and_invertible[OF t] show ?thesis by (simp add: t)
qed

text \<open>The default rules are inverse to each other. For an interface with a version, an address of
  the default domain that is translated by the rules (no compatibility entry) is what the rules for
  D-Bus addresses compute from the result.\<close>

theorem default_rules_roundtrip:
  assumes "default_dbus_address X k T = Some d" "compatibility T (capi_interface k) = None"
    and "capi_interface k = base @ '':'' @ version" "isValidVersion version" "4 \<le> length version"
    and "CHR '':'' \<notin> set base" "capi_domain k = defaultDomain T"
  shows "default_capi_address d T = k"
  using default_back[OF assms, of T] assms(7) by simp

theorem default_rules_roundtrip_witness:
  "default_capi_address (DBusAddress ''a.b.v1_0_x.y'' ''/x/y'' ''a.b.v1_0'') (new_translator True)
     = \<lparr>capi_domain = ''local'', capi_interface = ''a.b:v1_0'', capi_instance = ''x.y''\<rparr>"
proof -
  have a: "default_dbus_address some_tr_ext \<lparr>capi_domain = ''local'', capi_interface = ''a.b:v1_0'', capi_instance = ''x.y''\<rparr>
      (new_translator True) = Some (DBusAddress ''a.b.v1_0_x.y'' ''/x/y'' ''a.b.v1_0'')" by code_simp
  have v: "isValidVersion ''v1_0''" by code_simp
  show ?thesis
    by (rule default_rules_roundtrip[OF a, of "''a.b''" "''v1_0''"]) (simp_all add: v new_translator_def)
qed

text \<open>The default rule ignores the domain, so two addresses that differ only there get the same
  D-Bus address, and the second one is lost: translating back gives the first.\<close>

theorem translate_conflates_domains:
  "let k1 = \<lparr>capi_domain = ''local'', capi_interface = ''a.b:v1_0'', capi_instance = ''x''\<rparr>;
       k2 = k1\<lparr>capi_domain := ''remote''\<rparr>;
       d = DBusAddress ''a.b.v1_0_x'' ''/x'' ''a.b.v1_0'';
       (r1, T1) = tr_translate some_tr_ext k1 (new_translator True);
       (r2, T2) = tr_translate some_tr_ext k2 T1
   in r1 = Some d \<and> r2 = Some d \<and> fst (tr_translate_back some_tr_ext d T2) = Some k1"
  by code_simp

text \<open>\<open>remove\<close> forgets an address that was learned, in both directions and nothing else, and
  leaves one from the configuration alone.\<close>

theorem remove_forgets_learned:
  assumes "consistent T"
  shows "(persistentAddresses T a \<noteq> None \<longrightarrow> tr_remove a T = T) \<and>
    (persistentAddresses T a = None \<longrightarrow> forwards (tr_remove a T) = (forwards T)(a := None) \<and>
       (\<forall>d. backwards (tr_remove a T) d = (if backwards T d = Some a then None else backwards T d)))"
proof -
  have n: "no_empty_key T" and i: "inverse_maps T" using assms by (simp_all add: consistent_def)
  have "forwards (drop_mapping a T) = (forwards T)(a := None) \<and>
      (\<forall>d. backwards (drop_mapping a T) d = (if backwards T d = Some a then None else backwards T d))"
  proof (cases "forwards T a")
    case None
    then have "backwards T d \<noteq> Some a" for d using i by (metis option.distinct(1) tw.inverse_def)
    then show ?thesis using None by (auto simp: drop_mapping_def fun_eq_iff)
  next
    case (Some d0)
    then have "backwards T d = Some a \<longleftrightarrow> d = d0" for d using i by (metis option.inject tw.inverse_def)
    then show ?thesis using Some by (simp add: drop_mapping_def)
  qed
  then show ?thesis using tr_remove_eq[OF n _ assms, of a] by (auto simp: tr_remove_def)
qed

theorem remove_forgets_learned_witness:
  "tr_remove (parse_address some_tr_ext ''x.y'') (tr_insert some_tr_ext ''x.y'' ''s.t'' ''/x/y'' ''a.b'' False (new_translator True))
     = tr_insert some_tr_ext ''x.y'' ''s.t'' ''/x/y'' ''a.b'' False (new_translator True)"
proof -
  let ?T = "tr_insert some_tr_ext ''x.y'' ''s.t'' ''/x/y'' ''a.b'' False (new_translator True)"
  have "persistentAddresses ?T (parse_address some_tr_ext ''x.y'') \<noteq> None" by code_simp
  moreover have "consistent ?T" by (intro consistent_insert consistent_new)
  ultimately show ?thesis using remove_forgets_learned by blast
qed

end
