(* ===== verification/Connection.thy ===== *)
theory Connection
  imports Prelude
begin

text \<open>
  \<open>DBusConnection\<close> (\<open>DBusConnection.cpp\<close>), the bookkeeping: requested bus names, signal
  handlers and their match rules, object manager signal handlers, registered object paths.

  The calls into libdbus are the effects of this component. A call is answered by the
  environment \<open>E\<close> (an argument: it may depend on everything that was called before) and
  recorded with its answer in the field \<open>log\<close>. A signal handler is a number; the answer of
  \<open>weak_ptr::lock()\<close> is the argument \<open>alive\<close>.
\<close>

section \<open>libdbus\<close>

datatype libcall =
    AddFilter | RemoveFilter
  | AddMatch string | RemoveMatch string
  | RequestName string | ReleaseName string
  | RegisterPath string | UnregisterPath string

type_synonym calllog = "(libcall \<times> bool) list"
type_synonym libdbus = "calllog \<Rightarrow> libcall \<Rightarrow> bool"

type_synonym rule_key = "string \<times> string \<times> string"
type_synonym handler_path = "string \<times> string \<times> string \<times> string"
type_synonym handler = nat

text \<open>
  The members of a connection: \<open>connection_ != NULL\<close>, \<open>connectionNameCount_\<close>,
  \<open>dbusSignalMatchRulesMap_\<close>, \<open>dbusSignalHandlers_\<close>, \<open>libdbusSignalMatchRulesCount_\<close>,
  \<open>dbusOMSignalMatchRulesMap_\<close>, \<open>dbusOMSignalHandlers_\<close>, \<open>libdbusRegisteredObjectPaths_\<close>.
\<close>

record conn =
  connected :: bool
  nameCount :: "(string \<times> u16) list"
  matchRules :: "(rule_key \<times> (u32 \<times> string)) list"
  signalHandlers :: "(handler_path \<times> handler list) list"
  rulesCount :: nat
  omRules :: "(string \<times> nat) list"
  omHandlers :: "(string \<times> handler) list"
  objectPaths :: "(string \<times> u32) list"
  log :: calllog

definition new_conn :: conn where
  "new_conn = \<lparr>connected = False, nameCount = [], matchRules = [], signalHandlers = [], rulesCount = 0,
     omRules = [], omHandlers = [], objectPaths = [], log = []\<rparr>"

definition call :: "libdbus \<Rightarrow> libcall \<Rightarrow> conn \<Rightarrow> bool \<times> conn" where
  "call E c s = (let r = E (log s) c in (r, s\<lparr>log := log s @ [(c, r)]\<rparr>))"

section \<open>Bus names\<close>

definition requestServiceNameAndBlock :: "libdbus \<Rightarrow> string \<Rightarrow> conn \<Rightarrow> bool \<times> conn" where
  "requestServiceNameAndBlock E serviceName s =
     (case map_of (nameCount s) serviceName of
        None \<Rightarrow>
          (let (isServiceNameAcquired, s1) = call E (RequestName serviceName) s
           in (isServiceNameAcquired,
               if isServiceNameAcquired then s1\<lparr>nameCount := al_insert serviceName 1 (nameCount s1)\<rparr> else s1))
      | Some n \<Rightarrow> (True, s\<lparr>nameCount := al_put serviceName (n + 1) (nameCount s)\<rparr>))"

definition releaseServiceName :: "libdbus \<Rightarrow> string \<Rightarrow> conn \<Rightarrow> bool \<times> conn" where
  "releaseServiceName E serviceName s =
     (case map_of (nameCount s) serviceName of
        None \<Rightarrow> (False, s)
      | Some n \<Rightarrow>
          if n = 1 then
            (let (isServiceNameReleased, s1) = call E (ReleaseName serviceName) s
             in (isServiceNameReleased,
                 if isServiceNameReleased then s1\<lparr>nameCount := al_erase serviceName (nameCount s1)\<rparr> else s1))
          else (True, s\<lparr>nameCount := al_put serviceName (n - 1) (nameCount s)\<rparr>))"

section \<open>Object paths\<close>

definition registerObjectPath :: "libdbus \<Rightarrow> string \<Rightarrow> conn \<Rightarrow> conn" where
  "registerObjectPath E objectPath s =
     (if objectPath = [] then s
      else if hd objectPath \<noteq> CHR ''/'' then s
      else (case map_of (objectPaths s) objectPath of
              Some n \<Rightarrow> s\<lparr>objectPaths := al_put objectPath (n + 1) (objectPaths s)\<rparr>
            | None \<Rightarrow>
                (let s1 = s\<lparr>objectPaths := al_insert objectPath 1 (objectPaths s)\<rparr>
                 in if connected s1 then snd (call E (RegisterPath objectPath) s1) else s1)))"

definition unregisterObjectPath :: "libdbus \<Rightarrow> string \<Rightarrow> conn \<Rightarrow> conn" where
  "unregisterObjectPath E objectPath s =
     (if objectPath = [] then s
      else if hd objectPath \<noteq> CHR ''/'' then s
      else (case map_of (objectPaths s) objectPath of
              None \<Rightarrow> s
            | Some n \<Rightarrow>
                if n > 1 then s\<lparr>objectPaths := al_put objectPath (n - 1) (objectPaths s)\<rparr>
                else
                  (let s1 = s\<lparr>objectPaths := al_erase objectPath (objectPaths s)\<rparr>
                   in if connected s1 then snd (call E (UnregisterPath objectPath) s1) else s1)))"

section \<open>Match rules\<close>

text \<open>The overload for a complete rule, called when connected.\<close>

definition addRule :: "libdbus \<Rightarrow> string \<Rightarrow> conn \<Rightarrow> bool \<times> conn" where
  "addRule E dbusMatchRule s =
     (let (ok1, s1) = (if rulesCount s = 0 then call E AddFilter s else (True, s));
          (ok2, s2) = (if ok1 then call E (AddMatch dbusMatchRule) s1 else (False, s1))
      in (ok2, if ok2 then s2\<lparr>rulesCount := rulesCount s2 + 1\<rparr> else s2))"

text \<open>libdbus does not report the outcome of a removal to its caller.\<close>

definition removeRule :: "libdbus \<Rightarrow> string \<Rightarrow> conn \<Rightarrow> bool \<times> conn" where
  "removeRule E dbusMatchRule s =
     (if rulesCount s = 0 then (True, s)
      else
        (let s1 = snd (call E (RemoveMatch dbusMatchRule) s);
             s2 = s1\<lparr>rulesCount := rulesCount s1 - 1\<rparr>
         in (True, if rulesCount s2 = 0 then snd (call E RemoveFilter s2) else s2)))"

definition quoted :: "string \<Rightarrow> string" where
  "quoted v = [CHR 0x27] @ v @ [CHR 0x27]"

definition matchRuleString :: "rule_key \<Rightarrow> string" where
  "matchRuleString k =
     (case k of (objectPath, interfaceName, interfaceMemberName) \<Rightarrow>
        ''type='' @ quoted ''signal'' @ '',path='' @ quoted objectPath
        @ '',interface='' @ quoted interfaceName @ '',member='' @ quoted interfaceMemberName)"

definition omRuleString :: "string \<Rightarrow> string" where
  "omRuleString dbusBusName =
     ''type='' @ quoted ''signal'' @ '',sender='' @ quoted dbusBusName
     @ '',interface='' @ quoted ''org.freedesktop.DBus.ObjectManager''"

text \<open>
  The overload for a signal: the map of rules counts the users of a rule. The first rule of
  the map also installs the filter, whether or not another component already did.
\<close>

definition addLibdbusSignalMatchRule :: "libdbus \<Rightarrow> rule_key \<Rightarrow> bool \<Rightarrow> conn \<Rightarrow> conn" where
  "addLibdbusSignalMatchRule E k justAddFilter s =
     (case map_of (matchRules s) k of
        Some (n, r) \<Rightarrow> s\<lparr>matchRules := al_put k (n + 1, r) (matchRules s)\<rparr>
      | None \<Rightarrow>
          (let isFirstMatchRule = (matchRules s = []);
               s1 = s\<lparr>matchRules := al_insert k (1, matchRuleString k) (matchRules s)\<rparr>
           in if connected s1 then
                (let (libdbusSuccess, s2) = (if isFirstMatchRule then call E AddFilter s1 else (True, s1));
                     s3 = (if justAddFilter then s2 else snd (call E (AddMatch (matchRuleString k)) s2))
                 in if libdbusSuccess then s3\<lparr>rulesCount := rulesCount s3 + 1\<rparr> else s3)
              else s1))"

text \<open>
  The removal. The source logs a missing rule and then uses the invalid iterator; the result
  \<open>None\<close> is that undefined behaviour.
\<close>

definition removeLibdbusSignalMatchRule :: "libdbus \<Rightarrow> rule_key \<Rightarrow> conn \<Rightarrow> conn option" where
  "removeLibdbusSignalMatchRule E k s =
     (case map_of (matchRules s) k of
        None \<Rightarrow> None
      | Some (n, r) \<Rightarrow>
          if n > 1 then Some (s\<lparr>matchRules := al_put k (n - 1, r) (matchRules s)\<rparr>)
          else
            (let s1 = (if connected s then snd (removeRule E r s) else s)
             in Some (s1\<lparr>matchRules := al_erase k (matchRules s1)\<rparr>)))"

section \<open>Signal handlers\<close>

definition rule_of :: "handler_path \<Rightarrow> rule_key" where
  "rule_of p = (case p of (objectPath, interfaceName, memberName, signature) \<Rightarrow> (objectPath, interfaceName, memberName))"

definition put_handler :: "handler \<Rightarrow> handler list \<Rightarrow> handler list" where
  "put_handler h hs = (if h \<in> set hs then hs else hs @ [h])"

definition addSignalMemberHandler :: "libdbus \<Rightarrow> (handler \<Rightarrow> bool) \<Rightarrow> handler_path \<Rightarrow> handler \<Rightarrow> bool \<Rightarrow> conn \<Rightarrow>
    handler_path \<times> conn" where
  "addSignalMemberHandler E alive p h justAddFilter s =
     (p,
      case map_of (signalHandlers s) p of
        None \<Rightarrow>
          if alive h then
            (let s1 = addLibdbusSignalMatchRule E (rule_of p) justAddFilter s
             in s1\<lparr>signalHandlers := al_insert p [h] (signalHandlers s1)\<rparr>)
          else s
      | Some hs \<Rightarrow> if alive h then s\<lparr>signalHandlers := al_put p (put_handler h hs) (signalHandlers s)\<rparr> else s)"

definition removeSignalMemberHandler :: "libdbus \<Rightarrow> handler_path \<Rightarrow> handler \<Rightarrow> conn \<Rightarrow> bool \<times> conn option" where
  "removeSignalMemberHandler E p h s =
     (case map_of (signalHandlers s) p of
        None \<Rightarrow> (False, Some s)
      | Some hs \<Rightarrow>
          if h \<in> set hs then
            (let hs' = remove1 h hs;
                 s1 = s\<lparr>signalHandlers := al_put p hs' (signalHandlers s)\<rparr>
             in if hs' = [] then
                  (True, removeLibdbusSignalMatchRule E (rule_of p)
                           (s1\<lparr>signalHandlers := al_erase p (signalHandlers s1)\<rparr>))
                else (False, Some s1))
          else (False, Some s))"

section \<open>Object manager signal handlers\<close>

definition addObjectManagerSignalMemberHandler :: "libdbus \<Rightarrow> (handler \<Rightarrow> bool) \<Rightarrow> string \<Rightarrow> handler \<Rightarrow> conn \<Rightarrow>
    bool \<times> conn" where
  "addObjectManagerSignalMemberHandler E alive dbusBusName h s =
     (if length dbusBusName < 2 then (False, s)
      else if alive h then
        (case map_of (omRules s) dbusBusName of
           None \<Rightarrow>
             (let (added, s1) = (if connected s then addRule E (omRuleString dbusBusName) s else (True, s))
              in if \<not> added then (False, s1)
                 else (True, s1\<lparr>omRules := al_put dbusBusName 1 (omRules s1),
                                omHandlers := omHandlers s1 @ [(dbusBusName, h)]\<rparr>))
         | Some n \<Rightarrow> (True, s\<lparr>omRules := al_put dbusBusName (n + 1) (omRules s),
                              omHandlers := omHandlers s @ [(dbusBusName, h)]\<rparr>))
      else (True, s))"

definition removeObjectManagerSignalMemberHandler :: "libdbus \<Rightarrow> string \<Rightarrow> handler \<Rightarrow> conn \<Rightarrow> bool \<times> conn" where
  "removeObjectManagerSignalMemberHandler E dbusBusName h s =
     (if dbusBusName = [] then (False, s)
      else (case map_of (omRules s) dbusBusName of
              None \<Rightarrow> (True, s)
            | Some n \<Rightarrow>
                if (dbusBusName, h) \<notin> set (omHandlers s) then (False, s)
                else
                  (let n' = n - 1;
                       s1 = s\<lparr>omRules := al_put dbusBusName n' (omRules s)\<rparr>
                   in if n' = 0 then
                        (let (removed, s2) =
                               (if connected s1 then removeRule E (omRuleString dbusBusName) s1 else (True, s1))
                         in if \<not> removed then (False, s2)
                            else (True, s2\<lparr>omRules := al_erase dbusBusName (omRules s2),
                                           omHandlers := remove1 (dbusBusName, h) (omHandlers s2)\<rparr>))
                      else (True, s1\<lparr>omHandlers := remove1 (dbusBusName, h) (omHandlers s1)\<rparr>))))"

section \<open>Connecting and disconnecting\<close>

text \<open>The handlers registered before the connection exists are announced to libdbus once it does.\<close>

fun initLibdbusObjectPathHandler :: "libdbus \<Rightarrow> string list \<Rightarrow> conn \<Rightarrow> conn" where
  "initLibdbusObjectPathHandler E [] s = s"
| "initLibdbusObjectPathHandler E (p # ps) s = initLibdbusObjectPathHandler E ps (snd (call E (RegisterPath p) s))"

definition initLibdbusObjectPathHandlerAfterConnect :: "libdbus \<Rightarrow> conn \<Rightarrow> conn" where
  "initLibdbusObjectPathHandlerAfterConnect E s =
     (if \<not> connected s then s else initLibdbusObjectPathHandler E (map fst (objectPaths s)) s)"

fun addRules :: "libdbus \<Rightarrow> string list \<Rightarrow> conn \<Rightarrow> conn" where
  "addRules E [] s = s"
| "addRules E (r # rs) s = addRules E rs (snd (addRule E r s))"

definition initLibdbusSignalFilterAfterConnect :: "libdbus \<Rightarrow> conn \<Rightarrow> conn" where
  "initLibdbusSignalFilterAfterConnect E s =
     (if \<not> connected s then s
      else addRules E (map (snd \<circ> snd) (matchRules s) @ map (omRuleString \<circ> fst) (omRules s)) s)"

text \<open>
  The parts of \<open>connect\<close> and \<open>disconnect\<close> that concern this bookkeeping; \<open>got\<close> is whether
  \<open>dbus_bus_get_private\<close> returned a connection. Threads, watches and listeners are left out.
\<close>

definition connect :: "libdbus \<Rightarrow> bool \<Rightarrow> conn \<Rightarrow> bool \<times> conn" where
  "connect E got s =
     (if connected s then (True, s)
      else if \<not> got then (False, s)
      else (True, initLibdbusSignalFilterAfterConnect E
                    (initLibdbusObjectPathHandlerAfterConnect E (s\<lparr>connected := True\<rparr>))))"

definition disconnect :: "libdbus \<Rightarrow> conn \<Rightarrow> conn" where
  "disconnect E s =
     (if connected s then
        (let s1 = (if rulesCount s > 0 then (snd (call E RemoveFilter s))\<lparr>rulesCount := 0\<rparr> else s)
         in s1\<lparr>nameCount := [], connected := False\<rparr>)
      else s)"

section \<open>Dispatching a signal\<close>

text \<open>
  A message as the filter sees it. The \<open>dbus_message_get_*\<close> functions may return \<open>NULL\<close>.
  The result is whether the message is handled, and the handlers that are called, in order.
\<close>

record signal_message =
  is_signal :: bool
  msg_path :: "string option"
  msg_interface :: "string option"
  msg_member :: "string option"
  msg_signature :: "string option"
  msg_sender :: "string option"

definition notifyDBusSignalHandlers :: "(handler \<Rightarrow> bool) \<Rightarrow> handler_path \<Rightarrow> conn \<Rightarrow> bool \<times> handler list" where
  "notifyDBusSignalHandlers alive p s =
     (True, filter alive (case map_of (signalHandlers s) p of Some hs \<Rightarrow> hs | None \<Rightarrow> []))"

definition notifyDBusOMSignalHandlers :: "(handler \<Rightarrow> bool) \<Rightarrow> string \<Rightarrow> conn \<Rightarrow> bool \<times> handler list" where
  "notifyDBusOMSignalHandlers alive sender s =
     (let hs = map snd (filter (\<lambda>e. fst e = sender) (omHandlers s)) in (hs \<noteq> [], filter alive hs))"

definition onLibdbusSignalFilter :: "(handler \<Rightarrow> bool) \<Rightarrow> signal_message \<Rightarrow> conn \<Rightarrow> bool \<times> handler list" where
  "onLibdbusSignalFilter alive m s =
     (if \<not> is_signal m then (False, [])
      else (case (msg_path m, msg_interface m, msg_member m, msg_signature m) of
              (Some p, Some i, Some n, Some g) \<Rightarrow>
                if i = ''org.freedesktop.DBus.ObjectManager'' then
                  (case msg_sender m of
                     None \<Rightarrow> (False, [])
                   | Some sender \<Rightarrow>
                       (let (handled, hs) = notifyDBusOMSignalHandlers alive sender s;
                            (handled', hs') = notifyDBusSignalHandlers alive (p, i, n, g) s
                        in (handled', hs @ hs')))
                else notifyDBusSignalHandlers alive (p, i, n, g) s
            | _ \<Rightarrow> (False, [])))"

end
