(* ===== verification/Counted_Resource.thy ===== *)
theory Counted_Resource
  imports Prelude
begin

text \<open>
  The contract behind the reference counts of the runtime: a resource outside the process (a
  bus name, a match rule, an object path, a manager stub) is acquired for its first user and
  given up for its last one. The locale states it for one operation of each kind; the lemmas
  extend it to every sequence of them. Each component interprets the locale on its own
  operations.
\<close>

datatype 'k use = Acquire 'k | Release 'k

fun run_uses :: "('k \<Rightarrow> 's \<Rightarrow> bool \<times> 's) \<Rightarrow> ('k \<Rightarrow> 's \<Rightarrow> bool \<times> 's) \<Rightarrow> 'k use list \<Rightarrow> 's \<Rightarrow> bool list \<times> 's" where
  "run_uses acq rel [] s = ([], s)"
| "run_uses acq rel (u # us) s =
     (case (case u of Acquire k \<Rightarrow> acq k s | Release k \<Rightarrow> rel k s) of
        (r, s1) \<Rightarrow> apfst ((#) r) (run_uses acq rel us s1))"

text \<open>The number of users of \<open>k\<close> according to the answers the users got.\<close>

fun users :: "'k \<Rightarrow> 'k use list \<Rightarrow> bool list \<Rightarrow> int" where
  "users k (Acquire j # us) (r # rs) = (if r \<and> j = k then 1 else 0) + users k us rs"
| "users k (Release j # us) (r # rs) = (if r \<and> j = k then - 1 else 0) + users k us rs"
| "users k _ _ = 0"

locale counted_resource =
  fixes cnt :: "'s \<Rightarrow> 'k \<Rightarrow> nat" and held :: "'s \<Rightarrow> 'k \<Rightarrow> bool"
    and acq rel :: "'k \<Rightarrow> 's \<Rightarrow> bool \<times> 's" and inv :: "'s \<Rightarrow> bool" and limit :: nat
  assumes acq_inv: "inv s \<Longrightarrow> cnt s k < limit \<Longrightarrow> inv (snd (acq k s))"
    and rel_inv: "inv s \<Longrightarrow> inv (snd (rel k s))"
    and acq_True: "inv s \<Longrightarrow> acq k s = (True, s') \<Longrightarrow> cnt s k < limit \<Longrightarrow>
      cnt s' = (cnt s)(k := Suc (cnt s k)) \<and> held s' = (held s)(k := (cnt s k = 0 \<or> held s k))"
    and acq_False: "inv s \<Longrightarrow> acq k s = (False, s') \<Longrightarrow> cnt s' = cnt s \<and> held s' = held s"
    and rel_True: "inv s \<Longrightarrow> rel k s = (True, s') \<Longrightarrow> 0 < cnt s k \<and>
      cnt s' = (cnt s)(k := cnt s k - 1) \<and> held s' = (held s)(k := (cnt s k \<noteq> 1 \<and> held s k))"
    and rel_False: "inv s \<Longrightarrow> rel k s = (False, s') \<Longrightarrow> cnt s' = cnt s \<and> held s' = held s"
begin

definition exact :: "'s \<Rightarrow> bool" where
  "exact s \<longleftrightarrow> inv s \<and> (\<forall>k. held s k \<longleftrightarrow> 0 < cnt s k)"

lemma exact_acq: "exact s \<Longrightarrow> cnt s k < limit \<Longrightarrow> exact (snd (acq k s))"
  using acq_inv[of s k] acq_True[of s k] acq_False[of s k]
  by (cases "acq k s"; cases "fst (acq k s)") (auto simp: exact_def)

lemma exact_rel: "exact s \<Longrightarrow> exact (snd (rel k s))"
  using rel_inv[of s k] rel_True[of s k] rel_False[of s k]
  by (cases "rel k s"; cases "fst (rel k s)") (auto simp: exact_def)

text \<open>A use changes a count by what its answer says.\<close>

lemma acq_cnt: "inv s \<Longrightarrow> cnt s j < limit \<Longrightarrow> acq j s = (r, s') \<Longrightarrow>
    int (cnt s' k) = int (cnt s k) + (if r \<and> j = k then 1 else 0)"
  using acq_True[of s j s'] acq_False[of s j s'] by (cases r) auto

lemma rel_cnt: "inv s \<Longrightarrow> rel j s = (r, s') \<Longrightarrow>
    int (cnt s' k) = int (cnt s k) + (if r \<and> j = k then - 1 else 0)"
  using rel_True[of s j s'] rel_False[of s j s'] by (cases r) auto

lemma acq_bound: "inv s \<Longrightarrow> cnt s j < limit \<Longrightarrow> cnt (snd (acq j s)) k \<le> Suc (cnt s k)"
  using acq_cnt[of s j "fst (acq j s)" "snd (acq j s)" k] by (auto split: if_splits)

lemma rel_bound: "inv s \<Longrightarrow> cnt (snd (rel j s)) k \<le> cnt s k"
  using rel_cnt[of s j "fst (rel j s)" "snd (rel j s)" k] by (auto split: if_splits)

lemma run_exact:
  assumes "exact s" "\<And>k. cnt s k + length us \<le> limit"
  shows "exact (snd (run_uses acq rel us s)) \<and>
    int (cnt (snd (run_uses acq rel us s)) k) = int (cnt s k) + users k us (fst (run_uses acq rel us s))"
  using assms
proof (induction us arbitrary: s)
  case (Cons u us)
  note i = Cons.prems(1)[unfolded exact_def, THEN conjunct1]
  show ?case
  proof (cases u)
    case (Acquire j)
    obtain r s1 where a: "acq j s = (r, s1)" by force
    have lt: "cnt s j < limit" using Cons.prems(2)[of j] by simp
    have "exact s1" using exact_acq[OF Cons.prems(1) lt] by (simp add: a)
    moreover have "cnt s1 k + length us \<le> limit" for k
      using acq_bound[OF i lt, of k] Cons.prems(2)[of k] by (simp add: a)
    ultimately show ?thesis
      using Cons.IH[of s1] acq_cnt[OF i lt a, of k] by (simp add: Acquire a)
  next
    case (Release j)
    obtain r s1 where a: "rel j s = (r, s1)" by force
    have "exact s1" using exact_rel[OF Cons.prems(1), of j] by (simp add: a)
    moreover have "cnt s1 k + length us \<le> limit" for k
      using rel_bound[OF i, of j k] Cons.prems(2)[of k] by (simp add: a)
    ultimately show ?thesis
      using Cons.IH[of s1] rel_cnt[OF i a, of k] by (simp add: Release a)
  qed
qed simp

end

end
