(* ===== verification/Connection_Correct.thy ===== *)
theory Connection_Correct
  imports Connection Counted_Resource
begin

text \<open>
  The reference counts of a connection are exact: bus names and object paths are instances of
  the counted resource, the count of a match rule is the number of its handler lists, the
  count of an object manager rule the number of its handlers, and \<open>rulesCount\<close> the number of
  rules.
\<close>

lemma call_sel [simp]:
  "connected (snd (call E c s)) = connected s" "nameCount (snd (call E c s)) = nameCount s"
  "matchRules (snd (call E c s)) = matchRules s" "signalHandlers (snd (call E c s)) = signalHandlers s"
  "rulesCount (snd (call E c s)) = rulesCount s" "omRules (snd (call E c s)) = omRules s"
  "omHandlers (snd (call E c s)) = omHandlers s" "objectPaths (snd (call E c s)) = objectPaths s"
  "log (snd (call E c s)) = log s @ [(c, fst (call E c s))]" "fst (call E c s) = E (log s) c"
  by (simp_all add: call_def Let_def)

section \<open>Bus names\<close>

text \<open>Who owns a name at the daemon, from the successful calls.\<close>

definition owns :: "string \<Rightarrow> calllog \<Rightarrow> bool" where
  "owns n l = foldl (\<lambda>h e. if e = (RequestName n, True) then True else if e = (ReleaseName n, True) then False else h) False l"

definition name_users :: "conn \<Rightarrow> string \<Rightarrow> nat" where
  "name_users s n = (case map_of (nameCount s) n of None \<Rightarrow> 0 | Some w \<Rightarrow> unat w)"

definition name_inv :: "conn \<Rightarrow> bool" where
  "name_inv s \<longleftrightarrow> (\<forall>n. map_of (nameCount s) n \<noteq> Some 0)"

lemma owns_snoc [simp]:
  "owns n (l @ [e]) = (if e = (RequestName n, True) then True else if e = (ReleaseName n, True) then False else owns n l)"
  by (simp add: owns_def)

lemma owns_Nil [simp]: "\<not> owns n []"
  by (simp add: owns_def)

lemma unat_succ_u16: "unat w < 65535 \<Longrightarrow> unat (w + 1 :: u16) = Suc (unat w)" for w :: u16
  by (simp add: unat_word_ariths)

lemma unat_pred: "w \<noteq> 0 \<Longrightarrow> unat (w - 1) = unat w - 1" for w :: "'a::len word"
  by (simp add: unat_minus_one)

lemma word_one_cases: "w \<noteq> 0 \<Longrightarrow> w \<noteq> 1 \<Longrightarrow> 1 < unat w" for w :: "'a::len word"
proof -
  assume "w \<noteq> 0" "w \<noteq> 1"
  then have "unat w \<noteq> unat (0 :: 'a word)" "unat w \<noteq> unat (1 :: 'a word)"
    by (simp_all only: word_unat_eq_iff [symmetric] not_False_eq_True)
  then show ?thesis by simp
qed

interpretation names: counted_resource name_users "\<lambda>s n. owns n (log s)"
  "requestServiceNameAndBlock E" "releaseServiceName E" name_inv 65535 for E
proof
  fix s :: conn and n :: string
  assume i: "name_inv s"
  show "name_users s n < 65535 \<Longrightarrow> name_inv (snd (requestServiceNameAndBlock E n s))"
  proof (cases "map_of (nameCount s) n")
    case None
    then show ?thesis using i
      by (auto simp: requestServiceNameAndBlock_def split_beta name_inv_def map_of_al_insert)
  next
    case (Some w)
    assume "name_users s n < 65535"
    then have "w + 1 \<noteq> 0" using unat_succ_u16[of w] Some by (auto simp: name_users_def)
    with Some i show ?thesis by (auto simp: requestServiceNameAndBlock_def name_inv_def)
  qed
  show "name_inv (snd (releaseServiceName E n s))"
  proof (cases "map_of (nameCount s) n")
    case (Some w)
    then show ?thesis using i
      by (auto simp: releaseServiceName_def name_inv_def split_beta Let_def)
  qed (use i in \<open>simp add: releaseServiceName_def\<close>)
  fix s' :: conn
  show "name_users s' = (name_users s)(n := Suc (name_users s n)) \<and>
      (\<lambda>n. owns n (log s')) = (\<lambda>n. owns n (log s))(n := name_users s n = 0 \<or> owns n (log s))"
    if r: "requestServiceNameAndBlock E n s = (True, s')" and b: "name_users s n < 65535"
  proof (cases "map_of (nameCount s) n")
    case None
    then show ?thesis using r
      by (auto simp: requestServiceNameAndBlock_def split_beta name_users_def map_of_al_insert fun_eq_iff)
  next
    case (Some w)
    then have "0 < unat w" using i by (auto simp: name_inv_def unat_gt_0)
    then show ?thesis using r b Some unat_succ_u16[of w]
      by (auto simp: requestServiceNameAndBlock_def name_users_def fun_eq_iff)
  qed
  show "name_users s' = name_users s \<and> (\<lambda>n. owns n (log s')) = (\<lambda>n. owns n (log s))"
    if r: "requestServiceNameAndBlock E n s = (False, s')"
    using r by (auto simp: requestServiceNameAndBlock_def split_beta name_users_def fun_eq_iff split: option.splits if_splits)
  show "0 < name_users s n \<and> name_users s' = (name_users s)(n := name_users s n - 1) \<and>
      (\<lambda>n. owns n (log s')) = (\<lambda>n. owns n (log s))(n := name_users s n \<noteq> 1 \<and> owns n (log s))"
    if r: "releaseServiceName E n s = (True, s')"
  proof (cases "map_of (nameCount s) n")
    case None
    then show ?thesis using r by (simp add: releaseServiceName_def)
  next
    case (Some w)
    then have w: "w \<noteq> 0" using i by (auto simp: name_inv_def)
    show ?thesis
    proof (cases "w = 1")
      case True
      then show ?thesis using r Some
        by (auto simp: releaseServiceName_def split_beta name_users_def fun_eq_iff split: if_splits)
    next
      case False
      then show ?thesis using r Some w word_one_cases[OF w False] unat_pred[OF w]
        by (auto simp: releaseServiceName_def name_users_def fun_eq_iff)
    qed
  qed
  show "name_users s' = name_users s \<and> (\<lambda>n. owns n (log s')) = (\<lambda>n. owns n (log s))"
    if r: "releaseServiceName E n s = (False, s')"
    using r by (auto simp: releaseServiceName_def split_beta name_users_def fun_eq_iff split: option.splits if_splits)
qed

section \<open>Object paths\<close>

text \<open>
  Registration with libdbus, for a connected connection whose calls succeed (failures are
  only logged by the source). An invalid path is refused.
\<close>

definition all_ok :: libdbus where
  "all_ok l c = True"

definition valid_path :: "string \<Rightarrow> bool" where
  "valid_path p \<longleftrightarrow> p \<noteq> [] \<and> hd p = CHR ''/''"

definition registered :: "string \<Rightarrow> calllog \<Rightarrow> bool" where
  "registered p l = foldl (\<lambda>h e. if e = (RegisterPath p, True) then True else if e = (UnregisterPath p, True) then False else h) False l"

definition path_users :: "conn \<Rightarrow> string \<Rightarrow> nat" where
  "path_users s p = (case map_of (objectPaths s) p of None \<Rightarrow> 0 | Some w \<Rightarrow> unat w)"

definition path_inv :: "conn \<Rightarrow> bool" where
  "path_inv s \<longleftrightarrow> connected s \<and> (\<forall>p. map_of (objectPaths s) p \<noteq> Some 0)"

definition acquire_path :: "string \<Rightarrow> conn \<Rightarrow> bool \<times> conn" where
  "acquire_path p s = (valid_path p, registerObjectPath all_ok p s)"

definition release_path :: "string \<Rightarrow> conn \<Rightarrow> bool \<times> conn" where
  "release_path p s = (valid_path p \<and> map_of (objectPaths s) p \<noteq> None, unregisterObjectPath all_ok p s)"

lemma registered_snoc [simp]:
  "registered p (l @ [e]) = (if e = (RegisterPath p, True) then True else if e = (UnregisterPath p, True) then False else registered p l)"
  by (simp add: registered_def)

lemma registered_Nil [simp]: "\<not> registered p []"
  by (simp add: registered_def)

lemma all_ok_call [simp]: "fst (call all_ok c s) = True"
  by (simp add: all_ok_def)

lemma unat_succ_u32: "unat w < 2 ^ 32 - 1 \<Longrightarrow> unat (w + 1 :: u32) = Suc (unat w)" for w :: u32
  by (simp add: unat_word_ariths)

lemma unregister_le_1: "w \<noteq> 0 \<Longrightarrow> \<not> 1 < w \<Longrightarrow> w = 1" for w :: u32
  by (metis word_le_less_eq word_less_1 word_not_simps(1) linorder_not_less)

interpretation paths: counted_resource path_users "\<lambda>s p. registered p (log s)"
  acquire_path release_path path_inv "2 ^ 32 - 1"
proof
  fix s :: conn and p :: string
  assume i: "path_inv s"
  show "path_users s p < 2 ^ 32 - 1 \<Longrightarrow> path_inv (snd (acquire_path p s))"
  proof (cases "map_of (objectPaths s) p")
    case None
    then show ?thesis using i
      by (auto simp: acquire_path_def registerObjectPath_def path_inv_def map_of_al_insert Let_def)
  next
    case (Some w)
    assume "path_users s p < 2 ^ 32 - 1"
    then have "w + 1 \<noteq> 0" using unat_succ_u32[of w] Some by (auto simp: path_users_def)
    with Some i show ?thesis by (auto simp: acquire_path_def registerObjectPath_def path_inv_def)
  qed
  show "path_inv (snd (release_path p s))"
  proof (cases "map_of (objectPaths s) p")
    case (Some w)
    have "1 < w \<Longrightarrow> w - 1 \<noteq> 0" by auto
    then show ?thesis using i Some
      by (auto simp: release_path_def unregisterObjectPath_def path_inv_def Let_def)
  qed (use i in \<open>simp add: release_path_def unregisterObjectPath_def\<close>)
  fix s' :: conn
  show "path_users s' = (path_users s)(p := Suc (path_users s p)) \<and>
      (\<lambda>p. registered p (log s')) = (\<lambda>p. registered p (log s))(p := path_users s p = 0 \<or> registered p (log s))"
    if r: "acquire_path p s = (True, s')" and b: "path_users s p < 2 ^ 32 - 1"
  proof (cases "map_of (objectPaths s) p")
    case None
    then show ?thesis using r i
      by (auto simp: acquire_path_def registerObjectPath_def valid_path_def path_inv_def path_users_def
          map_of_al_insert fun_eq_iff Let_def all_ok_def)
  next
    case (Some w)
    then have "0 < unat w" using i by (auto simp: path_inv_def unat_gt_0)
    then show ?thesis using r b Some unat_succ_u32[of w]
      by (auto simp: acquire_path_def registerObjectPath_def valid_path_def path_users_def fun_eq_iff)
  qed
  show "path_users s' = path_users s \<and> (\<lambda>p. registered p (log s')) = (\<lambda>p. registered p (log s))"
    if r: "acquire_path p s = (False, s')"
    using r by (auto simp: acquire_path_def registerObjectPath_def valid_path_def)
  show "0 < path_users s p \<and> path_users s' = (path_users s)(p := path_users s p - 1) \<and>
      (\<lambda>p. registered p (log s')) = (\<lambda>p. registered p (log s))(p := path_users s p \<noteq> 1 \<and> registered p (log s))"
    if r: "release_path p s = (True, s')"
  proof (cases "map_of (objectPaths s) p")
    case None
    then show ?thesis using r by (simp add: release_path_def)
  next
    case (Some w)
    then have w: "w \<noteq> 0" using i by (auto simp: path_inv_def)
    show ?thesis
    proof (cases "1 < w")
      case True
      then have "1 < unat w" by (simp add: word_less_nat_alt)
      then show ?thesis using r Some True unat_pred[OF w]
        by (auto simp: release_path_def valid_path_def unregisterObjectPath_def path_users_def fun_eq_iff)
    next
      case False
      then have "w = 1" using w by (rule unregister_le_1[rotated])
      then show ?thesis using r Some i
        by (auto simp: release_path_def valid_path_def unregisterObjectPath_def path_inv_def path_users_def
            fun_eq_iff Let_def all_ok_def)
    qed
  qed
  show "path_users s' = path_users s \<and> (\<lambda>p. registered p (log s')) = (\<lambda>p. registered p (log s))"
    if r: "release_path p s = (False, s')"
    using r by (auto simp: release_path_def unregisterObjectPath_def valid_path_def split: option.splits if_splits)
qed

section \<open>Match rules and signal handlers\<close>

text \<open>
  The count of a match rule is the number of handler lists that need it (paths that differ in
  the signature share a rule); lists are not empty. So the removal of a handler always finds
  the rule of its list.
\<close>

definition lists_of :: "conn \<Rightarrow> rule_key \<Rightarrow> nat" where
  "lists_of s k = length (filter (\<lambda>e. rule_of (fst e) = k) (signalHandlers s))"

definition rule_count :: "conn \<Rightarrow> rule_key \<Rightarrow> nat" where
  "rule_count s k = (case map_of (matchRules s) k of None \<Rightarrow> 0 | Some (n, r) \<Rightarrow> unat n)"

definition rules_inv :: "conn \<Rightarrow> bool" where
  "rules_inv s \<longleftrightarrow> distinct (map fst (signalHandlers s)) \<and> distinct (map fst (matchRules s)) \<and>
     (\<forall>k. rule_count s k = lists_of s k) \<and> (\<forall>k r. map_of (matchRules s) k \<noteq> Some (0, r)) \<and>
     (\<forall>p hs. map_of (signalHandlers s) p = Some hs \<longrightarrow> hs \<noteq> [] \<and> distinct hs)"

lemma rules_inv_new: "rules_inv new_conn"
  by (simp add: rules_inv_def new_conn_def lists_of_def rule_count_def)

text \<open>What the calls into libdbus and the counters do not touch.\<close>

definition same_tables :: "conn \<Rightarrow> conn \<Rightarrow> bool" where
  "same_tables s s' \<longleftrightarrow> connected s' = connected s \<and> nameCount s' = nameCount s \<and> matchRules s' = matchRules s \<and>
     signalHandlers s' = signalHandlers s \<and> omRules s' = omRules s \<and> omHandlers s' = omHandlers s \<and>
     objectPaths s' = objectPaths s"

lemma same_tables_call: "same_tables s (snd (call E c s))"
  by (simp add: same_tables_def)

lemma same_tables_addRule: "same_tables s (snd (addRule E r s))"
  by (auto simp: addRule_def same_tables_def Let_def split_beta)

lemma same_tables_removeRule: "same_tables s (snd (removeRule E r s))"
  by (auto simp: removeRule_def same_tables_def Let_def)

lemma addLibdbus_tables:
  "signalHandlers (addLibdbusSignalMatchRule E k j s) = signalHandlers s"
  "matchRules (addLibdbusSignalMatchRule E k j s) =
     (case map_of (matchRules s) k of Some (n, r) \<Rightarrow> al_put k (n + 1, r) (matchRules s)
      | None \<Rightarrow> al_insert k (1, matchRuleString k) (matchRules s))"
  by (auto simp: addLibdbusSignalMatchRule_def Let_def split_beta split: option.splits)

lemma removeLibdbus_tables:
  assumes "map_of (matchRules s) k = Some (n, r)"
  obtains s' where "removeLibdbusSignalMatchRule E k s = Some s'" "signalHandlers s' = signalHandlers s"
    "matchRules s' = (if n > 1 then al_put k (n - 1, r) (matchRules s) else al_erase k (matchRules s))"
proof (cases "n > 1")
  case True
  show ?thesis
    by (rule that[of "s\<lparr>matchRules := al_put k (n - 1, r) (matchRules s)\<rparr>"])
       (use True assms in \<open>simp_all add: removeLibdbusSignalMatchRule_def\<close>)
next
  case False
  let ?s1 = "if connected s then snd (removeRule E r s) else s"
  have "same_tables s ?s1" using same_tables_removeRule[of s E r] by (simp add: same_tables_def)
  then show ?thesis
    by (intro that[of "?s1\<lparr>matchRules := al_erase k (matchRules ?s1)\<rparr>"])
       (use False assms in \<open>simp_all add: removeLibdbusSignalMatchRule_def Let_def same_tables_def\<close>)
qed

lemma lists_of_put:
  assumes "map_of (signalHandlers s) p \<noteq> None" "signalHandlers s' = al_put p hs (signalHandlers s)"
  shows "lists_of s' k = lists_of s k"
proof -
  have "map fst (al_put p hs xs) = map fst xs" if "map_of xs p \<noteq> None" for xs
    using that by (induction p hs xs rule: al_put.induct) (auto split: if_splits)
  then have "map fst (signalHandlers s') = map fst (signalHandlers s)" using assms by simp
  moreover have "length (filter (\<lambda>e. rule_of (fst e) = k) xs) = length (filter (\<lambda>p. rule_of p = k) (map fst xs))" for xs :: "(handler_path \<times> handler list) list"
    by (simp add: filter_map comp_def)
  ultimately show ?thesis unfolding lists_of_def by metis
qed

lemma lists_of_insert:
  assumes "map_of (signalHandlers s) p = None" "signalHandlers s' = al_insert p hs (signalHandlers s)"
  shows "lists_of s' k = lists_of s k + (if rule_of p = k then 1 else 0)"
proof -
  have "p \<notin> fst ` set (signalHandlers s)" using assms(1) by (simp add: map_of_eq_None_iff)
  then show ?thesis using assms(2) by (simp add: lists_of_def al_insert_def)
qed

lemma lists_of_erase:
  assumes "map_of (signalHandlers s) p \<noteq> None" "distinct (map fst (signalHandlers s))"
    and "signalHandlers s' = al_erase p (signalHandlers s)"
  shows "lists_of s k = lists_of s' k + (if rule_of p = k then 1 else 0)"
proof -
  have "length (filter P xs) = length (filter P (al_erase p xs)) + (if P (p, the (map_of xs p)) then 1 else 0)"
    if "map_of xs p \<noteq> None" "distinct (map fst xs)" for P and xs :: "(handler_path \<times> handler list) list"
    using that
  proof (induction xs)
    case (Cons e xs)
    show ?case
    proof (cases "fst e = p")
      case True
      then have "p \<notin> fst ` set xs" using Cons.prems(2) by auto
      then have "al_erase p xs = xs" unfolding al_erase_def by (auto simp: filter_id_conv)
      then show ?thesis using True by (cases e) (auto simp: al_erase_def)
    next
      case False
      then show ?thesis using Cons by (cases e) (auto simp: al_erase_def)
    qed
  qed simp
  from this[OF assms(1,2), of "\<lambda>e. rule_of (fst e) = k"] show ?thesis
    using assms(3) by (simp add: lists_of_def)
qed

lemma rule_count_add:
  assumes "rules_inv s" "rule_count s k < 2 ^ 32 - 1"
  shows "rule_count (addLibdbusSignalMatchRule E k j s) = (rule_count s)(k := Suc (rule_count s k))"
    and "map_of (matchRules (addLibdbusSignalMatchRule E k j s)) k' \<noteq> Some (0, r)"
    and "distinct (map fst (matchRules (addLibdbusSignalMatchRule E k j s)))"
proof -
  have d: "distinct (map fst (matchRules s))" and z: "\<And>k r. map_of (matchRules s) k \<noteq> Some (0, r)"
    using assms(1) unfolding rules_inv_def by blast+
  show "distinct (map fst (matchRules (addLibdbusSignalMatchRule E k j s)))"
    by (auto simp: addLibdbus_tables distinct_al_put[OF d] distinct_al_insert[OF d] split: option.splits)
  show "rule_count (addLibdbusSignalMatchRule E k j s) = (rule_count s)(k := Suc (rule_count s k))"
  proof (cases "map_of (matchRules s) k")
    case None
    then show ?thesis by (auto simp: rule_count_def addLibdbus_tables map_of_al_insert fun_eq_iff)
  next
    case (Some e)
    then obtain n r where e: "map_of (matchRules s) k = Some (n, r)" by (cases e) auto
    then show ?thesis using unat_succ_u32[of n] assms(2) by (auto simp: rule_count_def addLibdbus_tables fun_eq_iff)
  qed
  show "map_of (matchRules (addLibdbusSignalMatchRule E k j s)) k' \<noteq> Some (0, r)"
  proof (cases "map_of (matchRules s) k")
    case None
    then show ?thesis using z by (auto simp: addLibdbus_tables map_of_al_insert)
  next
    case (Some e)
    then obtain n r where e: "map_of (matchRules s) k = Some (n, r)" by (cases e) auto
    then have "n + 1 \<noteq> 0" using unat_succ_u32[of n] assms(2) by (auto simp: rule_count_def)
    then show ?thesis using e z by (auto simp: addLibdbus_tables)
  qed
qed

lemma rules_invD:
  assumes "rules_inv s"
  shows "distinct (map fst (signalHandlers s))" "distinct (map fst (matchRules s))"
    "rule_count s k = lists_of s k" "map_of (matchRules s) k \<noteq> Some (0, r)"
    "map_of (signalHandlers s) p = Some hs \<Longrightarrow> hs \<noteq> [] \<and> distinct hs"
  using assms unfolding rules_inv_def by blast+

lemma rules_invI:
  assumes "distinct (map fst (signalHandlers s))" "distinct (map fst (matchRules s))"
    and "\<And>k. rule_count s k = lists_of s k" "\<And>k r. map_of (matchRules s) k \<noteq> Some (0, r)"
    and "\<And>p hs. map_of (signalHandlers s) p = Some hs \<Longrightarrow> hs \<noteq> [] \<and> distinct hs"
  shows "rules_inv s"
  using assms unfolding rules_inv_def by blast

lemma rules_inv_put:
  assumes "rules_inv s" "map_of (signalHandlers s) p \<noteq> None" "hs \<noteq> []" "distinct hs"
  shows "rules_inv (s\<lparr>signalHandlers := al_put p hs (signalHandlers s)\<rparr>)" (is "rules_inv ?s")
proof (rule rules_invI)
  show "rule_count ?s k = lists_of ?s k" for k
    using rules_invD(3)[OF assms(1), of k] lists_of_put[OF assms(2), of ?s hs k] by (simp add: rule_count_def)
  show "map_of (signalHandlers ?s) q = Some hs' \<Longrightarrow> hs' \<noteq> [] \<and> distinct hs'" for q hs'
    using rules_invD(5)[OF assms(1), of q hs'] assms(3,4) by (auto split: if_splits)
  show "map_of (matchRules ?s) k \<noteq> Some (0, r)" for k r
    using rules_invD(4)[OF assms(1), of k r] by simp
qed (use rules_invD(1,2)[OF assms(1)] in \<open>simp_all add: distinct_al_put\<close>)

lemma rules_inv_addSignalMemberHandler:
  assumes "rules_inv s" "length (signalHandlers s) < 2 ^ 32 - 1"
  shows "rules_inv (snd (addSignalMemberHandler E alive p h j s))"
proof (cases "map_of (signalHandlers s) p")
  case (Some hs)
  have "put_handler h hs \<noteq> []" "distinct (put_handler h hs)"
    using rules_invD(5)[OF assms(1) Some] by (auto simp: put_handler_def)
  then show ?thesis using rules_inv_put[OF assms(1), of p] Some assms(1)
    by (simp add: addSignalMemberHandler_def)
next
  case None
  show ?thesis
  proof (cases "alive h")
    case True
    let ?a = "addLibdbusSignalMatchRule E (rule_of p) j s"
    let ?s = "?a\<lparr>signalHandlers := al_insert p [h] (signalHandlers ?a)\<rparr>"
    have "rule_count s (rule_of p) < 2 ^ 32 - 1"
      using rules_invD(3)[OF assms(1), of "rule_of p"] assms(2)
      by (simp add: lists_of_def) (metis (no_types, lifting) le_less_trans length_filter_le)
    note ra = rule_count_add[OF assms(1) this, of E j]
    have "rules_inv ?s"
    proof (rule rules_invI)
      show "distinct (map fst (signalHandlers ?s))"
        using rules_invD(1)[OF assms(1)] by (simp add: addLibdbus_tables distinct_al_insert)
      show "rule_count ?s k = lists_of ?s k" for k
      proof -
        have "rule_count ?s k = rule_count ?a k" by (simp add: rule_count_def)
        moreover have "lists_of ?s k = lists_of s k + (if rule_of p = k then 1 else 0)"
          by (rule lists_of_insert[OF None]) (simp add: addLibdbus_tables)
        ultimately show ?thesis using ra(1) rules_invD(3)[OF assms(1), of k] by auto
      qed
      show "map_of (matchRules ?s) k \<noteq> Some (0, r)" for k r
        using ra(2)[of k r] by simp
      show "map_of (signalHandlers ?s) q = Some hs \<Longrightarrow> hs \<noteq> [] \<and> distinct hs" for q hs
        using rules_invD(5)[OF assms(1), of q hs]
        by (auto simp: addLibdbus_tables map_of_al_insert split: if_splits)
    qed (use ra(3) in simp)
    then show ?thesis using None True by (simp add: addSignalMemberHandler_def Let_def)
  next
    case False
    then show ?thesis using None assms(1) by (simp add: addSignalMemberHandler_def)
  qed
qed

lemma rules_inv_removeSignalMemberHandler:
  assumes "rules_inv s"
  shows "\<exists>s'. snd (removeSignalMemberHandler E p h s) = Some s' \<and> rules_inv s'"
proof (cases "map_of (signalHandlers s) p")
  case None
  then show ?thesis using assms by (simp add: removeSignalMemberHandler_def)
next
  case (Some hs)
  note d = rules_invD[OF assms]
  have hs: "hs \<noteq> []" "distinct hs" using d(5)[OF Some] by auto
  show ?thesis
  proof (cases "h \<in> set hs \<and> remove1 h hs = []")
    case False
    then show ?thesis
      using assms Some rules_inv_put[OF assms, of p "remove1 h hs"] hs(2)
      by (auto simp: removeSignalMemberHandler_def Let_def)
  next
    case True
    let ?e = "al_erase p (al_put p [] (signalHandlers s))"
    let ?s1 = "s\<lparr>signalHandlers := ?e\<rparr>"
    have ms: "map_of ?e = (map_of (signalHandlers s))(p := None)" by simp
    have ee: "?e = al_erase p (signalHandlers s)"
      by simp
    have l: "lists_of s k = lists_of ?s1 k + (if rule_of p = k then 1 else 0)" for k
      by (rule lists_of_erase[OF _ d(1)]) (use Some ee in simp_all)
    have "0 < rule_count s (rule_of p)" using l[of "rule_of p"] d(3) by simp
    then obtain n r where r: "map_of (matchRules s) (rule_of p) = Some (n, r)"
      by (auto simp: rule_count_def split: option.splits)
    have nz: "n \<noteq> 0" using d(4)[of "rule_of p" r] r by auto
    have r1: "map_of (matchRules ?s1) (rule_of p) = Some (n, r)" using r by simp
    obtain s' where a: "removeLibdbusSignalMatchRule E (rule_of p) ?s1 = Some s'"
      "signalHandlers s' = signalHandlers ?s1"
      "matchRules s' = (if n > 1 then al_put (rule_of p) (n - 1, r) (matchRules ?s1) else al_erase (rule_of p) (matchRules ?s1))"
      by (rule removeLibdbus_tables[OF r1, of E])
    note s' = a(1) a(2)[unfolded conn.simps] a(3)[unfolded conn.simps]
    have n1: "1 < n \<longleftrightarrow> 1 < unat n" by (simp add: word_less_nat_alt)
    have "rules_inv s'"
    proof (rule rules_invI)
      show "distinct (map fst (signalHandlers s'))" using d(1) by (simp add: s'(2) ee distinct_al_erase)
      show "distinct (map fst (matchRules s'))" using d(2) by (simp add: s'(3) distinct_al_put distinct_al_erase)
      show "rule_count s' k = lists_of s' k" for k
      proof -
        have "lists_of s' k = lists_of ?s1 k" by (simp add: lists_of_def s'(2))
        moreover have "rule_count s' k = (if k = rule_of p then unat n - 1 else rule_count s k)"
          using unat_pred[OF nz] n1 nz by (auto simp: rule_count_def s'(3) unat_gt_0)
        moreover have "rule_count s (rule_of p) = unat n" using r by (simp add: rule_count_def)
        ultimately show ?thesis using l[of k] d(3)[of k] by auto
      qed
      show "map_of (matchRules s') k \<noteq> Some (0, r')" for k r'
        using d(4)[of k r'] n1 by (auto simp: s'(3))
      show "map_of (signalHandlers s') q = Some hs' \<Longrightarrow> hs' \<noteq> [] \<and> distinct hs'" for q hs'
        using d(5)[of q hs'] by (auto simp: s'(2) split: if_splits)
    qed
    then show ?thesis using True Some s'(1) by (simp add: removeSignalMemberHandler_def Let_def)
  qed
qed

section \<open>Object manager signal handlers\<close>

definition om_users :: "conn \<Rightarrow> string \<Rightarrow> nat" where
  "om_users s n = length (filter (\<lambda>e. fst e = n) (omHandlers s))"

definition om_count :: "conn \<Rightarrow> string \<Rightarrow> nat" where
  "om_count s n = (case map_of (omRules s) n of None \<Rightarrow> 0 | Some c \<Rightarrow> c)"

definition om_inv :: "conn \<Rightarrow> bool" where
  "om_inv s \<longleftrightarrow> distinct (map fst (omRules s)) \<and> (\<forall>n. om_count s n = om_users s n) \<and>
     (\<forall>n. map_of (omRules s) n \<noteq> Some 0)"

lemma om_inv_new: "om_inv new_conn"
  by (simp add: om_inv_def new_conn_def om_users_def om_count_def)

lemma om_tables:
  "omRules (snd (addRule E r s)) = omRules s" "omHandlers (snd (addRule E r s)) = omHandlers s"
  "omRules (snd (removeRule E r s)) = omRules s" "omHandlers (snd (removeRule E r s)) = omHandlers s"
  "fst (removeRule E r s) = True"
  using same_tables_addRule[of s E r] same_tables_removeRule[of s E r]
  by (simp_all add: same_tables_def removeRule_def Let_def)

lemma length_remove1_filter:
  "x \<in> set xs \<Longrightarrow> length (filter P xs) = length (filter P (remove1 x xs)) + (if P x then 1 else 0)"
  by (induction xs) auto

lemma om_inv_add:
  assumes "om_inv s" shows "om_inv (snd (addObjectManagerSignalMemberHandler E alive n h s))"
proof -
  have "om_inv (s'\<lparr>omRules := al_put n (Suc (om_count s n)) (omRules s), omHandlers := omHandlers s @ [(n, h)]\<rparr>)" for s'
    using assms by (auto simp: om_inv_def om_count_def om_users_def distinct_al_put)
  moreover have "om_inv (snd (addRule E r s))" for r
    using assms by (simp add: om_inv_def om_count_def om_users_def om_tables)
  ultimately show ?thesis using assms
    by (auto simp: addObjectManagerSignalMemberHandler_def split_beta om_tables om_count_def split: option.splits)
qed

lemma om_inv_remove:
  assumes "om_inv s" shows "om_inv (snd (removeObjectManagerSignalMemberHandler E n h s))"
proof (cases "n \<noteq> [] \<and> map_of (omRules s) n \<noteq> None \<and> (n, h) \<in> set (omHandlers s)")
  case False
  then show ?thesis using assms by (auto simp: removeObjectManagerSignalMemberHandler_def split: option.splits)
next
  case True
  then obtain c where c: "map_of (omRules s) n = Some c" by auto
  have u: "om_users s m = length (filter (\<lambda>e. fst e = m) (remove1 (n, h) (omHandlers s))) + (if m = n then 1 else 0)" for m
    unfolding om_users_def using length_remove1_filter[of "(n, h)" "omHandlers s" "\<lambda>e. fst e = m"] True by auto
  have cu: "om_count s m = om_users s m" for m using assms by (simp add: om_inv_def)
  have d: "distinct (map fst (omRules s))" and z: "\<And>m. map_of (omRules s) m \<noteq> Some 0"
    using assms unfolding om_inv_def by blast+
  have left: "length (filter (\<lambda>e. fst e = n) (remove1 (n, h) (omHandlers s))) = c - 1"
    using u[of n] cu[of n] c by (simp add: om_count_def)
  have erase: "om_inv (s'\<lparr>omRules := al_erase n (al_put n 0 (omRules s)), omHandlers := remove1 (n, h) (omHandlers s)\<rparr>)"
    if "c = 1" for s'
    using d z u cu that c left by (auto simp: om_inv_def om_count_def om_users_def distinct_al_erase)
  have put: "om_inv (s'\<lparr>omRules := al_put n (c - 1) (omRules s), omHandlers := remove1 (n, h) (omHandlers s)\<rparr>)"
    if "1 < c" for s'
    using d z u cu that c left by (auto simp: om_inv_def om_count_def om_users_def distinct_al_put)
  have "c \<noteq> 0" using z[of n] c by (cases c) auto
  then consider "c = 1" | "1 < c" by linarith
  then show ?thesis
  proof cases
    case 1
    then show ?thesis using True c erase
      by (simp add: removeObjectManagerSignalMemberHandler_def Let_def split_beta om_tables)
  next
    case 2
    then have "c - 1 \<noteq> 0" by simp
    then show ?thesis using True c put[OF 2, of s]
      by (simp add: removeObjectManagerSignalMemberHandler_def Let_def)
  qed
qed

section \<open>The number of rules\<close>

text \<open>With a libdbus that does not fail, \<open>rulesCount\<close> is the number of rules of both tables.\<close>

definition count_inv :: "conn \<Rightarrow> bool" where
  "count_inv s \<longleftrightarrow> rulesCount s = (if connected s then length (matchRules s) + length (omRules s) else 0)"

lemma addRule_ok: "fst (addRule all_ok r s) = True" "rulesCount (snd (addRule all_ok r s)) = rulesCount s + 1"
  by (simp_all add: addRule_def Let_def split_beta all_ok_def)

lemma removeRule_count: "rulesCount (snd (removeRule E r s)) = rulesCount s - 1"
  by (auto simp: removeRule_def Let_def)

lemma length_al_put: "length (al_put k v m) = length m + (if map_of m k = None then 1 else 0)"
  by (induction k v m rule: al_put.induct) auto

lemma length_al_insert: "length (al_insert k v m) = length m + (if map_of m k = None then 1 else 0)"
  by (auto simp: al_insert_def map_of_eq_None_iff)

lemma al_erase_id: "map_of m k = None \<Longrightarrow> al_erase k m = m"
  by (induction m) (auto simp: al_erase_def split: if_splits)

lemma length_al_erase:
  "distinct (map fst m) \<Longrightarrow> length m = length (al_erase k m) + (if map_of m k = None then 0 else 1)"
proof (induction m)
  case (Cons e m)
  show ?case
  proof (cases "fst e = k")
    case True
    then have "al_erase k m = m" using Cons.prems by (intro al_erase_id) (auto simp: map_of_eq_None_iff)
    then show ?thesis using True by (cases e) (simp add: al_erase_def)
  next
    case False
    then show ?thesis using Cons by (cases e) (auto simp: al_erase_def)
  qed
qed (simp add: al_erase_def)

lemma count_inv_addLibdbus: "count_inv s \<Longrightarrow> count_inv (addLibdbusSignalMatchRule all_ok k j s)"
  by (auto simp: addLibdbusSignalMatchRule_def count_inv_def Let_def split_beta length_al_put length_al_insert all_ok_def
      split: option.splits)

lemma count_inv_addSignalMemberHandler:
  "count_inv s \<Longrightarrow> count_inv (snd (addSignalMemberHandler all_ok alive p h j s))"
  using count_inv_addLibdbus[of s "rule_of p" j]
  by (auto simp: addSignalMemberHandler_def Let_def count_inv_def split: option.splits)

lemma count_inv_removeLibdbus:
  assumes "count_inv s" "distinct (map fst (matchRules s))" "removeLibdbusSignalMatchRule E k s = Some s'"
  shows "count_inv s'"
proof -
  obtain n r where r: "map_of (matchRules s) k = Some (n, r)"
    using assms(3) by (auto simp: removeLibdbusSignalMatchRule_def split: option.splits)
  show ?thesis
  proof (cases "n > 1")
    case True
    then show ?thesis using assms(1,3) r by (auto simp: removeLibdbusSignalMatchRule_def count_inv_def length_al_put)
  next
    case False
    let ?s1 = "if connected s then snd (removeRule E r s) else s"
    have s': "s' = ?s1\<lparr>matchRules := al_erase k (matchRules ?s1)\<rparr>"
      using assms(3) r False by (simp add: removeLibdbusSignalMatchRule_def Let_def)
    have "same_tables s ?s1" using same_tables_removeRule[of s E r] by (simp add: same_tables_def)
    then show ?thesis using assms(1) length_al_erase[OF assms(2), of k] r removeRule_count[of E r s]
      by (cases "connected s") (simp_all add: s' count_inv_def same_tables_def)
  qed
qed

lemma count_inv_removeSignalMemberHandler:
  assumes "count_inv s" "distinct (map fst (matchRules s))" "snd (removeSignalMemberHandler E p h s) = Some s'"
  shows "count_inv s'"
proof -
  have "count_inv (s\<lparr>signalHandlers := hs\<rparr>)" for hs using assms(1) by (simp add: count_inv_def)
  then show ?thesis using assms count_inv_removeLibdbus[of "s\<lparr>signalHandlers := hs\<rparr>" E "rule_of p" s' for hs]
    by (auto simp: removeSignalMemberHandler_def Let_def split: option.splits if_splits)
qed

lemma count_inv_addOM:
  assumes "count_inv s" shows "count_inv (snd (addObjectManagerSignalMemberHandler all_ok alive n h s))"
  using assms same_tables_addRule[of s all_ok "omRuleString n"]
  by (auto simp: addObjectManagerSignalMemberHandler_def split_beta addRule_ok count_inv_def same_tables_def length_al_put
      split: option.splits)

lemma count_inv_removeOM:
  assumes "count_inv s" "distinct (map fst (omRules s))"
  shows "count_inv (snd (removeObjectManagerSignalMemberHandler E n h s))"
proof -
  have "length (omRules s) = length (al_erase n (omRules s)) + 1" if "map_of (omRules s) n \<noteq> None"
    using length_al_erase[OF assms(2), of n] that by simp
  moreover have "same_tables s' (snd (removeRule E (omRuleString n) s'))" for s' by (rule same_tables_removeRule)
  ultimately show ?thesis using assms(1)
    by (auto simp: removeObjectManagerSignalMemberHandler_def split_beta count_inv_def same_tables_def Let_def
        length_al_put removeRule_count om_tables split: option.splits)
qed

lemma rulesCount_addRules: "rulesCount (addRules all_ok rs s) = rulesCount s + length rs \<and> same_tables s (addRules all_ok rs s)"
proof (induction rs arbitrary: s)
  case (Cons r rs)
  show ?case
    using Cons[of "snd (addRule all_ok r s)"] addRule_ok(2)[of r s] same_tables_addRule[of s all_ok r]
    by (simp add: same_tables_def)
qed (simp add: same_tables_def)

lemma initPaths_tables:
  "rulesCount (initLibdbusObjectPathHandler E ps s) = rulesCount s \<and> same_tables s (initLibdbusObjectPathHandler E ps s)"
  by (induction E ps s rule: initLibdbusObjectPathHandler.induct) (auto simp: same_tables_def)

lemma count_inv_connect: "count_inv s \<Longrightarrow> count_inv (snd (connect all_ok got s))"
proof -
  assume i: "count_inv s"
  show ?thesis
  proof (cases "connected s \<or> \<not> got")
    case True
    then show ?thesis using i by (auto simp: connect_def)
  next
    case False
    let ?s = "initLibdbusObjectPathHandlerAfterConnect all_ok (s\<lparr>connected := True\<rparr>)"
    have "rulesCount ?s = 0 \<and> same_tables (s\<lparr>connected := True\<rparr>) ?s"
      using i False initPaths_tables[of all_ok "map fst (objectPaths s)" "s\<lparr>connected := True\<rparr>"]
      by (simp add: initLibdbusObjectPathHandlerAfterConnect_def count_inv_def)
    then show ?thesis using False rulesCount_addRules[of "map (snd \<circ> snd) (matchRules ?s) @ map (omRuleString \<circ> fst) (omRules ?s)" ?s]
      by (simp add: connect_def initLibdbusSignalFilterAfterConnect_def count_inv_def same_tables_def)
  qed
qed

lemma count_inv_disconnect: "count_inv s \<Longrightarrow> count_inv (disconnect E s)"
  by (simp add: disconnect_def count_inv_def)

section \<open>Properties\<close>

text \<open>C30: bus names. Whatever sequence of requests and releases is made, and however the daemon
  answers, the connection owns a name at the daemon exactly while some user holds it, and the
  count is the number of successful requests minus successful releases; for up to 65535 uses,
  the range of the counter.\<close>

theorem bus_name_owned_while_used:
  assumes "length us \<le> 65535"
  shows "let (rs, s) = run_uses (requestServiceNameAndBlock E) (releaseServiceName E) us new_conn
    in (owns n (log s) \<longleftrightarrow> 0 < name_users s n) \<and> int (name_users s n) = users n us rs"
proof -
  have "names.exact new_conn"
    by (simp add: names.exact_def name_inv_def new_conn_def name_users_def)
  moreover have "name_users new_conn k + length us \<le> 65535" for k
    using assms by (simp add: name_users_def new_conn_def)
  ultimately show ?thesis
    using names.run_exact[of new_conn us E n]
    by (auto simp: names.exact_def split_beta name_users_def[of new_conn] new_conn_def)
qed

theorem bus_name_owned_while_used_witness:
  "let (rs, s) = run_uses (requestServiceNameAndBlock all_ok) (releaseServiceName all_ok)
       [Acquire ''a.b'', Acquire ''a.b'', Release ''a.b''] new_conn
   in owns ''a.b'' (log s) \<longleftrightarrow> 0 < name_users s ''a.b''"
  using bus_name_owned_while_used[of "[Acquire ''a.b'', Acquire ''a.b'', Release ''a.b'']" all_ok "''a.b''"]
  by (simp add: Let_def split_beta)

text \<open>The bound is real. The counter has 16 bits; with 65535 users, two more requests succeed and
  make it 1, and the next release gives the name up at the daemon while 65536 users still hold it.\<close>

lemma bus_name_count_wraps:
  "let s0 = new_conn\<lparr>nameCount := [(''a.b'', 65535)], log := [(RequestName ''a.b'', True)]\<rparr>;
       (rs, s) = run_uses (requestServiceNameAndBlock all_ok) (releaseServiceName all_ok)
         [Acquire ''a.b'', Acquire ''a.b'', Release ''a.b''] s0
   in rs = [True, True, True] \<and> owns ''a.b'' (log s0) \<and> \<not> owns ''a.b'' (log s)"
  by code_simp

text \<open>Object paths. On a connection whose calls succeed, a valid path is registered with libdbus
  exactly while it has users; invalid paths are refused.\<close>

theorem object_path_registered_while_used:
  assumes "connected s" "objectPaths s = []" "log s = []" "length us < 2 ^ 32"
  shows "let (rs, s') = run_uses acquire_path release_path us s
    in (registered p (log s') \<longleftrightarrow> 0 < path_users s' p) \<and> int (path_users s' p) = users p us rs"
proof -
  have "paths.exact s"
    using assms(1-3) by (simp add: paths.exact_def path_inv_def path_users_def)
  moreover have "path_users s k + length us \<le> 2 ^ 32 - 1" for k
    using assms(2,4) by (simp add: path_users_def)
  ultimately show ?thesis
    using paths.run_exact[of s us p] assms(2) by (auto simp: paths.exact_def split_beta path_users_def[of s])
qed

theorem object_path_registered_while_used_witness:
  "let (rs, s') = run_uses acquire_path release_path [Acquire ''/a'', Release ''/a''] (new_conn\<lparr>connected := True\<rparr>)
   in registered ''/a'' (log s') \<longleftrightarrow> 0 < path_users s' ''/a''"
  using object_path_registered_while_used[of "new_conn\<lparr>connected := True\<rparr>" "[Acquire ''/a'', Release ''/a'']" "''/a''"]
  by (simp add: new_conn_def Let_def split_beta)

text \<open>C16: match rules. Adding and removing signal handlers keeps the count of every match rule equal
  to the number of handler lists that need it; hence removing a handler never reaches the branch of
  \<open>removeLibdbusSignalMatchRule\<close> that dereferences a missing rule.\<close>

theorem match_rules_counted:
  assumes "rules_inv s"
  shows "(length (signalHandlers s) < 2 ^ 32 - 1 \<longrightarrow> rules_inv (snd (addSignalMemberHandler E alive p h j s)))
    \<and> (\<exists>s'. snd (removeSignalMemberHandler E p h s) = Some s' \<and> rules_inv s')"
  using rules_inv_addSignalMemberHandler[OF assms] rules_inv_removeSignalMemberHandler[OF assms] by blast

theorem match_rules_counted_witness:
  "rules_inv (snd (addSignalMemberHandler all_ok (\<lambda>_. True) (''/p'', ''i.f'', ''sig'', ''s'') 7 False new_conn))"
  using match_rules_counted[OF rules_inv_new] by (simp add: new_conn_def)

text \<open>Object manager rules. Adding and removing object manager handlers keeps the count of a bus
  name equal to the number of its handlers.\<close>

theorem om_rules_counted:
  assumes "om_inv s"
  shows "om_inv (snd (addObjectManagerSignalMemberHandler E alive n h s)) \<and>
    om_inv (snd (removeObjectManagerSignalMemberHandler E n h s))"
  using om_inv_add[OF assms] om_inv_remove[OF assms] by blast

theorem om_rules_counted_witness:
  "om_inv (snd (removeObjectManagerSignalMemberHandler all_ok '':1.7'' 3
     (snd (addObjectManagerSignalMemberHandler all_ok (\<lambda>_. True) '':1.7'' 3 new_conn))))"
  using om_rules_counted[OF conjunct1[OF om_rules_counted[OF om_inv_new]]] by blast

text \<open>With a libdbus that does not fail, \<open>libdbusSignalMatchRulesCount_\<close> is the number of rules in
  both tables while connected and 0 otherwise: every operation that touches a table, connecting and
  disconnecting keep it so.\<close>

theorem rules_count_exact:
  assumes "count_inv s" "rules_inv s" "om_inv s"
  shows "count_inv (snd (addSignalMemberHandler all_ok alive p h j s))
    \<and> (\<exists>s'. snd (removeSignalMemberHandler all_ok p h s) = Some s' \<and> count_inv s')
    \<and> count_inv (snd (addObjectManagerSignalMemberHandler all_ok alive n h s))
    \<and> count_inv (snd (removeObjectManagerSignalMemberHandler all_ok n h s))
    \<and> count_inv (snd (connect all_ok got s)) \<and> count_inv (disconnect all_ok s)"
proof -
  obtain s' where "snd (removeSignalMemberHandler all_ok p h s) = Some s'"
    using rules_inv_removeSignalMemberHandler[OF assms(2)] by blast
  moreover from this have "count_inv s'"
    using count_inv_removeSignalMemberHandler[OF assms(1)] rules_invD(2)[OF assms(2)] by blast
  ultimately show ?thesis
    using count_inv_addSignalMemberHandler[OF assms(1)] count_inv_addOM[OF assms(1)]
      count_inv_removeOM[OF assms(1)] count_inv_connect[OF assms(1)] count_inv_disconnect[OF assms(1)] assms(3)
    by (simp add: om_inv_def)
qed

theorem rules_count_exact_witness:
  "count_inv (snd (connect all_ok True new_conn))"
  using rules_count_exact[OF _ rules_inv_new om_inv_new] by (simp add: count_inv_def new_conn_def)

definition filters :: "calllog \<Rightarrow> int" where
  "filters l = int (length (filter (\<lambda>e. e = (AddFilter, True)) l)) - int (length (filter (\<lambda>e. e = (RemoveFilter, True)) l))"

text \<open>The filter can be installed twice. The first object manager rule installs it, and so does the
  first signal handler, because that case looks at its own table only; when the last rule is
  gone it is removed once and one installation stays behind.\<close>

theorem filter_installed_twice:
  "let s0 = new_conn\<lparr>connected := True\<rparr>;
       p = (''/p'', ''i.f'', ''sig'', ''s'');
       s1 = snd (addObjectManagerSignalMemberHandler all_ok (\<lambda>_. True) '':1.7'' 3 s0);
       s2 = snd (addSignalMemberHandler all_ok (\<lambda>_. True) p 7 False s1);
       s3 = the (snd (removeSignalMemberHandler all_ok p 7 s2));
       s4 = snd (removeObjectManagerSignalMemberHandler all_ok '':1.7'' 3 s3)
   in filters (log s2) = 2 \<and> rulesCount s4 = 0 \<and> matchRules s4 = [] \<and> omRules s4 = [] \<and> filters (log s4) = 1"
  by code_simp

text \<open>C31: dispatch. A signal with all its parts is handed to exactly the live handlers that are
  registered for its path, interface, member and signature, plus, for the object manager
  interface, those registered for its sender; and it is reported as handled.\<close>

theorem signal_dispatch_exact:
  assumes "is_signal m" "msg_path m = Some p" "msg_interface m = Some i" "msg_member m = Some n"
    "msg_signature m = Some g" "msg_sender m = Some sender"
  shows "\<exists>hs. onLibdbusSignalFilter alive m s = (True, hs) \<and>
    (\<forall>h. h \<in> set hs \<longleftrightarrow> alive h \<and>
       ((\<exists>l. map_of (signalHandlers s) (p, i, n, g) = Some l \<and> h \<in> set l) \<or>
        (i = ''org.freedesktop.DBus.ObjectManager'' \<and> (sender, h) \<in> set (omHandlers s))))"
proof -
  let ?om = "if i = ''org.freedesktop.DBus.ObjectManager'' then filter alive (map snd (filter (\<lambda>e. fst e = sender) (omHandlers s))) else []"
  let ?sh = "filter alive (case map_of (signalHandlers s) (p, i, n, g) of Some hs \<Rightarrow> hs | None \<Rightarrow> [])"
  have "onLibdbusSignalFilter alive m s = (True, ?om @ ?sh)"
    using assms by (simp add: onLibdbusSignalFilter_def notifyDBusSignalHandlers_def notifyDBusOMSignalHandlers_def Let_def)
  moreover have "h \<in> set ?sh \<longleftrightarrow> alive h \<and> (\<exists>l. map_of (signalHandlers s) (p, i, n, g) = Some l \<and> h \<in> set l)" for h
    by (cases "map_of (signalHandlers s) (p, i, n, g)") auto
  moreover have "h \<in> set ?om \<longleftrightarrow> alive h \<and> i = ''org.freedesktop.DBus.ObjectManager'' \<and> (sender, h) \<in> set (omHandlers s)" for h
    by (force simp: image_iff)
  ultimately show ?thesis by (intro exI[of _ "?om @ ?sh"]) auto
qed

theorem signal_dispatch_exact_witness:
  "let m = \<lparr>is_signal = True, msg_path = Some ''/p'', msg_interface = Some ''i.f'', msg_member = Some ''sig'',
            msg_signature = Some ''s'', msg_sender = Some '':1.7''\<rparr>;
       s = snd (addSignalMemberHandler all_ok (\<lambda>_. True) (''/p'', ''i.f'', ''sig'', ''s'') 7 False new_conn)
   in \<exists>hs. onLibdbusSignalFilter (\<lambda>_. True) m s = (True, hs) \<and> 7 \<in> set hs"
proof -
  let ?m = "\<lparr>is_signal = True, msg_path = Some ''/p'', msg_interface = Some ''i.f'', msg_member = Some ''sig'',
            msg_signature = Some ''s'', msg_sender = Some '':1.7''\<rparr>"
  let ?s = "snd (addSignalMemberHandler all_ok (\<lambda>_. True) (''/p'', ''i.f'', ''sig'', ''s'') 7 False new_conn)"
  have "map_of (signalHandlers ?s) (''/p'', ''i.f'', ''sig'', ''s'') = Some [7]" by code_simp
  with signal_dispatch_exact[of ?m "''/p''" "''i.f''" "''sig''" "''s''" "'':1.7''" "\<lambda>_. True" ?s]
  show ?thesis by (auto simp: Let_def)
qed

end
