(* ===== verification/Async_Reply.thy ===== *)
theory Async_Reply
  imports Prelude "HOL-Library.Multiset"
begin

text \<open>
  Asynchronous calls of a connection (\<open>DBusConnection.cpp\<close>): sending with a reply handler,
  the notification when libdbus completes the pending call, the enforcer thread that times
  calls out, and the main loop that answers timed-out calls and deletes handlers.

  A handler and a pending call are numbers, time is in milliseconds. What the handlers
  experience is recorded in \<open>events\<close>. The threads interleave between the critical sections of
  the source: \<open>onLibdbusPendingCall\<close> consists of a part before and a part after the callback
  (\<open>pending_begin\<close>, \<open>pending_end\<close>), sending of a part before and a part after the entry
  into the timeout map (\<open>send_begin\<close>, \<open>send_insert\<close>). The whole operations of the source are
  their compositions. The step relation is in the theory \<open>Async_Correct\<close>.
\<close>

datatype CallStatus = SUCCESS | NOT_AVAILABLE | CONNECTION_FAILED | REMOTE_ERROR

type_synonym hid = nat
type_synonym pending = nat

text \<open>The flags of \<open>DBusProxyAsyncCallbackHandler\<close>.\<close>

record handler_flags =
  executionStarted :: bool
  executionFinished :: bool
  timeoutOccurred :: bool
  hasToBeDeleted :: bool

definition new_flags :: handler_flags where
  "new_flags = \<lparr>executionStarted = False, executionFinished = False, timeoutOccurred = False, hasToBeDeleted = False\<rparr>"

text \<open>
  \<open>Refused\<close>, \<open>Lost\<close> and \<open>Overtaken\<close> are no calls of the source, they record what becomes of a handler: sending returned
  \<open>False\<close>; the last pointer to the handler was dropped; the cancellation met the handler after libdbus had completed its
  call and before the callback began.
\<close>

datatype event =
    Reply hid CallStatus | Delete hid
  | Refused hid | Lost hid | Overtaken hid
  | Cancel pending | Unref pending | Wakeup | PostDeleteAsyncHandlers

text \<open>
  Where the main loop is in a notification: libdbus has completed the call, or the callback is
  running (the flag is \<open>processAsyncHandler\<close>).
\<close>

datatype phase = Arrived | Executing bool

record async =
  flags :: "hid \<Rightarrow> handler_flags"
  inflight :: "(pending \<times> hid) list"
  timeoutMap :: "(pending \<times> (nat \<times> hid)) list"
  infiniteHandlers :: "hid list"
  mainloopTimeouts :: "(hid \<times> CallStatus) list"
  asyncHandlersToDelete :: "hid list"
  replyQueue :: "(hid \<times> CallStatus) list"
  running :: "(hid \<times> pending option \<times> phase) option"
  cancelled :: bool
  events :: "event list"

definition new_async :: async where
  "new_async = \<lparr>flags = (\<lambda>_. new_flags), inflight = [], timeoutMap = [], infiniteHandlers = [],
     mainloopTimeouts = [], asyncHandlersToDelete = [], replyQueue = [], running = None, cancelled = False, events = []\<rparr>"

definition emit :: "event list \<Rightarrow> async \<Rightarrow> async" where
  "emit es s = s\<lparr>events := events s @ es\<rparr>"

definition set_flags :: "hid \<Rightarrow> (handler_flags \<Rightarrow> handler_flags) \<Rightarrow> async \<Rightarrow> async" where
  "set_flags h f s = s\<lparr>flags := (flags s)(h := f (flags s h))\<rparr>"

section \<open>Sending\<close>

text \<open>
  \<open>valid\<close> is whether there is a message and a connection, \<open>ok\<close> whether libdbus accepted the
  call, with the pending call \<open>p\<close>. A handler that is not passed on is deleted by its owner.
\<close>

definition send_begin :: "bool \<Rightarrow> bool \<Rightarrow> pending option \<Rightarrow> hid \<Rightarrow> async \<Rightarrow> bool \<times> async" where
  "send_begin valid ok p h s =
     (if \<not> valid then (False, emit [Refused h, Delete h] s)
      else (case (ok, p) of
              (True, Some q) \<Rightarrow> (True, s\<lparr>inflight := inflight s @ [(q, h)]\<rparr>)
            | _ \<Rightarrow>
                (True, emit ((case p of Some q \<Rightarrow> [Unref q] | None \<Rightarrow> []) @ [Wakeup])
                         (s\<lparr>mainloopTimeouts := mainloopTimeouts s @ [(h, CONNECTION_FAILED)]\<rparr>))))"

text \<open>A finite timeout is the time the call expires at. The pointer of a pending call may be reused.\<close>

definition send_insert :: "pending \<Rightarrow> nat option \<Rightarrow> hid \<Rightarrow> async \<Rightarrow> async" where
  "send_insert q timeout h s0 =
     (let s = s0\<lparr>inflight := remove1 (q, h) (inflight s0)\<rparr>
      in case timeout of
           None \<Rightarrow> s\<lparr>infiniteHandlers := infiniteHandlers s @ [h]\<rparr>
         | Some t \<Rightarrow>
             (case map_of (timeoutMap s) q of
                None \<Rightarrow> s\<lparr>timeoutMap := al_insert q (t, h) (timeoutMap s)\<rparr>
              | Some (t', old) \<Rightarrow>
                  emit [Delete old] (s\<lparr>timeoutMap := al_insert q (t, h) (al_erase q (timeoutMap s))\<rparr>)))"

definition sendDBusMessageWithReplyAsync :: "bool \<Rightarrow> bool \<Rightarrow> pending option \<Rightarrow> nat option \<Rightarrow> hid \<Rightarrow> async \<Rightarrow> bool \<times> async" where
  "sendDBusMessageWithReplyAsync valid ok p timeout h s =
     (case send_begin valid ok p h s of
        (r, s1) \<Rightarrow> (r, case p of Some q \<Rightarrow> (if valid \<and> ok then send_insert q timeout h s1 else s1) | None \<Rightarrow> s1))"

section \<open>The reply\<close>

definition reply_status :: "bool \<Rightarrow> bool \<Rightarrow> bool \<Rightarrow> CallStatus" where
  "reply_status isErrorType isMethodReturnType isUnknownMethod =
     (if isErrorType \<or> \<not> isMethodReturnType then
        (if isUnknownMethod then NOT_AVAILABLE else REMOTE_ERROR)
      else SUCCESS)"

definition pending_begin :: "pending option \<Rightarrow> CallStatus \<Rightarrow> hid \<Rightarrow> async \<Rightarrow> async" where
  "pending_begin q status h s =
     (let processAsyncHandler = (\<not> timeoutOccurred (flags s h));
          s1 = set_flags h (\<lambda>f. f\<lparr>executionStarted := True\<rparr>) s;
          s2 = s1\<lparr>running := Some (h, q, Executing processAsyncHandler)\<rparr>
      in if processAsyncHandler then emit [Reply h status] s2 else s2)"

definition pending_end :: "pending option \<Rightarrow> bool \<Rightarrow> hid \<Rightarrow> async \<Rightarrow> async" where
  "pending_end q processAsyncHandler h s =
     (let s1 = (case q of
                  Some p \<Rightarrow> if processAsyncHandler
                            then set_flags h (\<lambda>f. f\<lparr>executionFinished := True\<rparr>) (emit [Unref p] s) else s
                | None \<Rightarrow> s);
          s2 = s1\<lparr>running := None\<rparr>
      in if hasToBeDeleted (flags s2 h) then emit [Delete h] s2 else s2)"

definition onLibdbusPendingCall :: "pending option \<Rightarrow> CallStatus \<Rightarrow> hid \<Rightarrow> async \<Rightarrow> async" where
  "onLibdbusPendingCall q status h s = pending_end q (\<not> timeoutOccurred (flags s h)) h (pending_begin q status h s)"

text \<open>
  Replies that a proxy makes itself go through the queue of the main loop. \<open>accepted\<close> is the
  answer of \<open>setDispatching(true)\<close>.
\<close>

definition pushDBusMessageReplyToMainLoop :: "CallStatus \<Rightarrow> hid \<Rightarrow> async \<Rightarrow> async" where
  "pushDBusMessageReplyToMainLoop status h s =
     (let s1 = set_flags h (\<lambda>f. f\<lparr>hasToBeDeleted := True\<rparr>) s
      in s1\<lparr>replyQueue := replyQueue s1 @ [(h, status)]\<rparr>)"

definition dispatchDBusMessageReply :: "bool \<Rightarrow> CallStatus \<Rightarrow> hid \<Rightarrow> async \<Rightarrow> async" where
  "dispatchDBusMessageReply accepted status h s =
     (if accepted then onLibdbusPendingCall None status h s else emit [Lost h] s)"

section \<open>The enforcer thread\<close>

definition collect_handler :: "hid \<Rightarrow> async \<Rightarrow> async" where
  "collect_handler h s = emit [PostDeleteAsyncHandlers] (s\<lparr>asyncHandlersToDelete := asyncHandlersToDelete s @ [h]\<rparr>)"

text \<open>\<open>dbus_pending_call_get_completed\<close>: the main loop is in its notification.\<close>

definition completed :: "hid \<Rightarrow> async \<Rightarrow> bool" where
  "completed h s = (case running s of Some (h', _) \<Rightarrow> h' = h | None \<Rightarrow> False)"

text \<open>One iteration of the loop after the wait timed out; \<open>context\<close> is whether there is a main loop.\<close>

definition expire_entry :: "nat \<Rightarrow> bool \<Rightarrow> pending \<Rightarrow> async \<Rightarrow> async" where
  "expire_entry now has_context q s =
     (case map_of (timeoutMap s) q of
        None \<Rightarrow> s
      | Some (t, h) \<Rightarrow>
          (let started = executionStarted (flags s h);
               finished = executionFinished (flags s h)
           in if now > t then
                (let s1 = (if \<not> started \<and> \<not> finished then
                             (let s' = set_flags h (\<lambda>f. f\<lparr>timeoutOccurred := True\<rparr>) s
                              in if \<not> completed h s then emit [Cancel q] s' else s')
                           else s)
                 in if started \<and> \<not> finished then
                      s1\<lparr>timeoutMap := al_put q (now + 100, h) (timeoutMap s1)\<rparr>
                    else if \<not> finished then
                      (let s2 = (if has_context
                                 then emit [Wakeup] (s1\<lparr>mainloopTimeouts := mainloopTimeouts s1 @ [(h, REMOTE_ERROR)]\<rparr>)
                                 else emit [Lost h] s1)
                       in emit [Unref q] (s2\<lparr>timeoutMap := al_erase q (timeoutMap s2)\<rparr>))
                    else collect_handler h (s1\<lparr>timeoutMap := al_erase q (timeoutMap s1)\<rparr>))
              else if finished then collect_handler h (s\<lparr>timeoutMap := al_erase q (timeoutMap s)\<rparr>)
              else s))"

definition notified_entry :: "pending \<Rightarrow> async \<Rightarrow> async" where
  "notified_entry q s =
     (case map_of (timeoutMap s) q of
        None \<Rightarrow> s
      | Some (t, h) \<Rightarrow>
          if executionFinished (flags s h)
          then collect_handler h (s\<lparr>timeoutMap := al_erase q (timeoutMap s)\<rparr>) else s)"

definition infinite_entry :: "hid \<Rightarrow> async \<Rightarrow> async" where
  "infinite_entry h s =
     (if h \<in> set (infiniteHandlers s) \<and> executionFinished (flags s h)
      then collect_handler h (s\<lparr>infiniteHandlers := remove1 h (infiniteHandlers s)\<rparr>) else s)"

definition enforce_timeout :: "nat \<Rightarrow> bool \<Rightarrow> async \<Rightarrow> async" where
  "enforce_timeout now has_context s =
     (let s1 = fold (expire_entry now has_context) (map fst (timeoutMap s)) s
      in fold infinite_entry (infiniteHandlers s1) s1)"

definition enforce_notified :: "async \<Rightarrow> async" where
  "enforce_notified s =
     (let s1 = fold notified_entry (map fst (timeoutMap s)) s
      in fold infinite_entry (infiniteHandlers s1) s1)"

definition deleteAsyncHandlers :: "async \<Rightarrow> async" where
  "deleteAsyncHandlers s = emit (map Delete (asyncHandlersToDelete s)) (s\<lparr>asyncHandlersToDelete := []\<rparr>)"

text \<open>After the cancellation every handler is handed over, to a running callback or to deletion.\<close>

definition shutdown_entry :: "pending \<Rightarrow> async \<Rightarrow> async" where
  "shutdown_entry q s =
     (case map_of (timeoutMap s) q of
        None \<Rightarrow> s
      | Some (t, h) \<Rightarrow>
          if executionStarted (flags s h) \<and> \<not> executionFinished (flags s h)
          then (set_flags h (\<lambda>f. f\<lparr>hasToBeDeleted := True\<rparr>) s)\<lparr>timeoutMap := al_erase q (timeoutMap s)\<rparr>
          else s\<lparr>timeoutMap := al_erase q (timeoutMap s), asyncHandlersToDelete := asyncHandlersToDelete s @ [h]\<rparr>)"

definition shutdown_infinite :: "hid \<Rightarrow> async \<Rightarrow> async" where
  "shutdown_infinite h s =
     (if h \<in> set (infiniteHandlers s) then
        (if executionStarted (flags s h) \<and> \<not> executionFinished (flags s h)
         then (set_flags h (\<lambda>f. f\<lparr>hasToBeDeleted := True\<rparr>) s)\<lparr>infiniteHandlers := remove1 h (infiniteHandlers s)\<rparr>
         else s\<lparr>infiniteHandlers := remove1 h (infiniteHandlers s),
                asyncHandlersToDelete := asyncHandlersToDelete s @ [h]\<rparr>)
      else s)"

definition enforce_shutdown :: "async \<Rightarrow> async" where
  "enforce_shutdown s0 =
     (let s = s0\<lparr>cancelled := True\<rparr>;
          s1 = fold shutdown_entry (map fst (timeoutMap s)) s;
          s2 = fold shutdown_infinite (infiniteHandlers s1) s1
      in deleteAsyncHandlers s2)"

section \<open>The main loop\<close>

text \<open>The first part of \<open>singleDispatch\<close>: the calls that failed or timed out.\<close>

definition answer_timeouts :: "async \<Rightarrow> async" where
  "answer_timeouts s =
     emit (concat (map (\<lambda>(h, status). [Reply h status, Delete h]) (mainloopTimeouts s))) (s\<lparr>mainloopTimeouts := []\<rparr>)"

section \<open>setDispatching\<close>

record dispatch_state =
  isDispatching :: bool
  isDisconnecting :: bool
  isWaitingOnFinishedDispatching :: bool
  dispatchThreads :: "nat set"
  notified :: nat

text \<open>The notification of the waiting \<open>disconnect\<close> is counted.\<close>

definition setDispatching :: "nat \<Rightarrow> bool \<Rightarrow> dispatch_state \<Rightarrow> bool \<times> dispatch_state" where
  "setDispatching thread b d =
     (if isDispatching d = b then (True, d)
      else
        (let d1 = d\<lparr>dispatchThreads := insert thread (dispatchThreads d)\<rparr>
         in if isDisconnecting d1 then
              (if \<not> b then
                 (True, (if isWaitingOnFinishedDispatching d1 then d1\<lparr>notified := notified d1 + 1\<rparr> else d1)\<lparr>isDispatching := b\<rparr>)
               else (False, d1))
            else (True, d1\<lparr>isDispatching := b\<rparr>)))"

text \<open>
  \<open>singleDispatch\<close>; \<open>lib\<close> is the state change of \<open>dbus_connection_dispatch\<close> and whether data
  remains, both from libdbus.
\<close>

definition singleDispatch :: "nat \<Rightarrow> bool \<Rightarrow> (async \<Rightarrow> bool \<times> async) \<Rightarrow> async \<times> dispatch_state \<Rightarrow> bool \<times> async \<times> dispatch_state" where
  "singleDispatch thread is_connected lib sd =
     (case sd of (s, d) \<Rightarrow>
        (let s1 = answer_timeouts s
         in case setDispatching thread True d of
              (True, d1) \<Rightarrow>
                (let (dispatchStatus, s2) = (if is_connected then lib s1 else (False, s1))
                 in (dispatchStatus, s2, snd (setDispatching thread False d1)))
            | (False, d1) \<Rightarrow> (False, s1, d1)))"

definition isDispatchReady :: "nat \<Rightarrow> bool \<Rightarrow> bool \<Rightarrow> async \<times> dispatch_state \<Rightarrow> bool \<times> dispatch_state" where
  "isDispatchReady thread is_connected data_remains sd =
     (case sd of (s, d) \<Rightarrow>
        (case setDispatching thread True d of
           (True, d1) \<Rightarrow> ((is_connected \<and> data_remains) \<or> mainloopTimeouts s \<noteq> [], snd (setDispatching thread False d1))
         | (False, d1) \<Rightarrow> (False, d1)))"

end
