(* ===== verification/Async_Correct.thy ===== *)
theory Async_Correct
  imports Async_Reply
begin

text \<open>
  Every reply handler is answered at most once and deleted at most once, in every
  interleaving of the sending threads, the main loop and the enforcer thread, and until the
  connection is cancelled a deleted handler has been answered exactly once. The proof looks at
  one handler at a time (\<open>view\<close>): each step changes the view of one handler, and the
  invariant is a predicate on views.
\<close>

section \<open>The view of a handler\<close>

definition waiting :: "async \<Rightarrow> hid list" where
  "waiting s = map snd (inflight s) @ map (snd \<circ> snd) (timeoutMap s) @ infiniteHandlers s"

record hview =
  in_waiting :: nat
  in_timeouts :: nat
  in_delete :: nat
  in_queue :: nat
  replied :: nat
  deleted :: nat
  refused :: bool
  lost :: nat
  hflags :: handler_flags
  run :: "(pending option \<times> phase) option"

definition occurs :: "'a \<Rightarrow> 'a list \<Rightarrow> nat" where
  "occurs x xs = length (filter (\<lambda>y. y = x) xs)"

fun is_reply :: "hid \<Rightarrow> event \<Rightarrow> bool" where
  "is_reply h (Reply h' c) = (h' = h)"
| "is_reply h _ = False"

definition view :: "async \<Rightarrow> hid \<Rightarrow> hview" where
  "view s h = \<lparr>in_waiting = occurs h (waiting s), in_timeouts = occurs h (map fst (mainloopTimeouts s)),
     in_delete = occurs h (asyncHandlersToDelete s), in_queue = occurs h (map fst (replyQueue s)),
     replied = length (filter (is_reply h) (events s)), deleted = occurs (Delete h) (events s),
     refused = (Refused h \<in> set (events s)), lost = occurs (Lost h) (events s),
     hflags = flags s h,
     run = (case running s of Some (h', q, ph) \<Rightarrow> if h' = h then Some (q, ph) else None | None \<Rightarrow> None)\<rparr>"

definition fresh_view :: hview where
  "fresh_view = \<lparr>in_waiting = 0, in_timeouts = 0, in_delete = 0, in_queue = 0, replied = 0, deleted = 0, refused = False, lost = 0,
     hflags = new_flags, run = None\<rparr>"

text \<open>
  The invariant: a handler has one owner; it is not answered before it is started; it is
  answered when it is finished; a pending timeout is not answered; a handler in a callback is
  not deleted; until the cancellation a deleted handler has been answered.
\<close>

definition fresh :: "hview \<Rightarrow> bool" where
  "fresh v \<longleftrightarrow> v = fresh_view"

definition owners :: "hview \<Rightarrow> nat" where
  "owners v = in_waiting v + in_timeouts v + in_delete v + in_queue v + lost v
     + (if hasToBeDeleted (hflags v) \<and> (\<exists>q b. run v = Some (q, Executing b)) then 1 else 0)"

definition vinv :: "bool \<Rightarrow> hview \<Rightarrow> bool" where
  "vinv c v \<longleftrightarrow>
     (fresh v \<or> owners v + deleted v = 1)
     \<and> replied v \<le> 1
     \<and> (deleted v = 0 \<and> \<not> executionStarted (hflags v) \<longrightarrow> replied v = 0)
     \<and> (0 < in_timeouts v + lost v \<longrightarrow> replied v = 0)
     \<and> (0 < in_waiting v \<longrightarrow> \<not> timeoutOccurred (hflags v) \<and> \<not> hasToBeDeleted (hflags v))
     \<and> (0 < in_queue v \<longrightarrow> hflags v = new_flags\<lparr>hasToBeDeleted := True\<rparr> \<and> run v = None)
     \<and> (executionFinished (hflags v) \<longrightarrow> replied v = 1 \<and> executionStarted (hflags v))
     \<and> (0 < in_delete v \<longrightarrow> (executionFinished (hflags v) \<or> c \<and> \<not> executionStarted (hflags v)) \<and> run v = None)
     \<and> (0 < deleted v \<and> \<not> c \<and> \<not> refused v \<longrightarrow> replied v = 1)
     \<and> (refused v \<longrightarrow> deleted v = 1 \<and> replied v = 0)
     \<and> (0 < in_waiting v \<and> executionStarted (hflags v) \<and> \<not> executionFinished (hflags v) \<longrightarrow>
          (\<exists>q. run v = Some (Some q, Executing True)))
     \<and> (\<forall>q. run v = Some (q, Arrived) \<longrightarrow> q \<noteq> None \<and> deleted v = 0 \<and> \<not> executionStarted (hflags v) \<and> \<not> hasToBeDeleted (hflags v) \<and> \<not> c \<and>
          (0 < in_waiting v \<or> timeoutOccurred (hflags v) \<and> 0 < in_timeouts v + lost v))
     \<and> (\<forall>q b. run v = Some (q, Executing b) \<longrightarrow> deleted v = 0 \<and> executionStarted (hflags v) \<and>
          \<not> executionFinished (hflags v) \<and> (b \<longrightarrow> replied v = 1) \<and>
          (q = None \<longrightarrow> b \<and> hasToBeDeleted (hflags v)) \<and>
          (q \<noteq> None \<and> \<not> b \<longrightarrow> 0 < in_timeouts v + lost v \<and> \<not> hasToBeDeleted (hflags v)) \<and>
          (q \<noteq> None \<and> b \<longrightarrow> 0 < in_waiting v \<or> hasToBeDeleted (hflags v)))"

text \<open>\<open>X\<close> are the handlers of which nothing is claimed.\<close>

definition ainv :: "hid set \<Rightarrow> async \<Rightarrow> bool" where
  "ainv X s \<longleftrightarrow> (\<forall>h. h \<notin> X \<longrightarrow> vinv (cancelled s) (view s h)) \<and> distinct (map fst (timeoutMap s))"

text \<open>A step that changes the view of one handler keeps the invariant if that view does.\<close>

lemma ainv_step:
  assumes "ainv X s" "\<And>h'. h' \<noteq> h \<Longrightarrow> view s' h' = view s h'" "cancelled s' = cancelled s"
    and "vinv (cancelled s) (view s h) \<Longrightarrow> vinv (cancelled s) (view s' h)" "distinct (map fst (timeoutMap s'))"
  shows "ainv X s'"
  unfolding ainv_def
proof (intro conjI allI impI)
  fix h' assume "h' \<notin> X"
  then show "vinv (cancelled s') (view s' h')"
    using assms(1-4) by (cases "h' = h") (simp_all add: ainv_def)
qed (rule assms(5))

section \<open>The steps of the threads\<close>

text \<open>
  A step may be taken whenever its guard holds. The main loop is one thread (\<open>running\<close> is what it is in), the enforcer and the
  senders are others. What libdbus contributes: it completes a call that was neither completed nor cancelled, one at a
  time in the main loop; and it hands out the pointer of a pending call again only after the handler of the old one has finished.

  Sending may be refused, or fail, or go on to the timeout map. A queued reply is taken, or dropped if dispatching is not accepted any more
  (\<open>dispatchDBusMessageReply\<close>). The main loop context exists or not (\<open>expire\<close>).
  \<open>cancel\<close> is the cancellation by \<open>disconnect\<close>. It may come at any time: \<open>disconnect\<close> does not wait for the dispatch if it runs on a
  thread that has ever dispatched, or after an inner dispatch (\<open>former_dispatcher_does_not_wait\<close>, \<open>inner_dispatch_clears_flag\<close>).
  After it libdbus may still complete any call. A handler whose notification has arrived then, and whose callback has not begun, is \<open>Overtaken\<close>.
\<close>

definition overtake :: "async \<Rightarrow> async" where
  "overtake s =
     (case running s of
        Some (h, q, Arrived) \<Rightarrow> if cancelled s then emit [Overtaken h] s else s
      | _ \<Rightarrow> s)"

inductive astep :: "async \<Rightarrow> async \<Rightarrow> bool" where
  send: "view s h = fresh_view \<Longrightarrow> astep s (snd (send_begin valid ok p h s))"
| insert_call: "(q, h) \<in> set (inflight s) \<Longrightarrow>
    (\<And>t old. map_of (timeoutMap s) q = Some (t, old) \<Longrightarrow> executionFinished (flags s old)) \<Longrightarrow>
    astep s (send_insert q timeout h s)"
| complete: "running s = None \<Longrightarrow> h \<in> set (waiting s) \<and> \<not> executionStarted (flags s h) \<or> cancelled s \<Longrightarrow>
    astep s (overtake (s\<lparr>running := Some (h, Some q, Arrived)\<rparr>))"
| callback: "running s = Some (h, q, Arrived) \<Longrightarrow> astep s (pending_begin q status h s)"
| callback_end: "running s = Some (h, q, Executing b) \<Longrightarrow> astep s (pending_end q b h s)"
| push_reply: "view s h = fresh_view \<Longrightarrow> astep s (pushDBusMessageReplyToMainLoop status h s)"
| pop_reply: "running s = None \<Longrightarrow> replyQueue s = (h, status) # r \<Longrightarrow>
    astep s (pending_begin None status h (s\<lparr>replyQueue := r\<rparr>))"
| drop_reply: "running s = None \<Longrightarrow> replyQueue s = (h, status) # r \<Longrightarrow>
    astep s (dispatchDBusMessageReply False status h (s\<lparr>replyQueue := r\<rparr>))"
| expire: "astep s (expire_entry now has_context q s)"
| notify: "astep s (notified_entry q s)"
| notify_infinite: "astep s (infinite_entry h s)"
| answer: "running s = None \<Longrightarrow> mainloopTimeouts s = (h, status) # r \<Longrightarrow>
    astep s (emit [Reply h status, Delete h] (s\<lparr>mainloopTimeouts := r\<rparr>))"
| delete: "asyncHandlersToDelete s = h # r \<Longrightarrow>
    astep s (emit [Delete h] (s\<lparr>asyncHandlersToDelete := r\<rparr>))"
| cancel: "astep s (overtake (s\<lparr>cancelled := True\<rparr>))"
| shutdown: "cancelled s \<Longrightarrow> astep s (shutdown_entry q s)"
| shutdown_inf: "cancelled s \<Longrightarrow> astep s (shutdown_infinite h s)"

inductive areach :: "async \<Rightarrow> bool" where
  start: "areach new_async"
| step: "areach s \<Longrightarrow> astep s s' \<Longrightarrow> areach s'"

section \<open>Views after the elementary changes\<close>

lemma occurs_simps [simp]:
  "occurs x [] = 0" "occurs x (y # ys) = (if y = x then 1 else 0) + occurs x ys"
  "occurs x (xs @ ys) = occurs x xs + occurs x ys"
  by (simp_all add: occurs_def)

lemma occurs_pos: "0 < occurs x xs \<longleftrightarrow> x \<in> set xs"
  by (induction xs) auto

lemma occurs_remove1: "occurs x (remove1 y xs) = occurs x xs - (if x = y then 1 else 0)"
  by (induction xs) auto

lemma occurs_snd_remove1:
  "(q, h) \<in> set xs \<Longrightarrow> occurs x (map snd (remove1 (q, h) xs)) = occurs x (map snd xs) - (if x = h then 1 else 0)"
proof (induction xs)
  case (Cons e xs)
  show ?case
  proof (cases "e = (q, h)")
    case False
    then have "(q, h) \<in> set xs" using Cons.prems by auto
    then have "0 < occurs h (map snd xs)" by (force simp: occurs_pos)
    then show ?thesis using Cons.IH \<open>(q, h) \<in> set xs\<close> False by auto
  qed simp
qed simp

lemma occurs_erase:
  assumes "map_of m q = Some (t, h)" "distinct (map fst m)"
  shows "occurs x (map (snd \<circ> snd) m) = occurs x (map (snd \<circ> snd) (al_erase q m)) + (if x = h then 1 else 0)"
  using assms
proof (induction m)
  case (Cons e m)
  show ?case
  proof (cases "fst e = q")
    case True
    then have "map_of m q = None" using Cons.prems(2) by (auto simp: map_of_eq_None_iff)
    then have "al_erase q m = m" by (induction m) (auto simp: al_erase_def split: if_splits)
    then show ?thesis using True Cons.prems(1) by (cases e) (auto simp: al_erase_def)
  next
    case False
    then show ?thesis using Cons by (cases e) (auto simp: al_erase_def)
  qed
qed simp

lemma map_put_same:
  "map_of m q = Some (t, h) \<Longrightarrow> map (snd \<circ> snd) (al_put q (t', h) m) = map (snd \<circ> snd) m"
  by (induction q "(t', h)" m rule: al_put.induct) (auto split: if_splits)

lemma occurs_insert:
  "map_of m q = None \<Longrightarrow> occurs x (map (snd \<circ> snd) (al_insert q (t, h) m)) =
     occurs x (map (snd \<circ> snd) m) + (if x = h then 1 else 0)"
  by (auto simp: al_insert_def map_of_eq_None_iff)

lemmas vinv_simps = vinv_def owners_def fresh_def fresh_view_def

lemmas view_simps = view_def waiting_def emit_def set_flags_def occurs_remove1 occurs_snd_remove1 collect_handler_def

lemma timeout_waiting: "map_of (timeoutMap s) q = Some (t, h) \<Longrightarrow> h \<in> set (waiting s)"
  by (force simp: waiting_def dest: map_of_SomeD)

lemma waiting_view: "h \<in> set (waiting s) \<Longrightarrow> 0 < in_waiting (view s h)"
  by (simp add: view_def occurs_pos)

section \<open>What the invariant says of one handler\<close>

lemma busy_not_fresh: "run v \<noteq> None \<Longrightarrow> \<not> fresh v" "executionStarted (hflags v) \<Longrightarrow> \<not> fresh v"
  by (auto simp: fresh_def fresh_view_def new_flags_def)

lemma run_cases:
  obtains (idle) "run v = None" | (arrived) q where "run v = Some (q, Arrived)"
    | (executing) q b where "run v = Some (q, Executing b)"
  by (metis not_Some_eq phase.exhaust surj_pair)

lemma vinv_owned:
  assumes "vinv c v" "\<not> fresh v" "deleted v = 0"
  shows "owners v = 1" "\<not> refused v"
  using assms unfolding vinv_def by auto

text \<open>Before the callback the handler waits for the reply or has been timed out.\<close>

lemma vinv_arrived:
  assumes "vinv c v" "run v = Some (q, Arrived)"
  shows "q \<noteq> None" "replied v = 0" "deleted v = 0" "in_delete v = 0" "in_queue v = 0" "\<not> executionFinished (hflags v)"
    "\<not> hasToBeDeleted (hflags v)" "\<not> refused v"
    "if timeoutOccurred (hflags v) then in_timeouts v + lost v = 1 \<and> in_waiting v = 0
     else in_timeouts v = 0 \<and> lost v = 0 \<and> in_waiting v = 1"
proof -
  show a: "q \<noteq> None" "replied v = 0" "deleted v = 0" "\<not> executionFinished (hflags v)" "\<not> hasToBeDeleted (hflags v)"
    using assms unfolding vinv_def by auto
  note o = vinv_owned[OF assms(1) busy_not_fresh(1) a(3)]
  show "\<not> refused v" using o(2) assms(2) by simp
  have "0 < in_waiting v \<longrightarrow> \<not> timeoutOccurred (hflags v)" using assms(1) unfolding vinv_def by simp
  moreover have "0 < in_waiting v \<or> timeoutOccurred (hflags v) \<and> 0 < in_timeouts v + lost v"
    using assms unfolding vinv_def by auto
  ultimately have w: "0 < in_waiting v \<and> \<not> timeoutOccurred (hflags v) \<or> timeoutOccurred (hflags v) \<and> 0 < in_timeouts v + lost v"
    by auto
  have n: "in_waiting v + in_timeouts v + in_delete v + in_queue v + lost v = 1"
    using o(1) assms(2) a(5) by (simp add: owners_def)
  show "in_delete v = 0" "in_queue v = 0"
    "if timeoutOccurred (hflags v) then in_timeouts v + lost v = 1 \<and> in_waiting v = 0
     else in_timeouts v = 0 \<and> lost v = 0 \<and> in_waiting v = 1"
    using w n by auto
qed

lemma vinv_queued:
  assumes "vinv c v" "0 < in_queue v"
  shows "in_queue v = 1" "in_waiting v = 0" "in_timeouts v = 0" "in_delete v = 0" "deleted v = 0" "lost v = 0" "replied v = 0"
    "hflags v = new_flags\<lparr>hasToBeDeleted := True\<rparr>" "run v = None" "\<not> refused v"
proof -
  show f: "hflags v = new_flags\<lparr>hasToBeDeleted := True\<rparr>" "run v = None" using assms unfolding vinv_def by auto
  have "\<not> fresh v" using assms(2) by (auto simp: fresh_def fresh_view_def)
  then have "owners v + deleted v = 1" using assms(1) unfolding vinv_def by simp
  then show n: "in_queue v = 1" "in_waiting v = 0" "in_timeouts v = 0" "in_delete v = 0" "deleted v = 0" "lost v = 0"
    using assms(2) f by (simp_all add: owners_def)
  show "replied v = 0" using assms(1) n(5) f unfolding vinv_def by (simp add: new_flags_def)
  show "\<not> refused v" using assms(1) n(5) unfolding vinv_def by auto
qed

lemma vinv_executing:
  assumes "vinv c v" "run v = Some (q, Executing b)"
  shows "executionStarted (hflags v)" "\<not> executionFinished (hflags v)" "deleted v = 0" "in_delete v = 0" "in_queue v = 0"
    "replied v \<le> 1" "b \<Longrightarrow> replied v = 1" "0 < in_timeouts v + lost v \<Longrightarrow> replied v = 0" "\<not> refused v"
    "if hasToBeDeleted (hflags v) then b \<and> in_waiting v = 0 \<and> in_timeouts v = 0 \<and> lost v = 0
     else q \<noteq> None \<and> (if b then in_waiting v = 1 \<and> in_timeouts v = 0 \<and> lost v = 0 \<and> \<not> timeoutOccurred (hflags v)
                        else in_waiting v = 0 \<and> in_timeouts v + lost v = 1)"
proof -
  show a: "executionStarted (hflags v)" "\<not> executionFinished (hflags v)" "deleted v = 0" "replied v \<le> 1"
      "b \<Longrightarrow> replied v = 1" "0 < in_timeouts v + lost v \<Longrightarrow> replied v = 0"
    using assms unfolding vinv_def by auto
  note o = vinv_owned[OF assms(1) busy_not_fresh(1) a(3)]
  show "\<not> refused v" using o(2) assms(2) by simp
  have n: "in_waiting v + in_timeouts v + in_delete v + in_queue v + lost v = (if hasToBeDeleted (hflags v) then 0 else 1)"
    using o(1) assms(2) by (auto simp: owners_def split: if_splits)
  have d: "in_delete v = 0" "in_queue v = 0" using assms unfolding vinv_def by auto
  show "in_delete v = 0" "in_queue v = 0" by (fact d)+
  have w: "q = None \<longrightarrow> b \<and> hasToBeDeleted (hflags v)" "q \<noteq> None \<and> \<not> b \<longrightarrow> 0 < in_timeouts v + lost v \<and> \<not> hasToBeDeleted (hflags v)"
      "q \<noteq> None \<and> b \<longrightarrow> 0 < in_waiting v \<or> hasToBeDeleted (hflags v)"
    using assms unfolding vinv_def by simp_all
  have t: "0 < in_waiting v \<longrightarrow> \<not> timeoutOccurred (hflags v)" using assms(1) unfolding vinv_def by simp
  show "if hasToBeDeleted (hflags v) then b \<and> in_waiting v = 0 \<and> in_timeouts v = 0 \<and> lost v = 0
     else q \<noteq> None \<and> (if b then in_waiting v = 1 \<and> in_timeouts v = 0 \<and> lost v = 0 \<and> \<not> timeoutOccurred (hflags v)
                        else in_waiting v = 0 \<and> in_timeouts v + lost v = 1)"
    using w t n d by (auto split: if_splits)
qed

lemma vinv_timed:
  assumes "vinv c v" "0 < in_timeouts v" "run v = None"
  shows "in_waiting v = 0" "in_timeouts v = 1" "in_delete v = 0" "in_queue v = 0" "deleted v = 0" "lost v = 0" "replied v = 0"
    "\<not> executionFinished (hflags v)" "\<not> refused v"
proof -
  have "\<not> fresh v" using assms(2) by (auto simp: fresh_def fresh_view_def)
  then have "owners v + deleted v = 1" using assms(1) unfolding vinv_def by simp
  then show n: "in_waiting v = 0" "in_timeouts v = 1" "in_delete v = 0" "in_queue v = 0" "deleted v = 0" "lost v = 0"
    using assms(2,3) by (simp_all add: owners_def)
  show r: "replied v = 0" using assms(1,2) unfolding vinv_def by simp
  show "\<not> executionFinished (hflags v)" using assms(1) r unfolding vinv_def by auto
  show "\<not> refused v" using assms(1) n(5) unfolding vinv_def by auto
qed

lemma vinv_todelete:
  assumes "vinv c v" "0 < in_delete v"
  shows "in_waiting v = 0" "in_timeouts v = 0" "in_delete v = 1" "in_queue v = 0" "deleted v = 0" "lost v = 0" "replied v \<le> 1"
    "run v = None" "\<not> c \<Longrightarrow> replied v = 1" "executionFinished (hflags v) \<Longrightarrow> replied v = 1 \<and> executionStarted (hflags v)" "\<not> refused v"
proof -
  have "\<not> fresh v" using assms(2) by (auto simp: fresh_def fresh_view_def)
  then have "owners v + deleted v = 1" using assms(1) unfolding vinv_def by simp
  moreover show r: "run v = None" using assms unfolding vinv_def by simp
  ultimately show n: "in_waiting v = 0" "in_timeouts v = 0" "in_delete v = 1" "in_queue v = 0" "deleted v = 0" "lost v = 0"
    using assms(2) by (simp_all add: owners_def)
  show "replied v \<le> 1" "\<not> c \<Longrightarrow> replied v = 1" "executionFinished (hflags v) \<Longrightarrow> replied v = 1 \<and> executionStarted (hflags v)"
    using assms unfolding vinv_def by auto
  show "\<not> refused v" using assms(1) n(5) unfolding vinv_def by auto
qed

lemma vinv_waiting:
  assumes "vinv c v" "0 < in_waiting v"
  shows "in_waiting v = 1" "in_timeouts v = 0" "in_delete v = 0" "in_queue v = 0" "deleted v = 0"
    "\<not> timeoutOccurred (hflags v)" "\<not> hasToBeDeleted (hflags v)" "replied v \<le> 1" "\<not> fresh v"
    "executionFinished (hflags v) \<Longrightarrow> replied v = 1 \<and> executionStarted (hflags v) \<and> run v = None"
    "\<not> executionStarted (hflags v) \<Longrightarrow> replied v = 0 \<and> \<not> executionFinished (hflags v)"
    "lost v = 0" "\<not> refused v"
proof -
  show f: "\<not> fresh v" using assms(2) by (auto simp: fresh_def fresh_view_def)
  have o: "owners v + deleted v = 1" using assms(1) f unfolding vinv_def by simp
  show n: "in_waiting v = 1" "in_timeouts v = 0" "in_delete v = 0" "in_queue v = 0" "deleted v = 0" "lost v = 0"
    using o assms(2) by (auto simp: owners_def split: if_splits)
  show "\<not> timeoutOccurred (hflags v)" "\<not> hasToBeDeleted (hflags v)" "replied v \<le> 1"
    "\<not> executionStarted (hflags v) \<Longrightarrow> replied v = 0 \<and> \<not> executionFinished (hflags v)" "\<not> refused v"
    using assms n(5) unfolding vinv_def by auto
  assume e: "executionFinished (hflags v)"
  then have st: "replied v = 1" "executionStarted (hflags v)" using assms(1) unfolding vinv_def by simp_all
  moreover have "run v = None"
  proof (cases v rule: run_cases)
    case (arrived q)
    then show ?thesis using assms(1) st unfolding vinv_def by simp
  next
    case (executing q b)
    then show ?thesis using vinv_executing(2)[OF assms(1)] e by simp
  qed
  ultimately show "replied v = 1 \<and> executionStarted (hflags v) \<and> run v = None" by simp
qed

text \<open>A finished handler that is deleted, or moves to the handlers to delete.\<close>

lemma vinv_finished:
  assumes "vinv c v" "0 < in_waiting v" "executionFinished (hflags v)"
  shows "vinv c (v\<lparr>in_waiting := in_waiting v - 1, deleted := deleted v + 1\<rparr>)"
  using vinv_waiting[OF assms(1,2)] assms(3) by (simp add: vinv_def owners_def)

section \<open>Sending keeps the invariant\<close>

lemma view_other_send:
  "x \<noteq> h \<Longrightarrow> view (snd (send_begin valid ok p h s)) x = view s x"
  by (auto simp: send_begin_def view_simps split: option.splits bool.splits)

lemma send_ainv:
  assumes "ainv X s" "view s h = fresh_view"
  shows "ainv X (snd (send_begin valid ok p h s))"
proof (rule ainv_step[OF assms(1)])
  show "cancelled (snd (send_begin valid ok p h s)) = cancelled s"
    by (auto simp: send_begin_def emit_def split: option.splits bool.splits)
  show "distinct (map fst (timeoutMap (snd (send_begin valid ok p h s))))"
    using assms(1) by (auto simp: send_begin_def emit_def ainv_def split: option.splits bool.splits)
  have "view (snd (send_begin valid ok p h s)) h \<in> {fresh_view\<lparr>in_waiting := 1\<rparr>, fresh_view\<lparr>in_timeouts := 1\<rparr>,
      fresh_view\<lparr>deleted := 1, refused := True\<rparr>}"
    using assms(2) by (auto simp: send_begin_def view_simps fresh_view_def split: option.splits bool.splits)
  then show "vinv (cancelled s) (view (snd (send_begin valid ok p h s)) h)"
    by (auto simp: vinv_simps new_flags_def)
qed (rule view_other_send)

lemma send_insert_simps:
  "send_insert q None h s = s\<lparr>inflight := remove1 (q, h) (inflight s), infiniteHandlers := infiniteHandlers s @ [h]\<rparr>"
  "map_of (timeoutMap s) q = None \<Longrightarrow> send_insert q (Some t) h s =
     s\<lparr>inflight := remove1 (q, h) (inflight s), timeoutMap := al_insert q (t, h) (timeoutMap s)\<rparr>"
  "map_of (timeoutMap s) q = Some (t', old) \<Longrightarrow> send_insert q (Some t) h s =
     s\<lparr>inflight := remove1 (q, h) (inflight s), timeoutMap := al_insert q (t, h) (al_erase q (timeoutMap s)),
       events := events s @ [Delete old]\<rparr>"
  by (simp_all add: send_insert_def Let_def emit_def)

lemma inflight_waiting: "(q, h) \<in> set (inflight s) \<Longrightarrow> 0 < occurs h (map snd (inflight s))"
  by (force simp: occurs_pos)

lemma insert_call_view:
  assumes "(q, h) \<in> set (inflight s)" "map_of (timeoutMap s) q = None"
  shows "view (send_insert q timeout h s) x = view s x"
  using assms inflight_waiting[OF assms(1)]
  by (cases timeout) (simp_all add: send_insert_simps view_simps occurs_insert)

text \<open>A reused pointer: the old handler had finished and is deleted.\<close>

lemma insert_reuse_view:
  assumes "(q, h) \<in> set (inflight s)" "map_of (timeoutMap s) q = Some (t', old)" "distinct (map fst (timeoutMap s))"
  shows "view (send_insert q (Some t) h s) x =
     (if x = old then (view s x)\<lparr>in_waiting := in_waiting (view s x) - 1, deleted := deleted (view s x) + 1\<rparr> else view s x)"
proof -
  have "map_of (al_erase q (timeoutMap s)) q = None"
    by (auto simp: map_of_eq_None_iff al_erase_def)
  then show ?thesis
    using assms inflight_waiting[OF assms(1)]
    by (auto simp add: send_insert_simps view_simps occurs_insert occurs_erase[OF assms(2,3)] simp del: map_of_eq_Some_iff)
qed

lemmas [simp] = distinct_al_erase distinct_al_insert

lemma map_fst_put [simp]: "map_of m q = Some w \<Longrightarrow> map fst (al_put q v m) = map fst m"
  by (induction q v m rule: al_put.induct) (auto split: if_splits)

lemma insert_ainv:
  assumes "ainv X s" "(q, h) \<in> set (inflight s)"
    and "\<And>t old. map_of (timeoutMap s) q = Some (t, old) \<Longrightarrow> executionFinished (flags s old)"
  shows "ainv X (send_insert q timeout h s)"
proof -
  have d: "distinct (map fst (timeoutMap s))" using assms(1) by (simp add: ainv_def)
  have c: "cancelled (send_insert q timeout h s) = cancelled s" "distinct (map fst (timeoutMap (send_insert q timeout h s)))"
    using d by (cases timeout; cases "map_of (timeoutMap s) q"; force simp: send_insert_simps)+
  show ?thesis
  proof (cases "timeout = None \<or> map_of (timeoutMap s) q = None")
    case True
    then have "view (send_insert q timeout h s) x = view s x" for x
      using insert_call_view[OF assms(2), of timeout] inflight_waiting[OF assms(2)]
      by (cases timeout) (simp_all add: send_insert_simps view_simps assms(2))
    then show ?thesis using assms(1) c by (simp add: ainv_def)
  next
    case False
    then obtain t t' old where e: "timeout = Some t" "map_of (timeoutMap s) q = Some (t', old)" by auto
    have f: "executionFinished (hflags (view s old))" using assms(3) e(2) by (simp add: view_def)
    have w: "0 < in_waiting (view s old)" using e(2) by (intro waiting_view timeout_waiting)
    show ?thesis
    proof (rule ainv_step[OF assms(1) _ c(1) _ c(2), where h = old])
      assume "vinv (cancelled s) (view s old)"
      then show "vinv (cancelled s) (view (send_insert q timeout h s) old)"
        unfolding e(1) insert_reuse_view[OF assms(2) e(2) d] using vinv_finished f w by simp
    qed (simp add: e(1) insert_reuse_view[OF assms(2) e(2) d])
  qed
qed

section \<open>The main loop keeps the invariant\<close>

lemma running_view:
  "view (s\<lparr>running := r\<rparr>) x =
     (view s x)\<lparr>run := (case r of Some (h', q, ph) \<Rightarrow> if h' = x then Some (q, ph) else None | None \<Rightarrow> None)\<rparr>"
  by (simp add: view_def waiting_def)

lemma vinv_complete:
  assumes "vinv False v" "0 < in_waiting v" "\<not> executionStarted (hflags v)"
  shows "vinv False (v\<lparr>run := Some (Some q, Arrived)\<rparr>)"
  using vinv_waiting[OF assms(1,2)] assms(3) by (simp add: vinv_def owners_def)

lemma overtake_simps:
  "\<not> cancelled s \<Longrightarrow> overtake s = s" "(\<And>h q. running s \<noteq> Some (h, q, Arrived)) \<Longrightarrow> overtake s = s"
  "running s = Some (h, q, Arrived) \<Longrightarrow> cancelled s \<Longrightarrow> overtake s = emit [Overtaken h] s"
  by (auto simp: overtake_def split: option.splits phase.splits)

lemma view_emit_overtaken [simp]: "view (emit [Overtaken h] s) = view s"
  by (rule ext) (simp add: view_def waiting_def emit_def)

lemma view_cancelled [simp]: "view (s\<lparr>cancelled := b\<rparr>) = view s"
  by (rule ext) (simp add: view_def waiting_def)

lemma ainv_mono: "ainv X s \<Longrightarrow> X \<subseteq> Y \<Longrightarrow> ainv Y s"
  unfolding ainv_def by blast

text \<open>A call is completed: its handler is before the callback, or has been overtaken by the cancellation.\<close>

lemma complete_ainv:
  assumes "ainv X s" "running s = None" "h \<in> set (waiting s) \<and> \<not> executionStarted (flags s h) \<or> cancelled s"
    and "s' = overtake (s\<lparr>running := Some (h, Some q, Arrived)\<rparr>)"
  shows "ainv (X \<union> {h. Overtaken h \<in> set (events s')}) s'"
proof (cases "cancelled s")
  case False
  then have s': "s' = s\<lparr>running := Some (h, Some q, Arrived)\<rparr>" using assms(4) by (simp add: overtake_simps)
  have "ainv X s'"
  proof (rule ainv_step[OF assms(1), where h = h])
    have "0 < in_waiting (view s h)" "\<not> executionStarted (hflags (view s h))"
      using assms(3) False by (simp_all add: waiting_view) (simp_all add: view_def)
    then show "vinv (cancelled s) (view s h) \<Longrightarrow> vinv (cancelled s) (view s' h)"
      using vinv_complete False by (simp add: s' running_view)
    show "h' \<noteq> h \<Longrightarrow> view s' h' = view s h'" for h'
      using assms(2) by (simp add: s' view_def waiting_def)
  qed (use assms(1) in \<open>simp_all add: ainv_def s'\<close>)
  then show ?thesis by (rule ainv_mono) simp
next
  case True
  then have s': "s' = emit [Overtaken h] (s\<lparr>running := Some (h, Some q, Arrived)\<rparr>)"
    using assms(4) by (simp add: overtake_simps)
  have "view s' x = view s x" if "x \<noteq> h" for x
    using assms(2) that by (simp add: s') (simp add: view_def waiting_def)
  then show ?thesis using assms(1) by (auto simp: ainv_def) (simp_all add: s' emit_def)
qed

lemma pending_begin_view:
  "view (pending_begin q status h s) x =
     (if x = h then (view s h)\<lparr>replied := replied (view s h) + (if timeoutOccurred (flags s h) then 0 else 1),
        hflags := (flags s h)\<lparr>executionStarted := True\<rparr>, run := Some (q, Executing (\<not> timeoutOccurred (flags s h)))\<rparr>
      else (view s x)\<lparr>run := None\<rparr>)"
  by (auto simp: pending_begin_def view_simps Let_def)

lemma run_other: "running s = Some (h, q, ph) \<Longrightarrow> x \<noteq> h \<Longrightarrow> (view s x)\<lparr>run := None\<rparr> = view s x"
  "running s = None \<Longrightarrow> (view s x)\<lparr>run := None\<rparr> = view s x"
  by (simp_all add: view_def)

lemma pending_begin_frame [simp]:
  "cancelled (pending_begin q status h s) = cancelled s" "timeoutMap (pending_begin q status h s) = timeoutMap s"
  by (simp_all add: pending_begin_def Let_def set_flags_def emit_def)

lemma callback_ainv:
  assumes "ainv X s" "running s = Some (h, q, Arrived)"
  shows "ainv X (pending_begin q status h s)"
proof (rule ainv_step[OF assms(1), where h = h])
  have r: "run (view s h) = Some (q, Arrived)" and f: "flags s h = hflags (view s h)"
    using assms(2) by (simp_all add: view_def)
  assume "vinv (cancelled s) (view s h)"
  note a = vinv_arrived[OF this r]
  show "vinv (cancelled s) (view (pending_begin q status h s) h)"
  proof (cases "timeoutOccurred (hflags (view s h))")
    case True
    then have "in_timeouts (view s h) + lost (view s h) = 1" "in_waiting (view s h) = 0" using a(9) by simp_all
    then show ?thesis using a(1-8) True unfolding pending_begin_view f by (simp add: vinv_def owners_def)
  next
    case False
    then have "in_timeouts (view s h) = 0" "lost (view s h) = 0" "in_waiting (view s h) = 1" using a(9) by simp_all
    then show ?thesis using a(1-8) False unfolding pending_begin_view f by (simp add: vinv_def owners_def)
  qed
qed (use assms in \<open>simp_all add: pending_begin_view run_other ainv_def\<close>)

lemma pop_ainv:
  assumes "ainv X s" "running s = None" "replyQueue s = (h, status) # r"
  shows "ainv X (pending_begin None status h (s\<lparr>replyQueue := r\<rparr>))"
proof (rule ainv_step[OF assms(1), where h = h])
  have v: "view (s\<lparr>replyQueue := r\<rparr>) x = (if x = h then (view s h)\<lparr>in_queue := in_queue (view s h) - 1\<rparr> else view s x)" for x
    using assms(3) by (auto simp: view_def waiting_def)
  have q: "0 < in_queue (view s h)" using assms(3) by (simp add: view_def)
  have f: "flags (s\<lparr>replyQueue := r\<rparr>) h = hflags (view s h)" by (simp add: view_def)
  assume "vinv (cancelled s) (view s h)"
  note a = vinv_queued[OF this q]
  show "vinv (cancelled s) (view (pending_begin None status h (s\<lparr>replyQueue := r\<rparr>)) h)"
    unfolding pending_begin_view f v by (auto simp: a vinv_def owners_def new_flags_def)
next
  have v: "view (s\<lparr>replyQueue := r\<rparr>) x = (if x = h then (view s h)\<lparr>in_queue := in_queue (view s h) - 1\<rparr> else view s x)" for x
    using assms(3) by (auto simp: view_def waiting_def)
  fix h' assume "h' \<noteq> h"
  then show "view (pending_begin None status h (s\<lparr>replyQueue := r\<rparr>)) h' = view s h'"
    using assms(2) by (simp add: pending_begin_view v run_other)
qed (use assms in \<open>simp_all add: ainv_def\<close>)

lemma pending_end_view:
  "view (pending_end q b h s) x =
     (if x = h then (view s h)\<lparr>deleted := deleted (view s h) + (if hasToBeDeleted (flags s h) then 1 else 0),
        hflags := (flags s h)\<lparr>executionFinished := executionFinished (flags s h) \<or> (q \<noteq> None \<and> b)\<rparr>, run := None\<rparr>
      else (view s x)\<lparr>run := None\<rparr>)"
  by (cases q; cases b) (auto simp: pending_end_def view_simps Let_def)

lemma pending_end_frame [simp]:
  "cancelled (pending_end q b h s) = cancelled s" "timeoutMap (pending_end q b h s) = timeoutMap s"
  by (simp_all add: pending_end_def Let_def set_flags_def emit_def split: option.splits)

lemma callback_end_ainv:
  assumes "ainv X s" "running s = Some (h, q, Executing b)"
  shows "ainv X (pending_end q b h s)"
proof (rule ainv_step[OF assms(1), where h = h])
  have r: "run (view s h) = Some (q, Executing b)" and f: "flags s h = hflags (view s h)"
    using assms(2) by (simp_all add: view_def)
  assume "vinv (cancelled s) (view s h)"
  note a = vinv_executing[OF this r]
  show "vinv (cancelled s) (view (pending_end q b h s) h)"
  proof (cases "hasToBeDeleted (hflags (view s h))")
    case True
    then have "b" "in_waiting (view s h) = 0" "in_timeouts (view s h) = 0" "lost (view s h) = 0" using a(10) by simp_all
    then show ?thesis using a(1-7,9) True unfolding pending_end_view f by (simp add: vinv_def owners_def)
  next
    case False
    then show ?thesis using a unfolding pending_end_view f by (cases b) (simp_all add: vinv_def owners_def)
  qed
qed (use assms in \<open>simp_all add: pending_end_view run_other ainv_def\<close>)


end
