(* ===== verification/Async_Threads.thy ===== *)
theory Async_Threads
  imports Async_Correct
begin

text \<open>
  The steps of the enforcer thread and the remaining steps of the main loop keep the invariant
  of \<open>Async_Correct\<close>; what follows for the interleavings of its steps.
\<close>

lemma push_ainv:
  assumes "ainv X s" "view s h = fresh_view"
  shows "ainv X (pushDBusMessageReplyToMainLoop status h s)"
proof (rule ainv_step[OF assms(1), where h = h])
  have "view (pushDBusMessageReplyToMainLoop status h s) h =
      fresh_view\<lparr>in_queue := 1, hflags := new_flags\<lparr>hasToBeDeleted := True\<rparr>\<rparr>"
    using assms(2) by (simp add: pushDBusMessageReplyToMainLoop_def view_simps fresh_view_def Let_def)
  then show "vinv (cancelled s) (view (pushDBusMessageReplyToMainLoop status h s) h)"
    by (simp add: vinv_simps new_flags_def)
qed (use assms(1) in \<open>simp_all add: pushDBusMessageReplyToMainLoop_def view_simps ainv_def Let_def\<close>)

lemma answer_ainv:
  assumes "ainv X s" "running s = None" "mainloopTimeouts s = (h, status) # r"
  shows "ainv X (emit [Reply h status, Delete h] (s\<lparr>mainloopTimeouts := r\<rparr>))"
proof (rule ainv_step[OF assms(1), where h = h])
  let ?s = "emit [Reply h status, Delete h] (s\<lparr>mainloopTimeouts := r\<rparr>)"
  have "view ?s h = (view s h)\<lparr>in_timeouts := in_timeouts (view s h) - 1,
      replied := replied (view s h) + 1, deleted := deleted (view s h) + 1\<rparr>"
    using assms(3) by (simp add: view_simps)
  moreover have t: "0 < in_timeouts (view s h)" "run (view s h) = None"
    using assms(2,3) by (simp_all add: view_def)
  moreover assume "vinv (cancelled s) (view s h)"
  note vinv_timed[OF this t]
  ultimately show "vinv (cancelled s) (view ?s h)"
    by (simp add: vinv_def owners_def)
qed (use assms in \<open>simp_all add: view_simps ainv_def\<close>)

lemma delete_ainv:
  assumes "ainv X s" "asyncHandlersToDelete s = h # r"
  shows "ainv X (emit [Delete h] (s\<lparr>asyncHandlersToDelete := r\<rparr>))"
proof (rule ainv_step[OF assms(1), where h = h])
  let ?s = "emit [Delete h] (s\<lparr>asyncHandlersToDelete := r\<rparr>)"
  have "view ?s h = (view s h)\<lparr>in_delete := in_delete (view s h) - 1, deleted := deleted (view s h) + 1\<rparr>"
    using assms(2) by (simp add: view_simps)
  moreover have d: "0 < in_delete (view s h)" using assms(2) by (simp add: view_def)
  moreover assume "vinv (cancelled s) (view s h)"
  note vinv_todelete[OF this d]
  ultimately show "vinv (cancelled s) (view ?s h)"
    by (simp add: vinv_def owners_def)
qed (use assms in \<open>simp_all add: view_simps ainv_def\<close>)

lemma vinv_cancel: "vinv c w \<Longrightarrow> \<forall>q. run w \<noteq> Some (q, Arrived) \<Longrightarrow> vinv True w"
  unfolding vinv_def by (elim conjE, intro conjI) (assumption | blast)+

lemma cancel_ainv:
  assumes "ainv X s" "s' = overtake (s\<lparr>cancelled := True\<rparr>)"
  shows "ainv (X \<union> {h. Overtaken h \<in> set (events s')}) s'"
proof -
  have v: "view s' = view s" "cancelled s'" "timeoutMap s' = timeoutMap s"
    unfolding assms(2) overtake_def by (simp_all split: option.split prod.split phase.split) (simp_all add: emit_def)
  have "\<forall>q. run (view s h) \<noteq> Some (q, Arrived)" if "Overtaken h \<notin> set (events s')" for h
    using that unfolding assms(2) by (auto simp: view_def overtake_def emit_def split: option.splits)
  then show ?thesis
    using assms(1) vinv_cancel v unfolding ainv_def by auto
qed

lemma drop_ainv:
  assumes "ainv X s" "replyQueue s = (h, status) # r"
  shows "ainv X (dispatchDBusMessageReply False status h (s\<lparr>replyQueue := r\<rparr>))"
proof (rule ainv_step[OF assms(1), where h = h])
  let ?s = "dispatchDBusMessageReply False status h (s\<lparr>replyQueue := r\<rparr>)"
  have "view ?s h = (view s h)\<lparr>in_queue := in_queue (view s h) - 1, lost := lost (view s h) + 1\<rparr>"
    using assms(2) by (simp add: dispatchDBusMessageReply_def view_simps)
  moreover have q: "0 < in_queue (view s h)" using assms(2) by (simp add: view_def)
  moreover assume "vinv (cancelled s) (view s h)"
  note vinv_queued[OF this q]
  ultimately show "vinv (cancelled s) (view ?s h)"
    by (simp add: vinv_def owners_def new_flags_def)
qed (use assms in \<open>simp_all add: dispatchDBusMessageReply_def view_simps ainv_def\<close>)

section \<open>The enforcer thread\<close>

text \<open>An entry that leaves the timeout map: the handler loses the owner and gains another.\<close>

lemma erase_view:
  assumes "map_of (timeoutMap s) q = Some (t, h)" "distinct (map fst (timeoutMap s))"
  shows "view (s\<lparr>timeoutMap := al_erase q (timeoutMap s)\<rparr>) x =
     (if x = h then (view s h)\<lparr>in_waiting := in_waiting (view s h) - 1\<rparr> else view s x)"
  by (auto simp: view_def waiting_def occurs_erase[OF assms])

lemma collect_view:
  "view (collect_handler h s) x =
     (if x = h then (view s h)\<lparr>in_delete := in_delete (view s h) + 1\<rparr> else view s x)"
  by (auto simp: view_simps)

lemma collect_frame [simp]: "cancelled (collect_handler h s) = cancelled s" "timeoutMap (collect_handler h s) = timeoutMap s"
  by (simp_all add: collect_handler_def emit_def)

lemma vinv_collect:
  "vinv c v \<Longrightarrow> 0 < in_waiting v \<Longrightarrow> executionFinished (hflags v) \<Longrightarrow>
     vinv c (v\<lparr>in_waiting := in_waiting v - 1, in_delete := in_delete v + 1\<rparr>)"
proof -
  assume "vinv c v" "0 < in_waiting v" and e: "executionFinished (hflags v)"
  note w = vinv_waiting[OF this(1,2)]
  show ?thesis using w e by (simp add: vinv_def owners_def)
qed

lemma collect_erase_ainv:
  assumes "ainv X s" "map_of (timeoutMap s) q = Some (t, h)" "executionFinished (flags s h)"
  shows "ainv X (collect_handler h (s\<lparr>timeoutMap := al_erase q (timeoutMap s)\<rparr>))"
proof (rule ainv_step[OF assms(1), where h = h])
  have d: "distinct (map fst (timeoutMap s))" using assms(1) by (simp add: ainv_def)
  note v = collect_view erase_view[OF assms(2) d]
  have w: "0 < in_waiting (view s h)" "executionFinished (hflags (view s h))"
    using assms(2,3) by (auto intro: waiting_view timeout_waiting) (simp add: view_def)
  show "vinv (cancelled s) (view s h) \<Longrightarrow>
      vinv (cancelled s) (view (collect_handler h (s\<lparr>timeoutMap := al_erase q (timeoutMap s)\<rparr>)) h)"
    using vinv_collect[OF _ w] by (simp add: v)
  fix h' assume "h' \<noteq> h"
  then show "view (collect_handler h (s\<lparr>timeoutMap := al_erase q (timeoutMap s)\<rparr>)) h' = view s h'"
    by (simp add: v)
qed (use assms(1) in \<open>simp_all add: ainv_def\<close>)

lemma notified_ainv: "ainv X s \<Longrightarrow> ainv X (notified_entry q s)"
  unfolding notified_entry_def by (auto simp: collect_erase_ainv split: option.splits prod.splits)

lemma infinite_view:
  assumes "h \<in> set (infiniteHandlers s)"
  shows "view (s\<lparr>infiniteHandlers := remove1 h (infiniteHandlers s)\<rparr>) x =
     (if x = h then (view s h)\<lparr>in_waiting := in_waiting (view s h) - 1\<rparr> else view s x)"
  using assms by (auto simp: view_def waiting_def occurs_remove1 occurs_pos[symmetric])

lemma infinite_waiting: "h \<in> set (infiniteHandlers s) \<Longrightarrow> 0 < in_waiting (view s h)"
  by (rule waiting_view) (simp add: waiting_def)

lemma infinite_ainv:
  assumes "ainv X s"
  shows "ainv X (infinite_entry h s)"
proof (cases "h \<in> set (infiniteHandlers s) \<and> executionFinished (flags s h)")
  case True
  let ?s = "collect_handler h (s\<lparr>infiniteHandlers := remove1 h (infiniteHandlers s)\<rparr>)"
  have m: "h \<in> set (infiniteHandlers s)" using True ..
  have "ainv X ?s"
  proof (rule ainv_step[OF assms, where h = h])
    have w: "0 < in_waiting (view s h)" "executionFinished (hflags (view s h))"
      using True by (auto intro: infinite_waiting) (simp add: view_def)
    show "vinv (cancelled s) (view s h) \<Longrightarrow> vinv (cancelled s) (view ?s h)"
      using vinv_collect[OF _ w] by (simp add: collect_view infinite_view[OF m])
    fix h' assume "h' \<noteq> h"
    then show "view ?s h' = view s h'" by (simp add: collect_view infinite_view[OF m])
  qed (use assms in \<open>simp_all add: ainv_def\<close>)
  then show ?thesis using True by (simp add: infinite_entry_def)
qed (use assms in \<open>auto simp: infinite_entry_def\<close>)

text \<open>The branches of one iteration: postponed, timed out, finished, nothing to do.\<close>

lemma expire_none: "map_of (timeoutMap s) q = None \<Longrightarrow> expire_entry now ctx q s = s"
  by (simp add: expire_entry_def)

lemma expire_early:
  "map_of (timeoutMap s) q = Some (t, h) \<Longrightarrow> now \<le> t \<Longrightarrow> \<not> executionFinished (flags s h) \<Longrightarrow> expire_entry now ctx q s = s"
  by (simp add: expire_entry_def)

lemma expire_finished:
  "map_of (timeoutMap s) q = Some (t, h) \<Longrightarrow> executionFinished (flags s h) \<Longrightarrow>
     expire_entry now ctx q s = collect_handler h (s\<lparr>timeoutMap := al_erase q (timeoutMap s)\<rparr>)"
  by (simp add: expire_entry_def Let_def)

lemma expire_started:
  "map_of (timeoutMap s) q = Some (t, h) \<Longrightarrow> t < now \<Longrightarrow> executionStarted (flags s h) \<Longrightarrow>
     \<not> executionFinished (flags s h) \<Longrightarrow>
     expire_entry now ctx q s = s\<lparr>timeoutMap := al_put q (now + 100, h) (timeoutMap s)\<rparr>"
  by (simp add: expire_entry_def)

lemma expire_timeout:
  "map_of (timeoutMap s) q = Some (t, h) \<Longrightarrow> t < now \<Longrightarrow> \<not> executionStarted (flags s h) \<Longrightarrow>
     \<not> executionFinished (flags s h) \<Longrightarrow>
     expire_entry now ctx q s =
       s\<lparr>flags := (flags s)(h := (flags s h)\<lparr>timeoutOccurred := True\<rparr>),
         mainloopTimeouts := mainloopTimeouts s @ (if ctx then [(h, REMOTE_ERROR)] else []),
         timeoutMap := al_erase q (timeoutMap s),
         events := events s @ (if completed h s then [] else [Cancel q]) @ (if ctx then [Wakeup] else [Lost h]) @ [Unref q]\<rparr>"
  by (simp add: expire_entry_def Let_def set_flags_def emit_def)

lemmas expire_simps = expire_none expire_early expire_finished expire_started expire_timeout

lemma put_view:
  "map_of (timeoutMap s) q = Some (t, h) \<Longrightarrow> view (s\<lparr>timeoutMap := al_put q (t', h) (timeoutMap s)\<rparr>) x = view s x"
  by (simp add: view_def waiting_def map_put_same del: map_of_eq_Some_iff)

lemma timeout_view:
  assumes "map_of (timeoutMap s) q = Some (t, h)" "distinct (map fst (timeoutMap s))" "t < now"
    "\<not> executionStarted (flags s h)" "\<not> executionFinished (flags s h)"
  shows "view (expire_entry now ctx q s) x =
     (if x = h then (view s h)\<lparr>in_waiting := in_waiting (view s h) - 1,
        in_timeouts := in_timeouts (view s h) + (if ctx then 1 else 0), lost := lost (view s h) + (if ctx then 0 else 1),
        hflags := (flags s h)\<lparr>timeoutOccurred := True\<rparr>\<rparr> else view s x)"
  unfolding expire_timeout[OF assms(1,3-5)]
  by (auto simp: view_def waiting_def occurs_erase[OF assms(1,2)])

lemma vinv_timeout:
  "vinv c v \<Longrightarrow> 0 < in_waiting v \<Longrightarrow> \<not> executionStarted (hflags v) \<Longrightarrow>
     vinv c (v\<lparr>in_waiting := in_waiting v - 1, in_timeouts := in_timeouts v + (if ctx then 1 else 0),
       lost := lost v + (if ctx then 0 else 1), hflags := (hflags v)\<lparr>timeoutOccurred := True\<rparr>\<rparr>)"
proof -
  assume v: "vinv c v" "0 < in_waiting v" and n: "\<not> executionStarted (hflags v)"
  note w = vinv_waiting[OF v]
  show ?thesis
  proof (cases v rule: run_cases)
    case (arrived q)
    then show ?thesis using w n v(1) by (simp add: vinv_def owners_def)
  next
    case (executing q b)
    then show ?thesis using n vinv_executing(1)[OF v(1)] by simp
  next
    case idle
    then show ?thesis using w n by (simp add: vinv_def owners_def)
  qed
qed

lemma expire_ainv:
  assumes "ainv X s"
  shows "ainv X (expire_entry now ctx q s)"
proof (cases "map_of (timeoutMap s) q")
  case None
  then show ?thesis using assms by (simp add: expire_none)
next
  case (Some w)
  obtain t h where w: "map_of (timeoutMap s) q = Some (t, h)" using Some by (cases w) simp
  have d: "distinct (map fst (timeoutMap s))" using assms by (simp add: ainv_def)
  consider "executionFinished (flags s h)" | "now \<le> t" "\<not> executionFinished (flags s h)"
    | "t < now" "executionStarted (flags s h)" "\<not> executionFinished (flags s h)"
    | "t < now" "\<not> executionStarted (flags s h)" "\<not> executionFinished (flags s h)" by linarith
  then show ?thesis
  proof cases
    case 3
    then show ?thesis using assms w put_view[OF w] map_fst_put[OF w] by (simp add: expire_started ainv_def)
  next
    case 4
    note e = expire_timeout[OF w 4] and v = timeout_view[OF w d 4]
    have f: "flags s h = hflags (view s h)" by (simp add: view_def)
    have g: "0 < in_waiting (view s h)" "\<not> executionStarted (hflags (view s h))"
      using w 4 by (auto intro: waiting_view timeout_waiting) (simp add: view_def)
    show ?thesis
    proof (rule ainv_step[OF assms, where h = h])
      show "vinv (cancelled s) (view s h) \<Longrightarrow> vinv (cancelled s) (view (expire_entry now ctx q s) h)"
        using vinv_timeout[OF _ g] by (simp add: v f)
    qed (use v d in \<open>simp_all add: e\<close>)
  qed (use assms w in \<open>simp_all add: expire_simps collect_erase_ainv\<close>)
qed

section \<open>The end of the connection\<close>

lemma to_delete_view:
  "view (s\<lparr>asyncHandlersToDelete := asyncHandlersToDelete s @ [h]\<rparr>) x =
     (if x = h then (view s h)\<lparr>in_delete := in_delete (view s h) + 1\<rparr> else view s x)"
  by (auto simp: view_def waiting_def)

lemma flag_view:
  "view (set_flags h f s) x = (if x = h then (view s h)\<lparr>hflags := f (flags s h)\<rparr> else view s x)"
  by (auto simp: view_def waiting_def set_flags_def)

lemma set_flags_frame [simp]:
  "cancelled (set_flags h f s) = cancelled s" "timeoutMap (set_flags h f s) = timeoutMap s"
  "(set_flags h f s)\<lparr>timeoutMap := m\<rparr> = set_flags h f (s\<lparr>timeoutMap := m\<rparr>)"
  "(set_flags h f s)\<lparr>infiniteHandlers := hs\<rparr> = set_flags h f (s\<lparr>infiniteHandlers := hs\<rparr>)"
  by (simp_all add: set_flags_def)

text \<open>\<open>r\<close> is the connection without the handler: it is given to its callback or to deletion.\<close>

lemma vinv_handover:
  assumes "vinv True v" "0 < in_waiting v"
  shows "executionStarted (hflags v) \<and> \<not> executionFinished (hflags v) \<Longrightarrow>
      vinv True (v\<lparr>in_waiting := in_waiting v - 1, hflags := (hflags v)\<lparr>hasToBeDeleted := True\<rparr>\<rparr>)"
    and "\<not> (executionStarted (hflags v) \<and> \<not> executionFinished (hflags v)) \<Longrightarrow>
      vinv True (v\<lparr>in_waiting := in_waiting v - 1, in_delete := in_delete v + 1\<rparr>)"
proof -
  note w = vinv_waiting[OF assms]
  show "vinv True (v\<lparr>in_waiting := in_waiting v - 1, hflags := (hflags v)\<lparr>hasToBeDeleted := True\<rparr>\<rparr>)"
    if e: "executionStarted (hflags v) \<and> \<not> executionFinished (hflags v)"
  proof -
    obtain q where q: "run v = Some (Some q, Executing True)" using assms e unfolding vinv_def by auto
    then have "replied v = 1" using vinv_executing(7)[OF assms(1)] by simp
    then show ?thesis using w q e by (simp add: vinv_def owners_def) (metis (full_types))
  qed
  show "vinv True (v\<lparr>in_waiting := in_waiting v - 1, in_delete := in_delete v + 1\<rparr>)"
    if e: "\<not> (executionStarted (hflags v) \<and> \<not> executionFinished (hflags v))"
  proof -
    have "run v = None"
    proof (cases v rule: run_cases)
      case (arrived q)
      then show ?thesis using assms(1) unfolding vinv_def by simp
    next
      case (executing q b)
      then show ?thesis using vinv_executing(1,2)[OF assms(1)] e by simp
    qed
    then show ?thesis using w e by (cases "executionFinished (hflags v)") (simp_all add: vinv_def owners_def)
  qed
qed

lemma handover_ainv:
  assumes "ainv X s" "cancelled s" "0 < in_waiting (view s h)"
    and r: "\<And>x. view r x = (if x = h then (view s h)\<lparr>in_waiting := in_waiting (view s h) - 1\<rparr> else view s x)"
    and "cancelled r" "distinct (map fst (timeoutMap r))" "flags r h = flags s h"
  shows "executionStarted (flags s h) \<and> \<not> executionFinished (flags s h) \<Longrightarrow>
           ainv X (set_flags h (\<lambda>f. f\<lparr>hasToBeDeleted := True\<rparr>) r)"
    and "\<not> (executionStarted (flags s h) \<and> \<not> executionFinished (flags s h)) \<Longrightarrow>
           ainv X (r\<lparr>asyncHandlersToDelete := asyncHandlersToDelete r @ [h]\<rparr>)"
proof -
  have f: "flags s h = hflags (view s h)" by (simp add: view_def)
  show "ainv X (set_flags h (\<lambda>f. f\<lparr>hasToBeDeleted := True\<rparr>) r)"
    if "executionStarted (flags s h) \<and> \<not> executionFinished (flags s h)"
  proof (rule ainv_step[OF assms(1), where h = h])
    assume "vinv (cancelled s) (view s h)"
    then show "vinv (cancelled s) (view (set_flags h (\<lambda>f. f\<lparr>hasToBeDeleted := True\<rparr>) r) h)"
      using vinv_handover(1)[OF _ assms(3)] that assms(2,7) by (simp add: flag_view r f)
  qed (use assms in \<open>simp_all add: flag_view\<close>)
  show "ainv X (r\<lparr>asyncHandlersToDelete := asyncHandlersToDelete r @ [h]\<rparr>)"
    if "\<not> (executionStarted (flags s h) \<and> \<not> executionFinished (flags s h))"
  proof (rule ainv_step[OF assms(1), where h = h])
    assume "vinv (cancelled s) (view s h)"
    then show "vinv (cancelled s) (view (r\<lparr>asyncHandlersToDelete := asyncHandlersToDelete r @ [h]\<rparr>) h)"
      using vinv_handover(2)[OF _ assms(3)] that assms(2) by (simp add: to_delete_view r f)
  qed (use assms in \<open>simp_all add: to_delete_view\<close>)
qed

lemma shutdown_ainv:
  assumes "ainv X s" "cancelled s"
  shows "ainv X (shutdown_entry q s)"
proof (cases "map_of (timeoutMap s) q")
  case (Some w)
  obtain t h where w: "map_of (timeoutMap s) q = Some (t, h)" using Some by (cases w) simp
  have d: "distinct (map fst (timeoutMap s))" using assms by (simp add: ainv_def)
  have g: "0 < in_waiting (view s h)" by (rule waiting_view[OF timeout_waiting[OF w]])
  let ?r = "s\<lparr>timeoutMap := al_erase q (timeoutMap s)\<rparr>"
  have "ainv X (set_flags h (\<lambda>f. f\<lparr>hasToBeDeleted := True\<rparr>) ?r)"
    if "executionStarted (flags s h) \<and> \<not> executionFinished (flags s h)"
    using assms d that by (intro handover_ainv(1)[OF assms g erase_view[OF w d]]) auto
  moreover have "ainv X (?r\<lparr>asyncHandlersToDelete := asyncHandlersToDelete ?r @ [h]\<rparr>)"
    if "\<not> (executionStarted (flags s h) \<and> \<not> executionFinished (flags s h))"
    using assms d that by (intro handover_ainv(2)[OF assms g erase_view[OF w d]]) auto
  ultimately show ?thesis using w by (auto simp: shutdown_entry_def simp del: map_of_eq_Some_iff)
qed (use assms in \<open>simp add: shutdown_entry_def\<close>)

lemma shutdown_infinite_ainv:
  assumes "ainv X s" "cancelled s"
  shows "ainv X (shutdown_infinite h s)"
proof (cases "h \<in> set (infiniteHandlers s)")
  case True
  have d: "distinct (map fst (timeoutMap s))" using assms by (simp add: ainv_def)
  let ?r = "s\<lparr>infiniteHandlers := remove1 h (infiniteHandlers s)\<rparr>"
  note g = infinite_waiting[OF True] and v = infinite_view[OF True]
  have "ainv X (set_flags h (\<lambda>f. f\<lparr>hasToBeDeleted := True\<rparr>) ?r)"
    if "executionStarted (flags s h) \<and> \<not> executionFinished (flags s h)"
    using assms d that by (intro handover_ainv(1)[OF assms g v]) auto
  moreover have "ainv X (?r\<lparr>asyncHandlersToDelete := asyncHandlersToDelete ?r @ [h]\<rparr>)"
    if "\<not> (executionStarted (flags s h) \<and> \<not> executionFinished (flags s h))"
    using assms d that by (intro handover_ainv(2)[OF assms g v]) auto
  ultimately show ?thesis using True by (auto simp: shutdown_infinite_def)
qed (use assms in \<open>simp add: shutdown_infinite_def\<close>)

section \<open>Every interleaving\<close>

lemma new_ainv: "ainv X new_async"
  by (simp add: ainv_def new_async_def view_def waiting_def vinv_simps new_flags_def)

lemma astep_events: "astep s s' \<Longrightarrow> \<exists>es. events s' = events s @ es"
  by (induction rule: astep.induct)
    (auto simp: send_begin_def emit_def send_insert_def Let_def overtake_def pending_begin_def pending_end_def set_flags_def
      pushDBusMessageReplyToMainLoop_def dispatchDBusMessageReply_def expire_entry_def collect_handler_def notified_entry_def
      infinite_entry_def shutdown_entry_def shutdown_infinite_def split: option.splits prod.splits phase.splits bool.splits)

lemma areach_ainv: "areach s \<Longrightarrow> ainv {h. Overtaken h \<in> set (events s)} s"
proof (induction rule: areach.induct)
  case (step s s')
  let ?Y = "{h. Overtaken h \<in> set (events s)} \<union> {h. Overtaken h \<in> set (events s')}"
  obtain es where "events s' = events s @ es" using astep_events[OF step.hyps(2)] by auto
  then have Y: "?Y = {h. Overtaken h \<in> set (events s')}" by auto
  note i = ainv_mono[OF step.IH, of ?Y, OF Un_upper1]
  from step.hyps(2) have "ainv ?Y s'"
  proof (cases rule: astep.cases)
    case (complete h q)
    then show ?thesis using complete_ainv[OF step.IH complete(2,3,1)] by simp
  next
    case cancel
    then show ?thesis using cancel_ainv[OF step.IH] by simp
  qed (use i in \<open>auto intro: send_ainv insert_ainv callback_ainv callback_end_ainv push_ainv pop_ainv drop_ainv
         expire_ainv notified_ainv infinite_ainv answer_ainv delete_ainv shutdown_ainv shutdown_infinite_ainv\<close>)
  then show ?case unfolding Y .
qed (rule new_ainv)

text \<open>A call that is sent (handler 3, pending call 7), expires, and is answered by the main loop.\<close>

definition example_waiting :: async where
  "example_waiting = send_insert 7 (Some 10) 3 (snd (send_begin True True (Some 7) 3 new_async))"

definition example_expired :: async where
  "example_expired = expire_entry 20 True 7 example_waiting"

lemmas example_simps = example_waiting_def example_expired_def send_begin_def send_insert_def new_async_def
  expire_entry_def Let_def emit_def set_flags_def al_insert_def al_erase_def completed_def new_flags_def

lemma example_waiting_reachable: "areach example_waiting"
  unfolding example_waiting_def
proof (rule areach.step[OF areach.step[OF areach.start]])
  show "astep new_async (snd (send_begin True True (Some 7) 3 new_async))"
    by (rule astep.send) (simp add: view_def waiting_def fresh_view_def new_async_def)
  show "astep (snd (send_begin True True (Some 7) 3 new_async))
      (send_insert 7 (Some 10) 3 (snd (send_begin True True (Some 7) 3 new_async)))"
    by (rule astep.insert_call) (simp_all add: send_begin_def new_async_def)
qed

lemma example_answered_reachable:
  "areach (emit [Reply 3 REMOTE_ERROR, Delete 3] (example_expired\<lparr>mainloopTimeouts := []\<rparr>))"
proof (rule areach.step[OF areach.step[OF example_waiting_reachable]])
  show "astep example_waiting example_expired" unfolding example_expired_def by (rule astep.expire)
  show "astep example_expired (emit [Reply 3 REMOTE_ERROR, Delete 3] (example_expired\<lparr>mainloopTimeouts := []\<rparr>))"
    by (rule astep.answer) (simp_all add: example_simps)
qed

text \<open>A handler can be overtaken only by the cancellation of the connection.\<close>

lemma astep_cancelled: "astep s s' \<Longrightarrow> cancelled s \<Longrightarrow> cancelled s'"
  by (induction rule: astep.induct)
    (auto simp: send_begin_def emit_def send_insert_def Let_def overtake_def pending_begin_def pending_end_def set_flags_def
      pushDBusMessageReplyToMainLoop_def dispatchDBusMessageReply_def expire_entry_def collect_handler_def notified_entry_def
      infinite_entry_def shutdown_entry_def shutdown_infinite_def split: option.splits prod.splits phase.splits bool.splits)

lemma astep_overtaken: "astep s s' \<Longrightarrow> Overtaken h \<in> set (events s') \<Longrightarrow> Overtaken h \<in> set (events s) \<or> cancelled s'"
  by (induction rule: astep.induct)
    (auto simp: send_begin_def emit_def send_insert_def Let_def overtake_def pending_begin_def pending_end_def set_flags_def
      pushDBusMessageReplyToMainLoop_def dispatchDBusMessageReply_def expire_entry_def collect_handler_def notified_entry_def
      infinite_entry_def shutdown_entry_def shutdown_infinite_def split: option.splits prod.splits phase.splits bool.splits if_splits)

lemma overtaken_cancelled: "areach s \<Longrightarrow> Overtaken h \<in> set (events s) \<Longrightarrow> cancelled s"
proof (induction rule: areach.induct)
  case (step s s')
  then show ?case using astep_cancelled astep_overtaken by blast
qed (simp add: new_async_def)



text \<open>What the exception is for: the call of handler 3 completes, \<open>disconnect\<close> cancels the connection before the callback
  begins, the enforcer thread deletes the handler, and the main loop calls the deleted handler.\<close>

definition example_overtaken :: async where
  "example_overtaken = overtake (example_waiting\<lparr>running := Some (3, Some 7, Arrived), cancelled := True\<rparr>)"

lemma example_overtaken_reachable: "areach example_overtaken"
proof -
  let ?s = "overtake (example_waiting\<lparr>running := Some (3, Some 7, Arrived)\<rparr>)"
  have "astep example_waiting ?s"
    by (rule astep.complete) (simp_all add: example_simps waiting_def)
  from areach.step[OF areach.step[OF example_waiting_reachable this] astep.cancel]
  show ?thesis by (simp add: example_overtaken_def example_simps overtake_def)
qed

lemma overtaken_handler_used_after_delete:
  "\<exists>s. areach s \<and> events s = [Overtaken 3, Delete 3, Reply 3 SUCCESS]"
proof -
  let ?s = "shutdown_entry 7 example_overtaken"
  let ?d = "emit [Delete 3] (?s\<lparr>asyncHandlersToDelete := []\<rparr>)"
  let ?c = "pending_begin (Some 7) SUCCESS 3 ?d"
  note x = example_overtaken_def example_simps overtake_def shutdown_entry_def pending_begin_def
  have "areach ?s"
    by (rule areach.step[OF example_overtaken_reachable astep.shutdown]) (simp add: x)
  moreover have "astep ?s ?d" by (rule astep.delete) (simp add: x)
  moreover have "astep ?d ?c" by (rule astep.callback) (simp add: x)
  ultimately have "areach ?c" by (blast intro: areach.step)
  moreover have "events ?c = [Overtaken 3, Delete 3, Reply 3 SUCCESS]" by (simp add: x)
  ultimately show ?thesis by blast
qed

text \<open>No other handler disappears: a handler that was passed to the
  connection has exactly one owner (a waiting call, the timed-out calls, the reply queue, the list
  of handlers to delete or its own callback), or has been deleted, or its last pointer was dropped (\<open>Lost\<close>).\<close>

lemma handler_has_one_owner:
  assumes "areach s" "Overtaken h \<notin> set (events s)" "view s h \<noteq> fresh_view"
  shows "owners (view s h) + occurs (Delete h) (events s) = 1"
proof -
  have "vinv (cancelled s) (view s h)" using areach_ainv[OF assms(1)] assms(2) by (simp add: ainv_def)
  then have "owners (view s h) + deleted (view s h) = 1" using assms(3) by (simp add: vinv_def fresh_def)
  then show ?thesis by (simp add: view_def)
qed

lemma lost_handler_never_answered:
  assumes "areach s" "Overtaken h \<notin> set (events s)" "Lost h \<in> set (events s)"
  shows "filter (is_reply h) (events s) = [] \<and> Delete h \<notin> set (events s)"
proof -
  let ?v = "view s h"
  have l: "0 < lost ?v" using assms(3) by (simp add: view_def occurs_pos)
  then have "\<not> fresh ?v" by (auto simp: fresh_def fresh_view_def)
  then have "owners ?v + deleted ?v = 1" "replied ?v = 0"
    using areach_ainv[OF assms(1)] assms(2) l by (auto simp: ainv_def vinv_def)
  then have "deleted ?v = 0" "replied ?v = 0" using l by (simp_all add: owners_def)
  then show ?thesis by (simp add: view_def) (simp add: occurs_pos[symmetric])
qed

section \<open>The enforcer and the main loop together\<close>

lemma expire_flags [simp]:
  "executionStarted (flags (expire_entry now ctx q s) h) = executionStarted (flags s h)"
  "executionFinished (flags (expire_entry now ctx q s) h) = executionFinished (flags s h)"
  by (auto simp: expire_entry_def Let_def set_flags_def emit_def collect_handler_def split: option.splits prod.splits)

lemma expire_other:
  "k \<noteq> q \<Longrightarrow> map_of (timeoutMap (expire_entry now ctx q s)) k = map_of (timeoutMap s) k"
  by (auto simp: expire_entry_def Let_def set_flags_def emit_def collect_handler_def split: option.splits prod.splits)

lemma expire_timeouts_mono: "set (mainloopTimeouts s) \<subseteq> set (mainloopTimeouts (expire_entry now ctx q s))"
  by (auto simp: expire_entry_def Let_def set_flags_def emit_def collect_handler_def split: option.splits prod.splits)

lemma infinite_timeouts [simp]: "mainloopTimeouts (infinite_entry h s) = mainloopTimeouts s"
  by (simp add: infinite_entry_def collect_handler_def emit_def)

lemma fold_infinite_timeouts [simp]: "mainloopTimeouts (fold infinite_entry hs s) = mainloopTimeouts s"
  by (induction hs arbitrary: s) simp_all

lemma fold_expire_mono: "set (mainloopTimeouts s) \<subseteq> set (mainloopTimeouts (fold (expire_entry now ctx) qs s))"
proof (induction qs arbitrary: s)
  case (Cons q qs)
  then show ?case using expire_timeouts_mono by simp blast
qed simp

lemma fold_expire_timeout:
  assumes "map_of (timeoutMap s) q = Some (t, h)" "t < now" "\<not> executionStarted (flags s h)"
    "\<not> executionFinished (flags s h)" "q \<in> set qs"
  shows "(h, REMOTE_ERROR) \<in> set (mainloopTimeouts (fold (expire_entry now True) qs s))"
  using assms
proof (induction qs arbitrary: s)
  case (Cons k ks)
  show ?case
  proof (cases "k = q")
    case True
    have "(h, REMOTE_ERROR) \<in> set (mainloopTimeouts (expire_entry now True q s))"
      using Cons.prems by (simp add: expire_timeout)
    then show ?thesis using fold_expire_mono[of "expire_entry now True q s" now True ks] True by auto
  next
    case False
    then show ?thesis using Cons by (simp add: expire_other)
  qed
qed simp

text \<open>C27: A call that has expired and whose reply has not arrived is answered with
  \<open>REMOTE_ERROR\<close>, and its handler deleted, in the dispatch that follows the enforcer's run.\<close>

theorem expired_call_is_answered:
  assumes "map_of (timeoutMap s) q = Some (t, h)" "t < now"
    "\<not> executionStarted (flags s h)" "\<not> executionFinished (flags s h)"
  shows "{Reply h REMOTE_ERROR, Delete h} \<subseteq> set (events (answer_timeouts (enforce_timeout now True s)))"
proof -
  have "q \<in> set (map fst (timeoutMap s))" using map_of_SomeD[OF assms(1)] by force
  from fold_expire_timeout[OF assms this]
  show ?thesis by (force simp: enforce_timeout_def answer_timeouts_def emit_def Let_def)
qed

lemma expired_call_is_answered_witness:
  "{Reply 3 REMOTE_ERROR, Delete 3} \<subseteq> set (events (answer_timeouts (enforce_timeout 20 True example_waiting)))"
  by (rule expired_call_is_answered[where q = 7 and t = 10]) (simp_all add: example_simps)

text \<open>If the main loop is gone, an expired call is dropped: the map entry and the pending call
  are released, but nobody answers or deletes the handler.\<close>

lemma expired_handler_lost_without_context:
  assumes "areach s" "Overtaken h \<notin> set (events s)" "map_of (timeoutMap s) q = Some (t, h)" "t < now"
    "\<not> executionStarted (flags s h)" "\<not> executionFinished (flags s h)"
  shows "let s' = expire_entry now False q s in
     Lost h \<in> set (events s') \<and> h \<notin> set (waiting s') \<and> Delete h \<notin> set (events s') \<and> filter (is_reply h) (events s') = []"
proof -
  let ?s = "expire_entry now False q s"
  note x = expire_timeout[OF assms(3-6), of False]
  have l: "Lost h \<in> set (events ?s)" "Overtaken h \<notin> set (events ?s)" using assms(2) by (auto simp: x)
  have r: "areach ?s" using assms(1) by (blast intro: areach.step astep.expire)
  have "view ?s h \<noteq> fresh_view" using l(1) by (auto simp: view_def fresh_view_def occurs_pos[symmetric])
  then have "owners (view ?s h) \<le> 1" using handler_has_one_owner[OF r l(2)] by simp
  moreover have "0 < lost (view ?s h)" using l(1) by (simp add: view_def occurs_pos)
  ultimately have "in_waiting (view ?s h) = 0" by (simp add: owners_def)
  then have "h \<notin> set (waiting ?s)" by (simp add: view_def occurs_pos[symmetric])
  then show ?thesis using l(1) lost_handler_never_answered[OF r l(2,1)] by (simp add: Let_def)
qed

lemma expired_handler_lost_without_context_witness:
  "let s' = expire_entry 20 False 7 example_waiting in
     Lost 3 \<in> set (events s') \<and> 3 \<notin> set (waiting s') \<and> Delete 3 \<notin> set (events s') \<and> filter (is_reply 3) (events s') = []"
  by (rule expired_handler_lost_without_context[OF example_waiting_reachable, where t = 10]) (simp_all add: example_simps)

section \<open>Dispatching\<close>

text \<open>\<open>setDispatching\<close> is a flag and not a count: a dispatch within a dispatch (or on a second
  thread) is accepted, and its end clears the flag while the outer dispatch still runs; after that
  \<open>disconnect\<close> does not wait for the outer dispatch.\<close>

theorem inner_dispatch_clears_flag:
  assumes "isDispatching d" "\<not> isDisconnecting d"
  shows "case setDispatching inner True d of (accepted, d1) \<Rightarrow>
     accepted \<and> isDispatching d1 \<and> \<not> isDispatching (snd (setDispatching inner False d1))"
  using assms by (simp add: setDispatching_def Let_def)

lemma inner_dispatch_clears_flag_witness:
  "case setDispatching 2 True \<lparr>isDispatching = True, isDisconnecting = False,
       isWaitingOnFinishedDispatching = False, dispatchThreads = {1}, notified = 0\<rparr> of
     (accepted, d1) \<Rightarrow> accepted \<and> isDispatching d1 \<and> \<not> isDispatching (snd (setDispatching 2 False d1))"
  by (rule inner_dispatch_clears_flag) simp_all

text \<open>While the connection is being closed, no dispatch begins: a dispatch that asks for the
  flag is refused without touching libdbus, but timed-out calls are still answered; the running
  dispatch that ends wakes the waiting \<open>disconnect\<close> exactly once.\<close>

lemma dispatch_while_disconnecting:
  assumes "isDisconnecting d"
  shows "(isDispatching d \<or>
        singleDispatch t c lib (s, d) = (False, answer_timeouts s, d\<lparr>dispatchThreads := insert t (dispatchThreads d)\<rparr>)) \<and>
      (isDispatching d \<and> isWaitingOnFinishedDispatching d \<longrightarrow>
        setDispatching t False d = (True, d\<lparr>dispatchThreads := insert t (dispatchThreads d),
          notified := notified d + 1, isDispatching := False\<rparr>))"
  using assms by (simp add: singleDispatch_def setDispatching_def Let_def)

lemma dispatch_while_disconnecting_witness:
  "let d = \<lparr>isDispatching = True, isDisconnecting = True, isWaitingOnFinishedDispatching = True, dispatchThreads = {}, notified = 0\<rparr>
   in notified (snd (setDispatching 1 False d)) = 1 \<and>
      fst (singleDispatch 1 True (\<lambda>s. (True, s)) (new_async, d\<lparr>isDispatching := False\<rparr>)) = False"
  using dispatch_while_disconnecting[of "\<lparr>isDispatching = True, isDisconnecting = True,
      isWaitingOnFinishedDispatching = True, dispatchThreads = {}, notified = 0\<rparr>" 1 True "\<lambda>s. (True, s)" new_async]
    dispatch_while_disconnecting[of "\<lparr>isDispatching = False, isDisconnecting = True,
      isWaitingOnFinishedDispatching = True, dispatchThreads = {}, notified = 0\<rparr>" 1 True "\<lambda>s. (True, s)" new_async]
  by (simp add: Let_def)

end
