(* ===== verification/Main_Loop.thy ===== *)
theory Main_Loop
  imports Prelude "HOL-Library.Product_Lexorder"
begin

text \<open>
  The main loop (\<open>DBusMainLoop.cpp\<close>, the parts compiled on POSIX systems).

  The loop keeps dispatch sources, watches and timeouts in three multimaps from priorities to
  pointers, and in three sets the pointers to dispatch. The source has the same code for each
  of the three kinds; here a \<open>table\<close> holds the members of one kind, and \<open>tab\<close> selects it.
  A struct lives at an address of the \<open>heap\<close> of its table until it is freed, the object that it
  points to until it is \<open>destroyed\<close>. Every access goes through \<open>deref\<close> or \<open>alive\<close>, so using
  freed memory is the error \<open>UseAfterFree\<close>. An object is a number of its own: two objects of which the second is created
  at the address of the first after that is deleted are two numbers.
\<close>

datatype loop_error = UseAfterFree | BadIndex | OutOfFuel | Illegal

type_synonym 'a loop_result = "loop_error + 'a"

datatype kind = Source | Watch | Timeout

type_synonym addr = nat
type_synonym obj = nat
type_synonym prio = int

text \<open>
  \<open>DispatchSourceToDispatchStruct\<close>, \<open>WatchToDispatchStruct\<close> and \<open>TimeoutToDispatchStruct\<close>:
  only a watch uses \<open>watchFd\<close>, only a timeout \<open>timeoutElapsed\<close>.
\<close>

record dstruct =
  object :: obj
  isExecuted :: bool
  deleteObject :: bool
  timeoutElapsed :: bool
  watchFd :: int

record pollfd =
  fd :: int
  pevents :: nat
  revents :: nat

record table =
  registered :: "(prio \<times> addr) list"
  heap :: "addr \<Rightarrow> dstruct option"
  toDispatch :: "(prio \<times> addr) list"
  destroyed :: "obj set"

datatype levent = Registered kind obj | Unregistered kind obj | Dispatched kind obj

record main_loop =
  tab :: "kind \<Rightarrow> table"
  managedFileDescriptors :: "pollfd list"
  currentMinimalTimeoutInterval :: int
  wakeFd :: pollfd
  wakes :: nat
  hasToStop :: bool
  isBroken :: bool
  trace :: "levent list"

text \<open>What a callback may ask of the loop. The address of a new struct comes from the allocator.\<close>

datatype action =
    DoRegister kind addr obj prio pollfd
  | DoUnregister kind obj pollfd
  | DoStop
  | DoWakeup

text \<open>
  The environment of an iteration: the answers of the registered objects (\<open>prepare\<close>,
  \<open>getReadyTime\<close>, \<open>check\<close>), what their \<open>dispatch\<close> does (which may depend on everything that
  happened before) and returns, the clock before and after polling, and the system call
  \<open>poll\<close>: the \<open>revents\<close> of the descriptors and the number of ready ones.
\<close>

record env =
  prep :: "obj \<Rightarrow> bool \<times> int"
  readyTime :: "obj \<Rightarrow> int"
  chk :: "obj \<Rightarrow> bool"
  callback :: "kind \<Rightarrow> obj \<Rightarrow> levent list \<Rightarrow> action list \<times> bool"
  now_before :: int
  now_after :: int
  os_poll :: "pollfd list \<Rightarrow> int \<Rightarrow> nat list \<times> int"
  timeout_infinite :: int

section \<open>Access\<close>

definition deref :: "table \<Rightarrow> addr \<Rightarrow> dstruct loop_result" where
  "deref t a = (case heap t a of None \<Rightarrow> Inl UseAfterFree | Some st \<Rightarrow> Inr st)"

definition alive :: "table \<Rightarrow> obj \<Rightarrow> unit loop_result" where
  "alive t ob = (if ob \<in> destroyed t then Inl UseAfterFree else Inr ())"

definition upd_tab :: "kind \<Rightarrow> (table \<Rightarrow> table) \<Rightarrow> main_loop \<Rightarrow> main_loop" where
  "upd_tab k f l = l\<lparr>tab := (tab l)(k := f (tab l k))\<rparr>"

definition set_struct :: "addr \<Rightarrow> dstruct \<Rightarrow> table \<Rightarrow> table" where
  "set_struct a st t = t\<lparr>heap := (heap t)(a \<mapsto> st)\<rparr>"

definition log_event :: "levent \<Rightarrow> main_loop \<Rightarrow> main_loop" where
  "log_event ev l = l\<lparr>trace := trace l @ [ev]\<rparr>"

text \<open>\<open>std::set\<close> of pairs, in its order; \<open>std::multimap\<close> inserts behind the equal keys.\<close>

definition set_insert :: "'a::linorder \<Rightarrow> 'a list \<Rightarrow> 'a list" where
  "set_insert x xs = (if x \<in> set xs then xs else insort x xs)"

definition multimap_insert :: "prio \<Rightarrow> addr \<Rightarrow> (prio \<times> addr) list \<Rightarrow> (prio \<times> addr) list" where
  "multimap_insert p a m = takeWhile (\<lambda>e. fst e \<le> p) m @ (p, a) # dropWhile (\<lambda>e. fst e \<le> p) m"

definition mark_to_dispatch :: "prio \<times> addr \<Rightarrow> table \<Rightarrow> table" where
  "mark_to_dispatch e t = t\<lparr>toDispatch := set_insert e (toDispatch t)\<rparr>"

section \<open>Registration\<close>

definition wakeup :: "main_loop \<Rightarrow> main_loop" where
  "wakeup l = l\<lparr>wakes := wakes l + 1\<rparr>"

definition wakeupAck :: "main_loop \<Rightarrow> main_loop" where
  "wakeupAck l = l\<lparr>wakes := 0\<rparr>"

definition stop :: "main_loop \<Rightarrow> main_loop" where
  "stop l = wakeup (l\<lparr>hasToStop := True\<rparr>)"

definition registerFileDescriptor :: "pollfd \<Rightarrow> main_loop \<Rightarrow> main_loop" where
  "registerFileDescriptor f l = l\<lparr>managedFileDescriptors := managedFileDescriptors l @ [f]\<rparr>"

fun remove_fd :: "pollfd \<Rightarrow> pollfd list \<Rightarrow> pollfd list" where
  "remove_fd f [] = []"
| "remove_fd f (g # gs) = (if fd g = fd f \<and> pevents g = pevents f then gs else g # remove_fd f gs)"

definition unregisterFileDescriptor :: "pollfd \<Rightarrow> main_loop \<Rightarrow> main_loop" where
  "unregisterFileDescriptor f l0 =
     (let l = wakeup l0 in l\<lparr>managedFileDescriptors := remove_fd f (managedFileDescriptors l)\<rparr>)"

text \<open>The common part of \<open>registerDispatchSource\<close>, \<open>registerWatch\<close> and \<open>registerTimeout\<close>.\<close>

definition add_struct :: "addr \<Rightarrow> obj \<Rightarrow> prio \<Rightarrow> int \<Rightarrow> table \<Rightarrow> table" where
  "add_struct a ob p f t =
     t\<lparr>registered := multimap_insert p a (registered t),
       heap := (heap t)(a \<mapsto> \<lparr>object = ob, isExecuted = False, deleteObject = False, timeoutElapsed = False, watchFd = f\<rparr>)\<rparr>"

definition registerDispatchSource :: "addr \<Rightarrow> obj \<Rightarrow> prio \<Rightarrow> main_loop \<Rightarrow> main_loop" where
  "registerDispatchSource a ob p l = log_event (Registered Source ob) (upd_tab Source (add_struct a ob p 0) l)"

text \<open>A watch is asked for its descriptor (the answer is \<open>f\<close>); of a source and of a timeout only the pointer is stored.\<close>

definition registerWatch :: "addr \<Rightarrow> obj \<Rightarrow> prio \<Rightarrow> pollfd \<Rightarrow> main_loop \<Rightarrow> main_loop loop_result" where
  "registerWatch a ob p f l =
     ebind (alive (tab l Watch) ob) (\<lambda>_.
       Inr (log_event (Registered Watch ob) (upd_tab Watch (add_struct a ob p (fd f)) (registerFileDescriptor f l))))"

definition registerTimeout :: "addr \<Rightarrow> obj \<Rightarrow> prio \<Rightarrow> main_loop \<Rightarrow> main_loop" where
  "registerTimeout a ob p l = log_event (Registered Timeout ob) (upd_tab Timeout (add_struct a ob p 0) l)"

text \<open>The first struct of the object is marked for deletion.\<close>

fun mark_deleted :: "obj \<Rightarrow> (prio \<times> addr) list \<Rightarrow> table \<Rightarrow> table loop_result" where
  "mark_deleted ob [] t = Inr t"
| "mark_deleted ob ((p, a) # r) t =
     ebind (deref t a) (\<lambda>st. if object st = ob then Inr (set_struct a (st\<lparr>deleteObject := True\<rparr>) t)
                             else mark_deleted ob r t)"

definition unregister :: "kind \<Rightarrow> obj \<Rightarrow> main_loop \<Rightarrow> main_loop loop_result" where
  "unregister k ob l = ebind (mark_deleted ob (registered (tab l k)) (tab l k))
     (\<lambda>t. Inr (log_event (Unregistered k ob) (upd_tab k (\<lambda>_. t) l)))"

definition unregisterDispatchSource :: "obj \<Rightarrow> main_loop \<Rightarrow> main_loop loop_result" where
  "unregisterDispatchSource ob l = ebind (unregister Source ob l) (\<lambda>l'. Inr (l'\<lparr>isBroken := True\<rparr>))"

definition unregisterWatch :: "obj \<Rightarrow> pollfd \<Rightarrow> main_loop \<Rightarrow> main_loop loop_result" where
  "unregisterWatch ob f l = ebind (alive (tab l Watch) ob) (\<lambda>_. unregister Watch ob (unregisterFileDescriptor f l))"

definition unregisterTimeout :: "obj \<Rightarrow> main_loop \<Rightarrow> main_loop loop_result" where
  "unregisterTimeout ob l = unregister Timeout ob l"

text \<open>
  The operations check nothing, and neither does an action. The address of a new struct is the answer of \<open>operator new\<close>:
  an address that is in use is not such an answer (\<open>Illegal\<close>). What the clients of the loop have to respect
  is stated where it is needed (\<open>obeys\<close> in \<open>Main_Loop_Safe\<close>).
\<close>

fun do_action :: "action \<Rightarrow> main_loop \<Rightarrow> main_loop loop_result" where
  "do_action (DoRegister k a ob p f) l =
     (if heap (tab l k) a \<noteq> None then Inl Illegal
      else case k of Source \<Rightarrow> Inr (registerDispatchSource a ob p l) | Watch \<Rightarrow> registerWatch a ob p f l
                   | Timeout \<Rightarrow> Inr (registerTimeout a ob p l))"
| "do_action (DoUnregister k ob f) l =
     (case k of Source \<Rightarrow> unregisterDispatchSource ob l | Watch \<Rightarrow> unregisterWatch ob f l
      | Timeout \<Rightarrow> unregisterTimeout ob l)"
| "do_action DoStop l = Inr (stop l)"
| "do_action DoWakeup l = Inr (wakeup l)"

fun do_actions :: "action list \<Rightarrow> main_loop \<Rightarrow> main_loop loop_result" where
  "do_actions [] l = Inr l"
| "do_actions (x # xs) l = ebind (do_action x l) (do_actions xs)"

section \<open>Deletion of unregistered objects\<close>

fun contained :: "table \<Rightarrow> obj \<Rightarrow> (prio \<times> addr) list \<Rightarrow> bool loop_result" where
  "contained t ob [] = Inr False"
| "contained t ob ((p, a) # r) = ebind (deref t a) (\<lambda>st. if object st = ob then Inr True else contained t ob r)"

definition free_struct :: "addr \<Rightarrow> obj \<Rightarrow> table \<Rightarrow> table" where
  "free_struct a ob t = t\<lparr>heap := (heap t)(a := None), destroyed := insert ob (destroyed t)\<rparr>"

text \<open>
  The first loops of \<open>doSingleIteration\<close>. \<open>erase\<close> moves the iterator to the next element and the
  loop increments it once more, so the element behind an erased one is not looked at.
\<close>

fun collect_loop :: "(prio \<times> addr) list \<Rightarrow> table \<Rightarrow> ((prio \<times> addr) list \<times> table) loop_result" where
  "collect_loop [] t = Inr ([], t)"
| "collect_loop ((p, a) # r) t =
     ebind (deref t a) (\<lambda>st.
       ebind (if deleteObject st \<and> \<not> isExecuted st then contained t (object st) (toDispatch t) else Inr True) (\<lambda>keep.
         if keep then ebind (collect_loop r t) (\<lambda>(m, t'). Inr ((p, a) # m, t'))
         else (case r of
                 [] \<Rightarrow> Inr ([], free_struct a (object st) t)
               | y # ys \<Rightarrow> ebind (collect_loop ys (free_struct a (object st) t)) (\<lambda>(m, t'). Inr (y # m, t')))))"

definition collect :: "kind \<Rightarrow> main_loop \<Rightarrow> main_loop loop_result" where
  "collect k l = ebind (collect_loop (registered (tab l k)) (tab l k))
     (\<lambda>(m, t). Inr (upd_tab k (\<lambda>_. t\<lparr>registered := m\<rparr>) l))"

section \<open>prepare\<close>

fun prepare_sources :: "env \<Rightarrow> (prio \<times> addr) list \<Rightarrow> table \<times> int \<Rightarrow> (table \<times> int) loop_result" where
  "prepare_sources e [] ti = Inr ti"
| "prepare_sources e ((p, a) # r) (t, i) =
     ebind (deref t a) (\<lambda>st.
       if deleteObject st then prepare_sources e r (if timeout_infinite e > 0 \<and> timeout_infinite e < i then (t, timeout_infinite e) else (t, i))
       else ebind (alive t (object st)) (\<lambda>_.
         (case prep e (object st) of (ready, dispatchTimeout) \<Rightarrow>
            prepare_sources e r
              (if ready then (mark_to_dispatch (p, a) t, i)
               else if dispatchTimeout > 0 \<and> dispatchTimeout < i then (t, dispatchTimeout) else (t, i)))))"

text \<open>\<open>TIMEOUT_NONE\<close> is 0. After polling the interval is not changed (\<open>prepare_timeouts\<close> is both loops).\<close>

fun prepare_timeouts :: "env \<Rightarrow> int \<Rightarrow> (prio \<times> addr) list \<Rightarrow> table \<times> int \<Rightarrow> (table \<times> int) loop_result" where
  "prepare_timeouts e now [] ti = Inr ti"
| "prepare_timeouts e now ((p, a) # r) (t, i) =
     ebind (deref t a) (\<lambda>st.
       if deleteObject st \<or> timeoutElapsed st then prepare_timeouts e now r (t, i)
       else ebind (alive t (object st)) (\<lambda>_.
         (let intervalToReady = readyTime e (object st) - now
          in prepare_timeouts e now r
               (if intervalToReady \<le> 0
                then (mark_to_dispatch (p, a) (set_struct a (st\<lparr>timeoutElapsed := True\<rparr>) t), 0)
                else if intervalToReady < i then (t, intervalToReady) else (t, i)))))"

definition prepare :: "env \<Rightarrow> int \<Rightarrow> main_loop \<Rightarrow> (bool \<times> main_loop) loop_result" where
  "prepare e timeout l =
     ebind (prepare_sources e (registered (tab l Source)) (tab l Source, timeout)) (\<lambda>(ts, i).
       ebind (prepare_timeouts e (now_before e) (registered (tab l Timeout)) (tab l Timeout, i)) (\<lambda>(tt, i').
         Inr (toDispatch ts \<noteq> [] \<or> toDispatch tt \<noteq> [],
              (upd_tab Timeout (\<lambda>_. tt) (upd_tab Source (\<lambda>_. ts) l))\<lparr>currentMinimalTimeoutInterval := i'\<rparr>)))"

section \<open>poll and check\<close>

text \<open>The results are copied to every managed descriptor with the same number and events.\<close>

definition copy_revents :: "pollfd list \<Rightarrow> pollfd list \<Rightarrow> pollfd list" where
  "copy_revents fds managed =
     fold (\<lambda>f ms. map (\<lambda>g. if fd f = fd g \<and> pevents f = pevents g then g\<lparr>revents := revents f\<rparr> else g) ms) fds managed"

text \<open>The interval is converted to an \<open>int\<close> of 32 bits for the system call.\<close>

definition poll :: "env \<Rightarrow> main_loop \<Rightarrow> main_loop loop_result" where
  "poll e l =
     (let managed = map (revents_update (\<lambda>_. 0)) (managedFileDescriptors l);
          (rs, ready) = os_poll e managed (signed_take_bit 31 (currentMinimalTimeoutInterval l));
          fds = map2 (\<lambda>f r. f\<lparr>revents := r\<rparr>) managed rs;
          l1 = l\<lparr>managedFileDescriptors := copy_revents fds managed\<rparr>
      in ebind (if ready = 0
                then prepare_timeouts e (now_after e) (registered (tab l1 Timeout)) (tab l1 Timeout, 0)
                else Inr (tab l1 Timeout, 0)) (\<lambda>(tt, _).
           (let l2 = upd_tab Timeout (\<lambda>_. tt) l1
            in case managedFileDescriptors l2 of
                 [] \<Rightarrow> Inl BadIndex
               | f # _ \<Rightarrow> Inr (if revents f \<noteq> 0 then wakeupAck l2 else l2))))"

fun check_watches :: "pollfd \<Rightarrow> (prio \<times> addr) list \<Rightarrow> table \<Rightarrow> table loop_result" where
  "check_watches f [] t = Inr t"
| "check_watches f ((p, a) # r) t =
     ebind (deref t a) (\<lambda>st.
       check_watches f r (if \<not> deleteObject st \<and> watchFd st = fd f \<and> revents f \<noteq> 0 then mark_to_dispatch (p, a) t else t))"

fun check_fds :: "pollfd list \<Rightarrow> table \<Rightarrow> table loop_result" where
  "check_fds [] t = Inr t"
| "check_fds (f # fs) t = ebind (check_watches f (registered t) t) (check_fds fs)"

fun check_sources :: "env \<Rightarrow> (prio \<times> addr) list \<Rightarrow> table \<Rightarrow> table loop_result" where
  "check_sources e [] t = Inr t"
| "check_sources e ((p, a) # r) t =
     ebind (deref t a) (\<lambda>st.
       if deleteObject st then check_sources e r t
       else ebind (alive t (object st)) (\<lambda>_.
         check_sources e r (if chk e (object st) then mark_to_dispatch (p, a) t else t)))"

definition check_ready :: "env \<Rightarrow> main_loop \<Rightarrow> (bool \<times> main_loop) loop_result" where
  "check_ready e l =
     ebind (check_fds (drop 1 (managedFileDescriptors l)) (tab l Watch)) (\<lambda>tw.
       ebind (check_sources e (registered (tab l Source)) (tab l Source)) (\<lambda>ts.
         Inr (toDispatch (tab l Timeout) \<noteq> [] \<or> toDispatch tw \<noteq> [] \<or> toDispatch ts \<noteq> [],
              upd_tab Source (\<lambda>_. ts) (upd_tab Watch (\<lambda>_. tw) l))))"

section \<open>dispatch\<close>

definition set_executed :: "kind \<Rightarrow> addr \<Rightarrow> bool \<Rightarrow> main_loop \<Rightarrow> main_loop loop_result" where
  "set_executed k a b l =
     ebind (deref (tab l k) a) (\<lambda>st. Inr (upd_tab k (set_struct a (st\<lparr>isExecuted := b\<rparr>)) l))"

text \<open>The call of \<open>dispatch\<close> of an object: its actions, and its result.\<close>

definition call_dispatch :: "env \<Rightarrow> kind \<Rightarrow> addr \<Rightarrow> main_loop \<Rightarrow> (bool \<times> main_loop) loop_result" where
  "call_dispatch e k a l =
     ebind (deref (tab l k) a) (\<lambda>st.
       ebind (alive (tab l k) (object st)) (\<lambda>_.
         (case callback e k (object st) (trace l) of (acts, again) \<Rightarrow>
            ebind (do_actions acts (log_event (Dispatched k (object st)) l)) (\<lambda>l'. Inr (again, l')))))"

text \<open>The loops over the timeouts and the watches.\<close>

fun dispatch_once :: "env \<Rightarrow> kind \<Rightarrow> (prio \<times> addr) list \<Rightarrow> main_loop \<Rightarrow> main_loop loop_result" where
  "dispatch_once e k [] l = Inr l"
| "dispatch_once e k ((p, a) # r) l =
     ebind (deref (tab l k) a) (\<lambda>st.
       if deleteObject st then dispatch_once e k r l
       else ebind (set_executed k a True l) (\<lambda>l1.
         ebind (call_dispatch e k a l1) (\<lambda>(_, l2).
           ebind (set_executed k a False l2) (dispatch_once e k r))))"

text \<open>The inner loop over a source; it ends when the source has no more data or is unregistered.\<close>

fun drain_source :: "nat \<Rightarrow> env \<Rightarrow> addr \<Rightarrow> main_loop \<Rightarrow> main_loop loop_result" where
  "drain_source 0 e a l = Inl OutOfFuel"
| "drain_source (Suc n) e a l =
     ebind (deref (tab l Source) a) (\<lambda>st.
       if deleteObject st then Inr l
       else ebind (call_dispatch e Source a l) (\<lambda>(again, l'). if again then drain_source n e a l' else Inr l'))"

fun dispatch_sources :: "nat \<Rightarrow> env \<Rightarrow> (prio \<times> addr) list \<Rightarrow> main_loop \<Rightarrow> main_loop loop_result" where
  "dispatch_sources n e [] l = Inr l"
| "dispatch_sources n e ((p, a) # r) l =
     (if isBroken l then Inr l
      else ebind (deref (tab l Source) a) (\<lambda>st.
        if deleteObject st then dispatch_sources n e r l
        else ebind (set_executed Source a True l) (\<lambda>l1.
          ebind (drain_source n e a l1) (\<lambda>l2.
            ebind (set_executed Source a False l2) (dispatch_sources n e r)))))"

definition clear_dispatch :: "kind \<Rightarrow> main_loop \<Rightarrow> main_loop" where
  "clear_dispatch k = upd_tab k (\<lambda>t. t\<lparr>toDispatch := []\<rparr>)"

definition dispatch_kind :: "env \<Rightarrow> kind \<Rightarrow> main_loop \<Rightarrow> main_loop loop_result" where
  "dispatch_kind e k l = ebind (dispatch_once e k (toDispatch (tab l k)) l) (\<lambda>l'. Inr (clear_dispatch k l'))"

definition dispatch :: "nat \<Rightarrow> env \<Rightarrow> main_loop \<Rightarrow> main_loop loop_result" where
  "dispatch n e l =
     ebind (dispatch_kind e Timeout l) (\<lambda>l1.
       ebind (dispatch_kind e Watch l1) (\<lambda>l2.
         if toDispatch (tab l2 Source) = [] then Inr l2
         else ebind (dispatch_sources n e (toDispatch (tab l2 Source)) (l2\<lparr>isBroken := False\<rparr>))
                (\<lambda>l3. Inr (clear_dispatch Source l3))))"

section \<open>The loop\<close>

definition doSingleIteration :: "nat \<Rightarrow> env \<Rightarrow> int \<Rightarrow> main_loop \<Rightarrow> main_loop loop_result" where
  "doSingleIteration n e timeout l =
     ebind (collect Source l) (\<lambda>l1.
       ebind (collect Watch l1) (\<lambda>l2.
         ebind (collect Timeout l2) (\<lambda>l3.
           ebind (prepare e timeout l3) (\<lambda>(ready, l4).
             if ready then dispatch n e l4
             else ebind (poll e l4) (\<lambda>l5.
               ebind (check_ready e l5) (\<lambda>(ready', l6). if ready' then dispatch n e l6 else Inr l6))))))"

text \<open>\<open>run\<close> with the environments of the iterations it gets to.\<close>

fun run_loop :: "nat \<Rightarrow> int \<Rightarrow> env list \<Rightarrow> main_loop \<Rightarrow> main_loop loop_result" where
  "run_loop n timeout [] l = Inr l"
| "run_loop n timeout (e # es) l =
     (if hasToStop l then Inr l else ebind (doSingleIteration n e timeout l) (run_loop n timeout es))"

definition empty_table :: table where
  "empty_table = \<lparr>registered = [], heap = (\<lambda>_. None), toDispatch = [], destroyed = {}\<rparr>"

definition new_main_loop :: "pollfd \<Rightarrow> int \<Rightarrow> main_loop" where
  "new_main_loop w forever = registerFileDescriptor w
     \<lparr>tab = (\<lambda>_. empty_table), managedFileDescriptors = [], currentMinimalTimeoutInterval = forever, wakeFd = w,
      wakes = 0, hasToStop = False, isBroken = False, trace = []\<rparr>"

fun cleanup_table :: "(prio \<times> addr) list \<Rightarrow> table \<Rightarrow> table loop_result" where
  "cleanup_table [] t = Inr (t\<lparr>registered := []\<rparr>)"
| "cleanup_table ((p, a) # r) t = ebind (deref t a) (\<lambda>st. cleanup_table r (free_struct a (object st) t))"

definition cleanup :: "main_loop \<Rightarrow> main_loop loop_result" where
  "cleanup l =
     ebind (cleanup_table (registered (tab l Source)) (tab l Source)) (\<lambda>ts.
       ebind (cleanup_table (registered (tab l Timeout)) (tab l Timeout)) (\<lambda>tt.
         ebind (cleanup_table (registered (tab l Watch)) (tab l Watch)) (\<lambda>tw.
           Inr (upd_tab Watch (\<lambda>_. tw) (upd_tab Timeout (\<lambda>_. tt) (upd_tab Source (\<lambda>_. ts) l))))))"

end
