(* ===== verification/Main_Loop_Correct.thy ===== *)
theory Main_Loop_Correct
  imports Main_Loop
begin

text \<open>
  The main loop never touches a struct or an object that it has freed, if every object is
  registered and unregistered at most once; an object is dispatched only between its registration and its
  unregistration; a timeout fires once. \<open>safe P r\<close> says that \<open>r\<close> is not a memory error and that
  a result satisfies \<open>P\<close>; the lemmas on it follow the structure of the code.
\<close>

section \<open>Results without memory errors\<close>

definition safe :: "('a \<Rightarrow> bool) \<Rightarrow> 'a loop_result \<Rightarrow> bool" where
  "safe P r = (case r of Inl err \<Rightarrow> err \<noteq> UseAfterFree \<and> err \<noteq> BadIndex | Inr x \<Rightarrow> P x)"

lemma safe_simps [simp]: "safe P (Inr x) = P x" "safe P (Inl Illegal)" "safe P (Inl OutOfFuel)"
  by (simp_all add: safe_def)

lemma safe_bind: "safe Q r \<Longrightarrow> (\<And>x. Q x \<Longrightarrow> safe P (f x)) \<Longrightarrow> safe P (ebind r f)"
  by (cases r) (auto simp: safe_def)

lemma safe_mono: "safe Q r \<Longrightarrow> (\<And>x. Q x \<Longrightarrow> P x) \<Longrightarrow> safe P r"
  by (auto simp: safe_def split: sum.splits)

section \<open>Tables\<close>

text \<open>
  \<open>wtl L t\<close>: the entries \<open>L\<close> are exactly the allocated structs, each with an object of its own
  that is not destroyed, and only entries of \<open>L\<close> are to be dispatched.
\<close>

definition wtl :: "(prio \<times> addr) list \<Rightarrow> table \<Rightarrow> bool" where
  "wtl L t \<longleftrightarrow> distinct (map snd L) \<and> (\<forall>a. heap t a \<noteq> None \<longleftrightarrow> a \<in> snd ` set L)
     \<and> set (toDispatch t) \<subseteq> set L \<and> distinct (toDispatch t)
     \<and> (\<forall>a b sa sb. heap t a = Some sa \<longrightarrow> heap t b = Some sb \<longrightarrow> object sa = object sb \<longrightarrow> a = b)
     \<and> (\<forall>a st. heap t a = Some st \<longrightarrow> object st \<notin> destroyed t)"

abbreviation wt :: "table \<Rightarrow> bool" where
  "wt t \<equiv> wtl (registered t) t"

lemma wtl_deref: "wtl L t \<Longrightarrow> (p, a) \<in> set L \<Longrightarrow> \<exists>st. heap t a = Some st"
  unfolding wtl_def by force

lemma safe_deref: "heap t a = Some st \<Longrightarrow> deref t a = Inr st"
  by (simp add: deref_def)

lemma wtl_alive: "wtl L t \<Longrightarrow> heap t a = Some st \<Longrightarrow> alive t (object st) = Inr ()"
  unfolding wtl_def by (simp add: alive_def)

lemma wtl_set_struct:
  assumes "wtl L t" "heap t a = Some st" "object st' = object st"
  shows "wtl L (set_struct a st' t)"
  using assms unfolding wtl_def set_struct_def by (auto split: if_splits)

lemma set_set_insert [simp]: "set (set_insert x xs) = insert x (set xs)"
  by (auto simp: set_insert_def set_insort_key)

lemma distinct_set_insert [simp]: "distinct (set_insert x xs) = distinct xs"
  by (simp add: set_insert_def distinct_insort)

lemma wtl_mark: "wtl L t \<Longrightarrow> e \<in> set L \<Longrightarrow> wtl L (mark_to_dispatch e t)"
  unfolding wtl_def mark_to_dispatch_def by auto

lemma set_multimap_insert: "set (multimap_insert p a m) = insert (p, a) (set m)"
  using set_append[of "takeWhile (\<lambda>e. fst e \<le> p) m" "dropWhile (\<lambda>e. fst e \<le> p) m"]
  by (auto simp: multimap_insert_def)

lemma distinct_multimap_insert:
  "distinct (map snd m) \<Longrightarrow> a \<notin> snd ` set m \<Longrightarrow> distinct (map snd (multimap_insert p a m))"
proof -
  assume d: "distinct (map snd m)" "a \<notin> snd ` set m"
  let ?x = "takeWhile (\<lambda>e. fst e \<le> p) m" and ?y = "dropWhile (\<lambda>e. fst e \<le> p) m"
  have m: "map snd m = map snd ?x @ map snd ?y" by (metis map_append takeWhile_dropWhile_id)
  then have "snd ` set m = snd ` set ?x \<union> snd ` set ?y" by (metis list.set_map set_append)
  then show ?thesis using d m by (simp add: multimap_insert_def)
qed

lemma wt_add:
  assumes "wt t" "heap t a = None" "\<And>b sb. heap t b = Some sb \<Longrightarrow> object sb \<noteq> ob" "ob \<notin> destroyed t"
  shows "wt (add_struct a ob p f t)"
proof -
  have "a \<notin> snd ` set (registered t)" using assms(1,2) unfolding wtl_def by blast
  then show ?thesis
    using assms unfolding wtl_def add_struct_def
    by (auto simp: set_multimap_insert distinct_multimap_insert split: if_splits)
qed

text \<open>Freeing an unregistered object that is not to be dispatched.\<close>

lemma safe_contained:
  "wtl L t \<Longrightarrow> set r \<subseteq> set L \<Longrightarrow>
     safe (\<lambda>b. b \<longleftrightarrow> (\<exists>(p, a) \<in> set r. \<exists>st. heap t a = Some st \<and> object st = ob)) (contained t ob r)"
proof (induction r)
  case (Cons x r)
  obtain p a where x: "x = (p, a)" by (cases x)
  obtain st where st: "heap t a = Some st" using wtl_deref[OF Cons.prems(1), of p a] Cons.prems(2) x by auto
  show ?case
    using Cons.IH[OF Cons.prems(1)] Cons.prems(2) by (auto simp: x safe_deref[OF st] st elim: safe_mono)
qed simp

lemma wtl_free:
  assumes "wtl (K @ (p, a) # r) t" "heap t a = Some st"
    and "\<not> (\<exists>(p, b) \<in> set (toDispatch t). \<exists>sb. heap t b = Some sb \<and> object sb = object st)"
  shows "wtl (K @ r) (free_struct a (object st) t)"
proof -
  have d: "distinct (map snd (K @ (p, a) # r))" "set (toDispatch t) \<subseteq> set (K @ (p, a) # r)"
    and h: "\<And>b. heap t b \<noteq> None \<longleftrightarrow> b \<in> snd ` set (K @ (p, a) # r)"
    and o: "\<And>b sb. heap t b = Some sb \<Longrightarrow> object sb = object st \<Longrightarrow> b = a"
    using assms(1,2) unfolding wtl_def by auto
  have n: "(p, a) \<notin> set (toDispatch t)" using assms(2,3) by auto
  have f: "a \<notin> snd ` set (K @ r)" using d(1) by auto
  have "((heap t)(a := None)) b \<noteq> None \<longleftrightarrow> b \<in> snd ` set (K @ r)" for b
    using h[of b] f by (cases "b = a") auto
  moreover have "set (toDispatch t) \<subseteq> set (K @ r)" using d(2) n by auto
  moreover have "distinct (map snd (K @ r))" using d(1) by auto
  ultimately show ?thesis
    using assms(1) o unfolding wtl_def free_struct_def by (auto split: if_splits)
qed

text \<open>\<open>collect_loop\<close> only frees: what is allocated afterwards was allocated before and is unchanged, and only
  objects of marked structs are destroyed.\<close>

definition shrinks :: "table \<Rightarrow> table \<Rightarrow> bool" where
  "shrinks t t' \<longleftrightarrow> (\<forall>a st. heap t' a = Some st \<longrightarrow> heap t a = Some st) \<and> toDispatch t' = toDispatch t
     \<and> registered t' = registered t
     \<and> (\<forall>ob \<in> destroyed t'. ob \<in> destroyed t \<or> (\<exists>a st. heap t a = Some st \<and> object st = ob \<and> deleteObject st))"

lemma shrinks_refl [simp]: "shrinks t t"
  by (simp add: shrinks_def)

lemma shrinks_free:
  assumes "shrinks (free_struct a (object st) t) t'" "heap t a = Some st" "deleteObject st"
  shows "shrinks t t'"
proof -
  have h: "heap t b = Some sb" if "heap (free_struct a (object st) t) b = Some sb" for b sb
    using that by (simp add: free_struct_def split: if_splits)
  have "ob \<in> destroyed t \<or> (\<exists>a st. heap t a = Some st \<and> object st = ob \<and> deleteObject st)" if ob: "ob \<in> destroyed t'" for ob
  proof -
    consider "ob \<in> destroyed (free_struct a (object st) t)"
      | b sb where "heap (free_struct a (object st) t) b = Some sb" "object sb = ob" "deleteObject sb"
      using assms(1) ob unfolding shrinks_def by blast
    then show ?thesis
    proof cases
      case 1
      then show ?thesis using assms(2,3) by (auto simp: free_struct_def)
    next
      case 2
      then show ?thesis using h by blast
    qed
  qed
  moreover have "toDispatch t' = toDispatch t" "registered t' = registered t"
    using assms(1) by (simp_all add: shrinks_def free_struct_def)
  moreover have "heap t b = Some sb" if "heap t' b = Some sb" for b sb
    using assms(1) h that unfolding shrinks_def by blast
  ultimately show ?thesis unfolding shrinks_def by blast
qed

lemma safe_collect_loop:
  "wtl (K @ r) t \<Longrightarrow> safe (\<lambda>(m, t'). wtl (K @ m) t' \<and> shrinks t t') (collect_loop r t)"
proof (induction r t arbitrary: K rule: collect_loop.induct)
  case (2 p a r t)
  obtain st where st: "heap t a = Some st" using wtl_deref[OF 2(3), of p a] by auto
  note d = safe_deref[OF st]
  have keep: "safe (\<lambda>(m, t'). wtl (K @ m) t' \<and> shrinks t t') (ebind (collect_loop r t) (\<lambda>(m, t'). Inr ((p, a) # m, t')))"
    if "deleteObject st \<and> \<not> isExecuted st \<Longrightarrow> contained t (object st) (toDispatch t) = Inr True"
  proof (rule safe_bind)
    show "safe (\<lambda>(m, t'). wtl (K @ (p, a) # m) t' \<and> shrinks t t') (collect_loop r t)"
      using 2(1)[where K = "K @ [(p, a)]"] that 2(3) by (cases "deleteObject st \<and> \<not> isExecuted st") auto
  qed auto
  show ?case
  proof (cases "deleteObject st \<and> \<not> isExecuted st")
    case False
    then show ?thesis using keep by (auto simp: d)
  next
    case True
    have sub: "set (toDispatch t) \<subseteq> set (K @ (p, a) # r)" using 2(3) unfolding wtl_def by blast
    note c = safe_contained[OF 2(3) sub, of "object st"]
    show ?thesis
    proof (cases "contained t (object st) (toDispatch t)")
      case (Inl err)
      then show ?thesis using c True by (simp add: d safe_def)
    next
      case (Inr b)
      show ?thesis
      proof (cases b)
        case b: True
        then show ?thesis using keep Inr True by (simp add: d)
      next
        case b: False
        have n: "\<not> (\<exists>(p, b) \<in> set (toDispatch t). \<exists>sb. heap t b = Some sb \<and> object sb = object st)"
          using c Inr b by (simp add: safe_def)
        note w = wtl_free[OF 2(3) st n]
        show ?thesis
        proof (cases r)
          case Nil
          then show ?thesis using Inr True b w by (simp add: d shrinks_free[OF shrinks_refl st])
        next
          case (Cons y ys)
          have "safe (\<lambda>(m, t'). wtl (K @ y # m) t' \<and> shrinks t t') (collect_loop ys (free_struct a (object st) t))"
          proof (rule safe_mono)
            show "safe (\<lambda>(m, t'). wtl ((K @ [y]) @ m) t' \<and> shrinks (free_struct a (object st) t) t')
                (collect_loop ys (free_struct a (object st) t))"
              using w Cons b by (intro 2(2)[of b]) auto
          qed (use True in \<open>auto intro: shrinks_free[OF _ st]\<close>)
          then have "safe (\<lambda>(m, t'). wtl (K @ m) t' \<and> shrinks t t')
              (ebind (collect_loop ys (free_struct a (object st) t)) (\<lambda>(m, t'). Inr (y # m, t')))"
            by (rule safe_bind) auto
          then show ?thesis using Inr True b Cons by (simp add: d)
        qed
      qed
    qed
  qed
qed simp


section \<open>The invariant of the loop\<close>

text \<open>The history: is the object registered, and how often has a timeout fired since then.\<close>

fun live_step :: "kind \<Rightarrow> obj \<Rightarrow> levent \<Rightarrow> bool \<Rightarrow> bool" where
  "live_step k ob (Registered k' ob') b = (k' = k \<and> ob' = ob \<or> b)"
| "live_step k ob (Unregistered k' ob') b = (\<not> (k' = k \<and> ob' = ob) \<and> b)"
| "live_step k ob (Dispatched k' ob') b = b"

definition live :: "kind \<Rightarrow> obj \<Rightarrow> levent list \<Rightarrow> bool" where
  "live k ob tr = fold (live_step k ob) tr False"

fun fires_step :: "obj \<Rightarrow> levent \<Rightarrow> nat \<Rightarrow> nat" where
  "fires_step ob (Registered k' ob') n = (if k' = Timeout \<and> ob' = ob then 0 else n)"
| "fires_step ob (Unregistered k' ob') n = n"
| "fires_step ob (Dispatched k' ob') n = (if k' = Timeout \<and> ob' = ob then n + 1 else n)"

definition fires :: "obj \<Rightarrow> levent list \<Rightarrow> nat" where
  "fires ob tr = fold (fires_step ob) tr 0"

lemma live_append [simp]: "live k ob (tr @ [ev]) = live_step k ob ev (live k ob tr)"
  and fires_append [simp]: "fires ob (tr @ [ev]) = fires_step ob ev (fires ob tr)"
  by (simp_all add: live_def fires_def)

text \<open>Every dispatch was of a registered object, and of a timeout that had not fired; no object was registered twice.\<close>

definition proper :: "levent list \<Rightarrow> bool" where
  "proper tr \<longleftrightarrow> (\<forall>i k ob. i < length tr \<longrightarrow> tr ! i = Dispatched k ob \<longrightarrow>
     live k ob (take i tr) \<and> (k = Timeout \<longrightarrow> fires ob (take i tr) = 0))
   \<and> (\<forall>i k ob. i < length tr \<longrightarrow> tr ! i = Registered k ob \<longrightarrow> Registered k ob \<notin> set (take i tr))"

lemma proper_append:
  "proper (tr @ [ev]) \<longleftrightarrow> proper tr \<and> (\<forall>k ob. ev = Dispatched k ob \<longrightarrow> live k ob tr \<and> (k = Timeout \<longrightarrow> fires ob tr = 0))
     \<and> (\<forall>k ob. ev = Registered k ob \<longrightarrow> ev \<notin> set tr)"
  unfolding proper_def by (auto simp: nth_append less_Suc_eq)

text \<open>
  \<open>tlink\<close>: an object whose struct is not marked is registered; a timeout that waits for dispatch
  has elapsed and not fired, one that has not elapsed has not fired.
\<close>

definition tlink :: "kind \<Rightarrow> addr set \<Rightarrow> levent list \<Rightarrow> table \<Rightarrow> bool" where
  "tlink k pend tr t \<longleftrightarrow> (\<forall>a st. heap t a = Some st \<longrightarrow> \<not> deleteObject st \<longrightarrow>
     live k (object st) tr \<and>
     (k = Timeout \<longrightarrow> (a \<in> pend \<longrightarrow> timeoutElapsed st) \<and> (a \<in> pend \<or> \<not> timeoutElapsed st \<longrightarrow> fires (object st) tr = 0)))"

text \<open>\<open>w\<close> is the descriptor of the loop itself.\<close>

definition fd_ok :: "int \<Rightarrow> main_loop \<Rightarrow> bool" where
  "fd_ok w l \<longleftrightarrow> managedFileDescriptors l \<noteq> [] \<and> fd (hd (managedFileDescriptors l)) = w"

text \<open>\<open>hist\<close>: the object of a struct was registered, that of a marked or freed one also unregistered.\<close>

definition hist :: "kind \<Rightarrow> levent list \<Rightarrow> table \<Rightarrow> bool" where
  "hist k tr t \<longleftrightarrow> (\<forall>a st. heap t a = Some st \<longrightarrow> Registered k (object st) \<in> set tr \<and>
       (deleteObject st \<longrightarrow> Unregistered k (object st) \<in> set tr))
     \<and> (\<forall>ob \<in> destroyed t. Registered k ob \<in> set tr \<and> Unregistered k ob \<in> set tr)"

lemma hist_log: "hist k tr t \<Longrightarrow> hist k (tr @ [ev]) t"
  unfolding hist_def by auto

lemma hist_shrinks: "hist k tr t \<Longrightarrow> shrinks t t' \<Longrightarrow> hist k tr t'"
  unfolding hist_def shrinks_def by (metis (no_types, lifting))

definition linv :: "int \<Rightarrow> addr set \<Rightarrow> main_loop \<Rightarrow> bool" where
  "linv w pend l \<longleftrightarrow> (\<forall>k. wt (tab l k)) \<and> (\<forall>k. tlink k pend (trace l) (tab l k)) \<and> (\<forall>k. hist k (trace l) (tab l k)) \<and> fd_ok w l \<and> proper (trace l)
     \<and> pend \<subseteq> snd ` set (toDispatch (tab l Timeout))"

definition same_dispatch :: "main_loop \<Rightarrow> main_loop \<Rightarrow> bool" where
  "same_dispatch l l' \<longleftrightarrow> (\<forall>k. toDispatch (tab l' k) = toDispatch (tab l k))"

lemma same_dispatch_refl [simp]: "same_dispatch l l"
  and same_dispatch_trans: "same_dispatch l l' \<Longrightarrow> same_dispatch l' l'' \<Longrightarrow> same_dispatch l l''"
  by (simp_all add: same_dispatch_def)

lemma linv_wt: "linv w pend l \<Longrightarrow> wt (tab l k)"
  by (simp add: linv_def)

lemma linv_struct:
  "linv w pend l \<Longrightarrow> (p, a) \<in> set (toDispatch (tab l k)) \<Longrightarrow> \<exists>st. heap (tab l k) a = Some st"
  using wtl_deref[OF linv_wt] linv_wt unfolding wtl_def by blast

lemma tab_upd_tab [simp]: "tab (upd_tab k f l) k' = (if k' = k then f (tab l k) else tab l k')"
  by (simp add: upd_tab_def)

lemma upd_tab_frame [simp]:
  "managedFileDescriptors (upd_tab k f l) = managedFileDescriptors l" "wakeFd (upd_tab k f l) = wakeFd l"
  "trace (upd_tab k f l) = trace l" "isBroken (upd_tab k f l) = isBroken l" "hasToStop (upd_tab k f l) = hasToStop l"
  "currentMinimalTimeoutInterval (upd_tab k f l) = currentMinimalTimeoutInterval l"
  by (simp_all add: upd_tab_def)

lemma log_event_frame [simp]:
  "tab (log_event ev l) = tab l" "managedFileDescriptors (log_event ev l) = managedFileDescriptors l"
  "wakeFd (log_event ev l) = wakeFd l" "trace (log_event ev l) = trace l @ [ev]" "isBroken (log_event ev l) = isBroken l"
  by (simp_all add: log_event_def)

text \<open>Replacing one table.\<close>

lemma linv_upd_tab:
  assumes "linv w pend l" "wt (f (tab l k))" "tlink k pend (trace l) (f (tab l k))" "hist k (trace l) (f (tab l k))"
    and "toDispatch (f (tab l k)) = toDispatch (tab l k)"
  shows "linv w pend (upd_tab k f l)"
  using assms unfolding linv_def fd_ok_def by auto

lemma linv_set_struct:
  assumes "linv w pend l" "heap (tab l k) a = Some st" "object st' = object st"
    "deleteObject st' = deleteObject st" "timeoutElapsed st' = timeoutElapsed st"
  shows "linv w pend (upd_tab k (set_struct a st') l)"
proof (rule linv_upd_tab[OF assms(1)])
  have "wtl (registered (tab l k)) (set_struct a st' (tab l k))" by (rule wtl_set_struct[OF linv_wt[OF assms(1)] assms(2,3)])
  then show "wt (set_struct a st' (tab l k))" by (simp add: set_struct_def)
  have "tlink k pend (trace l) (tab l k)" using assms(1) by (simp add: linv_def)
  then show "tlink k pend (trace l) (set_struct a st' (tab l k))"
    using assms(2-) by (auto simp: tlink_def set_struct_def)
  have "hist k (trace l) (tab l k)" using assms(1) by (simp add: linv_def)
  then show "hist k (trace l) (set_struct a st' (tab l k))"
    using assms(2-) by (auto simp: hist_def set_struct_def)
qed (simp add: set_struct_def)

lemma safe_collect: "linv w pend l \<Longrightarrow> safe (\<lambda>l'. linv w pend l' \<and> same_dispatch l l') (collect k l)"
proof -
  assume i: "linv w pend l"
  have "safe (\<lambda>(m, t'). wtl ([] @ m) t' \<and> shrinks (tab l k) t') (collect_loop (registered (tab l k)) (tab l k))"
    by (rule safe_collect_loop) (simp add: linv_wt[OF i])
  then show ?thesis unfolding collect_def
  proof (rule safe_bind)
    fix x :: "(prio \<times> addr) list \<times> table"
    obtain m t where x: "x = (m, t)" by (cases x)
    assume "case x of (m, t') \<Rightarrow> wtl ([] @ m) t' \<and> shrinks (tab l k) t'"
    then have w: "wtl m t" "shrinks (tab l k) t" by (simp_all add: x)
    have "wt (t\<lparr>registered := m\<rparr>)" using w(1) unfolding wtl_def by simp
    moreover have "tlink k pend (trace l) (tab l k)" using i by (simp add: linv_def)
    then have "tlink k pend (trace l) (t\<lparr>registered := m\<rparr>)" using w(2) unfolding tlink_def shrinks_def by auto
    moreover have "hist k (trace l) (tab l k)" using i by (simp add: linv_def)
    then have "hist k (trace l) t" using w(2) by (rule hist_shrinks)
    then have "hist k (trace l) (t\<lparr>registered := m\<rparr>)" by (simp add: hist_def)
    moreover have "toDispatch t = toDispatch (tab l k)" using w(2) by (simp add: shrinks_def)
    ultimately show "safe (\<lambda>l'. linv w pend l' \<and> same_dispatch l l') (case x of (m, t) \<Rightarrow> Inr (upd_tab k (\<lambda>_. t\<lparr>registered := m\<rparr>) l))"
      using i by (simp add: x linv_upd_tab same_dispatch_def)
  qed
qed

end
