(* ===== verification/Main_Loop_Safe.thy ===== *)
theory Main_Loop_Safe
  imports Main_Loop_Correct
begin

text \<open>Every phase of an iteration keeps the invariant of the loop.\<close>

section \<open>What the clients respect\<close>

text \<open>
  The loop owns what is registered: it deletes an object after its unregistration. So its clients hand over every object once:
  they register it at most once, and do not unregister a watch twice (the loop asks it for its descriptor). The
  descriptor \<open>w\<close> of the loop itself belongs to no watch. Nothing else is asked of them: other objects may be
  unregistered twice, or without having been registered, and everything may happen in a callback.
\<close>

fun obeys :: "int \<Rightarrow> levent list \<Rightarrow> action \<Rightarrow> bool" where
  "obeys w tr (DoRegister k a ob p f) = (Registered k ob \<notin> set tr \<and> (k = Watch \<longrightarrow> fd f \<noteq> w))"
| "obeys w tr (DoUnregister k ob f) = (k = Watch \<longrightarrow> Unregistered Watch ob \<notin> set tr \<and> fd f \<noteq> w)"
| "obeys w tr _ = True"

fun action_events :: "action \<Rightarrow> levent list" where
  "action_events (DoRegister k a ob p f) = [Registered k ob]"
| "action_events (DoUnregister k ob f) = [Unregistered k ob]"
| "action_events _ = []"

fun obey_all :: "int \<Rightarrow> levent list \<Rightarrow> action list \<Rightarrow> bool" where
  "obey_all w tr [] = True"
| "obey_all w tr (x # xs) = (obeys w tr x \<and> obey_all w (tr @ action_events x) xs)"

text \<open>The callbacks of an environment respect it, whatever has happened before.\<close>

definition obedient_env :: "int \<Rightarrow> env \<Rightarrow> bool" where
  "obedient_env w e \<longleftrightarrow> (\<forall>k ob tr. obey_all w (tr @ [Dispatched k ob]) (fst (callback e k ob tr)))"

text \<open>Actions that are taken only if they respect it, for examples.\<close>

definition once :: "int \<Rightarrow> action list \<Rightarrow> levent list \<Rightarrow> action list" where
  "once w xs tr = (if obey_all w tr xs then xs else [])"

lemma obey_once [simp]: "obey_all w tr (once w xs tr)"
  by (simp add: once_def)

section \<open>Registration and unregistration\<close>

lemma linv_hist: "linv w pend l \<Longrightarrow> hist k (trace l) (tab l k)"
  by (simp add: linv_def)

lemma hist_new:
  assumes "linv w pend l" "Registered k ob \<notin> set (trace l)"
  shows "heap (tab l k) b = Some sb \<Longrightarrow> object sb \<noteq> ob" "ob \<notin> destroyed (tab l k)"
  using linv_hist[OF assms(1), of k] assms(2) unfolding hist_def by auto

lemma tlink_other_event:
  assumes "tlink k pend tr t"
    and "\<And>st a. heap t a = Some st \<Longrightarrow> \<not> deleteObject st \<Longrightarrow> live_step k (object st) ev True"
    and "\<And>st a. k = Timeout \<Longrightarrow> heap t a = Some st \<Longrightarrow> \<not> deleteObject st \<Longrightarrow> fires (object st) tr = 0 \<Longrightarrow>
      a \<in> pend \<or> \<not> timeoutElapsed st \<Longrightarrow> fires_step (object st) ev 0 = 0"
  shows "tlink k pend (tr @ [ev]) t"
  using assms unfolding tlink_def by fastforce

text \<open>The three registrations.\<close>

lemma linv_add:
  assumes "linv w pend l" "heap (tab l k) a = None" "Registered k ob \<notin> set (trace l)"
  shows "linv w pend (log_event (Registered k ob) (upd_tab k (add_struct a ob p f) l))"
proof -
  let ?t = "add_struct a ob p f (tab l k)"
  note n = hist_new[OF assms(1,3)]
  have w: "wt ?t" by (rule wt_add[OF linv_wt[OF assms(1)] assms(2) n])
  have y: "hist k' (trace l @ [Registered k ob]) (tab (upd_tab k (add_struct a ob p f) l) k')" for k'
    using hist_log[OF linv_hist[OF assms(1)], of k' "Registered k ob"] by (auto simp: hist_def add_struct_def)
  have na: "a \<notin> pend" if "k = Timeout"
    using assms(1,2) that linv_struct[OF assms(1), of _ a Timeout] unfolding linv_def by fastforce
  have "tlink k' pend (trace l @ [Registered k ob]) (tab (upd_tab k (add_struct a ob p f) l) k')" for k'
  proof (cases "k' = k")
    case True
    have "tlink k pend (trace l) (tab l k)" using assms(1) by (simp add: linv_def)
    then show ?thesis using True na n(1) by (auto simp: tlink_def add_struct_def)
  next
    case False
    have "tlink k' pend (trace l) (tab l k')" using assms(1) by (simp add: linv_def)
    then show ?thesis using False by (auto intro!: tlink_other_event)
  qed
  moreover have "wt (tab (upd_tab k (add_struct a ob p f) l) k')" for k'
    using linv_wt[OF assms(1), of k'] w by simp
  ultimately show ?thesis
    using assms(1,3) y unfolding linv_def fd_ok_def by (simp add: proper_append) (simp add: add_struct_def)
qed

lemma linv_add_same: "same_dispatch l (log_event ev (upd_tab k (add_struct a ob p f) l))"
  by (simp add: same_dispatch_def add_struct_def)

lemma linv_frame:
  assumes "linv w pend l" "tab l' = tab l" "trace l' = trace l" "fd_ok w l'"
  shows "linv w pend l'"
  using assms by (simp add: linv_def)

lemma fd_ok_remove:
  assumes "fd_ok w l" "fd f \<noteq> w"
  shows "fd_ok w (unregisterFileDescriptor f l)"
  using assms by (cases "managedFileDescriptors l") (auto simp: fd_ok_def unregisterFileDescriptor_def wakeup_def Let_def)

text \<open>Marking: every struct of the object is marked, because there is only one, and no other.\<close>

definition marked :: "obj \<Rightarrow> table \<Rightarrow> table \<Rightarrow> bool" where
  "marked ob t t' \<longleftrightarrow> registered t' = registered t \<and> toDispatch t' = toDispatch t \<and> wtl (registered t) t' \<and> destroyed t' = destroyed t \<and>
     (\<forall>a st'. heap t' a = Some st' \<longrightarrow> (\<exists>st. heap t a = Some st \<and> object st' = object st \<and>
        timeoutElapsed st' = timeoutElapsed st \<and> (deleteObject st \<longrightarrow> deleteObject st') \<and> (deleteObject st' \<longrightarrow> deleteObject st \<or> object st = ob)))"

lemma tlink_marked:
  assumes "tlink k pend tr t" "marked ob t t'"
  shows "tlink k pend tr t'"
  unfolding tlink_def
proof (intro allI impI)
  fix a st' assume h: "heap t' a = Some st'" and n: "\<not> deleteObject st'"
  obtain st where st: "heap t a = Some st" "object st' = object st" "timeoutElapsed st' = timeoutElapsed st" "\<not> deleteObject st"
    using assms(2) h n unfolding marked_def by blast
  show "live k (object st') tr \<and> (k = Timeout \<longrightarrow> (a \<in> pend \<longrightarrow> timeoutElapsed st') \<and>
      (a \<in> pend \<or> \<not> timeoutElapsed st' \<longrightarrow> fires (object st') tr = 0))"
    using assms(1) st unfolding tlink_def by simp
qed

lemma hist_marked:
  assumes "hist k tr t" "marked ob t t'"
  shows "hist k (tr @ [Unregistered k ob]) t'"
  unfolding hist_def
proof (intro conjI allI impI ballI)
  fix a st' assume "heap t' a = Some st'"
  then obtain st where st: "heap t a = Some st" "object st' = object st" "deleteObject st' \<longrightarrow> deleteObject st \<or> object st = ob"
    using assms(2) unfolding marked_def by blast
  show "Registered k (object st') \<in> set (tr @ [Unregistered k ob])"
    using assms(1) st unfolding hist_def by auto
  show "Unregistered k (object st') \<in> set (tr @ [Unregistered k ob])" if "deleteObject st'"
    using assms(1) st that unfolding hist_def by auto
next
  fix x assume "x \<in> destroyed t'"
  then have "x \<in> destroyed t" using assms(2) by (simp add: marked_def)
  then show "Registered k x \<in> set (tr @ [Unregistered k ob])" "Unregistered k x \<in> set (tr @ [Unregistered k ob])"
    using assms(1) unfolding hist_def by simp_all
qed

lemma marked_object: "marked ob t t' \<Longrightarrow> heap t' a = Some st' \<Longrightarrow> \<exists>st. heap t a = Some st \<and> object st' = object st"
  unfolding marked_def by blast

lemma marked_first:
  assumes "wt t" "heap t a = Some st" "object st = ob"
  shows "marked ob t (set_struct a (st\<lparr>deleteObject := True\<rparr>) t)"
proof -
  have "wtl (registered t) (set_struct a (st\<lparr>deleteObject := True\<rparr>) t)" by (rule wtl_set_struct[OF assms(1,2)]) simp
  then show ?thesis using assms(2,3) by (simp add: marked_def set_struct_def)
qed

lemma safe_mark_deleted:
  assumes "wt t" "set r \<subseteq> set (registered t)"
  shows "safe (\<lambda>t'. marked ob t t' \<and> (\<forall>(p, a) \<in> set r. \<forall>st. heap t' a = Some st \<longrightarrow> object st = ob \<longrightarrow> deleteObject st))
           (mark_deleted ob r t)"
  using assms(2)
proof (induction r)
  case Nil
  then show ?case using assms(1) by (simp add: marked_def)
next
  case (Cons x r)
  obtain p a where x: "x = (p, a)" by (cases x)
  obtain st where st: "heap t a = Some st" using wtl_deref[OF assms(1), of p a] Cons.prems x by auto
  show ?case
  proof (cases "object st = ob")
    case True
    let ?t = "set_struct a (st\<lparr>deleteObject := True\<rparr>) t"
    have "marked ob t ?t" by (rule marked_first[OF assms(1) st True])
    moreover have "heap ?t b = Some sb \<Longrightarrow> object sb = ob \<Longrightarrow> deleteObject sb" for b sb
      using assms(1) st True unfolding wtl_def set_struct_def by (auto split: if_splits)
    ultimately show ?thesis using st True by (simp add: x safe_deref)
  next
    case False
    have "safe (\<lambda>t'. marked ob t t' \<and> (\<forall>(p, a) \<in> set r. \<forall>st. heap t' a = Some st \<longrightarrow> object st = ob \<longrightarrow> deleteObject st))
        (mark_deleted ob r t)"
      using Cons by simp
    then have "safe (\<lambda>t'. marked ob t t' \<and> (\<forall>(p, a) \<in> set (x # r). \<forall>st. heap t' a = Some st \<longrightarrow> object st = ob \<longrightarrow> deleteObject st))
        (mark_deleted ob r t)"
    proof (rule safe_mono)
      fix t'
      assume t: "marked ob t t' \<and> (\<forall>(p, a) \<in> set r. \<forall>st. heap t' a = Some st \<longrightarrow> object st = ob \<longrightarrow> deleteObject st)"
      have "object sa \<noteq> ob" if "heap t' a = Some sa" for sa
        using marked_object[OF conjunct1[OF t] that] st False by auto
      then show "marked ob t t' \<and> (\<forall>(p, a) \<in> set (x # r). \<forall>st. heap t' a = Some st \<longrightarrow> object st = ob \<longrightarrow> deleteObject st)"
        using t by (simp add: x)
    qed
    then show ?thesis using st False by (simp add: x safe_deref)
  qed
qed

lemma safe_unregister:
  assumes "linv w pend l"
  shows "safe (\<lambda>l'. linv w pend l' \<and> same_dispatch l l') (unregister k ob l)"
  unfolding unregister_def
proof (rule safe_bind[OF safe_mark_deleted[OF linv_wt[OF assms] order_refl]])
  fix t
  assume t: "marked ob (tab l k) t \<and> (\<forall>(p, a) \<in> set (registered (tab l k)). \<forall>st. heap t a = Some st \<longrightarrow> object st = ob \<longrightarrow> deleteObject st)"
  have w: "wt t" using t by (simp add: marked_def)
  have del: "deleteObject st" if "heap t a = Some st" "object st = ob" for a st
  proof -
    have "a \<in> snd ` set (registered t)" using w that(1) unfolding wtl_def by blast
    then obtain p where "(p, a) \<in> set (registered (tab l k))" using t by (auto simp: marked_def)
    then show ?thesis using t that by auto
  qed
  have "tlink k' pend (trace l @ [Unregistered k ob]) (tab (upd_tab k (\<lambda>_. t) l) k')" for k'
  proof (cases "k' = k")
    case True
    have "tlink k pend (trace l) (tab l k)" using assms by (simp add: linv_def)
    then have "tlink k pend (trace l) t" using t by (auto intro: tlink_marked)
    then show ?thesis using True del by (auto intro!: tlink_other_event)
  next
    case False
    have "tlink k' pend (trace l) (tab l k')" using assms by (simp add: linv_def)
    then show ?thesis using False by (auto intro!: tlink_other_event)
  qed
  moreover have "hist k' (trace l @ [Unregistered k ob]) (tab (upd_tab k (\<lambda>_. t) l) k')" for k'
  proof (cases "k' = k")
    case True
    have "hist k (trace l @ [Unregistered k ob]) t"
      using hist_marked[OF linv_hist[OF assms]] t by blast
    then show ?thesis using True by simp
  qed (use hist_log[OF linv_hist[OF assms]] in simp)
  ultimately show "safe (\<lambda>l'. linv w pend l' \<and> same_dispatch l l') (Inr (log_event (Unregistered k ob) (upd_tab k (\<lambda>_. t) l)))"
    using assms t w unfolding linv_def fd_ok_def marked_def same_dispatch_def
    by (simp add: proper_append) (elim conjE, intro impI, simp)
qed

section \<open>Callbacks\<close>

lemma frame_simps [simp]:
  "tab (registerFileDescriptor f l) = tab l" "tab (unregisterFileDescriptor f l) = tab l" "tab (wakeup l) = tab l"
  "trace (registerFileDescriptor f l) = trace l" "trace (unregisterFileDescriptor f l) = trace l" "trace (wakeup l) = trace l"
  "wakeFd (registerFileDescriptor f l) = wakeFd l" "wakeFd (unregisterFileDescriptor f l) = wakeFd l" "wakeFd (wakeup l) = wakeFd l"
  "managedFileDescriptors (wakeup l) = managedFileDescriptors l"
  by (simp_all add: registerFileDescriptor_def unregisterFileDescriptor_def wakeup_def Let_def)

text \<open>What an action adds to the history.\<close>

definition next_trace :: "main_loop \<Rightarrow> action \<Rightarrow> main_loop \<Rightarrow> bool" where
  "next_trace l x l' \<longleftrightarrow> trace l' = trace l @ action_events x"

lemma safe_and:
  "safe P r \<Longrightarrow> (\<And>x. r = Inr x \<Longrightarrow> Q x) \<Longrightarrow> safe (\<lambda>x. P x \<and> Q x) r"
  by (auto simp: safe_def split: sum.splits)

lemma unregister_trace: "unregister k ob l = Inr l' \<Longrightarrow> trace l' = trace l @ [Unregistered k ob]"
  by (cases "mark_deleted ob (registered (tab l k)) (tab l k)") (auto simp: unregister_def)

lemma do_action_trace: "do_action x l = Inr l' \<Longrightarrow> next_trace l x l'"
proof (cases x)
  case (DoUnregister k ob f)
  assume "do_action x l = Inr l'"
  then obtain l0 l1 where "unregister k ob l0 = Inr l1" "trace l0 = trace l" "trace l' = trace l1"
    by (cases k; cases "unregister Source ob l")
      (auto simp: DoUnregister unregisterDispatchSource_def unregisterWatch_def unregisterTimeout_def alive_def split: if_splits)
  then show ?thesis using unregister_trace[of k ob l0 l1] by (simp add: next_trace_def DoUnregister)
qed (auto simp: next_trace_def registerDispatchSource_def registerWatch_def registerTimeout_def stop_def wakeup_def alive_def
    split: kind.splits if_splits)

lemma safe_do_action:
  assumes "linv w pend l" "obeys w (trace l) x"
  shows "safe (\<lambda>l'. linv w pend l' \<and> same_dispatch l l') (do_action x l)"
proof (cases x)
  case (DoRegister k a ob p f)
  have n: "Registered k ob \<notin> set (trace l)" and w: "k = Watch \<longrightarrow> fd f \<noteq> w"
    using assms(2) by (simp_all add: DoRegister)
  have r: "linv w pend (registerFileDescriptor f l)"
    using assms(1) by (rule linv_frame) (use assms in \<open>auto simp: linv_def fd_ok_def registerFileDescriptor_def\<close>)
  have s: "same_dispatch l (log_event ev (upd_tab k (add_struct a ob p f') (registerFileDescriptor f l)))" for ev f'
    using linv_add_same[of "registerFileDescriptor f l"] by (simp add: same_dispatch_def)
  show ?thesis
  proof (cases "heap (tab l k) a = None")
    case True
    show ?thesis
    proof (cases k)
      case Watch
      then show ?thesis using linv_add[OF r, of Watch a ob] True n s hist_new(2)[OF assms(1), of Watch ob]
        by (simp add: DoRegister registerWatch_def alive_def)
    qed (use linv_add[OF assms(1) True n] linv_add_same[of l] True in
        \<open>simp_all add: DoRegister registerDispatchSource_def registerTimeout_def\<close>)
  qed (simp add: DoRegister)
next
  case (DoUnregister k ob f)
  have b: "linv w pend l' \<Longrightarrow> linv w pend (l'\<lparr>isBroken := True\<rparr>)" for l'
    by (rule linv_frame[of w _ l']) (auto simp: linv_def fd_ok_def)
  have src: "safe (\<lambda>l'. linv w pend l' \<and> same_dispatch l l') (unregisterDispatchSource ob l)"
    unfolding unregisterDispatchSource_def
    by (rule safe_bind[OF safe_unregister[OF assms(1)]]) (auto simp: same_dispatch_def b)
  have w: "safe (\<lambda>l'. linv w pend l' \<and> same_dispatch l l') (unregisterWatch ob f l)"
    if k: "fd f \<noteq> w" "Unregistered Watch ob \<notin> set (trace l)"
  proof -
    have "linv w pend (unregisterFileDescriptor f l)"
      by (rule linv_frame[OF assms(1)]) (use assms(1) k in \<open>simp_all add: linv_def fd_ok_remove\<close>)
    moreover have "ob \<notin> destroyed (tab l Watch)"
      using linv_hist[OF assms(1), of Watch] k(2) unfolding hist_def by auto
    ultimately show ?thesis using safe_unregister[of w pend "unregisterFileDescriptor f l" Watch ob]
      by (simp add: unregisterWatch_def same_dispatch_def alive_def)
  qed
  show ?thesis using src w safe_unregister[OF assms(1)] assms(2) by (cases k) (auto simp: DoUnregister unregisterTimeout_def)
next
  case DoStop
  then show ?thesis using assms(1) by (auto simp: stop_def wakeup_def linv_def fd_ok_def same_dispatch_def)
next
  case DoWakeup
  then show ?thesis using assms(1) by (auto simp: wakeup_def linv_def fd_ok_def same_dispatch_def)
qed

lemma safe_do_actions:
  "linv w pend l \<Longrightarrow> obey_all w (trace l) xs \<Longrightarrow> safe (\<lambda>l'. linv w pend l' \<and> same_dispatch l l') (do_actions xs l)"
proof (induction xs arbitrary: l)
  case (Cons x xs)
  have x: "obeys w (trace l) x" using Cons.prems(2) by simp
  show ?case unfolding do_actions.simps
  proof (rule safe_bind[OF safe_and[OF safe_do_action[OF Cons.prems(1) x] do_action_trace]], assumption)
    fix l' assume l': "(linv w pend l' \<and> same_dispatch l l') \<and> next_trace l x l'"
    then have "obey_all w (trace l') xs" using Cons.prems(2) by (simp add: next_trace_def)
    then have "safe (\<lambda>l''. linv w pend l'' \<and> same_dispatch l' l'') (do_actions xs l')" using Cons.IH l' by blast
    then show "safe (\<lambda>l'. linv w pend l' \<and> same_dispatch l l') (do_actions xs l')"
      using l' by (auto elim!: safe_mono intro: same_dispatch_trans)
  qed
qed simp

end
