(* ===== verification/Main_Loop_Phases.thy ===== *)
theory Main_Loop_Phases
  imports Main_Loop_Safe
begin

text \<open>The phases \<open>prepare\<close>, \<open>poll\<close>, \<open>check\<close> and \<open>dispatch\<close> keep the invariant of the loop.\<close>

section \<open>prepare, poll and check\<close>

text \<open>Marks are set and nothing else changes.\<close>

definition marks_only :: "table \<Rightarrow> table \<Rightarrow> bool" where
  "marks_only t t' \<longleftrightarrow> registered t' = registered t \<and> heap t' = heap t \<and> destroyed t' = destroyed t \<and> wtl (registered t) t'"

lemma marks_refl: "wt t \<Longrightarrow> marks_only t t"
  by (simp add: marks_only_def)

lemma marks_trans: "marks_only t t' \<Longrightarrow> marks_only t' t'' \<Longrightarrow> marks_only t t''"
  by (simp add: marks_only_def)

lemma marks_wt: "marks_only t t' \<Longrightarrow> wt t'"
  by (simp add: marks_only_def)

lemma marks_mark: "wt t \<Longrightarrow> (p, a) \<in> set (registered t) \<Longrightarrow> marks_only t (mark_to_dispatch (p, a) t)"
  using wtl_mark[of "registered t" t "(p, a)"] by (simp add: marks_only_def mark_to_dispatch_def)

lemma safe_prepare_sources:
  "wt t \<Longrightarrow> set r \<subseteq> set (registered t) \<Longrightarrow> safe (\<lambda>(t', i'). marks_only t t') (prepare_sources e r (t, i))"
proof (induction r arbitrary: t i)
  case (Cons x r)
  obtain p a where x: "x = (p, a)" by (cases x)
  have m: "(p, a) \<in> set (registered t)" "set r \<subseteq> set (registered t)" using Cons.prems(2) x by auto
  obtain st where st: "heap t a = Some st" using wtl_deref[OF Cons.prems(1) m(1)] by auto
  have step: "safe (\<lambda>(t', i'). marks_only t t') (prepare_sources e r (t1, j))" if "marks_only t t1" for t1 j
    using Cons.IH[of t1 j] that m(2) by (auto simp: marks_only_def elim!: safe_mono)
  show ?case
    using step[OF marks_refl[OF Cons.prems(1)]] step[OF marks_mark[OF Cons.prems(1) m(1)]]
    by (simp add: x safe_deref[OF st] wtl_alive[OF Cons.prems(1) st] split: prod.splits)
qed (simp add: marks_refl)

lemma safe_check_watches:
  "wt t \<Longrightarrow> set r \<subseteq> set (registered t) \<Longrightarrow> safe (marks_only t) (check_watches f r t)"
proof (induction r arbitrary: t)
  case (Cons x r)
  obtain p a where x: "x = (p, a)" by (cases x)
  have m: "(p, a) \<in> set (registered t)" "set r \<subseteq> set (registered t)" using Cons.prems(2) x by auto
  obtain st where st: "heap t a = Some st" using wtl_deref[OF Cons.prems(1) m(1)] by auto
  have step: "safe (marks_only t) (check_watches f r t1)" if "marks_only t t1" for t1
    using Cons.IH[of t1] that m(2) by (auto simp: marks_only_def elim!: safe_mono)
  show ?case
    using step[OF marks_refl[OF Cons.prems(1)]] step[OF marks_mark[OF Cons.prems(1) m(1)]]
    by (simp add: x safe_deref[OF st])
qed (simp add: marks_refl)

lemma safe_check_fds: "wt t \<Longrightarrow> safe (marks_only t) (check_fds fs t)"
proof (induction fs arbitrary: t)
  case (Cons f fs)
  show ?case unfolding check_fds.simps
  proof (rule safe_bind[OF safe_check_watches[OF Cons.prems order_refl]])
    fix t1 assume "marks_only t t1"
    then show "safe (marks_only t) (check_fds fs t1)"
      using Cons.IH[of t1] by (auto simp: marks_only_def elim!: safe_mono)
  qed
qed (simp add: marks_refl)

lemma safe_check_sources:
  "wt t \<Longrightarrow> set r \<subseteq> set (registered t) \<Longrightarrow> safe (marks_only t) (check_sources e r t)"
proof (induction r arbitrary: t)
  case (Cons x r)
  obtain p a where x: "x = (p, a)" by (cases x)
  have m: "(p, a) \<in> set (registered t)" "set r \<subseteq> set (registered t)" using Cons.prems(2) x by auto
  obtain st where st: "heap t a = Some st" using wtl_deref[OF Cons.prems(1) m(1)] by auto
  have step: "safe (marks_only t) (check_sources e r t1)" if "marks_only t t1" for t1
    using Cons.IH[of t1] that m(2) by (auto simp: marks_only_def elim!: safe_mono)
  show ?case
    using step[OF marks_refl[OF Cons.prems(1)]] step[OF marks_mark[OF Cons.prems(1) m(1)]]
    by (simp add: x safe_deref[OF st] wtl_alive[OF Cons.prems(1) st])
qed (simp add: marks_refl)

lemma tlink_cong: "heap t = heap t' \<Longrightarrow> tlink k pend tr t = tlink k pend tr t'"
  by (simp add: tlink_def)

lemma linv_marks:
  assumes "linv w pend l" "marks_only (tab l k) t" "k \<noteq> Timeout"
  shows "linv w pend (upd_tab k (\<lambda>_. t) l)"
proof -
  have "tlink k pend (trace l) (tab l k)" using assms(1) by (simp add: linv_def)
  then have "tlink k pend (trace l) t" using assms(2) tlink_cong[of t "tab l k"] by (simp add: marks_only_def)
  moreover have "hist k (trace l) t" using linv_hist[OF assms(1), of k] assms(2) by (simp add: hist_def marks_only_def)
  ultimately show ?thesis using assms unfolding linv_def fd_ok_def by (auto simp: marks_only_def)
qed

text \<open>The pending timeouts are the marked ones.\<close>

abbreviation pending_of :: "table \<Rightarrow> addr set" where
  "pending_of t \<equiv> snd ` set (toDispatch t)"

definition timeouts_ok :: "levent list \<Rightarrow> table \<Rightarrow> bool" where
  "timeouts_ok tr t \<longleftrightarrow> wt t \<and> tlink Timeout (pending_of t) tr t \<and> hist Timeout tr t"

lemma timeouts_elapse:
  assumes "timeouts_ok tr t" "heap t a = Some st" "\<not> deleteObject st" "\<not> timeoutElapsed st" "(p, a) \<in> set (registered t)"
  shows "timeouts_ok tr (mark_to_dispatch (p, a) (set_struct a (st\<lparr>timeoutElapsed := True\<rparr>) t))"
proof -
  let ?t = "set_struct a (st\<lparr>timeoutElapsed := True\<rparr>) t"
  have w: "wt t" using assms(1) by (simp add: timeouts_ok_def)
  have "wtl (registered t) ?t" by (rule wtl_set_struct[OF w assms(2)]) simp
  then have "wt (mark_to_dispatch (p, a) ?t)"
    using wtl_mark[of "registered t" ?t "(p, a)"] assms(5) by (simp add: mark_to_dispatch_def set_struct_def)
  moreover have "tlink Timeout (pending_of t) tr t" using assms(1) by (simp add: timeouts_ok_def)
  then have "tlink Timeout (insert a (pending_of t)) tr ?t"
    using assms(2-4) by (auto simp: tlink_def set_struct_def)
  moreover have "hist Timeout tr t" using assms(1) by (simp add: timeouts_ok_def)
  then have "hist Timeout tr ?t" using assms(2,3) by (auto simp: hist_def set_struct_def)
  ultimately show ?thesis
    by (simp add: timeouts_ok_def) (simp add: mark_to_dispatch_def set_struct_def tlink_def hist_def)
qed

lemma safe_prepare_timeouts:
  "timeouts_ok tr t \<Longrightarrow> set r \<subseteq> set (registered t) \<Longrightarrow>
     safe (\<lambda>(t', i'). timeouts_ok tr t') (prepare_timeouts e now r (t, i))"
proof (induction r arbitrary: t i)
  case (Cons x r)
  obtain p a where x: "x = (p, a)" by (cases x)
  have w: "wt t" using Cons.prems(1) by (simp add: timeouts_ok_def)
  have m: "(p, a) \<in> set (registered t)" "set r \<subseteq> set (registered t)" using Cons.prems(2) x by auto
  obtain st where st: "heap t a = Some st" using wtl_deref[OF w m(1)] by auto
  let ?t = "mark_to_dispatch (p, a) (set_struct a (st\<lparr>timeoutElapsed := True\<rparr>) t)"
  have "set r \<subseteq> set (registered ?t)" using m(2) by (simp add: mark_to_dispatch_def set_struct_def)
  then show ?case
    using Cons.IH[OF Cons.prems(1) m(2)] Cons.IH[of ?t] timeouts_elapse[OF Cons.prems(1) st _ _ m(1)]
    by (simp add: x safe_deref[OF st] wtl_alive[OF w st] Let_def)
qed simp

text \<open>Between the phases the pending set of the invariant is the marked timeouts.\<close>

abbreviation linv0 :: "int \<Rightarrow> main_loop \<Rightarrow> bool" where
  "linv0 w l \<equiv> linv w (pending_of (tab l Timeout)) l"

lemma linv_timeouts:
  assumes "linv0 w l" "timeouts_ok (trace l) t"
  shows "linv0 w (upd_tab Timeout (\<lambda>_. t) l)"
proof -
  have "tlink k (pending_of t) (trace l) (tab l k)" if "k \<noteq> Timeout" for k
    using assms(1) that unfolding linv_def tlink_def by simp
  then show ?thesis using assms unfolding linv_def fd_ok_def timeouts_ok_def by simp
qed

lemma linv_timeouts_ok: "linv0 w l \<Longrightarrow> timeouts_ok (trace l) (tab l Timeout)"
  by (simp add: linv_def timeouts_ok_def)

lemma linv_interval [simp]:
  "linv w pend (l\<lparr>currentMinimalTimeoutInterval := i\<rparr>) = linv w pend l"
  "linv w pend (l\<lparr>isBroken := b\<rparr>) = linv w pend l"
  "linv w pend (l\<lparr>wakes := n\<rparr>) = linv w pend l"
  by (simp_all add: linv_def fd_ok_def)

lemma safe_prepare:
  assumes "linv0 w l"
  shows "safe (\<lambda>(b, l'). linv0 w l') (prepare e timeout l)"
  unfolding prepare_def
proof (rule safe_bind[OF safe_prepare_sources[OF linv_wt[OF assms] order_refl]])
  fix x :: "table \<times> int" assume "case x of (t', i') \<Rightarrow> marks_only (tab l Source) t'"
  then obtain ts i where x: "x = (ts, i)" and ts: "marks_only (tab l Source) ts" by (cases x) auto
  have s: "linv0 w (upd_tab Source (\<lambda>_. ts) l)" using linv_marks[OF assms ts] by simp
  have "safe (\<lambda>(b, l'). linv0 w l')
      (ebind (prepare_timeouts e (now_before e) (registered (tab l Timeout)) (tab l Timeout, i)) (\<lambda>(tt, i').
         Inr (toDispatch ts \<noteq> [] \<or> toDispatch tt \<noteq> [],
              (upd_tab Timeout (\<lambda>_. tt) (upd_tab Source (\<lambda>_. ts) l))\<lparr>currentMinimalTimeoutInterval := i'\<rparr>)))"
  proof (rule safe_bind[OF safe_prepare_timeouts[OF linv_timeouts_ok[OF assms] order_refl]])
    fix y :: "table \<times> int" assume "case y of (t', i') \<Rightarrow> timeouts_ok (trace l) t'"
    then obtain tt i' where y: "y = (tt, i')" and tt: "timeouts_ok (trace l) tt" by (cases y) auto
    have "linv0 w (upd_tab Timeout (\<lambda>_. tt) (upd_tab Source (\<lambda>_. ts) l))"
      using linv_timeouts[OF s, of tt] tt by simp
    then show "safe (\<lambda>(b, l'). linv0 w l') (case y of (tt, i') \<Rightarrow>
        Inr (toDispatch ts \<noteq> [] \<or> toDispatch tt \<noteq> [],
              (upd_tab Timeout (\<lambda>_. tt) (upd_tab Source (\<lambda>_. ts) l))\<lparr>currentMinimalTimeoutInterval := i'\<rparr>))"
      by (simp add: y)
  qed
  then show "safe (\<lambda>(b, l'). linv0 w l') (case x of (ts, i) \<Rightarrow>
      ebind (prepare_timeouts e (now_before e) (registered (tab l Timeout)) (tab l Timeout, i)) (\<lambda>(tt, i').
         Inr (toDispatch ts \<noteq> [] \<or> toDispatch tt \<noteq> [],
              (upd_tab Timeout (\<lambda>_. tt) (upd_tab Source (\<lambda>_. ts) l))\<lparr>currentMinimalTimeoutInterval := i'\<rparr>)))"
    by (simp add: x)
qed

lemma copy_revents_fds: "map fd (copy_revents fds managed) = map fd managed"
proof (induction fds arbitrary: managed)
  case (Cons f fds)
  have "map fd (map (\<lambda>g. if fd f = fd g \<and> pevents f = pevents g then g\<lparr>revents := revents f\<rparr> else g) managed) = map fd managed"
    by simp
  then show ?case using Cons.IH by (simp only: copy_revents_def fold.simps o_apply)
qed (simp add: copy_revents_def)

lemma fd_ok_map:
  assumes "fd_ok w l" "map fd ms = map fd (managedFileDescriptors l)"
  shows "fd_ok w (l\<lparr>managedFileDescriptors := ms\<rparr>)"
proof -
  have "ms \<noteq> []" using assms by (auto simp: fd_ok_def)
  then have "fd (hd ms) = hd (map fd ms)" by (simp add: hd_map)
  then show ?thesis using assms \<open>ms \<noteq> []\<close> by (simp add: fd_ok_def hd_map)
qed

lemma safe_poll:
  assumes "linv0 w l"
  shows "safe (\<lambda>l'. linv0 w l') (poll e l)"
proof -
  let ?m = "map (revents_update (\<lambda>_. 0)) (managedFileDescriptors l)"
  obtain rs ready where os: "os_poll e ?m (signed_take_bit 31 (currentMinimalTimeoutInterval l)) = (rs, ready)" by fastforce
  let ?fds = "map2 (\<lambda>f r. f\<lparr>revents := r\<rparr>) ?m rs"
  let ?l = "l\<lparr>managedFileDescriptors := copy_revents ?fds ?m\<rparr>"
  have "map fd (copy_revents ?fds ?m) = map fd (managedFileDescriptors l)"
    unfolding copy_revents_fds by simp
  then have "fd_ok w ?l" using assms by (intro fd_ok_map) (simp add: linv_def)
  then have l: "linv0 w ?l" using linv_frame[OF assms] by simp
  have t: "safe (\<lambda>(t', i'). timeouts_ok (trace l) t')
      (if ready = 0 then prepare_timeouts e (now_after e) (registered (tab ?l Timeout)) (tab ?l Timeout, 0)
       else Inr (tab ?l Timeout, 0))"
    using safe_prepare_timeouts[OF linv_timeouts_ok[OF l] order_refl] linv_timeouts_ok[OF l] by simp
  show ?thesis
    unfolding poll_def Let_def os prod.case
  proof (rule safe_bind[OF t])
    fix x :: "table \<times> int" assume "case x of (t', i') \<Rightarrow> timeouts_ok (trace l) t'"
    then obtain tt i where x: "x = (tt, i)" and tt: "timeouts_ok (trace l) tt" by (cases x) auto
    have "linv0 w (upd_tab Timeout (\<lambda>_. tt) ?l)" using linv_timeouts[OF l, of tt] tt by simp
    moreover have "managedFileDescriptors (upd_tab Timeout (\<lambda>_. tt) ?l) \<noteq> []"
      using l by (simp add: linv_def fd_ok_def)
    ultimately show "safe (\<lambda>l'. linv0 w l') (case x of (tt, uu_) \<Rightarrow>
        case managedFileDescriptors (upd_tab Timeout (\<lambda>_. tt) ?l) of
          [] \<Rightarrow> Inl BadIndex
        | f # xs \<Rightarrow> Inr (if revents f \<noteq> 0 then wakeupAck (upd_tab Timeout (\<lambda>_. tt) ?l) else upd_tab Timeout (\<lambda>_. tt) ?l))"
      by (auto simp: x wakeupAck_def split: list.splits)
  qed
qed

lemma safe_check:
  assumes "linv0 w l"
  shows "safe (\<lambda>(b, l'). linv0 w l') (check_ready e l)"
  unfolding check_ready_def
proof (rule safe_bind[OF safe_check_fds[OF linv_wt[OF assms]]])
  fix tw assume tw: "marks_only (tab l Watch) tw"
  have w: "linv0 w (upd_tab Watch (\<lambda>_. tw) l)" using linv_marks[OF assms tw] by simp
  show "safe (\<lambda>(b, l'). linv0 w l') (ebind (check_sources e (registered (tab l Source)) (tab l Source)) (\<lambda>ts.
         Inr (toDispatch (tab l Timeout) \<noteq> [] \<or> toDispatch tw \<noteq> [] \<or> toDispatch ts \<noteq> [],
              upd_tab Source (\<lambda>_. ts) (upd_tab Watch (\<lambda>_. tw) l))))"
  proof (rule safe_bind[OF safe_check_sources[OF linv_wt[OF assms] order_refl]])
    fix ts assume ts: "marks_only (tab l Source) ts"
    have "linv0 w (upd_tab Source (\<lambda>_. ts) (upd_tab Watch (\<lambda>_. tw) l))"
      using linv_marks[OF w, of Source ts] ts by simp
    then show "safe (\<lambda>(b, l'). linv0 w l') (Inr (toDispatch (tab l Timeout) \<noteq> [] \<or> toDispatch tw \<noteq> [] \<or> toDispatch ts \<noteq> [],
              upd_tab Source (\<lambda>_. ts) (upd_tab Watch (\<lambda>_. tw) l)))" by simp
  qed
qed


section \<open>dispatch\<close>

lemma safe_set_executed:
  assumes "linv w pend l" "heap (tab l k) a = Some st"
  shows "safe (\<lambda>l'. linv w pend l' \<and> same_dispatch l l' \<and> heap (tab l' k) a = Some (st\<lparr>isExecuted := b\<rparr>)) (set_executed k a b l)"
  using linv_set_struct[OF assms, of "st\<lparr>isExecuted := b\<rparr>"]
  by (simp add: set_executed_def safe_deref[OF assms(2)] same_dispatch_def) (simp add: set_struct_def)

text \<open>A dispatched timeout is no longer pending.\<close>

abbreviation without :: "addr set \<Rightarrow> kind \<Rightarrow> addr \<Rightarrow> addr set" where
  "without pend k a \<equiv> (if k = Timeout then pend - {a} else pend)"

lemma linv_shrink: "linv w pend l \<Longrightarrow> pend' \<subseteq> pend \<Longrightarrow> linv w pend' l"
  unfolding linv_def tlink_def by blast

lemma linv_dispatched:
  assumes "linv w pend l" "heap (tab l k) a = Some st" "\<not> deleteObject st" "k = Timeout \<Longrightarrow> a \<in> pend"
  shows "linv w (without pend k a) (log_event (Dispatched k (object st)) l)"
proof -
  have t: "tlink k pend (trace l) (tab l k)" for k using assms(1) by (simp add: linv_def)
  have ok: "live k (object st) (trace l)" "k = Timeout \<Longrightarrow> fires (object st) (trace l) = 0 \<and> timeoutElapsed st"
    using t[of k] assms(2-4) unfolding tlink_def by blast+
  have same: "b = a" if "heap (tab l k) b = Some sb" "object sb = object st" for b sb
    using linv_wt[OF assms(1), of k] assms(2) that unfolding wtl_def by blast
  have "tlink k' (without pend k a) (trace l @ [Dispatched k (object st)]) (tab l k')" for k'
    unfolding tlink_def
  proof (intro allI impI)
    fix b sb assume h: "heap (tab l k') b = Some sb" "\<not> deleteObject sb"
    have "live k' (object sb) (trace l)"
      and f: "k' = Timeout \<longrightarrow> (b \<in> pend \<longrightarrow> timeoutElapsed sb) \<and> (b \<in> pend \<or> \<not> timeoutElapsed sb \<longrightarrow> fires (object sb) (trace l) = 0)"
      using t[of k'] h unfolding tlink_def by blast+
    moreover have "b = a \<and> timeoutElapsed sb" if "k = Timeout" "k' = Timeout" "object sb = object st"
      using same h that ok(2) assms(2) by auto
    ultimately show "live k' (object sb) (trace l @ [Dispatched k (object st)]) \<and>
        (k' = Timeout \<longrightarrow> (b \<in> without pend k a \<longrightarrow> timeoutElapsed sb) \<and>
           (b \<in> without pend k a \<or> \<not> timeoutElapsed sb \<longrightarrow> fires (object sb) (trace l @ [Dispatched k (object st)]) = 0))"
      by auto
  qed
  moreover have "hist k' (trace l @ [Dispatched k (object st)]) (tab l k')" for k'
    by (rule hist_log[OF linv_hist[OF assms(1)]])
  ultimately show ?thesis
    using assms(1) ok unfolding linv_def fd_ok_def by (auto simp: proper_append)
qed

lemma safe_call_dispatch:
  assumes "linv w pend l" "heap (tab l k) a = Some st" "\<not> deleteObject st" "k = Timeout \<Longrightarrow> a \<in> pend"
    and "obedient_env w e"
  shows "safe (\<lambda>(b, l'). linv w (without pend k a) l' \<and> same_dispatch l l') (call_dispatch e k a l)"
proof -
  obtain acts again where c: "callback e k (object st) (trace l) = (acts, again)" by fastforce
  have "obey_all w (trace l @ [Dispatched k (object st)]) acts"
    using assms(5) c unfolding obedient_env_def by (metis fst_conv)
  then have d: "safe (\<lambda>l'. linv w (without pend k a) l' \<and> same_dispatch (log_event (Dispatched k (object st)) l) l')
      (do_actions acts (log_event (Dispatched k (object st)) l))"
    using safe_do_actions[OF linv_dispatched[OF assms(1-4)], of acts] by simp
  have "safe (\<lambda>(b, l'). linv w (without pend k a) l' \<and> same_dispatch l l')
      (ebind (do_actions acts (log_event (Dispatched k (object st)) l)) (\<lambda>l'. Inr (again, l')))"
    by (rule safe_bind[OF d]) (auto simp: same_dispatch_def)
  then show ?thesis
    by (simp add: call_dispatch_def safe_deref[OF assms(2)] wtl_alive[OF linv_wt[OF assms(1)] assms(2)] c)
qed

lemma safe_dispatch_once:
  "obedient_env w e \<Longrightarrow> linv w pend l \<Longrightarrow> set r \<subseteq> set (toDispatch (tab l k)) \<Longrightarrow> distinct (map snd r) \<Longrightarrow> (k = Timeout \<Longrightarrow> snd ` set r \<subseteq> pend) \<Longrightarrow>
     safe (\<lambda>l'. linv w (if k = Timeout then pend - snd ` set r else pend) l' \<and> same_dispatch l l') (dispatch_once e k r l)"
proof (induction r arbitrary: l pend)
  case (Cons x r)
  obtain p a where x: "x = (p, a)" by (cases x)
  obtain st where st: "heap (tab l k) a = Some st" using linv_struct[OF Cons.prems(2), of p a k] Cons.prems(3) x by auto
  have sub: "set r \<subseteq> set (toDispatch (tab l k))" "distinct (map snd r)" "a \<notin> snd ` set r"
    using Cons.prems(3,4) x by auto
  let ?P = "\<lambda>l'. linv w (if k = Timeout then pend - snd ` set (x # r) else pend) l' \<and> same_dispatch l l'"
  have rest: "safe ?P (dispatch_once e k r l')" if "linv w (without pend k a) l'" "same_dispatch l l'" for l'
  proof -
    have "safe (\<lambda>l''. linv w (if k = Timeout then without pend k a - snd ` set r else without pend k a) l'' \<and> same_dispatch l' l'')
        (dispatch_once e k r l')"
      using that sub Cons.prems(5) x by (intro Cons.IH[OF Cons.prems(1)]) (auto simp: same_dispatch_def)
    then show ?thesis
      by (rule safe_mono) (use that(2) x in \<open>auto simp: Diff_insert2[symmetric] intro: same_dispatch_trans split: if_splits\<close>)
  qed
  show ?case
  proof (cases "deleteObject st")
    case True
    have "linv w (without pend k a) l" using linv_shrink[OF Cons.prems(2)] by auto
    then show ?thesis using rest[of l] True by (simp add: x safe_deref[OF st])
  next
    case False
    have "safe ?P (ebind (set_executed k a True l) (\<lambda>l1. ebind (call_dispatch e k a l1) (\<lambda>(_, l2).
           ebind (set_executed k a False l2) (dispatch_once e k r))))"
    proof (rule safe_bind[OF safe_set_executed[OF Cons.prems(2) st]])
      fix l1
      assume l1: "linv w pend l1 \<and> same_dispatch l l1 \<and> heap (tab l1 k) a = Some (st\<lparr>isExecuted := True\<rparr>)"
      have c: "safe (\<lambda>(b, l'). linv w (without pend k a) l' \<and> same_dispatch l1 l') (call_dispatch e k a l1)"
        using l1 False Cons.prems(1,5) x by (intro safe_call_dispatch[where st = "st\<lparr>isExecuted := True\<rparr>"]) auto
      show "safe ?P (ebind (call_dispatch e k a l1) (\<lambda>(_, l2). ebind (set_executed k a False l2) (dispatch_once e k r)))"
      proof (rule safe_bind[OF c])
        fix y :: "bool \<times> main_loop"
        assume "case y of (b, l') \<Rightarrow> linv w (without pend k a) l' \<and> same_dispatch l1 l'"
        then obtain b l2 where y: "y = (b, l2)" and l2: "linv w (without pend k a) l2" "same_dispatch l1 l2" by (cases y) auto
        have "(p, a) \<in> set (toDispatch (tab l2 k))"
          using Cons.prems(3) l1 l2(2) x by (auto simp: same_dispatch_def)
        then obtain s2 where s2: "heap (tab l2 k) a = Some s2" using linv_struct[OF l2(1)] by blast
        have "safe ?P (ebind (set_executed k a False l2) (dispatch_once e k r))"
        proof (rule safe_bind[OF safe_set_executed[OF l2(1) s2]])
          fix l3 assume l3: "linv w (without pend k a) l3 \<and> same_dispatch l2 l3 \<and> heap (tab l3 k) a = Some (s2\<lparr>isExecuted := False\<rparr>)"
          then have "same_dispatch l l3" using l1 l2(2) by (blast intro: same_dispatch_trans)
          then show "safe ?P (dispatch_once e k r l3)" using l3 by (intro rest) auto
        qed
        then show "safe ?P (case y of (_, l2) \<Rightarrow> ebind (set_executed k a False l2) (dispatch_once e k r))"
          by (simp add: y)
      qed
    qed
    then show ?thesis using False by (simp add: x safe_deref[OF st])
  qed
qed simp

lemma safe_drain_source:
  "obedient_env w e \<Longrightarrow> linv w pend l \<Longrightarrow> (p, a) \<in> set (toDispatch (tab l Source)) \<Longrightarrow>
     safe (\<lambda>l'. linv w pend l' \<and> same_dispatch l l') (drain_source n e a l)"
proof (induction n arbitrary: l)
  case (Suc n)
  obtain st where st: "heap (tab l Source) a = Some st" using linv_struct[OF Suc.prems(2,3)] by blast
  show ?case
  proof (cases "deleteObject st")
    case False
    have c: "safe (\<lambda>(b, l'). linv w pend l' \<and> same_dispatch l l') (call_dispatch e Source a l)"
      using safe_call_dispatch[OF Suc.prems(2) st False _ Suc.prems(1)] by simp
    have "safe (\<lambda>l'. linv w pend l' \<and> same_dispatch l l')
        (ebind (call_dispatch e Source a l) (\<lambda>(again, l'). if again then drain_source n e a l' else Inr l'))"
    proof (rule safe_bind[OF c])
      fix y :: "bool \<times> main_loop"
      assume "case y of (b, l') \<Rightarrow> linv w pend l' \<and> same_dispatch l l'"
      then obtain b l' where y: "y = (b, l')" and l': "linv w pend l'" "same_dispatch l l'" by (cases y) auto
      have "safe (\<lambda>l''. linv w pend l'' \<and> same_dispatch l l'') (drain_source n e a l')"
        using Suc.IH[OF Suc.prems(1) l'(1)] Suc.prems(3) l'(2)
        by (auto simp: same_dispatch_def elim!: safe_mono)
      then show "safe (\<lambda>l'. linv w pend l' \<and> same_dispatch l l') (case y of (again, l') \<Rightarrow> if again then drain_source n e a l' else Inr l')"
        using l' by (simp add: y)
    qed
    then show ?thesis using False by (simp add: safe_deref[OF st])
  qed (use Suc.prems in \<open>simp add: safe_deref[OF st]\<close>)
qed simp

lemma safe_dispatch_sources:
  "obedient_env w e \<Longrightarrow> linv w pend l \<Longrightarrow> set r \<subseteq> set (toDispatch (tab l Source)) \<Longrightarrow>
     safe (\<lambda>l'. linv w pend l' \<and> same_dispatch l l') (dispatch_sources n e r l)"
proof (induction r arbitrary: l)
  case (Cons x r)
  let ?P = "\<lambda>l'. linv w pend l' \<and> same_dispatch l l'"
  obtain p a where x: "x = (p, a)" by (cases x)
  have m: "(p, a) \<in> set (toDispatch (tab l Source))" "set r \<subseteq> set (toDispatch (tab l Source))" using Cons.prems(3) x by auto
  obtain st where st: "heap (tab l Source) a = Some st" using linv_struct[OF Cons.prems(2) m(1)] by auto
  have rest: "safe ?P (dispatch_sources n e r l')" if "linv w pend l'" "same_dispatch l l'" for l'
    using Cons.IH[OF Cons.prems(1) that(1)] that(2) m(2) by (auto simp: same_dispatch_def elim!: safe_mono)
  have "safe ?P (ebind (set_executed Source a True l) (\<lambda>l1. ebind (drain_source n e a l1) (\<lambda>l2.
            ebind (set_executed Source a False l2) (dispatch_sources n e r))))"
  proof (rule safe_bind[OF safe_set_executed[OF Cons.prems(2) st]])
    fix l1
    assume "linv w pend l1 \<and> same_dispatch l l1 \<and> heap (tab l1 Source) a = Some (st\<lparr>isExecuted := True\<rparr>)"
    then have l1: "linv w pend l1" "same_dispatch l l1" "(p, a) \<in> set (toDispatch (tab l1 Source))"
      using m(1) by (auto simp: same_dispatch_def)
    show "safe ?P (ebind (drain_source n e a l1) (\<lambda>l2. ebind (set_executed Source a False l2) (dispatch_sources n e r)))"
    proof (rule safe_bind[OF safe_drain_source[OF Cons.prems(1) l1(1,3)]])
      fix l2 assume "linv w pend l2 \<and> same_dispatch l1 l2"
      then have l2: "linv w pend l2" "same_dispatch l l2" "(p, a) \<in> set (toDispatch (tab l2 Source))"
        using l1 by (auto simp: same_dispatch_def)
      then obtain s2 where s2: "heap (tab l2 Source) a = Some s2" using linv_struct[OF l2(1)] by blast
      show "safe ?P (ebind (set_executed Source a False l2) (dispatch_sources n e r))"
        by (rule safe_bind[OF safe_set_executed[OF l2(1) s2]])
          (use l2(2) in \<open>auto intro!: rest intro: same_dispatch_trans\<close>)
    qed
  qed
  then show ?case using Cons.prems(2) rest[OF Cons.prems(2)] by (simp add: x safe_deref[OF st])
qed simp

lemma linv_clear:
  assumes "linv w pend l" "k = Timeout \<Longrightarrow> pend = {}"
  shows "linv w pend (clear_dispatch k l)"
proof -
  have "wtl L t \<Longrightarrow> wtl L (t\<lparr>toDispatch := []\<rparr>)" for L t unfolding wtl_def by auto
  moreover have "tlink k' p tr t \<Longrightarrow> tlink k' p tr (t\<lparr>toDispatch := []\<rparr>)" for k' p tr t
    unfolding tlink_def by simp
  moreover have "hist k' tr t \<Longrightarrow> hist k' tr (t\<lparr>toDispatch := []\<rparr>)" for k' tr t
    unfolding hist_def by simp
  ultimately show ?thesis
    using assms unfolding linv_def fd_ok_def clear_dispatch_def by auto
qed

lemma safe_dispatch_kind:
  assumes "obedient_env w e" "linv w pend l" "k = Timeout \<Longrightarrow> pend = pending_of (tab l Timeout)"
  shows "safe (\<lambda>l'. linv w (if k = Timeout then {} else pend) l' \<and> toDispatch (tab l' k) = [] \<and>
           (\<forall>k'. k' \<noteq> k \<longrightarrow> toDispatch (tab l' k') = toDispatch (tab l k'))) (dispatch_kind e k l)"
proof -
  have w: "wt (tab l k)" by (rule linv_wt[OF assms(2)])
  have d: "distinct (map snd (toDispatch (tab l k)))"
    using w unfolding wtl_def distinct_map by (metis inj_on_subset)
  show ?thesis
    unfolding dispatch_kind_def
    by (rule safe_bind[OF safe_dispatch_once[OF assms(1,2) order_refl d]])
      (use assms(3) linv_clear in \<open>auto simp: clear_dispatch_def same_dispatch_def split: if_splits\<close>)
qed

lemma safe_dispatch:
  assumes "obedient_env w e" "linv0 w l"
  shows "safe (\<lambda>l'. linv0 w l' \<and> (\<forall>k. toDispatch (tab l' k) = [])) (dispatch n e l)"
  unfolding dispatch_def
proof (rule safe_bind[OF safe_dispatch_kind[OF assms refl]])
  fix l1
  assume l1: "linv w (if Timeout = Timeout then {} else pending_of (tab l Timeout)) l1 \<and> toDispatch (tab l1 Timeout) = [] \<and>
      (\<forall>k'. k' \<noteq> Timeout \<longrightarrow> toDispatch (tab l1 k') = toDispatch (tab l k'))"
  then have i1: "linv w {} l1" by simp
  show "safe (\<lambda>l'. linv0 w l' \<and> (\<forall>k. toDispatch (tab l' k) = []))
     (ebind (dispatch_kind e Watch l1) (\<lambda>l2. if toDispatch (tab l2 Source) = [] then Inr l2
         else ebind (dispatch_sources n e (toDispatch (tab l2 Source)) (l2\<lparr>isBroken := False\<rparr>)) (\<lambda>l3. Inr (clear_dispatch Source l3))))"
  proof (rule safe_bind[OF safe_dispatch_kind[OF assms(1) i1]])
    fix l2
    assume "linv w (if Watch = Timeout then {} else {}) l2 \<and> toDispatch (tab l2 Watch) = [] \<and>
      (\<forall>k'. k' \<noteq> Watch \<longrightarrow> toDispatch (tab l2 k') = toDispatch (tab l1 k'))"
    then have l2: "linv w {} l2" "toDispatch (tab l2 Watch) = []" "toDispatch (tab l2 Timeout) = []"
      using l1 by auto
    have all: "toDispatch (tab l' k) = []"
      if "toDispatch (tab l' Source) = []" "toDispatch (tab l' Watch) = []" "toDispatch (tab l' Timeout) = []" for l' k
      using that by (cases k) auto
    have s: "safe (\<lambda>l'. linv0 w l' \<and> (\<forall>k. toDispatch (tab l' k) = []))
        (ebind (dispatch_sources n e (toDispatch (tab l2 Source)) (l2\<lparr>isBroken := False\<rparr>)) (\<lambda>l3. Inr (clear_dispatch Source l3)))"
    proof (rule safe_bind)
      show "safe (\<lambda>l'. linv w {} l' \<and> same_dispatch (l2\<lparr>isBroken := False\<rparr>) l')
          (dispatch_sources n e (toDispatch (tab l2 Source)) (l2\<lparr>isBroken := False\<rparr>))"
        by (rule safe_dispatch_sources) (simp_all add: l2 assms(1))
      fix l3 assume "linv w {} l3 \<and> same_dispatch (l2\<lparr>isBroken := False\<rparr>) l3"
      then have l3: "linv w {} (clear_dispatch Source l3)" "toDispatch (tab l3 Watch) = []" "toDispatch (tab l3 Timeout) = []"
        using l2 linv_clear[of w "{}" l3 Source] by (auto simp: same_dispatch_def)
      then show "safe (\<lambda>l'. linv0 w l' \<and> (\<forall>k. toDispatch (tab l' k) = [])) (Inr (clear_dispatch Source l3))"
        using all[of "clear_dispatch Source l3"] by (simp add: clear_dispatch_def)
    qed
    show "safe (\<lambda>l'. linv0 w l' \<and> (\<forall>k. toDispatch (tab l' k) = [])) (if toDispatch (tab l2 Source) = [] then Inr l2
         else ebind (dispatch_sources n e (toDispatch (tab l2 Source)) (l2\<lparr>isBroken := False\<rparr>)) (\<lambda>l3. Inr (clear_dispatch Source l3)))"
      using s l2 all[of l2] by simp
  qed simp
qed

section \<open>Iterations\<close>

lemma linv0_same: "linv0 w l \<Longrightarrow> same_dispatch l l' \<Longrightarrow> linv w (pending_of (tab l Timeout)) l' \<Longrightarrow> linv0 w l'"
  by (simp add: same_dispatch_def)

lemma safe_collect0: "linv0 w l \<Longrightarrow> safe (linv0 w) (collect k l)"
  using safe_collect[of w _ l k] by (rule safe_mono) (auto intro: linv0_same)

lemma safe_iteration: "obedient_env w e \<Longrightarrow> linv0 w l \<Longrightarrow> safe (linv0 w) (doSingleIteration n e timeout l)"
  unfolding doSingleIteration_def
proof (rule safe_bind[OF safe_collect0], assumption)
  fix l1 assume e: "obedient_env w e" and i: "linv0 w l1"
  from i show "safe (linv0 w) (ebind (collect Watch l1) (\<lambda>l2. ebind (collect Timeout l2) (\<lambda>l3. ebind (prepare e timeout l3) (\<lambda>(ready, l4).
             if ready then dispatch n e l4
             else ebind (poll e l4) (\<lambda>l5.
               ebind (check_ready e l5) (\<lambda>(ready', l6). if ready' then dispatch n e l6 else Inr l6))))))"
  proof (rule safe_bind[OF safe_collect0 safe_bind[OF safe_collect0 safe_bind[OF safe_prepare]]])
    fix y :: "bool \<times> main_loop"
    assume "case y of (b, l') \<Rightarrow> linv0 w l'"
    then obtain b l4 where y: "y = (b, l4)" and l4: "linv0 w l4" by (cases y) auto
    have d: "safe (linv0 w) (dispatch n e l')" if "linv0 w l'" for l'
      using safe_dispatch[OF e that] by (rule safe_mono) blast
    have "safe (linv0 w) (ebind (poll e l4) (\<lambda>l5. ebind (check_ready e l5) (\<lambda>(ready', l6). if ready' then dispatch n e l6 else Inr l6)))"
      by (rule safe_bind[OF safe_poll[OF l4] safe_bind[OF safe_check]]) (auto intro: d)
    then show "safe (linv0 w) (case y of (ready, l4) \<Rightarrow> if ready then dispatch n e l4
             else ebind (poll e l4) (\<lambda>l5. ebind (check_ready e l5) (\<lambda>(ready', l6). if ready' then dispatch n e l6 else Inr l6)))"
      using d[OF l4] by (simp add: y)
  qed
qed

lemma safe_run_loop: "\<forall>e \<in> set es. obedient_env w e \<Longrightarrow> linv0 w l \<Longrightarrow> safe (linv0 w) (run_loop n timeout es l)"
proof (induction es arbitrary: l)
  case (Cons e es)
  have "safe (linv0 w) (ebind (doSingleIteration n e timeout l) (run_loop n timeout es))"
    using Cons.prems(1) by (intro safe_bind[OF safe_iteration[OF _ Cons.prems(2)] Cons.IH]) auto
  then show ?case using Cons.prems by simp
qed simp

lemma linv_new: "linv0 (fd w) (new_main_loop w forever)"
  by (simp add: linv_def new_main_loop_def registerFileDescriptor_def empty_table_def wtl_def tlink_def hist_def fd_ok_def proper_def)

lemma linv_pending: "linv w pend l \<Longrightarrow> \<forall>k. toDispatch (tab l k) = [] \<Longrightarrow> pend = {}"
  unfolding linv_def by simp

end
