(* ===== verification/Main_Loop_Props.thy ===== *)
theory Main_Loop_Props
  imports Main_Loop_Phases
begin

text \<open>What the invariant of the main loop gives for its users, and the bounds of an iteration.\<close>

section \<open>Uses of the loop\<close>

text \<open>
  A program uses the loop: other parts register and unregister objects between the iterations
  (all through \<open>do_action\<close>, depending on what has happened), and the loop iterates.
\<close>

datatype use_step = Actions "levent list \<Rightarrow> action list" | Iterate env int

fun use_loop :: "nat \<Rightarrow> use_step list \<Rightarrow> main_loop \<Rightarrow> main_loop loop_result" where
  "use_loop n [] l = Inr l"
| "use_loop n (Actions f # us) l = ebind (do_actions (f (trace l)) l) (use_loop n us)"
| "use_loop n (Iterate e timeout # us) l = ebind (doSingleIteration n e timeout l) (use_loop n us)"

text \<open>The program respects what the loop expects (\<open>obeys\<close>), in callbacks and outside.\<close>

fun obedient_step :: "int \<Rightarrow> use_step \<Rightarrow> bool" where
  "obedient_step w (Actions f) = (\<forall>tr. obey_all w tr (f tr))"
| "obedient_step w (Iterate e timeout) = obedient_env w e"

definition obedient :: "int \<Rightarrow> use_step list \<Rightarrow> bool" where
  "obedient w us \<longleftrightarrow> (\<forall>u \<in> set us. obedient_step w u)"

lemma obedient_simps [simp]: "obedient w []" "obedient w (u # us) \<longleftrightarrow> obedient_step w u \<and> obedient w us"
  by (simp_all add: obedient_def)

lemma safe_use_loop: "obedient w us \<Longrightarrow> linv0 w l \<Longrightarrow> safe (linv0 w) (use_loop n us l)"
proof (induction n us l rule: use_loop.induct)
  case (2 n f us l)
  have f: "obey_all w (trace l) (f (trace l))" using 2(2) by simp
  have "safe (linv0 w) (do_actions (f (trace l)) l)"
    using safe_do_actions[OF 2(3) f] by (rule safe_mono) (auto intro: linv0_same[OF 2(3)])
  then show ?case using 2(1,2) by (auto intro: safe_bind)
next
  case (3 n e timeout us l)
  have e: "obedient_env w e" and us: "obedient w us" using 3(2) by simp_all
  show ?case unfolding use_loop.simps by (rule safe_bind[OF safe_iteration[OF e 3(3)] 3(1)[OF us]])
qed simp

text \<open>C6: If every object is handed to the loop once (it is registered at most once, a watch is unregistered at most once, and no
  watch is on the descriptor of the loop itself), the main loop never uses a struct or an object after freeing it, and never
  reads a missing descriptor, whatever else callbacks and other code register and unregister.
  A timeout that is registered again after its unregistration is used after it was freed: \<open>registered_again_is_used_after_free\<close>.\<close>

theorem main_loop_memory_safe:
  assumes "obedient (fd w) us"
  shows "use_loop n us (new_main_loop w forever) \<noteq> Inl UseAfterFree \<and> use_loop n us (new_main_loop w forever) \<noteq> Inl BadIndex"
  using safe_use_loop[OF assms linv_new, of n forever] by (auto simp: safe_def)

lemma use_loop_proper:
  assumes "obedient (fd w) us" "use_loop n us (new_main_loop w forever) = Inr l"
  shows "proper (trace l)"
  using safe_use_loop[OF assms(1) linv_new, of n forever] assms(2) by (simp add: linv_def)

text \<open>An example: a timeout that is due at 5, and a source that is ready and unregisters itself.\<close>

definition example_env :: "int \<Rightarrow> env" where
  "example_env now = \<lparr>prep = (\<lambda>ob. (ob = 2, -1)), readyTime = (\<lambda>_. 5), chk = (\<lambda>_. False),
     callback = (\<lambda>k ob tr. (if k = Source then [DoUnregister Source 2 \<lparr>fd = 0, pevents = 0, revents = 0\<rparr>] else [], False)),
     now_before = now, now_after = now, os_poll = (\<lambda>fds i. (map (\<lambda>_. 0) fds, 0)), timeout_infinite = 2 ^ 63 - 1\<rparr>"

definition example_loop :: main_loop where
  "example_loop = new_main_loop \<lparr>fd = 3, pevents = 1, revents = 0\<rparr> (2 ^ 63 - 1)"

definition example_uses :: "use_step list" where
  "example_uses =
     [Actions (once 3 [DoRegister Timeout 10 1 0 \<lparr>fd = 0, pevents = 0, revents = 0\<rparr>,
               DoRegister Source 20 2 0 \<lparr>fd = 0, pevents = 0, revents = 0\<rparr>]),
      Iterate (example_env 7) 100, Iterate (example_env 9) 100]"

definition run_trace :: "main_loop loop_result \<Rightarrow> levent list option" where
  "run_trace r = (case r of Inl _ \<Rightarrow> None | Inr l \<Rightarrow> Some (trace l))"

lemma example_runs:
  "run_trace (use_loop 5 example_uses example_loop) =
     Some [Registered Timeout 1, Registered Source 2, Dispatched Timeout 1, Dispatched Source 2, Unregistered Source 2]"
  by code_simp

lemma example_env_obedient [simp]: "obedient_env 3 (example_env now)"
  by (simp add: obedient_env_def example_env_def)

lemma main_loop_memory_safe_witness:
  "use_loop 5 example_uses example_loop \<noteq> Inl UseAfterFree \<and> use_loop 5 example_uses example_loop \<noteq> Inl BadIndex"
  unfolding example_loop_def by (rule main_loop_memory_safe) (simp add: example_uses_def)

text \<open>The contract is needed. A program that unregisters a timeout and registers it again, in one go as a callback would:
  the loop deletes the timeout for its first registration, and asks it for its time for the second.\<close>

lemma registered_again_is_used_after_free:
  "case use_loop 5
      [Actions (\<lambda>_. [DoRegister Timeout 10 1 0 \<lparr>fd = 0, pevents = 0, revents = 0\<rparr>]), Iterate (example_env 1) 100,
       Actions (\<lambda>_. [DoUnregister Timeout 1 \<lparr>fd = 0, pevents = 0, revents = 0\<rparr>,
                     DoRegister Timeout 11 1 0 \<lparr>fd = 0, pevents = 0, revents = 0\<rparr>]), Iterate (example_env 2) 100]
      example_loop of Inl err \<Rightarrow> err = UseAfterFree | Inr l \<Rightarrow> False"
  by code_simp

lemma live_registered:
  "i \<le> length tr \<Longrightarrow> live k ob (take i tr) \<Longrightarrow>
     \<exists>j < i. tr ! j = Registered k ob \<and> (\<forall>m. j < m \<and> m < i \<longrightarrow> tr ! m \<noteq> Unregistered k ob)"
proof (induction i)
  case (Suc i)
  have t: "take (Suc i) tr = take i tr @ [tr ! i]" using Suc.prems(1) by (simp add: take_Suc_conv_app_nth)
  show ?case
  proof (cases "tr ! i = Registered k ob")
    case False
    then have "live k ob (take i tr)" "tr ! i \<noteq> Unregistered k ob"
      using Suc.prems(2) unfolding t by (cases "tr ! i"; auto)+
    then obtain j where "j < i" "tr ! j = Registered k ob" "\<forall>m. j < m \<and> m < i \<longrightarrow> tr ! m \<noteq> Unregistered k ob"
      using Suc by auto
    then show ?thesis using \<open>tr ! i \<noteq> Unregistered k ob\<close> by (intro exI[of _ j]) (auto simp: less_Suc_eq)
  qed (auto intro: exI[of _ i])
qed (simp add: live_def)

lemma fires_pos:
  "i < j \<Longrightarrow> j < length tr \<Longrightarrow> tr ! i = Dispatched Timeout ob \<Longrightarrow>
     (\<And>m. i < m \<Longrightarrow> m < j \<Longrightarrow> tr ! m \<noteq> Registered Timeout ob) \<Longrightarrow> 0 < fires ob (take j tr)"
proof (induction j)
  case (Suc j)
  have t: "take (Suc j) tr = take j tr @ [tr ! j]" using Suc.prems(2) by (simp add: take_Suc_conv_app_nth)
  show ?case
  proof (cases "i = j")
    case False
    then have "0 < fires ob (take j tr)" "tr ! j \<noteq> Registered Timeout ob" using Suc by auto
    then show ?thesis unfolding t by (cases "tr ! j") auto
  qed (use Suc.prems(3) in \<open>simp add: t\<close>)
qed simp

lemma dispatched_before:
  assumes "proper tr" "i < length tr" "tr ! i = Dispatched k ob"
  shows "\<exists>r < i. tr ! r = Registered k ob"
proof -
  have "live k ob (take i tr)" using assms unfolding proper_def by blast
  then show ?thesis using live_registered[of i tr k ob] assms(2) by auto
qed

text \<open>C32: An object is dispatched only between its registration and its unregistration, also when
  the unregistration happens in a callback of the same iteration. (Every object is registered at most once, see C6;
  if one is registered twice, an unregistration leaves its other struct in place.)\<close>

theorem dispatched_only_while_registered:
  assumes "obedient (fd w) us" "use_loop n us (new_main_loop w forever) = Inr l" "i < length (trace l)" "trace l ! i = Dispatched k ob"
  shows "\<exists>j < i. trace l ! j = Registered k ob \<and> (\<forall>m. j < m \<and> m < i \<longrightarrow> trace l ! m \<noteq> Unregistered k ob)"
proof -
  have "live k ob (take i (trace l))"
    using use_loop_proper[OF assms(1,2)] assms(3,4) unfolding proper_def by blast
  then show ?thesis using live_registered[of i "trace l" k ob] assms(3) by simp
qed

lemma dispatched_only_while_registered_witness:
  "\<exists>l j. use_loop 5 example_uses example_loop = Inr l \<and> j < 3 \<and> trace l ! j = Registered Source 2"
proof -
  obtain l where l: "use_loop 5 example_uses example_loop = Inr l"
      "trace l = [Registered Timeout 1, Registered Source 2, Dispatched Timeout 1, Dispatched Source 2, Unregistered Source 2]"
    using example_runs by (auto simp: run_trace_def split: sum.splits)
  have "\<exists>j < 3. trace l ! j = Registered Source 2 \<and> (\<forall>m. j < m \<and> m < 3 \<longrightarrow> trace l ! m \<noteq> Unregistered Source 2)"
    by (rule dispatched_only_while_registered[OF _ l(1)[unfolded example_loop_def]]) (simp_all add: l(2) example_uses_def)
  then show ?thesis using l(1) by blast
qed

text \<open>A timeout fires at most once. (\<open>timeoutElapsed_\<close> is set and never cleared.)\<close>

lemma timeout_fires_once:
  assumes "obedient (fd w) us" "use_loop n us (new_main_loop w forever) = Inr l" "i < j" "j < length (trace l)"
    and "trace l ! i = Dispatched Timeout ob"
  shows "trace l ! j \<noteq> Dispatched Timeout ob"
proof
  assume d: "trace l ! j = Dispatched Timeout ob"
  note p = use_loop_proper[OF assms(1,2)]
  obtain r where r: "r < i" "trace l ! r = Registered Timeout ob"
    using dispatched_before[OF p] assms(3-5) by (meson less_trans)
  have "trace l ! m \<noteq> Registered Timeout ob" if "i < m" "m < j" for m
  proof -
    have "Registered Timeout ob \<in> set (take m (trace l))"
      using r that assms(4) by (auto simp: in_set_conv_nth intro!: exI[of _ r])
    then show ?thesis using p that(2) assms(4) unfolding proper_def by (metis less_trans)
  qed
  then have "0 < fires ob (take j (trace l))" by (rule fires_pos[OF assms(3,4,5)])
  moreover have "fires ob (take j (trace l)) = 0" using p assms(4) d unfolding proper_def by blast
  ultimately show False by simp
qed

section \<open>Deletion\<close>

text \<open>What the loop over the registered objects keeps: the element behind an erased one is skipped.\<close>

fun sweep :: "('a \<Rightarrow> bool) \<Rightarrow> 'a list \<Rightarrow> 'a list" where
  "sweep g [] = []"
| "sweep g (x # r) = (if g x then (case r of [] \<Rightarrow> [] | y # ys \<Rightarrow> y # sweep g ys) else x # sweep g r)"

lemma sweep_halves: "length (filter g (sweep g xs)) \<le> length (filter g xs) div 2"
proof (induction g xs rule: sweep.induct)
  case (2 g x r)
  then show ?case by (cases r) (auto split: if_splits)
qed simp

lemma sweep_live: "filter (\<lambda>x. \<not> g x) (sweep g xs) = filter (\<lambda>x. \<not> g x) xs"
proof (induction g xs rule: sweep.induct)
  case (2 g x r)
  then show ?case by (cases r) auto
qed simp

lemma sweep_cong: "(\<And>x. x \<in> set xs \<Longrightarrow> g x = h x) \<Longrightarrow> sweep g xs = sweep h xs"
proof (induction g xs rule: sweep.induct)
  case (2 g x r)
  then show ?case by (cases r) auto
qed simp

definition garbage :: "table \<Rightarrow> prio \<times> addr \<Rightarrow> bool" where
  "garbage t e = (case heap t (snd e) of Some st \<Rightarrow> deleteObject st \<and> \<not> isExecuted st | None \<Rightarrow> False)"

lemma collect_loop_sweep:
  "wtl (K @ r) t \<Longrightarrow> toDispatch t = [] \<Longrightarrow> \<exists>t'. collect_loop r t = Inr (sweep (garbage t) r, t')"
proof (induction r t arbitrary: K rule: collect_loop.induct)
  case (2 p a r t)
  obtain st where st: "heap t a = Some st" using wtl_deref[OF 2(3), of p a] by auto
  have g: "garbage t (p, a) \<longleftrightarrow> deleteObject st \<and> \<not> isExecuted st" by (simp add: garbage_def st)
  show ?case
  proof (cases "deleteObject st \<and> \<not> isExecuted st")
    case False
    have "\<exists>t'. collect_loop r t = Inr (sweep (garbage t) r, t')"
      by (rule 2(1)[where K = "K @ [(p, a)]"]) (use 2(3,4) in auto)
    then show ?thesis using False g by (auto simp: safe_deref[OF st])
  next
    case True
    let ?t = "free_struct a (object st) t"
    have w: "wtl (K @ r) ?t" by (rule wtl_free[OF 2(3) st]) (simp add: 2(4))
    show ?thesis
    proof (cases r)
      case Nil
      then show ?thesis using True g 2(4) by (simp add: safe_deref[OF st])
    next
      case (Cons y ys)
      have "\<exists>t'. collect_loop ys ?t = Inr (sweep (garbage ?t) ys, t')"
        by (rule 2(2)[where K = "K @ [y]"]) (use w 2(4) Cons in \<open>auto simp: free_struct_def\<close>)
      moreover have "a \<notin> snd ` set ys" using 2(3) Cons unfolding wtl_def by auto
      then have "sweep (garbage ?t) ys = sweep (garbage t) ys"
        by (intro sweep_cong) (auto simp: garbage_def free_struct_def)
      ultimately show ?thesis using True g 2(4) Cons by (auto simp: safe_deref[OF st])
    qed
  qed
qed simp

text \<open>One run of the deletion loop keeps every object in use and at least halves the number of
  unregistered objects; it does not delete all of them, because the element behind an erased one
  is skipped.\<close>

theorem collect_halves_garbage:
  assumes "linv0 w l" "toDispatch (tab l k) = []"
  shows "case collect k l of Inl err \<Rightarrow> False
     | Inr l' \<Rightarrow>
         filter (\<lambda>e. \<not> garbage (tab l k) e) (registered (tab l' k)) = filter (\<lambda>e. \<not> garbage (tab l k) e) (registered (tab l k))
         \<and> length (filter (garbage (tab l k)) (registered (tab l' k)))
             \<le> length (filter (garbage (tab l k)) (registered (tab l k))) div 2"
proof -
  obtain t' where "collect_loop (registered (tab l k)) (tab l k) = Inr (sweep (garbage (tab l k)) (registered (tab l k)), t')"
    using collect_loop_sweep[of "[]" "registered (tab l k)" "tab l k"] linv_wt[OF assms(1), of k] assms(2) by auto
  then show ?thesis
    using sweep_halves[of "garbage (tab l k)" "registered (tab l k)"]
    by (simp add: collect_def sweep_live)
qed

definition example_garbage :: "use_step list" where
  "example_garbage =
     [Actions (once 3 (map (\<lambda>i. DoRegister Source i i 0 \<lparr>fd = 0, pevents = 0, revents = 0\<rparr>) [1, 2, 3])),
      Actions (once 3 (map (\<lambda>i. DoUnregister Source i \<lparr>fd = 0, pevents = 0, revents = 0\<rparr>) [1, 2, 3]))]"

lemma example_garbage_runs:
  "(case use_loop 5 example_garbage example_loop of Inl err \<Rightarrow> False
    | Inr l \<Rightarrow> toDispatch (tab l Source) = [] \<and> length (filter (garbage (tab l Source)) (registered (tab l Source))) = 3)"
  by code_simp

lemma collect_halves_garbage_witness:
  "\<exists>l l'. use_loop 5 example_garbage example_loop = Inr l \<and> collect Source l = Inr l' \<and>
     length (filter (garbage (tab l Source)) (registered (tab l' Source))) \<le> 1"
proof -
  obtain l where l: "use_loop 5 example_garbage example_loop = Inr l" "toDispatch (tab l Source) = []"
      "length (filter (garbage (tab l Source)) (registered (tab l Source))) = 3"
    using example_garbage_runs by (auto split: sum.splits)
  have "obedient (fd \<lparr>fd = 3, pevents = 1, revents = 0\<rparr>) example_garbage" by (simp add: example_garbage_def)
  from safe_use_loop[OF this linv_new, of 5 "2 ^ 63 - 1"] have i: "linv0 3 l"
    using l(1) unfolding example_loop_def by (simp add: safe_def)
  show ?thesis using collect_halves_garbage[OF i l(2)] l(1,3) by (auto split: sum.splits)
qed

section \<open>The time to poll\<close>

lemma prepare_timeouts_marks:
  "prepare_timeouts e now r (t, i) = Inr (t', i') \<Longrightarrow> set (toDispatch t) \<subseteq> set (toDispatch t')"
proof (induction r arbitrary: t i)
  case (Cons x r)
  obtain p a where x: "x = (p, a)" by (cases x)
  show ?case
    using Cons.prems Cons.IH
    by (auto simp: x deref_def alive_def Let_def mark_to_dispatch_def set_struct_def split: option.splits if_splits;
        force)
qed simp

lemma prepare_timeouts_interval:
  assumes "prepare_timeouts e now r (t, i) = Inr (t', i')" "toDispatch t' = []"
  shows "i' \<le> i \<and> t' = t \<and> (\<forall>(p, a) \<in> set r. \<forall>st. heap t a = Some st \<longrightarrow> \<not> deleteObject st \<longrightarrow> \<not> timeoutElapsed st \<longrightarrow>
     i' \<le> readyTime e (object st) - now)"
  using assms(1)
proof (induction r arbitrary: i)
  case (Cons x r)
  obtain p a where x: "x = (p, a)" by (cases x)
  obtain st where st: "heap t a = Some st" using Cons.prems by (cases "heap t a") (auto simp: x deref_def)
  show ?case
  proof (cases "deleteObject st \<or> timeoutElapsed st")
    case True
    then show ?thesis using Cons.IH[of i] Cons.prems st by (auto simp: x safe_deref)
  next
    case False
    let ?d = "readyTime e (object st) - now"
    have "object st \<notin> destroyed t" using Cons.prems False st by (auto simp: x safe_deref alive_def split: if_splits)
    moreover have "0 < ?d"
    proof (rule ccontr)
      assume "\<not> 0 < ?d"
      then have "prepare_timeouts e now r (mark_to_dispatch (p, a) (set_struct a (st\<lparr>timeoutElapsed := True\<rparr>) t), 0) = Inr (t', i')"
        using Cons.prems False st \<open>object st \<notin> destroyed t\<close> by (simp add: x safe_deref alive_def Let_def)
      from prepare_timeouts_marks[OF this] show False using assms(2) by (simp add: mark_to_dispatch_def)
    qed
    ultimately have "prepare_timeouts e now r (t, min ?d i) = Inr (t', i')"
      using Cons.prems False st by (auto simp: x safe_deref alive_def Let_def min_def split: if_splits)
    then show ?thesis using Cons.IH[of "min ?d i"] st by (auto simp: x)
  qed
qed simp

lemma prepare_sources_interval:
  "prepare_sources e r (t, i) = Inr (t', i') \<Longrightarrow> i' \<le> i"
proof (induction r arbitrary: t i)
  case (Cons x r)
  obtain p a where x: "x = (p, a)" by (cases x)
  show ?case
    using Cons.prems
    by (auto simp: x deref_def alive_def split: option.splits if_splits prod.splits dest!: Cons.IH)
qed simp

text \<open>If nothing is ready, the interval that \<open>poll\<close> gets is at most the timeout of the caller
  and at most the time until any pending timeout is due, provided that it fits into an \<open>int\<close>.\<close>

theorem poll_never_oversleeps:
  assumes "prepare e timeout l = Inr (False, l')"
    and "(p, a) \<in> set (registered (tab l Timeout))" "heap (tab l Timeout) a = Some st"
    and "\<not> deleteObject st" "\<not> timeoutElapsed st"
    and "0 \<le> currentMinimalTimeoutInterval l'" "currentMinimalTimeoutInterval l' < 2 ^ 31"
  shows "signed_take_bit 31 (currentMinimalTimeoutInterval l') \<le> min timeout (readyTime e (object st) - now_before e)"
proof -
  obtain ts i where s: "prepare_sources e (registered (tab l Source)) (tab l Source, timeout) = Inr (ts, i)"
    using assms(1) by (cases "prepare_sources e (registered (tab l Source)) (tab l Source, timeout)") (auto simp: prepare_def)
  obtain tt i' where t: "prepare_timeouts e (now_before e) (registered (tab l Timeout)) (tab l Timeout, i) = Inr (tt, i')"
    using assms(1) s
    by (cases "prepare_timeouts e (now_before e) (registered (tab l Timeout)) (tab l Timeout, i)") (auto simp: prepare_def)
  have n: "toDispatch tt = []" and i': "currentMinimalTimeoutInterval l' = i'"
    using assms(1) s t by (auto simp: prepare_def)
  have "i' \<le> i" "i' \<le> readyTime e (object st) - now_before e"
    using prepare_timeouts_interval[OF t n] assms(2-5) by auto
  moreover have "i \<le> timeout" by (rule prepare_sources_interval[OF s])
  moreover have "signed_take_bit 31 i' = i'"
    using assms(6,7) by (intro signed_take_bit_int_eq_self) (simp_all add: i')
  ultimately show ?thesis by (simp add: i')
qed

lemma example_prepares:
  "case prepare (example_env 1) 100 (registerTimeout 10 1 0 example_loop) of
     Inl err \<Rightarrow> False | Inr (b, l') \<Rightarrow> \<not> b \<and> currentMinimalTimeoutInterval l' = 4"
  by code_simp

lemma poll_never_oversleeps_witness:
  "\<exists>l'. prepare (example_env 1) 100 (registerTimeout 10 1 0 example_loop) = Inr (False, l') \<and>
     signed_take_bit 31 (currentMinimalTimeoutInterval l') \<le> 4"
proof -
  let ?l = "registerTimeout 10 1 0 example_loop"
  obtain l' where l': "prepare (example_env 1) 100 ?l = Inr (False, l')" "currentMinimalTimeoutInterval l' = 4"
    using example_prepares by (auto split: sum.splits)
  have r: "(0, 10) \<in> set (registered (tab ?l Timeout))"
    "heap (tab ?l Timeout) 10 = Some \<lparr>object = 1, isExecuted = False, deleteObject = False, timeoutElapsed = False, watchFd = 0\<rparr>"
    by (simp_all add: registerTimeout_def add_struct_def multimap_insert_def example_loop_def new_main_loop_def
        registerFileDescriptor_def empty_table_def)
  have "signed_take_bit 31 (currentMinimalTimeoutInterval l') \<le> min 100 (readyTime (example_env 1) 1 - now_before (example_env 1))"
    using poll_never_oversleeps[OF l'(1) r] l'(2) by simp
  then show ?thesis using l'(1) by (simp add: example_env_def)
qed

text \<open>An interval of 25 days or more becomes negative, which means that \<open>poll\<close> waits without limit.\<close>

lemma long_interval_waits_forever: "signed_take_bit 31 (2 ^ 31 :: int) = - (2 ^ 31)"
  by code_simp

end
