(* ===== verification/Service_Registry.thy ===== *)
theory Service_Registry
  imports Prelude
begin

text \<open>
  The service registry (\<open>DBusServiceRegistry.cpp\<close>): which well-known names are owned by which
  connections, which interfaces live at their object paths, and which listeners of proxies are
  told about it. Requests to the daemon and to object managers, calls of listeners and the
  handlers of object manager signals are recorded in \<open>rlog\<close>; the replies are operations of their
  own. A pointer into \<open>dbusUniqueNamesMap_\<close> is the key of its record.
\<close>

datatype DBusRecordState = UNKNOWN | AVAILABLE | RESOLVING | RESOLVED | NOT_AVAILABLE

type_synonym name = string

record listener_record =
  state :: DBusRecordState
  listenerList :: "(nat \<times> nat) list"
  listenersToRemove :: "nat list"
  nextSubscriptionKey :: nat

type_synonym interface_map = "(name \<times> listener_record) list"

text \<open>A promise: whether its future has been taken, and whether it has a value.\<close>

record service_record =
  uniqueBusNameState :: DBusRecordState
  uniqueBusName :: name
  serviceFuture :: bool
  serviceSatisfied :: bool
  objectPathListeners :: "(name \<times> interface_map) list"

record path_cache =
  cacheState :: DBusRecordState
  cacheService :: name
  interfaceNames :: "name list"
  pendingObjectManagerCalls :: "8 word"
  cacheFuture :: bool
  cacheSatisfied :: bool

record unique_record =
  objectPathsState :: DBusRecordState
  ownedBusNames :: "name list"
  objectPathsCache :: "(name \<times> path_cache) list"

datatype revent =
    Notify name name name nat bool
  | GetNameOwner name
  | GetManagedObjects name name name
  | AddOMHandler name
  | RemoveOMHandler name

datatype pushed =
    PushRemove name name name nat
  | PushNotify "name list" name "name list"

record registry =
  dbusServiceListenersMap :: "(name \<times> service_record) list"
  dbusUniqueNamesMap :: "(name \<times> unique_record) list"
  dbusServiceNameMap :: "(name \<times> name option) list"
  predefined :: "name list"
  mainLoopQueue :: "pushed list"
  rlog :: "revent list"

text \<open>What the registry sees of its surroundings: the daemon, the connection, the proxies that
  are still alive, the property \<open>isOrgFreedesktopDBusPeerMapped\<close> of the translator.\<close>

record renv =
  daemonAvailable :: bool
  isConnected :: bool
  liveProxy :: "nat \<Rightarrow> bool"
  peerMapped :: bool

datatype registry_error = FutureError | DanglingPointer | Terminated

definition new_listener_record :: listener_record where
  "new_listener_record = \<lparr>state = UNKNOWN, listenerList = [], listenersToRemove = [], nextSubscriptionKey = 0\<rparr>"

definition new_service_record :: service_record where
  "new_service_record = \<lparr>uniqueBusNameState = UNKNOWN, uniqueBusName = [], serviceFuture = False, serviceSatisfied = False,
     objectPathListeners = []\<rparr>"

definition new_path_cache :: "name \<Rightarrow> path_cache" where
  "new_path_cache service = \<lparr>cacheState = UNKNOWN, cacheService = service, interfaceNames = [],
     pendingObjectManagerCalls = 0, cacheFuture = False, cacheSatisfied = False\<rparr>"

definition new_unique_record :: unique_record where
  "new_unique_record = \<lparr>objectPathsState = UNKNOWN, ownedBusNames = [], objectPathsCache = []\<rparr>"

definition new_registry :: registry where
  "new_registry = \<lparr>dbusServiceListenersMap = [], dbusUniqueNamesMap = [], dbusServiceNameMap = [], predefined = [],
     mainLoopQueue = [], rlog = []\<rparr>"

section \<open>Access\<close>

text \<open>\<open>operator[]\<close> of the maps.\<close>

definition at_or :: "'v \<Rightarrow> 'k \<Rightarrow> ('k \<times> 'v) list \<Rightarrow> 'v" where
  "at_or d k m = (case map_of m k of Some v \<Rightarrow> v | None \<Rightarrow> d)"

definition service_at :: "name \<Rightarrow> registry \<Rightarrow> service_record" where
  "service_at s r = at_or new_service_record s (dbusServiceListenersMap r)"

definition put_service :: "name \<Rightarrow> service_record \<Rightarrow> registry \<Rightarrow> registry" where
  "put_service s rec r = r\<lparr>dbusServiceListenersMap := al_put s rec (dbusServiceListenersMap r)\<rparr>"

definition put_unique :: "name \<Rightarrow> unique_record \<Rightarrow> registry \<Rightarrow> registry" where
  "put_unique u rec r = r\<lparr>dbusUniqueNamesMap := al_put u rec (dbusUniqueNamesMap r)\<rparr>"

definition record_events :: "revent list \<Rightarrow> registry \<Rightarrow> registry" where
  "record_events es r = r\<lparr>rlog := rlog r @ es\<rparr>"

definition isDBusServiceName :: "name \<Rightarrow> bool" where
  "isDBusServiceName n = (case n of [] \<Rightarrow> False | c # _ \<Rightarrow> c \<noteq> CHR '':'')"

definition isOrgFreedesktopDBusInterface :: "name \<Rightarrow> bool" where
  "isOrgFreedesktopDBusInterface n = (take 21 n = ''org.freedesktop.DBus.'')"

section \<open>Telling the listeners\<close>

text \<open>The loop over the listeners: those marked are erased, those with a living proxy called.\<close>

fun notify_list :: "(nat \<Rightarrow> bool) \<Rightarrow> (nat \<times> nat) list \<Rightarrow> nat list \<Rightarrow> (nat \<times> nat) list \<times> nat list \<times> nat list" where
  "notify_list live [] rem = ([], rem, [])"
| "notify_list live ((k, p) # ls) rem =
     (if k \<in> set rem then notify_list live ls (removeAll k rem)
      else (case notify_list live ls rem of
              (ls', rem', called) \<Rightarrow> ((k, p) # ls', rem', if live p then k # called else called)))"

definition notifyDBusInterfaceNameListeners ::
  "renv \<Rightarrow> name \<times> name \<times> name \<Rightarrow> bool \<Rightarrow> listener_record \<Rightarrow> listener_record \<times> revent list" where
  "notifyDBusInterfaceNameListeners e addr available rec =
     (let notifyState = (if available then AVAILABLE else NOT_AVAILABLE)
      in if notifyState = state rec then (rec, [])
         else (case notify_list (liveProxy e) (listenerList rec) (listenersToRemove rec) of
                 (ls, rem, called) \<Rightarrow>
                   (rec\<lparr>state := notifyState, listenerList := ls, listenersToRemove := rem\<rparr>,
                    (case addr of (s, p, i) \<Rightarrow> map (\<lambda>k. Notify s p i k available) called))))"

fun notifyDBusObjectPathResolved ::
  "renv \<Rightarrow> name \<Rightarrow> name \<Rightarrow> name list \<Rightarrow> interface_map \<Rightarrow> interface_map \<times> revent list" where
  "notifyDBusObjectPathResolved e s p names [] = ([], [])"
| "notifyDBusObjectPathResolved e s p names ((i, rec) # m) =
     (case (if i \<in> set names then notifyDBusInterfaceNameListeners e (s, p, i) True rec else (rec, [])) of
        (rec', es) \<Rightarrow>
          (case notifyDBusObjectPathResolved e s p names m of
             (m', es') \<Rightarrow> (if listenerList rec' = [] then m' else (i, rec') # m', es @ es')))"

fun notifyDBusObjectPathChanged ::
  "renv \<Rightarrow> name \<Rightarrow> name \<Rightarrow> bool \<Rightarrow> name list \<Rightarrow> interface_map \<Rightarrow> interface_map \<times> revent list" where
  "notifyDBusObjectPathChanged e s p available [] m = (m, [])"
| "notifyDBusObjectPathChanged e s p available (i # is) m =
     (case map_of m i of
        None \<Rightarrow> notifyDBusObjectPathChanged e s p available is m
      | Some rec \<Rightarrow>
          (case notifyDBusInterfaceNameListeners e (s, p, i) available rec of
             (rec', es) \<Rightarrow>
               (case notifyDBusObjectPathChanged e s p available is
                       (if listenerList rec' = [] then al_erase i m else al_put i rec' m) of
                  (m', es') \<Rightarrow> (m', es @ es'))))"

text \<open>One owned name of the connection.\<close>

definition notify_service :: "renv \<Rightarrow> name \<Rightarrow> name list \<Rightarrow> DBusRecordState \<Rightarrow> name \<Rightarrow> registry \<Rightarrow> registry" where
  "notify_service e p names st s r =
     (case map_of (dbusServiceListenersMap r) s of
        None \<Rightarrow> r
      | Some rec \<Rightarrow>
          if uniqueBusNameState rec \<noteq> RESOLVED then r
          else (case map_of (objectPathListeners rec) p of
                  None \<Rightarrow> r
                | Some m \<Rightarrow>
                    (case (if st = RESOLVED then notifyDBusObjectPathResolved e s p names m
                           else notifyDBusObjectPathChanged e s p (st = AVAILABLE) names m) of
                       (m', es) \<Rightarrow>
                         record_events es (put_service s
                           (rec\<lparr>objectPathListeners := (if m' = [] then al_erase p (objectPathListeners rec)
                                                      else al_put p m' (objectPathListeners rec))\<rparr>) r))))"

definition notifyDBusServiceListeners ::
  "renv \<Rightarrow> name list \<Rightarrow> name \<Rightarrow> name list \<Rightarrow> DBusRecordState \<Rightarrow> registry \<Rightarrow> registry" where
  "notifyDBusServiceListeners e owned p names st r = fold (notify_service e p names st) owned r"

section \<open>Resolving\<close>

definition getManagedObjectsAsync :: "renv \<Rightarrow> name \<Rightarrow> name \<Rightarrow> name \<Rightarrow> registry \<Rightarrow> registry" where
  "getManagedObjectsAsync e u manager p r =
     (if isConnected e then record_events [GetManagedObjects u manager p] r else r)"

definition put_cache :: "name \<Rightarrow> name \<Rightarrow> path_cache \<Rightarrow> registry \<Rightarrow> registry" where
  "put_cache u p c r =
     (let rec = at_or new_unique_record u (dbusUniqueNamesMap r)
      in put_unique u (rec\<lparr>objectPathsCache := al_put p c (objectPathsCache rec)\<rparr>) r)"

definition resolveObjectPathWithObjectManager :: "renv \<Rightarrow> name \<Rightarrow> name \<Rightarrow> path_cache \<Rightarrow> registry \<Rightarrow> registry" where
  "resolveObjectPathWithObjectManager e u p c r =
     getManagedObjectsAsync e u ''/'' p
       (put_cache u p (c\<lparr>cacheState := RESOLVING, pendingObjectManagerCalls := pendingObjectManagerCalls c + 1\<rparr>) r)"

text \<open>The record at \<open>u\<close> exists; the reference that is returned is the cache at \<open>u\<close>, \<open>p\<close>.\<close>

definition getDBusObjectPathCacheReference :: "renv \<Rightarrow> name \<Rightarrow> name \<Rightarrow> name \<Rightarrow> registry \<Rightarrow> registry" where
  "getDBusObjectPathCacheReference e p s u r =
     (let rec = at_or new_unique_record u (dbusUniqueNamesMap r);
          r1 = (if objectPathsCache rec = [] then record_events [AddOMHandler u] r else r);
          r2 = (if map_of (objectPathsCache rec) p = None then put_cache u p (new_path_cache s) r1 else r1);
          c = at_or (new_path_cache s) p (objectPathsCache rec)
      in if cacheState c = UNKNOWN then resolveObjectPathWithObjectManager e u p c r2 else r2)"

definition cache_at :: "name \<Rightarrow> name \<Rightarrow> registry \<Rightarrow> path_cache" where
  "cache_at u p r = at_or (new_path_cache []) p (objectPathsCache (at_or new_unique_record u (dbusUniqueNamesMap r)))"

text \<open>\<open>resolveDBusServiceName\<close>, with \<open>s\<close> in the map.\<close>

definition resolveDBusServiceName :: "renv \<Rightarrow> name \<Rightarrow> registry \<Rightarrow> registry" where
  "resolveDBusServiceName e s r =
     (if daemonAvailable e
      then record_events [GetNameOwner s] (put_service s ((service_at s r)\<lparr>uniqueBusNameState := RESOLVING\<rparr>) r)
      else r)"

text \<open>\<open>dbusUniqueNamesMap_[...]\<close> creates the record if it is missing.\<close>

definition resolveDBusInterfaceNameState :: "renv \<Rightarrow> name \<times> name \<times> name \<Rightarrow> registry \<Rightarrow> DBusRecordState \<times> registry" where
  "resolveDBusInterfaceNameState e addr r =
     (case addr of (s, p, i) \<Rightarrow>
        (let u = uniqueBusName (service_at s r);
             r1 = put_unique u (at_or new_unique_record u (dbusUniqueNamesMap r)) r;
             r2 = getDBusObjectPathCacheReference e p s u r1;
             c = cache_at u p r2
         in (if cacheState c \<noteq> RESOLVED then cacheState c
             else if i \<in> set (interfaceNames c) then AVAILABLE else NOT_AVAILABLE, r2)))"

section \<open>Names that come and go\<close>

definition removeUniqueName :: "name \<Rightarrow> name \<Rightarrow> registry \<Rightarrow> registry" where
  "removeUniqueName u s r =
     (case map_of (dbusUniqueNamesMap r) u of
        None \<Rightarrow> r
      | Some rec \<Rightarrow>
          (let owned = (if s \<noteq> [] then removeAll s (ownedBusNames rec) else [])
           in if owned = [] then
                record_events [RemoveOMHandler u] (r\<lparr>dbusUniqueNamesMap := al_erase u (dbusUniqueNamesMap r)\<rparr>)
              else put_unique u (rec\<lparr>ownedBusNames := owned,
                     objectPathsCache := filter (\<lambda>pc. cacheService (snd pc) \<noteq> s) (objectPathsCache rec)\<rparr>) r))"

text \<open>All listeners of a service are told that it is not available.\<close>

fun lose_interfaces :: "renv \<Rightarrow> name \<Rightarrow> name \<Rightarrow> interface_map \<Rightarrow> interface_map \<times> revent list" where
  "lose_interfaces e s p [] = ([], [])"
| "lose_interfaces e s p ((i, rec) # m) =
     (case notifyDBusInterfaceNameListeners e (s, p, i) False rec of
        (rec', es) \<Rightarrow>
          (case lose_interfaces e s p m of
             (m', es') \<Rightarrow> (if listenerList rec' = [] then m' else (i, rec') # m', es @ es')))"

fun lose_paths :: "renv \<Rightarrow> name \<Rightarrow> (name \<times> interface_map) list \<Rightarrow> (name \<times> interface_map) list \<times> revent list" where
  "lose_paths e s [] = ([], [])"
| "lose_paths e s ((p, m) # ps) =
     (case lose_interfaces e s p m of
        (m', es) \<Rightarrow>
          (case lose_paths e s ps of
             (ps', es') \<Rightarrow> (if m' = [] then ps' else (p, m') # ps', es @ es')))"

definition onDBusServiceNotAvailable :: "renv \<Rightarrow> name \<Rightarrow> name \<Rightarrow> registry \<Rightarrow> registry" where
  "onDBusServiceNotAvailable e s serviceName r =
     (let rec = service_at s r;
          r1 = removeUniqueName (uniqueBusName rec) serviceName r
      in case lose_paths e s (objectPathListeners rec) of
           (ps, es) \<Rightarrow>
             record_events es (put_service s (rec\<lparr>uniqueBusName := [], uniqueBusNameState := NOT_AVAILABLE,
               objectPathListeners := ps\<rparr>) r1))"

definition insertServiceNameMapping :: "name \<Rightarrow> name \<Rightarrow> registry \<Rightarrow> registry" where
  "insertServiceNameMapping u s r =
     (let rec = at_or new_unique_record u (dbusUniqueNamesMap r);
          r1 = put_unique u (rec\<lparr>ownedBusNames := set_add s (ownedBusNames rec)\<rparr>) r;
          r2 = r1\<lparr>dbusServiceNameMap := al_put s (Some u) (dbusServiceNameMap r1)\<rparr>;
          srv = service_at s r2
      in put_service s (if uniqueBusNameState srv \<noteq> RESOLVED
                        then srv\<lparr>uniqueBusName := u, uniqueBusNameState := UNKNOWN\<rparr> else srv) r2)"

definition checkDBusServiceWasAvailable :: "renv \<Rightarrow> name \<Rightarrow> name \<Rightarrow> registry \<Rightarrow> registry" where
  "checkDBusServiceWasAvailable e s u r =
     (if map_of (dbusUniqueNamesMap r) u \<noteq> None then onDBusServiceNotAvailable e s s r else r)"

text \<open>
  The loop over the observed object paths of a service that is not predefined. An entry without
  interfaces is erased, and the loop increments the iterator that \<open>erase\<close> has already moved, so
  the path behind it is skipped; at the end that increment is undefined, here the loop ends.
\<close>

fun available_paths :: "renv \<Rightarrow> name \<Rightarrow> name \<Rightarrow> (name \<times> interface_map) list \<Rightarrow> registry \<Rightarrow> (name \<times> interface_map) list \<times> registry" where
  "available_paths e s u [] r = ([], r)"
| "available_paths e s u ((p, m) # ps) r =
     (let r1 = getDBusObjectPathCacheReference e p s u r;
          c = cache_at u p r1
      in case (if cacheState c = RESOLVED then notifyDBusObjectPathResolved e s p (interfaceNames c) m else (m, [])) of
           (m', es) \<Rightarrow>
             (let r2 = record_events es r1
              in if m' = [] then (case ps of
                                    [] \<Rightarrow> ([], r2)
                                  | x # xs \<Rightarrow> (case available_paths e s u xs r2 of (ps', r3) \<Rightarrow> (x # ps', r3)))
                 else (case available_paths e s u ps r2 of (ps', r3) \<Rightarrow> ((p, m') # ps', r3))))"

definition onDBusServiceAvailable :: "renv \<Rightarrow> name \<Rightarrow> name \<Rightarrow> registry \<Rightarrow> registry" where
  "onDBusServiceAvailable e s u r =
     (let r1 = insertServiceNameMapping u s r;
          observed = (objectPathListeners (service_at s r1) \<noteq> []);
          r2 = (if uniqueBusNameState (service_at s r1) = RESOLVED \<and> uniqueBusName (service_at s r1) \<noteq> u
                then checkDBusServiceWasAvailable e s (uniqueBusName (service_at s r1)) r1 else r1);
          r3 = put_service s ((service_at s r2)\<lparr>uniqueBusNameState := RESOLVED, uniqueBusName := u\<rparr>) r2
      in if \<not> observed then r3
         else if s \<notin> set (predefined r3) then
           (case available_paths e s u (objectPathListeners (service_at s r3)) r3 of
              (ps, r4) \<Rightarrow> put_service s ((service_at s r4)\<lparr>objectPathListeners := ps\<rparr>) r4)
         else fold (\<lambda>(p, m) r. notifyDBusServiceListeners e
                      (ownedBusNames (at_or new_unique_record u (dbusUniqueNamesMap r))) p (map fst m) AVAILABLE r)
                (objectPathListeners (service_at s r3)) r3)"

definition onDBusDaemonProxyNameOwnerChangedEvent :: "renv \<Rightarrow> name \<Rightarrow> name \<Rightarrow> name \<Rightarrow> registry \<Rightarrow> registry" where
  "onDBusDaemonProxyNameOwnerChangedEvent e affected oldOwner newOwner r =
     (if \<not> isDBusServiceName affected then r
      else if newOwner = [] then checkDBusServiceWasAvailable e affected oldOwner r
      else onDBusServiceAvailable e affected newOwner r)"

section \<open>Replies and signals\<close>

text \<open>\<open>set_value\<close> on a promise that has a value throws, as does a second \<open>get_future\<close>.\<close>

definition satisfy_service :: "name \<Rightarrow> registry \<Rightarrow> registry_error + registry" where
  "satisfy_service s r =
     (let rec = service_at s r
      in if \<not> serviceFuture rec then Inr r
         else if serviceSatisfied rec then Inl FutureError
         else Inr (put_service s (rec\<lparr>serviceSatisfied := True\<rparr>) r))"

definition onGetNameOwnerCallback :: "renv \<Rightarrow> bool \<Rightarrow> name \<Rightarrow> name \<Rightarrow> registry \<Rightarrow> registry_error + registry" where
  "onGetNameOwnerCallback e success u s r =
     (if map_of (dbusServiceListenersMap r) s = None then Inr r
      else if success then satisfy_service s (onDBusServiceAvailable e s u r)
      else ebind (satisfy_service s r) (\<lambda>r'. Inr (onDBusServiceNotAvailable e s s r')))"

text \<open>\<open>find_last_of\<close> of a slash or a backslash; without one the whole path.\<close>

definition is_delimiter :: "char \<Rightarrow> bool" where
  "is_delimiter c \<longleftrightarrow> c = CHR ''/'' \<or> c = CHR 0x5C"

definition manager_path :: "name \<Rightarrow> name" where
  "manager_path p =
     (if \<exists>c \<in> set p. is_delimiter c then rev (drop 1 (dropWhile (\<lambda>c. \<not> is_delimiter c) (rev p))) else p)"

text \<open>The entry of a reply is at a proper prefix of the path that ends at a delimiter.\<close>

definition is_prefix_path :: "name \<Rightarrow> name \<Rightarrow> bool" where
  "is_prefix_path p q \<longleftrightarrow> take (length q) p = q \<and> p \<noteq> q \<and> is_delimiter (p ! length q)"

definition cacheable :: "renv \<Rightarrow> name \<Rightarrow> bool" where
  "cacheable e i \<longleftrightarrow> \<not> isOrgFreedesktopDBusInterface i \<or> (peerMapped e \<and> i = ''org.freedesktop.DBus.Peer'')"

text \<open>The reply of an object manager: \<open>None\<close> if the call failed, else the paths with their interfaces.\<close>

definition add_reply :: "renv \<Rightarrow> name \<Rightarrow> (name \<times> name list) list \<Rightarrow> path_cache \<Rightarrow> path_cache" where
  "add_reply e p reply c =
     c\<lparr>interfaceNames := fold set_add (filter (cacheable e) (concat (map snd (filter (\<lambda>x. fst x = p) reply)))) (interfaceNames c)\<rparr>"

definition ask_manager :: "renv \<Rightarrow> name \<Rightarrow> name \<Rightarrow> name \<times> name list \<Rightarrow> registry \<Rightarrow> registry" where
  "ask_manager e u p entry r =
     (if is_prefix_path p (fst entry) then
        (let c = cache_at u p r
         in getManagedObjectsAsync e u (manager_path p) p
              (put_cache u p (c\<lparr>pendingObjectManagerCalls := pendingObjectManagerCalls c + 1\<rparr>) r))
      else r)"

definition finish_path :: "renv \<Rightarrow> name \<Rightarrow> name \<Rightarrow> registry \<Rightarrow> registry_error + registry" where
  "finish_path e u p r =
     (let c = cache_at u p r
      in if pendingObjectManagerCalls c \<noteq> 0 then Inr r
         else if cacheFuture c \<and> cacheSatisfied c then Inl FutureError
         else (let r1 = put_cache u p (c\<lparr>cacheState := RESOLVED, cacheSatisfied := cacheFuture c\<rparr>) r;
                   rec = at_or new_unique_record u (dbusUniqueNamesMap r1);
                   r2 = put_unique u (rec\<lparr>objectPathsState := RESOLVED\<rparr>) r1
               in Inr (notifyDBusServiceListeners e (ownedBusNames rec) p (interfaceNames c) RESOLVED r2)))"

definition onGetManagedObjectsCallbackResolve ::
  "renv \<Rightarrow> (name \<times> name list) list option \<Rightarrow> name \<Rightarrow> name \<Rightarrow> registry \<Rightarrow> registry_error + registry" where
  "onGetManagedObjectsCallbackResolve e reply u p r =
     (case map_of (dbusUniqueNamesMap r) u of
        None \<Rightarrow> Inr r
      | Some rec \<Rightarrow>
          (case map_of (objectPathsCache rec) p of
             None \<Rightarrow> Inr r
           | Some c \<Rightarrow>
               (let c1 = c\<lparr>pendingObjectManagerCalls := pendingObjectManagerCalls c - 1\<rparr>
                in finish_path e u p
                     (case reply of
                        None \<Rightarrow> put_cache u p c1 r
                      | Some entries \<Rightarrow> fold (ask_manager e u p) entries (put_cache u p (add_reply e p entries c1) r)))))"

text \<open>
  \<open>onSignalDBusMessage\<close> after the message has been read without error: \<open>added\<close> for
  \<open>InterfacesAdded\<close>, else \<open>InterfacesRemoved\<close>.
\<close>

definition onSignalDBusMessage :: "renv \<Rightarrow> name \<Rightarrow> name \<Rightarrow> bool \<Rightarrow> name list \<Rightarrow> registry \<Rightarrow> registry" where
  "onSignalDBusMessage e sender p added names r =
     (if names = [] then r
      else (case map_of (dbusUniqueNamesMap r) sender of
              None \<Rightarrow> r
            | Some rec \<Rightarrow>
                (case map_of (objectPathsCache rec) p of
                   None \<Rightarrow> r
                 | Some c \<Rightarrow>
                     if cacheState c \<noteq> RESOLVED then r
                     else (let names' = (if added then fold set_add names (interfaceNames c)
                                         else filter (\<lambda>i. i \<notin> set names) (interfaceNames c))
                           in notifyDBusServiceListeners e (ownedBusNames rec) p names
                                (if added then AVAILABLE else NOT_AVAILABLE)
                                (put_cache sender p (c\<lparr>interfaceNames := names'\<rparr>) r)))))"

section \<open>Subscriptions\<close>

definition put_interface :: "name \<times> name \<times> name \<Rightarrow> listener_record \<Rightarrow> registry \<Rightarrow> registry" where
  "put_interface addr l r =
     (case addr of (s, p, i) \<Rightarrow>
        (let rec = service_at s r; m = at_or [] p (objectPathListeners rec)
         in put_service s (rec\<lparr>objectPathListeners := al_put p (al_put i l m) (objectPathListeners rec)\<rparr>) r))"

definition interface_at :: "name \<times> name \<times> name \<Rightarrow> registry \<Rightarrow> listener_record" where
  "interface_at addr r =
     (case addr of (s, p, i) \<Rightarrow> at_or new_listener_record i (at_or [] p (objectPathListeners (service_at s r))))"

text \<open>
  The first part of \<open>subscribeAvailabilityListener\<close>: whether the service is known not to be
  available; otherwise the state of the interface is looked up, or a request is on its way.
\<close>

definition subscribe_state :: "renv \<Rightarrow> name \<times> name \<times> name \<Rightarrow> nat \<Rightarrow> registry \<Rightarrow> bool option \<times> registry" where
  "subscribe_state e addr proxy r =
     (case addr of (s, p, i) \<Rightarrow>
        (let st = uniqueBusNameState (service_at s r)
         in if st = UNKNOWN then
              (None, resolveDBusServiceName e s (put_interface addr ((interface_at addr r)\<lparr>state := UNKNOWN\<rparr>) r))
            else if st = NOT_AVAILABLE then (Some False, r)
            else if st \<noteq> RESOLVING \<and> state (interface_at addr r) = UNKNOWN then
              (if s \<in> set (predefined r) then
                 (None, (case map_of (dbusServiceNameMap r) s of
                           Some (Some u) \<Rightarrow>
                             if liveProxy e proxy
                             then r\<lparr>mainLoopQueue := mainLoopQueue r @
                                      [PushNotify (ownedBusNames (at_or new_unique_record u (dbusUniqueNamesMap r))) p
                                         (map fst (at_or [] p (objectPathListeners (service_at s r))))]\<rparr> else r
                         | _ \<Rightarrow> r))
               else (case resolveDBusInterfaceNameState e addr r of
                       (st', r') \<Rightarrow> (None, put_interface addr ((interface_at addr r')\<lparr>state := st'\<rparr>) r')))
            else (None, r)))"

text \<open>The new listener is told the status if it is known; its key is returned.\<close>

definition subscribeAvailabilityListener :: "renv \<Rightarrow> name \<times> name \<times> name \<Rightarrow> nat \<Rightarrow> registry \<Rightarrow> nat \<times> registry" where
  "subscribeAvailabilityListener e addr proxy r0 =
     (let r = put_interface addr (interface_at addr r0) r0
      in case subscribe_state e addr proxy r of
           (told, r1) \<Rightarrow>
             (let l = interface_at addr r1;
                  status = (case told of Some b \<Rightarrow> Some b
                            | None \<Rightarrow> (case state l of AVAILABLE \<Rightarrow> Some True | NOT_AVAILABLE \<Rightarrow> Some False | _ \<Rightarrow> None));
                  k = nextSubscriptionKey l;
                  r2 = (case status of
                          None \<Rightarrow> r1
                        | Some b \<Rightarrow> (if liveProxy e proxy then record_events [case addr of (s, p, i) \<Rightarrow> Notify s p i k b] r1 else r1))
              in (k, put_interface addr (l\<lparr>nextSubscriptionKey := k + 1, listenerList := listenerList l @ [(k, proxy)],
                       listenersToRemove := removeAll k (listenersToRemove l)\<rparr>) r2)))"

definition find_interface :: "name \<times> name \<times> name \<Rightarrow> registry \<Rightarrow> listener_record option" where
  "find_interface addr r =
     (case addr of (s, p, i) \<Rightarrow>
        Option.bind (map_of (dbusServiceListenersMap r) s) (\<lambda>rec.
          Option.bind (map_of (objectPathListeners rec) p) (\<lambda>m. map_of m i)))"

definition unsubscribeAvailabilityListener :: "name \<times> name \<times> name \<Rightarrow> nat \<Rightarrow> registry \<Rightarrow> registry" where
  "unsubscribeAvailabilityListener addr k r =
     (case find_interface addr r of
        None \<Rightarrow> r
      | Some l \<Rightarrow>
          (let r1 = put_interface addr (l\<lparr>listenersToRemove := listenersToRemove l @ [k]\<rparr>) r
           in r1\<lparr>mainLoopQueue := mainLoopQueue r1 @ [case addr of (s, p, i) \<Rightarrow> PushRemove s p i k]\<rparr>))"

text \<open>The function \<open>removeListener\<close> that \<open>unsubscribeAvailabilityListener\<close> pushes to the main loop.\<close>

definition removeListener :: "name \<times> name \<times> name \<Rightarrow> nat \<Rightarrow> registry \<Rightarrow> registry" where
  "removeListener addr k r =
     (case find_interface addr r of
        None \<Rightarrow> r
      | Some l \<Rightarrow>
          if k \<notin> set (listenersToRemove l) then r
          else (case addr of (s, p, i) \<Rightarrow>
            (let l' = l\<lparr>listenersToRemove := removeAll k (listenersToRemove l),
                       listenerList := filter (\<lambda>x. fst x \<noteq> k) (listenerList l)\<rparr>
             in if listenerList l' \<noteq> [] then put_interface addr l' r
                else (let rec = service_at s r;
                          m = al_erase i (at_or [] p (objectPathListeners rec))
                      in put_service s (rec\<lparr>objectPathListeners :=
                           (if m = [] then al_erase p (objectPathListeners rec) else al_put p m (objectPathListeners rec))\<rparr>) r))))"

text \<open>The main loop runs the pushed functions in order; a \<open>PushNotify\<close> has a copy of the record of
  the connection, which owns the service.\<close>

definition run_pushed :: "renv \<Rightarrow> registry \<Rightarrow> registry" where
  "run_pushed e r0 =
     (case mainLoopQueue r0 of
        [] \<Rightarrow> r0
      | x # xs \<Rightarrow>
          (let r = r0\<lparr>mainLoopQueue := xs\<rparr>
           in case x of
                PushRemove s p i k \<Rightarrow> removeListener (s, p, i) k r
              | PushNotify owned p is \<Rightarrow> notifyDBusServiceListeners e owned p is AVAILABLE r))"

section \<open>Queries\<close>

definition fetchAllServiceNames :: "renv \<Rightarrow> name list option \<Rightarrow> registry \<Rightarrow> registry" where
  "fetchAllServiceNames e names r =
     (if \<not> daemonAvailable e then r
      else (case names of
              None \<Rightarrow> r
            | Some ns \<Rightarrow> fold (\<lambda>n r. if isDBusServiceName n
                                    then r\<lparr>dbusServiceNameMap := al_insert n None (dbusServiceNameMap r)\<rparr> else r) ns r))"

definition setDBusServicePredefined :: "name \<Rightarrow> registry \<Rightarrow> registry" where
  "setDBusServicePredefined s r = r\<lparr>predefined := set_add s (predefined r)\<rparr>"

definition findCachedDbusService :: "name \<Rightarrow> registry \<Rightarrow> name option option" where
  "findCachedDbusService s r = map_of (dbusServiceNameMap r) s"

text \<open>
  \<open>isServiceInstanceAlive\<close> up to the first wait: the unique name if it is cached, where the
  pointer of the cache is dereferenced; otherwise resolving may start and the result is \<open>None\<close>.
\<close>

definition isServiceInstanceAlive_name :: "renv \<Rightarrow> name \<Rightarrow> registry \<Rightarrow> registry_error + name option \<times> registry" where
  "isServiceInstanceAlive_name e s r =
     (case findCachedDbusService s r of
        Some (Some u) \<Rightarrow> (if map_of (dbusUniqueNamesMap r) u = None then Inl DanglingPointer else Inr (Some u, r))
      | _ \<Rightarrow>
          (if map_of (dbusServiceListenersMap r) s \<noteq> None then Inr (None, r)
           else Inr (None, resolveDBusServiceName e s
             (put_service s (new_service_record\<lparr>uniqueBusNameState := RESOLVING, serviceFuture := True\<rparr>) r))))"

text \<open>After the wait for the name: the unique name of a resolved service that is still known.\<close>

definition isServiceInstanceAlive_resolved :: "name \<Rightarrow> registry \<Rightarrow> name option" where
  "isServiceInstanceAlive_resolved s r =
     (case map_of (dbusServiceListenersMap r) s of
        None \<Rightarrow> None
      | Some rec \<Rightarrow>
          if uniqueBusName rec = [] \<or> uniqueBusNameState rec \<noteq> RESOLVED \<or> map_of (dbusUniqueNamesMap r) (uniqueBusName rec) = None
          then None else Some (uniqueBusName rec))"

text \<open>
  The destructor of a \<open>DBusServiceListenersRecord\<close>; \<open>sat\<close> is whether its promise, which copies
  share, has a value. An exception in a destructor terminates the program.
\<close>

definition destroy_service_record :: "service_record \<Rightarrow> bool \<Rightarrow> registry_error + bool" where
  "destroy_service_record rec sat =
     (if uniqueBusNameState rec = RESOLVING \<and> serviceFuture rec then (if sat then Inl Terminated else Inr True) else Inr sat)"

text \<open>The end of the block that asked for the name: the local record and the pair that was inserted
  are destroyed. The class has no move constructor, so both are copies with a valid future; their
  promise has its value if the record was new (the wait is over), else it was never shared.\<close>

definition isServiceInstanceAlive_leave :: "bool \<Rightarrow> registry_error + bool" where
  "isServiceInstanceAlive_leave inserted =
     (let rec = new_service_record\<lparr>uniqueBusNameState := RESOLVING, serviceFuture := True\<rparr>
      in ebind (destroy_service_record rec inserted) (destroy_service_record rec))"

text \<open>The object path: an entry that is not resolved is asked for again, a missing one is made.\<close>

definition isServiceInstanceAlive_path :: "renv \<Rightarrow> name \<Rightarrow> name \<Rightarrow> name \<Rightarrow> registry \<Rightarrow> registry_error + registry" where
  "isServiceInstanceAlive_path e s p u r =
     (if s \<in> set (predefined r) then Inr r
      else (case map_of (objectPathsCache (at_or new_unique_record u (dbusUniqueNamesMap r))) p of
              Some c \<Rightarrow>
                (if cacheState c = RESOLVED then Inr r
                 else if cacheFuture c then Inl FutureError
                 else Inr (resolveObjectPathWithObjectManager e u p c r))
            | None \<Rightarrow>
                Inr (resolveObjectPathWithObjectManager e u p ((new_path_cache s)\<lparr>cacheFuture := True\<rparr>) r)))"

definition isServiceInstanceAlive_result :: "name \<Rightarrow> name \<Rightarrow> name \<Rightarrow> name \<Rightarrow> registry \<Rightarrow> bool" where
  "isServiceInstanceAlive_result i s p u r =
     (s \<in> set (predefined r) \<or> (cacheState (cache_at u p r) = RESOLVED \<and> i \<in> set (interfaceNames (cache_at u p r))))"

text \<open>The callback of \<open>getAvailableServiceInstancesAsync\<close>, before the dictionary is forwarded.\<close>

definition refreshServiceInstances ::
  "renv \<Rightarrow> (name \<times> name list) list option \<Rightarrow> name \<Rightarrow> name \<Rightarrow> registry \<Rightarrow> registry_error + registry" where
  "refreshServiceInstances e reply s p r =
     (case map_of (dbusServiceListenersMap r) s of
        None \<Rightarrow> Inr r
      | Some srv \<Rightarrow>
          (case map_of (dbusUniqueNamesMap r) (uniqueBusName srv) of
             None \<Rightarrow> Inr r
           | Some rec \<Rightarrow>
               (case map_of (objectPathsCache rec) p of
                  None \<Rightarrow> Inr r
                | Some c \<Rightarrow>
                    onGetManagedObjectsCallbackResolve e reply (uniqueBusName srv) p
                      (put_cache (uniqueBusName srv) p
                         (c\<lparr>cacheState := RESOLVING, pendingObjectManagerCalls := pendingObjectManagerCalls c + 1\<rparr>) r))))"

section \<open>The end of the registry\<close>

definition destroy_registry :: "renv \<Rightarrow> registry \<Rightarrow> registry" where
  "destroy_registry e r0 =
     (let r = fold (\<lambda>s r. if uniqueBusNameState (service_at s r) = RESOLVED then onDBusServiceNotAvailable e s [] r else r)
                (map fst (dbusServiceListenersMap r0)) r0
      in record_events (map (\<lambda>x. RemoveOMHandler (fst x)) (dbusUniqueNamesMap r)) r)"

section \<open>Runs\<close>

datatype registry_op =
    Subscribe name name name nat
  | Unsubscribe name name name nat
  | RunPushed
  | NameOwnerChanged name name name
  | NameOwnerReply bool name name
  | ManagedObjectsReply "(name \<times> name list) list option" name name
  | RefreshReply "(name \<times> name list) list option" name name
  | InterfacesSignal name name bool "name list"
  | Predefine name
  | FetchNames "name list option"
  | AliveName name
  | AlivePath name name name

fun registry_step :: "renv \<Rightarrow> registry_op \<Rightarrow> registry \<Rightarrow> registry_error + registry" where
  "registry_step e (Subscribe s p i x) r = Inr (snd (subscribeAvailabilityListener e (s, p, i) x r))"
| "registry_step e (Unsubscribe s p i k) r = Inr (unsubscribeAvailabilityListener (s, p, i) k r)"
| "registry_step e RunPushed r = Inr (run_pushed e r)"
| "registry_step e (NameOwnerChanged s old new) r = Inr (onDBusDaemonProxyNameOwnerChangedEvent e s old new r)"
| "registry_step e (NameOwnerReply ok u s) r = onGetNameOwnerCallback e ok u s r"
| "registry_step e (ManagedObjectsReply reply u p) r = onGetManagedObjectsCallbackResolve e reply u p r"
| "registry_step e (RefreshReply reply s p) r = refreshServiceInstances e reply s p r"
| "registry_step e (InterfacesSignal u p added is) r = Inr (onSignalDBusMessage e u p added is r)"
| "registry_step e (Predefine s) r = Inr (setDBusServicePredefined s r)"
| "registry_step e (FetchNames ns) r = Inr (fetchAllServiceNames e ns r)"
| "registry_step e (AliveName s) r = ebind (isServiceInstanceAlive_name e s r) (\<lambda>x. Inr (snd x))"
| "registry_step e (AlivePath s p u) r = isServiceInstanceAlive_path e s p u r"

fun registry_run :: "(renv \<times> registry_op) list \<Rightarrow> registry \<Rightarrow> registry_error + registry" where
  "registry_run [] r = Inr r"
| "registry_run ((e, x) # xs) r = ebind (registry_step e x r) (registry_run xs)"

end
