(* ===== verification/Service_Registry_Correct.thy ===== *)
theory Service_Registry_Correct
  imports Service_Registry
begin

text \<open>
  A listener is only in the state \<open>AVAILABLE\<close> while its service is resolved to a connection that
  owns it (\<open>reg_consistent\<close>), for every sequence of subscriptions, replies and signals. Then what a
  signal does to the listeners, and where the caches of the registry go wrong.
\<close>

section \<open>The invariant\<close>

definition owns :: "registry \<Rightarrow> name \<Rightarrow> name \<Rightarrow> bool" where
  "owns r u s \<longleftrightarrow> (\<exists>rec. map_of (dbusUniqueNamesMap r) u = Some rec \<and> s \<in> set (ownedBusNames rec))"

definition quiet :: "service_record \<Rightarrow> bool" where
  "quiet rec \<longleftrightarrow> (\<forall>(p, m) \<in> set (objectPathListeners rec). \<forall>(i, l) \<in> set m. state l \<noteq> AVAILABLE)"

lemma quiet_update [simp]:
  "quiet (rec\<lparr>serviceSatisfied := b\<rparr>) = quiet rec" "quiet (rec\<lparr>uniqueBusNameState := st\<rparr>) = quiet rec"
  "quiet (rec\<lparr>uniqueBusName := n\<rparr>) = quiet rec"
  by (simp_all add: quiet_def)

definition good :: "registry \<Rightarrow> name \<Rightarrow> service_record \<Rightarrow> bool" where
  "good r s rec \<longleftrightarrow> (if uniqueBusNameState rec = RESOLVED then owns r (uniqueBusName rec) s
     else uniqueBusNameState rec \<noteq> AVAILABLE \<and> quiet rec)"

definition reg_consistent :: "registry \<Rightarrow> bool" where
  "reg_consistent r \<longleftrightarrow> (\<forall>s rec. map_of (dbusServiceListenersMap r) s = Some rec \<longrightarrow> good r s rec)"

lemma good_at: "reg_consistent r \<Longrightarrow> good r s (service_at s r)"
  by (cases "map_of (dbusServiceListenersMap r) s")
    (simp_all add: service_at_def at_or_def reg_consistent_def, simp add: good_def quiet_def new_service_record_def)

lemma service_at_put [simp]: "service_at t (put_service s rec r) = (if t = s then rec else service_at t r)"
  by (simp add: service_at_def put_service_def at_or_def)

lemma frame_put_service [simp]:
  "dbusUniqueNamesMap (put_service s rec r) = dbusUniqueNamesMap r" "predefined (put_service s rec r) = predefined r"
  "dbusServiceNameMap (put_service s rec r) = dbusServiceNameMap r"
  "owns (put_service s rec r) = owns r"
  by (simp_all add: put_service_def owns_def fun_eq_iff)

lemma frame_record_events [simp]:
  "dbusServiceListenersMap (record_events es r) = dbusServiceListenersMap r"
  "dbusUniqueNamesMap (record_events es r) = dbusUniqueNamesMap r"
  "dbusServiceNameMap (record_events es r) = dbusServiceNameMap r"
  "predefined (record_events es r) = predefined r"
  "owns (record_events es r) = owns r" "service_at s (record_events es r) = service_at s r"
  "reg_consistent (record_events es r) = reg_consistent r"
  by (simp_all add: record_events_def owns_def service_at_def reg_consistent_def good_def fun_eq_iff)

lemma frame_cache [simp]:
  "dbusServiceListenersMap (put_cache u p c r) = dbusServiceListenersMap r"
  "dbusServiceNameMap (put_cache u p c r) = dbusServiceNameMap r"
  "predefined (put_cache u p c r) = predefined r"
  "service_at s (put_cache u p c r) = service_at s r"
  by (simp_all add: put_cache_def put_unique_def service_at_def Let_def)

lemma owns_put_cache [simp]: "owns (put_cache u p c r) = owns r"
  by (auto simp: owns_def put_cache_def put_unique_def at_or_def new_unique_record_def fun_eq_iff Let_def split: option.splits)

text \<open>Consistency depends on the listeners and the owners only.\<close>

lemma reg_consistent_cong:
  "dbusServiceListenersMap r' = dbusServiceListenersMap r \<Longrightarrow> owns r' = owns r \<Longrightarrow> reg_consistent r' = reg_consistent r"
  by (simp add: reg_consistent_def good_def)

lemma reg_consistent_mono:
  assumes "reg_consistent r" "dbusServiceListenersMap r' = dbusServiceListenersMap r" "\<And>u s. owns r u s \<Longrightarrow> owns r' u s"
  shows "reg_consistent r'"
  using assms unfolding reg_consistent_def good_def by (metis (full_types))

lemma reg_consistent_put_cache [simp]: "reg_consistent (put_cache u p c r) = reg_consistent r"
  by (rule reg_consistent_cong) simp_all

lemma reg_consistent_put_service:
  assumes "reg_consistent r" "good r s rec"
  shows "reg_consistent (put_service s rec r)"
  using assms unfolding reg_consistent_def by (auto simp: put_service_def good_def owns_def split: if_splits)

section \<open>Notifications\<close>

lemma notify_state:
  "notifyDBusInterfaceNameListeners e addr b l = (l', es) \<Longrightarrow> state l' = (if b then AVAILABLE else NOT_AVAILABLE)"
  by (auto simp: notifyDBusInterfaceNameListeners_def Let_def split: prod.splits if_splits)

lemma reg_consistent_notify_service:
  assumes "reg_consistent r"
  shows "reg_consistent (notify_service e p names st s r)"
proof (cases "map_of (dbusServiceListenersMap r) s")
  case (Some rec)
  have g: "good r s rec" using assms Some by (simp add: reg_consistent_def)
  then show ?thesis
    using assms Some
    by (auto simp: notify_service_def good_def intro!: reg_consistent_put_service split: option.splits prod.splits)
qed (use assms in \<open>simp add: notify_service_def\<close>)

lemma owns_notify_service [simp]: "owns (notify_service e p names st s r) = owns r"
  by (auto simp: notify_service_def split: option.splits prod.splits)

lemma reg_consistent_notify:
  "reg_consistent r \<Longrightarrow> reg_consistent (notifyDBusServiceListeners e owned p names st r)"
  unfolding notifyDBusServiceListeners_def
  by (induction owned arbitrary: r) (simp_all add: reg_consistent_notify_service)

lemma lose_interfaces_quiet: "(i, l) \<in> set (fst (lose_interfaces e s p m)) \<Longrightarrow> state l \<noteq> AVAILABLE"
proof (induction m)
  case (Cons x m)
  then show ?case
    by (cases x) (auto simp: dest: notify_state split: prod.splits if_splits)
qed simp

lemma lose_paths_quiet: "(p, m) \<in> set (fst (lose_paths e s ps)) \<Longrightarrow> (i, l) \<in> set m \<Longrightarrow> state l \<noteq> AVAILABLE"
proof (induction ps)
  case (Cons x ps)
  obtain q n where x: "x = (q, n)" by (cases x)
  obtain n' es where n: "lose_interfaces e s q n = (n', es)" by fastforce
  then show ?case
    using Cons lose_interfaces_quiet[of i l e s q n] by (auto simp: x split: prod.splits if_splits)
qed simp

section \<open>Names\<close>

lemma owns_remove:
  assumes "owns r u' s'" "u' \<noteq> u \<or> (s' \<noteq> s \<and> s \<noteq> [])"
  shows "owns (removeUniqueName u s r) u' s'"
  using assms unfolding removeUniqueName_def owns_def
  by (auto simp: Let_def put_unique_def record_events_def removeAll_filter_not_eq filter_empty_conv split: option.splits)

lemma frame_remove [simp]:
  "dbusServiceListenersMap (removeUniqueName u s r) = dbusServiceListenersMap r"
  "predefined (removeUniqueName u s r) = predefined r"
  "dbusServiceNameMap (removeUniqueName u s r) = dbusServiceNameMap r"
  by (simp_all add: removeUniqueName_def put_unique_def record_events_def Let_def split: option.splits)

lemma reg_consistent_not_available:
  assumes "reg_consistent r" "s \<noteq> []"
  shows "reg_consistent (onDBusServiceNotAvailable e s s r)"
proof -
  obtain ps es where l: "lose_paths e s (objectPathListeners (service_at s r)) = (ps, es)" by fastforce
  let ?r1 = "removeUniqueName (uniqueBusName (service_at s r)) s r"
  let ?rec = "(service_at s r)\<lparr>uniqueBusName := [], uniqueBusNameState := NOT_AVAILABLE, objectPathListeners := ps\<rparr>"
  have q: "quiet ?rec" using lose_paths_quiet[of _ _ e s "objectPathListeners (service_at s r)"] l by (auto simp: quiet_def)
  have "good (put_service s ?rec ?r1) t rec"
    if t: "map_of (dbusServiceListenersMap (put_service s ?rec ?r1)) t = Some rec" for t rec
  proof (cases "t = s")
    case True
    then show ?thesis using t q by (auto simp: put_service_def good_def)
  next
    case False
    then have "good r t rec" using t assms(1) by (simp add: put_service_def reg_consistent_def)
    then show ?thesis using False assms(2) by (auto simp: good_def intro: owns_remove split: if_splits)
  qed
  then have "reg_consistent (put_service s ?rec ?r1)" by (simp add: reg_consistent_def)
  then show ?thesis using l by (simp add: onDBusServiceNotAvailable_def Let_def)
qed

lemma owns_not_available:
  assumes "owns r u t" "u \<noteq> uniqueBusName (service_at s r)"
  shows "owns (onDBusServiceNotAvailable e s s r) u t"
  using owns_remove[OF assms(1)] assms(2) by (simp add: onDBusServiceNotAvailable_def Let_def split: prod.splits)

lemma owns_insert:
  "owns r v t \<Longrightarrow> owns (insertServiceNameMapping u s r) v t" "owns (insertServiceNameMapping u s r) u s"
  by (auto simp: insertServiceNameMapping_def owns_def put_unique_def at_or_def set_add_def Let_def split: option.splits)

lemma insert_frame:
  "service_at s (insertServiceNameMapping u s r) =
     (if uniqueBusNameState (service_at s r) \<noteq> RESOLVED
      then (service_at s r)\<lparr>uniqueBusName := u, uniqueBusNameState := UNKNOWN\<rparr> else service_at s r)"
  "t \<noteq> s \<Longrightarrow> map_of (dbusServiceListenersMap (insertServiceNameMapping u s r)) t = map_of (dbusServiceListenersMap r) t"
  by (simp_all add: insertServiceNameMapping_def Let_def put_unique_def put_service_def service_at_def at_or_def)

lemma reg_consistent_insert:
  assumes "reg_consistent r"
  shows "reg_consistent (insertServiceNameMapping u s r)"
  unfolding reg_consistent_def
proof (intro allI impI)
  fix t rec assume t: "map_of (dbusServiceListenersMap (insertServiceNameMapping u s r)) t = Some rec"
  show "good (insertServiceNameMapping u s r) t rec"
  proof (cases "t = s")
    case True
    then have e: "rec = service_at s (insertServiceNameMapping u s r)" using t by (simp add: service_at_def at_or_def)
    have g: "good r s (service_at s r)" by (rule good_at[OF assms])
    show ?thesis
    proof (cases "uniqueBusNameState (service_at s r) = RESOLVED")
      case r: True
      then show ?thesis using g True owns_insert(1) unfolding e insert_frame(1) by (simp add: good_def)
    next
      case r: False
      then show ?thesis using g True unfolding e insert_frame(1) by (simp add: good_def quiet_def)
    qed
  next
    case False
    then have "good r t rec" using t assms by (simp add: insert_frame(2) reg_consistent_def)
    then show ?thesis using owns_insert(1) by (auto simp: good_def)
  qed
qed

lemma frame_resolve_path [simp]:
  "dbusServiceListenersMap (getDBusObjectPathCacheReference e p s u r) = dbusServiceListenersMap r"
  "owns (getDBusObjectPathCacheReference e p s u r) = owns r"
  "service_at t (getDBusObjectPathCacheReference e p s u r) = service_at t r"
  by (simp_all add: getDBusObjectPathCacheReference_def resolveObjectPathWithObjectManager_def getManagedObjectsAsync_def Let_def)

lemma frame_available_paths:
  "available_paths e s u ps r = (ps', r') \<Longrightarrow> dbusServiceListenersMap r' = dbusServiceListenersMap r \<and> owns r' = owns r"
proof (induction e s u ps r arbitrary: ps' r' rule: available_paths.induct)
  case (2 e s u p m ps r)
  let ?r1 = "getDBusObjectPathCacheReference e p s u r"
  let ?c = "cache_at u p ?r1"
  obtain m' es where m: "(if cacheState ?c = RESOLVED then notifyDBusObjectPathResolved e s p (interfaceNames ?c) m else (m, [])) = (m', es)"
    by fastforce
  note eq = 2(3)[unfolded available_paths.simps Let_def m prod.case]
  show ?case
  proof (cases "m' = []")
    case True
    show ?thesis
    proof (cases ps)
      case Nil
      then show ?thesis using eq True by auto
    next
      case (Cons x xs)
      obtain ps2 r2 where a: "available_paths e s u xs (record_events es ?r1) = (ps2, r2)" by fastforce
      have "r' = r2" using eq True Cons a by simp
      then show ?thesis using 2(1)[OF refl refl m[symmetric] refl True Cons a] by simp
    qed
  next
    case False
    obtain ps2 r2 where a: "available_paths e s u ps (record_events es ?r1) = (ps2, r2)" by fastforce
    have "r' = r2" using eq False a by simp
    then show ?thesis using 2(2)[OF refl refl m[symmetric] refl False a] by simp
  qed
qed simp

lemma reg_consistent_check:
  assumes "reg_consistent r" "s \<noteq> []"
  shows "reg_consistent (checkDBusServiceWasAvailable e s u r)"
  using reg_consistent_not_available[OF assms] assms(1) by (simp add: checkDBusServiceWasAvailable_def)

lemma reg_consistent_available:
  assumes "reg_consistent r" "s \<noteq> []"
  shows "reg_consistent (onDBusServiceAvailable e s u r)"
proof -
  let ?r1 = "insertServiceNameMapping u s r"
  let ?v = "uniqueBusName (service_at s ?r1)"
  let ?r2 = "if uniqueBusNameState (service_at s ?r1) = RESOLVED \<and> ?v \<noteq> u then checkDBusServiceWasAvailable e s ?v ?r1 else ?r1"
  let ?r3 = "put_service s ((service_at s ?r2)\<lparr>uniqueBusNameState := RESOLVED, uniqueBusName := u\<rparr>) ?r2"
  have c2: "reg_consistent ?r2" using reg_consistent_insert[OF assms(1)] reg_consistent_check[OF _ assms(2)] by simp
  have o2: "owns ?r2 u s"
    using owns_insert(2)[of u s r] owns_not_available[of ?r1 u s s e]
    by (auto simp: checkDBusServiceWasAvailable_def)
  have c3: "reg_consistent ?r3" using c2 o2 by (intro reg_consistent_put_service) (simp_all add: good_def)
  have s3: "uniqueBusNameState (service_at s ?r3) = RESOLVED" "uniqueBusName (service_at s ?r3) = u" by simp_all
  have p3: "reg_consistent (put_service s ((service_at s r4)\<lparr>objectPathListeners := ps\<rparr>) r4)"
    if "dbusServiceListenersMap r4 = dbusServiceListenersMap ?r3" "owns r4 = owns ?r3" for ps r4
  proof (rule reg_consistent_put_service)
    show "reg_consistent r4" using c3 reg_consistent_cong[OF that] by simp
    have "service_at s r4 = service_at s ?r3" using that(1) by (simp add: service_at_def)
    then show "good r4 s ((service_at s r4)\<lparr>objectPathListeners := ps\<rparr>)" using s3 that(2) o2 by (simp add: good_def)
  qed
  have f: "reg_consistent (fold (\<lambda>(p, m) r. notifyDBusServiceListeners e
      (ownedBusNames (at_or new_unique_record u (dbusUniqueNamesMap r))) p (map fst m) AVAILABLE r) ps r')"
    if "reg_consistent r'" for ps r'
    using that by (induction ps arbitrary: r') (auto simp: reg_consistent_notify)
  show ?thesis
  proof (cases "available_paths e s u (objectPathListeners (service_at s ?r3)) ?r3")
    case (Pair ps r4)
    note fr = frame_available_paths[OF Pair]
    show ?thesis
      unfolding onDBusServiceAvailable_def Let_def Pair prod.case
      by (simp only: if_split simp_thms) (intro conjI impI c3 f[OF c3] p3[OF fr[THEN conjunct1] fr[THEN conjunct2]])
  qed
qed

section \<open>Replies\<close>

lemma reg_consistent_owner_changed:
  "reg_consistent r \<Longrightarrow> reg_consistent (onDBusDaemonProxyNameOwnerChangedEvent e s old new r)"
  unfolding onDBusDaemonProxyNameOwnerChangedEvent_def
  by (cases s) (auto simp: isDBusServiceName_def intro: reg_consistent_check reg_consistent_available)

lemma satisfy_service_good:
  assumes "satisfy_service s r = Inr r'" "reg_consistent r"
  shows "reg_consistent r'"
proof -
  have "good r s ((service_at s r)\<lparr>serviceSatisfied := True\<rparr>)"
    using good_at[OF assms(2), of s] by (simp add: good_def)
  then show ?thesis using assms
    by (auto simp: satisfy_service_def Let_def split: if_splits intro: reg_consistent_put_service)
qed

lemma reg_consistent_name_owner:
  assumes "onGetNameOwnerCallback e ok u s r = Inr r'" "reg_consistent r" "s \<noteq> []"
  shows "reg_consistent r'"
proof (cases "satisfy_service s r")
  case (Inl err)
  then show ?thesis
    using assms reg_consistent_available[OF assms(2,3)]
    by (auto simp: onGetNameOwnerCallback_def split: if_splits intro: satisfy_service_good)
next
  case (Inr r1)
  then show ?thesis
    using assms reg_consistent_available[OF assms(2,3)] reg_consistent_not_available[OF satisfy_service_good[OF Inr assms(2)] assms(3)]
    by (auto simp: onGetNameOwnerCallback_def split: if_splits intro: satisfy_service_good)
qed

lemma reg_consistent_ask_manager: "reg_consistent r \<Longrightarrow> reg_consistent (ask_manager e u p x r)"
  by (simp add: ask_manager_def getManagedObjectsAsync_def Let_def)

lemma reg_consistent_fold_ask: "reg_consistent r \<Longrightarrow> reg_consistent (fold (ask_manager e u p) xs r)"
  by (induction xs arbitrary: r) (simp_all add: reg_consistent_ask_manager)

lemma reg_consistent_path_state:
  "reg_consistent r \<Longrightarrow> reg_consistent (put_unique u ((at_or new_unique_record u (dbusUniqueNamesMap r))\<lparr>objectPathsState := st\<rparr>) r)"
  by (erule reg_consistent_mono) (auto simp: put_unique_def owns_def at_or_def)

lemma reg_consistent_finish:
  assumes "finish_path e u p r = Inr r'" "reg_consistent r"
  shows "reg_consistent r'"
  using assms reg_consistent_path_state[of "put_cache u p ((cache_at u p r)\<lparr>cacheState := RESOLVED, cacheSatisfied := cacheFuture (cache_at u p r)\<rparr>) r" u RESOLVED]
  by (auto simp: finish_path_def Let_def split: if_splits intro!: reg_consistent_notify)

lemma reg_consistent_managed_objects:
  assumes "onGetManagedObjectsCallbackResolve e reply u p r = Inr r'" "reg_consistent r"
  shows "reg_consistent r'"
proof -
  have "reg_consistent r'" if "finish_path e u p (fold (ask_manager e u p) xs (put_cache u p c r)) = Inr r'" for xs c
    by (rule reg_consistent_finish[OF that]) (simp add: reg_consistent_fold_ask assms(2))
  moreover have "reg_consistent r'" if "finish_path e u p (put_cache u p c r) = Inr r'" for c
    by (rule reg_consistent_finish[OF that]) (simp add: assms(2))
  ultimately show ?thesis
    using assms by (auto simp: onGetManagedObjectsCallbackResolve_def Let_def split: option.splits)
qed

lemma reg_consistent_refresh:
  assumes "refreshServiceInstances e reply s p r = Inr r'" "reg_consistent r"
  shows "reg_consistent r'"
  using assms by (auto simp: refreshServiceInstances_def split: option.splits intro: reg_consistent_managed_objects)

lemma reg_consistent_signal: "reg_consistent r \<Longrightarrow> reg_consistent (onSignalDBusMessage e u p added names r)"
  by (auto simp: onSignalDBusMessage_def Let_def split: option.splits intro: reg_consistent_notify)

section \<open>Subscriptions\<close>

lemma at_or_set: "at_or d k m = v \<Longrightarrow> v = d \<or> (k, v) \<in> set m"
  by (auto simp: at_or_def split: option.splits dest: map_of_SomeD)

lemma quiet_interfaces:
  assumes "quiet rec" "(i, l) \<in> set (at_or [] p (objectPathListeners rec))"
  shows "state l \<noteq> AVAILABLE"
  using assms at_or_set[of "[]" p "objectPathListeners rec"] unfolding quiet_def by fastforce

lemma quiet_put_interface:
  assumes "quiet rec" "state l \<noteq> AVAILABLE"
  shows "quiet (rec\<lparr>objectPathListeners := al_put p (al_put i l (at_or [] p (objectPathListeners rec))) (objectPathListeners rec)\<rparr>)"
proof -
  have "state l' \<noteq> AVAILABLE" if "(j, l') \<in> set (al_put i l (at_or [] p (objectPathListeners rec)))" for j l'
    using that set_al_put[of i l] quiet_interfaces[OF assms(1)] assms(2) by blast
  then show ?thesis
    using assms(1) set_al_put[of p] unfolding quiet_def by fastforce
qed

text \<open>Replacing the record of an interface; a state \<open>AVAILABLE\<close> needs a resolved service.\<close>

lemma reg_consistent_put_interface:
  assumes "reg_consistent r" "uniqueBusNameState (service_at s r) \<noteq> RESOLVED \<Longrightarrow> state l \<noteq> AVAILABLE"
  shows "reg_consistent (put_interface (s, p, i) l r)"
proof -
  have g: "good r s (service_at s r)" by (rule good_at[OF assms(1)])
  have "good r s ((service_at s r)\<lparr>objectPathListeners :=
      al_put p (al_put i l (at_or [] p (objectPathListeners (service_at s r)))) (objectPathListeners (service_at s r))\<rparr>)"
    using g assms(2) quiet_put_interface unfolding good_def by (cases "uniqueBusNameState (service_at s r) = RESOLVED") simp_all
  then show ?thesis using assms(1) by (simp add: put_interface_def Let_def reg_consistent_put_service)
qed

lemma interface_state:
  assumes "reg_consistent r" "uniqueBusNameState (service_at s r) \<noteq> RESOLVED"
  shows "state (interface_at (s, p, i) r) \<noteq> AVAILABLE"
proof -
  have q: "quiet (service_at s r)" using good_at[OF assms(1), of s] assms(2) by (simp add: good_def)
  then show ?thesis
    using at_or_set[of new_listener_record i "at_or [] p (objectPathListeners (service_at s r))"] quiet_interfaces[OF q]
    by (auto simp: interface_at_def new_listener_record_def)
qed

lemma service_put_interface [simp]:
  "uniqueBusNameState (service_at t (put_interface (s, p, i) l r)) = uniqueBusNameState (service_at t r)"
  "uniqueBusName (service_at t (put_interface (s, p, i) l r)) = uniqueBusName (service_at t r)"
  by (simp_all add: put_interface_def Let_def)

lemma reg_consistent_put_unique_same:
  "reg_consistent r \<Longrightarrow> reg_consistent (put_unique u (at_or new_unique_record u (dbusUniqueNamesMap r)) r)"
  by (erule reg_consistent_mono) (auto simp: put_unique_def owns_def at_or_def)

lemma resolve_interface_frame:
  assumes "resolveDBusInterfaceNameState e (s, p, i) r = (st, r')" "reg_consistent r"
  shows "reg_consistent r'" "dbusServiceListenersMap r' = dbusServiceListenersMap r"
proof -
  let ?r1 = "put_unique (uniqueBusName (service_at s r)) (at_or new_unique_record (uniqueBusName (service_at s r)) (dbusUniqueNamesMap r)) r"
  have r: "r' = getDBusObjectPathCacheReference e p s (uniqueBusName (service_at s r)) ?r1"
    using assms(1) by (simp add: resolveDBusInterfaceNameState_def Let_def)
  show "reg_consistent r'"
    using reg_consistent_cong[of r' ?r1] reg_consistent_put_unique_same[OF assms(2)] by (simp add: r)
  show "dbusServiceListenersMap r' = dbusServiceListenersMap r" by (simp add: r put_unique_def)
qed

lemma reg_consistent_resolve_name:
  assumes "reg_consistent r" "uniqueBusNameState (service_at s r) \<noteq> RESOLVED"
  shows "reg_consistent (resolveDBusServiceName e s r)"
proof -
  have "good r s ((service_at s r)\<lparr>uniqueBusNameState := RESOLVING\<rparr>)"
    using good_at[OF assms(1), of s] assms(2) by (simp add: good_def)
  then show ?thesis using assms(1) by (simp add: resolveDBusServiceName_def reg_consistent_put_service)
qed

lemma reg_consistent_subscribe_state:
  assumes "subscribe_state e (s, p, i) x r = (told, r')" "reg_consistent r"
  shows "reg_consistent r'"
proof -
  let ?st = "uniqueBusNameState (service_at s r)"
  have na: "?st \<noteq> AVAILABLE" using good_at[OF assms(2), of s] by (simp add: good_def split: if_splits)
  have q: "reg_consistent (r\<lparr>mainLoopQueue := xs\<rparr>)" for xs
    using reg_consistent_cong[of "r\<lparr>mainLoopQueue := xs\<rparr>" r] assms(2) by (simp add: owns_def fun_eq_iff)
  have u: "reg_consistent (resolveDBusServiceName e s (put_interface (s, p, i) ((interface_at (s, p, i) r)\<lparr>state := UNKNOWN\<rparr>) r))"
    if "?st = UNKNOWN"
    using that assms(2) by (intro reg_consistent_resolve_name reg_consistent_put_interface) simp_all
  have d: "reg_consistent (put_interface (s, p, i) ((interface_at (s, p, i) r1)\<lparr>state := st'\<rparr>) r1)"
    if "?st = RESOLVED" "resolveDBusInterfaceNameState e (s, p, i) r = (st', r1)" for st' r1
    using that resolve_interface_frame[OF that(2) assms(2)]
    by (intro reg_consistent_put_interface) (simp_all add: service_at_def)
  have "?st = RESOLVED" if "?st \<noteq> UNKNOWN" "?st \<noteq> NOT_AVAILABLE" "?st \<noteq> RESOLVING"
    using that na by (cases ?st) simp_all
  then show ?thesis
    using assms q u d by (auto simp: subscribe_state_def Let_def split: if_splits option.splits prod.splits)
qed

lemma reg_consistent_subscribe:
  assumes "reg_consistent r"
  shows "reg_consistent (snd (subscribeAvailabilityListener e (s, p, i) x r))"
proof -
  let ?r0 = "put_interface (s, p, i) (interface_at (s, p, i) r) r"
  obtain told r1 where s: "subscribe_state e (s, p, i) x ?r0 = (told, r1)" by fastforce
  have "reg_consistent ?r0" using assms interface_state[OF assms] by (intro reg_consistent_put_interface) simp_all
  then have c1: "reg_consistent r1" by (rule reg_consistent_subscribe_state[OF s])
  have "reg_consistent (put_interface (s, p, i) (interface_at (s, p, i) r1\<lparr>nextSubscriptionKey := k, listenerList := ls, listenersToRemove := rem\<rparr>) r2)"
    if "reg_consistent r2" "\<And>t. service_at t r2 = service_at t r1" for r2 k ls rem
    using that interface_state[OF c1] by (intro reg_consistent_put_interface) simp_all
  then show ?thesis
    using c1 by (auto simp: subscribeAvailabilityListener_def s Let_def split: option.splits)
qed

lemma find_interface_state:
  assumes "find_interface (s, p, i) r = Some l" "reg_consistent r" "uniqueBusNameState (service_at s r) \<noteq> RESOLVED"
  shows "state l \<noteq> AVAILABLE"
proof -
  have "l = interface_at (s, p, i) r"
    using assms(1) by (auto simp: find_interface_def interface_at_def service_at_def at_or_def bind_eq_Some_conv)
  then show ?thesis using interface_state[OF assms(2,3)] by simp
qed

lemma reg_consistent_queue: "reg_consistent (r\<lparr>mainLoopQueue := xs\<rparr>) = reg_consistent r"
  by (rule reg_consistent_cong) (simp_all add: owns_def fun_eq_iff)

lemma reg_consistent_unsubscribe:
  "reg_consistent r \<Longrightarrow> reg_consistent (unsubscribeAvailabilityListener (s, p, i) k r)"
  using find_interface_state[of s p i r]
  by (auto simp: unsubscribeAvailabilityListener_def Let_def reg_consistent_queue split: option.splits
      intro!: reg_consistent_put_interface)

lemma reg_consistent_remove_listener:
  assumes "reg_consistent r"
  shows "reg_consistent (removeListener (s, p, i) k r)"
proof (cases "find_interface (s, p, i) r")
  case (Some l)
  let ?rec = "service_at s r"
  have sub: "good r s (?rec\<lparr>objectPathListeners := ps\<rparr>)" if "uniqueBusNameState ?rec \<noteq> RESOLVED \<Longrightarrow> quiet (?rec\<lparr>objectPathListeners := ps\<rparr>)" for ps
    using good_at[OF assms, of s] that by (simp add: good_def)
  let ?m = "al_erase i (at_or [] p (objectPathListeners ?rec))"
  have "quiet (?rec\<lparr>objectPathListeners := al_erase p (objectPathListeners ?rec)\<rparr>)"
    "quiet (?rec\<lparr>objectPathListeners := al_put p ?m (objectPathListeners ?rec)\<rparr>)" if q: "quiet ?rec"
    using q set_al_erase[of p "objectPathListeners ?rec"] set_al_put[of p ?m "objectPathListeners ?rec"]
      quiet_interfaces[OF q] set_al_erase[of i "at_or [] p (objectPathListeners ?rec)"]
    unfolding quiet_def by fastforce+
  moreover have "quiet ?rec" if "uniqueBusNameState ?rec \<noteq> RESOLVED"
    using good_at[OF assms, of s] that by (simp add: good_def)
  ultimately show ?thesis
    using assms Some find_interface_state[OF Some assms]
    by (auto simp: removeListener_def Let_def intro!: reg_consistent_put_service reg_consistent_put_interface sub)
qed (use assms in \<open>simp add: removeListener_def\<close>)

lemma reg_consistent_pushed: "reg_consistent r \<Longrightarrow> reg_consistent (run_pushed e r)"
  by (auto simp: run_pushed_def Let_def reg_consistent_queue split: list.splits pushed.splits
      intro: reg_consistent_remove_listener reg_consistent_notify)

lemma reg_consistent_fetch: "reg_consistent r \<Longrightarrow> reg_consistent (fetchAllServiceNames e ns r)"
proof -
  have "reg_consistent (r\<lparr>dbusServiceNameMap := m\<rparr>) = reg_consistent r" for r m
    by (rule reg_consistent_cong) (simp_all add: owns_def fun_eq_iff)
  then have "reg_consistent r \<Longrightarrow> reg_consistent (fold (\<lambda>n r. if isDBusServiceName n
      then r\<lparr>dbusServiceNameMap := al_insert n None (dbusServiceNameMap r)\<rparr> else r) xs r)" for xs r
    by (induction xs arbitrary: r) simp_all
  then show "reg_consistent r \<Longrightarrow> reg_consistent (fetchAllServiceNames e ns r)"
    by (simp add: fetchAllServiceNames_def split: option.splits)
qed

lemma reg_consistent_alive:
  "isServiceInstanceAlive_name e s r = Inr x \<Longrightarrow> reg_consistent r \<Longrightarrow> reg_consistent (snd x)"
  "isServiceInstanceAlive_path e s p u r = Inr r' \<Longrightarrow> reg_consistent r \<Longrightarrow> reg_consistent r'"
proof -
  have "reg_consistent (resolveDBusServiceName e s (put_service s (new_service_record\<lparr>uniqueBusNameState := RESOLVING, serviceFuture := True\<rparr>) r))"
    if "reg_consistent r"
    using that by (intro reg_consistent_resolve_name reg_consistent_put_service) (simp_all add: good_def quiet_def new_service_record_def)
  then show "isServiceInstanceAlive_name e s r = Inr x \<Longrightarrow> reg_consistent r \<Longrightarrow> reg_consistent (snd x)"
    by (auto simp: isServiceInstanceAlive_name_def split: option.splits if_splits)
  show "isServiceInstanceAlive_path e s p u r = Inr r' \<Longrightarrow> reg_consistent r \<Longrightarrow> reg_consistent r'"
    by (auto simp: isServiceInstanceAlive_path_def resolveObjectPathWithObjectManager_def getManagedObjectsAsync_def split: option.splits if_splits)
qed

end
