(* ===== verification/Registry_Signals.thy ===== *)
theory Registry_Signals
  imports Service_Registry_Correct
begin

text \<open>What a signal of an object manager does to the entries of the listeners: the loops over the
  owned names, the changed interfaces and the listeners, and that each entry is reached.\<close>

section \<open>Signals\<close>

lemma notify_list_keeps:
  "notify_list live ls rem = (ls', rem', called) \<Longrightarrow> (k, x) \<in> set ls \<Longrightarrow> k \<notin> set rem \<Longrightarrow>
     (k, x) \<in> set ls' \<and> (live x \<longrightarrow> k \<in> set called)"
  by (induction live ls rem arbitrary: ls' rem' called rule: notify_list.induct)
    (auto split: if_splits prod.splits)

text \<open>The record of a listener after a notification.\<close>

definition told :: "renv \<Rightarrow> name \<times> name \<times> name \<Rightarrow> bool \<Rightarrow> listener_record \<Rightarrow> listener_record" where
  "told e addr b l = fst (notifyDBusInterfaceNameListeners e addr b l)"

lemma told_again [simp]: "notifyDBusInterfaceNameListeners e addr b (told e addr b l) = (told e addr b l, [])"
proof -
  obtain l' es where n: "notifyDBusInterfaceNameListeners e addr b l = (l', es)" by fastforce
  show ?thesis using notify_state[OF n] by (simp add: told_def n) (simp add: notifyDBusInterfaceNameListeners_def)
qed

lemma told_keeps:
  assumes "(k, x) \<in> set (listenerList l)" "k \<notin> set (listenersToRemove l)"
  shows "(k, x) \<in> set (listenerList (told e addr b l))" "state (told e addr b l) = (if b then AVAILABLE else NOT_AVAILABLE)"
proof -
  obtain ls rem cs where n: "notify_list (liveProxy e) (listenerList l) (listenersToRemove l) = (ls, rem, cs)"
    by (metis prod_cases3)
  show "(k, x) \<in> set (listenerList (told e addr b l))"
    using notify_list_keeps[OF n assms] assms(1) by (simp add: told_def notifyDBusInterfaceNameListeners_def n Let_def)
  show "state (told e addr b l) = (if b then AVAILABLE else NOT_AVAILABLE)"
    by (simp add: told_def notify_state[OF surjective_pairing])
qed

lemma calls_live:
  assumes "(k, x) \<in> set (listenerList l)" "k \<notin> set (listenersToRemove l)" "liveProxy e x"
    and "state l \<noteq> (if b then AVAILABLE else NOT_AVAILABLE)"
  shows "Notify s p i k b \<in> set (snd (notifyDBusInterfaceNameListeners e (s, p, i) b l))"
proof -
  obtain ls rem cs where n: "notify_list (liveProxy e) (listenerList l) (listenersToRemove l) = (ls, rem, cs)"
    by (metis prod_cases3)
  show ?thesis
    using notify_list_keeps[OF n assms(1,2)] assms(3,4) by (auto simp: notifyDBusInterfaceNameListeners_def n Let_def)
qed

text \<open>What a changed object path does to the entry of one interface.\<close>

definition kept :: "listener_record \<Rightarrow> listener_record option" where
  "kept l = (if listenerList l = [] then None else Some l)"

lemma path_changed_entry:
  "map_of (fst (notifyDBusObjectPathChanged e s p b names m)) i =
     (if i \<in> set names then Option.bind (map_of m i) (\<lambda>l. kept (told e (s, p, i) b l)) else map_of m i)"
proof (induction names arbitrary: m)
  case (Cons j names)
  show ?case
  proof (cases "map_of m j")
    case (Some l)
    obtain l' es where n: "notifyDBusInterfaceNameListeners e (s, p, j) b l = (l', es)" by fastforce
    then have l': "l' = told e (s, p, j) b l" by (simp add: told_def)
    have t: "told e (s, p, j) b l' = l'" by (simp add: l' told_def[of _ _ _ "told e (s, p, j) b l"])
    show ?thesis
      using Cons.IH[of "if listenerList l' = [] then al_erase j m else al_put j l' m"] Some n t l'
      by (auto simp: kept_def split: prod.splits)
  qed (use Cons.IH[of m] in auto)
qed simp

lemma path_changed_calls:
  assumes "map_of m i = Some l" "i \<in> set names"
  shows "set (snd (notifyDBusInterfaceNameListeners e (s, p, i) b l)) \<subseteq> set (snd (notifyDBusObjectPathChanged e s p b names m))"
  using assms
proof (induction names arbitrary: m)
  case (Cons j names)
  show ?case
  proof (cases "map_of m j")
    case None
    then show ?thesis using Cons by auto
  next
    case (Some k)
    obtain k' es where n: "notifyDBusInterfaceNameListeners e (s, p, j) b k = (k', es)" by fastforce
    show ?thesis
    proof (cases "i = j")
      case True
      then show ?thesis using Some n Cons.prems by (auto split: prod.splits)
    next
      case False
      then show ?thesis
        using Cons.IH[of "if listenerList k' = [] then al_erase j m else al_put j k' m"] Cons.prems Some n
        by (auto split: prod.splits)
    qed
  qed
qed simp

lemma notify_service_other:
  "t \<noteq> s \<Longrightarrow> find_interface (t, p, i) (notify_service e q names st s r) = find_interface (t, p, i) r"
  by (auto simp: notify_service_def find_interface_def put_service_def record_events_def split: option.splits prod.splits)

lemma rlog_notify_service: "set (rlog r) \<subseteq> set (rlog (notify_service e p names st s r))"
  by (auto simp: notify_service_def put_service_def record_events_def split: option.splits prod.splits)

lemma rlog_notify: "set (rlog r) \<subseteq> set (rlog (fold (notify_service e p names st) owned r))"
proof (induction owned arbitrary: r)
  case (Cons s owned)
  show ?case using Cons.IH[of "notify_service e p names st s r"] rlog_notify_service[of r e p names st s] by auto
qed simp

lemma state_notify_service [simp]:
  "uniqueBusNameState (service_at t (notify_service e p names st s r)) = uniqueBusNameState (service_at t r)"
  by (auto simp: notify_service_def service_at_def at_or_def put_service_def record_events_def split: option.splits prod.splits)

lemma notify_service_entry:
  assumes "uniqueBusNameState (service_at s r) = RESOLVED" "st \<noteq> RESOLVED" "find_interface (s, p, i) r = Some l" "i \<in> set names"
  shows "find_interface (s, p, i) (notify_service e p names st s r) = kept (told e (s, p, i) (st = AVAILABLE) l)"
    and "set (snd (notifyDBusInterfaceNameListeners e (s, p, i) (st = AVAILABLE) l)) \<subseteq> set (rlog (notify_service e p names st s r))"
proof -
  obtain rec m where r: "map_of (dbusServiceListenersMap r) s = Some rec" "map_of (objectPathListeners rec) p = Some m"
      "map_of m i = Some l"
    using assms(3) by (auto simp: find_interface_def bind_eq_Some_conv)
  have u: "uniqueBusNameState rec = RESOLVED" using assms(1) r(1) by (simp add: service_at_def at_or_def)
  obtain m' es where c: "notifyDBusObjectPathChanged e s p (st = AVAILABLE) names m = (m', es)" by fastforce
  have m: "map_of m' i = kept (told e (s, p, i) (st = AVAILABLE) l)"
    using path_changed_entry[of e s p "st = AVAILABLE" names m i] c r(3) assms(4) by simp
  then show "find_interface (s, p, i) (notify_service e p names st s r) = kept (told e (s, p, i) (st = AVAILABLE) l)"
    using r u assms(2) c by (auto simp: notify_service_def find_interface_def put_service_def record_events_def)
  show "set (snd (notifyDBusInterfaceNameListeners e (s, p, i) (st = AVAILABLE) l)) \<subseteq> set (rlog (notify_service e p names st s r))"
    using path_changed_calls[OF r(3) assms(4), of e s p "st = AVAILABLE"] c r u assms(2)
    by (auto simp: notify_service_def put_service_def record_events_def)
qed


lemma notify_reaches:
  assumes "uniqueBusNameState (service_at s r) = RESOLVED" "st \<noteq> RESOLVED" "find_interface (s, p, i) r = Some l" "i \<in> set names"
    and "(k, x) \<in> set (listenerList l)" "k \<notin> set (listenersToRemove l)" "s \<in> set owned"
  shows "find_interface (s, p, i) (fold (notify_service e p names st) owned r) = Some (told e (s, p, i) (st = AVAILABLE) l) \<and>
    set (snd (notifyDBusInterfaceNameListeners e (s, p, i) (st = AVAILABLE) l)) \<subseteq> set (rlog (fold (notify_service e p names st) owned r))"
  (is "find_interface ?a _ = Some ?t \<and> ?es \<subseteq> _")
proof -
  have k: "kept ?t = Some ?t" using told_keeps(1)[OF assms(5,6), of e ?a "st = AVAILABLE"] by (auto simp: kept_def)
  have tt: "told e ?a (st = AVAILABLE) ?t = ?t" by (simp add: told_def[of _ _ _ "told e ?a (st = AVAILABLE) l"])
  have stay: "find_interface ?a (fold (notify_service e p names st) xs q) = Some ?t"
    if "find_interface ?a q = Some ?t" "uniqueBusNameState (service_at s q) = RESOLVED" for xs q
    using that
  proof (induction xs arbitrary: q)
    case (Cons y xs)
    have "find_interface ?a (notify_service e p names st y q) = Some ?t"
      using notify_service_entry(1)[OF Cons.prems(2) assms(2) Cons.prems(1) assms(4), of e] notify_service_other[of s y p i e p names st q]
        Cons.prems(1) k tt by (cases "y = s") simp_all
    then show ?case using Cons by simp
  qed simp
  show ?thesis
    using assms(1,3,7)
  proof (induction owned arbitrary: r)
    case (Cons y owned)
    show ?case
    proof (cases "y = s")
      case True
      have f: "find_interface ?a (notify_service e p names st s r) = Some ?t"
        using notify_service_entry(1)[OF Cons.prems(1) assms(2) Cons.prems(2) assms(4), of e] k by simp
      show ?thesis
        using stay[OF f, of owned] notify_service_entry(2)[OF Cons.prems(1) assms(2) Cons.prems(2) assms(4), of e]
          rlog_notify[of "notify_service e p names st s r" e p names st owned] Cons.prems(1)
        by (auto simp: True)
    next
      case False
      then show ?thesis
        using Cons.IH[of "notify_service e p names st y r"] Cons.prems notify_service_other[of s y p i e p names st r] by simp
    qed
  qed simp
qed

end
