(* ===== verification/Registry_Props.thy ===== *)
theory Registry_Props
  imports Registry_Signals
begin

text \<open>The properties of the service registry.\<close>

section \<open>Availability\<close>

text \<open>The names of services are not empty.\<close>

fun named_op :: "registry_op \<Rightarrow> bool" where
  "named_op (NameOwnerReply ok u s) = (s \<noteq> [])"
| "named_op _ = True"

lemma reg_consistent_step:
  assumes "registry_step e x r = Inr r'" "reg_consistent r" "named_op x"
  shows "reg_consistent r'"
proof (cases x)
  case (NameOwnerReply ok u s)
  then show ?thesis using assms reg_consistent_name_owner[of e ok u s r r'] by simp
next
  case (AliveName s)
  then show ?thesis using assms
    by (cases "isServiceInstanceAlive_name e s r") (auto intro: reg_consistent_alive(1))
next
  case (Predefine s)
  then show ?thesis using assms reg_consistent_cong[of r' r]
    by (auto simp: setDBusServicePredefined_def owns_def fun_eq_iff)
qed (use assms in \<open>auto intro: reg_consistent_subscribe reg_consistent_unsubscribe reg_consistent_pushed reg_consistent_owner_changed
  reg_consistent_managed_objects reg_consistent_refresh reg_consistent_signal reg_consistent_fetch reg_consistent_alive\<close>)

lemma reg_consistent_run:
  "registry_run xs r = Inr r' \<Longrightarrow> reg_consistent r \<Longrightarrow> \<forall>(e, x) \<in> set xs. named_op x \<Longrightarrow> reg_consistent r'"
proof (induction xs arbitrary: r)
  case (Cons y xs)
  obtain e x where y: "y = (e, x)" by (cases y)
  obtain r1 where r1: "registry_step e x r = Inr r1" "registry_run xs r1 = Inr r'"
    using Cons.prems(1) by (cases "registry_step e x r") (auto simp: y)
  show ?case
    using Cons.IH[OF r1(2) reg_consistent_step[OF r1(1) Cons.prems(2)]] Cons.prems(3) y by simp
qed simp

text \<open>C8: After any sequence of subscriptions, queries, replies and signals, listeners are in the
  state \<open>AVAILABLE\<close> only if their service is resolved to a connection that is known to own it.\<close>

theorem available_only_while_owned:
  assumes "registry_run xs new_registry = Inr r" "\<forall>(e, x) \<in> set xs. named_op x"
    and "find_interface (s, p, i) r = Some l" "state l = AVAILABLE"
  shows "uniqueBusNameState (service_at s r) = RESOLVED \<and>
    (\<exists>rec. map_of (dbusUniqueNamesMap r) (uniqueBusName (service_at s r)) = Some rec \<and> s \<in> set (ownedBusNames rec))"
proof -
  have c: "reg_consistent r"
    by (rule reg_consistent_run[OF assms(1) _ assms(2)]) (simp add: reg_consistent_def new_registry_def)
  have "uniqueBusNameState (service_at s r) = RESOLVED"
    using find_interface_state[OF assms(3) c] assms(4) by blast
  then show ?thesis using good_at[OF c, of s] by (simp add: good_def owns_def)
qed

definition example_renv :: renv where
  "example_renv = \<lparr>daemonAvailable = True, isConnected = True, liveProxy = (\<lambda>_. True), peerMapped = False\<rparr>"

definition example_ops :: "(renv \<times> registry_op) list" where
  "example_ops = map (\<lambda>x. (example_renv, x))
     [Subscribe ''s'' ''/p'' ''i'' 1, NameOwnerReply True '':1.5'' ''s'',
      ManagedObjectsReply (Some [(''/p'', [''i''])]) '':1.5'' ''/p'']"

definition registry_value :: "(registry \<Rightarrow> 'a) \<Rightarrow> registry_error + registry \<Rightarrow> 'a option" where
  "registry_value f x = (case x of Inl _ \<Rightarrow> None | Inr r \<Rightarrow> Some (f r))"

lemma example_ops_run:
  "registry_value (\<lambda>r. (map_option state (find_interface (''s'', ''/p'', ''i'') r), rlog r)) (registry_run example_ops new_registry) =
     Some (Some AVAILABLE, [GetNameOwner ''s'', AddOMHandler '':1.5'', GetManagedObjects '':1.5'' ''/'' ''/p'', Notify ''s'' ''/p'' ''i'' 0 True])"
  by code_simp

lemma available_only_while_owned_witness:
  "\<exists>r. registry_run example_ops new_registry = Inr r \<and> uniqueBusNameState (service_at ''s'' r) = RESOLVED"
proof -
  obtain r l where r: "registry_run example_ops new_registry = Inr r" "find_interface (''s'', ''/p'', ''i'') r = Some l"
      "state l = AVAILABLE"
    using example_ops_run by (auto simp: registry_value_def split: sum.splits)
  have "uniqueBusNameState (service_at ''s'' r) = RESOLVED \<and>
    (\<exists>rec. map_of (dbusUniqueNamesMap r) (uniqueBusName (service_at ''s'' r)) = Some rec \<and> ''s'' \<in> set (ownedBusNames rec))"
    by (rule available_only_while_owned[OF r(1) _ r(2,3)]) (simp add: example_ops_def)
  then show ?thesis using r(1) by blast
qed

section \<open>Signals\<close>

lemma example_registry:
  "\<exists>r rec c l. registry_run example_ops new_registry = Inr r \<and> map_of (dbusUniqueNamesMap r) '':1.5'' = Some rec \<and>
     ownedBusNames rec = [''s''] \<and> map_of (objectPathsCache rec) ''/p'' = Some c \<and> cacheState c = RESOLVED \<and>
     uniqueBusNameState (service_at ''s'' r) = RESOLVED \<and> find_interface (''s'', ''/p'', ''i'') r = Some l \<and>
     state l = AVAILABLE \<and> listenerList l = [(0, 1)] \<and> listenersToRemove l = []"
proof -
  have run: "registry_value (\<lambda>r. (map_option ownedBusNames (map_of (dbusUniqueNamesMap r) '':1.5''),
        map_option (\<lambda>rec. map_option cacheState (map_of (objectPathsCache rec) ''/p'')) (map_of (dbusUniqueNamesMap r) '':1.5''),
        uniqueBusNameState (service_at ''s'' r),
        map_option (\<lambda>l. (state l, listenerList l, listenersToRemove l)) (find_interface (''s'', ''/p'', ''i'') r)))
      (registry_run example_ops new_registry) =
    Some (Some [''s''], Some (Some RESOLVED), RESOLVED, Some (AVAILABLE, [(0, 1)], []))"
    by code_simp
  then show ?thesis by (auto simp: registry_value_def split: sum.splits)
qed

text \<open>A signal that interfaces were added or removed at a resolved object path reaches every
  listener of the interface at a resolved service of the sender: a listener that is not about to be
  removed stays, its record takes the new state, and its callback is called if its proxy is alive
  and the state was another one.\<close>

theorem signal_updates_listeners:
  assumes "map_of (dbusUniqueNamesMap r) u = Some rec" "s \<in> set (ownedBusNames rec)"
    and "map_of (objectPathsCache rec) p = Some c" "cacheState c = RESOLVED" "i \<in> set names"
    and "uniqueBusNameState (service_at s r) = RESOLVED" "find_interface (s, p, i) r = Some l"
    and "(k, x) \<in> set (listenerList l)" "k \<notin> set (listenersToRemove l)"
  shows "\<exists>l'. find_interface (s, p, i) (onSignalDBusMessage e u p added names r) = Some l' \<and>
      state l' = (if added then AVAILABLE else NOT_AVAILABLE) \<and> (k, x) \<in> set (listenerList l') \<and>
      (if liveProxy e x \<and> state l \<noteq> state l' then Notify s p i k added \<in> set (rlog (onSignalDBusMessage e u p added names r)) else True)"
proof -
  let ?st = "if added then AVAILABLE else NOT_AVAILABLE"
  define names' where "names' = (if added then fold set_add names (interfaceNames c) else filter (\<lambda>i. i \<notin> set names) (interfaceNames c))"
  define r1 where "r1 = put_cache u p (c\<lparr>interfaceNames := names'\<rparr>) r"
  have sig: "onSignalDBusMessage e u p added names r = fold (notify_service e p names ?st) (ownedBusNames rec) r1"
    using assms(1,3,4,5) by (auto simp: onSignalDBusMessage_def notifyDBusServiceListeners_def r1_def names'_def Let_def)
  have r1: "uniqueBusNameState (service_at s r1) = RESOLVED" "find_interface (s, p, i) r1 = Some l"
    using assms(6,7) by (simp_all add: r1_def find_interface_def)
  have st: "?st \<noteq> RESOLVED" "(?st = AVAILABLE) = added" by simp_all
  note reach = notify_reaches[OF r1(1) st(1) r1(2) assms(5,8,9,2), of e, unfolded st(2)]
  show ?thesis
    using reach told_keeps[OF assms(8,9), of e "(s, p, i)" added] calls_live[OF assms(8,9), of e added s p i]
    by (auto simp: sig)
qed


lemma signal_updates_listeners_witness:
  "\<exists>r l'. registry_run example_ops new_registry = Inr r \<and>
     find_interface (''s'', ''/p'', ''i'') (onSignalDBusMessage example_renv '':1.5'' ''/p'' False [''i''] r) = Some l' \<and>
     state l' = NOT_AVAILABLE \<and>
     Notify ''s'' ''/p'' ''i'' 0 False \<in> set (rlog (onSignalDBusMessage example_renv '':1.5'' ''/p'' False [''i''] r))"
proof -
  obtain r rec c l where r: "registry_run example_ops new_registry = Inr r" "map_of (dbusUniqueNamesMap r) '':1.5'' = Some rec"
      "ownedBusNames rec = [''s'']" "map_of (objectPathsCache rec) ''/p'' = Some c" "cacheState c = RESOLVED"
      "uniqueBusNameState (service_at ''s'' r) = RESOLVED" "find_interface (''s'', ''/p'', ''i'') r = Some l"
      "state l = AVAILABLE" "listenerList l = [(0, 1)]" "listenersToRemove l = []"
    using example_registry by blast
  show ?thesis
    using signal_updates_listeners[OF r(2) _ r(4,5) _ r(6,7), of "[''i'']" 0 1 example_renv False] r
    by (auto simp: example_renv_def split: if_splits)
qed

section \<open>Lost names\<close>

text \<open>C33: When the only name of a connection is lost, its record is freed but
  \<open>dbusServiceNameMap_\<close> keeps the pointer to it: the next \<open>isServiceInstanceAlive\<close> of that name
  dereferences it.\<close>

theorem lost_name_leaves_dangling_pointer:
  assumes "isDBusServiceName s" "uniqueBusNameState (service_at s r) = RESOLVED" "uniqueBusName (service_at s r) = u"
    and "map_of (dbusUniqueNamesMap r) u = Some rec" "set (ownedBusNames rec) = {s}"
    and "map_of (dbusServiceNameMap r) s = Some (Some u)"
  shows "isServiceInstanceAlive_name e' s (onDBusDaemonProxyNameOwnerChangedEvent e s u [] r) = Inl DanglingPointer"
proof -
  have n: "s \<noteq> []" using assms(1) by (auto simp: isDBusServiceName_def)
  have "removeAll s (ownedBusNames rec) = []"
    using assms(5) by (simp add: removeAll_filter_not_eq filter_empty_conv)
  then have rm: "removeUniqueName u s r = record_events [RemoveOMHandler u] (r\<lparr>dbusUniqueNamesMap := al_erase u (dbusUniqueNamesMap r)\<rparr>)"
    using assms(4) n by (simp add: removeUniqueName_def)
  obtain ps es where l: "lose_paths e s (objectPathListeners (service_at s r)) = (ps, es)" by fastforce
  have "map_of (dbusUniqueNamesMap (onDBusDaemonProxyNameOwnerChangedEvent e s u [] r)) u = None"
    "map_of (dbusServiceNameMap (onDBusDaemonProxyNameOwnerChangedEvent e s u [] r)) s = Some (Some u)"
    using assms rm l
    by (simp_all add: onDBusDaemonProxyNameOwnerChangedEvent_def checkDBusServiceWasAvailable_def onDBusServiceNotAvailable_def Let_def)
  then show ?thesis by (simp add: isServiceInstanceAlive_name_def findCachedDbusService_def)
qed

lemma lost_name_leaves_dangling_pointer_witness:
  "\<exists>r. registry_run [(example_renv, NameOwnerChanged ''s'' [] '':1.5'')] new_registry = Inr r \<and>
     isServiceInstanceAlive_name example_renv ''s'' (onDBusDaemonProxyNameOwnerChangedEvent example_renv ''s'' '':1.5'' [] r)
       = Inl DanglingPointer"
proof -
  let ?r = "onDBusDaemonProxyNameOwnerChangedEvent example_renv ''s'' [] '':1.5'' new_registry"
  have r: "uniqueBusNameState (service_at ''s'' ?r) = RESOLVED" "uniqueBusName (service_at ''s'' ?r) = '':1.5''"
    "map_of (dbusUniqueNamesMap ?r) '':1.5'' = Some (new_unique_record\<lparr>ownedBusNames := [''s'']\<rparr>)"
    "map_of (dbusServiceNameMap ?r) ''s'' = Some (Some '':1.5'')"
    by code_simp+
  have "isServiceInstanceAlive_name example_renv ''s'' (onDBusDaemonProxyNameOwnerChangedEvent example_renv ''s'' '':1.5'' [] ?r)
       = Inl DanglingPointer"
    by (rule lost_name_leaves_dangling_pointer[OF _ r(1-3) _ r(4)]) (simp_all add: isDBusServiceName_def)
  then show ?thesis by simp
qed

text \<open>A release that arrives after the new owner was seen makes the service of the new owner
  unavailable, if the old connection still owns another name.\<close>

lemma stale_release_hides_new_owner:
  assumes "isDBusServiceName s" "map_of (dbusUniqueNamesMap r) old \<noteq> None"
  shows "uniqueBusNameState (service_at s (onDBusDaemonProxyNameOwnerChangedEvent e s old [] r)) = NOT_AVAILABLE"
  using assms
  by (simp add: onDBusDaemonProxyNameOwnerChangedEvent_def checkDBusServiceWasAvailable_def onDBusServiceNotAvailable_def Let_def
      split: prod.splits)

text \<open>Leaving the block that asked for the name of a service always ends the program.\<close>

lemma leaving_terminates: "isServiceInstanceAlive_leave inserted = Inl Terminated"
  by (cases inserted) (simp_all add: isServiceInstanceAlive_leave_def destroy_service_record_def)

end
