(* ===== verification/Object_Manager.thy ===== *)
theory Object_Manager
  imports Connection Address
begin

text \<open>
  Published objects: the object manager of a connection (\<open>DBusObjectManager.cpp\<close>), its table of
  interface handlers and its managers of object paths (\<open>DBusObjectManagerStub.cpp\<close>), on the
  connection of \<open>Connection\<close>. A stub adapter is a number, the pointer; what never changes of an
  adapter is an argument \<open>A\<close>. The environment says whether a message could be sent; every message
  that was sent is recorded. Locks make the operations atomic and are left out.
\<close>

type_synonym adapter = nat

record stub_adapter =
  adapterAddress :: DBusAddress
  isManaging :: bool
  hasFreedesktopProperties :: bool

type_synonym interfaces_map = "(string \<times> adapter list) list"

record om_stub =
  dbusObjectPath :: string
  objectPathsMap :: "(string \<times> interfaces_map) list"

datatype om_message =
    InterfacesAdded string string "string list"
  | InterfacesRemoved string string "string list"
  | ManagedObjects string "(string \<times> string list) list"

text \<open>The interface handlers: an adapter, the stub of a manager, a properties stub and its adapter.\<close>

datatype om_handler = AdapterHandler adapter | ManagerHandler nat | PropertiesHandler nat adapter

text \<open>A connection with its object manager; the root manager is stub 0.\<close>

record bus =
  con :: conn
  sent :: "om_message list"
  handlerTable :: "((string \<times> string) \<times> om_handler list) list"
  managerStubs :: "(string \<times> (nat \<times> u32)) list"
  stubs :: "(nat \<times> om_stub) list"
  nextStub :: nat

record bus_env =
  lib :: libdbus
  canSend :: "om_message list \<Rightarrow> om_message \<Rightarrow> bool"

definition OM_INTERFACE :: string where
  "OM_INTERFACE = ''org.freedesktop.DBus.ObjectManager''"

definition PROPERTIES_INTERFACE :: string where
  "PROPERTIES_INTERFACE = ''org.freedesktop.DBus.Properties''"

definition sendDBusMessage :: "bus_env \<Rightarrow> om_message \<Rightarrow> bus \<Rightarrow> bool \<times> bus" where
  "sendDBusMessage e m b =
     (if canSend e (sent b) m then (True, b\<lparr>sent := sent b @ [m]\<rparr>) else (False, b))"

section \<open>The manager of an object path\<close>

definition adapter_path :: "(adapter \<Rightarrow> stub_adapter) \<Rightarrow> adapter \<Rightarrow> string" where
  "adapter_path A a = getObjectPath (adapterAddress (A a))"

definition adapter_interface :: "(adapter \<Rightarrow> stub_adapter) \<Rightarrow> adapter \<Rightarrow> string" where
  "adapter_interface A a = getInterface (adapterAddress (A a))"

definition isDBusStubAdapterExported :: "(adapter \<Rightarrow> stub_adapter) \<Rightarrow> adapter \<Rightarrow> om_stub \<Rightarrow> bool" where
  "isDBusStubAdapterExported A a st =
     (case map_of (objectPathsMap st) (adapter_path A a) of
        None \<Rightarrow> False
      | Some m \<Rightarrow> (case map_of m (adapter_interface A a) of None \<Rightarrow> False | Some as \<Rightarrow> a \<in> set as))"

definition stub_register :: "(adapter \<Rightarrow> stub_adapter) \<Rightarrow> adapter \<Rightarrow> om_stub \<Rightarrow> bool \<times> om_stub" where
  "stub_register A a st =
     (let p = adapter_path A a; i = adapter_interface A a
      in case map_of (objectPathsMap st) p of
           Some m \<Rightarrow>
             (case map_of m i of
                None \<Rightarrow> (True, st\<lparr>objectPathsMap := al_put p (al_insert i [a] m) (objectPathsMap st)\<rparr>)
              | Some as \<Rightarrow>
                  if a \<in> set as then (False, st)
                  else (True, st\<lparr>objectPathsMap := al_put p (al_put i (as @ [a]) m) (objectPathsMap st)\<rparr>))
         | None \<Rightarrow> (True, st\<lparr>objectPathsMap := al_insert p [(i, [a])] (objectPathsMap st)\<rparr>))"

definition stub_unregister :: "(adapter \<Rightarrow> stub_adapter) \<Rightarrow> adapter \<Rightarrow> om_stub \<Rightarrow> bool \<times> om_stub" where
  "stub_unregister A a st =
     (let p = adapter_path A a; i = adapter_interface A a
      in case map_of (objectPathsMap st) p of
           None \<Rightarrow> (False, st)
         | Some m \<Rightarrow>
             (case map_of m i of
                None \<Rightarrow> (False, st)
              | Some as \<Rightarrow>
                  if a \<notin> set as then (False, st)
                  else
                    (let as' = remove1 a as;
                         m' = (if as' = [] then al_erase i m else al_put i as' m)
                     in (True, st\<lparr>objectPathsMap := (if m' = [] then al_erase p (objectPathsMap st)
                                               else al_put p m' (objectPathsMap st))\<rparr>))))"

definition stub_at :: "nat \<Rightarrow> bus \<Rightarrow> om_stub" where
  "stub_at k b = (case map_of (stubs b) k of Some st \<Rightarrow> st | None \<Rightarrow> \<lparr>dbusObjectPath = [], objectPathsMap = []\<rparr>)"

definition put_stub :: "nat \<Rightarrow> om_stub \<Rightarrow> bus \<Rightarrow> bus" where
  "put_stub k st b = b\<lparr>stubs := al_put k st (stubs b)\<rparr>"

text \<open>The dictionaries of the signals have each name once.\<close>

definition emitInterfacesAddedSignal ::
  "bus_env \<Rightarrow> (adapter \<Rightarrow> stub_adapter) \<Rightarrow> adapter \<Rightarrow> string \<Rightarrow> bus \<Rightarrow> bool \<times> bus" where
  "emitInterfacesAddedSignal e A a path b =
     (let d = [adapter_interface A a];
          d1 = (if isManaging (A a) then set_add OM_INTERFACE d else d);
          d2 = (if hasFreedesktopProperties (A a) then set_add PROPERTIES_INTERFACE d1 else d1)
      in sendDBusMessage e (InterfacesAdded path (adapter_path A a) d2) b)"

definition emitInterfacesRemovedSignal ::
  "bus_env \<Rightarrow> (adapter \<Rightarrow> stub_adapter) \<Rightarrow> adapter \<Rightarrow> string \<Rightarrow> bus \<Rightarrow> bool \<times> bus" where
  "emitInterfacesRemovedSignal e A a path b =
     sendDBusMessage e (InterfacesRemoved path (adapter_path A a)
       (adapter_interface A a # (if isManaging (A a) then [OM_INTERFACE] else []))) b"

definition exportManagedDBusStubAdapter ::
  "bus_env \<Rightarrow> (adapter \<Rightarrow> stub_adapter) \<Rightarrow> nat \<Rightarrow> adapter \<Rightarrow> bus \<Rightarrow> bool \<times> bus" where
  "exportManagedDBusStubAdapter e A k a b =
     (if isDBusStubAdapterExported A a (stub_at k b) then (True, b)
      else (case stub_register A a (stub_at k b) of
              (ok, st) \<Rightarrow>
                if \<not> ok then (False, b)
                else
                  (let b1 = put_stub k st b
                   in if connected (con b1) then
                        (case emitInterfacesAddedSignal e A a (dbusObjectPath st) b1 of
                           (ok', b2) \<Rightarrow>
                             if ok' then (True, b2)
                             else (False, put_stub k (snd (stub_unregister A a (stub_at k b2))) b2))
                      else (True, b1))))"

definition unexportManagedDBusStubAdapter ::
  "bus_env \<Rightarrow> (adapter \<Rightarrow> stub_adapter) \<Rightarrow> nat \<Rightarrow> adapter \<Rightarrow> bus \<Rightarrow> bool \<times> bus" where
  "unexportManagedDBusStubAdapter e A k a b =
     (case stub_unregister A a (stub_at k b) of
        (ok, st) \<Rightarrow>
          if \<not> ok then (False, b)
          else
            (let b1 = put_stub k st b
             in if connected (con b1) then
                  (case emitInterfacesRemovedSignal e A a (dbusObjectPath st) b1 of
                     (ok', b2) \<Rightarrow>
                       if ok' then (True, b2)
                       else (False, put_stub k (snd (stub_register A a (stub_at k b2))) b2))
                else (True, b1)))"

text \<open>
  The reply to \<open>GetManagedObjects\<close>. The first adapter of a list is dereferenced; \<open>None\<close> if the
  list is empty.
\<close>

fun managed_interfaces :: "(adapter \<Rightarrow> stub_adapter) \<Rightarrow> interfaces_map \<Rightarrow> string list \<Rightarrow> string list option" where
  "managed_interfaces A [] d = Some d"
| "managed_interfaces A ((i, as) # m) d =
     (let d1 = (if i = [] then d else set_add i d)
      in case as of
           [] \<Rightarrow> None
         | a # _ \<Rightarrow> managed_interfaces A m (if isManaging (A a) then set_add OM_INTERFACE d1 else d1))"

fun managed_objects :: "(adapter \<Rightarrow> stub_adapter) \<Rightarrow> (string \<times> interfaces_map) list \<Rightarrow> (string \<times> string list) list option" where
  "managed_objects A [] = Some []"
| "managed_objects A ((p, m) # ps) =
     (if p = [] then managed_objects A ps
      else Option.bind (managed_interfaces A m []) (\<lambda>d. map_option (Cons (p, d)) (managed_objects A ps)))"

definition onInterfaceDBusMessage ::
  "bus_env \<Rightarrow> (adapter \<Rightarrow> stub_adapter) \<Rightarrow> nat \<Rightarrow> bool \<Rightarrow> string \<Rightarrow> bus \<Rightarrow> (bool \<times> bus) option" where
  "onInterfaceDBusMessage e A k is_call member b =
     (if \<not> connected (con b) \<or> \<not> is_call \<or> member \<noteq> ''GetManagedObjects'' then Some (False, b)
      else map_option (\<lambda>d. sendDBusMessage e (ManagedObjects (dbusObjectPath (stub_at k b)) d) b)
             (managed_objects A (objectPathsMap (stub_at k b))))"

section \<open>The table of interface handlers\<close>

definition addToRegisteredObjectsTable :: "string \<times> string \<Rightarrow> om_handler \<Rightarrow> bus \<Rightarrow> bool \<times> bus" where
  "addToRegisteredObjectsTable k h b =
     (case map_of (handlerTable b) k of
        None \<Rightarrow> (True, b\<lparr>handlerTable := al_insert k [h] (handlerTable b)\<rparr>)
      | Some hs \<Rightarrow>
          if h \<in> set hs then (False, b)
          else (True, b\<lparr>handlerTable := al_put k (hs @ [h]) (handlerTable b)\<rparr>))"

definition addDBusInterfaceHandler :: "string \<times> string \<Rightarrow> om_handler \<Rightarrow> bus \<Rightarrow> bool \<times> bus" where
  "addDBusInterfaceHandler k h b =
     (case map_of (handlerTable b) k of
        Some hs \<Rightarrow>
          if h \<in> set hs then (snd k = OM_INTERFACE \<or> snd k = PROPERTIES_INTERFACE, b)
          else addToRegisteredObjectsTable k h b
      | None \<Rightarrow> addToRegisteredObjectsTable k h b)"

definition removeDBusInterfaceHandler :: "string \<times> string \<Rightarrow> om_handler \<Rightarrow> bus \<Rightarrow> bool \<times> bus" where
  "removeDBusInterfaceHandler k h b =
     (case map_of (handlerTable b) k of
        None \<Rightarrow> (False, b)
      | Some hs \<Rightarrow>
          (True,
           if h \<notin> set hs then b
           else (let hs' = remove1 h hs
                 in b\<lparr>handlerTable := (if hs' = [] then al_erase k (handlerTable b)
                                      else al_put k hs' (handlerTable b))\<rparr>)))"

definition adapter_key :: "(adapter \<Rightarrow> stub_adapter) \<Rightarrow> adapter \<Rightarrow> string \<times> string" where
  "adapter_key A a = (adapter_path A a, adapter_interface A a)"

text \<open>The three parts of \<open>registerDBusStubAdapter\<close>: the adapter, its properties, its manager.\<close>

definition register_properties :: "(adapter \<Rightarrow> stub_adapter) \<Rightarrow> adapter \<Rightarrow> bool \<times> bus \<Rightarrow> bool \<times> bus" where
  "register_properties A a x =
     (case x of (ok, b) \<Rightarrow>
        if ok \<and> hasFreedesktopProperties (A a)
        then addDBusInterfaceHandler (adapter_path A a, PROPERTIES_INTERFACE) (PropertiesHandler (nextStub b) a)
               (b\<lparr>nextStub := nextStub b + 1\<rparr>)
        else x)"

definition find_manager :: "string \<Rightarrow> bus \<Rightarrow> nat \<times> bus" where
  "find_manager p b =
     (case map_of (managerStubs b) p of
        None \<Rightarrow>
          (let k = nextStub b
           in (k, b\<lparr>managerStubs := al_insert p (k, 1) (managerStubs b),
                    stubs := al_put k \<lparr>dbusObjectPath = p, objectPathsMap = []\<rparr> (stubs b), nextStub := k + 1\<rparr>))
      | Some (k, n) \<Rightarrow> (k, b\<lparr>managerStubs := al_put p (k, n + 1) (managerStubs b)\<rparr>))"

definition register_manager :: "(adapter \<Rightarrow> stub_adapter) \<Rightarrow> adapter \<Rightarrow> bool \<times> bus \<Rightarrow> bool \<times> bus" where
  "register_manager A a x =
     (case x of (ok, b) \<Rightarrow>
        if ok \<and> isManaging (A a) then
          (case find_manager (adapter_path A a) b of
             (k, b1) \<Rightarrow>
               (case addDBusInterfaceHandler (adapter_path A a, OM_INTERFACE) (ManagerHandler k) b1 of
                  (ok', b2) \<Rightarrow>
                    if ok' then (True, b2)
                    else (False, snd (removeDBusInterfaceHandler (adapter_key A a) (AdapterHandler a) b2))))
        else x)"

definition registerDBusStubAdapter ::
  "bus_env \<Rightarrow> (adapter \<Rightarrow> stub_adapter) \<Rightarrow> adapter \<Rightarrow> bus \<Rightarrow> bool \<times> bus" where
  "registerDBusStubAdapter e A a b =
     (case register_manager A a (register_properties A a
             (addDBusInterfaceHandler (adapter_key A a) (AdapterHandler a) b)) of
        (ok, b') \<Rightarrow>
          (ok, if ok then b'\<lparr>con := registerObjectPath (lib e) (adapter_path A a) (con b')\<rparr> else b'))"

text \<open>The stub of a manager that no adapter needs any more is destroyed.\<close>

definition unregister_manager :: "(adapter \<Rightarrow> stub_adapter) \<Rightarrow> adapter \<Rightarrow> bool \<times> bus \<Rightarrow> bool \<times> bus" where
  "unregister_manager A a x =
     (case x of (ok, b) \<Rightarrow>
        if ok \<and> isManaging (A a) then
          (case map_of (managerStubs b) (adapter_path A a) of
             None \<Rightarrow> (False, b)
           | Some (k, n) \<Rightarrow>
               (let ok1 = (n \<noteq> 0); n' = (if n = 0 then n else n - 1)
                in if n' = 0 then
                     (case removeDBusInterfaceHandler (adapter_path A a, OM_INTERFACE) (ManagerHandler k) b of
                        (ok2, b1) \<Rightarrow> (ok2, b1\<lparr>managerStubs := al_erase (adapter_path A a) (managerStubs b1)\<rparr>))
                   else (ok1, b\<lparr>managerStubs := al_put (adapter_path A a) (k, n') (managerStubs b)\<rparr>)))
        else x)"

definition unregisterDBusStubAdapter ::
  "bus_env \<Rightarrow> (adapter \<Rightarrow> stub_adapter) \<Rightarrow> adapter \<Rightarrow> bus \<Rightarrow> bool \<times> bus" where
  "unregisterDBusStubAdapter e A a b =
     (case unregister_manager A a (removeDBusInterfaceHandler (adapter_key A a) (AdapterHandler a) b) of
        (ok, b') \<Rightarrow>
          (ok, if ok then b'\<lparr>con := unregisterObjectPath (lib e) (adapter_path A a) (con b')\<rparr> else b'))"

definition om_exportManagedDBusStubAdapter ::
  "bus_env \<Rightarrow> (adapter \<Rightarrow> stub_adapter) \<Rightarrow> string \<Rightarrow> adapter \<Rightarrow> bus \<Rightarrow> bool \<times> bus" where
  "om_exportManagedDBusStubAdapter e A parent a b =
     (case map_of (managerStubs b) parent of
        None \<Rightarrow> (False, b)
      | Some (k, n) \<Rightarrow> exportManagedDBusStubAdapter e A k a b)"

definition om_unexportManagedDBusStubAdapter ::
  "bus_env \<Rightarrow> (adapter \<Rightarrow> stub_adapter) \<Rightarrow> string \<Rightarrow> adapter \<Rightarrow> bus \<Rightarrow> bool \<times> bus" where
  "om_unexportManagedDBusStubAdapter e A parent a b =
     (case map_of (managerStubs b) parent of
        None \<Rightarrow> (False, b)
      | Some (k, n) \<Rightarrow> unexportManagedDBusStubAdapter e A k a b)"

text \<open>Who receives a message: the first handler of the path and interface, else introspection.\<close>

datatype delivery = Deliver om_handler | Introspect | NotHandled | EmptyList

definition handleMessage :: "string \<Rightarrow> string \<Rightarrow> bus \<Rightarrow> delivery" where
  "handleMessage path interface b =
     (case map_of (handlerTable b) (path, interface) of
        Some hs \<Rightarrow> (case hs of [] \<Rightarrow> EmptyList | h # _ \<Rightarrow> Deliver h)
      | None \<Rightarrow> if interface = ''org.freedesktop.DBus.Introspectable'' then Introspect else NotHandled)"

text \<open>The constructor, on a connection \<open>c\<close>.\<close>

definition new_bus :: "bus_env \<Rightarrow> conn \<Rightarrow> bus" where
  "new_bus e c =
     snd (addToRegisteredObjectsTable (''/'', OM_INTERFACE) (ManagerHandler 0)
       \<lparr>con = registerObjectPath (lib e) ''/'' c, sent = [], handlerTable = [], managerStubs = [],
        stubs = [(0, \<lparr>dbusObjectPath = ''/'', objectPathsMap = []\<rparr>)], nextStub = 1\<rparr>)"

end
