(* ===== verification/Factory.thy ===== *)
theory Factory
  imports Object_Manager Translator
begin

text \<open>
  The factory (\<open>DBusFactory.cpp\<close>): the connections in use with the number of their users, and
  the registered services. Registering a stub goes through the translator, a connection, its
  object manager and its bus names. Creation functions are generated code: an argument says what
  they create. Proxies and adapters are numbers. \<open>contextOf\<close> is the name of the main loop context of the
  application that is attached to a connection, \<open>None\<close> when the connection runs a loop of its own.
\<close>

record factory =
  connections :: "(string \<times> nat) list"
  buses :: "nat \<Rightarrow> bus"
  activeConnections :: "nat \<Rightarrow> int"
  services :: "(string \<times> adapter) list"
  translation :: translator
  attributes :: "adapter \<Rightarrow> stub_adapter"
  adapterConnection :: "adapter \<Rightarrow> nat"
  capiAddress :: "adapter \<Rightarrow> capi_address"
  contextOf :: "nat \<Rightarrow> string option"
  nextPointer :: nat

text \<open>
  The surroundings: what the generated function of an interface creates (whether the adapter is
  a manager, whether it has properties), whether a new connection can be opened, whether the main
  loop context of a connection still exists, the address of a default-constructed
  \<open>CommonAPI::Address\<close>.
\<close>

record fac_env =
  bus_of :: bus_env
  ext :: tr_ext
  creates :: "string \<Rightarrow> (bool \<times> bool) option"
  canConnect :: "string \<Rightarrow> bool"
  contextAlive :: "nat \<Rightarrow> bool"
  emptyAddress :: capi_address

datatype factory_error = InvalidIterator

definition on_bus :: "nat \<Rightarrow> (bus \<Rightarrow> 'a \<times> bus) \<Rightarrow> factory \<Rightarrow> 'a \<times> factory" where
  "on_bus c f s = (case f (buses s c) of (x, b) \<Rightarrow> (x, s\<lparr>buses := (buses s)(c := b)\<rparr>))"

definition on_conn :: "(conn \<Rightarrow> 'a \<times> conn) \<Rightarrow> bus \<Rightarrow> 'a \<times> bus" where
  "on_conn f b = (case f (con b) of (x, c) \<Rightarrow> (x, b\<lparr>con := c\<rparr>))"

section \<open>Connections\<close>

definition incrementConnection :: "nat \<Rightarrow> factory \<Rightarrow> factory" where
  "incrementConnection c s =
     (if c \<in> snd ` set (connections s)
      then s\<lparr>activeConnections := (activeConnections s)(c := activeConnections s c + 1)\<rparr> else s)"

text \<open>\<open>DBusConnection::decrementConnection\<close> disconnects when the last user leaves.\<close>

definition releaseConnection :: "string \<Rightarrow> factory \<Rightarrow> factory" where
  "releaseConnection connectionId s = s\<lparr>connections := al_erase connectionId (connections s)\<rparr>"

definition connection_id :: "nat \<Rightarrow> factory \<Rightarrow> string" where
  "connection_id c s = (case filter (\<lambda>x. snd x = c) (connections s) of [] \<Rightarrow> [] | (i, _) # _ \<Rightarrow> i)"

definition decrementConnection :: "fac_env \<Rightarrow> nat \<Rightarrow> factory \<Rightarrow> factory" where
  "decrementConnection F c s =
     (if c \<in> snd ` set (connections s) then
        (let n = activeConnections s c - 1;
             s1 = s\<lparr>activeConnections := (activeConnections s)(c := n)\<rparr>
         in if n \<le> 0 then
              (let s2 = (if contextAlive F c then releaseConnection (connection_id c s1) s1 else s1)
               in snd (on_bus c (on_conn (\<lambda>k. ((), disconnect (lib (bus_of F)) k))) s2))
            else s1)
      else s)"

text \<open>A connection that is found or made has one more user. Opening it is \<open>connect\<close>; its object
  manager is made when it is first asked for, here with the connection.\<close>

definition getConnection :: "fac_env \<Rightarrow> string \<Rightarrow> factory \<Rightarrow> nat option \<times> factory" where
  "getConnection F connectionId s =
     (case map_of (connections s) connectionId of
        Some c \<Rightarrow> (Some c, incrementConnection c s)
      | None \<Rightarrow>
          (case connect (lib (bus_of F)) (canConnect F connectionId) new_conn of
             (ok, k) \<Rightarrow>
               if \<not> ok then (None, s)
               else
                 (let c = nextPointer s
                  in (Some c, incrementConnection c
                       (s\<lparr>connections := al_insert connectionId c (connections s),
                          buses := (buses s)(c := new_bus (bus_of F) k),
                          activeConnections := (activeConnections s)(c := 0), nextPointer := c + 1\<rparr>)))))"

text \<open>
  The connection of a main loop context is found by the name of the context, which is also its id; a null
  context stands for the default connection. A connection that is made for a context starts no thread, the
  context is attached to it (\<open>attachMainLoopContext\<close> is in theory \<open>Attach\<close>).
\<close>

definition getConnection_context :: "fac_env \<Rightarrow> string \<Rightarrow> string option \<Rightarrow> factory \<Rightarrow> nat option \<times> factory" where
  "getConnection_context F defaultId context s =
     (case context of
        None \<Rightarrow> getConnection F defaultId s
      | Some name \<Rightarrow>
          (case map_of (connections s) name of
             Some c \<Rightarrow> (Some c, incrementConnection c s)
           | None \<Rightarrow>
               (case connect (lib (bus_of F)) (canConnect F name) new_conn of
                  (ok, k) \<Rightarrow>
                    if \<not> ok then (None, s)
                    else
                      (let c = nextPointer s
                       in (Some c, incrementConnection c
                            (s\<lparr>connections := al_insert name c (connections s),
                               buses := (buses s)(c := new_bus (bus_of F) k),
                               activeConnections := (activeConnections s)(c := 0),
                               contextOf := (contextOf s)(c \<mapsto> name), nextPointer := c + 1\<rparr>))))))"

section \<open>Services\<close>

text \<open>The address of an adapter as the key of \<open>services_\<close>, from the translator.\<close>

definition service_key :: "fac_env \<Rightarrow> adapter \<Rightarrow> factory \<Rightarrow> string option \<times> factory" where
  "service_key F a s =
     (case tr_translate_back_string (ext F) (adapterAddress (attributes s a)) (translation s) of
        (k, T) \<Rightarrow> (k, s\<lparr>translation := T\<rparr>))"

definition getRegisteredService :: "string \<Rightarrow> factory \<Rightarrow> adapter option" where
  "getRegisteredService address s = map_of (services s) address"

definition on_adapter_bus :: "adapter \<Rightarrow> (bus \<Rightarrow> 'a \<times> bus) \<Rightarrow> factory \<Rightarrow> 'a \<times> factory" where
  "on_adapter_bus a f s = on_bus (adapterConnection s a) f s"

definition unregisterManagedService :: "fac_env \<Rightarrow> string \<Rightarrow> factory \<Rightarrow> bool \<times> factory" where
  "unregisterManagedService F address s =
     (case map_of (services s) address of
        None \<Rightarrow> (True, s)
      | Some a \<Rightarrow>
          (case on_adapter_bus a (unregisterDBusStubAdapter (bus_of F) (attributes s) a) s of
             (isUnregistered, s1) \<Rightarrow>
               (isUnregistered,
                if isUnregistered then
                  (let s2 = snd (on_adapter_bus a (on_conn (releaseServiceName (lib (bus_of F))
                              (getService (adapterAddress (attributes s a))))) s1)
                   in decrementConnection F (adapterConnection s a)
                        (s2\<lparr>services := al_erase address (services s2)\<rparr>))
                else s1)))"

text \<open>\<open>services_.erase(insertResult.first)\<close>: the iterator is not valid if its entry was erased.\<close>

definition erase_service :: "string \<Rightarrow> factory \<Rightarrow> factory_error + factory" where
  "erase_service address s =
     (if map_of (services s) address = None then Inl InvalidIterator
      else Inr (s\<lparr>services := al_erase address (services s)\<rparr>))"

definition registerStubAdapter :: "fac_env \<Rightarrow> adapter \<Rightarrow> factory \<Rightarrow> factory_error + bool \<times> factory" where
  "registerStubAdapter F a s0 =
     (let e = bus_of F; A = attributes s0
      in case service_key F a s0 of
           (None, s) \<Rightarrow> Inr (False, s)
         | (Some address, s) \<Rightarrow>
             (let s1 = s\<lparr>services := al_insert address a (services s)\<rparr>
              in case on_adapter_bus a (exportManagedDBusStubAdapter e A 0 a) s1 of
                   (exported, s2) \<Rightarrow>
                     if \<not> exported then Inr (False, snd (unregisterManagedService F address s2))
                     else
                       (case on_adapter_bus a (registerDBusStubAdapter e A a) s2 of
                          (ok, s3) \<Rightarrow>
                            if \<not> ok then
                              ebind (erase_service address (snd (unregisterManagedService F address
                                  (snd (on_adapter_bus a (unexportManagedDBusStubAdapter e A 0 a) s3)))))
                                (\<lambda>s. Inr (False, s))
                            else
                              (case on_adapter_bus a (on_conn (requestServiceNameAndBlock (lib e)
                                       (getService (adapterAddress (A a))))) s3 of
                                 (isServiceNameAcquired, s4) \<Rightarrow>
                                   if isServiceNameAcquired then Inr (True, s4)
                                   else
                                     ebind (erase_service address (snd (unregisterManagedService F address
                                         (snd (on_adapter_bus a (unregisterDBusStubAdapter e A a)
                                           (snd (on_adapter_bus a (unexportManagedDBusStubAdapter e A 0 a) s4)))))))
                                       (\<lambda>s. Inr (False, s))))))"

definition unregisterStubAdapter :: "fac_env \<Rightarrow> adapter \<Rightarrow> factory \<Rightarrow> bool \<times> factory" where
  "unregisterStubAdapter F a s =
     (case service_key F a s of
        (None, s1) \<Rightarrow> (False, s1)
      | (Some address, s1) \<Rightarrow> on_adapter_bus a (unexportManagedDBusStubAdapter (bus_of F) (attributes s1) 0 a) s1)"

definition unregisterStub :: "fac_env \<Rightarrow> capi_address \<Rightarrow> factory \<Rightarrow> bool \<times> factory" where
  "unregisterStub F address s =
     (case map_of (services s) (print_address (ext F) address) of
        None \<Rightarrow> (False, s)
      | Some a \<Rightarrow>
          (case on_adapter_bus a (unregisterDBusStubAdapter (bus_of F) (attributes s) a) s of
             (ok1, s1) \<Rightarrow>
               if \<not> ok1 then (False, s1)
               else (case on_adapter_bus a (on_conn (releaseServiceName (lib (bus_of F))
                              (getService (adapterAddress (attributes s a))))) s1 of
                       (ok2, s2) \<Rightarrow>
                         if \<not> ok2 then (False, s2)
                         else (case unregisterStubAdapter F a s2 of
                                 (ok3, s3) \<Rightarrow>
                                   if \<not> ok3 then (False, s3)
                                   else (True, decrementConnection F (adapterConnection s a)
                                          (s3\<lparr>services := al_erase (print_address (ext F) address) (services s3),
                                              translation := tr_remove address (translation s3)\<rparr>))))))"

text \<open>
  The adapter made for a stub is destroyed when nothing refers to it any more; its destructor
  unregisters whatever service has its address.
\<close>

definition handler_adapter :: "om_handler \<Rightarrow> adapter option" where
  "handler_adapter h = (case h of AdapterHandler a \<Rightarrow> Some a | PropertiesHandler k a \<Rightarrow> Some a | ManagerHandler k \<Rightarrow> None)"

definition referenced :: "adapter \<Rightarrow> factory \<Rightarrow> bool" where
  "referenced a s \<longleftrightarrow> a \<in> snd ` set (services s)
     \<or> list_ex (\<lambda>(k, hs). list_ex (\<lambda>h. handler_adapter h = Some a) hs) (handlerTable (buses s (adapterConnection s a)))
     \<or> list_ex (\<lambda>(k, st). list_ex (\<lambda>(p, m). list_ex (\<lambda>(i, as). a \<in> set as) m) (objectPathsMap st))
         (stubs (buses s (adapterConnection s a)))"

definition drop_adapter :: "fac_env \<Rightarrow> adapter \<Rightarrow> factory \<Rightarrow> factory" where
  "drop_adapter F a s = (if referenced a s then s else snd (unregisterStub F (capiAddress s a) s))"

definition new_adapter :: "fac_env \<Rightarrow> DBusAddress \<Rightarrow> nat \<Rightarrow> bool \<times> bool \<Rightarrow> factory \<Rightarrow> adapter \<times> factory" where
  "new_adapter F d c kind s =
     (let a = nextPointer s
      in case tr_translate_back (ext F) d (translation s) of
           (k, T) \<Rightarrow>
             (a, s\<lparr>attributes := (attributes s)(a := \<lparr>adapterAddress = d, isManaging = fst kind, hasFreedesktopProperties = snd kind\<rparr>),
                   adapterConnection := (adapterConnection s)(a := c),
                   capiAddress := (capiAddress s)(a := (case k of Some x \<Rightarrow> x | None \<Rightarrow> emptyAddress F)),
                   translation := T, nextPointer := a + 1\<rparr>))"

definition registerStub_on ::
    "fac_env \<Rightarrow> capi_address \<Rightarrow> (factory \<Rightarrow> nat option \<times> factory) \<Rightarrow> factory \<Rightarrow> factory_error + bool \<times> factory" where
  "registerStub_on F address get s =
     (case creates F (capi_interface address) of
        None \<Rightarrow> Inr (False, s)
      | Some kind \<Rightarrow>
          (case tr_translate (ext F) address (translation s) of
             (None, T) \<Rightarrow> Inr (False, s\<lparr>translation := T\<rparr>)
           | (Some d, T) \<Rightarrow>
               (case get (s\<lparr>translation := T\<rparr>) of
                  (None, s1) \<Rightarrow> Inr (False, s1)
                | (Some c, s1) \<Rightarrow>
                    (case new_adapter F d c kind s1 of
                       (a, s2) \<Rightarrow>
                         ebind (registerStubAdapter F a s2) (\<lambda>(ok, s3).
                           Inr (ok, if ok then s3 else drop_adapter F a s3))))))"

text \<open>The two functions \<open>registerStub\<close> differ in how they get the connection.\<close>

definition registerStub :: "fac_env \<Rightarrow> capi_address \<Rightarrow> string \<Rightarrow> factory \<Rightarrow> factory_error + bool \<times> factory" where
  "registerStub F address connectionId s = registerStub_on F address (getConnection F connectionId) s"

definition registerStub_context ::
    "fac_env \<Rightarrow> string \<Rightarrow> capi_address \<Rightarrow> string option \<Rightarrow> factory \<Rightarrow> factory_error + bool \<times> factory" where
  "registerStub_context F defaultId address context s = registerStub_on F address (getConnection_context F defaultId context) s"

text \<open>Services that are managed by an adapter are created by generated code, \<open>a\<close> is one of them.\<close>

definition registerManagedService :: "fac_env \<Rightarrow> adapter \<Rightarrow> factory \<Rightarrow> bool \<times> factory" where
  "registerManagedService F a s =
     (let address = print_address (ext F) (capiAddress s a); e = bus_of F; A = attributes s
      in if map_of (services s) address \<noteq> None then (False, s)
         else
           (let s1 = s\<lparr>services := al_insert address a (services s)\<rparr>
            in case on_adapter_bus a (registerDBusStubAdapter e A a) s1 of
                 (isRegistered, s2) \<Rightarrow>
                   if \<not> isRegistered then (False, s2\<lparr>services := al_erase address (services s2)\<rparr>)
                   else
                     (case on_adapter_bus a (on_conn (requestServiceNameAndBlock (lib e)
                              (getService (adapterAddress (A a))))) s2 of
                        (isAcquired, s3) \<Rightarrow>
                          if isAcquired then (True, incrementConnection (adapterConnection s a) s3)
                          else
                            (let s4 = snd (on_adapter_bus a (unregisterDBusStubAdapter e A a) s3)
                             in (False, s4\<lparr>services := al_erase address (services s4)\<rparr>)))))"

definition new_factory :: "translator \<Rightarrow> factory" where
  "new_factory T = \<lparr>connections = [], buses = (\<lambda>c. \<lparr>con = new_conn, sent = [], handlerTable = [], managerStubs = [],
       stubs = [], nextStub = 0\<rparr>), activeConnections = (\<lambda>c. 0), services = [], translation = T,
     attributes = (\<lambda>a. \<lparr>adapterAddress = DBusAddress [] [] [], isManaging = False, hasFreedesktopProperties = False\<rparr>),
     adapterConnection = (\<lambda>a. 0), capiAddress = (\<lambda>a. \<lparr>capi_domain = [], capi_interface = [], capi_instance = []\<rparr>),
     contextOf = (\<lambda>c. None), nextPointer = 0\<rparr>"

end
