(* ===== verification/Object_Manager_Correct.thy ===== *)
theory Object_Manager_Correct
  imports Object_Manager Connection_Correct
begin

text \<open>
  The tables of the object manager through what their users see of them: the handlers of a path
  and interface (\<open>handlers_at\<close>), the adapters exported at them (\<open>exported_at\<close>). No list in them is
  ever empty (\<open>no_empty\<close>), so no first element of an empty list is taken, and unregistering an
  adapter undoes its registration.
\<close>

section \<open>Views\<close>

definition handlers_at :: "bus \<Rightarrow> string \<times> string \<Rightarrow> om_handler list" where
  "handlers_at b k = (case map_of (handlerTable b) k of None \<Rightarrow> [] | Some hs \<Rightarrow> hs)"

definition exported_at :: "om_stub \<Rightarrow> string \<times> string \<Rightarrow> adapter list" where
  "exported_at st k =
     (case map_of (objectPathsMap st) (fst k) of
        None \<Rightarrow> []
      | Some m \<Rightarrow> (case map_of m (snd k) of None \<Rightarrow> [] | Some as \<Rightarrow> as))"

definition stub_ok :: "om_stub \<Rightarrow> bool" where
  "stub_ok st \<longleftrightarrow> (\<forall>(p, m) \<in> set (objectPathsMap st). m \<noteq> [] \<and> (\<forall>(i, as) \<in> set m. as \<noteq> []))"

definition no_empty :: "bus \<Rightarrow> bool" where
  "no_empty b \<longleftrightarrow> (\<forall>(k, hs) \<in> set (handlerTable b). hs \<noteq> []) \<and> (\<forall>k. stub_ok (stub_at k b))"

lemma exported_iff: "isDBusStubAdapterExported A a st \<longleftrightarrow> a \<in> set (exported_at st (adapter_key A a))"
  by (simp add: isDBusStubAdapterExported_def exported_at_def adapter_key_def split: option.splits)

text \<open>A change of the entry of one path and interface.\<close>

lemma exported_at_change:
  assumes "map_of (objectPathsMap st') = (map_of (objectPathsMap st))(p := m')"
    and "\<And>j. j \<noteq> i \<Longrightarrow> Option.bind m' (\<lambda>m. map_of m j) = Option.bind (map_of (objectPathsMap st) p) (\<lambda>m. map_of m j)"
    and "Option.bind m' (\<lambda>m. map_of m i) = as"
  shows "exported_at st' = (exported_at st)((p, i) := (case as of None \<Rightarrow> [] | Some x \<Rightarrow> x))"
proof
  have e: "exported_at st k = (case Option.bind (map_of (objectPathsMap st) (fst k)) (\<lambda>m. map_of m (snd k)) of None \<Rightarrow> [] | Some x \<Rightarrow> x)"
    for st k by (simp add: exported_at_def split: option.splits)
  fix k show "exported_at st' k = ((exported_at st)((p, i) := (case as of None \<Rightarrow> [] | Some x \<Rightarrow> x))) k"
    using assms(2)[of "snd k"] assms(3) by (cases k) (simp add: e assms(1))
qed

text \<open>Registering and unregistering on the view of a manager.\<close>

lemma stub_register_view:
  assumes "stub_register A a st = (ok, st')"
  shows "ok \<longleftrightarrow> a \<notin> set (exported_at st (adapter_key A a))"
    and "exported_at st' = (if ok then (exported_at st)(adapter_key A a := exported_at st (adapter_key A a) @ [a]) else exported_at st)"
    and "dbusObjectPath st' = dbusObjectPath st"
proof -
  let ?p = "adapter_path A a" and ?i = "adapter_interface A a"
  show "ok \<longleftrightarrow> a \<notin> set (exported_at st (adapter_key A a))" "dbusObjectPath st' = dbusObjectPath st"
    using assms by (auto simp: stub_register_def exported_at_def adapter_key_def Let_def split: option.splits if_splits)
  show "exported_at st' = (if ok then (exported_at st)(adapter_key A a := exported_at st (adapter_key A a) @ [a]) else exported_at st)"
  proof (cases "map_of (objectPathsMap st) ?p")
    case None
    have "exported_at (st\<lparr>objectPathsMap := al_insert ?p [(?i, [a])] (objectPathsMap st)\<rparr>) = (exported_at st)((?p, ?i) := [a])"
      using None by (subst exported_at_change[where m' = "Some [(?i, [a])]" and as = "Some [a]" and st = st and p = ?p and i = ?i])
        (simp_all add: map_of_al_insert)
    then show ?thesis using assms None by (auto simp: stub_register_def adapter_key_def exported_at_def[of st])
  next
    case (Some m)
    show ?thesis
    proof (cases "map_of m ?i")
      case None
      have "exported_at (st\<lparr>objectPathsMap := al_put ?p (al_insert ?i [a] m) (objectPathsMap st)\<rparr>) = (exported_at st)((?p, ?i) := [a])"
        using None Some by (subst exported_at_change[where m' = "Some (al_insert ?i [a] m)" and as = "Some [a]" and st = st and p = ?p and i = ?i])
          (simp_all add: map_of_al_insert)
      then show ?thesis using assms None Some by (auto simp: stub_register_def adapter_key_def exported_at_def[of st])
    next
      case (Some as)
      have "exported_at (st\<lparr>objectPathsMap := al_put ?p (al_put ?i (as @ [a]) m) (objectPathsMap st)\<rparr>) = (exported_at st)((?p, ?i) := as @ [a])"
        using Some \<open>map_of _ ?p = Some m\<close>
        by (subst exported_at_change[where m' = "Some (al_put ?i (as @ [a]) m)" and as = "Some (as @ [a])" and st = st and p = ?p and i = ?i]) simp_all
      then show ?thesis using assms Some \<open>map_of _ ?p = Some m\<close>
        by (auto simp: stub_register_def adapter_key_def exported_at_def[of st] split: if_splits)
    qed
  qed
qed

lemma stub_ok_entry: "stub_ok st \<Longrightarrow> map_of (objectPathsMap st) p = Some m \<Longrightarrow> m \<noteq> [] \<and> (\<forall>(i, as) \<in> set m. as \<noteq> [])"
  by (auto simp: stub_ok_def dest!: map_of_SomeD)

lemma stub_ok_put:
  assumes "stub_ok st" "m \<noteq> []" "\<And>i as. (i, as) \<in> set m \<Longrightarrow> as \<noteq> []"
  shows "stub_ok (st\<lparr>objectPathsMap := al_put p m (objectPathsMap st)\<rparr>)"
  using assms set_al_put[of p m "objectPathsMap st"] by (fastforce simp: stub_ok_def)

lemma stub_register_ok:
  assumes "stub_register A a st = (ok, st')" "stub_ok st"
  shows "stub_ok st'"
proof (cases "map_of (objectPathsMap st) (adapter_path A a)")
  case None
  then show ?thesis
    using assms set_al_insert[of "adapter_path A a" "[(adapter_interface A a, [a])]" "objectPathsMap st"]
    by (fastforce simp: stub_register_def stub_ok_def)
next
  case (Some m)
  note ok = stub_ok_entry[OF assms(2) Some]
  show ?thesis
  proof (cases "map_of m (adapter_interface A a)")
    case None
    have "as \<noteq> []" if "(i, as) \<in> set (al_insert (adapter_interface A a) [a] m)" for i as
      using that set_al_insert[of "adapter_interface A a" "[a]" m] ok by auto
    then show ?thesis using assms Some None by (auto simp: stub_register_def intro!: stub_ok_put)
  next
    fix as assume as: "map_of m (adapter_interface A a) = Some as"
    have "bs \<noteq> []" if "(i, bs) \<in> set (al_put (adapter_interface A a) (as @ [a]) m)" for i bs
      using that set_al_put[of "adapter_interface A a" "as @ [a]" m] ok by auto
    then show ?thesis using assms Some as by (auto simp: stub_register_def intro!: stub_ok_put split: if_splits)
  qed
qed

lemma stub_unregister_view:
  assumes "stub_unregister A a st = (ok, st')"
  shows "ok \<longleftrightarrow> a \<in> set (exported_at st (adapter_key A a))"
    and "exported_at st' = (exported_at st)(adapter_key A a := remove1 a (exported_at st (adapter_key A a)))"
    and "dbusObjectPath st' = dbusObjectPath st"
proof -
  let ?p = "adapter_path A a" and ?i = "adapter_interface A a"
  show "ok \<longleftrightarrow> a \<in> set (exported_at st (adapter_key A a))" "dbusObjectPath st' = dbusObjectPath st"
    using assms by (auto simp: stub_unregister_def exported_at_def adapter_key_def Let_def split: option.splits if_splits)
  show "exported_at st' = (exported_at st)(adapter_key A a := remove1 a (exported_at st (adapter_key A a)))"
  proof (cases "a \<in> set (exported_at st (adapter_key A a))")
    case False
    then show ?thesis using assms
      by (auto simp: stub_unregister_def exported_at_def adapter_key_def Let_def remove1_idem split: option.splits if_splits)
  next
    case True
    then obtain m as where m: "map_of (objectPathsMap st) ?p = Some m" "map_of m ?i = Some as" "a \<in> set as"
      by (cases "map_of (objectPathsMap st) ?p"; cases "map_of (the (map_of (objectPathsMap st) ?p)) ?i")
        (simp_all add: exported_at_def adapter_key_def)
    define m' where "m' = (if remove1 a as = [] then al_erase ?i m else al_put ?i (remove1 a as) m)"
    have st': "st' = st\<lparr>objectPathsMap := (if m' = [] then al_erase ?p (objectPathsMap st) else al_put ?p m' (objectPathsMap st))\<rparr>"
      using assms m by (auto simp: stub_unregister_def m'_def Let_def)
    have mo: "map_of m' = (map_of m)(?i := (if remove1 a as = [] then None else Some (remove1 a as)))"
      by (simp add: m'_def)
    have e: "map_of m' = Map.empty" if "m' = []" using that by simp
    have "exported_at st' = (exported_at st)((?p, ?i) := (case (if remove1 a as = [] then None else Some (remove1 a as)) of None \<Rightarrow> [] | Some x \<Rightarrow> x))"
      by (rule exported_at_change[where m' = "if m' = [] then None else Some m'"])
        (use m mo in \<open>auto simp: st' dest!: e split: if_splits dest: fun_cong\<close>)
    then show ?thesis using m by (simp add: adapter_key_def exported_at_def[of st] split: if_splits)
  qed
qed

lemma stub_unregister_ok:
  assumes "stub_unregister A a st = (ok, st')" "stub_ok st"
  shows "stub_ok st'"
proof (cases "\<exists>m as. map_of (objectPathsMap st) (adapter_path A a) = Some m \<and> map_of m (adapter_interface A a) = Some as \<and> a \<in> set as")
  case False
  then show ?thesis using assms by (auto simp: stub_unregister_def Let_def split: option.splits if_splits)
next
  case True
  then obtain m as where m: "map_of (objectPathsMap st) (adapter_path A a) = Some m" "map_of m (adapter_interface A a) = Some as" "a \<in> set as"
    by blast
  note ok = stub_ok_entry[OF assms(2) m(1)]
  have e: "stub_ok (st\<lparr>objectPathsMap := al_erase p (objectPathsMap st)\<rparr>)" for p
    using assms(2) set_al_erase[of p "objectPathsMap st"] by (fastforce simp: stub_ok_def)
  have "bs \<noteq> []" if "(i, bs) \<in> set (al_put (adapter_interface A a) (remove1 a as) m)" "remove1 a as \<noteq> []" for i bs
    using that set_al_put[of "adapter_interface A a" "remove1 a as" m] ok by auto
  moreover have "bs \<noteq> []" if "(i, bs) \<in> set (al_erase (adapter_interface A a) m)" for i bs
    using that set_al_erase[of "adapter_interface A a" m] ok by auto
  ultimately show ?thesis
    using assms(1) m by (auto simp: stub_unregister_def Let_def intro!: stub_ok_put[OF assms(2)] e split: if_splits)
qed

text \<open>The table.\<close>

lemma add_table_view:
  assumes "addToRegisteredObjectsTable k h b = (ok, b')"
  shows "ok \<longleftrightarrow> h \<notin> set (handlers_at b k)"
    and "handlers_at b' = (if ok then (handlers_at b)(k := handlers_at b k @ [h]) else handlers_at b)"
    and "b' = b\<lparr>handlerTable := handlerTable b'\<rparr>"
  using assms
  by (auto simp: addToRegisteredObjectsTable_def handlers_at_def fun_eq_iff map_of_al_insert split: option.splits if_splits)

lemma add_handler_view:
  assumes "addDBusInterfaceHandler k h b = (ok, b')"
  shows "ok \<longleftrightarrow> h \<notin> set (handlers_at b k) \<or> snd k = OM_INTERFACE \<or> snd k = PROPERTIES_INTERFACE"
    and "handlers_at b' = (if h \<in> set (handlers_at b k) then handlers_at b else (handlers_at b)(k := handlers_at b k @ [h]))"
    and "b' = b\<lparr>handlerTable := handlerTable b'\<rparr>"
proof -
  show "ok \<longleftrightarrow> h \<notin> set (handlers_at b k) \<or> snd k = OM_INTERFACE \<or> snd k = PROPERTIES_INTERFACE"
    "handlers_at b' = (if h \<in> set (handlers_at b k) then handlers_at b else (handlers_at b)(k := handlers_at b k @ [h]))"
    "b' = b\<lparr>handlerTable := handlerTable b'\<rparr>"
    using assms add_table_view[of k h b ok b']
    by (auto simp: addDBusInterfaceHandler_def handlers_at_def split: option.splits if_splits)
qed

lemma remove_handler_view:
  assumes "removeDBusInterfaceHandler k h b = (ok, b')"
  shows "handlers_at b k \<noteq> [] \<Longrightarrow> ok"
    and "handlers_at b' = (handlers_at b)(k := remove1 h (handlers_at b k))"
    and "b' = b\<lparr>handlerTable := handlerTable b'\<rparr>"
  using assms
  by (auto simp: removeDBusInterfaceHandler_def handlers_at_def Let_def fun_eq_iff remove1_idem split: option.splits if_splits)

section \<open>No list is empty\<close>

lemma stub_at_put [simp]: "stub_at j (put_stub k st b) = (if j = k then st else stub_at j b)"
  by (simp add: stub_at_def put_stub_def)

lemma bus_sel [simp]:
  "handlerTable (put_stub k st b) = handlerTable b" "con (put_stub k st b) = con b" "sent (put_stub k st b) = sent b"
  "managerStubs (put_stub k st b) = managerStubs b" "nextStub (put_stub k st b) = nextStub b"
  "stub_at j (b\<lparr>sent := x\<rparr>) = stub_at j b" "stub_at j (b\<lparr>con := c\<rparr>) = stub_at j b"
  "stub_at j (b\<lparr>handlerTable := t\<rparr>) = stub_at j b" "stub_at j (b\<lparr>managerStubs := ms\<rparr>) = stub_at j b"
  "stub_at j (b\<lparr>nextStub := n\<rparr>) = stub_at j b"
  by (simp_all add: put_stub_def stub_at_def)

lemma handlers_sel [simp]:
  "handlers_at (put_stub k st b) = handlers_at b" "handlers_at (b\<lparr>sent := x\<rparr>) = handlers_at b"
  "handlers_at (b\<lparr>con := c\<rparr>) = handlers_at b" "handlers_at (b\<lparr>managerStubs := ms\<rparr>) = handlers_at b"
  "handlers_at (b\<lparr>nextStub := n\<rparr>) = handlers_at b" "handlers_at (b\<lparr>stubs := ss\<rparr>) = handlers_at b"
  by (simp_all add: handlers_at_def fun_eq_iff)

lemma no_empty_sel [simp]:
  "no_empty (b\<lparr>sent := x\<rparr>) = no_empty b" "no_empty (b\<lparr>con := c\<rparr>) = no_empty b"
  "no_empty (b\<lparr>managerStubs := ms\<rparr>) = no_empty b" "no_empty (b\<lparr>nextStub := n\<rparr>) = no_empty b"
  by (simp_all add: no_empty_def)

lemma no_empty_put: "no_empty b \<Longrightarrow> stub_ok st \<Longrightarrow> no_empty (put_stub k st b)"
  by (simp add: no_empty_def)

lemma no_empty_stub: "no_empty b \<Longrightarrow> stub_ok (stub_at k b)"
  by (simp add: no_empty_def)

lemma no_empty_add: "no_empty b \<Longrightarrow> no_empty (snd (addDBusInterfaceHandler k h b))"
  using set_al_insert[of k "[h]" "handlerTable b"] set_al_put[of k "handlers_at b k @ [h]" "handlerTable b"]
  by (fastforce simp: no_empty_def addDBusInterfaceHandler_def addToRegisteredObjectsTable_def handlers_at_def split: option.splits)

lemma no_empty_remove: "no_empty b \<Longrightarrow> no_empty (snd (removeDBusInterfaceHandler k h b))"
  using set_al_erase[of k "handlerTable b"] set_al_put[of k "remove1 h (handlers_at b k)" "handlerTable b"]
  by (fastforce simp: no_empty_def removeDBusInterfaceHandler_def handlers_at_def Let_def split: option.splits)

lemma sent_bus: "sendDBusMessage e m b = (ok, b') \<Longrightarrow> b' = b\<lparr>sent := sent b'\<rparr>"
  by (auto simp: sendDBusMessage_def split: if_splits)

lemma no_empty_send: "no_empty (snd (sendDBusMessage e m b)) = no_empty b"
  by (simp add: sendDBusMessage_def)

lemma stub_at_send [simp]: "stub_at k (snd (sendDBusMessage e m b)) = stub_at k b"
  by (simp add: sendDBusMessage_def)

lemma no_empty_export: "no_empty b \<Longrightarrow> no_empty (snd (exportManagedDBusStubAdapter e A k a b))"
  using stub_register_ok[OF surjective_pairing] stub_unregister_ok[OF surjective_pairing] no_empty_stub[of b k]
  by (auto simp: exportManagedDBusStubAdapter_def emitInterfacesAddedSignal_def sendDBusMessage_def Let_def split_beta no_empty_put)

lemma no_empty_unexport: "no_empty b \<Longrightarrow> no_empty (snd (unexportManagedDBusStubAdapter e A k a b))"
  using stub_register_ok[OF surjective_pairing] stub_unregister_ok[OF surjective_pairing] no_empty_stub[of b k]
  by (auto simp: unexportManagedDBusStubAdapter_def emitInterfacesRemovedSignal_def sendDBusMessage_def Let_def split_beta no_empty_put)

lemma no_empty_find_manager: "no_empty b \<Longrightarrow> no_empty (snd (find_manager p b))"
  by (auto simp: find_manager_def no_empty_def stub_at_def stub_ok_def Let_def split: option.splits)

lemma no_empty_register: "no_empty b \<Longrightarrow> no_empty (snd (registerDBusStubAdapter e A a b))"
  by (auto simp: registerDBusStubAdapter_def register_manager_def register_properties_def split_beta Let_def
      intro!: no_empty_add no_empty_remove no_empty_find_manager)

lemma no_empty_unregister: "no_empty b \<Longrightarrow> no_empty (snd (unregisterDBusStubAdapter e A a b))"
  by (auto simp: unregisterDBusStubAdapter_def unregister_manager_def split_beta Let_def split: option.splits
      intro!: no_empty_remove)

lemma no_empty_new: "no_empty (new_bus e c)"
  by (simp add: new_bus_def addToRegisteredObjectsTable_def no_empty_def al_insert_def stub_at_def stub_ok_def)

lemma managed_interfaces_some: "\<forall>(i, as) \<in> set m. as \<noteq> [] \<Longrightarrow> managed_interfaces A m d \<noteq> None"
proof (induction m arbitrary: d)
  case (Cons x m)
  then show ?case by (cases x; cases "snd x") (auto simp: Let_def)
qed simp

lemma managed_objects_some: "\<forall>(p, m) \<in> set ps. \<forall>(i, as) \<in> set m. as \<noteq> [] \<Longrightarrow> managed_objects A ps \<noteq> None"
proof (induction ps)
  case (Cons x ps)
  obtain p m where x: "x = (p, m)" by (cases x)
  obtain d where "managed_interfaces A m [] = Some d" using managed_interfaces_some[of m A "[]"] Cons.prems x by auto
  then show ?case using Cons x by auto
qed simp

section \<open>Unregistering undoes registering\<close>

text \<open>A manager in use has a positive count and a handler, and its number is not a new one.\<close>

definition managers_ok :: "bus \<Rightarrow> bool" where
  "managers_ok b \<longleftrightarrow>
     (\<forall>p k n. map_of (managerStubs b) p = Some (k, n) \<longrightarrow>
        n \<noteq> 0 \<and> ManagerHandler k \<in> set (handlers_at b (p, OM_INTERFACE)) \<and> k < nextStub b) \<and>
     (\<forall>j k. ManagerHandler k \<in> set (handlers_at b j) \<longrightarrow> k < nextStub b) \<and> 0 < nextStub b"

text \<open>
  The tables after the registration of an adapter that is new, and after its unregistration: the handler of its properties
  stays, under the number that it got.
\<close>

definition props_key :: "(adapter \<Rightarrow> stub_adapter) \<Rightarrow> adapter \<Rightarrow> string \<times> string" where
  "props_key A a = (adapter_path A a, PROPERTIES_INTERFACE)"

definition left_by :: "(adapter \<Rightarrow> stub_adapter) \<Rightarrow> adapter \<Rightarrow> bus \<Rightarrow> string \<times> string \<Rightarrow> om_handler list" where
  "left_by A a b =
     (if hasFreedesktopProperties (A a)
      then (handlers_at b)(props_key A a := handlers_at b (props_key A a) @ [PropertiesHandler (nextStub b) a])
      else handlers_at b)"

definition with_adapter :: "(adapter \<Rightarrow> stub_adapter) \<Rightarrow> adapter \<Rightarrow> bus \<Rightarrow> string \<times> string \<Rightarrow> om_handler list" where
  "with_adapter A a b =
     (let h = (handlers_at b)(adapter_key A a := handlers_at b (adapter_key A a) @ [AdapterHandler a])
      in if hasFreedesktopProperties (A a)
         then h(props_key A a := h (props_key A a) @ [PropertiesHandler (nextStub b) a]) else h)"

definition adapter_next :: "(adapter \<Rightarrow> stub_adapter) \<Rightarrow> adapter \<Rightarrow> bus \<Rightarrow> nat" where
  "adapter_next A a b = nextStub b + (if hasFreedesktopProperties (A a) then 1 else 0)"

lemma managers_fresh: "managers_ok b \<Longrightarrow> ManagerHandler (adapter_next A a b) \<notin> set (handlers_at b j)"
  unfolding managers_ok_def adapter_next_def by (metis less_irrefl not_add_less1)

text \<open>An adapter that the table does not have.\<close>

definition new_handlers :: "(adapter \<Rightarrow> stub_adapter) \<Rightarrow> adapter \<Rightarrow> bus \<Rightarrow> bool" where
  "new_handlers A a b \<longleftrightarrow> AdapterHandler a \<notin> set (handlers_at b (adapter_key A a)) \<and>
     (\<forall>n j. PropertiesHandler n a \<notin> set (handlers_at b j))"

lemma with_adapter_has: "AdapterHandler a \<in> set (with_adapter A a b (adapter_key A a))"
  by (simp add: with_adapter_def Let_def)

lemma with_adapter_manager: "ManagerHandler k \<in> set (with_adapter A a b j) \<longleftrightarrow> ManagerHandler k \<in> set (handlers_at b j)"
  by (simp add: with_adapter_def Let_def)

lemma without_adapter:
  "AdapterHandler a \<notin> set (handlers_at b (adapter_key A a)) \<Longrightarrow>
     (with_adapter A a b)(adapter_key A a := remove1 (AdapterHandler a) (with_adapter A a b (adapter_key A a))) = left_by A a b"
  by (rule ext) (simp add: with_adapter_def left_by_def Let_def remove1_append)

lemma left_by_manager: "ManagerHandler k \<in> set (left_by A a b j) \<longleftrightarrow> ManagerHandler k \<in> set (handlers_at b j)"
  by (simp add: left_by_def)

lemma registered_handlers:
  assumes "register_properties A a (addDBusInterfaceHandler (adapter_key A a) (AdapterHandler a) b) = (ok, b')" "new_handlers A a b"
  shows "ok" "handlers_at b' = with_adapter A a b" "managerStubs b' = managerStubs b" "stubs b' = stubs b"
    "nextStub b' = adapter_next A a b" "con b' = con b" "sent b' = sent b"
proof -
  obtain ok1 b1 where a: "addDBusInterfaceHandler (adapter_key A a) (AdapterHandler a) b = (ok1, b1)" by fastforce
  note v = add_handler_view[OF a]
  have n: "AdapterHandler a \<notin> set (handlers_at b (adapter_key A a))" "PropertiesHandler m a \<notin> set (handlers_at b j)" for m j
    using assms(2) unfolding new_handlers_def by blast+
  have ok1: ok1 and h1: "handlers_at b1 = (handlers_at b)(adapter_key A a := handlers_at b (adapter_key A a) @ [AdapterHandler a])"
    using v(1,2) n(1) by simp_all
  have b1: "managerStubs b1 = managerStubs b" "stubs b1 = stubs b" "nextStub b1 = nextStub b" "con b1 = con b" "sent b1 = sent b"
    by (subst v(3), simp)+
  obtain ok2 b2 where q: "addDBusInterfaceHandler (props_key A a) (PropertiesHandler (nextStub b1) a) (b1\<lparr>nextStub := nextStub b1 + 1\<rparr>) = (ok2, b2)"
    by fastforce
  note w = add_handler_view[OF q]
  have b2: "managerStubs b2 = managerStubs b1" "stubs b2 = stubs b1" "nextStub b2 = nextStub b1 + 1" "con b2 = con b1" "sent b2 = sent b1"
    by (subst w(3), simp)+
  have new: "PropertiesHandler m a \<notin> set (handlers_at b1 j)" for m j using n(2) by (simp add: h1)
  have x: "ok" "b' = (if hasFreedesktopProperties (A a) then b2 else b1)"
    using assms(1) a q ok1 w(1) by (auto simp: register_properties_def props_key_def split: if_splits)
  show "ok" by (rule x(1))
  show "handlers_at b' = with_adapter A a b"
    using w(2) new by (simp add: x(2) with_adapter_def h1 b1 Let_def)
  show "managerStubs b' = managerStubs b" "stubs b' = stubs b" "nextStub b' = adapter_next A a b" "con b' = con b" "sent b' = sent b"
    using b1 b2 by (simp_all add: x(2) adapter_next_def)
qed

lemma registered_new_adapter:
  assumes "registerDBusStubAdapter e A a b = (ok, b1)" "new_handlers A a b" "\<not> isManaging (A a)"
  shows "ok" "handlers_at b1 = with_adapter A a b" "managerStubs b1 = managerStubs b" "stubs b1 = stubs b"
    "con b1 = registerObjectPath (lib e) (adapter_path A a) (con b)" "sent b1 = sent b"
proof -
  obtain ok' b' where a: "register_properties A a (addDBusInterfaceHandler (adapter_key A a) (AdapterHandler a) b) = (ok', b')"
    by fastforce
  note v = registered_handlers[OF a assms(2)]
  have b1: "ok" "b1 = b'\<lparr>con := registerObjectPath (lib e) (adapter_path A a) (con b')\<rparr>"
    using assms(1,3) a v(1) by (simp_all add: registerDBusStubAdapter_def register_manager_def)
  show "ok" "handlers_at b1 = with_adapter A a b" "managerStubs b1 = managerStubs b" "stubs b1 = stubs b"
    "con b1 = registerObjectPath (lib e) (adapter_path A a) (con b)" "sent b1 = sent b"
    using b1 v by simp_all
qed

lemma registered_new_manager:
  assumes "registerDBusStubAdapter e A a b = (ok, b1)" "new_handlers A a b" "isManaging (A a)" "managers_ok b"
  shows "ok" "con b1 = registerObjectPath (lib e) (adapter_path A a) (con b)" "sent b1 = sent b"
    and "case map_of (managerStubs b) (adapter_path A a) of
        None \<Rightarrow> managerStubs b1 = al_insert (adapter_path A a) (adapter_next A a b, 1) (managerStubs b) \<and>
          handlers_at b1 = (with_adapter A a b)((adapter_path A a, OM_INTERFACE) :=
             with_adapter A a b (adapter_path A a, OM_INTERFACE) @ [ManagerHandler (adapter_next A a b)]) \<and>
          stubs b1 = al_put (adapter_next A a b) \<lparr>dbusObjectPath = adapter_path A a, objectPathsMap = []\<rparr> (stubs b) \<and>
          nextStub b1 = adapter_next A a b + 1
      | Some (k, n) \<Rightarrow> managerStubs b1 = al_put (adapter_path A a) (k, n + 1) (managerStubs b) \<and>
          handlers_at b1 = with_adapter A a b \<and> stubs b1 = stubs b \<and> nextStub b1 = adapter_next A a b"
proof -
  let ?p = "adapter_path A a"
  obtain ok' b' where a: "register_properties A a (addDBusInterfaceHandler (adapter_key A a) (AdapterHandler a) b) = (ok', b')"
    by fastforce
  note v = registered_handlers[OF a assms(2)]
  note ok' = v(1) and h' = v(2) and b' = v(3-7)
  obtain k b2 where f: "find_manager ?p b' = (k, b2)" by fastforce
  have h2: "handlers_at b2 = with_adapter A a b" "con b2 = con b" "sent b2 = sent b"
    using f h' b' by (auto simp: find_manager_def Let_def split: option.splits)
  obtain ok3 b3 where m: "addDBusInterfaceHandler (?p, OM_INTERFACE) (ManagerHandler k) b2 = (ok3, b3)" by fastforce
  note w = add_handler_view[OF m]
  have ok3: ok3 using w(1) by simp
  have b1: "ok" "b1 = b3\<lparr>con := registerObjectPath (lib e) ?p (con b3)\<rparr>"
    using assms(1,3) a ok' f m ok3 by (simp_all add: registerDBusStubAdapter_def register_manager_def)
  have b3: "managerStubs b3 = managerStubs b2" "stubs b3 = stubs b2" "nextStub b3 = nextStub b2" "con b3 = con b2" "sent b3 = sent b2"
    by (subst w(3), simp)+
  show "ok" "con b1 = registerObjectPath (lib e) ?p (con b)" "sent b1 = sent b" using b1 b3 h2 by simp_all
  have fresh: "ManagerHandler (adapter_next A a b) \<notin> set (with_adapter A a b j)" for j
    using managers_fresh[OF assms(4)] by (simp add: with_adapter_manager)
  show "case map_of (managerStubs b) ?p of
        None \<Rightarrow> managerStubs b1 = al_insert ?p (adapter_next A a b, 1) (managerStubs b) \<and>
          handlers_at b1 = (with_adapter A a b)((?p, OM_INTERFACE) :=
             with_adapter A a b (?p, OM_INTERFACE) @ [ManagerHandler (adapter_next A a b)]) \<and>
          stubs b1 = al_put (adapter_next A a b) \<lparr>dbusObjectPath = ?p, objectPathsMap = []\<rparr> (stubs b) \<and> nextStub b1 = adapter_next A a b + 1
      | Some (k, n) \<Rightarrow> managerStubs b1 = al_put ?p (k, n + 1) (managerStubs b) \<and>
          handlers_at b1 = with_adapter A a b \<and> stubs b1 = stubs b \<and> nextStub b1 = adapter_next A a b"
  proof (cases "map_of (managerStubs b) ?p")
    case None
    then have "k = adapter_next A a b" "managerStubs b2 = al_insert ?p (adapter_next A a b, 1) (managerStubs b)"
      "stubs b2 = al_put (adapter_next A a b) \<lparr>dbusObjectPath = ?p, objectPathsMap = []\<rparr> (stubs b)" "nextStub b2 = adapter_next A a b + 1"
      using f b' by (auto simp: find_manager_def Let_def)
    then show ?thesis using None b1 b3 w(2) fresh by (simp add: h2)
  next
    case (Some x)
    then have "ManagerHandler (fst x) \<in> set (handlers_at b (?p, OM_INTERFACE))"
      using assms(4) by (cases x) (auto simp: managers_ok_def)
    then have "ManagerHandler (fst x) \<in> set (with_adapter A a b (?p, OM_INTERFACE))"
      by (simp add: with_adapter_manager)
    then show ?thesis using Some f b' b1 b3 w(2) by (cases x) (auto simp: find_manager_def h2)
  qed
qed

text \<open>Unregistering it on tables that have not changed since.\<close>

lemma unregister_undoes:
  assumes "registerDBusStubAdapter e A a b = (ok, b1)" "new_handlers A a b" "managers_ok b"
    and "\<And>k n. isManaging (A a) \<Longrightarrow> map_of (managerStubs b) (adapter_path A a) = Some (k, n) \<Longrightarrow> n + 1 \<noteq> 0"
    and "handlers_at b2 = handlers_at b1" "managerStubs b2 = managerStubs b1"
  shows "\<exists>b3. unregisterDBusStubAdapter e A a b2 = (True, b3) \<and> handlers_at b3 = left_by A a b \<and>
    map_of (managerStubs b3) = map_of (managerStubs b) \<and> stubs b3 = stubs b2 \<and> sent b3 = sent b2 \<and>
    con b3 = unregisterObjectPath (lib e) (adapter_path A a) (con b2)"
proof -
  let ?p = "adapter_path A a" and ?k = "adapter_key A a"
  obtain okr br where r: "removeDBusInterfaceHandler ?k (AdapterHandler a) b2 = (okr, br)" by fastforce
  note v = remove_handler_view[OF r]
  have br: "managerStubs br = managerStubs b2" "stubs br = stubs b2" "con br = con b2" "sent br = sent b2"
    by (subst v(3), simp)+
  have n: "AdapterHandler a \<notin> set (handlers_at b ?k)" using assms(2) by (simp add: new_handlers_def)
  note rem = without_adapter[OF n] and has = with_adapter_has[of a A b]
  show ?thesis
  proof (cases "isManaging (A a)")
    case False
    note new = registered_new_adapter[OF assms(1,2) False]
    have "handlers_at b2 ?k \<noteq> []" using has by (auto simp: assms(5) new(2))
    then have okr: okr by (rule v(1))
    have "handlers_at br = left_by A a b" using v(2) rem by (simp add: assms(5) new(2))
    then show ?thesis using r okr br False new(3) assms(6) by (simp add: unregisterDBusStubAdapter_def unregister_manager_def)
  next
    case True
    note new = registered_new_manager[OF assms(1,2) True assms(3)]
    show ?thesis
    proof (cases "map_of (managerStubs b) ?p")
      case None
      let ?M = "ManagerHandler (adapter_next A a b)"
      have fresh: "?M \<notin> set (left_by A a b j)" for j using managers_fresh[OF assms(3)] by (simp add: left_by_manager)
      have h2: "handlers_at b2 = (with_adapter A a b)((?p, OM_INTERFACE) := with_adapter A a b (?p, OM_INTERFACE) @ [?M])"
        and m2: "map_of (managerStubs b2) = (map_of (managerStubs b))(?p \<mapsto> (adapter_next A a b, 1))"
        using new(4) None assms(5,6) by (simp_all add: map_of_al_insert)
      have "handlers_at b2 ?k \<noteq> []" using has by (auto simp: h2)
      then have okr: okr by (rule v(1))
      have hr: "handlers_at br = (left_by A a b)((?p, OM_INTERFACE) := left_by A a b (?p, OM_INTERFACE) @ [?M])"
      proof (rule ext)
        fix j
        show "handlers_at br j = ((left_by A a b)((?p, OM_INTERFACE) := left_by A a b (?p, OM_INTERFACE) @ [?M])) j"
          using v(2) has fun_cong[OF rem, of j] fun_cong[OF rem, of "(?p, OM_INTERFACE)"] by (auto simp: h2 remove1_append split: if_splits)
      qed
      obtain ok4 b4 where q: "removeDBusInterfaceHandler (?p, OM_INTERFACE) ?M br = (ok4, b4)" by fastforce
      note w = remove_handler_view[OF q]
      have ok4: ok4 by (rule w(1)) (simp add: hr)
      have b4: "managerStubs b4 = managerStubs br" "stubs b4 = stubs br" "con b4 = con br" "sent b4 = sent br"
        by (subst w(3), simp)+
      have h4: "handlers_at b4 = left_by A a b" using w(2) fresh by (simp add: hr remove1_append)
      show ?thesis using r okr q ok4 br b4 h4 True None m2
        by (auto simp: unregisterDBusStubAdapter_def unregister_manager_def Let_def)
    next
      case (Some x)
      obtain k n where x: "x = (k, n)" by (cases x)
      have n: "n + 1 \<noteq> 0" "n \<noteq> 0" using assms(3) assms(4)[OF True] Some x by (auto simp: managers_ok_def)
      have h2: "handlers_at b2 = with_adapter A a b" and m2: "map_of (managerStubs b2) = (map_of (managerStubs b))(?p \<mapsto> (k, n + 1))"
        using new(4) Some x assms(5,6) by simp_all
      have "handlers_at b2 ?k \<noteq> []" using has by (auto simp: h2)
      then have okr: okr by (rule v(1))
      have "handlers_at br = left_by A a b" using v(2) rem by (simp add: h2)
      moreover have "(map_of (managerStubs b))(?p \<mapsto> (k, n)) = map_of (managerStubs b)" using Some x by (simp add: fun_upd_idem)
      ultimately show ?thesis using r okr br True m2 n
        by (auto simp: unregisterDBusStubAdapter_def unregister_manager_def Let_def)
    qed
  qed
qed

text \<open>Exporting and withdrawing an adapter.\<close>

lemma exported_new:
  assumes "exportManagedDBusStubAdapter e A k a b = (True, b1)" "a \<notin> set (exported_at (stub_at k b) (adapter_key A a))"
  shows "exported_at (stub_at k b1) = (exported_at (stub_at k b))(adapter_key A a := exported_at (stub_at k b) (adapter_key A a) @ [a])"
    and "handlerTable b1 = handlerTable b" "managerStubs b1 = managerStubs b" "con b1 = con b" "nextStub b1 = nextStub b"
proof -
  obtain ok st where r: "stub_register A a (stub_at k b) = (ok, st)" by fastforce
  note v = stub_register_view[OF r]
  have ok: ok using v(1) assms(2) by simp
  obtain ok' b2 where s: "emitInterfacesAddedSignal e A a (dbusObjectPath st) (put_stub k st b) = (ok', b2)" by fastforce
  have b2: "b2 = (put_stub k st b)\<lparr>sent := sent b2\<rparr>" using s sent_bus by (auto simp: emitInterfacesAddedSignal_def Let_def)
  have b1: "b1 = (if connected (con b) then b2 else put_stub k st b)"
    using assms r ok s by (auto simp: exportManagedDBusStubAdapter_def exported_iff Let_def split: if_splits)
  have st: "stub_at k b1 = st" unfolding b1 by (subst b2) simp
  show "exported_at (stub_at k b1) = (exported_at (stub_at k b))(adapter_key A a := exported_at (stub_at k b) (adapter_key A a) @ [a])"
    using v(2) ok by (simp add: st)
  show "handlerTable b1 = handlerTable b" "managerStubs b1 = managerStubs b" "con b1 = con b" "nextStub b1 = nextStub b"
    unfolding b1 by (subst b2, simp)+
qed

lemma unexported:
  assumes "a \<in> set (exported_at (stub_at k b) (adapter_key A a))" "\<And>l m. canSend e l m"
  shows "\<exists>b1. unexportManagedDBusStubAdapter e A k a b = (True, b1) \<and>
    exported_at (stub_at k b1) = (exported_at (stub_at k b))(adapter_key A a := remove1 a (exported_at (stub_at k b) (adapter_key A a))) \<and>
    handlerTable b1 = handlerTable b \<and> managerStubs b1 = managerStubs b \<and> con b1 = con b"
proof -
  obtain ok st where r: "stub_unregister A a (stub_at k b) = (ok, st)" by fastforce
  note v = stub_unregister_view[OF r]
  have ok: ok using v(1) assms(1) by simp
  show ?thesis
    using r ok v(2) assms(2)
    by (simp add: unexportManagedDBusStubAdapter_def emitInterfacesRemovedSignal_def sendDBusMessage_def Let_def)
qed

end
