(* ===== verification/Factory_Correct.thy ===== *)
theory Factory_Correct
  imports Factory Object_Manager_Correct Translator_Correct
begin

text \<open>
  Registering a stub and unregistering it leaves everything that was published as it was: the
  services, the users of the connection, the tables of its object manager, its bus names and
  object paths. Only the handler of the properties of the stub stays, if it has any. What a failed registration leaves behind.
\<close>

section \<open>What is published\<close>

text \<open>Two states of a connection, the second with the handlers \<open>hs\<close>.\<close>

definition same_bus :: "(string \<times> string \<Rightarrow> om_handler list) \<Rightarrow> bus \<Rightarrow> bus \<Rightarrow> bool" where
  "same_bus hs b b' \<longleftrightarrow> handlers_at b' = hs \<and> exported_at (stub_at 0 b') = exported_at (stub_at 0 b) \<and>
     map_of (managerStubs b') = map_of (managerStubs b) \<and>
     map_of (nameCount (con b')) = map_of (nameCount (con b)) \<and> map_of (objectPaths (con b')) = map_of (objectPaths (con b))"

text \<open>The same is published, up to the handlers \<open>hs\<close> of the connection \<open>c\<close>.\<close>

definition same_published :: "nat \<Rightarrow> (string \<times> string \<Rightarrow> om_handler list) \<Rightarrow> factory \<Rightarrow> factory \<Rightarrow> bool" where
  "same_published c hs s s' \<longleftrightarrow> map_of (services s') = map_of (services s) \<and> connections s' = connections s \<and>
     activeConnections s' = activeConnections s \<and> (\<forall>c'. same_bus (if c' = c then hs else handlers_at (buses s c')) (buses s c') (buses s' c'))"

section \<open>Counts of the connection\<close>

lemma word_succ_gt_1: "w \<noteq> 0 \<Longrightarrow> w + 1 \<noteq> 0 \<Longrightarrow> 1 < w + 1" for w :: "'a::len word"
proof -
  assume "w \<noteq> 0" "w + 1 \<noteq> 0"
  then have "unat (w + 1) = Suc (unat w)" "0 < unat w"
    by (simp_all add: unatSuc add.commute unat_gt_0)
  then show ?thesis by (simp add: word_less_nat_alt)
qed

lemma name_released:
  assumes "requestServiceNameAndBlock E n c = (True, c1)" "nameCount c2 = nameCount c1"
    and "\<And>w. map_of (nameCount c) n = Some w \<Longrightarrow> w \<noteq> 0 \<and> w + 1 \<noteq> 0" "\<And>l. E l (ReleaseName n)"
  shows "\<exists>c3. releaseServiceName E n c2 = (True, c3) \<and> map_of (nameCount c3) = map_of (nameCount c) \<and>
    objectPaths c3 = objectPaths c2 \<and> connected c3 = connected c2"
proof (cases "map_of (nameCount c) n")
  case None
  then have "map_of (nameCount c2) = (map_of (nameCount c))(n \<mapsto> 1)"
    using assms(1,2) by (auto simp: requestServiceNameAndBlock_def call_def Let_def map_of_al_insert split: if_splits)
  then show ?thesis using None assms(4)
    by (simp add: releaseServiceName_def call_def Let_def fun_upd_idem)
next
  case (Some w)
  then have "map_of (nameCount c2) = (map_of (nameCount c))(n \<mapsto> w + 1)"
    using assms(1,2) by (auto simp: requestServiceNameAndBlock_def)
  then show ?thesis using Some assms(3)[OF Some]
    by (auto simp: releaseServiceName_def fun_upd_idem)
qed

lemma path_released:
  assumes "objectPaths c2 = objectPaths (registerObjectPath E p c)"
    and "\<And>w. map_of (objectPaths c) p = Some w \<Longrightarrow> w \<noteq> 0 \<and> w + 1 \<noteq> 0"
  shows "map_of (objectPaths (unregisterObjectPath E' p c2)) = map_of (objectPaths c)"
proof (cases "p = [] \<or> hd p \<noteq> CHR ''/''")
  case False
  show ?thesis
  proof (cases "map_of (objectPaths c) p")
    case None
    then have "map_of (objectPaths c2) = (map_of (objectPaths c))(p \<mapsto> 1)"
      using assms(1) False by (auto simp: registerObjectPath_def Let_def map_of_al_insert)
    then show ?thesis using None False by (simp add: unregisterObjectPath_def Let_def fun_upd_idem)
  next
    case (Some w)
    then have "map_of (objectPaths c2) = (map_of (objectPaths c))(p \<mapsto> w + 1)"
      using assms(1) False by (auto simp: registerObjectPath_def)
    then show ?thesis using Some assms(2)[OF Some] False word_succ_gt_1[of w]
      by (auto simp: unregisterObjectPath_def fun_upd_idem)
  qed
qed (use assms(1) in \<open>auto simp: registerObjectPath_def unregisterObjectPath_def\<close>)

lemma conn_frame [simp]:
  "nameCount (registerObjectPath E p c) = nameCount c" "nameCount (unregisterObjectPath E p c) = nameCount c"
  "connected (registerObjectPath E p c) = connected c" "connected (unregisterObjectPath E p c) = connected c"
  by (auto simp: registerObjectPath_def unregisterObjectPath_def Let_def split: option.splits)

lemma request_frame:
  "requestServiceNameAndBlock E n c = (r, c1) \<Longrightarrow> objectPaths c1 = objectPaths c \<and> connected c1 = connected c"
  by (auto simp: requestServiceNameAndBlock_def call_def Let_def split: option.splits if_splits)

section \<open>Publishing on one connection\<close>

text \<open>What registration does to the connection and its object manager, and what undoes it.\<close>

lemma withdraw_undoes:
  assumes "exportManagedDBusStubAdapter e A 0 a b0 = (True, b1)" "registerDBusStubAdapter e A a b1 = (True, b2)"
    and "requestServiceNameAndBlock (lib e) n (con b2) = (True, k)"
    and "a \<notin> set (exported_at (stub_at 0 b0) (adapter_key A a))" "new_handlers A a b0" "managers_ok b0"
    and "\<And>k n. map_of (managerStubs b0) (adapter_path A a) = Some (k, n) \<Longrightarrow> n + 1 \<noteq> 0"
    and "\<And>w. map_of (nameCount (con b0)) n = Some w \<Longrightarrow> w \<noteq> 0 \<and> w + 1 \<noteq> 0"
    and "\<And>w. map_of (objectPaths (con b0)) (adapter_path A a) = Some w \<Longrightarrow> w \<noteq> 0 \<and> w + 1 \<noteq> 0"
    and "\<And>l m. canSend e l m" "\<And>l. lib e l (ReleaseName n)"
  shows "\<exists>b4 k5 b6. unregisterDBusStubAdapter e A a (b2\<lparr>con := k\<rparr>) = (True, b4) \<and>
    releaseServiceName (lib e) n (con b4) = (True, k5) \<and>
    unexportManagedDBusStubAdapter e A 0 a (b4\<lparr>con := k5\<rparr>) = (True, b6) \<and> same_bus (left_by A a b0) b0 b6"
proof -
  note x = exported_new[OF assms(1,4)]
  have h1: "handlers_at b1 = handlers_at b0" using x(2) by (simp add: handlers_at_def fun_eq_iff)
  have m1: "managers_ok b1" using assms(6) x(3,5) h1 by (simp add: managers_ok_def)
  have new: "new_handlers A a b1" using assms(5) h1 by (simp add: new_handlers_def)
  have left: "left_by A a b1 = left_by A a b0" using x(5) h1 by (simp add: left_by_def)
  have reg: "con b2 = registerObjectPath (lib e) (adapter_path A a) (con b0)" "stub_at 0 b2 = stub_at 0 b1"
  proof -
    show "con b2 = registerObjectPath (lib e) (adapter_path A a) (con b0)"
      using registered_new_adapter(5)[OF assms(2) new] registered_new_manager(2)[OF assms(2) new _ m1] x(4)
      by (cases "isManaging (A a)") simp_all
    show "stub_at 0 b2 = stub_at 0 b1"
      using registered_new_adapter(4)[OF assms(2) new] registered_new_manager(4)[OF assms(2) new _ m1] m1
      by (cases "isManaging (A a)") (auto simp: stub_at_def managers_ok_def adapter_next_def split: option.splits)
  qed
  obtain b4 where u: "unregisterDBusStubAdapter e A a (b2\<lparr>con := k\<rparr>) = (True, b4)" "handlers_at b4 = left_by A a b0"
      "map_of (managerStubs b4) = map_of (managerStubs b1)" "stubs b4 = stubs b2"
      "con b4 = unregisterObjectPath (lib e) (adapter_path A a) k"
    using unregister_undoes[OF assms(2) new m1, of "b2\<lparr>con := k\<rparr>"] assms(7) x(3) left by auto
  obtain k5 where k5: "releaseServiceName (lib e) n (con b4) = (True, k5)" "map_of (nameCount k5) = map_of (nameCount (con b0))"
      "objectPaths k5 = objectPaths (con b4)" "connected k5 = connected (con b4)"
    using name_released[OF assms(3), of "con b4"] assms(8,11) u(5) reg(1) by auto
  have s4: "stub_at 0 (b4\<lparr>con := k5\<rparr>) = stub_at 0 b1" using u(4) reg(2) by (simp add: stub_at_def)
  then have "a \<in> set (exported_at (stub_at 0 (b4\<lparr>con := k5\<rparr>)) (adapter_key A a))" using x(1) by simp
  from unexported[OF this assms(10)] obtain b6 where b6: "unexportManagedDBusStubAdapter e A 0 a (b4\<lparr>con := k5\<rparr>) = (True, b6)"
      "exported_at (stub_at 0 b6) = (exported_at (stub_at 0 b1))(adapter_key A a := remove1 a (exported_at (stub_at 0 b1) (adapter_key A a)))"
      "handlerTable b6 = handlerTable b4" "managerStubs b6 = managerStubs b4" "con b6 = k5"
    by (elim exE conjE) (simp add: s4[simplified])
  have "exported_at (stub_at 0 b6) = exported_at (stub_at 0 b0)"
    using b6(2) x(1) assms(4) by (simp add: remove1_append)
  moreover have "handlers_at b6 = left_by A a b0" using b6(3) u(2) by (simp add: handlers_at_def fun_eq_iff)
  moreover have "map_of (objectPaths k5) = map_of (objectPaths (con b0))"
    using path_released[of k "lib e" "adapter_path A a" "con b0" "lib e"] request_frame[OF assms(3)] assms(9) reg(1) u(5) k5(3) by simp
  ultimately have "same_bus (left_by A a b0) b0 b6" using b6(4,5) u(3) x(3) k5(2) by (simp add: same_bus_def)
  then show ?thesis using u(1) k5(1) b6(1) by blast
qed

section \<open>Registering a stub and unregistering it\<close>

text \<open>A count that exists is positive and can grow; an adapter that no table has.\<close>

definition room :: "('k \<times> 'a::len word) list \<Rightarrow> 'k \<Rightarrow> bool" where
  "room m k \<longleftrightarrow> (\<forall>w. map_of m k = Some w \<longrightarrow> w \<noteq> 0 \<and> w + 1 \<noteq> 0)"

definition unknown_adapter :: "adapter \<Rightarrow> bus \<Rightarrow> bool" where
  "unknown_adapter a b \<longleftrightarrow> (\<forall>j. a \<notin> set (exported_at (stub_at 0 b) j) \<and> AdapterHandler a \<notin> set (handlers_at b j) \<and>
     (\<forall>n. PropertiesHandler n a \<notin> set (handlers_at b j)))"

definition ready :: "adapter \<Rightarrow> DBusAddress \<Rightarrow> bus \<Rightarrow> bool" where
  "ready a d b \<longleftrightarrow> managers_ok b \<and> unknown_adapter a b \<and> room (nameCount (con b)) (getService d) \<and>
     room (objectPaths (con b)) (getObjectPath d) \<and>
     (\<forall>k n. map_of (managerStubs b) (getObjectPath d) = Some (k, n) \<longrightarrow> n + 1 \<noteq> 0)"

lemma registered_stub:
  assumes "registerStubAdapter F a s = Inr (True, s1)" "service_key F a s = (Some address, s)" "map_of (services s) address = None"
  shows "\<exists>b1 b2 k. exportManagedDBusStubAdapter (bus_of F) (attributes s) 0 a (buses s (adapterConnection s a)) = (True, b1) \<and>
    registerDBusStubAdapter (bus_of F) (attributes s) a b1 = (True, b2) \<and>
    requestServiceNameAndBlock (lib (bus_of F)) (getService (adapterAddress (attributes s a))) (con b2) = (True, k) \<and>
    s1 = s\<lparr>services := al_insert address a (services s), buses := (buses s)(adapterConnection s a := b2\<lparr>con := k\<rparr>)\<rparr>"
proof -
  let ?e = "bus_of F" and ?A = "attributes s" and ?c = "adapterConnection s a"
  obtain x1 b1 where b1: "exportManagedDBusStubAdapter ?e ?A 0 a (buses s ?c) = (x1, b1)" by fastforce
  obtain x2 b2 where b2: "registerDBusStubAdapter ?e ?A a b1 = (x2, b2)" by fastforce
  obtain x3 k where k: "requestServiceNameAndBlock (lib ?e) (getService (adapterAddress (?A a))) (con b2) = (x3, k)" by fastforce
  have erase: "\<not> ebind (erase_service address s') (\<lambda>s. Inr (False, s)) = Inr (True, s1)" for s'
    by (simp add: erase_service_def)
  show ?thesis
    using assms(1,2) b1 b2 k erase
    by (cases x1; cases x2; cases x3) (simp_all add: registerStubAdapter_def on_adapter_bus_def on_bus_def on_conn_def Let_def)
qed

lemma unregistered_stub:
  assumes "map_of (services s) (print_address (ext F) k) = Some a" "c = adapterConnection s a"
    and "unregisterDBusStubAdapter (bus_of F) (attributes s) a (buses s c) = (True, b4)"
    and "releaseServiceName (lib (bus_of F)) (getService (adapterAddress (attributes s a))) (con b4) = (True, k5)"
    and "unexportManagedDBusStubAdapter (bus_of F) (attributes s) 0 a (b4\<lparr>con := k5\<rparr>) = (True, b6)"
    and "tr_translate_back (ext F) (adapterAddress (attributes s a)) (translation s) = (Some x, translation s)"
    and "c \<in> snd ` set (connections s)" "1 < activeConnections s c"
  shows "\<exists>s2. unregisterStub F k s = (True, s2) \<and> services s2 = al_erase (print_address (ext F) k) (services s) \<and>
    buses s2 = (buses s)(c := b6) \<and> connections s2 = connections s \<and>
    activeConnections s2 = (activeConnections s)(c := activeConnections s c - 1)"
proof -
  have key: "service_key F a (s\<lparr>buses := f\<rparr>) = (Some (print_address (ext F) x), s\<lparr>buses := f\<rparr>)" for f
    using assms(6) by (simp add: service_key_def tr_translate_back_string_def)
  show ?thesis
    using assms(1-5,7,8) key
    by (simp add: unregisterStub_def on_adapter_bus_def on_bus_def on_conn_def unregisterStubAdapter_def decrementConnection_def Let_def)
qed


end
