(* ===== verification/Factory_Props.thy ===== *)
theory Factory_Props
  imports Factory_Correct
begin

text \<open>
  Instances of the registration of stubs, what a registration that fails leaves behind, and the
  lists of the object manager, which are never empty.
\<close>

section \<open>An example\<close>

definition example_fac_env :: fac_env where
  "example_fac_env = \<lparr>bus_of = \<lparr>lib = (\<lambda>l c. True), canSend = (\<lambda>l m. True)\<rparr>, ext = some_tr_ext,
     creates = (\<lambda>i. Some (True, False)), canConnect = (\<lambda>i. True), contextAlive = (\<lambda>c. True),
     emptyAddress = \<lparr>capi_domain = [], capi_interface = [], capi_instance = []\<rparr>\<rparr>"

definition example_address :: "string \<Rightarrow> capi_address" where
  "example_address i = \<lparr>capi_domain = ''local'', capi_interface = ''a.b:v1_0'', capi_instance = i\<rparr>"

definition registered_factory :: "fac_env \<Rightarrow> capi_address \<Rightarrow> factory \<Rightarrow> factory" where
  "registered_factory F k s = (case registerStub F k ''c'' s of Inr (True, s1) \<Rightarrow> s1 | _ \<Rightarrow> s)"

text \<open>One service, a manager, on a connection of its own.\<close>

definition example_factory :: factory where
  "example_factory = registered_factory example_fac_env (example_address ''x'') (new_factory (new_translator True))"

lemma example_factory_tables:
  "services example_factory = [(''x'', 1)]" "connections example_factory = [(''c'', 0)]"
  "activeConnections example_factory 0 = 1" "nextPointer example_factory = 2"
  "handlerTable (buses example_factory 0) = [((''/'', OM_INTERFACE), [ManagerHandler 0]),
     ((''/x'', ''a.b.v1_0''), [AdapterHandler 1]), ((''/x'', OM_INTERFACE), [ManagerHandler 1])]"
  "managerStubs (buses example_factory 0) = [(''/x'', (1, 1))]" "nextStub (buses example_factory 0) = 2"
  "objectPathsMap (stub_at 0 (buses example_factory 0)) = [(''/x'', [(''a.b.v1_0'', [1])])]"
  "nameCount (con (buses example_factory 0)) = [(''a.b.v1_0_x'', 1)]"
  "objectPaths (con (buses example_factory 0)) = [(''/'', 1), (''/x'', 1)]"
  "connected (con (buses example_factory 0))"
  by code_simp+

lemma example_ready: "ready 2 (DBusAddress ''a.b.v1_0_y'' ''/y'' ''a.b.v1_0'') (buses example_factory 0)"
proof -
  let ?b = "buses example_factory 0"
  have h: "handlers_at ?b j = (if j = (''/'', OM_INTERFACE) then [ManagerHandler 0]
      else if j = (''/x'', ''a.b.v1_0'') then [AdapterHandler 1] else if j = (''/x'', OM_INTERFACE) then [ManagerHandler 1] else [])" for j
    by (simp add: handlers_at_def example_factory_tables OM_INTERFACE_def)
  have e: "exported_at (stub_at 0 ?b) j = (if j = (''/x'', ''a.b.v1_0'') then [1] else [])" for j
    by (cases j) (simp add: exported_at_def example_factory_tables)
  have "managers_ok ?b"
    unfolding managers_ok_def h by (auto simp: example_factory_tables OM_INTERFACE_def split: if_splits)
  moreover have "unknown_adapter 2 ?b"
    unfolding unknown_adapter_def h e by (auto split: if_splits)
  ultimately show ?thesis by (simp add: ready_def room_def example_factory_tables)
qed

lemma example_translation:
  "fst (tr_translate some_tr_ext (example_address ''y'') (translation example_factory)) = Some (DBusAddress ''a.b.v1_0_y'' ''/y'' ''a.b.v1_0'')"
  "backwards (snd (tr_translate some_tr_ext (example_address ''y'') (translation example_factory)))
     (DBusAddress ''a.b.v1_0_y'' ''/y'' ''a.b.v1_0'') = Some (example_address ''y'')"
  by code_simp+

text \<open>The second stub has properties.\<close>

definition properties_env :: fac_env where
  "properties_env = example_fac_env\<lparr>creates := (\<lambda>i. Some (True, True))\<rparr>"

lemma example_registers:
  "(case registerStub properties_env (example_address ''y'') ''c'' example_factory of Inr (ok, s) \<Rightarrow> ok | Inl err \<Rightarrow> False)"
  by code_simp


section \<open>A registration that fails\<close>

text \<open>If the signal that announces a new service cannot be sent, \<open>registerStub\<close> returns false but
  leaves the service in the table, where it can never be unregistered, and the connection with one
  user more.\<close>

theorem failed_export_blocks_address:
  assumes "creates F (capi_interface k) = Some kind"
    and "tr_translate (ext F) k (translation s) = (Some d, T)" "tr_translate_back (ext F) d T = (Some k, T)"
    and "map_of (connections s) cid = Some c" "map_of (services s) (print_address (ext F) k) = None"
    and "connected (con (buses s c))" "\<And>l m. \<not> canSend (bus_of F) l m"
    and "unknown_adapter (nextPointer s) (buses s c)"
    and "map_of (handlerTable (buses s c)) (getObjectPath d, getInterface d) = None"
  shows "\<exists>s1. registerStub F k cid s = Inr (False, s1) \<and>
    getRegisteredService (print_address (ext F) k) s1 = Some (nextPointer s) \<and>
    activeConnections s1 c = activeConnections s c + 1 \<and>
    (\<forall>F'. ext F' = ext F \<longrightarrow> unregisterStub F' k s1 = (False, s1))"
proof -
  let ?a = "nextPointer s" and ?key = "print_address (ext F) k" and ?e = "bus_of F"
  define A where "A = (attributes s)(?a := \<lparr>adapterAddress = d, isManaging = fst kind, hasFreedesktopProperties = snd kind\<rparr>)"
  define s0 where "s0 = s\<lparr>activeConnections := (activeConnections s)(c := activeConnections s c + 1), attributes := A,
    adapterConnection := (adapterConnection s)(?a := c), capiAddress := (capiAddress s)(?a := k), translation := T, nextPointer := ?a + 1\<rparr>"
  have inn: "c \<in> snd ` set (connections s)" using assms(4) by (force dest: map_of_SomeD)
  have key: "service_key F ?a s0 = (Some ?key, s0)" and adapterKey: "adapter_key A ?a = (getObjectPath d, getInterface d)"
    by (simp_all add: service_key_def s0_def A_def tr_translate_back_string_def assms(3) adapter_key_def adapter_path_def adapter_interface_def)
  obtain b where x: "exportManagedDBusStubAdapter ?e A 0 ?a (buses s c) = (False, b)"
      and t: "handlerTable b = handlerTable (buses s c)"
  proof -
    obtain ok st where r: "stub_register A ?a (stub_at 0 (buses s c)) = (ok, st)" by fastforce
    have "\<not> isDBusStubAdapterExported A ?a (stub_at 0 (buses s c))"
      using assms(8) by (cases "adapter_key A ?a") (simp add: exported_iff unknown_adapter_def)
    then show thesis using r assms(6,7) that
      by (cases ok) (auto simp: exportManagedDBusStubAdapter_def emitInterfacesAddedSignal_def sendDBusMessage_def Let_def)
  qed
  define s1 where "s1 = s0\<lparr>services := al_insert ?key ?a (services s0), buses := (buses s0)(c := b)\<rparr>"
  have refused: "unregisterDBusStubAdapter e' A ?a b = (False, b)" for e'
    using t assms(9) adapterKey by (simp add: unregisterDBusStubAdapter_def unregister_manager_def removeDBusInterfaceHandler_def)
  have s1: "map_of (services s1) ?key = Some ?a" "attributes s1 = A" "adapterConnection s1 ?a = c" "buses s1 c = b"
    using assms(5) by (simp_all add: s1_def s0_def map_of_al_insert)
  have stays: "on_adapter_bus ?a (unregisterDBusStubAdapter e' A ?a) s1 = (False, s1)" for e'
  proof -
    have "(buses s1)(c := b) = buses s1" using s1(4) by auto
    then show ?thesis by (simp add: on_adapter_bus_def on_bus_def s1 refused)
  qed
  have "registerStubAdapter F ?a s0 = Inr (False, s1)"
  proof -
    have "unregisterManagedService F ?key s1 = (False, s1)" using stays by (simp add: unregisterManagedService_def s1)
    then show ?thesis using x key
      by (simp add: registerStubAdapter_def on_adapter_bus_def on_bus_def Let_def s1_def) (simp add: s0_def)
  qed
  moreover have "referenced ?a s1" using s1(1) by (auto simp: referenced_def dest!: map_of_SomeD intro: rev_image_eqI)
  moreover have "registerStub F k cid s =
      ebind (registerStubAdapter F ?a s0) (\<lambda>(ok, s3). Inr (ok, if ok then s3 else drop_adapter F ?a s3))"
    using assms(1-4) inn by (simp add: registerStub_def registerStub_on_def getConnection_def incrementConnection_def new_adapter_def s0_def A_def Let_def)
  ultimately have "registerStub F k cid s = Inr (False, s1)" by (simp add: drop_adapter_def)
  moreover have "unregisterStub F' k s1 = (False, s1)" if "ext F' = ext F" for F'
    using that stays s1 by (simp add: unregisterStub_def)
  moreover have "activeConnections s1 c = activeConnections s c + 1" by (simp add: s1_def s0_def)
  ultimately show ?thesis using s1(1) by (auto simp: getRegisteredService_def)
qed

lemma failed_export_blocks_address_witness:
  "let F = example_fac_env\<lparr>bus_of := \<lparr>lib = (\<lambda>l c. True), canSend = (\<lambda>l m. False)\<rparr>\<rparr>
   in \<exists>s1. registerStub F (example_address ''y'') ''c'' example_factory = Inr (False, s1) \<and> getRegisteredService ''y'' s1 = Some 2 \<and>
        unregisterStub example_fac_env (example_address ''y'') s1 = (False, s1)"
proof -
  let ?F = "example_fac_env\<lparr>bus_of := \<lparr>lib = (\<lambda>l c. True), canSend = (\<lambda>l m. False)\<rparr>\<rparr>" and ?k = "example_address ''y''"
  obtain T where T: "tr_translate (ext ?F) ?k (translation example_factory) = (Some (DBusAddress ''a.b.v1_0_y'' ''/y'' ''a.b.v1_0''), T)"
      "backwards T (DBusAddress ''a.b.v1_0_y'' ''/y'' ''a.b.v1_0'') = Some ?k"
    using example_translation by (cases "tr_translate some_tr_ext ?k (translation example_factory)") (simp add: example_fac_env_def)
  have bk: "tr_translate_back (ext ?F) (DBusAddress ''a.b.v1_0_y'' ''/y'' ''a.b.v1_0'') T = (Some ?k, T)"
    by (simp add: tr_translate_back_def T(2))
  have "\<exists>s1. registerStub ?F ?k ''c'' example_factory = Inr (False, s1) \<and>
      getRegisteredService (print_address (ext ?F) ?k) s1 = Some (nextPointer example_factory) \<and>
      activeConnections s1 0 = activeConnections example_factory 0 + 1 \<and>
      (\<forall>F'. ext F' = ext ?F \<longrightarrow> unregisterStub F' ?k s1 = (False, s1))"
    by (rule failed_export_blocks_address[OF _ T(1) bk, of "(True, False)" "''c''" 0])
      (use example_ready in \<open>simp_all add: ready_def example_factory_tables example_fac_env_def example_address_def some_tr_ext_def\<close>)
  then show ?thesis by (auto simp: Let_def example_factory_tables example_fac_env_def example_address_def some_tr_ext_def)
qed

section \<open>Lists of the object manager\<close>

datatype om_op =
    Export nat adapter
  | Unexport nat adapter
  | RegisterAdapter adapter
  | UnregisterAdapter adapter
  | ExportManaged string adapter
  | UnexportManaged string adapter

fun om_step :: "bus_env \<Rightarrow> (adapter \<Rightarrow> stub_adapter) \<Rightarrow> om_op \<Rightarrow> bus \<Rightarrow> bus" where
  "om_step e A (Export k a) b = snd (exportManagedDBusStubAdapter e A k a b)"
| "om_step e A (Unexport k a) b = snd (unexportManagedDBusStubAdapter e A k a b)"
| "om_step e A (RegisterAdapter a) b = snd (registerDBusStubAdapter e A a b)"
| "om_step e A (UnregisterAdapter a) b = snd (unregisterDBusStubAdapter e A a b)"
| "om_step e A (ExportManaged p a) b = snd (om_exportManagedDBusStubAdapter e A p a b)"
| "om_step e A (UnexportManaged p a) b = snd (om_unexportManagedDBusStubAdapter e A p a b)"

lemma no_empty_step: "no_empty b \<Longrightarrow> no_empty (om_step e A op b)"
  by (cases op) (auto simp: om_exportManagedDBusStubAdapter_def om_unexportManagedDBusStubAdapter_def split: option.splits
      intro: no_empty_export no_empty_unexport no_empty_register no_empty_unregister)

lemma no_empty_steps: "no_empty b \<Longrightarrow> no_empty (fold (om_step e A) ops b)"
  by (induction ops arbitrary: b) (simp_all add: no_empty_step)

text \<open>The object manager never takes the first element of an empty list, neither to deliver a
  message nor to answer \<open>GetManagedObjects\<close>, after any sequence of registrations and exports.\<close>

theorem om_lists_never_empty:
  "handleMessage p i (fold (om_step e A) ops (new_bus e c)) \<noteq> EmptyList \<and>
   onInterfaceDBusMessage e A k is_call member (fold (om_step e A) ops (new_bus e c)) \<noteq> None"
proof -
  let ?b = "fold (om_step e A) ops (new_bus e c)"
  have n: "no_empty ?b" by (rule no_empty_steps[OF no_empty_new])
  have "hs \<noteq> []" if "map_of (handlerTable ?b) (p, i) = Some hs" for hs
    using n map_of_SomeD[OF that] by (auto simp: no_empty_def)
  then have "handleMessage p i ?b \<noteq> EmptyList"
    by (auto simp: handleMessage_def split: option.splits list.splits)
  moreover have "managed_objects A (objectPathsMap (stub_at k ?b)) \<noteq> None"
    using no_empty_stub[OF n, of k] by (intro managed_objects_some) (auto simp: stub_ok_def)
  ultimately show ?thesis by (auto simp: onInterfaceDBusMessage_def)
qed

end
