(* ===== verification/Proxy.thy ===== *)
theory Proxy
  imports Connection
begin

text \<open>
  \<open>DBusProxy\<close> (\<open>DBusProxy.cpp\<close>): the availability of the remote service as a proxy sees it,
  its status listeners, the signal handlers it registers while the service is available
  (\<open>signalMemberHandlerQueue_\<close>), and the selective broadcasts, with the parts of
  \<open>DBusConnection\<close> that serve them (\<open>signalStateHandlers_\<close>, \<open>subscribeForSelectiveBroadcast\<close>).

  The proxy works on the connection of the theory \<open>Connection\<close>. A method call, a call of a
  listener and a call of a handler are recorded in \<open>effects\<close>; the function objects that are
  handed to the main loop wait in \<open>pushed\<close>.
\<close>

section \<open>State\<close>

datatype AvailabilityStatus = UNKNOWN | AVAILABLE | NOT_AVAILABLE

datatype error_status = ErrorSuccess | SubscriptionRefused

type_synonym token = handler_path
type_synonym tag = u32

text \<open>A \<open>SignalMemberHandlerTuple\<close>; the last component is whether the handler is registered.\<close>

record signal_entry =
  e_path :: handler_path
  e_getMethod :: string
  e_handler :: handler
  e_justAddFilter :: bool
  e_added :: bool

datatype effect =
    NotifyListener nat AvailabilityStatus
  | CallForSignal string handler
  | CallForInitialValue string handler tag
  | CallSubscribe string token handler tag
  | CallPendingSubscribe string string handler tag
  | CallUnsubscribe string
  | OnSignal handler
  | OnInitialValue handler tag
  | OnSpecificError handler error_status tag
  | WakeAvailabilityThread
  | WakeOneBlocked

datatype pushed_function =
    NotifySpecificListener nat nat
  | HandleSignalStates
  | PushSpecificError handler tag

record proxy =
  connection :: conn
  signalStateHandlers :: "(handler \<times> tag list) list"
  availabilityStatus :: AvailabilityStatus
  everAvailable :: bool
  listeners :: "(nat \<times> nat) list"
  signalMemberHandlerQueue :: "signal_entry list"
  selectiveBroadcastHandlers :: "(string \<times> (handler \<times> tag \<times> string)) list"
  proxyPath :: string
  proxyInterface :: string
  pushed :: "pushed_function list"
  effects :: "effect list"

definition new_proxy :: "string \<Rightarrow> string \<Rightarrow> conn \<Rightarrow> proxy" where
  "new_proxy path interface c =
     \<lparr>connection = c, signalStateHandlers = [], availabilityStatus = UNKNOWN, everAvailable = False, listeners = [],
      signalMemberHandlerQueue = [], selectiveBroadcastHandlers = [], proxyPath = path, proxyInterface = interface,
      pushed = [], effects = []\<rparr>"

definition produce :: "effect list \<Rightarrow> proxy \<Rightarrow> proxy" where
  "produce es p = p\<lparr>effects := effects p @ es\<rparr>"

definition push_function :: "pushed_function \<Rightarrow> proxy \<Rightarrow> proxy" where
  "push_function f p = p\<lparr>pushed := pushed p @ [f]\<rparr>"

section \<open>Status listeners\<close>

definition onListenerAdded :: "nat \<Rightarrow> nat \<Rightarrow> proxy \<Rightarrow> proxy" where
  "onListenerAdded listener subscription p = push_function (NotifySpecificListener listener subscription) p"

definition onListenerRemoved :: "nat \<Rightarrow> proxy \<Rightarrow> proxy" where
  "onListenerRemoved subscription p = p\<lparr>listeners := filter (\<lambda>l. fst l \<noteq> subscription) (listeners p)\<rparr>"

definition notifySpecificListener :: "nat \<Rightarrow> nat \<Rightarrow> proxy \<Rightarrow> proxy" where
  "notifySpecificListener listener subscription p =
     (let itsStatus = availabilityStatus p;
          p1 = (if itsStatus \<noteq> UNKNOWN then produce [NotifyListener subscription itsStatus] p else p)
      in p1\<lparr>listeners := listeners p1 @ [(subscription, listener)]\<rparr>)"

section \<open>Signal states\<close>

text \<open>
  \<open>std::map\<close> and \<open>std::set\<close> are kept in the order of their keys; a handler stands for its address.
\<close>

fun map_put :: "'k::linorder \<Rightarrow> 'v \<Rightarrow> ('k \<times> 'v) list \<Rightarrow> ('k \<times> 'v) list" where
  "map_put k v [] = [(k, v)]"
| "map_put k v ((k', v') # m) =
     (if k = k' then (k, v) # m
      else if k < k' then (k, v) # (k', v') # m
      else (k', v') # map_put k v m)"

definition addSignalStateHandler :: "handler \<Rightarrow> tag \<Rightarrow> proxy \<Rightarrow> proxy" where
  "addSignalStateHandler h subscription p =
     (let tags = (case map_of (signalStateHandlers p) h of Some ts \<Rightarrow> ts | None \<Rightarrow> [])
      in push_function (PushSpecificError h subscription)
           (p\<lparr>signalStateHandlers := map_put h (insort_insert subscription tags) (signalStateHandlers p)\<rparr>))"

definition removeSignalStateHandler :: "handler \<Rightarrow> tag \<Rightarrow> bool \<Rightarrow> proxy \<Rightarrow> proxy" where
  "removeSignalStateHandler h t remove_all p =
     (if remove_all then p\<lparr>signalStateHandlers := al_erase h (signalStateHandlers p)\<rparr>
      else (case map_of (signalStateHandlers p) h of
              None \<Rightarrow> p
            | Some ts \<Rightarrow>
                (let ts' = removeAll t ts
                 in if ts' = [] then p\<lparr>signalStateHandlers := al_erase h (signalStateHandlers p)\<rparr>
                    else p\<lparr>signalStateHandlers := map_put h ts' (signalStateHandlers p)\<rparr>)))"

definition handleSignalStates :: "proxy \<Rightarrow> proxy" where
  "handleSignalStates p =
     produce (concat (map (\<lambda>(h, tags). map (OnSpecificError h ErrorSuccess) tags) (signalStateHandlers p))) p"

text \<open>The main loop takes the oldest function and runs it.\<close>

definition run_function :: "proxy \<Rightarrow> proxy" where
  "run_function p =
     (case pushed p of
        [] \<Rightarrow> p
      | f # fs \<Rightarrow>
          (let p1 = p\<lparr>pushed := fs\<rparr>
           in case f of
                NotifySpecificListener listener subscription \<Rightarrow> notifySpecificListener listener subscription p1
              | HandleSignalStates \<Rightarrow> handleSignalStates p1
              | PushSpecificError h t \<Rightarrow> produce [OnSpecificError h ErrorSuccess t] p1))"

section \<open>Signal handlers\<close>

text \<open>
  \<open>addSignalMemberHandler\<close> is two critical sections: the first looks at the status and
  registers the handler, the second puts the entry into the queue.
\<close>

definition addSignalMemberHandler_register :: "libdbus \<Rightarrow> (handler \<Rightarrow> bool) \<Rightarrow> handler_path \<Rightarrow> string \<Rightarrow> handler \<Rightarrow>
    bool \<Rightarrow> proxy \<Rightarrow> signal_entry \<times> proxy" where
  "addSignalMemberHandler_register E alive path getMethodName h justAddFilter p =
     (let entry = \<lparr>e_path = path, e_getMethod = getMethodName, e_handler = h, e_justAddFilter = justAddFilter,
                   e_added = False\<rparr>
      in if availabilityStatus p = AVAILABLE then
           (let (signalHandlerToken, c) = addSignalMemberHandler E alive path h justAddFilter (connection p)
            in (entry\<lparr>e_added := True\<rparr>, p\<lparr>connection := c\<rparr>))
         else (entry, p))"

definition addSignalMemberHandlerToQueue :: "signal_entry \<Rightarrow> proxy \<Rightarrow> proxy" where
  "addSignalMemberHandlerToQueue entry p =
     (if list_ex (\<lambda>e. e_path e = e_path entry) (signalMemberHandlerQueue p) then p
      else p\<lparr>signalMemberHandlerQueue := signalMemberHandlerQueue p @ [entry]\<rparr>)"

definition proxy_addSignalMemberHandler :: "libdbus \<Rightarrow> (handler \<Rightarrow> bool) \<Rightarrow> handler_path \<Rightarrow> string \<Rightarrow> handler \<Rightarrow> bool \<Rightarrow>
    proxy \<Rightarrow> token \<times> proxy" where
  "proxy_addSignalMemberHandler E alive path getMethodName h justAddFilter p =
     (if getMethodName \<noteq> [] then
        (let (entry, p1) = addSignalMemberHandler_register E alive path getMethodName h justAddFilter p
         in (path, addSignalMemberHandlerToQueue entry p1))
      else
        (let (signalHandlerToken, c) = addSignalMemberHandler E alive path h justAddFilter (connection p)
         in (signalHandlerToken, p\<lparr>connection := c\<rparr>)))"

text \<open>The loop of the removal: after \<open>erase\<close> it also increments, which skips the next entry.\<close>

fun erase_loop :: "handler_path \<Rightarrow> signal_entry list \<Rightarrow> signal_entry list" where
  "erase_loop path [] = []"
| "erase_loop path (e # es) =
     (if e_path e = path then
        (case es of
           [] \<Rightarrow> []
         | e' # es' \<Rightarrow> e' # erase_loop path es')
      else e # erase_loop path es)"

text \<open>\<open>h\<close> is \<open>None\<close> for the null pointer, which is no handler's address.\<close>

definition proxy_removeSignalMemberHandler :: "libdbus \<Rightarrow> token \<Rightarrow> handler option \<Rightarrow> proxy \<Rightarrow> bool \<times> proxy option" where
  "proxy_removeSignalMemberHandler E path h p =
     (let p1 = p\<lparr>signalMemberHandlerQueue := erase_loop path (signalMemberHandlerQueue p)\<rparr>
      in case h of
           None \<Rightarrow> (False, Some p1)
         | Some x \<Rightarrow>
             (case removeSignalMemberHandler E path x (connection p1) of
                (r, c) \<Rightarrow> (r, map_option (\<lambda>c. p1\<lparr>connection := c\<rparr>) c)))"

section \<open>The status of the service\<close>

fun register_queue :: "libdbus \<Rightarrow> (handler \<Rightarrow> bool) \<Rightarrow> signal_entry list \<Rightarrow> conn \<Rightarrow>
    signal_entry list \<times> effect list \<times> conn" where
  "register_queue E alive [] c = ([], [], c)"
| "register_queue E alive (e # es) c =
     (if \<not> e_added e then
        (let c1 = snd (addSignalMemberHandler E alive (e_path e) (e_handler e) (e_justAddFilter e) c);
             (es', calls, c2) = register_queue E alive es c1
         in (e\<lparr>e_added := True\<rparr> # es', CallForSignal (e_getMethod e) (e_handler e) # calls, c2))
      else
        (let (es', calls, c2) = register_queue E alive es c in (e # es', calls, c2)))"

fun unregister_queue :: "libdbus \<Rightarrow> (handler \<Rightarrow> bool) \<Rightarrow> signal_entry list \<Rightarrow> conn \<Rightarrow>
    (signal_entry list \<times> conn) option" where
  "unregister_queue E alive [] c = Some ([], c)"
| "unregister_queue E alive (e # es) c =
     (if alive (e_handler e) \<and> e_added e then
        (case snd (removeSignalMemberHandler E (e_path e) (e_handler e) c) of
           None \<Rightarrow> None
         | Some c1 \<Rightarrow> map_option (\<lambda>(es', c2). (e\<lparr>e_added := False\<rparr> # es', c2)) (unregister_queue E alive es c1))
      else map_option (\<lambda>(es', c2). (e # es', c2)) (unregister_queue E alive es c))"

definition sendPendingSelectiveSubscription :: "string \<times> (handler \<times> tag \<times> string) \<Rightarrow> effect" where
  "sendPendingSelectiveSubscription s =
     (case s of (memberName, h, t, signature) \<Rightarrow> CallPendingSubscribe memberName signature h t)"

definition onAvailable :: "libdbus \<Rightarrow> (handler \<Rightarrow> bool) \<Rightarrow> proxy \<Rightarrow> proxy" where
  "onAvailable E alive p =
     (let handleSignalState = everAvailable p;
          (queue, calls, c) = register_queue E alive (signalMemberHandlerQueue p) (connection p);
          p1 = produce calls (p\<lparr>everAvailable := True, signalMemberHandlerQueue := queue, connection := c\<rparr>);
          p2 = produce (map sendPendingSelectiveSubscription (selectiveBroadcastHandlers p1)) p1
      in if handleSignalState then push_function HandleSignalStates p2 else p2)"

definition onUnavailable :: "libdbus \<Rightarrow> (handler \<Rightarrow> bool) \<Rightarrow> proxy \<Rightarrow> proxy option" where
  "onUnavailable E alive p =
     map_option (\<lambda>(queue, c). p\<lparr>signalMemberHandlerQueue := queue, connection := c\<rparr>)
       (unregister_queue E alive (signalMemberHandlerQueue p) (connection p))"

text \<open>\<open>None\<close> is the undefined behaviour of \<open>removeLibdbusSignalMatchRule\<close>.\<close>

definition onDBusServiceInstanceStatus :: "libdbus \<Rightarrow> (handler \<Rightarrow> bool) \<Rightarrow> AvailabilityStatus \<Rightarrow> proxy \<Rightarrow> proxy option" where
  "onDBusServiceInstanceStatus E alive status p =
     map_option (produce [WakeOneBlocked])
       (if status \<noteq> availabilityStatus p then
          (let p1 = produce [WakeAvailabilityThread] (p\<lparr>availabilityStatus := status\<rparr>);
               p2 = produce (map (\<lambda>l. NotifyListener (fst l) (availabilityStatus p1)) (listeners p1)) p1
           in if status = AVAILABLE then Some (onAvailable E alive p2) else onUnavailable E alive p2)
        else Some p)"

definition isAvailable :: "proxy \<Rightarrow> bool" where
  "isAvailable p \<longleftrightarrow> availabilityStatus p = AVAILABLE"

text \<open>
  \<open>isAvailableBlocking\<close> tests this condition, and waits for \<open>availabilityCondition_\<close> as long as it
  is \<open>None\<close>.
\<close>

definition isAvailableBlocking :: "bool \<Rightarrow> proxy \<Rightarrow> bool option" where
  "isAvailableBlocking hasDispatchThread p =
     (if \<not> hasDispatchThread then Some (availabilityStatus p = AVAILABLE)
      else if availabilityStatus p \<noteq> AVAILABLE then None
      else Some True)"

section \<open>Replies of the calls that a signal handler needs\<close>

text \<open>The status of the reply is not looked at.\<close>

definition signalMemberCallback :: "(handler \<Rightarrow> bool) \<Rightarrow> bool \<Rightarrow> handler \<Rightarrow> proxy \<Rightarrow> proxy" where
  "signalMemberCallback alive success h p = (if alive h then produce [OnSignal h] p else p)"

definition signalInitialValueCallback :: "(handler \<Rightarrow> bool) \<Rightarrow> bool \<Rightarrow> handler \<Rightarrow> tag \<Rightarrow> proxy \<Rightarrow> proxy" where
  "signalInitialValueCallback alive success h t p =
     (if \<not> success then p
      else if alive h then produce [OnInitialValue h t] p else p)"

definition getCurrentValueForSignalListener :: "string \<Rightarrow> handler \<Rightarrow> tag \<Rightarrow> proxy \<Rightarrow> proxy" where
  "getCurrentValueForSignalListener getMethodName h subscription p =
     (if availabilityStatus p = AVAILABLE
      then produce [CallForInitialValue getMethodName h subscription] p else p)"

section \<open>Selective broadcasts\<close>

text \<open>Strings are ordered by \<open>std::string::compare\<close>, which compares bytes.\<close>

fun string_less :: "string \<Rightarrow> string \<Rightarrow> bool" where
  "string_less _ [] = False"
| "string_less [] (_ # _) = True"
| "string_less (c # cs) (d # ds) =
     (if c = d then string_less cs ds else (of_char c :: nat) < of_char d)"

fun string_map_put :: "string \<Rightarrow> 'v \<Rightarrow> (string \<times> 'v) list \<Rightarrow> (string \<times> 'v) list" where
  "string_map_put k v [] = [(k, v)]"
| "string_map_put k v ((k', v') # m) =
     (if k = k' then (k, v) # m
      else if string_less k k' then (k, v) # (k', v') # m
      else (k', v') # string_map_put k v m)"

definition insertSelectiveSubscription :: "string \<Rightarrow> handler \<Rightarrow> tag \<Rightarrow> string \<Rightarrow> proxy \<Rightarrow> proxy" where
  "insertSelectiveSubscription memberName h t signature p =
     p\<lparr>selectiveBroadcastHandlers := string_map_put memberName (h, t, signature) (selectiveBroadcastHandlers p)\<rparr>"

text \<open>
  The handler of a \<open>DBusSelectiveEvent\<close> answers \<open>setSubscriptionToken\<close> by
  \<open>insertSelectiveSubscription\<close> with the name and the signature of the event, which are those of
  the path.
\<close>

definition subscribeForSelectiveBroadcast :: "libdbus \<Rightarrow> (handler \<Rightarrow> bool) \<Rightarrow> handler_path \<Rightarrow> handler \<Rightarrow> tag \<Rightarrow>
    proxy \<Rightarrow> proxy" where
  "subscribeForSelectiveBroadcast E alive path h t p =
     (case path of (objectPath, interfaceName, memberName, signature) \<Rightarrow>
        if alive h then
          (let (tok, c) = addSignalMemberHandler E alive path h True (connection p);
               p1 = insertSelectiveSubscription memberName h t signature (p\<lparr>connection := c\<rparr>)
           in if isAvailable p1 then produce [CallSubscribe memberName tok h t] p1 else p1)
        else p)"

definition refuse :: "libdbus \<Rightarrow> (handler \<Rightarrow> bool) \<Rightarrow> token \<Rightarrow> handler \<Rightarrow> tag \<Rightarrow> proxy \<Rightarrow> proxy option" where
  "refuse E alive tok h t p =
     (if alive h then
        map_option (\<lambda>c. produce [OnSpecificError h SubscriptionRefused t] (p\<lparr>connection := c\<rparr>))
          (snd (removeSignalMemberHandler E tok h (connection p)))
      else Some p)"

definition confirm :: "(handler \<Rightarrow> bool) \<Rightarrow> handler \<Rightarrow> tag \<Rightarrow> proxy \<Rightarrow> proxy" where
  "confirm alive h t p = (if alive h then produce [OnSpecificError h ErrorSuccess t] p else p)"

text \<open>The answer to the call of \<open>subscribeForSelectiveBroadcast\<close>.\<close>

definition selective_reply :: "libdbus \<Rightarrow> (handler \<Rightarrow> bool) \<Rightarrow> bool \<Rightarrow> token \<Rightarrow> handler \<Rightarrow> tag \<Rightarrow> proxy \<Rightarrow> proxy option" where
  "selective_reply E alive accepted tok h t p =
     (if accepted then Some (confirm alive h t p) else refuse E alive tok h t p)"

text \<open>The answer to the call of \<open>sendPendingSelectiveSubscription\<close>.\<close>

definition pending_selective_reply :: "libdbus \<Rightarrow> (handler \<Rightarrow> bool) \<Rightarrow> bool \<Rightarrow> bool \<Rightarrow> string \<Rightarrow> string \<Rightarrow> handler \<Rightarrow> tag \<Rightarrow>
    proxy \<Rightarrow> proxy option" where
  "pending_selective_reply E alive success accepted memberName signature h t p =
     (if success \<and> accepted then Some (confirm alive h t p)
      else refuse E alive (proxyPath p, proxyInterface p, memberName, signature) h t p)"

definition unsubscribeFromSelectiveBroadcast :: "libdbus \<Rightarrow> string \<Rightarrow> token \<Rightarrow> handler \<Rightarrow> proxy \<Rightarrow> proxy option" where
  "unsubscribeFromSelectiveBroadcast E eventName subscription h p =
     (case removeSignalMemberHandler E subscription h (connection p) of
        (lastListenerOnConnectionRemoved, c) \<Rightarrow>
          map_option
            (\<lambda>c. let p1 = p\<lparr>connection := c\<rparr>;
                     p2 = (if lastListenerOnConnectionRemoved then produce [CallUnsubscribe eventName] p1 else p1)
                 in p2\<lparr>selectiveBroadcastHandlers :=
                        al_erase (fst (snd (snd subscription))) (selectiveBroadcastHandlers p2)\<rparr>) c)"

end
