(* ===== verification/Proxy_Correct.thy ===== *)
theory Proxy_Correct
  imports Proxy Connection_Correct
begin

text \<open>
  The queue of signal handlers of a proxy follows the availability of the service: while it is
  available every queued handler that is alive is registered at the connection, while it is not
  none is marked as registered.
\<close>

section \<open>Handlers at a connection\<close>

definition handlers_at :: "conn \<Rightarrow> handler_path \<Rightarrow> handler set" where
  "handlers_at c q = (case map_of (signalHandlers c) q of None \<Rightarrow> {} | Some hs \<Rightarrow> set hs)"

lemma handlers_at_add [registry_simps]:
  "handlers_at (snd (addSignalMemberHandler E alive q h j c)) q' =
     handlers_at c q' \<union> (if q' = q \<and> alive h then {h} else {})"
  by (cases "map_of (signalHandlers c) q")
     (auto simp: addSignalMemberHandler_def handlers_at_def addLibdbus_tables map_of_al_insert put_handler_def)

lemma token_add [simp]: "fst (addSignalMemberHandler E alive q h j c) = q"
  by (simp add: addSignalMemberHandler_def)

lemma removeLibdbus_handlers: "removeLibdbusSignalMatchRule E k c = Some c' \<Longrightarrow> signalHandlers c' = signalHandlers c"
  by (cases "map_of (matchRules c) k")
     (auto simp: removeLibdbusSignalMatchRule_def removeRule_def Let_def split: if_splits)

lemma handlers_at_remove [registry_simps]:
  assumes "rules_inv c" "snd (removeSignalMemberHandler E q h c) = Some c'"
  shows "handlers_at c' q' = handlers_at c q' - (if q' = q then {h} else {})"
proof (cases "map_of (signalHandlers c) q")
  case None
  then show ?thesis using assms(2) by (auto simp: removeSignalMemberHandler_def handlers_at_def)
next
  case (Some hs)
  have d: "distinct hs" using rules_invD(5)[OF assms(1) Some] by simp
  show ?thesis
  proof (cases "h \<in> set hs \<and> remove1 h hs = []")
    case True
    then have "set hs - {h} = {}" using d by (metis set_remove1_eq list.set(1))
    moreover have "signalHandlers c' = al_erase q (signalHandlers c)"
      using assms(2) True Some by (auto simp: removeSignalMemberHandler_def Let_def dest: removeLibdbus_handlers)
    ultimately show ?thesis using Some by (auto simp: handlers_at_def)
  next
    case False
    then show ?thesis using assms(2) Some d
      by (auto simp: removeSignalMemberHandler_def handlers_at_def Let_def split: if_splits)
  qed
qed

lemma length_add: "length (signalHandlers (snd (addSignalMemberHandler E alive q h j c))) \<le> Suc (length (signalHandlers c))"
  by (auto simp: addSignalMemberHandler_def addLibdbus_tables length_al_insert length_al_put split: option.splits)

section \<open>Registering and unregistering the queue\<close>

definition entry_registered :: "(handler \<Rightarrow> bool) \<Rightarrow> conn \<Rightarrow> signal_entry \<Rightarrow> bool" where
  "entry_registered alive c e \<longleftrightarrow> e_added e \<and> (alive (e_handler e) \<longrightarrow> e_handler e \<in> handlers_at c (e_path e))"

definition entry_idle :: "(handler \<Rightarrow> bool) \<Rightarrow> signal_entry \<Rightarrow> bool" where
  "entry_idle alive e \<longleftrightarrow> (e_added e \<longrightarrow> \<not> alive (e_handler e))"

lemma register_queue_shape:
  assumes "register_queue E alive es c = (es', calls, c')"
  shows "map e_path es' = map e_path es \<and> map e_handler es' = map e_handler es \<and> (\<forall>e\<in>set es'. e_added e) \<and>
    calls = map (\<lambda>e. CallForSignal (e_getMethod e) (e_handler e)) (filter (\<lambda>e. \<not> e_added e) es)"
  using assms
proof (induction es arbitrary: c es' calls)
  case (Cons e es)
  then show ?case by (auto simp: Let_def split: prod.splits if_splits)
qed simp

lemma register_queue_conn:
  assumes "register_queue E alive es c = (es', calls, c')"
    and "rules_inv c" "length (signalHandlers c) + length es < 2 ^ 32"
  shows "rules_inv c' \<and> (\<forall>q. handlers_at c q \<subseteq> handlers_at c' q)"
  using assms
proof (induction es arbitrary: c es' calls)
  case (Cons e es)
  show ?case
  proof (cases "e_added e")
    case True
    then show ?thesis using Cons by (auto simp: Let_def split: prod.splits)
  next
    case False
    let ?c1 = "snd (addSignalMemberHandler E alive (e_path e) (e_handler e) (e_justAddFilter e) c)"
    obtain es1 calls1 where r: "register_queue E alive es ?c1 = (es1, calls1, c')"
      using Cons.prems(1) False by (auto simp: Let_def split: prod.splits)
    have i: "rules_inv ?c1" using rules_inv_addSignalMemberHandler[OF Cons.prems(2)] Cons.prems(3) by simp
    have l: "length (signalHandlers ?c1) + length es < 2 ^ 32"
      using length_add[of E alive "e_path e" "e_handler e" "e_justAddFilter e" c] Cons.prems(3) by simp
    have "handlers_at c q \<subseteq> handlers_at ?c1 q" for q by (simp add: handlers_at_add)
    with Cons.IH[OF r i l] show ?thesis by blast
  qed
qed simp

lemma register_queue_registers:
  assumes "register_queue E alive es c = (es', calls, c')"
    and "rules_inv c" "length (signalHandlers c) + length es < 2 ^ 32"
    and "\<forall>e\<in>set es. entry_idle alive e"
  shows "\<forall>e\<in>set es'. entry_registered alive c' e"
  using assms
proof (induction es arbitrary: c es' calls)
  case (Cons e es)
  let ?c1 = "snd (addSignalMemberHandler E alive (e_path e) (e_handler e) (e_justAddFilter e) c)"
  show ?case
  proof (cases "e_added e")
    case True
    then obtain es1 where "es' = e # es1" "register_queue E alive es c = (es1, calls, c')"
      using Cons.prems(1) by (auto simp: Let_def split: prod.splits)
    then show ?thesis using Cons.IH[of c es1 calls] Cons.prems True
      by (auto simp: entry_registered_def entry_idle_def)
  next
    case False
    then obtain es1 calls1 where r: "es' = e\<lparr>e_added := True\<rparr> # es1" "register_queue E alive es ?c1 = (es1, calls1, c')"
      using Cons.prems(1) by (auto simp: Let_def split: prod.splits)
    have i: "rules_inv ?c1" using rules_inv_addSignalMemberHandler[OF Cons.prems(2)] Cons.prems(3) by simp
    have l: "length (signalHandlers ?c1) + length es < 2 ^ 32"
      using length_add[of E alive "e_path e" "e_handler e" "e_justAddFilter e" c] Cons.prems(3) by simp
    have "\<forall>e\<in>set es1. entry_registered alive c' e" using Cons.IH[OF r(2) i l] Cons.prems(4) by simp
    moreover have "handlers_at ?c1 (e_path e) \<subseteq> handlers_at c' (e_path e)"
      using register_queue_conn[OF r(2) i l] by blast
    ultimately show ?thesis using r(1) by (auto simp: entry_registered_def handlers_at_add split: if_splits)
  qed
qed simp

lemma unregister_queue_total:
  assumes "rules_inv c"
  shows "\<exists>es' c'. unregister_queue E alive es c = Some (es', c') \<and> rules_inv c' \<and>
    map e_path es' = map e_path es \<and> map e_handler es' = map e_handler es \<and> (\<forall>e\<in>set es'. entry_idle alive e)"
  using assms
proof (induction es arbitrary: c)
  case (Cons e es)
  show ?case
  proof (cases "alive (e_handler e) \<and> e_added e")
    case True
    obtain c1 where c1: "snd (removeSignalMemberHandler E (e_path e) (e_handler e) c) = Some c1" "rules_inv c1"
      using rules_inv_removeSignalMemberHandler[OF Cons.prems] by blast
    then show ?thesis using Cons.IH[OF c1(2)] True by (auto simp: entry_idle_def)
  next
    case False
    then show ?thesis using Cons.IH[OF Cons.prems] by (auto simp: entry_idle_def)
  qed
qed simp

section \<open>The loop that erases\<close>

lemma erase_loop_filter:
  "distinct (map e_path es) \<Longrightarrow> erase_loop q es = filter (\<lambda>e. e_path e \<noteq> q) es"
proof (induction q es rule: erase_loop.induct)
  case (2 q e es)
  show ?case
  proof (cases "e_path e = q")
    case True
    have "e_path e \<notin> e_path ` set es" using 2(3) by simp
    then have n: "\<forall>x\<in>set es. e_path x \<noteq> q" using True by (metis image_eqI)
    have "erase_loop q xs = xs" if "\<forall>x\<in>set xs. e_path x \<noteq> q" for xs
      using that by (induction xs) auto
    then show ?thesis using True n by (cases es) auto
  next
    case False
    then show ?thesis using 2 by simp
  qed
qed simp

section \<open>The invariant\<close>

definition pinv :: "(handler \<Rightarrow> bool) \<Rightarrow> proxy \<Rightarrow> bool" where
  "pinv alive p \<longleftrightarrow> rules_inv (connection p) \<and> distinct (map e_path (signalMemberHandlerQueue p)) \<and>
     (\<forall>e\<in>set (signalMemberHandlerQueue p).
        if availabilityStatus p = AVAILABLE then entry_registered alive (connection p) e else entry_idle alive e)"

text \<open>There is room for the rules of the whole queue in the 32-bit counts of the connection.\<close>

definition room :: "proxy \<Rightarrow> bool" where
  "room p \<longleftrightarrow> length (signalHandlers (connection p)) + length (signalMemberHandlerQueue p) < 2 ^ 32 - 1"

lemma produce_frame [simp]:
  "connection (produce es p) = connection p" "availabilityStatus (produce es p) = availabilityStatus p"
  "signalMemberHandlerQueue (produce es p) = signalMemberHandlerQueue p" "listeners (produce es p) = listeners p"
  "everAvailable (produce es p) = everAvailable p" "pushed (produce es p) = pushed p"
  "selectiveBroadcastHandlers (produce es p) = selectiveBroadcastHandlers p"
  "signalStateHandlers (produce es p) = signalStateHandlers p" "effects (produce es p) = effects p @ es"
  by (simp_all add: produce_def)

lemma push_function_frame [simp]:
  "connection (push_function f p) = connection p" "availabilityStatus (push_function f p) = availabilityStatus p"
  "signalMemberHandlerQueue (push_function f p) = signalMemberHandlerQueue p" "listeners (push_function f p) = listeners p"
  "everAvailable (push_function f p) = everAvailable p" "pushed (push_function f p) = pushed p @ [f]"
  "selectiveBroadcastHandlers (push_function f p) = selectiveBroadcastHandlers p"
  "signalStateHandlers (push_function f p) = signalStateHandlers p" "effects (push_function f p) = effects p"
  by (simp_all add: push_function_def)

text \<open>Operations that leave the connection, the status and the queue alone keep the invariant.\<close>

lemma pinv_frame:
  "pinv alive p \<Longrightarrow> connection p' = connection p \<Longrightarrow> availabilityStatus p' = availabilityStatus p \<Longrightarrow>
    signalMemberHandlerQueue p' = signalMemberHandlerQueue p \<Longrightarrow> pinv alive p'"
  by (simp add: pinv_def)

lemma run_function_frame [simp]:
  "connection (run_function p) = connection p" "availabilityStatus (run_function p) = availabilityStatus p"
  "signalMemberHandlerQueue (run_function p) = signalMemberHandlerQueue p"
  by (simp_all add: run_function_def notifySpecificListener_def handleSignalStates_def Let_def
      split: list.splits pushed_function.splits)

text \<open>The other users of the connection may register handlers, and remove any but those of the queue.\<close>

lemma pinv_connection:
  assumes "pinv alive p" "rules_inv c"
    and "\<And>e. e \<in> set (signalMemberHandlerQueue p) \<Longrightarrow> e_handler e \<in> handlers_at (connection p) (e_path e) \<Longrightarrow>
      e_handler e \<in> handlers_at c (e_path e)"
  shows "pinv alive (p\<lparr>connection := c\<rparr>)"
  using assms by (auto simp: pinv_def entry_registered_def)

lemma pinv_die: "pinv alive p \<Longrightarrow> (\<And>h. alive' h \<Longrightarrow> alive h) \<Longrightarrow> pinv alive' p"
  by (auto simp: pinv_def entry_registered_def entry_idle_def)

lemma pinv_available:
  assumes i: "rules_inv (connection p)" "distinct (map e_path (signalMemberHandlerQueue p))"
    and q: "\<forall>e\<in>set (signalMemberHandlerQueue p). entry_idle alive e"
    and r: "room p" "availabilityStatus p = AVAILABLE"
  shows "pinv alive (onAvailable E alive p)"
proof -
  obtain queue calls c where rq: "register_queue E alive (signalMemberHandlerQueue p) (connection p) = (queue, calls, c)"
    by (metis prod_cases3)
  have l: "length (signalHandlers (connection p)) + length (signalMemberHandlerQueue p) < 2 ^ 32"
    using r(1) by (simp add: room_def)
  have "rules_inv c" using register_queue_conn[OF rq i(1) l] by simp
  moreover have "distinct (map e_path queue)" using register_queue_shape[OF rq] i(2) by simp
  moreover have "\<forall>e\<in>set queue. entry_registered alive c e" by (rule register_queue_registers[OF rq i(1) l q])
  ultimately show ?thesis using r(2) by (simp add: onAvailable_def rq pinv_def Let_def)
qed

lemma onUnavailable_pinv:
  assumes i: "rules_inv (connection p)" "distinct (map e_path (signalMemberHandlerQueue p))"
    and s: "availabilityStatus p \<noteq> AVAILABLE"
  shows "\<exists>p'. onUnavailable E alive p = Some p' \<and> pinv alive p' \<and>
    map e_handler (signalMemberHandlerQueue p') = map e_handler (signalMemberHandlerQueue p)"
proof -
  obtain es' c' where "unregister_queue E alive (signalMemberHandlerQueue p) (connection p) = Some (es', c')"
    "rules_inv c'" "map e_path es' = map e_path (signalMemberHandlerQueue p)"
    "map e_handler es' = map e_handler (signalMemberHandlerQueue p)" "\<forall>e\<in>set es'. entry_idle alive e"
    using unregister_queue_total[OF i(1)] by blast
  then show ?thesis using i(2) s by (simp add: onUnavailable_def pinv_def)
qed

lemma pinv_status:
  assumes "pinv alive p" "room p"
  shows "\<exists>p'. onDBusServiceInstanceStatus E alive st p = Some p' \<and> pinv alive p' \<and> availabilityStatus p' = st"
proof (cases "st = availabilityStatus p")
  case True
  then show ?thesis using assms(1) by (simp add: onDBusServiceInstanceStatus_def pinv_def)
next
  case False
  define p2 where "p2 = produce (map (\<lambda>l. NotifyListener (fst l) st) (listeners p))
      (produce [WakeAvailabilityThread] (p\<lparr>availabilityStatus := st\<rparr>))"
  have f: "connection p2 = connection p" "signalMemberHandlerQueue p2 = signalMemberHandlerQueue p"
    "availabilityStatus p2 = st"
    by (simp_all add: p2_def)
  have i: "rules_inv (connection p2)" "distinct (map e_path (signalMemberHandlerQueue p2))"
    using assms(1) by (simp_all add: f pinv_def)
  have st: "onDBusServiceInstanceStatus E alive st p =
      map_option (produce [WakeOneBlocked]) (if st = AVAILABLE then Some (onAvailable E alive p2) else onUnavailable E alive p2)"
    using False by (simp add: onDBusServiceInstanceStatus_def p2_def Let_def)
  show ?thesis
  proof (cases "st = AVAILABLE")
    case True
    have q: "\<forall>e\<in>set (signalMemberHandlerQueue p2). entry_idle alive e"
      using assms(1) False True by (auto simp: pinv_def f)
    have "room p2" using assms(2) by (simp add: room_def f)
    then have "pinv alive (onAvailable E alive p2)"
      using pinv_available[OF i q] f(3) True by simp
    moreover have "availabilityStatus (onAvailable E alive p2) = st"
      using f(3) by (simp add: onAvailable_def Let_def split_beta)
    ultimately show ?thesis using st True by (simp add: pinv_def)
  next
    case n: False
    then obtain p3 where "onUnavailable E alive p2 = Some p3" "pinv alive p3"
      using onUnavailable_pinv[OF i] f(3) by auto
    moreover from this(1) have "availabilityStatus p3 = st"
      using f(3) by (auto simp: onUnavailable_def)
    ultimately show ?thesis using st n by (simp add: pinv_def)
  qed
qed

lemma pinv_add:
  assumes "pinv alive p" "room p"
  shows "pinv alive (snd (proxy_addSignalMemberHandler E alive q g h j p))"
proof -
  let ?c = "snd (addSignalMemberHandler E alive q h j (connection p))"
  have c: "rules_inv ?c"
    using rules_inv_addSignalMemberHandler[of "connection p"] assms by (simp add: pinv_def room_def)
  have pc: "pinv alive (p\<lparr>connection := ?c\<rparr>)"
    by (rule pinv_connection[OF assms(1) c]) (simp add: handlers_at_add)
  have q: "pinv alive (addSignalMemberHandlerToQueue e p')"
    if "pinv alive p'" "if availabilityStatus p' = AVAILABLE then entry_registered alive (connection p') e else entry_idle alive e"
    for e p'
    using that by (auto simp: pinv_def addSignalMemberHandlerToQueue_def list_ex_iff)
  show ?thesis
  proof (cases "g = []")
    case True
    then show ?thesis using pc by (simp add: proxy_addSignalMemberHandler_def split_beta)
  next
    case False
    show ?thesis
    proof (cases "availabilityStatus p = AVAILABLE")
      case True
      then show ?thesis using False pc
        by (auto simp: proxy_addSignalMemberHandler_def addSignalMemberHandler_register_def split_beta Let_def
            entry_registered_def handlers_at_add intro!: q)
    next
      case na: False
      then show ?thesis using False assms(1)
        by (auto simp: proxy_addSignalMemberHandler_def addSignalMemberHandler_register_def Let_def entry_idle_def intro!: q)
    qed
  qed
qed

lemma pinv_remove:
  assumes "pinv alive p"
  shows "\<exists>r p'. proxy_removeSignalMemberHandler E q h p = (r, Some p') \<and> pinv alive p' \<and>
    signalMemberHandlerQueue p' = filter (\<lambda>e. e_path e \<noteq> q) (signalMemberHandlerQueue p)"
proof -
  let ?p1 = "p\<lparr>signalMemberHandlerQueue := erase_loop q (signalMemberHandlerQueue p)\<rparr>"
  have e: "erase_loop q (signalMemberHandlerQueue p) = filter (\<lambda>e. e_path e \<noteq> q) (signalMemberHandlerQueue p)"
    using assms by (intro erase_loop_filter) (simp add: pinv_def)
  have p1: "pinv alive ?p1" using assms by (auto simp: pinv_def e distinct_map_filter)
  show ?thesis
  proof (cases h)
    case None
    then show ?thesis using p1 e by (auto simp: proxy_removeSignalMemberHandler_def)
  next
    case (Some x)
    have r: "rules_inv (connection p)" using assms by (simp add: pinv_def)
    obtain c where c: "snd (removeSignalMemberHandler E q x (connection p)) = Some c" "rules_inv c"
      using rules_inv_removeSignalMemberHandler[OF r] by blast
    have "pinv alive (?p1\<lparr>connection := c\<rparr>)"
      by (rule pinv_connection[OF p1 c(2)]) (auto simp: e handlers_at_remove[OF r c(1)])
    then show ?thesis using Some c(1) e
      by (cases "removeSignalMemberHandler E q x (connection p)") (simp add: proxy_removeSignalMemberHandler_def)
  qed
qed

section \<open>What a change of the status does\<close>

lemma register_queue_handlers:
  "register_queue E alive es c = (es', calls, c') \<Longrightarrow> h \<in> handlers_at c' q \<Longrightarrow>
    h \<in> handlers_at c q \<or> (\<exists>e\<in>set es. e_path e = q \<and> e_handler e = h)"
proof (induction es arbitrary: c es' calls)
  case (Cons e es)
  let ?c1 = "snd (addSignalMemberHandler E alive (e_path e) (e_handler e) (e_justAddFilter e) c)"
  show ?case
  proof (cases "e_added e")
    case True
    then obtain es1 where "register_queue E alive es c = (es1, calls, c')"
      using Cons.prems(1) by (auto simp: Let_def split: prod.splits)
    from Cons.IH[OF this Cons.prems(2)] show ?thesis by auto
  next
    case False
    then obtain es1 calls1 where "register_queue E alive es ?c1 = (es1, calls1, c')"
      using Cons.prems(1) by (auto simp: Let_def split: prod.splits)
    from Cons.IH[OF this Cons.prems(2)] show ?thesis
      by (auto simp: handlers_at_add split: if_splits)
  qed
qed simp

lemma unregister_queue_handlers:
  "unregister_queue E alive es c = Some (es', c') \<Longrightarrow> rules_inv c \<Longrightarrow>
    handlers_at c' q = handlers_at c q - e_handler ` {e \<in> set es. e_path e = q \<and> alive (e_handler e) \<and> e_added e}"
proof (induction es arbitrary: c es')
  case (Cons e es)
  show ?case
  proof (cases "alive (e_handler e) \<and> e_added e")
    case True
    then obtain c1 where c1: "snd (removeSignalMemberHandler E (e_path e) (e_handler e) c) = Some c1"
      using Cons.prems(1) by (auto split: option.splits)
    have i: "rules_inv c1" using rules_inv_removeSignalMemberHandler[OF Cons.prems(2), of E "e_path e" "e_handler e"] c1 by simp
    obtain es1 where "unregister_queue E alive es c1 = Some (es1, c')"
      using Cons.prems(1) True c1 by auto
    from Cons.IH[OF this i] show ?thesis
      using True by (auto simp: handlers_at_remove[OF Cons.prems(2) c1])
  next
    case False
    then obtain es1 where "unregister_queue E alive es c = Some (es1, c')"
      using Cons.prems(1) by (auto split: if_splits)
    from Cons.IH[OF this Cons.prems(2)] show ?thesis using False by auto
  qed
qed simp

lemma register_queue_calls:
  "fst (snd (register_queue E alive es c)) =
     map (\<lambda>e. CallForSignal (e_getMethod e) (e_handler e)) (filter (\<lambda>e. \<not> e_added e) es)"
  by (induction es arbitrary: c) (simp_all add: Let_def split_beta)

lemma onAvailable_frame:
  "availabilityStatus (onAvailable E alive p) = availabilityStatus p"
  "selectiveBroadcastHandlers (onAvailable E alive p) = selectiveBroadcastHandlers p"
  "listeners (onAvailable E alive p) = listeners p"
  "signalMemberHandlerQueue (onAvailable E alive p) =
     fst (register_queue E alive (signalMemberHandlerQueue p) (connection p))"
  "connection (onAvailable E alive p) =
     snd (snd (register_queue E alive (signalMemberHandlerQueue p) (connection p)))"
  "effects (onAvailable E alive p) = effects p @
     map (\<lambda>e. CallForSignal (e_getMethod e) (e_handler e)) (filter (\<lambda>e. \<not> e_added e) (signalMemberHandlerQueue p))
     @ map sendPendingSelectiveSubscription (selectiveBroadcastHandlers p)"
  by (simp_all add: onAvailable_def Let_def split_beta register_queue_calls)

text \<open>The status without its effects: what the queue and the connection become.\<close>

lemma status_cases:
  assumes "onDBusServiceInstanceStatus E alive st p = Some p'"
  obtains (same) "st = availabilityStatus p" "p' = produce [WakeOneBlocked] p"
  | (available) "st \<noteq> availabilityStatus p" "st = AVAILABLE" "availabilityStatus p' = AVAILABLE"
      "signalMemberHandlerQueue p' = fst (register_queue E alive (signalMemberHandlerQueue p) (connection p))"
      "connection p' = snd (snd (register_queue E alive (signalMemberHandlerQueue p) (connection p)))"
      "selectiveBroadcastHandlers p' = selectiveBroadcastHandlers p" "listeners p' = listeners p"
      "effects p' = effects p @ WakeAvailabilityThread # map (\<lambda>l. NotifyListener (fst l) st) (listeners p)
         @ map (\<lambda>e. CallForSignal (e_getMethod e) (e_handler e)) (filter (\<lambda>e. \<not> e_added e) (signalMemberHandlerQueue p))
         @ map sendPendingSelectiveSubscription (selectiveBroadcastHandlers p) @ [WakeOneBlocked]"
  | (unavailable) "st \<noteq> availabilityStatus p" "st \<noteq> AVAILABLE" "availabilityStatus p' = st"
      "unregister_queue E alive (signalMemberHandlerQueue p) (connection p) =
         Some (signalMemberHandlerQueue p', connection p')"
      "selectiveBroadcastHandlers p' = selectiveBroadcastHandlers p" "listeners p' = listeners p"
      "effects p' = effects p @ WakeAvailabilityThread # map (\<lambda>l. NotifyListener (fst l) st) (listeners p) @ [WakeOneBlocked]"
proof (cases "st = availabilityStatus p")
  case True
  then show thesis using assms same by (simp add: onDBusServiceInstanceStatus_def)
next
  case False
  show thesis
  proof (cases "st = AVAILABLE")
    case True
    then show thesis using False assms
      by (intro available) (auto simp: onDBusServiceInstanceStatus_def onAvailable_frame Let_def)
  next
    case n: False
    then show thesis using False assms
      by (intro unavailable) (auto simp: onDBusServiceInstanceStatus_def onUnavailable_def Let_def)
  qed
qed

text \<open>When the service goes, the connection loses the handlers of the queue that are alive, and no other.\<close>

lemma status_unavailable_handlers:
  assumes "pinv alive p" "onDBusServiceInstanceStatus E alive st p = Some p'"
    and "availabilityStatus p = AVAILABLE" "st \<noteq> AVAILABLE"
  shows "handlers_at (connection p') q =
    handlers_at (connection p) q - e_handler ` {e \<in> set (signalMemberHandlerQueue p). e_path e = q \<and> alive (e_handler e)}"
  using assms(2)
proof (cases rule: status_cases)
  case unavailable
  have "{e \<in> set (signalMemberHandlerQueue p). e_path e = q \<and> alive (e_handler e) \<and> e_added e} =
      {e \<in> set (signalMemberHandlerQueue p). e_path e = q \<and> alive (e_handler e)}"
    using assms(1,3) by (auto simp: pinv_def entry_registered_def)
  then show ?thesis using unregister_queue_handlers[OF unavailable(4)] assms(1) by (simp add: pinv_def)
qed (use assms(3,4) in simp_all)

lemma status_handlers:
  assumes "onDBusServiceInstanceStatus E alive st p = Some p'" "rules_inv (connection p)"
    and "h \<in> handlers_at (connection p') q"
  shows "h \<in> handlers_at (connection p) q \<or> (\<exists>e\<in>set (signalMemberHandlerQueue p). e_path e = q \<and> e_handler e = h)"
  using assms(1)
proof (cases rule: status_cases)
  case available
  then show ?thesis
    using register_queue_handlers[of E alive "signalMemberHandlerQueue p" "connection p"] assms(3)
    by (cases "register_queue E alive (signalMemberHandlerQueue p) (connection p)") auto
next
  case unavailable
  then show ?thesis using unregister_queue_handlers[OF unavailable(4) assms(2), of q] assms(3) by simp
qed (use assms(3) in simp)

lemma status_queue:
  assumes "onDBusServiceInstanceStatus E alive st p = Some p'" "rules_inv (connection p)"
  shows "map e_path (signalMemberHandlerQueue p') = map e_path (signalMemberHandlerQueue p)"
    "map e_handler (signalMemberHandlerQueue p') = map e_handler (signalMemberHandlerQueue p)"
proof -
  have "map e_path (signalMemberHandlerQueue p') = map e_path (signalMemberHandlerQueue p) \<and>
      map e_handler (signalMemberHandlerQueue p') = map e_handler (signalMemberHandlerQueue p)"
    using assms(1)
  proof (cases rule: status_cases)
    case available
    then show ?thesis
      using register_queue_shape[of E alive "signalMemberHandlerQueue p" "connection p"]
      by (cases "register_queue E alive (signalMemberHandlerQueue p) (connection p)") auto
  next
    case unavailable
    then show ?thesis
      using unregister_queue_total[OF assms(2), of E alive "signalMemberHandlerQueue p"] by auto
  qed simp
  then show "map e_path (signalMemberHandlerQueue p') = map e_path (signalMemberHandlerQueue p)"
    "map e_handler (signalMemberHandlerQueue p') = map e_handler (signalMemberHandlerQueue p)" by auto
qed

end
