(* ===== verification/Proxy_Props.thy ===== *)
theory Proxy_Props
  imports Proxy_Correct
begin

text \<open>
  What a proxy guarantees over every sequence of its operations, and the sequences in which a
  subscription is lost.
\<close>

section \<open>Runs\<close>

text \<open>
  The operations of a proxy in any order. \<open>alive\<close> is the set of handlers whose events still
  exist; it only shrinks. \<open>elsewhere\<close> is what the other users of the connection do: they have
  handlers of their own. A selective event has a handler of its own too.
\<close>

inductive proxy_run :: "libdbus \<Rightarrow> (handler \<Rightarrow> bool) \<Rightarrow> proxy \<Rightarrow> bool" for E where
  start: "rules_inv c \<Longrightarrow> proxy_run E alive (new_proxy path interface c)"
| status: "proxy_run E alive p \<Longrightarrow> room p \<Longrightarrow> onDBusServiceInstanceStatus E alive st p = Some p' \<Longrightarrow> proxy_run E alive p'"
| add: "proxy_run E alive p \<Longrightarrow> room p \<Longrightarrow> proxy_run E alive (snd (proxy_addSignalMemberHandler E alive q g h j p))"
| remove: "proxy_run E alive p \<Longrightarrow> proxy_removeSignalMemberHandler E q h p = (r, Some p') \<Longrightarrow> proxy_run E alive p'"
| die: "proxy_run E alive p \<Longrightarrow> (\<And>h. alive' h \<Longrightarrow> alive h) \<Longrightarrow> proxy_run E alive' p"
| elsewhere: "proxy_run E alive p \<Longrightarrow> rules_inv c \<Longrightarrow>
    (\<And>e. e \<in> set (signalMemberHandlerQueue p) \<Longrightarrow> e_handler e \<in> handlers_at (connection p) (e_path e) \<Longrightarrow>
      e_handler e \<in> handlers_at c (e_path e)) \<Longrightarrow> proxy_run E alive (p\<lparr>connection := c\<rparr>)"
| added: "proxy_run E alive p \<Longrightarrow> proxy_run E alive (onListenerAdded l s p)"
| removed: "proxy_run E alive p \<Longrightarrow> proxy_run E alive (onListenerRemoved s p)"
| main_loop: "proxy_run E alive p \<Longrightarrow> proxy_run E alive (run_function p)"
| state_added: "proxy_run E alive p \<Longrightarrow> proxy_run E alive (addSignalStateHandler h t p)"
| state_removed: "proxy_run E alive p \<Longrightarrow> proxy_run E alive (removeSignalStateHandler h t a p)"
| subscribe: "proxy_run E alive p \<Longrightarrow> room p \<Longrightarrow> proxy_run E alive (subscribeForSelectiveBroadcast E alive q h t p)"
| answer: "proxy_run E alive p \<Longrightarrow> h \<notin> e_handler ` set (signalMemberHandlerQueue p) \<Longrightarrow>
    selective_reply E alive ok q h t p = Some p' \<Longrightarrow> proxy_run E alive p'"
| pending_answer: "proxy_run E alive p \<Longrightarrow> h \<notin> e_handler ` set (signalMemberHandlerQueue p) \<Longrightarrow>
    pending_selective_reply E alive success ok m sig h t p = Some p' \<Longrightarrow> proxy_run E alive p'"
| unsubscribe: "proxy_run E alive p \<Longrightarrow> h \<notin> e_handler ` set (signalMemberHandlerQueue p) \<Longrightarrow>
    unsubscribeFromSelectiveBroadcast E n q h p = Some p' \<Longrightarrow> proxy_run E alive p'"

lemma pinv_new: "rules_inv c \<Longrightarrow> pinv alive (new_proxy path interface c)"
  by (simp add: pinv_def new_proxy_def)

lemma pinv_drop:
  assumes "pinv alive p" "h \<notin> e_handler ` set (signalMemberHandlerQueue p)"
    and "snd (removeSignalMemberHandler E q h (connection p)) = Some c"
  shows "pinv alive (p\<lparr>connection := c\<rparr>)"
proof (rule pinv_connection[OF assms(1)])
  have r: "rules_inv (connection p)" using assms(1) by (simp add: pinv_def)
  show "rules_inv c" using rules_inv_removeSignalMemberHandler[OF r, of E q h] assms(3) by simp
  show "e_handler e \<in> handlers_at c (e_path e)"
    if "e \<in> set (signalMemberHandlerQueue p)" "e_handler e \<in> handlers_at (connection p) (e_path e)" for e
    using that assms(2) by (auto simp: handlers_at_remove[OF r assms(3)])
qed

lemma pinv_refuse:
  assumes "pinv alive p" "h \<notin> e_handler ` set (signalMemberHandlerQueue p)" "refuse E alive q h t p = Some p'"
  shows "pinv alive p'"
proof (cases "alive h")
  case True
  then obtain c where "snd (removeSignalMemberHandler E q h (connection p)) = Some c"
    "p' = produce [OnSpecificError h SubscriptionRefused t] (p\<lparr>connection := c\<rparr>)"
    using assms(3) by (auto simp: refuse_def)
  then show ?thesis using pinv_frame[OF pinv_drop[OF assms(1,2)], of E q _ p'] by simp
next
  case False
  then show ?thesis using assms(1,3) by (simp add: refuse_def)
qed

lemma confirm_frame: "pinv alive p \<Longrightarrow> pinv alive (confirm alive' h t p)"
  by (rule pinv_frame[of alive p]) (simp_all add: confirm_def)

lemma pinv_subscribe:
  assumes "pinv alive p" "room p"
  shows "pinv alive (subscribeForSelectiveBroadcast E alive q h t p)"
proof (cases "alive h")
  case True
  let ?c = "snd (addSignalMemberHandler E alive q h True (connection p))"
  have "rules_inv ?c"
    using rules_inv_addSignalMemberHandler[of "connection p"] assms by (simp add: pinv_def room_def)
  then have "pinv alive (p\<lparr>connection := ?c\<rparr>)"
    by (rule pinv_connection[OF assms(1)]) (simp add: handlers_at_add)
  then show ?thesis
    by (rule pinv_frame)
       (cases q, simp_all add: True subscribeForSelectiveBroadcast_def insertSelectiveSubscription_def Let_def split_beta)+
next
  case False
  then show ?thesis using assms(1) by (cases q) (simp add: subscribeForSelectiveBroadcast_def)
qed

lemma pinv_unsubscribe:
  assumes "pinv alive p" "h \<notin> e_handler ` set (signalMemberHandlerQueue p)"
    and "unsubscribeFromSelectiveBroadcast E n q h p = Some p'"
  shows "pinv alive p'"
proof -
  obtain c where c: "snd (removeSignalMemberHandler E q h (connection p)) = Some c"
    "connection p' = c" "availabilityStatus p' = availabilityStatus p"
    "signalMemberHandlerQueue p' = signalMemberHandlerQueue p"
    using assms(3)
    by (cases "removeSignalMemberHandler E q h (connection p)")
       (auto simp: unsubscribeFromSelectiveBroadcast_def Let_def)
  show ?thesis by (rule pinv_frame[OF pinv_drop[OF assms(1,2) c(1)]]) (use c in simp_all)
qed

lemma run_pinv: "proxy_run E alive p \<Longrightarrow> pinv alive p"
proof (induction rule: proxy_run.induct)
  case (status alive p st p')
  then show ?case using pinv_status[of alive p E st] by auto
next
  case (remove alive p q h r p')
  then show ?case using pinv_remove[of alive p E q h] by auto
next
  case (die alive p alive')
  then show ?case by (blast intro: pinv_die)
next
  case (elsewhere alive p c)
  then show ?case by (blast intro: pinv_connection)
next
  case (state_removed alive p h t a)
  show ?case by (rule pinv_frame[OF state_removed(2)])
      (simp_all add: removeSignalStateHandler_def Let_def split: option.splits)
next
  case (answer alive p h ok q t p')
  then show ?case by (cases ok) (auto simp: selective_reply_def intro: confirm_frame pinv_refuse)
next
  case (pending_answer alive p h success ok m sig t p')
  then show ?case by (auto simp: pending_selective_reply_def split: if_splits intro: confirm_frame pinv_refuse)
next
  case (unsubscribe alive p h n q p')
  then show ?case by (blast intro: pinv_unsubscribe)
qed (auto simp: pinv_new pinv_add pinv_subscribe onListenerAdded_def onListenerRemoved_def addSignalStateHandler_def Let_def
    elim!: pinv_frame)

section \<open>Properties\<close>


definition sample_path :: handler_path where
  "sample_path = (''/p'', ''i'', ''changed'', ''s'')"

definition sample_proxy :: proxy where
  "sample_proxy = snd (proxy_addSignalMemberHandler all_ok (\<lambda>_. True) sample_path ''get'' 7 False (new_proxy ''/p'' ''i'' new_conn))"

lemma sample_simps:
  "availabilityStatus sample_proxy = UNKNOWN" "connection sample_proxy = new_conn"
  "signalMemberHandlerQueue sample_proxy =
     [\<lparr>e_path = sample_path, e_getMethod = ''get'', e_handler = 7, e_justAddFilter = False, e_added = False\<rparr>]"
  "room sample_proxy"
  by (simp_all add: sample_proxy_def proxy_addSignalMemberHandler_def addSignalMemberHandler_register_def
      addSignalMemberHandlerToQueue_def new_proxy_def room_def new_conn_def Let_def)

lemma sample_run: "proxy_run all_ok (\<lambda>_. True) sample_proxy"
  unfolding sample_proxy_def
  by (intro add start rules_inv_new) (simp add: room_def new_proxy_def new_conn_def)

definition sample_up :: proxy where
  "sample_up = the (onDBusServiceInstanceStatus all_ok (\<lambda>_. True) AVAILABLE sample_proxy)"

lemma sample_up_simps:
  "onDBusServiceInstanceStatus all_ok (\<lambda>_. True) AVAILABLE sample_proxy = Some sample_up"
  "availabilityStatus sample_up = AVAILABLE" "map e_handler (signalMemberHandlerQueue sample_up) = [7]"
  "map e_path (signalMemberHandlerQueue sample_up) = [sample_path]" "length (signalHandlers (connection sample_up)) = 1"
  "snd (notifyDBusSignalHandlers (\<lambda>_. True) sample_path (connection sample_up)) = [7]"
  by (simp add: sample_up_def onDBusServiceInstanceStatus_def sample_simps(1)) code_simp+

lemma sample_up_run: "proxy_run all_ok (\<lambda>_. True) sample_up"
  by (rule status[OF sample_run sample_simps(4) sample_up_simps(1)])


text \<open>Removing a signal handler takes exactly the entries of its path from the queue, although the
  loop skips the entry after one it erases, and never fails.\<close>

theorem removal_skips_nothing:
  assumes "proxy_run E alive p"
  shows "\<exists>r p'. proxy_removeSignalMemberHandler E q h p = (r, Some p') \<and>
    signalMemberHandlerQueue p' = filter (\<lambda>e. e_path e \<noteq> q) (signalMemberHandlerQueue p)"
  using pinv_remove[OF run_pinv[OF assms]] by blast

theorem removal_skips_nothing_witness:
  "\<exists>r p'. proxy_removeSignalMemberHandler all_ok sample_path (Some 7) sample_proxy = (r, Some p') \<and>
    signalMemberHandlerQueue p' = []"
  using removal_skips_nothing[OF sample_run, of sample_path "Some 7"] by (simp add: sample_simps)

text \<open>The loop is not correct by itself: two neighbouring entries of one path would leave one behind.\<close>

lemma erase_loop_skips:
  "e_path a = q \<Longrightarrow> e_path b = q \<Longrightarrow> erase_loop q [a, b] = [b]"
  by simp

definition notifications :: "effect list \<Rightarrow> effect list" where
  "notifications = filter (\<lambda>e. \<exists>s st. e = NotifyListener s st)"

lemma notifications_simps:
  "notifications [] = []" "notifications (xs @ ys) = notifications xs @ notifications ys"
  "notifications (WakeAvailabilityThread # xs) = notifications xs" "notifications (WakeOneBlocked # xs) = notifications xs"
  "notifications (map (\<lambda>l. NotifyListener (fst l) st) ls) = map (\<lambda>l. NotifyListener (fst l) st) ls"
  "notifications (map (\<lambda>e. CallForSignal (e_getMethod e) (e_handler e)) es) = []"
  "notifications (map sendPendingSelectiveSubscription ss) = []"
  by (auto simp: notifications_def filter_map filter_empty_conv comp_def sendPendingSelectiveSubscription_def
      split: prod.splits)

text \<open>A change of the status is told to every listener of the status exactly once, in the order of
  their subscription; a status that is not a change is told to none.\<close>

theorem status_told_once:
  assumes "onDBusServiceInstanceStatus E alive st p = Some p'"
  shows "notifications (effects p') = notifications (effects p) @
      (if st = availabilityStatus p then [] else map (\<lambda>l. NotifyListener (fst l) st) (listeners p)) \<and>
    listeners p' = listeners p"
  using assms by (cases rule: status_cases) (simp_all add: notifications_simps)

theorem status_told_once_witness:
  "\<exists>p'. onDBusServiceInstanceStatus all_ok (\<lambda>_. True) NOT_AVAILABLE
      (notifySpecificListener 40 4 (notifySpecificListener 30 3 (new_proxy ''/p'' ''i'' new_conn))) = Some p' \<and>
    notifications (effects p') = [NotifyListener 3 NOT_AVAILABLE, NotifyListener 4 NOT_AVAILABLE]"
proof -
  let ?p = "notifySpecificListener 40 4 (notifySpecificListener 30 3 (new_proxy ''/p'' ''i'' new_conn))"
  have "pinv (\<lambda>_. True) ?p"
    by (rule pinv_frame[OF pinv_new[OF rules_inv_new]]) (simp_all add: notifySpecificListener_def new_proxy_def)
  then obtain p' where p': "onDBusServiceInstanceStatus all_ok (\<lambda>_. True) NOT_AVAILABLE ?p = Some p'"
    using pinv_status[of "\<lambda>_. True" ?p all_ok NOT_AVAILABLE]
    by (auto simp: room_def notifySpecificListener_def new_proxy_def new_conn_def)
  moreover have "notifications (effects p') = [NotifyListener 3 NOT_AVAILABLE, NotifyListener 4 NOT_AVAILABLE]"
    using status_told_once[OF p'] by (simp add: notifySpecificListener_def new_proxy_def notifications_def)
  ultimately show ?thesis by blast
qed

text \<open>A handler that is added while the service becomes available is lost: the first section of
  \<open>addSignalMemberHandler\<close> finds the service unavailable, the status handler runs before the second section
  has queued the entry, and the entry then stays unregistered, however often the availability is
  confirmed.\<close>

theorem added_during_status_change_is_lost:
  assumes "proxy_run E alive p" "availabilityStatus p \<noteq> AVAILABLE"
    and "q \<notin> e_path ` set (signalMemberHandlerQueue p)" "h \<notin> handlers_at (connection p) q"
    and "addSignalMemberHandler_register E alive q g h j p = (entry, p1)"
    and "onDBusServiceInstanceStatus E alive AVAILABLE p1 = Some p2"
    and "onDBusServiceInstanceStatus E alive AVAILABLE (addSignalMemberHandlerToQueue entry p2) = Some p3"
  shows "availabilityStatus p3 = AVAILABLE \<and> entry \<in> set (signalMemberHandlerQueue p3) \<and> e_handler entry = h \<and>
    \<not> e_added entry \<and> h \<notin> handlers_at (connection p3) q"
proof -
  have i: "pinv alive p" by (rule run_pinv[OF assms(1)])
  have r: "rules_inv (connection p)" using i by (simp add: pinv_def)
  have p1: "p1 = p" and e: "e_path entry = q" "e_handler entry = h" "\<not> e_added entry"
    using assms(2,5) by (auto simp: addSignalMemberHandler_register_def Let_def)
  have q: "e_path ` set (signalMemberHandlerQueue p2) = e_path ` set (signalMemberHandlerQueue p)"
    using status_queue(1)[OF assms(6)[unfolded p1] r] by (metis list.set_map)
  have "h \<notin> handlers_at (connection p2) q"
    using status_handlers[OF assms(6)[unfolded p1] r, of h q] assms(3,4) by fastforce
  moreover have s2: "availabilityStatus p2 = AVAILABLE"
    using assms(6) by (cases rule: status_cases) auto
  moreover have p3: "p3 = produce [WakeOneBlocked] (addSignalMemberHandlerToQueue entry p2)"
    using assms(7) s2 by (auto simp: onDBusServiceInstanceStatus_def addSignalMemberHandlerToQueue_def)
  moreover have "\<forall>x\<in>set (signalMemberHandlerQueue p2). e_path x \<noteq> q"
    using q assms(3) by (metis image_eqI)
  ultimately show ?thesis using e by (auto simp: addSignalMemberHandlerToQueue_def list_ex_iff)
qed

theorem added_during_status_change_is_lost_witness:
  "\<exists>p2 p3 entry. onDBusServiceInstanceStatus all_ok (\<lambda>_. True) AVAILABLE (new_proxy ''/p'' ''i'' new_conn) = Some p2 \<and>
    onDBusServiceInstanceStatus all_ok (\<lambda>_. True) AVAILABLE (addSignalMemberHandlerToQueue entry p2) = Some p3 \<and>
    entry \<in> set (signalMemberHandlerQueue p3) \<and> e_handler entry = 7 \<and> 7 \<notin> handlers_at (connection p3) sample_path"
proof -
  let ?p = "new_proxy ''/p'' ''i'' new_conn"
  have run: "proxy_run all_ok (\<lambda>_. True) ?p" by (rule start[OF rules_inv_new])
  obtain entry where a: "addSignalMemberHandler_register all_ok (\<lambda>_. True) sample_path ''get'' 7 False ?p = (entry, ?p)"
    by (simp add: addSignalMemberHandler_register_def new_proxy_def Let_def)
  obtain p2 where p2: "onDBusServiceInstanceStatus all_ok (\<lambda>_. True) AVAILABLE ?p = Some p2" "availabilityStatus p2 = AVAILABLE"
    using pinv_status[OF run_pinv[OF run], of all_ok AVAILABLE] by (auto simp: room_def new_proxy_def new_conn_def)
  have p3: "onDBusServiceInstanceStatus all_ok (\<lambda>_. True) AVAILABLE (addSignalMemberHandlerToQueue entry p2) =
      Some (produce [WakeOneBlocked] (addSignalMemberHandlerToQueue entry p2))"
    using p2(2) by (simp add: onDBusServiceInstanceStatus_def addSignalMemberHandlerToQueue_def)
  have "availabilityStatus ?p \<noteq> AVAILABLE" "sample_path \<notin> e_path ` set (signalMemberHandlerQueue ?p)"
    "7 \<notin> handlers_at (connection ?p) sample_path"
    by (simp_all add: new_proxy_def new_conn_def handlers_at_def)
  from added_during_status_change_is_lost[OF run this a p2(1) p3] show ?thesis
    using p2(1) p3 by blast
qed

text \<open>A refused selective subscription takes the signal handler of the event from the connection,
  also when the event has accepted subscriptions; when the service comes back and accepts the repeated
  subscription, the listener is told of success but receives no signal.\<close>

theorem refused_event_stays_deaf:
  assumes "proxy_run E alive p" "alive h" "h \<notin> e_handler ` set (signalMemberHandlerQueue p)"
    and "selective_reply E alive False q h t p = Some p1"
    and "onDBusServiceInstanceStatus E alive NOT_AVAILABLE p1 = Some p2"
    and "onDBusServiceInstanceStatus E alive AVAILABLE p2 = Some p3"
    and "pending_selective_reply E alive True True m sig h t p3 = Some p4"
  shows "last (effects p4) = OnSpecificError h ErrorSuccess t \<and> h \<notin> handlers_at (connection p4) q"
proof -
  have i: "pinv alive p" by (rule run_pinv[OF assms(1)])
  have r: "rules_inv (connection p)" using i by (simp add: pinv_def)
  obtain c where c: "snd (removeSignalMemberHandler E q h (connection p)) = Some c"
    "connection p1 = c" "signalMemberHandlerQueue p1 = signalMemberHandlerQueue p"
    using assms(2,4) by (auto simp: selective_reply_def refuse_def)
  have n1: "h \<notin> handlers_at (connection p1) q" using handlers_at_remove[OF r c(1)] c(2) by simp
  have r1: "rules_inv (connection p1)" using rules_inv_removeSignalMemberHandler[OF r, of E q h] c(1,2) by simp
  have q1: "h \<notin> set (map e_handler (signalMemberHandlerQueue p1))" using c(3) assms(3) by simp
  have n2: "h \<notin> handlers_at (connection p2) q" using status_handlers[OF assms(5) r1, of h q] n1 q1 by auto
  have r2: "rules_inv (connection p2)"
    using assms(5) by (cases rule: status_cases)
      (use unregister_queue_total[OF r1, of E alive "signalMemberHandlerQueue p1"] r1 in auto)
  have q2: "h \<notin> set (map e_handler (signalMemberHandlerQueue p2))"
    using status_queue(2)[OF assms(5) r1] q1 by simp
  have "h \<notin> handlers_at (connection p3) q" using status_handlers[OF assms(6) r2, of h q] n2 q2 by auto
  then show ?thesis using assms(2,7) by (auto simp: pending_selective_reply_def confirm_def)
qed

theorem refused_event_stays_deaf_witness:
  "\<exists>p1 p2 p3 p4.
    selective_reply all_ok (\<lambda>_. True) False sample_path 9 2
      (subscribeForSelectiveBroadcast all_ok (\<lambda>_. True) sample_path 9 2 (new_proxy ''/p'' ''i'' new_conn)) = Some p1 \<and>
    onDBusServiceInstanceStatus all_ok (\<lambda>_. True) NOT_AVAILABLE p1 = Some p2 \<and>
    onDBusServiceInstanceStatus all_ok (\<lambda>_. True) AVAILABLE p2 = Some p3 \<and>
    pending_selective_reply all_ok (\<lambda>_. True) True True ''changed'' ''s'' 9 2 p3 = Some p4 \<and>
    last (effects p4) = OnSpecificError 9 ErrorSuccess 2 \<and> 9 \<notin> handlers_at (connection p4) sample_path"
proof -
  let ?n = "new_proxy ''/p'' ''i'' new_conn"
  let ?p = "subscribeForSelectiveBroadcast all_ok (\<lambda>_. True) sample_path 9 2 ?n"
  have run: "proxy_run all_ok (\<lambda>_. True) ?p"
    by (intro subscribe start rules_inv_new) (simp add: room_def new_proxy_def new_conn_def)
  have "Option.bind (selective_reply all_ok (\<lambda>_. True) False sample_path 9 2 ?p) (\<lambda>p1.
      Option.bind (onDBusServiceInstanceStatus all_ok (\<lambda>_. True) NOT_AVAILABLE p1) (\<lambda>p2.
      Option.bind (onDBusServiceInstanceStatus all_ok (\<lambda>_. True) AVAILABLE p2) (\<lambda>p3.
      pending_selective_reply all_ok (\<lambda>_. True) True True ''changed'' ''s'' 9 2 p3))) \<noteq> None"
    by code_simp
  then obtain p1 p2 p3 p4 where
    p: "selective_reply all_ok (\<lambda>_. True) False sample_path 9 2 ?p = Some p1"
      "onDBusServiceInstanceStatus all_ok (\<lambda>_. True) NOT_AVAILABLE p1 = Some p2"
      "onDBusServiceInstanceStatus all_ok (\<lambda>_. True) AVAILABLE p2 = Some p3"
      "pending_selective_reply all_ok (\<lambda>_. True) True True ''changed'' ''s'' 9 2 p3 = Some p4"
    by (auto simp: bind_eq_Some_conv)
  have "signalMemberHandlerQueue ?p = []" by code_simp
  then show ?thesis using refused_event_stays_deaf[OF run _ _ p] p by auto
qed

end
