(* ===== verification/Avail_Thread.thy ===== *)
theory Avail_Thread
  imports Prelude "HOL-Library.Multiset"
begin

text \<open>
  \<open>DBusProxy::isAvailableAsync\<close> and the thread that answers it,
  \<open>DBusProxy::availabilityTimeoutThreadHandler\<close> (\<open>DBusProxy.cpp\<close>).

  A request is its deadline and a number that stands for its callback and promise. Time points
  are in nanoseconds. Every definition is one critical section, or what the thread does between
  two points where it can be interrupted: the thread holds \<open>availabilityTimeoutThreadMutex_\<close>
  except while it waits and while a callback runs. Reading the smallest deadline and the wait
  are one step, because a caller that adds a request in between must wait for that mutex before
  it can notify.
\<close>

type_synonym request = "int \<times> nat"

text \<open>The status given to a callback, \<open>AVAILABLE\<close> or \<open>NOT_AVAILABLE\<close>, is a truth value.\<close>

type_synonym callback_data = "nat \<times> bool \<times> int"

text \<open>
  The thread: not created, at the head of its loop, in \<open>wait_for\<close> (with \<open>minTimeout\<close> and the time
  at which the wait ends), calling the callbacks, inside one, or returned.
\<close>

datatype thread_phase = Not_Created | Head | Waiting int int | Calling | In_Callback | Returned

record avail =
  timeouts :: "request list"
  callbacks :: "callback_data list"
  phase :: thread_phase
  joinable :: bool
  joiners :: "request list"
  relocking :: "request list"
  cancelAvailabilityTimeoutThread :: bool
  crashed :: bool
  requested :: "nat list"
  answered :: "(nat \<times> bool \<times> int) list"

definition new_avail :: avail where
  "new_avail = \<lparr>timeouts = [], callbacks = [], phase = Not_Created, joinable = False, joiners = [], relocking = [],
     cancelAvailabilityTimeoutThread = False, crashed = False, requested = [], answered = []\<rparr>"

section \<open>Time\<close>

text \<open>\<open>duration_cast\<close> truncates towards zero, the cast to \<open>int\<close> keeps 32 bits.\<close>

definition milliseconds :: "int \<Rightarrow> int" where
  "milliseconds d = (if d \<ge> 0 then d div 1000000 else - ((- d) div 1000000))"

definition to_int :: "int \<Rightarrow> int" where
  "to_int i = sint (word_of_int i :: 32 word)"

definition INT_MAX :: int where
  "INT_MAX = 2147483647"

definition remaining_timeout :: "int \<Rightarrow> int \<Rightarrow> int" where
  "remaining_timeout time_point now =
     (let remainingTimeout = to_int (milliseconds (time_point - now))
      in if remainingTimeout < 0 then 0 else remainingTimeout)"

section \<open>The callers\<close>

text \<open>
  Creating the thread. The assignment destroys the previous thread object, which ends the
  program when that object is still joinable.
\<close>

definition create_thread :: "avail \<Rightarrow> avail" where
  "create_thread s = s\<lparr>phase := Head, joinable := True, crashed := crashed s \<or> joinable s\<rparr>"

definition add_timeout :: "request \<Rightarrow> avail \<Rightarrow> avail" where
  "add_timeout r s = s\<lparr>timeouts := timeouts s @ [r]\<rparr>"

text \<open>
  \<open>isAvailableAsync\<close> on a thread of the application, up to the release of \<open>timeoutsMutex_\<close>. A second
  thread that enters \<open>join\<close> of one thread object is undefined behaviour.
\<close>

definition isAvailableAsync :: "request \<Rightarrow> avail \<Rightarrow> avail" where
  "isAvailableAsync r s0 =
     (let s = s0\<lparr>requested := requested s0 @ [snd r]\<rparr>
      in if timeouts s = [] then
           (if phase s \<noteq> Not_Created \<and> joinable s
            then s\<lparr>joiners := joiners s @ [r], crashed := crashed s \<or> joiners s \<noteq> []\<rparr>
            else create_thread (add_timeout r s))
         else add_timeout r s)"

text \<open>The thread has returned, \<open>join\<close> returns.\<close>

definition join_returns :: "request \<Rightarrow> avail \<Rightarrow> avail" where
  "join_returns r s = s\<lparr>joiners := remove1 r (joiners s), relocking := relocking s @ [r], joinable := False\<rparr>"

text \<open>The caller has \<open>timeoutsMutex_\<close> again.\<close>

definition relock :: "request \<Rightarrow> avail \<Rightarrow> avail" where
  "relock r s = create_thread (add_timeout r (s\<lparr>relocking := remove1 r (relocking s)\<rparr>))"

text \<open>\<open>isAvailableAsync\<close> called by a callback, on the thread itself.\<close>

definition isAvailableAsync_in_callback :: "request \<Rightarrow> avail \<Rightarrow> avail" where
  "isAvailableAsync_in_callback r s = add_timeout r (s\<lparr>requested := requested s @ [snd r]\<rparr>)"

section \<open>The thread\<close>

fun min_deadline :: "request \<Rightarrow> request list \<Rightarrow> int" where
  "min_deadline r [] = fst r"
| "min_deadline r (r' # rs) = min_deadline (if fst r' < fst r then r' else r) rs"

definition begin_wait :: "int \<Rightarrow> avail \<Rightarrow> avail" where
  "begin_wait now s =
     (if cancelAvailabilityTimeoutThread s then s\<lparr>phase := Returned\<rparr>
      else (case timeouts s of
              [] \<Rightarrow> s\<lparr>phase := Waiting 0 (now + INT_MAX * 1000000)\<rparr>
            | r # rs \<Rightarrow>
                (let minTimeout = min_deadline r rs;
                     timeout = to_int (milliseconds (minTimeout - now))
                 in s\<lparr>phase := Waiting minTimeout (now + timeout * 1000000)\<rparr>)))"

text \<open>
  The wait has ended by the timeout. The clock and the availability are read anew for every
  request: \<open>obs i\<close> are the values at the request number \<open>i\<close>.
\<close>

fun collect_expired :: "(nat \<Rightarrow> int \<times> bool) \<Rightarrow> int \<Rightarrow> nat \<Rightarrow> request list \<Rightarrow> request list \<times> callback_data list" where
  "collect_expired obs minTimeout i [] = ([], [])"
| "collect_expired obs minTimeout i ((deadline, n) # rs) =
     (let (now, available) = obs i;
          (rest, cs) = collect_expired obs minTimeout (Suc i) rs
      in if now > deadline then (rest, (n, available, 0) # cs)
         else if available then (rest, (n, True, minTimeout) # cs)
         else ((deadline, n) # rest, cs))"

text \<open>The wait has ended by a notification, or for no reason.\<close>

fun collect_available :: "(nat \<Rightarrow> bool) \<Rightarrow> int \<Rightarrow> nat \<Rightarrow> request list \<Rightarrow> request list \<times> callback_data list" where
  "collect_available obs minTimeout i [] = ([], [])"
| "collect_available obs minTimeout i ((deadline, n) # rs) =
     (let (rest, cs) = collect_available obs minTimeout (Suc i) rs
      in if obs i then (rest, (n, True, minTimeout) # cs) else ((deadline, n) # rest, cs))"

definition wake_timeout :: "(nat \<Rightarrow> int \<times> bool) \<Rightarrow> int \<Rightarrow> avail \<Rightarrow> avail" where
  "wake_timeout obs minTimeout s =
     (let (rest, cs) = collect_expired obs minTimeout 0 (timeouts s)
      in s\<lparr>timeouts := rest, callbacks := callbacks s @ cs, phase := Calling\<rparr>)"

definition wake_notified :: "(nat \<Rightarrow> bool) \<Rightarrow> int \<Rightarrow> avail \<Rightarrow> avail" where
  "wake_notified obs minTimeout s =
     (let (rest, cs) = collect_available obs minTimeout 0 (timeouts s)
      in s\<lparr>timeouts := rest, callbacks := callbacks s @ cs, phase := Calling\<rparr>)"

text \<open>One iteration over the callbacks: the promise and the callback get the answer; then the entry is erased.\<close>

definition callback_begin :: "int \<Rightarrow> callback_data \<Rightarrow> avail \<Rightarrow> avail" where
  "callback_begin now c s =
     (case c of (n, available, time_point) \<Rightarrow>
        s\<lparr>answered := answered s @ [(n, available, remaining_timeout time_point now)], phase := In_Callback\<rparr>)"

definition callback_end :: "avail \<Rightarrow> avail" where
  "callback_end s = s\<lparr>callbacks := tl (callbacks s), phase := Calling\<rparr>"

text \<open>The end of the loop body, and the test of the loop.\<close>

definition finish_check :: "avail \<Rightarrow> avail" where
  "finish_check s = (if timeouts s = [] then s\<lparr>phase := Returned\<rparr> else s\<lparr>phase := Head\<rparr>)"

text \<open>
  What the thread does next when nobody notifies it: \<open>now\<close> is the clock, \<open>obs\<close> the values it reads
  while it goes through the requests. \<open>None\<close> when it is blocked or has returned.
\<close>

definition thread_step :: "int \<Rightarrow> (nat \<Rightarrow> int \<times> bool) \<Rightarrow> avail \<Rightarrow> avail option" where
  "thread_step now obs s =
     (case phase s of
        Not_Created \<Rightarrow> None
      | Returned \<Rightarrow> None
      | Head \<Rightarrow> Some (begin_wait now s)
      | Waiting minTimeout due \<Rightarrow> if due \<le> now then Some (wake_timeout obs minTimeout s) else None
      | Calling \<Rightarrow> (case callbacks s of [] \<Rightarrow> Some (finish_check s) | c # cs \<Rightarrow> Some (callback_begin now c s))
      | In_Callback \<Rightarrow> Some (callback_end s))"

text \<open>\<open>notify_all\<close> of \<open>availabilityTimeoutCondition_\<close>: it reaches the thread only while it waits.\<close>

definition notify :: "(nat \<Rightarrow> bool) \<Rightarrow> avail \<Rightarrow> avail" where
  "notify obs s = (case phase s of Waiting minTimeout due \<Rightarrow> wake_notified obs minTimeout s | _ \<Rightarrow> s)"

section \<open>Steps\<close>

text \<open>
  All interleavings. With \<open>serial\<close>, the application does not call \<open>isAvailableAsync\<close> on two threads at
  the same time.
\<close>

inductive avail_run :: "bool \<Rightarrow> avail \<Rightarrow> bool" for serial where
  initial: "avail_run serial new_avail"
| request: "avail_run serial s \<Longrightarrow> (serial \<Longrightarrow> joiners s = [] \<and> relocking s = []) \<Longrightarrow> avail_run serial (isAvailableAsync r s)"
| joined: "avail_run serial s \<Longrightarrow> r \<in> set (joiners s) \<Longrightarrow> phase s = Returned \<Longrightarrow> avail_run serial (join_returns r s)"
| relocked: "avail_run serial s \<Longrightarrow> r \<in> set (relocking s) \<Longrightarrow> avail_run serial (relock r s)"
| nested: "avail_run serial s \<Longrightarrow> phase s = In_Callback \<Longrightarrow> avail_run serial (isAvailableAsync_in_callback r s)"
| thread: "avail_run serial s \<Longrightarrow> thread_step now obs s = Some s' \<Longrightarrow> avail_run serial s'"
| notified: "avail_run serial s \<Longrightarrow> avail_run serial (notify obs' s)"
| destroyed: "avail_run serial s \<Longrightarrow> avail_run serial (s\<lparr>cancelAvailabilityTimeoutThread := True\<rparr>)"

end
