(* ===== verification/Avail_Thread_Correct.thy ===== *)
theory Avail_Thread_Correct
  imports Avail_Thread
begin

text \<open>
  Every request of the availability is answered exactly once, by a thread that exists as long as
  requests are pending, if the application does not call \<open>isAvailableAsync\<close> on two threads at
  once; what happens when it does; when the answer comes.
\<close>

section \<open>Requests are neither lost nor answered twice\<close>

definition to_answer :: "avail \<Rightarrow> callback_data list" where
  "to_answer s = (if phase s = In_Callback then tl (callbacks s) else callbacks s)"

definition accounted :: "avail \<Rightarrow> bool" where
  "accounted s \<longleftrightarrow> mset (requested s) = mset (map snd (timeouts s)) + mset (map fst (to_answer s)) +
     mset (map fst (answered s)) + mset (map snd (joiners s)) + mset (map snd (relocking s))"

lemma collect_expired_mset:
  "collect_expired obs m i rs = (rest, cs) \<Longrightarrow> mset (map snd rest) + mset (map fst cs) = mset (map snd rs)"
proof (induction rs arbitrary: i rest cs)
  case (Cons r rs)
  then show ?case
    by (cases r; cases "obs i"; cases "collect_expired obs m (Suc i) rs")
       (fastforce simp: Let_def split: if_splits)
qed simp

lemma collect_available_mset:
  "collect_available obs m i rs = (rest, cs) \<Longrightarrow> mset (map snd rest) + mset (map fst cs) = mset (map snd rs)"
proof (induction rs arbitrary: i rest cs)
  case (Cons r rs)
  then show ?case
    by (cases r; cases "collect_available obs m (Suc i) rs")
       (fastforce simp: Let_def split: if_splits)
qed simp

definition active :: "thread_phase \<Rightarrow> bool" where
  "active ph \<longleftrightarrow> ph \<noteq> Not_Created \<and> ph \<noteq> Returned"

text \<open>Which callbacks wait in which phase.\<close>

definition calls_inv :: "avail \<Rightarrow> bool" where
  "calls_inv s \<longleftrightarrow> (callbacks s \<noteq> [] \<longrightarrow> phase s = Calling \<or> phase s = In_Callback) \<and>
     (phase s = In_Callback \<longrightarrow> callbacks s \<noteq> [])"

text \<open>What holds of the thread object when callers come one at a time.\<close>

definition thread_inv :: "avail \<Rightarrow> bool" where
  "thread_inv s \<longleftrightarrow> \<not> crashed s \<and> length (joiners s) + length (relocking s) \<le> 1 \<and>
     (phase s = Not_Created \<longrightarrow> timeouts s = [] \<and> joiners s = [] \<and> relocking s = []) \<and>
     (relocking s \<noteq> [] \<longrightarrow> phase s = Returned) \<and>
     (joinable s \<longleftrightarrow> phase s \<noteq> Not_Created \<and> relocking s = []) \<and>
     (phase s = Returned \<longrightarrow> cancelAvailabilityTimeoutThread s \<or> timeouts s = [])"

definition avail_inv :: "avail \<Rightarrow> bool" where
  "avail_inv s \<longleftrightarrow> calls_inv s \<and> thread_inv s \<and> accounted s"

lemma calls_inv_step: "calls_inv s \<Longrightarrow> thread_step now obs s = Some s' \<Longrightarrow> calls_inv s'"
  by (auto simp: calls_inv_def thread_step_def begin_wait_def wake_timeout_def finish_check_def callback_begin_def
      callback_end_def Let_def split: thread_phase.splits list.splits if_splits prod.splits)

lemma thread_inv_step: "thread_inv s \<Longrightarrow> thread_step now obs s = Some s' \<Longrightarrow> thread_inv s'"
  by (auto simp: thread_inv_def thread_step_def begin_wait_def wake_timeout_def finish_check_def callback_begin_def
      callback_end_def Let_def split: thread_phase.splits list.splits if_splits prod.splits)

lemma accounted_wake_timeout:
  assumes "accounted s" "phase s \<noteq> In_Callback"
  shows "accounted (wake_timeout obs m s)"
proof (cases "collect_expired obs m 0 (timeouts s)")
  case (Pair rest cs)
  then show ?thesis using assms collect_expired_mset[OF Pair]
    by (simp add: accounted_def to_answer_def wake_timeout_def)
qed

lemma accounted_wake_notified:
  assumes "accounted s" "phase s \<noteq> In_Callback"
  shows "accounted (wake_notified obs m s)"
proof (cases "collect_available obs m 0 (timeouts s)")
  case (Pair rest cs)
  then show ?thesis using assms collect_available_mset[OF Pair]
    by (simp add: accounted_def to_answer_def wake_notified_def)
qed

lemma accounted_step:
  assumes "accounted s" "thread_step now obs s = Some s'"
  shows "accounted s'"
proof (cases "phase s")
  case (Waiting m due)
  then show ?thesis using assms accounted_wake_timeout[OF assms(1)]
    by (auto simp: thread_step_def split: if_splits)
next
  case Calling
  then show ?thesis using assms
    by (cases "callbacks s")
       (auto simp: thread_step_def accounted_def to_answer_def finish_check_def callback_begin_def split: prod.splits)
next
  case Head
  then have "phase s' \<noteq> In_Callback" "timeouts s' = timeouts s" "callbacks s' = callbacks s" "answered s' = answered s"
    "joiners s' = joiners s" "relocking s' = relocking s" "requested s' = requested s"
    using assms(2) by (auto simp: thread_step_def begin_wait_def Let_def split: if_splits list.splits)
  then show ?thesis using assms(1) Head by (simp add: accounted_def to_answer_def)
qed (use assms in \<open>auto simp: thread_step_def accounted_def to_answer_def callback_end_def\<close>)

lemma avail_inv_request:
  assumes "avail_inv s" "joiners s = []" "relocking s = []"
  shows "avail_inv (isAvailableAsync r s)"
proof (cases "timeouts s = [] \<and> \<not> (phase s \<noteq> Not_Created \<and> joinable s)")
  case True
  then have "phase s = Not_Created" using assms by (auto simp: avail_inv_def thread_inv_def)
  then show ?thesis using True assms
    by (auto simp: avail_inv_def calls_inv_def thread_inv_def accounted_def to_answer_def isAvailableAsync_def
        create_thread_def add_timeout_def)
next
  case False
  then show ?thesis using assms
    by (auto simp: avail_inv_def calls_inv_def thread_inv_def accounted_def to_answer_def isAvailableAsync_def
        add_timeout_def Let_def)
qed

lemma avail_inv_joined:
  assumes "avail_inv s" "r \<in> set (joiners s)" "phase s = Returned"
  shows "avail_inv (join_returns r s)"
proof -
  have "joiners s = [r]" "relocking s = []"
    using assms by (cases "joiners s"; auto simp: avail_inv_def thread_inv_def)+
  then show ?thesis using assms
    by (auto simp: avail_inv_def calls_inv_def thread_inv_def accounted_def to_answer_def join_returns_def)
qed

lemma avail_inv_relocked:
  assumes "avail_inv s" "r \<in> set (relocking s)"
  shows "avail_inv (relock r s)"
proof -
  have "relocking s = [r]" "joiners s = []"
    using assms by (cases "relocking s"; auto simp: avail_inv_def thread_inv_def)+
  then show ?thesis using assms(1)
    by (auto simp: avail_inv_def calls_inv_def thread_inv_def accounted_def to_answer_def relock_def create_thread_def
        add_timeout_def)
qed

lemma avail_inv_nested: "avail_inv s \<Longrightarrow> phase s = In_Callback \<Longrightarrow> avail_inv (isAvailableAsync_in_callback r s)"
  by (auto simp: avail_inv_def calls_inv_def thread_inv_def accounted_def to_answer_def add_timeout_def
      isAvailableAsync_in_callback_def)

lemma avail_inv_notified:
  assumes "avail_inv s"
  shows "avail_inv (notify obs s)"
proof (cases "phase s")
  case (Waiting m due)
  then have "accounted (wake_notified obs m s)" using assms by (simp add: avail_inv_def accounted_wake_notified)
  moreover have "calls_inv (wake_notified obs m s)" "thread_inv (wake_notified obs m s)"
    using assms Waiting by (auto simp: avail_inv_def calls_inv_def thread_inv_def wake_notified_def split: prod.splits)
  ultimately show ?thesis using Waiting by (simp add: notify_def avail_inv_def)
qed (use assms in \<open>simp_all add: notify_def\<close>)

lemma run_avail_inv: "avail_run serial s \<Longrightarrow> serial \<Longrightarrow> avail_inv s"
proof (induction rule: avail_run.induct)
  case (thread s now obs s')
  then show ?case by (auto simp: avail_inv_def intro: calls_inv_step thread_inv_step accounted_step)
qed (auto simp: avail_inv_request avail_inv_joined avail_inv_relocked avail_inv_nested avail_inv_notified,
     auto simp: avail_inv_def calls_inv_def thread_inv_def accounted_def to_answer_def new_avail_def)

section \<open>When the answer comes\<close>

text \<open>The thread alone: at step \<open>k\<close> the clock and the values it reads are \<open>env k\<close>.\<close>

fun thread_steps :: "(nat \<Rightarrow> int \<times> (nat \<Rightarrow> int \<times> bool)) \<Rightarrow> nat \<Rightarrow> avail \<Rightarrow> avail option" where
  "thread_steps env 0 s = Some s"
| "thread_steps env (Suc k) s =
     Option.bind (thread_step (fst (env 0)) (snd (env 0)) s) (thread_steps (\<lambda>i. env (Suc i)) k)"

lemma calling_answers:
  assumes "phase s = Calling"
  shows "\<exists>s'. thread_steps env (2 * length (callbacks s)) s = Some s' \<and>
    fst ` set (callbacks s) \<subseteq> fst ` set (answered s') \<and> set (answered s) \<subseteq> set (answered s')"
  using assms
proof (induction "callbacks s" arbitrary: s env)
  case (Cons c cs)
  obtain n a t where c: "c = (n, a, t)" by (metis prod_cases3)
  let ?s1 = "callback_begin (fst (env 0)) c s"
  let ?s2 = "callback_end ?s1"
  have s2: "phase ?s2 = Calling" "callbacks ?s2 = cs" "set (answered s) \<subseteq> set (answered ?s2)" "n \<in> fst ` set (answered ?s2)"
    using Cons.hyps(2) by (auto simp: callback_begin_def callback_end_def c split: prod.splits) (metis list.sel(3))
  have "thread_step (fst (env 0)) (snd (env 0)) s = Some ?s1"
    using Cons.hyps(2) Cons.prems by (cases "callbacks s") (auto simp: thread_step_def)
  moreover have "thread_step t obs ?s1 = Some ?s2" for t obs
    by (auto simp: thread_step_def callback_begin_def c split: prod.splits)
  ultimately have two: "thread_steps env (Suc (Suc k)) s = thread_steps (\<lambda>i. env (Suc (Suc i))) k ?s2" for k
    by simp
  obtain s' where s': "thread_steps (\<lambda>i. env (Suc (Suc i))) (2 * length cs) ?s2 = Some s'"
    "fst ` set cs \<subseteq> fst ` set (answered s')" "set (answered ?s2) \<subseteq> set (answered s')"
    using Cons.hyps(1)[of ?s2 "\<lambda>i. env (Suc (Suc i))"] s2 by auto
  have len: "2 * length (callbacks s) = Suc (Suc (2 * length cs))" by (simp add: Cons.hyps(2)[symmetric])
  have "thread_steps env (2 * length (callbacks s)) s = Some s'"
    unfolding len two by (rule s'(1))
  moreover have "n \<in> fst ` set (answered s')" using s2(4) s'(3) by blast
  moreover have "set (callbacks s) = insert c (set cs)" by (simp add: Cons.hyps(2)[symmetric])
  ultimately show ?case using s'(2,3) s2(3) by (auto simp: c)
qed simp

lemma collect_expired_takes:
  "(d, n) \<in> set rs \<Longrightarrow> (\<And>i. d < fst (obs i)) \<Longrightarrow> n \<in> fst ` set (snd (collect_expired obs m i rs))"
proof (induction rs arbitrary: i)
  case (Cons r rs)
  obtain d' n' where r: "r = (d', n')" by (cases r)
  obtain now av where o: "obs i = (now, av)" by (cases "obs i")
  obtain rest cs where c: "collect_expired obs m (Suc i) rs = (rest, cs)" by (metis surj_pair)
  have "n \<in> fst ` set cs" if "(d, n) \<in> set rs" using Cons.IH[OF that Cons.prems(2), of "Suc i"] c by simp
  moreover have "d < now" using Cons.prems(2)[of i] o by simp
  ultimately show ?case using Cons.prems(1) r o c by (auto simp: Let_def)
qed simp

lemma min_deadline_le: "d \<in> fst ` set (r # rs) \<Longrightarrow> min_deadline r rs \<le> d"
proof (induction r rs arbitrary: d rule: min_deadline.induct)
  case (2 r r' rs)
  have "min_deadline (if fst r' < fst r then r' else r) rs \<le> (if fst r' < fst r then fst r' else fst r)"
    by (rule 2) (simp add: image_iff)
  moreover have "min_deadline (if fst r' < fst r then r' else r) rs \<le> d" if "d \<in> fst ` set rs"
    by (rule 2) (use that in simp)
  ultimately show ?case using "2.prems" by (auto split: if_splits)
qed simp

lemma min_deadline_mem: "min_deadline r rs \<in> fst ` set (r # rs)"
proof (induction r rs rule: min_deadline.induct)
  case (2 r r' rs)
  then show ?case by (cases "fst r' < fst r") auto
qed simp

lemma milliseconds_bounds:
  "0 \<le> x \<Longrightarrow> milliseconds x * 1000000 \<le> x \<and> x - 1000000 < milliseconds x * 1000000"
  "x < 0 \<Longrightarrow> milliseconds x * 1000000 \<le> 0"
  "\<bar>x\<bar> < 2 ^ 31 * 1000000 \<Longrightarrow> \<bar>milliseconds x\<bar> < 2 ^ 31"
  by (auto simp: milliseconds_def)

lemma to_int_id: "\<bar>i\<bar> < 2 ^ 31 \<Longrightarrow> to_int i = i"
  by (simp add: to_int_def sint_sbintrunc' signed_take_bit_int_eq_self)

text \<open>The wait ends no later than the deadline of any pending request, unless that is already over.\<close>

lemma begin_wait_due:
  assumes "timeouts s \<noteq> []" "\<not> cancelAvailabilityTimeoutThread s" "(d, n) \<in> set (timeouts s)"
    and near: "\<And>d n. (d, n) \<in> set (timeouts s) \<Longrightarrow> \<bar>d - now\<bar> < 2 ^ 31 * 1000000"
  obtains m due where "begin_wait now s = s\<lparr>phase := Waiting m due\<rparr>" "due \<le> max d now" "m \<in> fst ` set (timeouts s)"
    "now \<le> m \<Longrightarrow> m - 1000000 < due"
proof -
  obtain r rs where t: "timeouts s = r # rs" using assms(1) by (cases "timeouts s") auto
  let ?m = "min_deadline r rs"
  have m: "?m \<in> fst ` set (timeouts s)" using min_deadline_mem[of r rs] t by simp
  have "?m \<le> d" using min_deadline_le[of d r rs] assms(3) t by force
  have "\<bar>?m - now\<bar> < 2 ^ 31 * 1000000" using m near by fastforce
  then have e: "to_int (milliseconds (?m - now)) = milliseconds (?m - now)"
    by (intro to_int_id milliseconds_bounds(3))
  have "begin_wait now s = s\<lparr>phase := Waiting ?m (now + milliseconds (?m - now) * 1000000)\<rparr>"
    using assms(2) t e by (simp add: begin_wait_def Let_def)
  moreover have "now + milliseconds (?m - now) * 1000000 \<le> max d now"
    using \<open>?m \<le> d\<close> milliseconds_bounds(1,2)[of "?m - now"] by (cases "now \<le> ?m") auto
  moreover have "now \<le> ?m \<Longrightarrow> ?m - 1000000 < now + milliseconds (?m - now) * 1000000"
    using milliseconds_bounds(1)[of "?m - now"] by auto
  ultimately show thesis using m by (intro that)
qed

section \<open>Properties\<close>

text \<open>C20: as long as the application does not call \<open>isAvailableAsync\<close> on two threads at the same time, the
  thread object is never overwritten while it runs, a pending request always has a running thread (until
  the proxy is destroyed), and every request is in exactly one place: waiting, about to be answered, or
  answered once.\<close>

theorem requests_answered_once:
  assumes "avail_run True s"
  shows "\<not> crashed s \<and>
    (timeouts s \<noteq> [] \<longrightarrow> phase s \<noteq> Not_Created \<and> (phase s = Returned \<longrightarrow> cancelAvailabilityTimeoutThread s)) \<and>
    mset (requested s) = mset (map snd (timeouts s)) + mset (map fst (to_answer s)) + mset (map fst (answered s)) +
      mset (map snd (joiners s)) + mset (map snd (relocking s)) \<and>
    (distinct (requested s) \<longrightarrow> distinct (map fst (answered s)))"
proof -
  have i: "avail_inv s" by (rule run_avail_inv[OF assms]) simp
  then have m: "mset (requested s) = mset (map snd (timeouts s)) + mset (map fst (to_answer s)) + mset (map fst (answered s)) +
      mset (map snd (joiners s)) + mset (map snd (relocking s))"
    by (simp add: avail_inv_def accounted_def)
  have "distinct (map fst (answered s))" if "distinct (requested s)"
  proof -
    have "mset (requested s) = mset (map fst (answered s) @ map snd (timeouts s) @ map fst (to_answer s) @
        map snd (joiners s) @ map snd (relocking s))"
      using m by simp
    from mset_eq_imp_distinct_iff[OF this] that show ?thesis by simp
  qed
  then show ?thesis using m i by (auto simp: avail_inv_def thread_inv_def)
qed

theorem requests_answered_once_witness:
  "\<not> crashed (isAvailableAsync (5000000, 2) (isAvailableAsync (3000000, 1) new_avail))"
  using requests_answered_once[OF avail_run.request[OF avail_run.request[OF avail_run.initial]], of "(5000000, 2)" "(3000000, 1)"]
  by (simp add: isAvailableAsync_def new_avail_def create_thread_def add_timeout_def)

text \<open>Two threads that call \<open>isAvailableAsync\<close> while the thread is busy with the last callbacks end the
  program: the first joins the thread, the second finds it joined and starts a new one, and the first
  then overwrites the object of a running thread.\<close>

theorem concurrent_requests_terminate:
  "\<exists>s. avail_run False s \<and> crashed s"
proof -
  let ?obs = "\<lambda>_::nat. (9000000::int, True)"
  let ?s1 = "isAvailableAsync (3000000, 1) new_avail"
  let ?s2 = "begin_wait 0 ?s1"
  let ?s3 = "wake_timeout ?obs 3000000 ?s2"
  let ?s4 = "callback_begin 9000000 (1, True, 0) ?s3"
  let ?s5 = "isAvailableAsync (19000000, 2) ?s4"
  let ?s6 = "finish_check (callback_end ?s5)"
  let ?s7 = "join_returns (19000000, 2) ?s6"
  let ?s8 = "isAvailableAsync (19000000, 3) ?s7"
  let ?s9 = "relock (19000000, 2) ?s8"
  note d = isAvailableAsync_def new_avail_def create_thread_def add_timeout_def begin_wait_def wake_timeout_def
    callback_begin_def callback_end_def finish_check_def join_returns_def relock_def thread_step_def Let_def
  have "avail_run False ?s1" by (intro avail_run.request avail_run.initial) simp
  then have "avail_run False ?s2" by (rule avail_run.thread[of _ _ 0 ?obs]) (simp add: d)
  then have "avail_run False ?s3" by (rule avail_run.thread[of _ _ 9000000 ?obs]) (simp add: d milliseconds_def to_int_def)
  then have "avail_run False ?s4" by (rule avail_run.thread[of _ _ 9000000 ?obs]) (simp add: d milliseconds_def)
  then have "avail_run False ?s5" by (rule avail_run.request) simp
  then have "avail_run False (callback_end ?s5)" by (rule avail_run.thread[of _ _ 9000000 ?obs]) (simp add: d milliseconds_def)
  then have "avail_run False ?s6" by (rule avail_run.thread[of _ _ 9000000 ?obs]) (simp add: d milliseconds_def)
  then have "avail_run False ?s7" by (rule avail_run.joined) (simp_all add: d milliseconds_def)
  then have "avail_run False ?s8" by (rule avail_run.request) simp
  then have "avail_run False ?s9" by (rule avail_run.relocked) (simp add: d milliseconds_def)
  moreover have "crashed ?s9" by (simp add: d milliseconds_def)
  ultimately show ?thesis by blast
qed

text \<open>A request is answered after its deadline. The thread waits no longer than to the deadline, and
  once the clock has passed it, two steps for every callback answer it, whatever else is pending.\<close>

theorem expired_request_is_answered:
  assumes "phase s = Head" "\<not> cancelAvailabilityTimeoutThread s" "(d, n) \<in> set (timeouts s)"
    and "\<And>d n. (d, n) \<in> set (timeouts s) \<Longrightarrow> \<bar>d - fst (env 0)\<bar> < 2 ^ 31 * 1000000"
    and "fst (env 0) \<le> fst (env (Suc 0))" "d < fst (env (Suc 0))" "\<And>i. d < fst (snd (env (Suc 0)) i)"
  shows "\<exists>k s'. thread_steps env k s = Some s' \<and> n \<in> fst ` set (answered s')"
proof -
  have t: "timeouts s \<noteq> []" using assms(3) by auto
  obtain m due where b: "begin_wait (fst (env 0)) s = s\<lparr>phase := Waiting m due\<rparr>" "due \<le> max d (fst (env 0))"
    by (rule begin_wait_due[OF t assms(2,3,4)])
  let ?s1 = "s\<lparr>phase := Waiting m due\<rparr>"
  let ?s2 = "wake_timeout (snd (env (Suc 0))) m ?s1"
  have "thread_step (fst (env 0)) (snd (env 0)) s = Some ?s1" using assms(1) b(1) by (simp add: thread_step_def)
  moreover have "thread_step (fst (env (Suc 0))) (snd (env (Suc 0))) ?s1 = Some ?s2"
    using b(2) assms(5,6) by (auto simp: thread_step_def)
  ultimately have steps: "thread_steps env (Suc (Suc k)) s = thread_steps (\<lambda>i. env (Suc (Suc i))) k ?s2" for k by simp
  have "n \<in> fst ` set (snd (collect_expired (snd (env (Suc 0))) m 0 (timeouts s)))"
    by (rule collect_expired_takes[OF assms(3)]) (rule assms(7))
  then have p: "phase ?s2 = Calling" "n \<in> fst ` set (callbacks ?s2)"
    by (auto simp: wake_timeout_def split: prod.splits)
  obtain s' where "thread_steps (\<lambda>i. env (Suc (Suc i))) (2 * length (callbacks ?s2)) ?s2 = Some s'"
    "fst ` set (callbacks ?s2) \<subseteq> fst ` set (answered s')"
    using calling_answers[OF p(1), of "\<lambda>i. env (Suc (Suc i))"] by blast
  then show ?thesis using p(2) steps[of "2 * length (callbacks ?s2)"] by (intro exI[of _ "Suc (Suc (2 * length (callbacks ?s2)))"]) auto
qed

theorem expired_request_is_answered_witness:
  "\<exists>k s'. thread_steps (\<lambda>k. (int k * 9000000, \<lambda>_. (int k * 9000000, False))) k (isAvailableAsync (3000000, 1) new_avail) = Some s' \<and>
     1 \<in> fst ` set (answered s')"
  by (rule expired_request_is_answered[of _ 3000000])
     (auto simp: isAvailableAsync_def new_avail_def create_thread_def add_timeout_def)

text \<open>The notification of a first request is lost. The thread it starts does not wait yet when the
  request notifies it, and it looks at the availability only after it has waited: although the service is
  available from the beginning, the request is not answered before its deadline (less the millisecond
  that the rounding takes off).\<close>

theorem first_notification_is_lost:
  assumes "now \<le> d" "d - now < 2 ^ 31 * 1000000"
  shows "notify (\<lambda>_. True) (isAvailableAsync (d, n) new_avail) = isAvailableAsync (d, n) new_avail \<and>
    (\<exists>s due. thread_step now obs (isAvailableAsync (d, n) new_avail) = Some s \<and> answered s = [] \<and>
       d - 1000000 < due \<and> (\<forall>t obs. t < due \<longrightarrow> thread_step t obs s = None))"
proof -
  let ?s = "isAvailableAsync (d, n) new_avail"
  have s: "phase ?s = Head" "timeouts ?s = [(d, n)]" "\<not> cancelAvailabilityTimeoutThread ?s" "answered ?s = []"
    by (simp_all add: isAvailableAsync_def new_avail_def create_thread_def add_timeout_def)
  have near: "\<bar>d' - now\<bar> < 2 ^ 31 * 1000000" if "(d', n') \<in> set (timeouts ?s)" for d' n'
    using that s(2) assms by simp
  obtain m due where b: "begin_wait now ?s = ?s\<lparr>phase := Waiting m due\<rparr>" "m \<in> fst ` set (timeouts ?s)"
    "now \<le> m \<Longrightarrow> m - 1000000 < due"
    by (rule begin_wait_due[OF _ s(3) _ near, of d n]) (use s(2) in auto)
  have "m = d" using b(2) s(2) by simp
  then show ?thesis using b(1,3) s assms(1) by (auto simp: notify_def thread_step_def)
qed

theorem first_notification_is_lost_witness:
  "\<exists>s due. thread_step 0 (\<lambda>_. (0, True)) (isAvailableAsync (5000000000, 1) new_avail) = Some s \<and> answered s = [] \<and>
     4999000000 < due \<and> (\<forall>t obs. t < due \<longrightarrow> thread_step t obs s = None)"
  using first_notification_is_lost[of 0 5000000000 1 "\<lambda>_. (0, True)"] by simp

text \<open>The callback of an expired request is told the time that remains until the time point 0, cast to 32
  bits: from about 25 days after the start of the clock that is a large positive number.\<close>

lemma expired_remaining_wraps:
  assumes "2 ^ 31 < x" "x < 2 ^ 32" "now = x * 1000000"
  shows "remaining_timeout 0 now = 2 ^ 32 - x"
proof -
  have "milliseconds (0 - now) = - x" using assms by (simp add: milliseconds_def)
  moreover have "(- x + 2 ^ 31) mod 2 ^ 32 = - x + 2 ^ 31 + 2 ^ 32"
    using assms(1,2) by (subst mod_add_self2[symmetric], subst mod_pos_pos_trivial) auto
  then have "to_int (- x) = 2 ^ 32 - x" unfolding to_int_def int_word_sint by simp
  ultimately show ?thesis using assms(1,2) by (simp add: remaining_timeout_def)
qed

end
