(* ===== verification/Message.thy ===== *)
theory Message
  imports Address Out_Stream In_Stream
begin

text \<open>
  \<open>DBusMessage\<close> (\<open>DBusMessage.cpp\<close>), as far as the calls and the replies of this binding need
  it. A libdbus message is the term that says how it was made: the message a reply refers to
  is part of the reply. \<open>NoMessage\<close> is the null pointer. The body is the bytes that
  \<open>DBusOutputStream::flush\<close> copies into the message.

  \<open>CommonAPI::SerializableArguments\<close>, which \<open>DBusSerializableArguments\<close> is an alias of, is not
  part of the repository. Its two functions are the argument \<open>L\<close> of the definitions that
  serialise argument lists, and \<open>args_spec\<close> states what they are documented to do.
\<close>

datatype message =
    NoMessage
  | MethodCall DBusAddress string string string "byte list"
  | MethodReturn message string "byte list"
  | MethodError message string string "byte list"
  | Signal "string option" string string string string "byte list"

text \<open>The constructors are empty; a method call also has the sender that the bus fills in.\<close>

definition createMethodCall :: "DBusAddress \<Rightarrow> string \<Rightarrow> string \<Rightarrow> message" where
  "createMethodCall address method signature = MethodCall address '''' method signature []"

definition createMethodReturn :: "string \<Rightarrow> message \<Rightarrow> message" where
  "createMethodReturn signature m = MethodReturn m signature []"

definition createMethodError :: "string \<Rightarrow> string \<Rightarrow> message \<Rightarrow> message" where
  "createMethodError code signature m = MethodError m code signature []"

definition createSignal :: "string \<Rightarrow> string \<Rightarrow> string \<Rightarrow> string \<Rightarrow> message" where
  "createSignal path interface signal signature = Signal None path interface signal signature []"

fun setDestination :: "string \<Rightarrow> message \<Rightarrow> message" where
  "setDestination target (Signal d path interface signal signature b) = Signal (Some target) path interface signal signature b"
| "setDestination target m = m"

fun getSender :: "message \<Rightarrow> string" where
  "getSender (MethodCall address sender method signature b) = sender"
| "getSender m = ''''"

fun setSender :: "string \<Rightarrow> message \<Rightarrow> message" where
  "setSender sender (MethodCall address s method signature b) = MethodCall address sender method signature b"
| "setSender sender m = m"

fun getMember :: "message \<Rightarrow> string" where
  "getMember (MethodCall address sender method signature b) = method"
| "getMember (Signal d path interface signal signature b) = signal"
| "getMember m = ''''"

fun getMessageSignature :: "message \<Rightarrow> string" where
  "getMessageSignature (MethodCall address sender method signature b) = signature"
| "getMessageSignature (MethodReturn m signature b) = signature"
| "getMessageSignature (MethodError m code signature b) = signature"
| "getMessageSignature (Signal d path interface signal signature b) = signature"
| "getMessageSignature NoMessage = ''''"

fun getBody :: "message \<Rightarrow> byte list" where
  "getBody (MethodCall address sender method signature b) = b"
| "getBody (MethodReturn m signature b) = b"
| "getBody (MethodError m code signature b) = b"
| "getBody (Signal d path interface signal signature b) = b"
| "getBody NoMessage = []"

fun setBody :: "byte list \<Rightarrow> message \<Rightarrow> message" where
  "setBody b (MethodCall address sender method signature c) = MethodCall address sender method signature b"
| "setBody b (MethodReturn m signature c) = MethodReturn m signature b"
| "setBody b (MethodError m code signature c) = MethodError m code signature b"
| "setBody b (Signal d path interface signal signature c) = Signal d path interface signal signature b"
| "setBody b NoMessage = NoMessage"

fun isMethodReturnType :: "message \<Rightarrow> bool" where
  "isMethodReturnType (MethodReturn m signature b) = True"
| "isMethodReturnType m = False"

fun isErrorType :: "message \<Rightarrow> bool" where
  "isErrorType (MethodError m code signature b) = True"
| "isErrorType m = False"

fun getError :: "message \<Rightarrow> string" where
  "getError (MethodError m code signature b) = code"
| "getError m = ''''"

text \<open>A string of the wire as a C++ string.\<close>

definition as_string :: "val \<Rightarrow> string" where
  "as_string v = (case v of VString bs \<Rightarrow> map (\<lambda>b. char_of (unat b)) bs | _ \<Rightarrow> '''')"

section \<open>Lists of arguments\<close>

text \<open>
  \<open>serialize\<close> writes the arguments in their order and answers whether the stream is without
  error; \<open>deserialize\<close> reads them and answers the same.
\<close>

record args_lib =
  serialize :: "ty list \<Rightarrow> val list \<Rightarrow> ostream \<Rightarrow> bool \<times> ostream"
  deserialize :: "ty list \<Rightarrow> istream \<Rightarrow> bool \<times> val list \<times> istream"

definition args_spec :: "ext \<Rightarrow> args_lib \<Rightarrow> bool" where
  "args_spec E L \<longleftrightarrow>
     (\<forall>ts vs s. \<not> hasError (writeFields E ts vs s) \<longrightarrow> serialize L ts vs s = (True, writeFields E ts vs s)) \<and>
     (\<forall>ts s vs s'. readFields E ts s = (vs, s') \<longrightarrow> \<not> isErrorSet s' \<longrightarrow> deserialize L ts s = (True, vs, s'))"

text \<open>An instance for the examples.\<close>

definition some_args :: "ext \<Rightarrow> args_lib" where
  "some_args E =
     \<lparr>serialize = (\<lambda>ts vs s. let s' = writeFields E ts vs s in (\<not> hasError s', s')),
      deserialize = (\<lambda>ts s. case readFields E ts s of (vs, s') \<Rightarrow> (\<not> isErrorSet s', vs, s'))\<rparr>"

lemma some_args_spec: "args_spec E (some_args E)"
  by (simp add: args_spec_def some_args_def Let_def)

text \<open>
  What every caller of \<open>serialize\<close> does: nothing for an empty list of arguments, else the body
  of the message is what was written; \<open>None\<close> is the error exit.
\<close>

definition put_arguments :: "args_lib \<Rightarrow> ty list \<Rightarrow> val list \<Rightarrow> message \<Rightarrow> message option" where
  "put_arguments L ts vs m =
     (if ts = [] then Some m
      else (case serialize L ts vs new_ostream of
              (success, output) \<Rightarrow> if success then Some (setBody (flush output) m) else None))"

text \<open>And what every caller of \<open>deserialize\<close> does, into arguments with the values \<open>old\<close>.\<close>

definition get_arguments :: "args_lib \<Rightarrow> ty list \<Rightarrow> val list \<Rightarrow> message \<Rightarrow> bool \<times> val list" where
  "get_arguments L ts old m =
     (if ts = [] then (True, old)
      else (case deserialize L ts (new_istream (getBody m)) of (success, vs, s) \<Rightarrow> (success, vs)))"

end
