(* ===== verification/Method_Call.thy ===== *)
theory Method_Call
  imports Message
begin

text \<open>
  The calls of a proxy: \<open>DBusProxyHelper\<close> (\<open>DBusProxyHelper.hpp\<close>), the handler of an asynchronous
  reply (\<open>DBusProxyAsyncCallbackHandler.hpp\<close>) and the error events (\<open>DBusErrorEvent.hpp\<close>).

  The template parameters are the types \<open>ins\<close> and \<open>outs\<close> of the arguments. \<open>available\<close> is the
  answer of \<open>isAvailable\<close>, \<open>send\<close> that of \<open>DBusConnection::sendDBusMessage\<close>, and \<open>remote\<close> stands for
  \<open>sendDBusMessageWithReplyAndBlock\<close>: an error name, if one was set, and the reply.
\<close>

datatype status = SUCCESS | OUT_OF_MEMORY | NOT_AVAILABLE | CONNECTION_FAILED | REMOTE_ERROR | SERIALIZATION_ERROR

section \<open>Error events\<close>

text \<open>
  An error event has a name and the types of its arguments. \<open>plain\<close> is the specialisation without
  arguments; the general one does nothing when its list of types is empty.
\<close>

record error_event =
  errorName :: string
  plain :: bool
  errorTypes :: "ty list"

text \<open>A notification: the index of the event, and the arguments its listeners get.\<close>

type_synonym notification = "nat \<times> val list"

definition notifyErrorEventListeners :: "args_lib \<Rightarrow> message \<Rightarrow> nat \<Rightarrow> error_event \<Rightarrow> notification list" where
  "notifyErrorEventListeners L reply i e =
     (if plain e then [(i, [])]
      else if errorTypes e = [] then []
      else (case get_arguments L (errorTypes e) [] reply of
              (success, vs) \<Rightarrow> if success then [(i, vs)] else []))"

fun notifyListeners :: "args_lib \<Rightarrow> message \<Rightarrow> string \<Rightarrow> nat \<Rightarrow> error_event list \<Rightarrow> notification list" where
  "notifyListeners L reply name i [] = []"
| "notifyListeners L reply name i (e # es) =
     (if errorName e = name then notifyErrorEventListeners L reply i e else []) @ notifyListeners L reply name (Suc i) es"

section \<open>Calls without reply\<close>

definition callMethod :: "args_lib \<Rightarrow> bool \<Rightarrow> (message \<Rightarrow> bool) \<Rightarrow> ty list \<Rightarrow> val list \<Rightarrow> message \<Rightarrow> status \<times> message option" where
  "callMethod L available send ins args message =
     (if available then
        (case put_arguments L ins args message of
           None \<Rightarrow> (SERIALIZATION_ERROR, None)
         | Some m \<Rightarrow> (if send m then SUCCESS else OUT_OF_MEMORY, Some m))
      else (NOT_AVAILABLE, None))"

section \<open>Blocking calls\<close>

type_synonym remote = "message \<Rightarrow> string option \<times> message"

text \<open>
  The connection: without a message or when it is not connected, it returns the null message and
  leaves the error unset; else libdbus sends the call and waits.
\<close>

definition sendDBusMessageWithReplyAndBlock :: "bool \<Rightarrow> remote \<Rightarrow> remote" where
  "sendDBusMessageWithReplyAndBlock connected libdbus m =
     (if m = NoMessage then (None, NoMessage)
      else if \<not> connected then (None, NoMessage)
      else libdbus m)"

text \<open>The result is the status and the values of the output arguments, which had the values \<open>old\<close>.\<close>

definition callMethodWithReply_message :: "args_lib \<Rightarrow> remote \<Rightarrow> ty list \<Rightarrow> val list \<Rightarrow> ty list \<Rightarrow> val list \<Rightarrow> message \<Rightarrow>
    status \<times> val list" where
  "callMethodWithReply_message L remote ins args outs old message =
     (case put_arguments L ins args message of
        None \<Rightarrow> (SERIALIZATION_ERROR, old)
      | Some m \<Rightarrow>
          (case remote m of
             (error, reply) \<Rightarrow>
               if error \<noteq> None \<or> \<not> isMethodReturnType reply then (REMOTE_ERROR, old)
               else (case get_arguments L outs old reply of
                       (success, vs) \<Rightarrow> (if success then SUCCESS else SERIALIZATION_ERROR, vs))))"

definition callMethodWithReply :: "args_lib \<Rightarrow> bool \<Rightarrow> remote \<Rightarrow> ty list \<Rightarrow> val list \<Rightarrow> ty list \<Rightarrow> val list \<Rightarrow> message \<Rightarrow>
    status \<times> val list" where
  "callMethodWithReply L available remote ins args outs old message =
     (if available then callMethodWithReply_message L remote ins args outs old message
      else (NOT_AVAILABLE, old))"

text \<open>The variant with error events does not ask for the type of the reply.\<close>

definition callMethodWithReply_errors :: "args_lib \<Rightarrow> bool \<Rightarrow> remote \<Rightarrow> error_event list \<Rightarrow> ty list \<Rightarrow> val list \<Rightarrow> ty list \<Rightarrow>
    val list \<Rightarrow> message \<Rightarrow> status \<times> val list \<times> notification list" where
  "callMethodWithReply_errors L available remote events ins args outs old message =
     (if available then
        (case put_arguments L ins args message of
           None \<Rightarrow> (SERIALIZATION_ERROR, old, [])
         | Some m \<Rightarrow>
             (case remote m of
                (Some name, reply) \<Rightarrow> (REMOTE_ERROR, old, notifyListeners L reply name 0 events)
              | (None, reply) \<Rightarrow>
                  (case get_arguments L outs old reply of
                     (success, vs) \<Rightarrow> (if success then SUCCESS else SERIALIZATION_ERROR, vs, []))))
      else (NOT_AVAILABLE, old, []))"

section \<open>Asynchronous calls\<close>

text \<open>
  What a call hands to others: to the connection (with the timeout in milliseconds), to the queue
  of replies of the connection, or to \<open>isAvailableAsync\<close>. \<open>None\<close> is the timeout of the caller's
  \<open>CallInfo\<close>.
\<close>

datatype async_action =
    SendWithReply message "int option"
  | PushError message
  | AwaitAvailability message

text \<open>
  The future that is returned: with the status set, of the handler, or without a state. In the
  first case no handler is created, so the callback is not called.
\<close>

datatype future = Ready status | OfHandler | Invalid

definition callMethodAsync :: "args_lib \<Rightarrow> bool \<Rightarrow> bool \<Rightarrow> ty list \<Rightarrow> val list \<Rightarrow> message \<Rightarrow> future \<times> async_action list" where
  "callMethodAsync L available accepted ins args message =
     (case put_arguments L ins args message of
        None \<Rightarrow> (Ready SERIALIZATION_ERROR, [])
      | Some m \<Rightarrow>
          if available then
            (if accepted then OfHandler else Invalid, [SendWithReply m None])
          else (OfHandler, [AwaitAvailability m]))"

definition UNKNOWN_METHOD :: string where
  "UNKNOWN_METHOD = ''org.freedesktop.DBus.Error.UnknownMethod''"

text \<open>
  The callback of \<open>isAvailableAsync\<close>; \<open>handler\<close> is whether the shared pointer still holds the
  handler. The result says whether it does afterwards.
\<close>

definition onAvailability :: "bool \<Rightarrow> int \<Rightarrow> bool \<Rightarrow> message \<Rightarrow> bool \<times> async_action list" where
  "onAvailability available remaining handler message =
     (if available then
        (let newTimeout = (if remaining < 100 then 100 else remaining)
         in if handler then (False, [SendWithReply message (Some newTimeout)]) else (handler, []))
      else
        (if handler then (False, [PushError (createMethodError UNKNOWN_METHOD '''' message)]) else (handler, [])))"

text \<open>
  The reply: the status of the promise, the call of the callback (with its status and the
  arguments) if the delegate is alive, the notifications of the error events.
\<close>

definition handleDBusMessageReply :: "args_lib \<Rightarrow> bool \<Rightarrow> error_event list \<Rightarrow> ty list \<Rightarrow> val list \<Rightarrow> status \<Rightarrow> message \<Rightarrow>
    status \<times> (status \<times> val list) option \<times> notification list" where
  "handleDBusMessageReply L alive events outs args dbusMessageCallStatus message =
     (case (if dbusMessageCallStatus = SUCCESS then get_arguments L outs args message else (True, args)) of
        (success, vs) \<Rightarrow>
          (let callStatus = (if success then dbusMessageCallStatus else SERIALIZATION_ERROR);
               told = (if dbusMessageCallStatus \<noteq> SUCCESS \<and> isErrorType message \<and> alive
                       then notifyListeners L message (getError message) 0 events else [])
           in (callStatus, if alive then Some (callStatus, vs) else None, told)))"

end
