(* ===== verification/Stub_Dispatch.thy ===== *)
theory Stub_Dispatch
  imports Message
begin

text \<open>
  The dispatchers of a stub adapter (\<open>DBusStubAdapterHelper.hpp\<close>): the tables that find the
  dispatcher of a message, methods with their pending replies, attributes, and signals.

  The functions of the user's stub are arguments. A method dispatcher hands the stub the id of
  the call, the client and the arguments, in \<open>stub_call\<close>; the stub answers by \<open>sendReply\<close>, at once
  or later, on any thread.
\<close>

section \<open>Methods without reply\<close>

type_synonym stub_call = "u32 \<times> string \<times> val list"

definition dispatchMethod :: "args_lib \<Rightarrow> bool \<Rightarrow> ty list \<Rightarrow> val list \<Rightarrow> message \<Rightarrow> bool \<times> (string \<times> val list) option" where
  "dispatchMethod L isImplemented ins old m =
     (if \<not> isImplemented then (False, None)
      else (case get_arguments L ins old m of
              (success, args) \<Rightarrow> if success then (True, Some (getSender m, args)) else (False, None)))"

section \<open>Methods with reply\<close>

text \<open>
  The constant members: the types, the signature of the reply, \<open>isImplemented_\<close>. The state:
  \<open>currentCall_\<close>, \<open>pending_\<close> (a \<open>std::map\<close>) and \<open>sent\<close>, the messages that went to the connection, each
  with the call it answers.
\<close>

record method_sig =
  isImplemented :: bool
  inTypes :: "ty list"
  outTypes :: "ty list"
  replySignature :: string

record calls =
  currentCall :: u32
  pending :: "u32 \<rightharpoonup> message"
  sent :: "(u32 \<times> message) list"

definition new_calls :: calls where
  "new_calls = \<lparr>currentCall = 0, pending = Map.empty, sent = []\<rparr>"

definition handleDBusMessage :: "args_lib \<Rightarrow> method_sig \<Rightarrow> message \<Rightarrow> calls \<Rightarrow> bool \<times> stub_call option \<times> calls" where
  "handleDBusMessage L d m s =
     (case get_arguments L (inTypes d) [] m of
        (success, args) \<Rightarrow>
          if \<not> success then (False, None, s)
          else (let call = currentCall s
                in (True, Some (call, getSender m, args),
                    s\<lparr>currentCall := call + 1, pending := (pending s)(call \<mapsto> m)\<rparr>)))"

definition dispatchMethodWithReply :: "args_lib \<Rightarrow> method_sig \<Rightarrow> message \<Rightarrow> calls \<Rightarrow> bool \<times> stub_call option \<times> calls" where
  "dispatchMethodWithReply L d m s =
     (if \<not> isImplemented d then (False, None, s) else handleDBusMessage L d m s)"

text \<open>
  The first section of \<open>sendReply\<close> and \<open>sendErrorReply\<close>: the pending call becomes its reply, which
  \<open>mk\<close> makes.
\<close>

definition begin_reply :: "(message \<Rightarrow> message) \<Rightarrow> u32 \<Rightarrow> calls \<Rightarrow> bool \<times> calls" where
  "begin_reply mk call s =
     (case pending s call of
        Some m \<Rightarrow> (True, s\<lparr>pending := (pending s)(call \<mapsto> mk m)\<rparr>)
      | None \<Rightarrow> (False, s))"

text \<open>
  The second section, which is written twice in the source; \<open>send\<close> is \<open>None\<close> when the
  connection no longer exists, else the answer of \<open>sendDBusMessage\<close>.
\<close>

definition sendReplyInternal :: "args_lib \<Rightarrow> (message \<Rightarrow> bool) option \<Rightarrow> ty list \<Rightarrow> u32 \<Rightarrow> val list \<Rightarrow> calls \<Rightarrow> bool \<times> calls" where
  "sendReplyInternal L send outs call args s =
     (case pending s call of
        None \<Rightarrow> (False, s)
      | Some reply \<Rightarrow>
          (case put_arguments L outs args reply of
             None \<Rightarrow> (False, s\<lparr>pending := (pending s)(call := None)\<rparr>)
           | Some m \<Rightarrow>
               (case send of
                  None \<Rightarrow> (False, s\<lparr>pending := (pending s)(call \<mapsto> m)\<rparr>)
                | Some f \<Rightarrow> (f m, s\<lparr>pending := (pending s)(call := None), sent := sent s @ [(call, m)]\<rparr>))))"

definition sendErrorReplyInternal :: "args_lib \<Rightarrow> (message \<Rightarrow> bool) option \<Rightarrow> ty list \<Rightarrow> u32 \<Rightarrow> val list \<Rightarrow> calls \<Rightarrow> bool \<times> calls" where
  "sendErrorReplyInternal L send errs call args s =
     (case pending s call of
        None \<Rightarrow> (False, s)
      | Some reply \<Rightarrow>
          (case put_arguments L errs args reply of
             None \<Rightarrow> (False, s\<lparr>pending := (pending s)(call := None)\<rparr>)
           | Some m \<Rightarrow>
               (case send of
                  None \<Rightarrow> (False, s\<lparr>pending := (pending s)(call \<mapsto> m)\<rparr>)
                | Some f \<Rightarrow> (f m, s\<lparr>pending := (pending s)(call := None), sent := sent s @ [(call, m)]\<rparr>))))"

definition sendReply :: "args_lib \<Rightarrow> (message \<Rightarrow> bool) option \<Rightarrow> method_sig \<Rightarrow> u32 \<Rightarrow> val list \<Rightarrow> calls \<Rightarrow> bool \<times> calls" where
  "sendReply L send d call args s =
     (case begin_reply (createMethodReturn (replySignature d)) call s of
        (found, s1) \<Rightarrow> if found then sendReplyInternal L send (outTypes d) call args s1 else (False, s1))"

definition sendErrorReply :: "args_lib \<Rightarrow> (message \<Rightarrow> bool) option \<Rightarrow> u32 \<Rightarrow> string \<Rightarrow> string \<Rightarrow> ty list \<Rightarrow> val list \<Rightarrow> calls \<Rightarrow>
    bool \<times> calls" where
  "sendErrorReply L send call signature errorName errs args s =
     (case begin_reply (createMethodError errorName signature) call s of
        (found, s1) \<Rightarrow> if found then sendErrorReplyInternal L send errs call args s1 else (False, s1))"

section \<open>Methods of the adapter\<close>

text \<open>\<open>f\<close> is the function of the adapter: it gets the client and the arguments and fills in the results.\<close>

definition dispatchAdapterMethod :: "args_lib \<Rightarrow> (message \<Rightarrow> bool) option \<Rightarrow> method_sig \<Rightarrow> (string \<Rightarrow> val list \<Rightarrow> val list) \<Rightarrow>
    message \<Rightarrow> bool \<times> message option" where
  "dispatchAdapterMethod L send d f m =
     (if \<not> isImplemented d then (False, None)
      else (case get_arguments L (inTypes d) [] m of
              (success, args) \<Rightarrow>
                if \<not> success then (False, None)
                else (let results = f (getSender m) args
                      in case put_arguments L (outTypes d) results (createMethodReturn (replySignature d) m) of
                           None \<Rightarrow> (False, None)
                         | Some reply \<Rightarrow> (case send of None \<Rightarrow> (False, None) | Some g \<Rightarrow> (g reply, Some reply)))))"

section \<open>Attributes\<close>

text \<open>
  What a dispatcher does to its surroundings. The state \<open>'s\<close> of the stub is changed by
  \<open>onRemoteSet\<close> only: the result says whether the attribute has changed.
\<close>

datatype stub_effect =
    Lock | Unlock
  | Sent message
  | RemoteSet string val
  | FireChanged val
  | RemoteChanged

record 's attribute =
  attrImplemented :: bool
  attrType :: ty
  attrSignature :: string
  getStub :: "string \<Rightarrow> 's \<Rightarrow> val"
  onRemoteSet :: "string \<Rightarrow> val \<Rightarrow> 's \<Rightarrow> bool \<times> 's"

type_synonym send = "(message \<Rightarrow> bool) option"

definition sendAttributeValueReply :: "ext \<Rightarrow> send \<Rightarrow> 's attribute \<Rightarrow> message \<Rightarrow> 's \<Rightarrow> bool \<times> stub_effect list" where
  "sendAttributeValueReply E send a m st =
     (let v = getStub a (getSender m) st;
          output = writeValue E (attrType a) v new_ostream;
          reply = setBody (flush output) (createMethodReturn (attrSignature a) m)
      in case send of
           None \<Rightarrow> (False, [Lock, Unlock])
         | Some f \<Rightarrow> (f reply, [Lock, Unlock, Sent reply]))"

definition dispatchGetAttribute :: "ext \<Rightarrow> send \<Rightarrow> 's attribute \<Rightarrow> message \<Rightarrow> 's \<Rightarrow> bool \<times> stub_effect list" where
  "dispatchGetAttribute E send a m st =
     (if \<not> attrImplemented a then (False, []) else sendAttributeValueReply E send a m st)"

definition retrieveAttributeValue :: "ext \<Rightarrow> 's attribute \<Rightarrow> message \<Rightarrow> bool \<times> val" where
  "retrieveAttributeValue E a m =
     (case readValue E (attrType a) (new_istream (getBody m)) of (v, s) \<Rightarrow> (isErrorSet s, v))"

text \<open>
  The result: whether it succeeded, \<open>_hasChanged\<close>, the effects and the new state. The two functions it calls
  are virtual, and overridden for properties (theory \<open>Attribute\<close>).
\<close>

definition set_attribute_with :: "(message \<Rightarrow> bool \<times> val) \<Rightarrow> (message \<Rightarrow> 's \<Rightarrow> bool \<times> stub_effect list) \<Rightarrow> 's attribute \<Rightarrow>
    message \<Rightarrow> 's \<Rightarrow> bool \<times> bool \<times> stub_effect list \<times> 's" where
  "set_attribute_with retrieve reply a m st =
     (case retrieve m of
        (errorOccured, v) \<Rightarrow>
          if errorOccured then (False, False, [], st)
          else (case onRemoteSet a (getSender m) v st of
                  (hasChanged, st1) \<Rightarrow>
                    (case reply m st1 of
                       (ok, es) \<Rightarrow> (ok, hasChanged, RemoteSet (getSender m) v # es, st1))))"

definition setAttributeValue :: "ext \<Rightarrow> send \<Rightarrow> 's attribute \<Rightarrow> message \<Rightarrow> 's \<Rightarrow> bool \<times> bool \<times> stub_effect list \<times> 's" where
  "setAttributeValue E send a = set_attribute_with (retrieveAttributeValue E a) (sendAttributeValueReply E send a) a"

definition dispatchSetAttribute :: "ext \<Rightarrow> send \<Rightarrow> 's attribute \<Rightarrow> message \<Rightarrow> 's \<Rightarrow> bool \<times> stub_effect list \<times> 's" where
  "dispatchSetAttribute E send a m st =
     (if \<not> attrImplemented a then (False, [], st)
      else (case setAttributeValue E send a m st of
              (ok, changed, es, st1) \<Rightarrow>
                if \<not> ok then (False, es, st1)
                else (True, es @ (if changed then [RemoteChanged] else []), st1)))"

definition fireAttributeValueChanged :: "'s attribute \<Rightarrow> string \<Rightarrow> 's \<Rightarrow> stub_effect list" where
  "fireAttributeValueChanged a client st = [Lock, FireChanged (getStub a client st), Unlock]"

definition dispatchSetObservableAttribute :: "ext \<Rightarrow> send \<Rightarrow> 's attribute \<Rightarrow> message \<Rightarrow> 's \<Rightarrow>
    bool \<times> stub_effect list \<times> 's" where
  "dispatchSetObservableAttribute E send a m st =
     (if \<not> attrImplemented a then (False, [], st)
      else (case setAttributeValue E send a m st of
              (ok, changed, es, st1) \<Rightarrow>
                if \<not> ok then (False, es, st1)
                else (True, es @ (if changed then fireAttributeValueChanged a (getSender m) st1 @ [RemoteChanged] else []), st1)))"

section \<open>Signals\<close>

definition sendSignal :: "args_lib \<Rightarrow> (message \<Rightarrow> bool) \<Rightarrow> string option \<Rightarrow> DBusAddress \<Rightarrow> string \<Rightarrow> string \<Rightarrow> ty list \<Rightarrow>
    val list \<Rightarrow> bool \<times> message option" where
  "sendSignal L send target address name signature ins args =
     (let m = createSignal (getObjectPath address) (getInterface address) name signature;
          m1 = (case target of None \<Rightarrow> m | Some t \<Rightarrow> setDestination t m)
      in case put_arguments L ins args m1 of
           None \<Rightarrow> (False, None)
         | Some m2 \<Rightarrow> (send m2, Some m2))"

section \<open>The tables\<close>

text \<open>
  A stub adapter has one table for its own interface and one for each interface it inherits from,
  in this order. Dispatchers are numbered. \<open>insert\<close> keeps an entry that is there.
\<close>

type_synonym member_path = "string \<times> string"

fun findDispatcher :: "(member_path \<times> nat) list list \<Rightarrow> member_path \<Rightarrow> nat option" where
  "findDispatcher [] path = None"
| "findDispatcher (table # parents) path =
     (case map_of table path of Some d \<Rightarrow> Some d | None \<Rightarrow> findDispatcher parents path)"

definition addStubDispatcher :: "nat \<Rightarrow> member_path \<Rightarrow> nat \<Rightarrow> (member_path \<times> nat) list list \<Rightarrow> (member_path \<times> nat) list list" where
  "addStubDispatcher stub path d tables =
     (if stub < length tables then tables[stub := al_insert path d (tables ! stub)] else tables)"

definition findDispatcherAndHandle :: "(member_path \<times> nat) list list \<Rightarrow> (nat \<Rightarrow> message \<Rightarrow> bool) \<Rightarrow> message \<Rightarrow> bool" where
  "findDispatcherAndHandle tables dispatch m =
     (case findDispatcher tables (getMember m, getMessageSignature m) of
        Some d \<Rightarrow> dispatch d m
      | None \<Rightarrow> False)"

text \<open>The tables of the attributes: a getter, and a setter unless the attribute is read-only.\<close>

type_synonym attribute_table = "(string \<times> (nat \<times> nat option)) list"

fun findAttributeDispatcher :: "attribute_table list \<Rightarrow> string \<Rightarrow> (nat \<times> nat option) option" where
  "findAttributeDispatcher [] name = None"
| "findAttributeDispatcher (table # parents) name =
     (case map_of table name of Some d \<Rightarrow> Some d | None \<Rightarrow> findAttributeDispatcher parents name)"

text \<open>
  A dispatcher has results of any type \<open>'r\<close>, with \<open>refuse\<close> for the answer \<open>false\<close> without effect.
  The two strings at the beginning of the body of \<open>Get\<close> and \<open>Set\<close>; \<open>None\<close> if they cannot be read.
\<close>

definition read_names :: "ext \<Rightarrow> message \<Rightarrow> (val \<times> val) option" where
  "read_names E m =
     (case readValue E (TString False) (new_istream (getBody m)) of
        (interfaceName, s1) \<Rightarrow>
          (case readValue E (TString False) s1 of
             (attributeName, s2) \<Rightarrow> if isErrorSet s2 then None else Some (interfaceName, attributeName)))"

definition handleFreedesktopGet :: "ext \<Rightarrow> attribute_table list \<Rightarrow> 'r \<Rightarrow> (nat \<Rightarrow> message \<Rightarrow> 'r) \<Rightarrow> message \<Rightarrow> 'r" where
  "handleFreedesktopGet E tables refuse dispatch m =
     (case read_names E m of
        None \<Rightarrow> refuse
      | Some (interfaceName, attributeName) \<Rightarrow>
          (case findAttributeDispatcher tables (as_string attributeName) of
             None \<Rightarrow> refuse
           | Some (getter, setter) \<Rightarrow> dispatch getter m))"

definition handleFreedesktopSet :: "ext \<Rightarrow> attribute_table list \<Rightarrow> 'r \<Rightarrow> (nat \<Rightarrow> message \<Rightarrow> 'r) \<Rightarrow> message \<Rightarrow> 'r" where
  "handleFreedesktopSet E tables refuse dispatch m =
     (case read_names E m of
        None \<Rightarrow> refuse
      | Some (interfaceName, attributeName) \<Rightarrow>
          (case findAttributeDispatcher tables (as_string attributeName) of
             None \<Rightarrow> refuse
           | Some (getter, setter) \<Rightarrow>
               (case setter of None \<Rightarrow> refuse | Some d \<Rightarrow> dispatch d m)))"

text \<open>
  \<open>GetAll\<close>: the getters append their attributes, as D-Bus variants with one alternative, to a map the
  caller has begun. \<open>tag\<close> is the \<open>valueType_\<close> of such a variant. The tables are in the order of the
  iteration over the \<open>std::unordered_map\<close>.
\<close>

definition getter_appendGetAllReply :: "ext \<Rightarrow> byte \<Rightarrow> 's attribute \<Rightarrow> message \<Rightarrow> 's \<Rightarrow> ostream \<Rightarrow> ostream" where
  "getter_appendGetAllReply E tag a m st s =
     writeValue E (TVariant True [attrType a]) (VVariant tag (getStub a (getSender m) st)) s"

definition append_attribute :: "ext \<Rightarrow> byte \<Rightarrow> message \<Rightarrow> 's \<Rightarrow> byte list \<times> 's attribute \<Rightarrow> ostream \<Rightarrow> ostream" where
  "append_attribute E tag m st e s =
     getter_appendGetAllReply E tag (snd e) m st (writeValue E (TString False) (VString (fst e)) (align 8 s))"

fun appendGetAllReply :: "ext \<Rightarrow> byte \<Rightarrow> message \<Rightarrow> 's \<Rightarrow> (byte list \<times> 's attribute) list list \<Rightarrow> ostream \<Rightarrow> ostream" where
  "appendGetAllReply E tag m st [] s = s"
| "appendGetAllReply E tag m st (table # parents) s =
     appendGetAllReply E tag m st parents (fold (append_attribute E tag m st) table s)"

definition handleFreedesktopGetAll :: "ext \<Rightarrow> byte \<Rightarrow> (message \<Rightarrow> bool) \<Rightarrow> (byte list \<times> 's attribute) list list \<Rightarrow> message \<Rightarrow> 's \<Rightarrow>
    bool \<times> message option" where
  "handleFreedesktopGetAll E tag send tables m st =
     (case readValue E (TString False) (new_istream (getBody m)) of
        (interfaceName, s) \<Rightarrow>
          if isErrorSet s then (False, None)
          else (let out = endWriteMap (appendGetAllReply E tag m st tables (beginWriteMap new_ostream));
                    reply = setBody (flush out) (createMethodReturn ''a{sv}'' m)
                in (send reply, Some reply)))"

definition onInterfaceDBusFreedesktopPropertiesMessage :: "ext \<Rightarrow> attribute_table list \<Rightarrow> 'r \<Rightarrow> (nat \<Rightarrow> message \<Rightarrow> 'r) \<Rightarrow>
    (message \<Rightarrow> 'r) \<Rightarrow> message \<Rightarrow> 'r" where
  "onInterfaceDBusFreedesktopPropertiesMessage E tables refuse dispatch getAll m =
     (if getMember m = ''Get'' then handleFreedesktopGet E tables refuse dispatch m
      else if getMember m = ''Set'' then handleFreedesktopSet E tables refuse dispatch m
      else if getMember m = ''GetAll'' then getAll m
      else refuse)"

end
