(* ===== verification/Rpc_Correct.thy ===== *)
theory Rpc_Correct
  imports Method_Call Stub_Dispatch Read_Correct
begin

text \<open>
  A call across the two sides: what the helper of a proxy writes is what the dispatcher of the stub
  reads, and the reply takes the same way back. A method dispatcher answers every call at most once,
  whatever threads its stub uses.
\<close>

section \<open>Arguments through a message\<close>

lemma fields_refine:
  "wtFields E ts vs \<Longrightarrow> \<not> errorOccurred s \<Longrightarrow> writeFields E ts vs s = writeRaw (encFields E ts vs (plen s)) s"
  using writeFields_refines[of ts E vs s] write_refines_at by blast

lemma fields_read_back:
  assumes "list_all (readable E) ts" "wtFields E ts vs" "ahead s (encFields E ts vs (current s))"
  shows "readFields E ts s = (vs, skip (length (encFields E ts vs (current s))) s)"
  using readFields_back[OF _ assms(2,3)] assms(1) reads_back_readable by (auto simp: list_all_iff)

text \<open>The body of an argument list, and the bound on it that the 32-bit positions need.\<close>

definition body_of :: "ext \<Rightarrow> ty list \<Rightarrow> val list \<Rightarrow> byte list" where
  "body_of E ts vs = flush (writeFields E ts vs new_ostream)"

definition fits :: "ext \<Rightarrow> ty list \<Rightarrow> val list \<Rightarrow> bool" where
  "fits E ts vs \<longleftrightarrow> list_all (readable E) ts \<and> wtFields E ts vs \<and> length (body_of E ts vs) + 16 < 2 ^ 32"

lemma fits_small:
  "list_all (readable E) ts \<Longrightarrow> wtFields E ts vs \<Longrightarrow> body_of E ts vs = bs \<Longrightarrow> length bs < 1000 \<Longrightarrow> fits E ts vs"
  by (simp add: fits_def)

lemma wtFields_Nil: "wtFields E [] vs \<longleftrightarrow> vs = []"
  by (cases vs) auto

lemma put_arguments_ok:
  assumes "args_spec E L" "fits E ts vs"
  shows "put_arguments L ts vs m = Some (if ts = [] then m else setBody (body_of E ts vs) m)"
proof -
  have "\<not> hasError (writeFields E ts vs new_ostream)"
    using fields_refine[of E ts vs new_ostream] assms(2) by (simp add: fits_def hasError_def new_ostream_def)
  then show ?thesis using assms(1) by (auto simp: args_spec_def put_arguments_def body_of_def)
qed

lemma get_arguments_ok:
  assumes "args_spec E L" "fits E ts vs" "ts \<noteq> [] \<Longrightarrow> getBody m = body_of E ts vs" "ts = [] \<Longrightarrow> old = []"
  shows "get_arguments L ts old m = (True, vs)"
proof (cases "ts = []")
  case True
  then show ?thesis using assms by (simp add: get_arguments_def fits_def wtFields_Nil)
next
  case False
  let ?s = "new_istream (body_of E ts vs)"
  have w: "wtFields E ts vs" and r: "list_all (readable E) ts" using assms(2) by (simp_all add: fits_def)
  have b: "body_of E ts vs = encFields E ts vs 0"
    using fields_refine[OF w, of new_ostream] by (simp add: body_of_def flush_def new_ostream_def)
  have "ahead ?s (encFields E ts vs (current ?s))"
    using assms(2) b by (simp add: ahead_def new_istream_def fits_def)
  from fields_read_back[OF r w this]
  have "readFields E ts ?s = (vs, skip (length (encFields E ts vs (current ?s))) ?s)" .
  moreover have "\<not> isErrorSet (skip n ?s)" for n by (simp add: isErrorSet_def skip_def new_istream_def)
  ultimately have "deserialize L ts ?s = (True, vs, skip (length (encFields E ts vs (current ?s))) ?s)"
    using assms(1) unfolding args_spec_def by blast
  then show ?thesis using False assms(3) by (simp add: get_arguments_def)
qed

lemma one_read_back:
  assumes "fits E [t] [v]"
  shows "readValue E t (new_istream (body_of E [t] [v])) =
    (v, skip (length (body_of E [t] [v])) (new_istream (body_of E [t] [v])))"
proof -
  let ?s = "new_istream (body_of E [t] [v])"
  have w: "wt E t v" "readable E t" using assms by (simp_all add: fits_def)
  have "body_of E [t] [v] = enc E t v 0"
    using write_refines[OF w(1), of new_ostream] by (simp add: body_of_def flush_def new_ostream_def)
  moreover have "ahead ?s (enc E t v (current ?s))"
    using calculation assms by (simp add: ahead_def new_istream_def fits_def)
  ultimately show ?thesis using readValue_enc[OF w(2,1), of ?s] by (simp add: new_istream_def)
qed

lemma getBody_setBody [simp]: "m \<noteq> NoMessage \<Longrightarrow> getBody (setBody b m) = b"
  by (cases m) auto

lemma createMethodReturn_simps [simp]:
  "createMethodReturn sg m \<noteq> NoMessage" "isMethodReturnType (createMethodReturn sg m)"
  "isMethodReturnType (setBody b m) = isMethodReturnType m"
  by (simp_all add: createMethodReturn_def) (cases m; simp)

section \<open>Calls that reach a stub\<close>

text \<open>
  The bus fills in the sender and takes the call to the method dispatcher of the stub, in the state
  \<open>s\<close>; the stub answers at once with \<open>f\<close>. Without an answer the call of the client ends with an error.
\<close>

definition serve :: "args_lib \<Rightarrow> method_sig \<Rightarrow> (string \<Rightarrow> val list \<Rightarrow> val list) \<Rightarrow> string \<Rightarrow> calls \<Rightarrow> remote" where
  "serve L d f client s m =
     (case dispatchMethodWithReply L d (setSender client m) s of
        (handled, Some (call, sender, args), s1) \<Rightarrow>
          (case sendReply L (Some (\<lambda>_. True)) d call (f sender args) s1 of
             (ok, s2) \<Rightarrow> if ok then (None, snd (last (sent s2))) else (Some ''org.freedesktop.DBus.Error.NoReply'', NoMessage))
      | (handled, None, s1) \<Rightarrow> (Some UNKNOWN_METHOD, NoMessage))"

lemma setSender_MethodCall [simp]:
  "getSender (setSender c (setBody b (createMethodCall a n sg))) = c"
  "getSender (setSender c (createMethodCall a n sg)) = c"
  "getBody (setSender c (setBody b (createMethodCall a n sg))) = b"
  by (simp_all add: createMethodCall_def)

section \<open>Answers\<close>

text \<open>
  A dispatcher in use: calls come in one after the other, the two sections of the replies run in
  any order on any threads. \<open>n\<close> counts the calls handed to the stub.
\<close>

inductive calls_run :: "args_lib \<Rightarrow> method_sig \<Rightarrow> nat \<Rightarrow> calls \<Rightarrow> bool" for L d where
  start: "calls_run L d 0 new_calls"
| call: "calls_run L d n s \<Longrightarrow> dispatchMethodWithReply L d m s = (True, c, s') \<Longrightarrow> calls_run L d (Suc n) s'"
| refused: "calls_run L d n s \<Longrightarrow> dispatchMethodWithReply L d m s = (False, c, s') \<Longrightarrow> calls_run L d n s'"
| begin_reply: "calls_run L d n s \<Longrightarrow> begin_reply mk c s = (r, s') \<Longrightarrow> calls_run L d n s'"
| finish_reply: "calls_run L d n s \<Longrightarrow> sendReplyInternal L send outs c args s = (r, s') \<Longrightarrow> calls_run L d n s'"
| finish_error: "calls_run L d n s \<Longrightarrow> sendErrorReplyInternal L send outs c args s = (r, s') \<Longrightarrow> calls_run L d n s'"

definition dispatcher_inv :: "nat \<Rightarrow> calls \<Rightarrow> bool" where
  "dispatcher_inv n s \<longleftrightarrow> currentCall s = of_nat n \<and> (\<forall>c. pending s c \<noteq> None \<longrightarrow> unat c < n) \<and>
     (\<forall>c m. (c, m) \<in> set (sent s) \<longrightarrow> unat c < n \<and> pending s c = None) \<and> distinct (map fst (sent s))"

lemma dispatcher_inv_pending:
  assumes "dispatcher_inv n s" "pending s c = Some m"
  shows "unat c < n" "(c, x) \<notin> set (sent s)"
  using assms unfolding dispatcher_inv_def by (blast, auto)

text \<open>A pending call may be changed, dropped, or answered.\<close>

lemma dispatcher_inv_change:
  assumes "dispatcher_inv n s" "pending s c = Some m"
  shows "dispatcher_inv n (s\<lparr>pending := (pending s)(c := p)\<rparr>)"
  using assms(1) dispatcher_inv_pending[OF assms] by (auto simp: dispatcher_inv_def)

lemma dispatcher_inv_answer:
  assumes "dispatcher_inv n s" "pending s c = Some m"
  shows "dispatcher_inv n (s\<lparr>pending := (pending s)(c := None), sent := sent s @ [(c, a)]\<rparr>)"
  using assms(1) dispatcher_inv_pending[OF assms] by (auto simp: dispatcher_inv_def)

lemma dispatcher_inv_begin: "dispatcher_inv n s \<Longrightarrow> begin_reply mk c s = (r, s') \<Longrightarrow> dispatcher_inv n s'"
  by (auto simp: begin_reply_def dispatcher_inv_change split: option.splits)

lemma dispatcher_inv_finish: "dispatcher_inv n s \<Longrightarrow> sendReplyInternal L send outs c args s = (r, s') \<Longrightarrow> dispatcher_inv n s'"
  by (auto simp: sendReplyInternal_def dispatcher_inv_change dispatcher_inv_answer split: option.splits)

lemma error_reply_same: "sendErrorReplyInternal = sendReplyInternal"
  by (intro ext) (simp add: sendErrorReplyInternal_def sendReplyInternal_def)

lemma dispatcher_inv_call:
  assumes "dispatcher_inv n s" "n < 2 ^ 32"
  shows "dispatcher_inv (Suc n) (s\<lparr>currentCall := currentCall s + 1, pending := (pending s)(currentCall s \<mapsto> m)\<rparr>)"
proof -
  have u: "unat (currentCall s) = n"
    using assms by (simp add: dispatcher_inv_def unat_of_nat take_bit_nat_eq_self)
  then have "(currentCall s, x) \<notin> set (sent s)" for x using assms(1) unfolding dispatcher_inv_def by (metis less_irrefl)
  then show ?thesis using assms(1) u by (auto simp: dispatcher_inv_def less_Suc_eq)
qed

lemma calls_run_inv: "calls_run L d n s \<Longrightarrow> n \<le> 2 ^ 32 \<Longrightarrow> dispatcher_inv n s"
proof (induction rule: calls_run.induct)
  case start
  then show ?case by (simp add: dispatcher_inv_def new_calls_def)
next
  case (call n s m c s')
  then show ?case using dispatcher_inv_call[of n s m]
    by (auto simp: dispatchMethodWithReply_def handleDBusMessage_def Let_def split: if_splits prod.splits)
next
  case (refused n s m c s')
  then show ?case by (auto simp: dispatchMethodWithReply_def handleDBusMessage_def Let_def split: if_splits prod.splits)
next
  case (begin_reply n s mk c r s')
  then show ?case using dispatcher_inv_begin by blast
next
  case (finish_reply n s send outs c args r s')
  then show ?case using dispatcher_inv_finish by blast
next
  case (finish_error n s send outs c args r s')
  then show ?case using dispatcher_inv_finish[of n s L send outs c args r s'] by (simp add: error_reply_same)
qed

section \<open>Properties\<close>

text \<open>C3: a blocking call that reaches an implemented method of a stub succeeds, and its results are what
  the stub computed from the arguments the client passed, for every signature the streams can carry:
  arguments and results survive both messages.\<close>

theorem call_reaches_stub_and_back:
  assumes "args_spec E L" "isImplemented d"
    and "fits E (inTypes d) args" "fits E (outTypes d) (f client args)" "outTypes d = [] \<Longrightarrow> old = []"
  shows "callMethodWithReply L True (sendDBusMessageWithReplyAndBlock True (serve L d f client s))
      (inTypes d) args (outTypes d) old (createMethodCall address name signature) = (SUCCESS, f client args)"
proof -
  let ?c = "createMethodCall address name signature"
  let ?m = "if inTypes d = [] then ?c else setBody (body_of E (inTypes d) args) ?c"
  let ?call = "currentCall s"
  let ?r = "createMethodReturn (replySignature d) (setSender client ?m)"
  let ?reply = "if outTypes d = [] then ?r else setBody (body_of E (outTypes d) (f client args)) ?r"
  have g: "get_arguments L (inTypes d) [] (setSender client ?m) = (True, args)"
    by (rule get_arguments_ok[OF assms(1,3)]) auto
  have snd: "getSender (setSender client ?m) = client" by simp
  let ?s1 = "s\<lparr>currentCall := ?call + 1, pending := (pending s)(?call \<mapsto> setSender client ?m)\<rparr>"
  have d: "dispatchMethodWithReply L d (setSender client ?m) s = (True, Some (?call, client, args), ?s1)"
    using assms(2) g snd by (simp add: dispatchMethodWithReply_def handleDBusMessage_def Let_def)
  have p: "put_arguments L (outTypes d) (f client args) ?r = Some ?reply"
    by (rule put_arguments_ok[OF assms(1,4)])
  have "\<exists>s2. sendReply L (Some (\<lambda>_. True)) d ?call (f client args) ?s1 = (True, s2) \<and> snd (last (sent s2)) = ?reply"
    using p by (simp add: sendReply_def begin_reply_def sendReplyInternal_def)
  then have v: "serve L d f client s ?m = (None, ?reply)"
    using d by (auto simp: serve_def)
  have o: "get_arguments L (outTypes d) old ?reply = (True, f client args)"
    by (rule get_arguments_ok[OF assms(1,4)]) (use assms(5) in auto)
  have "?m \<noteq> NoMessage" by (simp add: createMethodCall_def)
  then show ?thesis
    using put_arguments_ok[OF assms(1,3), of ?c] v o
    by (simp add: callMethodWithReply_def callMethodWithReply_message_def sendDBusMessageWithReplyAndBlock_def)
qed

definition adder :: method_sig where
  "adder = \<lparr>isImplemented = True, inTypes = [TUInt8, TUInt8], outTypes = [TUInt8], replySignature = ''y''\<rparr>"

theorem call_reaches_stub_and_back_witness:
  "callMethodWithReply (some_args some_ext) True (sendDBusMessageWithReplyAndBlock True
      (serve (some_args some_ext) adder (\<lambda>c vs. if vs = [V8 2, V8 3] then [V8 5] else [V8 0]) ''client'' new_calls))
     [TUInt8, TUInt8] [V8 2, V8 3] [TUInt8] [V8 0]
     (createMethodCall (DBusAddress ''s'' ''/p'' ''i'') ''add'' ''yy'') = (SUCCESS, [V8 5])"
proof -
  let ?f = "\<lambda>(c :: string) vs. if vs = [V8 2, V8 3] then [V8 5] else [V8 0]"
  have "body_of some_ext [TUInt8, TUInt8] [V8 2, V8 3] = [2, 3]" "body_of some_ext [TUInt8] [V8 5] = [5]" by code_simp+
  then have "fits some_ext (inTypes adder) [V8 2, V8 3]" "fits some_ext (outTypes adder) (?f ''client'' [V8 2, V8 3])"
    by (auto simp: adder_def intro: fits_small)
  from call_reaches_stub_and_back[where f = ?f, OF some_args_spec _ this, where old = "[V8 0]" and s = new_calls and address = "DBusAddress ''s'' ''/p'' ''i''" and name = "''add''" and signature = "''yy''"]
  show ?thesis by (simp add: adder_def)
qed

text \<open>C19: a method dispatcher answers every call at most once, and a call it has answered is no longer
  pending, whatever threads run the two sections of the replies (up to the 2^32 calls after which the
  ids repeat).\<close>

theorem call_answered_at_most_once:
  assumes "calls_run L d n s" "n \<le> 2 ^ 32"
  shows "distinct (map fst (sent s)) \<and> (\<forall>e\<in>set (sent s). unat (fst e) < n \<and> pending s (fst e) = None)"
  using calls_run_inv[OF assms] by (auto simp: dispatcher_inv_def)

definition sample_call :: message where
  "sample_call = createMethodCall (DBusAddress ''s'' ''/p'' ''i'') ''set'' ''y''"

theorem call_answered_at_most_once_witness:
  "distinct (map fst (sent (snd (sendReplyInternal (some_args some_ext) (Some (\<lambda>_. True)) [] 0 []
     (snd (snd (dispatchMethodWithReply (some_args some_ext) (adder\<lparr>inTypes := []\<rparr>) sample_call new_calls)))))))"
proof -
  let ?L = "some_args some_ext" and ?d = "adder\<lparr>inTypes := []\<rparr>"
  obtain c s1 where s1: "dispatchMethodWithReply ?L ?d sample_call new_calls = (True, c, s1)"
    by (simp add: dispatchMethodWithReply_def handleDBusMessage_def get_arguments_def adder_def Let_def)
  obtain r s2 where s2: "sendReplyInternal ?L (Some (\<lambda>_. True)) [] 0 [] s1 = (r, s2)" by fastforce
  have "calls_run ?L ?d (Suc 0) s2"
    by (rule calls_run.finish_reply[OF calls_run.call[OF calls_run.start s1] s2])
  from call_answered_at_most_once[OF this] show ?thesis using s1 s2 by simp
qed

text \<open>Two threads that answer one call at the same time: the reply refers to a reply, not to the call.\<close>

lemma concurrent_replies:
  "pending s c = Some m \<Longrightarrow>
    pending (snd (begin_reply (createMethodReturn sg) c (snd (begin_reply (createMethodReturn sg) c s)))) c =
      Some (MethodReturn (MethodReturn m sg []) sg [])"
  by (simp add: begin_reply_def createMethodReturn_def)

text \<open>On a connection that is not connected, a blocking call with error events and without results
  reports success: the null message is no error, and nobody looks at its type. The other blocking
  call reports a remote error.\<close>

theorem disconnected_call_succeeds:
  assumes "args_spec E L" "fits E ins args"
  shows "callMethodWithReply_errors L True (sendDBusMessageWithReplyAndBlock False libdbus) events ins args [] old m =
      (SUCCESS, old, []) \<and>
    callMethodWithReply L True (sendDBusMessageWithReplyAndBlock False libdbus) ins args [] old m = (REMOTE_ERROR, old)"
  using put_arguments_ok[OF assms, of m]
  by (simp add: callMethodWithReply_errors_def callMethodWithReply_def callMethodWithReply_message_def
      sendDBusMessageWithReplyAndBlock_def get_arguments_def)

theorem disconnected_call_succeeds_witness:
  "fst (callMethodWithReply_errors (some_args some_ext) True
     (sendDBusMessageWithReplyAndBlock False (\<lambda>m. (None, m))) [] [TUInt8] [V8 1] [] [] sample_call) = SUCCESS"
proof -
  have "body_of some_ext [TUInt8] [V8 1] = [1]" by code_simp
  then have "fits some_ext [TUInt8] [V8 1]" by (auto intro: fits_small)
  from disconnected_call_succeeds[OF some_args_spec this] show ?thesis by simp
qed

text \<open>An attribute whose reply cannot be sent is changed, but neither the listeners of the attribute
  nor the stub are told, and the message counts as not handled.\<close>

theorem failed_reply_hides_change:
  assumes "attrImplemented a" "retrieveAttributeValue E a m = (False, v)"
    and "onRemoteSet a (getSender m) v st = (True, st')" "\<And>f x. send = Some f \<Longrightarrow> \<not> f x"
  shows "\<exists>es. dispatchSetObservableAttribute E send a m st = (False, es, st') \<and> RemoteSet (getSender m) v \<in> set es \<and>
    RemoteChanged \<notin> set es \<and> (\<forall>x. FireChanged x \<notin> set es)"
  using assms
  by (cases send) (auto simp: dispatchSetObservableAttribute_def setAttributeValue_def set_attribute_with_def sendAttributeValueReply_def Let_def)

definition sample_attribute :: "val attribute" where
  "sample_attribute = \<lparr>attrImplemented = True, attrType = TUInt8, attrSignature = ''y'', getStub = (\<lambda>c s. s),
     onRemoteSet = (\<lambda>c v s. (v \<noteq> s, v))\<rparr>"

theorem failed_reply_hides_change_witness:
  "\<exists>es. dispatchSetObservableAttribute some_ext None sample_attribute (setBody [7] sample_call) (V8 1) = (False, es, V8 7) \<and>
    RemoteChanged \<notin> set es"
proof -
  have "readValue some_ext TUInt8 (new_istream [7]) = (V8 7, (new_istream [7])\<lparr>current := 1\<rparr>)" by code_simp
  then have "retrieveAttributeValue some_ext sample_attribute (setBody [7] sample_call) = (False, V8 7)"
    by (simp add: retrieveAttributeValue_def sample_attribute_def sample_call_def createMethodCall_def isErrorSet_def
        new_istream_def)
  from failed_reply_hides_change[OF _ this, of "V8 1" "V8 7" None]
  show ?thesis by (auto simp: sample_attribute_def)
qed

text \<open>Setting an observable attribute: the value in the message reaches the stub, the reply carries the
  value the stub then has, and the change is announced exactly if there is one.\<close>

theorem attribute_set_announces_change:
  assumes "attrImplemented a" "fits E [attrType a] [v]" "getBody m = body_of E [attrType a] [v]"
    and "onRemoteSet a (getSender m) v st = (changed, st')"
    and "fits E [attrType a] [v']" "v' = getStub a (getSender m) st'"
  shows "\<exists>reply. dispatchSetObservableAttribute E (Some (\<lambda>_. True)) a m st =
      (True, [RemoteSet (getSender m) v, Lock, Unlock, Sent reply] @
         (if changed then [Lock, FireChanged v', Unlock, RemoteChanged] else []), st') \<and>
    fst (readValue E (attrType a) (new_istream (getBody reply))) = v'"
proof -
  let ?reply = "setBody (body_of E [attrType a] [v']) (createMethodReturn (attrSignature a) m)"
  have r: "retrieveAttributeValue E a m = (False, v)"
    using one_read_back[OF assms(2)] assms(3) by (simp add: retrieveAttributeValue_def isErrorSet_def skip_def new_istream_def)
  have "sendAttributeValueReply E (Some (\<lambda>_. True)) a m st' = (True, [Lock, Unlock, Sent ?reply])"
    using assms(6) by (simp add: sendAttributeValueReply_def body_of_def Let_def)
  then have "dispatchSetObservableAttribute E (Some (\<lambda>_. True)) a m st =
      (True, [RemoteSet (getSender m) v, Lock, Unlock, Sent ?reply] @
         (if changed then [Lock, FireChanged v', Unlock, RemoteChanged] else []), st')"
    using assms(1,4,6) r by (simp add: dispatchSetObservableAttribute_def setAttributeValue_def set_attribute_with_def fireAttributeValueChanged_def)
  then show ?thesis using one_read_back[OF assms(5)] by (intro exI[of _ ?reply]) simp
qed

theorem attribute_set_announces_change_witness:
  "\<exists>reply. dispatchSetObservableAttribute some_ext (Some (\<lambda>_. True)) sample_attribute (setBody [7] sample_call) (V8 1) =
    (True, [RemoteSet '''' (V8 7), Lock, Unlock, Sent reply, Lock, FireChanged (V8 7), Unlock, RemoteChanged], V8 7)"
proof -
  have b: "body_of some_ext [TUInt8] [V8 7] = [7]" by code_simp
  then have "fits some_ext [attrType sample_attribute] [V8 7]" by (auto simp: sample_attribute_def intro: fits_small)
  from attribute_set_announces_change[OF _ this _ _ this, of "setBody [7] sample_call" "V8 1" True "V8 7"] b
  show ?thesis by (auto simp: sample_attribute_def sample_call_def createMethodCall_def)
qed

text \<open>The entries of a reply to \<open>GetAll\<close> as a map whose values are variants over the alternatives \<open>ts\<close>.\<close>

definition shown_as :: "ext \<Rightarrow> ty list \<Rightarrow> message \<Rightarrow> 's \<Rightarrow> byte list \<times> 's attribute \<Rightarrow> val \<times> val \<Rightarrow> bool" where
  "shown_as E ts m st a e \<longleftrightarrow> (\<exists>k i. e = (VString (fst a), VVariant k (getStub (snd a) (getSender m) st)) \<and>
     visit E (length ts) k = Some i \<and> i < length ts \<and> ts ! i = attrType (snd a))"

lemma writeAlternative_nth:
  "i < length ts \<Longrightarrow> writeAlternative E ts i v s = writeValue E (ts ! i) v (writeSignature (sig_bytes (ts ! i)) s)"
  by (induction ts arbitrary: i) (auto split: nat.splits)

lemma shown_writes_same:
  assumes "shown_as E ts m st a e" "visit E 1 tag = Some 0"
  shows "append_attribute E tag m st a s = writeValue E (TVariant True ts) (snd e) (writeValue E (TString False) (fst e) (align 8 s))"
  using assms by (auto simp: shown_as_def append_attribute_def getter_appendGetAllReply_def writeAlternative_nth)

lemma appendGetAllReply_concat:
  "appendGetAllReply E tag m st tables s = fold (append_attribute E tag m st) (concat tables) s"
  by (induction tables arbitrary: s) auto

lemma append_entries:
  assumes "list_all2 (shown_as E ts m st) as es" "visit E 1 tag = Some 0"
    and "\<And>e. e \<in> set es \<Longrightarrow> wt E (TString False) (fst e) \<and> wt E (TVariant True ts) (snd e)" "\<not> errorOccurred s"
  shows "endWriteMap (fold (append_attribute E tag m st) as s) =
    writeEntries (\<lambda>x s. writeValue E (TString False) x s) (\<lambda>x s. writeValue E (TVariant True ts) x s) es s"
  using assms(1,3,4)
proof (induction arbitrary: s rule: list_all2_induct)
  case (Cons a as e es)
  let ?s = "append_attribute E tag m st a s"
  have w: "wt E (TString False) (fst e)" "wt E (TVariant True ts) (snd e)" using Cons.prems(1) by auto
  note same = shown_writes_same[OF Cons.hyps(1) assms(2)]
  have "\<not> errorOccurred ?s"
    unfolding same using w Cons.prems(2)
    by (simp add: write_refines align_writeRaw del: writeValue.simps wt.simps)
  from Cons.IH[OF _ this] Cons.prems(1) show ?case
    using \<open>\<not> errorOccurred ?s\<close> by (cases e) (simp add: same hasError_def Let_def del: writeValue.simps wt.simps)
qed simp

text \<open>C34: the reply to \<open>GetAll\<close> is a map of all attributes of the interface and of those it inherits from:
  a client that reads it gets every name with the value the stub shows to that client.\<close>

theorem get_all_reply_read_back:
  fixes ts :: "ty list" and es :: "(val \<times> val) list"
  defines "t \<equiv> TMap (TString False) (TVariant True ts)"
  assumes "fits E [TString False] [VString interface]" "getBody m = body_of E [TString False] [VString interface]"
    and "visit E 1 tag = Some 0" "list_all2 (shown_as E ts m st) (concat tables) es" "fits E [t] [VMap es]"
  shows "\<exists>reply. handleFreedesktopGetAll E tag (\<lambda>_. True) tables m st = (True, Some reply) \<and>
    fst (readValue E t (new_istream (getBody reply))) = VMap es"
proof -
  let ?out = "endWriteMap (appendGetAllReply E tag m st tables (beginWriteMap new_ostream))"
  let ?reply = "setBody (flush ?out) (createMethodReturn ''a{sv}'' m)"
  have "\<not> errorOccurred (beginWriteMap new_ostream)"
    by (simp add: beginWriteMap_def begin_block Let_def new_ostream_def)
  from append_entries[OF assms(5,4) _ this] assms(6)
  have "?out = writeValue E t (VMap es) new_ostream"
    by (simp add: t_def fits_def appendGetAllReply_concat list_all_iff del: wt.simps(12,17) writeValue.simps(12,17))
  then have "flush ?out = body_of E [t] [VMap es]" by (simp add: body_of_def)
  moreover have "\<not> isErrorSet (snd (readValue E (TString False) (new_istream (getBody m))))"
    using one_read_back[OF assms(2)] assms(3) by (simp add: isErrorSet_def new_istream_def)
  ultimately have "handleFreedesktopGetAll E tag (\<lambda>_. True) tables m st = (True, Some ?reply)" "getBody ?reply = body_of E [t] [VMap es]"
    by (auto simp: handleFreedesktopGetAll_def Let_def split: prod.splits)
  then show ?thesis using one_read_back[OF assms(6)] by (intro exI[of _ ?reply]) simp
qed

definition flag_attribute :: "val attribute" where
  "flag_attribute = \<lparr>attrImplemented = True, attrType = TBool, attrSignature = ''b'', getStub = (\<lambda>c s. VBool True),
     onRemoteSet = (\<lambda>c v s. (False, s))\<rparr>"

theorem get_all_reply_read_back_witness:
  "\<exists>reply. handleFreedesktopGetAll some_ext 1 (\<lambda>_. True) [[([97], sample_attribute)], [([98], flag_attribute)]]
      (setBody [1, 0, 0, 0, 105, 0] sample_call) (V8 7) = (True, Some reply) \<and>
    fst (readValue some_ext (TMap (TString False) (TVariant True [TUInt8, TBool])) (new_istream (getBody reply))) =
      VMap [(VString [97], VVariant 2 (V8 7)), (VString [98], VVariant 1 (VBool True))]"
proof -
  let ?m = "setBody [1, 0, 0, 0, 105, 0] sample_call"
  let ?t = "TMap (TString False) (TVariant True [TUInt8, TBool])"
  let ?es = "[(VString [97], VVariant 2 (V8 7)), (VString [98], VVariant 1 (VBool True))]"
  let ?tables = "[[([97], sample_attribute)], [([98], flag_attribute)]]"
  have b: "body_of some_ext [TString False] [VString [105]] = [1, 0, 0, 0, 105, 0]" by code_simp
  then have f: "fits some_ext [TString False] [VString [105]]"
    by (rule fits_small[rotated 2]) simp_all
  have "length (body_of some_ext [?t] [VMap ?es]) < 1000" by code_simp
  moreover have "wtFields some_ext [?t] [VMap ?es]"
  proof -
    have "wt some_ext (TVariant True [TUInt8, TBool]) (VVariant 2 (V8 7))"
      "wt some_ext (TVariant True [TUInt8, TBool]) (VVariant 1 (VBool True))" by code_simp+
    then show ?thesis by (simp del: wt.simps(17))
  qed
  moreover have "list_all (readable some_ext) [?t]" by code_simp
  ultimately have g: "fits some_ext [?t] [VMap ?es]" by (intro fits_small[OF _ _ refl]) simp_all
  have v: "visit some_ext 1 1 = Some 0" by code_simp
  have "list_all2 (shown_as some_ext [TUInt8, TBool] ?m (V8 7)) (concat ?tables) ?es"
    by (simp add: shown_as_def sample_attribute_def flag_attribute_def some_ext_def)
  from get_all_reply_read_back[OF f _ v this g] b show ?thesis by (simp add: sample_call_def createMethodCall_def)
qed

text \<open>An asynchronous call whose arguments cannot be written returns a future with that status; its callback is
  never called, since no handler exists.\<close>

lemma serialization_error_skips_callback:
  "put_arguments L ins args m = None \<Longrightarrow> callMethodAsync L available accepted ins args m = (Ready SERIALIZATION_ERROR, [])"
  by (simp add: callMethodAsync_def)

text \<open>However often the availability is answered, the handler of a waiting call is used once, and a call
  is never sent with less than 100 milliseconds to go.\<close>

fun availability_answers :: "bool \<Rightarrow> message \<Rightarrow> (bool \<times> int) list \<Rightarrow> async_action list" where
  "availability_answers handler m [] = []"
| "availability_answers handler m ((available, remaining) # as) =
     (case onAvailability available remaining handler m of
        (handler', acts) \<Rightarrow> acts @ availability_answers handler' m as)"

lemma handler_taken: "availability_answers False m as = []"
  by (induction as) (auto simp: onAvailability_def Let_def split: prod.splits)

lemma handler_used_once:
  "as \<noteq> [] \<Longrightarrow> length (availability_answers True m as) = 1 \<and>
     (\<forall>m' t. SendWithReply m' (Some t) \<in> set (availability_answers True m as) \<longrightarrow> 100 \<le> t \<and> m' = m)"
  by (cases as) (auto simp: onAvailability_def handler_taken Let_def split: if_splits)

end
