(* ===== verification/Instance_Event.thy ===== *)
theory Instance_Event
  imports Message Translator
begin

text \<open>
  \<open>DBusInstanceAvailabilityStatusChangedEvent\<close>: the instances of one interface that a proxy
  manager announces to its listeners. The signals of the remote object manager are read from
  their bodies with the operations of \<open>DBusInputStream\<close>.

  \<open>told\<close> records the calls of \<open>notifyInterfaceStatusChanged\<close>: the object path and whether the status
  is \<open>AVAILABLE\<close>. Service and interface are the same in all of them, and the translation of the
  address is a function of them (theory \<open>Translator\<close>). \<open>alive\<close> is whether \<open>proxyWeakPtr_\<close> can be
  locked. \<open>signals_on\<close> is whether the two signal handlers are registered, \<open>asked\<close> counts the
  requests to the registry that are not answered.
\<close>

record instance_event =
  observedDbusInterfaceName :: string
  interfaces :: "(string \<times> string list) list"
  told :: "(string \<times> bool) list"
  signals_on :: bool
  asked :: nat

definition new_instance_event :: "string \<Rightarrow> instance_event" where
  "new_instance_event interface = \<lparr>observedDbusInterfaceName = interface, interfaces = [], told = [], signals_on = False, asked = 0\<rparr>"

definition addInterface :: "string \<Rightarrow> string \<Rightarrow> instance_event \<Rightarrow> bool \<times> instance_event" where
  "addInterface path interface ev =
     (case map_of (interfaces ev) path of
        None \<Rightarrow> (True, ev\<lparr>interfaces := al_put path [interface] (interfaces ev)\<rparr>)
      | Some is \<Rightarrow>
          if interface \<notin> set is then (True, ev\<lparr>interfaces := al_put path (set_add interface is) (interfaces ev)\<rparr>)
          else (False, ev))"

definition removeInterface :: "string \<Rightarrow> string \<Rightarrow> instance_event \<Rightarrow> bool \<times> instance_event" where
  "removeInterface path interface ev =
     (case map_of (interfaces ev) path of
        None \<Rightarrow> (False, ev)
      | Some is \<Rightarrow>
          if interface \<in> set is then (True, ev\<lparr>interfaces := al_put path (removeAll interface is) (interfaces ev)\<rparr>)
          else (False, ev))"

definition notifyInterfaceStatusChanged :: "string \<Rightarrow> bool \<Rightarrow> instance_event \<Rightarrow> instance_event" where
  "notifyInterfaceStatusChanged path available ev = ev\<lparr>told := told ev @ [(path, available)]\<rparr>"

section \<open>The signals\<close>

text \<open>One interface of a signal.\<close>

definition interface_added :: "bool \<Rightarrow> string \<Rightarrow> string \<Rightarrow> instance_event \<Rightarrow> instance_event" where
  "interface_added alive path interface ev =
     (if alive \<and> interface = observedDbusInterfaceName ev then
        (case addInterface path interface ev of
           (added, ev1) \<Rightarrow> if added then notifyInterfaceStatusChanged path True ev1 else ev1)
      else ev)"

definition interface_removed :: "bool \<Rightarrow> string \<Rightarrow> string \<Rightarrow> instance_event \<Rightarrow> instance_event" where
  "interface_removed alive path interface ev =
     (if alive \<and> interface = observedDbusInterfaceName ev then
        (case removeInterface path interface ev of
           (removed, ev1) \<Rightarrow> if removed then notifyInterfaceStatusChanged path False ev1 else ev1)
      else ev)"

text \<open>\<open>>>\<close> into a string keeps the old value when the read fails.\<close>

definition read_string :: "ext \<Rightarrow> string \<Rightarrow> istream \<Rightarrow> string \<times> istream" where
  "read_string E old s =
     (case readValue E (TString False) s of
        (v, s1) \<Rightarrow> (case v of VString bs \<Rightarrow> as_string v | _ \<Rightarrow> old, s1))"

text \<open>
  The loop over the interfaces of \<open>InterfacesAdded\<close>. An error is logged and the loop goes on; \<open>None\<close>
  is a loop that does not end. \<open>f\<close> is what is done with the name of an interface; the service registry has the same loop.
\<close>

partial_function (option) interfaces_loop :: "ext \<Rightarrow> (string \<Rightarrow> 'a \<Rightarrow> 'a) \<Rightarrow> string \<Rightarrow> 'a \<Rightarrow> istream \<Rightarrow> ('a \<times> istream) option" where
  "interfaces_loop E f name x s =
     (if readMapCompleted s then Some (x, s)
      else (let (name1, s1) = read_string E name (in_align 8 s);
                s2 = skipMap s1
            in interfaces_loop E f name1 (f name1 x) s2))"

definition added_loop :: "ext \<Rightarrow> bool \<Rightarrow> string \<Rightarrow> string \<Rightarrow> instance_event \<Rightarrow> istream \<Rightarrow> (instance_event \<times> istream) option" where
  "added_loop E alive path = interfaces_loop E (interface_added alive path)"

definition onInterfacesAddedSignal :: "ext \<Rightarrow> bool \<Rightarrow> byte list \<Rightarrow> instance_event \<Rightarrow> instance_event option" where
  "onInterfacesAddedSignal E alive bs ev =
     (let (path, s1) = read_string E '''' (new_istream bs)
      in map_option fst (added_loop E alive path '''' ev (beginReadMapOfSerializableStructs s1)))"

definition onInterfacesRemovedSignal :: "ext \<Rightarrow> bool \<Rightarrow> byte list \<Rightarrow> instance_event \<Rightarrow> instance_event" where
  "onInterfacesRemovedSignal E alive bs ev =
     (let (path, s1) = read_string E '''' (new_istream bs);
          (names, s2) = readValue E (TVector (TString False)) s1
      in fold (interface_removed alive path) (case names of VVector vs \<Rightarrow> map as_string vs | _ \<Rightarrow> []) ev)"

text \<open>The handler of the signals: \<open>None\<close> when it does not return.\<close>

definition instance_onSignalDBusMessage :: "ext \<Rightarrow> bool \<Rightarrow> message \<Rightarrow> instance_event \<Rightarrow> instance_event option" where
  "instance_onSignalDBusMessage E alive m ev =
     (if getMember m = ''InterfacesAdded'' then onInterfacesAddedSignal E alive (getBody m) ev
      else if getMember m = ''InterfacesRemoved'' then Some (onInterfacesRemovedSignal E alive (getBody m) ev)
      else Some ev)"

section \<open>The instances at the beginning\<close>

text \<open>
  The answer of the registry, object paths with their interfaces, as addresses of the observed
  interface; the object \<open>itsDBusAddress\<close> is filled in step by step.
\<close>

definition translate_instances :: "string \<Rightarrow> (string \<times> string list) list \<Rightarrow> instance_event \<Rightarrow> DBusAddress list" where
  "translate_instances service dict ev =
     concat (map (\<lambda>(path, is). map (\<lambda>i. DBusAddress service path i)
       (filter (\<lambda>i. i = observedDbusInterfaceName ev) is)) dict)"

definition first_listener_instances :: "DBusAddress list \<Rightarrow> instance_event \<Rightarrow> instance_event" where
  "first_listener_instances services ev =
     fold (\<lambda>service ev.
        if getInterface service \<noteq> observedDbusInterfaceName ev then ev
        else (case addInterface (getObjectPath service) (observedDbusInterfaceName ev) ev of
                (added, ev1) \<Rightarrow> if added then notifyInterfaceStatusChanged (getObjectPath service) True ev1 else ev1))
       services ev"

section \<open>The listeners\<close>

text \<open>
  The first listener registers the handlers of both signals and asks the registry; the last one to
  go removes them. \<open>interfaces_\<close> is kept.
\<close>

definition onFirstListenerAdded :: "instance_event \<Rightarrow> instance_event" where
  "onFirstListenerAdded ev = ev\<lparr>signals_on := True, asked := asked ev + 1\<rparr>"

definition onLastListenerRemoved :: "instance_event \<Rightarrow> instance_event" where
  "onLastListenerRemoved ev = ev\<lparr>signals_on := False\<rparr>"

text \<open>The answer of the registry to a request.\<close>

definition serviceInstancesAsyncCallback :: "string \<Rightarrow> (string \<times> string list) list \<Rightarrow> instance_event \<Rightarrow> instance_event" where
  "serviceInstancesAsyncCallback service dict ev =
     first_listener_instances (translate_instances service dict ev) (ev\<lparr>asked := asked ev - 1\<rparr>)"

text \<open>
  What happens to the event: listeners come and go, signals and answers arrive. A signal reaches
  the handler only while it is registered.
\<close>

datatype instance_action =
    FirstListener
  | LastListener
  | SignalArrived bool message
  | InstancesAnswered "(string \<times> string list) list"

fun instance_step :: "ext \<Rightarrow> string \<Rightarrow> instance_action \<Rightarrow> instance_event \<Rightarrow> instance_event option" where
  "instance_step E service FirstListener ev = Some (onFirstListenerAdded ev)"
| "instance_step E service LastListener ev = Some (onLastListenerRemoved ev)"
| "instance_step E service (SignalArrived alive m) ev =
     (if signals_on ev then instance_onSignalDBusMessage E alive m ev else Some ev)"
| "instance_step E service (InstancesAnswered dict) ev =
     Some (if asked ev = 0 then ev else serviceInstancesAsyncCallback service dict ev)"

fun instance_run :: "ext \<Rightarrow> string \<Rightarrow> instance_action list \<Rightarrow> instance_event \<Rightarrow> instance_event option" where
  "instance_run E service [] ev = Some ev"
| "instance_run E service (a # as) ev = Option.bind (instance_step E service a ev) (instance_run E service as)"

section \<open>The proxy manager\<close>

text \<open>
  \<open>DBusProxyManager::translate\<close>: one CommonAPI address \<open>itsCapiAddress\<close> for all instances, whether
  the translation succeeds or not.
\<close>

fun manager_translate :: "tr_ext \<Rightarrow> DBusAddress list \<Rightarrow> capi_address \<Rightarrow> translator \<Rightarrow> string list \<times> translator" where
  "manager_translate X [] a T = ([], T)"
| "manager_translate X (d # ds) a T =
     (let (r, T1) = tr_translate_back X d T;
          a1 = (case r of Some b \<Rightarrow> b | None \<Rightarrow> a)
      in apfst (Cons (capi_instance a1)) (manager_translate X ds a1 T1))"

text \<open>\<open>getAvailableInstances\<close> on the answer of the registry.\<close>

definition getAvailableInstances ::
  "tr_ext \<Rightarrow> string \<Rightarrow> (string \<times> string list) list \<Rightarrow> instance_event \<Rightarrow> translator \<Rightarrow> string list \<times> translator" where
  "getAvailableInstances X service dict ev T =
     manager_translate X (translate_instances service dict ev) \<lparr>capi_domain = [], capi_interface = [], capi_instance = []\<rparr> T"

end
