(* ===== verification/Instance_Event_Correct.thy ===== *)
theory Instance_Event_Correct
  imports Instance_Event Rpc_Correct
begin

text \<open>
  What the listeners of an instance event are told: for every object path alternately that the
  instance is available and that it is not. A well-formed \<open>InterfacesAdded\<close> signal is read entry by
  entry; a body that ends too early keeps the reading loop going for ever.
\<close>

section \<open>Alternation\<close>

definition told_of :: "string \<Rightarrow> instance_event \<Rightarrow> bool list" where
  "told_of p ev = map snd (filter (\<lambda>t. fst t = p) (told ev))"

definition announced :: "string \<Rightarrow> instance_event \<Rightarrow> bool" where
  "announced p ev \<longleftrightarrow> (case map_of (interfaces ev) p of None \<Rightarrow> False | Some is \<Rightarrow> observedDbusInterfaceName ev \<in> set is)"

definition event_inv :: "instance_event \<Rightarrow> bool" where
  "event_inv ev \<longleftrightarrow> (\<forall>p. alternates True (told_of p ev) \<and> (announced p ev \<longleftrightarrow> odd (length (told_of p ev))))"

lemma told_of_notify:
  "told_of p (notifyInterfaceStatusChanged q b ev) = told_of p ev @ (if q = p then [b] else [])"
  by (simp add: told_of_def notifyInterfaceStatusChanged_def)

lemma announced_notify [simp]: "announced p (notifyInterfaceStatusChanged q b ev) = announced p ev"
  by (simp add: announced_def notifyInterfaceStatusChanged_def split: option.splits)

lemma addInterface_observed:
  "addInterface q (observedDbusInterfaceName ev) ev = (r, ev') \<Longrightarrow>
    r = (\<not> announced q ev) \<and> told_of p ev' = told_of p ev \<and> announced p ev' = (p = q \<or> announced p ev) \<and>
    observedDbusInterfaceName ev' = observedDbusInterfaceName ev"
  by (auto simp: addInterface_def announced_def told_of_def set_add_def split: option.splits if_splits)

lemma removeInterface_observed:
  "removeInterface q (observedDbusInterfaceName ev) ev = (r, ev') \<Longrightarrow>
    r = announced q ev \<and> told_of p ev' = told_of p ev \<and> announced p ev' = (p \<noteq> q \<and> announced p ev) \<and>
    observedDbusInterfaceName ev' = observedDbusInterfaceName ev"
  by (auto simp: removeInterface_def announced_def told_of_def split: option.splits if_splits)

lemma event_inv_change:
  assumes "event_inv ev" "b = (\<not> announced q ev)"
    and "\<And>p. told_of p ev' = told_of p ev" "\<And>p. announced p ev' = (if p = q then b else announced p ev)"
  shows "event_inv (notifyInterfaceStatusChanged q b ev')"
  using assms by (auto simp: event_inv_def told_of_notify alternates_snoc)

lemma event_inv_same:
  assumes "event_inv ev" "\<And>p. told_of p ev' = told_of p ev" "\<And>p. announced p ev' = announced p ev"
  shows "event_inv ev'"
  using assms by (simp add: event_inv_def)

lemma event_inv_add:
  assumes "event_inv ev" "addInterface q (observedDbusInterfaceName ev) ev = (r, ev')"
  shows "event_inv (if r then notifyInterfaceStatusChanged q True ev' else ev')"
proof (cases r)
  case True
  then show ?thesis
    using event_inv_change[OF assms(1), of True q ev'] addInterface_observed[OF assms(2)] by auto
next
  case False
  then show ?thesis
    using event_inv_same[OF assms(1), of ev'] addInterface_observed[OF assms(2)] by auto
qed

lemma event_inv_remove:
  assumes "event_inv ev" "removeInterface q (observedDbusInterfaceName ev) ev = (r, ev')"
  shows "event_inv (if r then notifyInterfaceStatusChanged q False ev' else ev')"
proof (cases r)
  case True
  then show ?thesis
    using event_inv_change[OF assms(1), of False q ev'] removeInterface_observed[OF assms(2)] by auto
next
  case False
  then show ?thesis
    using event_inv_same[OF assms(1), of ev'] removeInterface_observed[OF assms(2)] by auto
qed

lemma event_inv_interface_added: "event_inv ev \<Longrightarrow> event_inv (interface_added alive q i ev)"
  using event_inv_add[of ev q] by (auto simp: interface_added_def split: prod.splits)

lemma event_inv_interface_removed: "event_inv ev \<Longrightarrow> event_inv (interface_removed alive q i ev)"
  using event_inv_remove[of ev q] by (auto simp: interface_removed_def split: prod.splits)

lemma event_inv_fold: "(\<And>x ev. event_inv ev \<Longrightarrow> event_inv (f x ev)) \<Longrightarrow> event_inv ev \<Longrightarrow> event_inv (fold f xs ev)"
  by (induction xs arbitrary: ev) auto

lemma interfaces_loop_induct:
  assumes "interfaces_loop E f name x s = Some r"
    and step: "\<And>loop name x s r. (\<And>name x s r. loop name x s = Some r \<Longrightarrow> P name x s r) \<Longrightarrow>
      (if readMapCompleted s then Some (x, s)
       else let (name1, s1) = read_string E name (in_align 8 s); s2 = skipMap s1 in loop name1 (f name1 x) s2) = Some r \<Longrightarrow>
      P name x s r"
  shows "P name x s r"
proof -
  let ?P = "\<lambda>E' f' name x s r. E' = E \<and> f' = f \<longrightarrow> P name x s r"
  note ind = interfaces_loop.raw_induct[where xa = "((((E, f), name), x), s)" and y = r and P = ?P, simplified]
  show ?thesis
  proof (rule ind[OF _ assms(1)])
    fix loop E' f' name x s r
    assume ih: "\<And>E' f' name x s r. loop E' f' name x s = Some r \<Longrightarrow> E' = E \<and> f' = f \<longrightarrow> P name x s r"
      and eq: "(if readMapCompleted s then Some (x, s)
        else let (name1, s1) = read_string E' name (in_align 8 s) in Let (skipMap s1) (loop E' f' name1 (f' name1 x))) = Some r"
    show "E' = E \<and> f' = f \<longrightarrow> P name x s r"
    proof (intro impI, elim conjE)
      assume e: "E' = E" "f' = f"
      show "P name x s r"
      proof (rule step[where loop = "loop E f"])
        show "P name x s r" if "loop E f name x s = Some r" for name x s r using ih[OF that] by blast
      qed (use eq[unfolded e] in \<open>simp add: Let_def\<close>)
    qed
  qed
qed

lemma interfaces_loop_inv:
  assumes "interfaces_loop E f name x s = Some r" "P x" "\<And>name x. P x \<Longrightarrow> P (f name x)"
  shows "P (fst r)"
proof -
  have "P x \<longrightarrow> P (fst r)"
    by (rule interfaces_loop_induct[OF assms(1), where P = "\<lambda>_ x _ r. P x \<longrightarrow> P (fst r)"])
      (auto simp: Let_def assms(3) split: if_splits prod.splits)
  then show ?thesis using assms(2) by blast
qed

lemma event_inv_loop: "added_loop E alive path name ev s = Some r \<Longrightarrow> event_inv ev \<Longrightarrow> event_inv (fst r)"
  unfolding added_loop_def
  by (erule interfaces_loop_inv[where P = event_inv]) (simp_all add: event_inv_interface_added)

lemma event_inv_signal: "event_inv ev \<Longrightarrow> instance_onSignalDBusMessage E alive m ev = Some ev' \<Longrightarrow> event_inv ev'"
  by (auto simp: instance_onSignalDBusMessage_def onInterfacesAddedSignal_def onInterfacesRemovedSignal_def
      intro!: event_inv_fold event_inv_interface_removed dest: event_inv_loop split: if_splits prod.splits)

lemma event_inv_first: "event_inv ev \<Longrightarrow> event_inv (first_listener_instances services ev)"
  unfolding first_listener_instances_def
  by (rule event_inv_fold) (use event_inv_add in \<open>auto split: prod.splits\<close>)

lemma listener_fields [simp]:
  "announced p (ev\<lparr>signals_on := b\<rparr>) = announced p ev" "announced p (ev\<lparr>asked := n\<rparr>) = announced p ev"
  "told_of p (ev\<lparr>signals_on := b\<rparr>) = told_of p ev" "told_of p (ev\<lparr>asked := n\<rparr>) = told_of p ev"
  by (simp_all add: told_of_def announced_def split: option.splits)

lemma event_inv_fields [simp]:
  "event_inv (ev\<lparr>signals_on := b\<rparr>) = event_inv ev" "event_inv (ev\<lparr>asked := n\<rparr>) = event_inv ev"
  by (simp_all add: event_inv_def)

lemma event_inv_step: "instance_step E service a ev = Some ev' \<Longrightarrow> event_inv ev \<Longrightarrow> event_inv ev'"
  by (cases a) (auto simp: onFirstListenerAdded_def onLastListenerRemoved_def serviceInstancesAsyncCallback_def
      split: if_splits intro: event_inv_signal event_inv_first)

lemma event_inv_run: "instance_run E service as ev = Some ev' \<Longrightarrow> event_inv ev \<Longrightarrow> event_inv ev'"
  by (induction as arbitrary: ev) (auto simp: bind_eq_Some_conv intro: event_inv_step)

lemma event_inv_new: "event_inv (new_instance_event i)"
  by (simp add: event_inv_def new_instance_event_def told_of_def announced_def)

text \<open>Without registered handlers no signal changes anything, and a known instance is not told again.\<close>

lemma unsubscribed_signals:
  "\<not> signals_on ev \<Longrightarrow> instance_run E service (map (SignalArrived alive) ms) ev = Some ev"
  by (induction ms) auto

lemma instance_run_append:
  "instance_run E service (as @ bs) ev = Option.bind (instance_run E service as ev) (instance_run E service bs)"
  by (induction as arbitrary: ev) (auto split: Option.bind_splits)

definition untold :: "string \<Rightarrow> instance_event \<Rightarrow> instance_event \<Rightarrow> bool" where
  "untold p ev ev' \<longleftrightarrow> announced p ev' \<and> told_of p ev' = told_of p ev"

lemma untold_add:
  "announced p ev \<Longrightarrow> addInterface q (observedDbusInterfaceName ev) ev = (r, ev') \<Longrightarrow>
    untold p ev (if r then notifyInterfaceStatusChanged q True ev' else ev')"
  using addInterface_observed[of q ev r ev' p] by (auto simp: untold_def told_of_notify)

lemma untold_fold:
  "(\<And>x ev. announced p ev \<Longrightarrow> untold p ev (f x ev)) \<Longrightarrow> announced p ev \<Longrightarrow> untold p ev (fold f xs ev)"
  by (induction xs arbitrary: ev) (auto simp: untold_def)

lemma untold_first: "announced p ev \<Longrightarrow> untold p ev (first_listener_instances services ev)"
  unfolding first_listener_instances_def
proof (rule untold_fold)
  fix x ev assume "announced p ev"
  then show "untold p ev (if getInterface x \<noteq> observedDbusInterfaceName ev then ev
      else (case addInterface (getObjectPath x) (observedDbusInterfaceName ev) ev of
              (added, ev1) \<Rightarrow> if added then notifyInterfaceStatusChanged (getObjectPath x) True ev1 else ev1))"
    using untold_add[of p ev "getObjectPath x"] by (auto simp: untold_def split: prod.splits)
qed

section \<open>A well-formed signal\<close>

lemma skipMap_enc:
  assumes "wt E (TMap kt vt) v" "ahead s (enc E (TMap kt vt) v (current s))"
  shows "skipMap s = skip (length (enc E (TMap kt vt) v (current s))) s"
proof -
  obtain es where v: "v = VMap es" using assms(1) by (auto split: val.splits)
  let ?q = "roundup 4 (current s) + 4"
  let ?d = "encEntries (\<lambda>x p. enc E kt x p) (\<lambda>x p. enc E vt x p) es (roundup 8 ?q)"
  let ?i = "encInt 4 (of_nat (length ?d) :: u32) (current s)"
  have e: "enc E (TMap kt vt) v (current s) = ?i @ zeros (pad 8 ?q) @ ?d"
    by (simp add: v encBlock_def Let_def)
  have li: "current (skip (length ?i) s) = ?q" by (simp add: encInt_def roundup_def)
  from assms(2)[unfolded e] have a: "ahead s ?i" "ahead (skip (length ?i) s) (zeros (pad 8 ?q))"
    "ahead (skip (length ?i + pad 8 ?q) s) ?d"
    unfolding ahead_append by (simp_all del: enc.simps)
  have "readInt 4 s = (Some (of_nat (length ?d) :: u32), skip (length ?i) s)"
    by (rule ahead_readInt[OF a(1)]) simp_all
  moreover have "in_align 8 (skip (length ?i) s) = skip (length ?i + pad 8 ?q) s"
    using ahead_align[of "skip (length ?i) s" 8, unfolded li, OF a(2)] by simp
  moreover have "unat (of_nat (length ?d) :: u32) = length ?d"
    using ahead_small[OF a(3)] by (simp add: unat_of_nat take_bit_nat_eq_self)
  ultimately show ?thesis
    using ahead_readRaw[OF a(3)] unfolding e by (simp add: skipMap_def orelse_def add.assoc)
qed

text \<open>One entry of the signal: the name of an interface and a map that is skipped.\<close>

lemma read_string_back:
  assumes "wt E (TString False) (VString bs)" "ahead s (enc E (TString False) (VString bs) (current s))"
  shows "read_string E old s = (as_string (VString bs), skip (length (enc E (TString False) (VString bs) (current s))) s)"
  using readValue_enc[OF _ assms] by (simp add: read_string_def)

abbreviation enc_entry :: "ext \<Rightarrow> ty \<Rightarrow> ty \<Rightarrow> val \<times> val \<Rightarrow> nat \<Rightarrow> byte list" where
  "enc_entry E kt vt \<equiv> encEntry (\<lambda>x p. enc E (TString False) x p) (\<lambda>x p. enc E (TMap kt vt) x p)"

lemma entry_back:
  assumes "wt E (TString False) (fst e)" "wt E (TMap kt vt) (snd e)" "ahead s (enc_entry E kt vt e (current s))"
  obtains s1 where "read_string E old (in_align 8 s) = (as_string (fst e), s1)"
    "skipMap s1 = skip (length (enc_entry E kt vt e (current s))) s"
proof -
  obtain bs where k: "fst e = VString bs" using assms(1) by (auto split: val.splits)
  let ?p = "pad 8 (current s)"
  let ?k = "enc E (TString False) (fst e) (current s + ?p)"
  have e: "enc_entry E kt vt e (current s) = zeros ?p @ ?k @ enc E (TMap kt vt) (snd e) (current s + (?p + length ?k))"
    by (simp add: encEntry_def Let_def roundup_def del: enc.simps)
  from assms(3)[unfolded e] have a: "ahead s (zeros ?p)" "ahead (skip ?p s) ?k"
    "ahead (skip (?p + length ?k) s) (enc E (TMap kt vt) (snd e) (current s + (?p + length ?k)))"
    unfolding ahead_append by simp_all
  have "read_string E old (in_align 8 s) = (as_string (fst e), skip (?p + length ?k) s)"
    using read_string_back[of E bs "skip ?p s"] assms(1) a(2) ahead_align[OF a(1)] k by (simp del: enc.simps)
  moreover have "skipMap (skip (?p + length ?k) s) = skip (length (enc_entry E kt vt e (current s))) s"
    using skipMap_enc[OF assms(2), of "skip (?p + length ?k) s"] a(3) unfolding e by (simp add: add.assoc del: enc.simps)
  ultimately show thesis using that by blast
qed

lemma enc_entry_nonempty: "wt E (TString False) (fst e) \<Longrightarrow> enc_entry E kt vt e p \<noteq> []"
  using enc_nonempty[of E "TString False"] by (simp add: encEntry_def Let_def del: enc.simps)

lemma interfaces_loop_back:
  assumes "\<And>e. e \<in> set es \<Longrightarrow> wt E (TString False) (fst e) \<and> wt E (TMap kt vt) (snd e)"
    and "ahead s (encElems (enc_entry E kt vt) es (current s))"
    and "sizes s = n # ns" "marks s = m # ms" "m \<le> current s"
    and "unat n = current s - m + length (encElems (enc_entry E kt vt) es (current s))"
  shows "interfaces_loop E f name x s =
    Some (fold f (map (as_string \<circ> fst) es) x, skip (length (encElems (enc_entry E kt vt) es (current s))) s)"
  using assms
proof (induction es arbitrary: name x s)
  case Nil
  then show ?case by (subst interfaces_loop.simps) (simp add: readMapCompleted_def)
next
  case (Cons e es)
  let ?e = "enc_entry E kt vt e (current s)"
  have w: "wt E (TString False) (fst e)" "wt E (TMap kt vt) (snd e)" using Cons.prems(1) by auto
  have a: "ahead s ?e" "ahead (skip (length ?e) s) (encElems (enc_entry E kt vt) es (current s + length ?e))"
    using Cons.prems(2) by (simp_all add: ahead_append)
  obtain s1 where s1: "read_string E name (in_align 8 s) = (as_string (fst e), s1)" "skipMap s1 = skip (length ?e) s"
    by (rule entry_back[OF w a(1)])
  have "0 < length ?e" using enc_entry_nonempty[OF w(1), of kt vt "current s"] by (simp del: enc.simps)
  moreover have "unat n = current s - m + (length ?e + length (encElems (enc_entry E kt vt) es (current s + length ?e)))"
    using Cons.prems(6) by (simp del: enc.simps)
  ultimately have "current s - m < unat n" by linarith
  then have "\<not> readMapCompleted s"
    using Cons.prems(3,4) by (simp add: readMapCompleted_def del: enc.simps)
  moreover have "interfaces_loop E f (as_string (fst e)) (f (as_string (fst e)) x) (skip (length ?e) s) =
      Some (fold f (map (as_string \<circ> fst) es) (f (as_string (fst e)) x),
        skip (length (encElems (enc_entry E kt vt) es (current (skip (length ?e) s)))) (skip (length ?e) s))"
  proof (rule Cons.IH)
    show "ahead (skip (length ?e) s) (encElems (enc_entry E kt vt) es (current (skip (length ?e) s)))"
      using a(2) by simp
    show "unat n = current (skip (length ?e) s) - m +
        length (encElems (enc_entry E kt vt) es (current (skip (length ?e) s)))"
      using Cons.prems(5,6) by simp
  qed (use Cons.prems in auto)
  ultimately show ?case by (subst interfaces_loop.simps) (simp add: s1 del: enc.simps)
qed

lemma enc_map:
  "enc E (TMap kt vt) (VMap es) p =
    (let q = roundup 4 p + 4; d = encElems (encEntry (\<lambda>x p. enc E kt x p) (\<lambda>x p. enc E vt x p)) es (roundup 8 q)
     in encInt 4 (of_nat (length d) :: u32) p @ zeros (pad 8 q) @ d)"
  by (simp add: encBlock_def encEntries_eq Let_def)

lemma begin_map_back:
  assumes "ahead s (enc E (TMap (TString False) (TMap kt vt)) (VMap es) (current s))"
  obtains s1 n where "beginReadMapOfSerializableStructs s = s1" "sizes s1 = n # sizes s" "marks s1 = current s1 # marks s"
    "ahead s1 (encElems (enc_entry E kt vt) es (current s1))"
    "unat n = length (encElems (enc_entry E kt vt) es (current s1))"
proof -
  let ?q = "roundup 4 (current s) + 4"
  let ?d = "encElems (enc_entry E kt vt) es (roundup 8 ?q)"
  let ?n = "of_nat (length ?d) :: u32"
  let ?i = "encInt 4 ?n (current s)"
  let ?s = "pushSize ?n (skip (length ?i) s)"
  have e: "enc E (TMap (TString False) (TMap kt vt)) (VMap es) (current s) = ?i @ zeros (pad 8 ?q) @ ?d"
    by (simp only: enc_map Let_def)
  have li: "current (skip (length ?i) s) = ?q" by (simp add: encInt_def roundup_def)
  from assms[unfolded e] have a: "ahead s ?i" "ahead (skip (length ?i) s) (zeros (pad 8 ?q))"
    "ahead (skip (length ?i + pad 8 ?q) s) ?d"
    unfolding ahead_append by (simp_all del: enc.simps)
  have r: "readInt 4 s = (Some ?n, skip (length ?i) s)"
    by (rule ahead_readInt[OF a(1)]) simp_all
  have cs: "current ?s = ?q" using li by (simp add: pushSize_def)
  have "ahead ?s (zeros (pad 8 ?q))"
    by (rule ahead_cong[OF a(2)]) (simp_all add: pushSize_def)
  then have al: "in_align 8 ?s = skip (pad 8 ?q) ?s"
    using ahead_align[of ?s 8] unfolding cs by simp
  let ?s1 = "in_pushPosition (skip (pad 8 ?q) ?s)"
  have c: "current ?s1 = roundup 8 ?q"
    using li by (simp add: in_pushPosition_def pushSize_def roundup_def)
  show thesis
  proof
    show "beginReadMapOfSerializableStructs s = ?s1"
      by (simp only: beginReadMapOfSerializableStructs_def r orelse_def al Let_def prod.case option.case)
    show "sizes ?s1 = ?n # sizes s" "marks ?s1 = current ?s1 # marks s"
      by (simp_all add: in_pushPosition_def pushSize_def del: enc.simps)
    have "ahead ?s1 ?d"
      by (rule ahead_cong[OF a(3)]) (simp_all add: in_pushPosition_def pushSize_def del: enc.simps)
    then show "ahead ?s1 (encElems (enc_entry E kt vt) es (current ?s1))" unfolding c .
    show "unat ?n = length (encElems (enc_entry E kt vt) es (current ?s1))"
      using ahead_small[OF a(3)] unfolding c by (simp add: unat_of_nat take_bit_nat_eq_self del: enc.simps)
  qed
qed

lemma two_fields_body:
  assumes "fits E [t, u] [v, w]"
  shows "body_of E [t, u] [v, w] = enc E t v 0 @ enc E u w (length (enc E t v 0))"
  using fields_refine[of E "[t, u]" "[v, w]" new_ostream] assms
  by (simp add: body_of_def flush_def new_ostream_def fits_def Let_def del: enc.simps)

lemma two_fields_read:
  assumes "fits E [t, u] [v, w]"
  shows "readValue E t (new_istream (body_of E [t, u] [v, w])) =
      (v, skip (length (enc E t v 0)) (new_istream (body_of E [t, u] [v, w])))" (is ?first)
    and "ahead (skip (length (enc E t v 0)) (new_istream (body_of E [t, u] [v, w]))) (enc E u w (length (enc E t v 0)))" (is ?second)
proof -
  let ?s = "new_istream (body_of E [t, u] [v, w])"
  have w: "wt E t v" "readable E t" "wtFields E [t, u] [v, w]" using assms by (simp_all add: fits_def)
  note b = two_fields_body[OF assms]
  have "ahead ?s (enc E t v 0 @ enc E u w (length (enc E t v 0)))"
    using assms b by (simp add: ahead_def new_istream_def fits_def del: enc.simps)
  then have a: "ahead ?s (enc E t v (current ?s))" ?second
    unfolding ahead_append by (simp_all add: new_istream_def del: enc.simps)
  show ?first using readValue_enc[OF w(2,1) a(1)] by (simp add: new_istream_def del: enc.simps)
  show ?second by (rule a(2))
qed


section \<open>A body that ends too early\<close>

text \<open>Beyond the end of the body every read fails, and the position stays.\<close>

definition stuck :: "istream \<Rightarrow> bool" where
  "stuck s \<longleftrightarrow> current s = roundup 8 (length (body s)) \<and> length (body s) + 16 < 2 ^ 32"

definition same_place :: "istream \<Rightarrow> istream \<Rightarrow> bool" where
  "same_place s s' \<longleftrightarrow> body s' = body s \<and> current s' = current s \<and> sizes s' = sizes s \<and> marks s' = marks s"

lemma same_place_stuck: "stuck s \<Longrightarrow> same_place s s' \<Longrightarrow> stuck s'"
  by (simp add: stuck_def same_place_def)

lemma same_place_error [simp]: "same_place s (in_setError s)"
  by (simp add: same_place_def in_setError_def)

lemma same_place_trans: "same_place s s' \<Longrightarrow> same_place s' s'' \<Longrightarrow> same_place s s''"
  by (simp add: same_place_def)

lemma stuck_align: "stuck s \<Longrightarrow> b \<in> {4, 8} \<Longrightarrow> in_align b s = s"
  using near_align[of s b] roundup_dvd[of 8 "length (body s)"]
  by (auto simp: stuck_def near_def roundup_def[of _ "roundup _ _"] pad_def mod_eq_0_iff_dvd intro: dvd_trans[of 4 8])

lemma stuck_readInt: "stuck s \<Longrightarrow> n \<in> {4, 8} \<Longrightarrow> readInt n s = (None, in_setError s)"
  using stuck_align[of s n] roundup_ge[of "length (body s)" 8]
  by (auto simp: readInt_def readRaw_def stuck_def isErrorSet_def in_setError_def)

lemma stuck_read_string:
  assumes "stuck s"
  shows "read_string E old s = (old, in_setError (in_setError s))"
  using assms stuck_readInt[OF assms, of 4, where 'a = 32] roundup_ge[of "length (body s)" 8]
  by (simp add: read_string_def readString_def orelse_def readRaw_def stuck_def isErrorSet_def in_setError_def)

lemma stuck_skipMap: "stuck s \<Longrightarrow> same_place s (skipMap s)"
  using stuck_readInt[of s 4, where 'a = 32] stuck_align[OF same_place_stuck[OF _ same_place_error], of s 8]
  by (simp add: skipMap_def orelse_def readRaw_def same_place_def in_setError_def)

lemma stuck_loop:
  assumes "interfaces_loop E f name x s = Some r" "stuck s" "sizes s = n # ns" "marks s = current s # ms"
  shows "n = 0"
proof -
  have "stuck s \<and> sizes s = n # ns \<and> marks s = current s # ms \<longrightarrow> n = 0"
  proof (rule interfaces_loop_induct[OF assms(1), where
        P = "\<lambda>_ _ s _. stuck s \<and> sizes s = n # ns \<and> marks s = current s # ms \<longrightarrow> n = 0"])
    fix loop name x s r
    assume ih: "\<And>name x s r. loop name x s = Some r \<Longrightarrow>
        stuck s \<and> sizes s = n # ns \<and> marks s = current s # ms \<longrightarrow> n = 0"
      and step: "(if readMapCompleted s then Some (x, s)
        else let (name1, s1) = read_string E name (in_align 8 s); s2 = skipMap s1
             in loop name1 (f name1 x) s2) = Some r"
    show "stuck s \<and> sizes s = n # ns \<and> marks s = current s # ms \<longrightarrow> n = 0"
    proof
      assume a: "stuck s \<and> sizes s = n # ns \<and> marks s = current s # ms"
      let ?s = "skipMap (in_setError (in_setError s))"
      have "same_place s ?s"
        using a by (meson same_place_error same_place_stuck same_place_trans stuck_skipMap)
      then have "stuck ?s \<and> sizes ?s = n # ns \<and> marks ?s = current ?s # ms"
        using a same_place_stuck by (auto simp: same_place_def)
      moreover have "readMapCompleted s \<Longrightarrow> n = 0"
        using a by (simp add: readMapCompleted_def unat_eq_zero)
      ultimately show "n = 0"
        using step ih a by (auto simp: stuck_align stuck_read_string split: if_splits)
    qed
  qed
  then show ?thesis using assms(2-4) by blast
qed

section \<open>Properties\<close>

text \<open>C35: for every object path the listeners of an instance event are told alternately that the
  instance is available and that it is not, beginning with the first, in every run of listeners that
  come and go, signals and answers of the registry; an instance is recorded exactly if the last they
  were told is that it is available.\<close>

theorem told_alternates:
  assumes "instance_run E service as (new_instance_event i) = Some ev"
  shows "alternates True (told_of p ev) \<and> (announced p ev \<longleftrightarrow> odd (length (told_of p ev)))"
  using event_inv_run[OF assms event_inv_new] by (simp add: event_inv_def)

definition sample_removed :: message where
  "sample_removed = setBody [2, 0, 0, 0, 47, 112, 0, 0, 6, 0, 0, 0, 1, 0, 0, 0, 105, 0]
     (createSignal ''/'' ''org.freedesktop.DBus.ObjectManager'' ''InterfacesRemoved'' ''oas'')"

theorem told_alternates_witness:
  "\<exists>ev. instance_run some_ext ''s'' [FirstListener, InstancesAnswered [(''/p'', [''i''])], SignalArrived True sample_removed]
      (new_instance_event ''i'') = Some ev \<and> told_of ''/p'' ev = [True, False] \<and>
    alternates True (told_of ''/p'' ev)"
proof -
  let ?run = "instance_run some_ext ''s''
    [FirstListener, InstancesAnswered [(''/p'', [''i''])], SignalArrived True sample_removed] (new_instance_event ''i'')"
  have "map_option (told_of ''/p'') ?run = Some [True, False]" by code_simp
  then obtain ev where ev: "?run = Some ev" "told_of ''/p'' ev = [True, False]" by auto
  show ?thesis using ev told_alternates[OF ev(1), of "''/p''"] by blast
qed

text \<open>A well-formed \<open>InterfacesAdded\<close> signal, whatever the types of the property maps it carries, is
  read to its end, and every interface of it is looked at once, in order.\<close>

theorem interfaces_added_read:
  assumes "fits E [TString False, TMap (TString False) (TMap kt vt)] [VString path, VMap es]"
  shows "onInterfacesAddedSignal E alive
      (body_of E [TString False, TMap (TString False) (TMap kt vt)] [VString path, VMap es]) ev =
    Some (fold (interface_added alive (as_string (VString path))) (map (as_string \<circ> fst) es) ev)"
proof -
  let ?m = "TMap (TString False) (TMap kt vt)"
  let ?b = "body_of E [TString False, ?m] [VString path, VMap es]"
  let ?l = "length (enc E (TString False) (VString path) 0)"
  let ?s = "skip ?l (new_istream ?b)"
  note r = two_fields_read[OF assms]
  have w: "wt E (TString False) (fst e) \<and> wt E (TMap kt vt) (snd e)" if "e \<in> set es" for e
    using assms that by (simp add: fits_def list_all_iff)
  have "ahead ?s (enc E ?m (VMap es) (current ?s))"
    using r(2) by (simp add: new_istream_def del: enc.simps)
  from begin_map_back[OF this] obtain s1 n where s1: "beginReadMapOfSerializableStructs ?s = s1" "sizes s1 = n # sizes ?s"
    "marks s1 = current s1 # marks ?s" "ahead s1 (encElems (enc_entry E kt vt) es (current s1))"
    "unat n = length (encElems (enc_entry E kt vt) es (current s1))" .
  have "unat n = current s1 - current s1 + length (encElems (enc_entry E kt vt) es (current s1))"
    using s1(5) by (simp del: enc.simps)
  from interfaces_loop_back[OF w s1(4) s1(2,3) order.refl this]
  show ?thesis
    using r(1) s1(1) by (force simp: onInterfacesAddedSignal_def added_loop_def read_string_def simp del: enc.simps)
qed

theorem interfaces_added_read_witness:
  "told_of ''/p'' (the (onInterfacesAddedSignal some_ext True (body_of some_ext
     [TString False, TMap (TString False) (TMap (TString False) TBool)]
     [VString [47, 112], VMap [(VString [105], VMap [])]]) (new_instance_event ''i''))) = [True]"
proof -
  let ?t = "[TString False, TMap (TString False) (TMap (TString False) TBool)]"
  let ?v = "[VString [47, 112], VMap [(VString [105], VMap [])]]"
  have "body_of some_ext ?t ?v = [2, 0, 0, 0, 47, 112, 0, 0, 16, 0, 0, 0, 0, 0, 0, 0, 1, 0, 0, 0, 105, 0, 0, 0, 0, 0, 0, 0, 0, 0, 0, 0]"
    by code_simp
  then have "fits some_ext ?t ?v"
    by (rule fits_small[rotated 2]) simp_all
  from interfaces_added_read[OF this] show ?thesis
    by (simp only: option.sel) code_simp
qed

text \<open>A body that ends right after a size which is not zero is never read to the end: every read
  fails, the position stays, and the loop over the interfaces does not look at the error.\<close>

theorem truncated_signal_never_ends:
  assumes "fits E [TString False, TUInt32 False] [VString path, V32 n]" "n \<noteq> 0"
  shows "onInterfacesAddedSignal E alive (body_of E [TString False, TUInt32 False] [VString path, V32 n]) ev = None"
proof -
  let ?b = "body_of E [TString False, TUInt32 False] [VString path, V32 n]"
  let ?p = "enc E (TString False) (VString path) 0"
  let ?s = "skip (length ?p) (new_istream ?b)"
  let ?i = "encInt 4 n (length ?p)"
  note r = two_fields_read[OF assms(1)]
  have "body_of E [TString False, TUInt32 False] [VString path, V32 n] = ?p @ ?i"
    using two_fields_body[OF assms(1)] by simp
  then have len: "length ?b = length ?p + length ?i" by (metis length_append)
  have "ahead ?s (encInt 4 n (current ?s))"
    using r(2) by (simp add: new_istream_def)
  from ahead_readInt[OF this] have i: "readInt 4 ?s = (Some n, skip (length ?i) ?s)"
    by (simp add: new_istream_def del: length_encInt)
  let ?s1 = "pushSize n (skip (length ?i) ?s)"
  have "near ?s1" "current ?s1 = length ?b" "body ?s1 = ?b"
    using assms(1) len roundup_ge[of "length ?b" 8]
    by (simp_all add: near_def pushSize_def new_istream_def fits_def del: enc.simps)
  then have "stuck (in_pushPosition (in_align 8 ?s1))" "sizes (in_pushPosition (in_align 8 ?s1)) = n # []"
    "marks (in_pushPosition (in_align 8 ?s1)) = current (in_pushPosition (in_align 8 ?s1)) # []"
    using assms(1) near_align[of ?s1 8]
    by (simp_all add: stuck_def in_pushPosition_def fits_def)
      (simp_all add: pushSize_def new_istream_def)
  from stuck_loop[OF _ this] assms(2)
  have "added_loop E alive path' name ev (beginReadMapOfSerializableStructs ?s) = None" for path' name
    unfolding added_loop_def
    by (cases "interfaces_loop E (interface_added alive path') name ev (beginReadMapOfSerializableStructs ?s)")
      (auto simp: beginReadMapOfSerializableStructs_def i orelse_def simp del: enc.simps)
  then show ?thesis
    using r(1) by (simp add: onInterfacesAddedSignal_def read_string_def del: enc.simps)
qed

theorem truncated_signal_never_ends_witness:
  "onInterfacesAddedSignal some_ext True [1, 0, 0, 0, 47, 0, 0, 0, 8, 0, 0, 0] (new_instance_event ''i'') = None"
proof -
  have b: "body_of some_ext [TString False, TUInt32 False] [VString [47], V32 8] = [1, 0, 0, 0, 47, 0, 0, 0, 8, 0, 0, 0]"
    by code_simp
  then have "fits some_ext [TString False, TUInt32 False] [VString [47], V32 8]"
    by (rule fits_small[rotated 2]) simp_all
  from truncated_signal_never_ends[OF this] show ?thesis unfolding b by simp
qed

text \<open>An event that was left by its last listener tells a new one nothing about an instance it
  told the old ones, even if the instance has gone in between: the record is kept, the signals are
  not seen.\<close>

theorem returning_listener_hears_nothing:
  assumes "announced p ev"
    and "instance_run E service ([LastListener] @ map (SignalArrived alive) ms @ [FirstListener, InstancesAnswered dict]) ev = Some ev'"
  shows "announced p ev' \<and> told_of p ev' = told_of p ev"
proof -
  have "\<not> signals_on (onLastListenerRemoved ev)" by (simp add: onLastListenerRemoved_def)
  from unsubscribed_signals[OF this] assms(2)
  have "ev' = serviceInstancesAsyncCallback service dict (onFirstListenerAdded (onLastListenerRemoved ev))"
    by (simp add: instance_run_append onFirstListenerAdded_def)
  then show ?thesis
    using untold_first[of p] assms(1)
    by (simp add: serviceInstancesAsyncCallback_def onFirstListenerAdded_def onLastListenerRemoved_def untold_def)
qed

theorem returning_listener_hears_nothing_witness:
  "\<exists>ev ev'. instance_run some_ext ''s'' [FirstListener, InstancesAnswered [(''/p'', [''i''])]] (new_instance_event ''i'') = Some ev \<and>
    instance_run some_ext ''s'' ([LastListener] @ map (SignalArrived True) [sample_removed] @
      [FirstListener, InstancesAnswered [(''/p'', [''i''])]]) ev = Some ev' \<and> told_of ''/p'' ev' = [True]"
proof -
  let ?r = "instance_run some_ext ''s'' [FirstListener, InstancesAnswered [(''/p'', [''i''])]] (new_instance_event ''i'')"
  let ?as = "[LastListener] @ map (SignalArrived True) [sample_removed] @ [FirstListener, InstancesAnswered [(''/p'', [''i''])]]"
  have "map_option (\<lambda>ev. (announced ''/p'' ev, told_of ''/p'' ev)) ?r = Some (True, [True])"
    "Option.bind ?r (instance_run some_ext ''s'' ?as) \<noteq> None" by code_simp+
  then obtain ev ev' where ev: "?r = Some ev" "announced ''/p'' ev" "told_of ''/p'' ev = [True]"
    "instance_run some_ext ''s'' ?as ev = Some ev'" by (auto simp: bind_eq_None_conv)
  show ?thesis using ev(1,3,4) returning_listener_hears_nothing[OF ev(2,4)] by metis
qed

end
