(* ===== verification/Queue_Watch.thy ===== *)
theory Queue_Watch
  imports Async_Reply Method_Call
begin

text \<open>
  What a connection registers at a main loop (\<open>DBusMainLoopContext.cpp\<close>): the queue of entries that
  other threads push (\<open>DBusQueueWatch\<close>, \<open>DBusQueueDispatchSource\<close>), the watches of libdbus
  (\<open>DBusWatch\<close>) and its dispatch source (\<open>DBusDispatchSource\<close>).

  The queue is guarded by a mutex for each single operation, and an eventfd in semaphore mode
  counts its entries for the poll of the main loop. Pushing is two steps, the queue and the eventfd;
  taking an entry is four. The steps of all threads are interleaved.
\<close>

section \<open>The event file descriptor\<close>

text \<open>
  The documented behaviour of \<open>eventfd(0, EFD_NONBLOCK | EFD_SEMAPHORE)\<close>: a write adds its value, a
  read takes one; \<open>None\<close> is \<open>EAGAIN\<close>, after which both loops of the code yield and try again.
\<close>

definition eventfd_write :: "u64 \<Rightarrow> u64 \<Rightarrow> u64 option" where
  "eventfd_write v c = (if unat c + unat v > 2 ^ 64 - 2 then None else Some (c + v))"

definition eventfd_read :: "u64 \<Rightarrow> u64 option" where
  "eventfd_read c = (if c = 0 then None else Some (c - 1))"

section \<open>The queue\<close>

text \<open>
  \<open>writing\<close> counts the threads between the two steps of \<open>pushQueue\<close>. \<open>dispatcher t\<close> is where thread \<open>t\<close>
  is in \<open>DBusQueueDispatchSource::dispatch\<close>, with the entry it holds. The two logs are not state of the
  code: what was pushed, and what was taken out, with whether the connection existed, so that it was
  processed.
\<close>

datatype 'e taking = Outside | Fronted 'e | Woken 'e | Popped 'e

record 'e qwatch =
  waitingEntries :: "'e list"
  eventFd :: u64
  writing :: nat
  dispatcher :: "nat \<Rightarrow> 'e taking"
  dependents :: "nat list"
  pushed_log :: "'e list"
  taken_log :: "('e \<times> bool) list"

definition new_queue_watch :: "'e qwatch" where
  "new_queue_watch = \<lparr>waitingEntries = [], eventFd = 0, writing = 0, dispatcher = (\<lambda>_. Outside), dependents = [],
     pushed_log = [], taken_log = []\<rparr>"

definition pushQueue_queue :: "'e \<Rightarrow> 'e qwatch \<Rightarrow> 'e qwatch" where
  "pushQueue_queue e q = q\<lparr>waitingEntries := waitingEntries q @ [e], writing := writing q + 1, pushed_log := pushed_log q @ [e]\<rparr>"

definition pushQueue_write :: "'e qwatch \<Rightarrow> 'e qwatch" where
  "pushQueue_write q =
     (case eventfd_write 1 (eventFd q) of
        None \<Rightarrow> q
      | Some c \<Rightarrow> q\<lparr>eventFd := c, writing := writing q - 1\<rparr>)"

definition frontQueue :: "'e qwatch \<Rightarrow> 'e option" where
  "frontQueue q = (case waitingEntries q of [] \<Rightarrow> None | e # es \<Rightarrow> Some e)"

definition emptyQueue :: "'e qwatch \<Rightarrow> bool" where
  "emptyQueue q \<longleftrightarrow> waitingEntries q = []"

definition set_phase :: "nat \<Rightarrow> 'e taking \<Rightarrow> 'e qwatch \<Rightarrow> 'e qwatch" where
  "set_phase t p q = q\<lparr>dispatcher := (dispatcher q)(t := p)\<rparr>"

text \<open>The steps of \<open>dispatch\<close> on thread \<open>t\<close>. \<open>std::queue::pop\<close> of an empty queue is undefined.\<close>

definition dispatch_front :: "nat \<Rightarrow> 'e qwatch \<Rightarrow> 'e qwatch" where
  "dispatch_front t q = (case frontQueue q of None \<Rightarrow> q | Some e \<Rightarrow> set_phase t (Fronted e) q)"

definition popQueue_read :: "nat \<Rightarrow> 'e \<Rightarrow> 'e qwatch \<Rightarrow> 'e qwatch" where
  "popQueue_read t e q =
     (case eventfd_read (eventFd q) of
        None \<Rightarrow> q
      | Some c \<Rightarrow> set_phase t (Woken e) (q\<lparr>eventFd := c\<rparr>))"

datatype queue_error = PopEmpty

definition popQueue_pop :: "nat \<Rightarrow> 'e \<Rightarrow> 'e qwatch \<Rightarrow> queue_error + 'e qwatch" where
  "popQueue_pop t e q =
     (case waitingEntries q of
        [] \<Rightarrow> Inl PopEmpty
      | x # xs \<Rightarrow> Inr (set_phase t (Popped e) (q\<lparr>waitingEntries := xs\<rparr>)))"

definition processQueueEntry :: "nat \<Rightarrow> bool \<Rightarrow> 'e \<Rightarrow> 'e qwatch \<Rightarrow> 'e qwatch" where
  "processQueueEntry t alive e q = set_phase t Outside (q\<lparr>taken_log := taken_log q @ [(e, alive)]\<rparr>)"

text \<open>One step of any thread. A step that is not enabled does nothing.\<close>

datatype 'e queue_action = Push 'e | Write | Dispatch nat bool

definition dispatch_step :: "nat \<Rightarrow> bool \<Rightarrow> 'e qwatch \<Rightarrow> queue_error + 'e qwatch" where
  "dispatch_step t alive q =
     (case dispatcher q t of
        Outside \<Rightarrow> Inr (dispatch_front t q)
      | Fronted e \<Rightarrow> Inr (popQueue_read t e q)
      | Woken e \<Rightarrow> popQueue_pop t e q
      | Popped e \<Rightarrow> Inr (processQueueEntry t alive e q))"

fun queue_step :: "'e queue_action \<Rightarrow> 'e qwatch \<Rightarrow> queue_error + 'e qwatch" where
  "queue_step (Push e) q = Inr (pushQueue_queue e q)"
| "queue_step Write q = Inr (if writing q = 0 then q else pushQueue_write q)"
| "queue_step (Dispatch t alive) q = dispatch_step t alive q"

fun queue_run :: "'e queue_action list \<Rightarrow> 'e qwatch \<Rightarrow> queue_error + 'e qwatch" where
  "queue_run [] q = Inr q"
| "queue_run (a # as) q = (case queue_step a q of Inl err \<Rightarrow> Inl err | Inr q1 \<Rightarrow> queue_run as q1)"

text \<open>\<open>prepare\<close> and \<open>check\<close> of the dispatch source, and whether the poll of the main loop returns.\<close>

definition queue_prepare :: "'e qwatch \<Rightarrow> int \<times> bool" where
  "queue_prepare q = (-1, \<not> emptyQueue q)"

definition queue_check :: "'e qwatch \<Rightarrow> bool" where
  "queue_check q \<longleftrightarrow> \<not> emptyQueue q"

definition queue_readable :: "'e qwatch \<Rightarrow> bool" where
  "queue_readable q \<longleftrightarrow> eventFd q \<noteq> 0"

text \<open>The dependent dispatch sources; only the first occurrence is removed.\<close>

definition addDependentDispatchSource :: "nat \<Rightarrow> 'e qwatch \<Rightarrow> 'e qwatch" where
  "addDependentDispatchSource d q = q\<lparr>dependents := dependents q @ [d]\<rparr>"

definition removeDependentDispatchSource :: "nat \<Rightarrow> 'e qwatch \<Rightarrow> 'e qwatch" where
  "removeDependentDispatchSource d q = q\<lparr>dependents := remove1 d (dependents q)\<rparr>"

text \<open>The destructor: the entries that are left are cleared, in order.\<close>

definition destroy_queue_watch :: "'e qwatch \<Rightarrow> 'e list" where
  "destroy_queue_watch q = waitingEntries q"

section \<open>The watches of libdbus\<close>

text \<open>The flags of \<open>poll.h\<close> and of \<open>dbus-connection.h\<close>.\<close>

definition POLLIN :: u32 where "POLLIN = 1"
definition POLLOUT :: u32 where "POLLOUT = 4"
definition POLLERR :: u32 where "POLLERR = 8"
definition POLLHUP :: u32 where "POLLHUP = 16"
definition WATCH_READABLE :: u32 where "WATCH_READABLE = 1"
definition WATCH_WRITABLE :: u32 where "WATCH_WRITABLE = 2"
definition WATCH_ERROR :: u32 where "WATCH_ERROR = 4"
definition WATCH_HANGUP :: u32 where "WATCH_HANGUP = 8"

text \<open>\<open>startWatching\<close>: the events of the poll, and what happens at the context, if it exists.\<close>

datatype context_call = DeregisterWatch | RegisterWatch

definition poll_flags :: "u32 \<Rightarrow> u32" where
  "poll_flags channelFlags =
     (if channelFlags AND WATCH_READABLE \<noteq> 0 then POLLIN else 0) OR
     (if channelFlags AND WATCH_WRITABLE \<noteq> 0 then POLLOUT else 0)"

definition stopWatching :: "bool \<Rightarrow> context_call list" where
  "stopWatching context = (if context then [DeregisterWatch] else [])"

definition startWatching :: "bool \<Rightarrow> bool \<Rightarrow> u32 \<Rightarrow> u32 \<times> context_call list" where
  "startWatching enabled context channelFlags =
     (poll_flags channelFlags,
      (if enabled then [] else stopWatching context) @ (if context then [RegisterWatch] else []))"

definition dbusWatchFlags :: "u32 \<Rightarrow> u32" where
  "dbusWatchFlags eventFlags =
     (eventFlags AND POLLIN) OR drop_bit 1 (eventFlags AND POLLOUT) OR
     drop_bit 1 (eventFlags AND POLLERR) OR drop_bit 1 (eventFlags AND POLLHUP)"

text \<open>\<open>dispatch\<close>: the flags \<open>dbus_watch_handle\<close> is called with, if it is.\<close>

definition watch_dispatch :: "nat \<Rightarrow> bool \<Rightarrow> u32 \<Rightarrow> dispatch_state \<Rightarrow> u32 option \<times> dispatch_state" where
  "watch_dispatch thread alive eventFlags d =
     (if alive then
        (case setDispatching thread True d of
           (True, d1) \<Rightarrow> (Some (dbusWatchFlags eventFlags), snd (setDispatching thread False d1))
         | (False, d1) \<Rightarrow> (None, d1))
      else (None, d))"

section \<open>The dispatch source of the connection\<close>

definition source_prepare :: "nat \<Rightarrow> bool \<Rightarrow> bool \<Rightarrow> bool \<Rightarrow> async \<times> dispatch_state \<Rightarrow> int \<times> bool \<times> dispatch_state" where
  "source_prepare thread alive is_connected data_remains sd =
     (-1, if alive then isDispatchReady thread is_connected data_remains sd else (False, snd sd))"

definition source_check :: "nat \<Rightarrow> bool \<Rightarrow> bool \<Rightarrow> bool \<Rightarrow> async \<times> dispatch_state \<Rightarrow> bool \<times> dispatch_state" where
  "source_check thread alive is_connected data_remains sd =
     (if alive then isDispatchReady thread is_connected data_remains sd else (False, snd sd))"

definition source_dispatch :: "nat \<Rightarrow> bool \<Rightarrow> bool \<Rightarrow> (async \<Rightarrow> bool \<times> async) \<Rightarrow> async \<times> dispatch_state \<Rightarrow>
    bool \<times> async \<times> dispatch_state" where
  "source_dispatch thread alive is_connected lib sd =
     (if alive then singleDispatch thread is_connected lib sd else (False, sd))"

section \<open>Pushing from the connection\<close>

text \<open>
  The member \<open>queueWatch_\<close> is set when a main loop is attached and not before: \<open>None\<close> is the
  uninitialised pointer. A reply is pushed without looking at the main loop, a function is not.
\<close>

datatype reply_entry = MsgReply message hid

datatype push_error = UninitialisedPointer

definition attachMainLoopContext_queue :: "bool \<Rightarrow> 'e qwatch option \<Rightarrow> 'e qwatch option" where
  "attachMainLoopContext_queue context w = (if context then Some new_queue_watch else w)"

definition queueWatch_pushReply ::
  "message \<Rightarrow> hid \<Rightarrow> reply_entry qwatch option \<Rightarrow> push_error + reply_entry qwatch option" where
  "queueWatch_pushReply reply h w =
     (case w of
        None \<Rightarrow> Inl UninitialisedPointer
      | Some q \<Rightarrow> Inr (Some (pushQueue_write (pushQueue_queue (MsgReply reply h) q))))"

definition proxyPushFunctionToMainLoop :: "bool \<Rightarrow> 'e \<Rightarrow> 'e qwatch option \<Rightarrow> push_error + 'e qwatch option" where
  "proxyPushFunctionToMainLoop context f w =
     (if context then
        (case w of
           None \<Rightarrow> Inl UninitialisedPointer
         | Some q \<Rightarrow> Inr (Some (pushQueue_write (pushQueue_queue f q))))
      else Inr w)"

text \<open>What \<open>callMethodAsync\<close> leaves to the queue, carried out.\<close>

fun push_errors :: "nat \<Rightarrow> async_action list \<Rightarrow> reply_entry qwatch option \<Rightarrow> push_error + reply_entry qwatch option" where
  "push_errors h [] w = Inr w"
| "push_errors h (PushError m # as) w =
     (case queueWatch_pushReply m h w of Inl err \<Rightarrow> Inl err | Inr w1 \<Rightarrow> push_errors h as w1)"
| "push_errors h (a # as) w = push_errors h as w"

end
