(* ===== verification/Queue_Watch_Correct.thy ===== *)
theory Queue_Watch_Correct
  imports Queue_Watch
begin

text \<open>
  The queue of the main loop with one dispatching thread and any number of pushing ones: it is a
  FIFO queue whose entries are taken once each, and its event file descriptor wakes the main loop
  exactly while something is queued. With two dispatching threads neither holds.
\<close>

section \<open>One dispatching thread\<close>

fun by_one :: "'e queue_action \<Rightarrow> bool" where
  "by_one (Dispatch t alive) = (t = 0)"
| "by_one a = True"

definition in_hand :: "'e qwatch \<Rightarrow> 'e list" where
  "in_hand q = (case dispatcher q 0 of Popped e \<Rightarrow> [e] | _ \<Rightarrow> [])"

definition reading :: "'e qwatch \<Rightarrow> nat" where
  "reading q = (case dispatcher q 0 of Woken e \<Rightarrow> 1 | _ \<Rightarrow> 0)"

definition holds_front :: "'e qwatch \<Rightarrow> bool" where
  "holds_front q \<longleftrightarrow>
     (case dispatcher q 0 of
        Fronted e \<Rightarrow> \<exists>es. waitingEntries q = e # es
      | Woken e \<Rightarrow> \<exists>es. waitingEntries q = e # es
      | _ \<Rightarrow> True)"

definition queue_inv :: "'e qwatch \<Rightarrow> bool" where
  "queue_inv q \<longleftrightarrow>
     pushed_log q = map fst (taken_log q) @ in_hand q @ waitingEntries q \<and>
     unat (eventFd q) + writing q + reading q = length (waitingEntries q) \<and> holds_front q"

lemmas queue_inv_defs = queue_inv_def in_hand_def reading_def holds_front_def

lemma eventfd_write_1: "eventfd_write 1 c = Some c' \<Longrightarrow> unat c' = unat c + 1"
  by (auto simp: eventfd_write_def unat_word_ariths split: if_splits)

lemma eventfd_read_1:
  assumes "eventfd_read c = Some c'"
  shows "unat c = unat c' + 1"
proof -
  have c: "c \<noteq> 0" "c' = c - 1" using assms by (auto simp: eventfd_read_def split: if_splits)
  then have "0 < unat c" by (simp add: unat_gt_0)
  with c show ?thesis by (simp add: unat_minus_one)
qed

lemma queue_inv_push: "queue_inv q \<Longrightarrow> queue_inv (pushQueue_queue e q)"
  by (auto simp: queue_inv_defs pushQueue_queue_def split: taking.splits)

lemma queue_inv_write: "queue_inv q \<Longrightarrow> writing q \<noteq> 0 \<Longrightarrow> queue_inv (pushQueue_write q)"
  by (auto simp: queue_inv_defs pushQueue_write_def split: taking.splits option.splits dest: eventfd_write_1)

lemma queue_inv_dispatch:
  assumes "queue_inv q"
  shows "\<exists>q'. dispatch_step 0 alive q = Inr q' \<and> queue_inv q'"
proof (cases "dispatcher q 0")
  case Outside
  then show ?thesis using assms
    by (auto simp: queue_inv_defs dispatch_step_def dispatch_front_def frontQueue_def set_phase_def split: list.splits)
next
  case (Fronted e)
  then show ?thesis using assms
    by (auto simp: queue_inv_defs dispatch_step_def popQueue_read_def set_phase_def split: option.splits dest: eventfd_read_1)
next
  case (Woken e)
  then show ?thesis using assms
    by (auto simp: queue_inv_defs dispatch_step_def popQueue_pop_def set_phase_def)
next
  case (Popped e)
  then show ?thesis using assms
    by (auto simp: queue_inv_defs dispatch_step_def processQueueEntry_def set_phase_def)
qed

lemma queue_inv_step: "queue_inv q \<Longrightarrow> by_one a \<Longrightarrow> \<exists>q'. queue_step a q = Inr q' \<and> queue_inv q'"
  using queue_inv_dispatch by (cases a) (auto simp: queue_inv_push queue_inv_write)

lemma queue_inv_run: "queue_inv q \<Longrightarrow> list_all by_one as \<Longrightarrow> \<exists>q'. queue_run as q = Inr q' \<and> queue_inv q'"
proof (induction as arbitrary: q)
  case (Cons a as)
  then obtain q1 where "queue_step a q = Inr q1" "queue_inv q1" using queue_inv_step[of q a] by auto
  then show ?case using Cons by simp
qed simp

lemma queue_inv_new: "queue_inv new_queue_watch"
  by (simp add: queue_inv_defs new_queue_watch_def)

section \<open>Draining\<close>

lemma queue_run_append: "queue_run (as @ bs) q = (case queue_run as q of Inl err \<Rightarrow> Inl err | Inr q1 \<Rightarrow> queue_run bs q1)"
  by (induction as arbitrary: q) (auto split: sum.splits)

definition at_rest :: "'e qwatch \<Rightarrow> bool" where
  "at_rest q \<longleftrightarrow> writing q = 0 \<and> dispatcher q 0 = Outside"

lemma take_one:
  assumes "queue_inv q" "at_rest q" "waitingEntries q = e # es"
  shows "\<exists>q'. queue_run (replicate 4 (Dispatch 0 alive)) q = Inr q' \<and> at_rest q' \<and> waitingEntries q' = es \<and>
    taken_log q' = taken_log q @ [(e, alive)]"
proof -
  have "unat (eventFd q) \<noteq> 0" using assms by (simp add: queue_inv_defs at_rest_def)
  then have "eventFd q \<noteq> 0" by auto
  then show ?thesis using assms(2,3)
    by (simp add: at_rest_def numeral_eq_Suc dispatch_step_def dispatch_front_def frontQueue_def popQueue_read_def
        popQueue_pop_def processQueueEntry_def eventfd_read_def set_phase_def)
qed

lemma drain:
  "queue_inv q \<Longrightarrow> at_rest q \<Longrightarrow> \<exists>q'. queue_run (replicate (4 * length (waitingEntries q)) (Dispatch 0 alive)) q = Inr q' \<and>
     at_rest q' \<and> waitingEntries q' = [] \<and> taken_log q' = taken_log q @ map (\<lambda>e. (e, alive)) (waitingEntries q)"
proof (induction "waitingEntries q" arbitrary: q)
  case (Cons e es)
  obtain q1 where q1: "queue_run (replicate 4 (Dispatch 0 alive)) q = Inr q1" "at_rest q1" "waitingEntries q1 = es"
    "taken_log q1 = taken_log q @ [(e, alive)]"
    using take_one[OF Cons.prems(1,2) Cons.hyps(2)[symmetric]] by blast
  have "queue_inv q1"
    using queue_inv_run[OF Cons.prems(1), of "replicate 4 (Dispatch 0 alive)"] q1(1) by (auto simp: list_all_iff)
  from Cons.hyps(1)[OF q1(3)[symmetric] this q1(2)] q1(3)
  obtain q2 where q2: "queue_run (replicate (4 * length es) (Dispatch 0 alive)) q1 = Inr q2" "at_rest q2" "waitingEntries q2 = []"
    "taken_log q2 = taken_log q1 @ map (\<lambda>e. (e, alive)) es" by blast
  have w: "waitingEntries q = e # es" using Cons.hyps(2) by simp
  show ?case using q1(1,4) q2
    unfolding w length_Cons mult_Suc_right replicate_add queue_run_append by simp
qed simp

section \<open>Properties\<close>

text \<open>C13: with one dispatching thread the queue of the main loop is a FIFO queue, whatever the threads that push
  do in between: no step is undefined, and what was pushed is what was taken, each entry once and in
  order, followed by the entry in hand and those that wait.\<close>

theorem queue_is_fifo:
  assumes "list_all by_one as"
  shows "\<exists>q. queue_run as new_queue_watch = Inr q \<and>
    pushed_log q = map fst (taken_log q) @ in_hand q @ waitingEntries q"
  using queue_inv_run[OF queue_inv_new assms] by (auto simp: queue_inv_def)

theorem queue_is_fifo_witness:
  "\<exists>q. queue_run [Push ''a'', Dispatch 0 True, Push ''b'', Write, Dispatch 0 True, Dispatch 0 True] new_queue_watch = Inr q \<and>
    pushed_log q = [''a'', ''b''] \<and> taken_log q = [] \<and> in_hand q = [''a''] \<and> waitingEntries q = [''b'']"
proof -
  let ?as = "[Push ''a'', Dispatch 0 True, Push ''b'', Write, Dispatch 0 True, Dispatch 0 True]"
  obtain q where q: "queue_run ?as new_queue_watch = Inr q" "pushed_log q = map fst (taken_log q) @ in_hand q @ waitingEntries q"
    using queue_is_fifo[of ?as] by auto
  moreover have "taken_log q = [] \<and> in_hand q = [''a''] \<and> waitingEntries q = [''b'']"
    using q(1) by (auto simp: in_hand_def new_queue_watch_def pushQueue_queue_def dispatch_step_def dispatch_front_def frontQueue_def
        set_phase_def pushQueue_write_def eventfd_write_def popQueue_read_def eventfd_read_def popQueue_pop_def)
  ultimately show ?thesis by auto
qed

text \<open>C36: no wake-up is lost and none is spurious: between two dispatches, when no thread is inside a push, the
  event file descriptor is readable exactly if an entry waits; a dispatch that waits for the descriptor
  waits for a thread that is going to write.\<close>

theorem queue_wakes_main_loop:
  assumes "list_all by_one as" "queue_run as new_queue_watch = Inr q"
  shows "(dispatcher q 0 = Outside \<and> writing q = 0 \<longrightarrow> queue_readable q = queue_check q) \<and>
    (queue_readable q \<longrightarrow> queue_check q) \<and>
    (\<forall>e. dispatcher q 0 = Fronted e \<and> \<not> queue_readable q \<longrightarrow> 0 < writing q)"
proof -
  have "queue_inv q" using queue_inv_run[OF queue_inv_new assms(1)] assms(2) by auto
  then show ?thesis
    by (auto simp: queue_inv_defs queue_readable_def queue_check_def emptyQueue_def unat_eq_zero split: taking.splits)
qed

theorem queue_wakes_main_loop_witness:
  "\<exists>q. queue_run [Push ''a'', Write] new_queue_watch = Inr q \<and> queue_readable q \<and> queue_check q"
proof -
  obtain q where q: "queue_run [Push ''a'', Write] new_queue_watch = Inr q" by (simp add: pushQueue_write_def)
  have "dispatcher q 0 = Outside \<and> writing q = 0 \<and> waitingEntries q = [''a'']"
    using q by (auto simp: new_queue_watch_def pushQueue_queue_def pushQueue_write_def eventfd_write_def)
  then show ?thesis using q queue_wakes_main_loop[OF _ q] by (auto simp: queue_check_def emptyQueue_def)
qed

text \<open>Dispatching empties the queue: at rest, four steps of the dispatching thread per waiting entry take
  all entries, in order.\<close>

theorem queue_is_drained:
  assumes "list_all by_one as" "queue_run as new_queue_watch = Inr q" "at_rest q"
  shows "\<exists>q'. queue_run (replicate (4 * length (waitingEntries q)) (Dispatch 0 alive)) q = Inr q' \<and>
    waitingEntries q' = [] \<and> map fst (taken_log q') = pushed_log q"
proof -
  have inv: "queue_inv q" using queue_inv_run[OF queue_inv_new assms(1)] assms(2) by auto
  then have "pushed_log q = map fst (taken_log q) @ waitingEntries q"
    using assms(3) by (simp add: queue_inv_defs at_rest_def)
  then show ?thesis using drain[OF inv assms(3), of alive] by (auto simp: comp_def)
qed

theorem queue_is_drained_witness:
  "\<exists>q q'. queue_run [Push ''a'', Push ''b'', Write, Write] new_queue_watch = Inr q \<and>
    queue_run (replicate (4 * length (waitingEntries q)) (Dispatch 0 True)) q = Inr q' \<and> map fst (taken_log q') = [''a'', ''b'']"
proof -
  let ?as = "[Push ''a'', Push ''b'', Write, Write]"
  obtain q where q: "queue_run ?as new_queue_watch = Inr q" by simp
  have "at_rest q \<and> pushed_log q = [''a'', ''b'']"
    using q by (auto simp: at_rest_def new_queue_watch_def pushQueue_queue_def pushQueue_write_def eventfd_write_def)
  with queue_is_drained[OF _ q, of True] q show ?thesis by auto
qed

section \<open>Two dispatching threads\<close>

text \<open>
  \<open>frontQueue\<close> and \<open>popQueue\<close> are separate sections: two threads that dispatch the same source take the
  first entry twice, and the second entry is lost.
\<close>

lemma concurrent_dispatch_loses_entry:
  "\<exists>q. queue_run [Push a, Write, Push b, Write, Dispatch 0 True, Dispatch 1 True, Dispatch 0 True, Dispatch 1 True,
      Dispatch 0 True, Dispatch 1 True, Dispatch 0 True, Dispatch 1 True] new_queue_watch = Inr q \<and>
    waitingEntries q = [] \<and> taken_log q = [(a, True), (a, True)]"
  by (simp add: new_queue_watch_def pushQueue_queue_def dispatch_step_def dispatch_front_def frontQueue_def
      set_phase_def pushQueue_write_def eventfd_write_def popQueue_read_def eventfd_read_def popQueue_pop_def processQueueEntry_def)

section \<open>Calls without a main loop\<close>

text \<open>On a connection without dispatch thread to which no main loop is attached, an asynchronous call to a
  service that is not available, and does not become so in time, dereferences a pointer that was never
  set: the error reply is pushed to the queue of the main loop without looking whether there is one.\<close>

theorem call_without_main_loop_crashes:
  assumes "put_arguments L ins args m = Some m'"
  shows "callMethodAsync L False accepted ins args m = (OfHandler, [AwaitAvailability m'])"
    and "push_errors h (snd (onAvailability False remaining True m')) (attachMainLoopContext_queue False None) =
      Inl UninitialisedPointer"
  using assms
  by (simp_all add: callMethodAsync_def onAvailability_def attachMainLoopContext_queue_def queueWatch_pushReply_def)

theorem call_without_main_loop_crashes_witness:
  "push_errors 7 (snd (onAvailability False 0 True (createMethodCall (DBusAddress ''s'' ''/p'' ''i'') ''f'' '''')))
     (attachMainLoopContext_queue False None) = Inl UninitialisedPointer"
  by (rule call_without_main_loop_crashes(2)[where L = "some_args some_ext" and ins = "[]" and args = "[]"])
    (simp add: put_arguments_def)

text \<open>With a main loop the error reply is what waits in the queue.\<close>

lemma call_with_main_loop_queued:
  "\<exists>q. push_errors h (snd (onAvailability False remaining True m)) (attachMainLoopContext_queue True None) = Inr (Some q) \<and>
    waitingEntries q = [MsgReply (createMethodError UNKNOWN_METHOD '''' m) h] \<and> queue_readable q"
  by (simp add: onAvailability_def attachMainLoopContext_queue_def queueWatch_pushReply_def new_queue_watch_def
      pushQueue_queue_def pushQueue_write_def eventfd_write_def queue_readable_def)

section \<open>Flags\<close>

lemma bit_power_flag: "n < 32 \<Longrightarrow> bit (2 ^ n :: u32) m \<longleftrightarrow> m = n"
  by (auto simp: bit_exp_iff possible_bit_def)

lemma flag_bits:
  "bit POLLIN n \<longleftrightarrow> n = 0" "bit POLLOUT n \<longleftrightarrow> n = 2" "bit POLLERR n \<longleftrightarrow> n = 3" "bit POLLHUP n \<longleftrightarrow> n = 4"
  "bit WATCH_READABLE n \<longleftrightarrow> n = 0" "bit WATCH_WRITABLE n \<longleftrightarrow> n = 1" "bit WATCH_ERROR n \<longleftrightarrow> n = 2" "bit WATCH_HANGUP n \<longleftrightarrow> n = 3"
  using bit_power_flag[of 0 n] bit_power_flag[of 1 n] bit_power_flag[of 2 n] bit_power_flag[of 3 n] bit_power_flag[of 4 n]
  by (simp_all add: POLLIN_def POLLOUT_def POLLERR_def POLLHUP_def WATCH_READABLE_def WATCH_WRITABLE_def WATCH_ERROR_def
      WATCH_HANGUP_def)

lemma flag_test:
  fixes w :: u32
  assumes "\<And>m. bit F m \<longleftrightarrow> m = n"
  shows "w AND F \<noteq> 0 \<longleftrightarrow> bit w n"
proof -
  have "w AND F = 0 \<longleftrightarrow> (\<forall>m. \<not> bit (w AND F) m)"
    by (metis bit_0_eq bit_word_eqI bot_apply bot_bool_def)
  then show ?thesis using assms by (simp add: bit_and_iff)
qed

lemmas flag_tests = flag_test[OF flag_bits(1)] flag_test[OF flag_bits(2)] flag_test[OF flag_bits(3)] flag_test[OF flag_bits(4)]
  flag_test[OF flag_bits(5)] flag_test[OF flag_bits(6)] flag_test[OF flag_bits(7)] flag_test[OF flag_bits(8)]

lemma bit_dbusWatchFlags:
  "bit (dbusWatchFlags e) n \<longleftrightarrow> n = 0 \<and> bit e 0 \<or> n = 1 \<and> bit e 2 \<or> n = 2 \<and> bit e 3 \<or> n = 3 \<and> bit e 4"
  by (cases "n \<in> {0, 1, 2, 3}") (auto simp: dbusWatchFlags_def flag_bits bit_or_iff bit_and_iff bit_drop_bit_eq numeral_eq_Suc)

lemma bit_poll_flags: "bit (poll_flags f) n \<longleftrightarrow> n = 0 \<and> bit f 0 \<or> n = 2 \<and> bit f 1"
  by (auto simp: poll_flags_def flag_bits flag_tests bit_or_iff)

text \<open>The flags of a poll reach libdbus as the watch flags they stand for, and nothing else does; what
  \<open>startWatching\<close> asks the poll for comes back as the readable and writable flags of the watch.\<close>

theorem watch_flags_translate:
  "(dbusWatchFlags e AND WATCH_READABLE \<noteq> 0) = (e AND POLLIN \<noteq> 0)"
  "(dbusWatchFlags e AND WATCH_WRITABLE \<noteq> 0) = (e AND POLLOUT \<noteq> 0)"
  "(dbusWatchFlags e AND WATCH_ERROR \<noteq> 0) = (e AND POLLERR \<noteq> 0)"
  "(dbusWatchFlags e AND WATCH_HANGUP \<noteq> 0) = (e AND POLLHUP \<noteq> 0)"
  "dbusWatchFlags (poll_flags f) = f AND (WATCH_READABLE OR WATCH_WRITABLE)"
proof -
  show "dbusWatchFlags (poll_flags f) = f AND (WATCH_READABLE OR WATCH_WRITABLE)"
    by (rule bit_word_eqI) (auto simp: bit_dbusWatchFlags bit_poll_flags flag_bits bit_and_iff bit_or_iff)
qed (simp_all add: flag_tests bit_dbusWatchFlags)

text \<open>A watch that is not enabled is deregistered and then registered all the same.\<close>

lemma disabled_watch_registered: "snd (startWatching False True f) = [DeregisterWatch, RegisterWatch]"
  by (simp add: startWatching_def stopWatching_def)

end
