(* ===== verification/Watch_Binding.thy ===== *)
theory Watch_Binding
  imports Queue_Watch
begin

text \<open>
  The watches that libdbus asks a connection to observe (\<open>onAddWatch\<close>, \<open>onRemoveWatch\<close>, \<open>onToggleWatch\<close> in
  \<open>DBusConnection.cpp\<close>). For a watch of libdbus there is at most one \<open>DBusWatch\<close>, which libdbus keeps as the
  data of its watch; the main loop context polls the objects registered at it.

  A watch of libdbus is a number, a \<open>DBusWatch\<close> the number of its allocation. \<open>present\<close> and \<open>enabled\<close> belong to
  libdbus, which calls the three functions when it makes a watch, disables or enables it, and removes it.
\<close>

record watches =
  present :: "nat set"
  enabled :: "nat set"
  watchData :: "nat \<rightharpoonup> nat"
  nextWatch :: nat
  registeredWatches :: "nat list"

definition new_watches :: watches where
  "new_watches = \<lparr>present = {}, enabled = {}, watchData = Map.empty, nextWatch = 0, registeredWatches = []\<rparr>"

text \<open>What \<open>startWatching\<close> and \<open>stopWatching\<close> of the object \<open>d\<close> do at the context.\<close>

fun context_calls :: "nat \<Rightarrow> context_call list \<Rightarrow> watches \<Rightarrow> watches" where
  "context_calls d [] s = s"
| "context_calls d (RegisterWatch # cs) s = context_calls d cs (s\<lparr>registeredWatches := registeredWatches s @ [d]\<rparr>)"
| "context_calls d (DeregisterWatch # cs) s = context_calls d cs (s\<lparr>registeredWatches := remove1 d (registeredWatches s)\<rparr>)"

definition isReadyToBeWatched :: "nat \<Rightarrow> watches \<Rightarrow> bool" where
  "isReadyToBeWatched w s \<longleftrightarrow> w \<in> enabled s"

definition start_watch :: "nat \<Rightarrow> nat \<Rightarrow> watches \<Rightarrow> watches" where
  "start_watch w d s = context_calls d (snd (startWatching (w \<in> enabled s) True 0)) s"

definition stop_watch :: "nat \<Rightarrow> watches \<Rightarrow> watches" where
  "stop_watch d s = context_calls d (stopWatching True) s"

text \<open>\<open>new DBusWatch\<close> with \<open>dbus_watch_set_data\<close>.\<close>

definition make_watch :: "nat \<Rightarrow> watches \<Rightarrow> nat \<times> watches" where
  "make_watch w s = (nextWatch s, s\<lparr>nextWatch := nextWatch s + 1, watchData := (watchData s)(w \<mapsto> nextWatch s)\<rparr>)"

definition onAddWatch :: "bool \<Rightarrow> nat \<Rightarrow> watches \<Rightarrow> bool \<times> watches" where
  "onAddWatch has_context w s =
     (if \<not> has_context then (False, s)
      else
        (let (d, s1) = make_watch w s
         in if isReadyToBeWatched w s1 then (True, start_watch w d s1)
            else (True, s1\<lparr>watchData := (watchData s1)(w := None)\<rparr>)))"

definition onRemoveWatch :: "nat \<Rightarrow> watches \<Rightarrow> watches" where
  "onRemoveWatch w s =
     (case watchData s w of
        None \<Rightarrow> s
      | Some d \<Rightarrow>
          (let s1 = (if isReadyToBeWatched w s then stop_watch d s else s)
           in s1\<lparr>watchData := (watchData s1)(w := None)\<rparr>))"

definition onToggleWatch :: "bool \<Rightarrow> nat \<Rightarrow> watches \<Rightarrow> watches" where
  "onToggleWatch has_context w s =
     (if \<not> has_context then s
      else
        (case watchData s w of
           None \<Rightarrow>
             (let (d, s1) = make_watch w s
              in if isReadyToBeWatched w s1 then start_watch w d s1 else s1)
         | Some d \<Rightarrow>
             (if \<not> isReadyToBeWatched w s then
                (let s1 = stop_watch d s in s1\<lparr>watchData := (watchData s1)(w := None)\<rparr>)
              else start_watch w d s)))"

section \<open>What libdbus does\<close>

text \<open>
  The documented use of the functions: a watch is added once, enabled or not; it is toggled after its
  state has changed; it is removed while it is there, and is disabled when that is done.
\<close>

inductive watch_run :: "watches \<Rightarrow> bool" where
  start: "watch_run new_watches"
| add: "watch_run s \<Longrightarrow> w \<notin> present s \<Longrightarrow>
    onAddWatch True w (s\<lparr>present := insert w (present s), enabled := (if on then insert w (enabled s) else enabled s)\<rparr>) = (r, s') \<Longrightarrow>
    watch_run s'"
| toggle: "watch_run s \<Longrightarrow> w \<in> present s \<Longrightarrow>
    watch_run (onToggleWatch True w (s\<lparr>enabled := (if w \<in> enabled s then enabled s - {w} else insert w (enabled s))\<rparr>))"
| remove: "watch_run s \<Longrightarrow> w \<in> present s \<Longrightarrow>
    watch_run ((onRemoveWatch w s)\<lparr>present := present s - {w}, enabled := enabled s - {w}\<rparr>)"

section \<open>The invariant\<close>

definition watches_inv :: "watches \<Rightarrow> bool" where
  "watches_inv s \<longleftrightarrow> enabled s \<subseteq> present s \<and> (\<forall>w. w \<in> enabled s \<longleftrightarrow> watchData s w \<noteq> None) \<and>
     distinct (registeredWatches s) \<and> (\<forall>d. d \<in> set (registeredWatches s) \<longleftrightarrow> (\<exists>w. watchData s w = Some d)) \<and>
     (\<forall>w w' d. watchData s w = Some d \<longrightarrow> watchData s w' = Some d \<longrightarrow> w = w') \<and>
     (\<forall>w d. watchData s w = Some d \<longrightarrow> d < nextWatch s)"

lemma watches_invI:
  assumes "enabled s \<subseteq> present s" "\<And>w. w \<in> enabled s \<longleftrightarrow> watchData s w \<noteq> None" "distinct (registeredWatches s)"
    and "\<And>d. d \<in> set (registeredWatches s) \<longleftrightarrow> (\<exists>w. watchData s w = Some d)"
    and "\<And>w w' d. watchData s w = Some d \<Longrightarrow> watchData s w' = Some d \<Longrightarrow> w = w'"
    and "\<And>w d. watchData s w = Some d \<Longrightarrow> d < nextWatch s"
  shows "watches_inv s"
  using assms unfolding watches_inv_def by blast

lemma watches_invD:
  assumes "watches_inv s"
  shows "w \<in> enabled s \<Longrightarrow> w \<in> present s" "w \<in> enabled s \<longleftrightarrow> watchData s w \<noteq> None" "distinct (registeredWatches s)"
    and "d \<in> set (registeredWatches s) \<longleftrightarrow> (\<exists>w. watchData s w = Some d)"
    and "watchData s w = Some d \<Longrightarrow> watchData s w' = Some d \<Longrightarrow> w = w'" "watchData s w = Some d \<Longrightarrow> d < nextWatch s"
  using assms unfolding watches_inv_def by blast+

text \<open>Turning one watch on and off.\<close>

lemma ex_upd_fresh: "f w = None \<Longrightarrow> (\<exists>v. (f(w \<mapsto> n)) v = Some e) \<longleftrightarrow> e = n \<or> (\<exists>v. f v = Some e)"
  by (metis fun_upd_apply option.distinct(1) option.inject)

lemma watches_inv_on:
  assumes "watches_inv s" "w \<notin> enabled s" "w \<in> P" "present s \<subseteq> P"
  shows "watches_inv (s\<lparr>present := P, enabled := insert w (enabled s), nextWatch := nextWatch s + 1,
    watchData := (watchData s)(w \<mapsto> nextWatch s), registeredWatches := registeredWatches s @ [nextWatch s]\<rparr>)"
    (is "watches_inv ?s")
proof (rule watches_invI)
  note d = watches_invD[OF assms(1)]
  have w: "watchData s w = None" using d(2) assms(2) by blast
  have new: "watchData s v \<noteq> Some (nextWatch s)" for v using d(6) by fastforce
  show "enabled ?s \<subseteq> present ?s" using d(1) assms(3,4) by auto
  show "v \<in> enabled ?s \<longleftrightarrow> watchData ?s v \<noteq> None" for v using d(2) by simp
  show "distinct (registeredWatches ?s)" using d(3) d(4)[of "nextWatch s"] new by simp
  show "e \<in> set (registeredWatches ?s) \<longleftrightarrow> (\<exists>v. watchData ?s v = Some e)" for e
    using d(4)[of e] ex_upd_fresh[of "watchData s", OF w] by (simp del: fun_upd_apply)
  show "u = v" if "watchData ?s u = Some e" "watchData ?s v = Some e" for u v e
    using that d(5)[of u e v] new[of u] new[of v] by (simp split: if_splits)
  show "e < nextWatch ?s" if "watchData ?s v = Some e" for v e
    using that d(6)[of v e] by (auto split: if_splits)
qed

lemma ex_upd_gone:
  assumes "f w = Some d" "\<And>v. f v = Some d \<Longrightarrow> v = w"
  shows "(\<exists>v. (f(w := None)) v = Some e) \<longleftrightarrow> e \<noteq> d \<and> (\<exists>v. f v = Some e)"
proof
  assume "\<exists>v. (f(w := None)) v = Some e"
  then obtain v where "(f(w := None)) v = Some e" ..
  then show "e \<noteq> d \<and> (\<exists>v. f v = Some e)" using assms(2)[of v] by (auto split: if_splits)
next
  assume "e \<noteq> d \<and> (\<exists>v. f v = Some e)"
  then obtain v where "f v = Some e" "e \<noteq> d" by blast
  then show "\<exists>v. (f(w := None)) v = Some e" using assms(1) by (intro exI[of _ v]) auto
qed

lemma watches_inv_off:
  assumes "watches_inv s" "watchData s w = Some d" "P \<subseteq> present s" "present s - {w} \<subseteq> P"
  shows "watches_inv (s\<lparr>present := P, enabled := enabled s - {w}, watchData := (watchData s)(w := None),
    registeredWatches := remove1 d (registeredWatches s)\<rparr>)"
    (is "watches_inv ?s")
proof (rule watches_invI)
  note i = watches_invD[OF assms(1)]
  show "enabled ?s \<subseteq> present ?s" using i(1) assms(4) by auto
  show "v \<in> enabled ?s \<longleftrightarrow> watchData ?s v \<noteq> None" for v using i(2)[of v] by simp
  show "distinct (registeredWatches ?s)" using i(3) by simp
  show "e \<in> set (registeredWatches ?s) \<longleftrightarrow> (\<exists>v. watchData ?s v = Some e)" for e
    using i(3) i(4)[of e] ex_upd_gone[of "watchData s" w d e, OF assms(2) i(5)[OF _ assms(2)]] by (auto simp del: fun_upd_apply)
  show "u = v" if "watchData ?s u = Some e" "watchData ?s v = Some e" for u v e
    using that i(5)[of u e v] by (simp split: if_splits)
  show "e < nextWatch ?s" if "watchData ?s v = Some e" for v e
    using that i(6)[of v e] by (auto split: if_splits)
qed

lemma watches_inv_same:
  "watches_inv s \<Longrightarrow> P \<supseteq> enabled s \<Longrightarrow> watches_inv (s\<lparr>present := P, enabled := enabled s\<rparr>)"
  by (simp add: watches_inv_def)

text \<open>An object that was made and deleted again.\<close>

lemma watches_inv_made:
  "watches_inv s \<Longrightarrow> watches_inv (s\<lparr>present := P, nextWatch := nextWatch s + 1\<rparr>)" if "enabled s \<subseteq> P"
  using that by (auto simp: watches_inv_def less_Suc_eq)

section \<open>The three functions\<close>

lemmas watch_defs = onAddWatch_def onRemoveWatch_def onToggleWatch_def make_watch_def isReadyToBeWatched_def
  start_watch_def stop_watch_def startWatching_def stopWatching_def

lemma watch_idle: "watches_inv s \<Longrightarrow> w \<notin> enabled s \<Longrightarrow> watchData s w = None"
  using watches_invD(2) by blast

lemma watches_inv_add:
  assumes "watches_inv s" "w \<notin> present s"
    and "onAddWatch True w (s\<lparr>present := insert w (present s), enabled := (if on then insert w (enabled s) else enabled s)\<rparr>) = (r, s')"
  shows "watches_inv s'"
proof -
  have w: "w \<notin> enabled s" using watches_invD(1)[OF assms(1)] assms(2) by blast
  note d = watch_idle[OF assms(1) w]
  show ?thesis
  proof (cases on)
    case True
    then have "s' = s\<lparr>present := insert w (present s), enabled := insert w (enabled s), nextWatch := nextWatch s + 1,
        watchData := (watchData s)(w \<mapsto> nextWatch s), registeredWatches := registeredWatches s @ [nextWatch s]\<rparr>"
      using assms(3) by (simp add: watch_defs)
    then show ?thesis using watches_inv_on[OF assms(1) w] by auto
  next
    case False
    have "(watchData s)(w := None) = watchData s" using d by auto
    then have "s' = s\<lparr>present := insert w (present s), nextWatch := nextWatch s + 1\<rparr>"
      using False w assms(3) by (simp add: watch_defs)
    moreover have "enabled s \<subseteq> insert w (present s)" using watches_invD(1)[OF assms(1)] by blast
    ultimately show ?thesis using watches_inv_made[OF _ assms(1)] by simp
  qed
qed

lemma watches_inv_toggle:
  assumes "watches_inv s" "w \<in> present s"
  shows "watches_inv (onToggleWatch True w (s\<lparr>enabled := (if w \<in> enabled s then enabled s - {w} else insert w (enabled s))\<rparr>))"
proof (cases "w \<in> enabled s")
  case True
  then obtain d where d: "watchData s w = Some d" using watches_invD(2)[OF assms(1)] by blast
  have "onToggleWatch True w (s\<lparr>enabled := enabled s - {w}\<rparr>) = s\<lparr>present := present s, enabled := enabled s - {w},
      watchData := (watchData s)(w := None), registeredWatches := remove1 d (registeredWatches s)\<rparr>"
    by (rule watches.equality) (simp_all add: watch_defs d)
  then show ?thesis using watches_inv_off[OF assms(1) d, of "present s"] True by simp
next
  case False
  from watches_inv_on[OF assms(1) False assms(2)] show ?thesis
    using False watch_idle[OF assms(1) False] by (simp add: watch_defs insert_absorb)
qed

lemma watches_inv_remove:
  assumes "watches_inv s" "w \<in> present s"
  shows "watches_inv ((onRemoveWatch w s)\<lparr>present := present s - {w}, enabled := enabled s - {w}\<rparr>)"
proof (cases "w \<in> enabled s")
  case True
  then obtain d where d: "watchData s w = Some d" using watches_invD(2)[OF assms(1)] by blast
  have "(onRemoveWatch w s)\<lparr>present := present s - {w}, enabled := enabled s - {w}\<rparr> =
      s\<lparr>present := present s - {w}, enabled := enabled s - {w},
        watchData := (watchData s)(w := None), registeredWatches := remove1 d (registeredWatches s)\<rparr>"
    by (rule watches.equality) (simp_all add: watch_defs d True)
  then show ?thesis using watches_inv_off[OF assms(1) d, of "present s - {w}"] by simp
next
  case False
  then have "enabled s - {w} = enabled s" by simp
  then show ?thesis
    using watches_inv_same[OF assms(1), of "present s - {w}"] watches_invD(1)[OF assms(1)] watch_idle[OF assms(1) False] False
    by (auto simp: watch_defs)
qed

lemma watch_run_inv: "watch_run s \<Longrightarrow> watches_inv s"
proof (induction rule: watch_run.induct)
  case start
  then show ?case by (simp add: watches_inv_def new_watches_def)
next
  case (add s w on r s')
  then show ?case by (blast intro: watches_inv_add)
next
  case (toggle s w)
  show ?case by (rule watches_inv_toggle[OF toggle.IH toggle.hyps(2)])
next
  case (remove s w)
  show ?case by (rule watches_inv_remove[OF remove.IH remove.hyps(2)])
qed

text \<open>The main loop polls exactly the watches that libdbus has enabled: in every sequence of watches that are
  added, toggled and removed, each enabled watch of libdbus has one \<open>DBusWatch\<close>, which is registered
  once, and nothing else is registered.\<close>

theorem enabled_watches_are_polled:
  assumes "watch_run s"
  shows "distinct (registeredWatches s) \<and> (\<forall>w. w \<in> enabled s \<longleftrightarrow> (\<exists>d\<in>set (registeredWatches s). watchData s w = Some d)) \<and>
    (\<forall>d\<in>set (registeredWatches s). \<exists>!w. watchData s w = Some d)"
proof -
  note d = watches_invD[OF watch_run_inv[OF assms]]
  have "\<exists>!w. watchData s w = Some e" if "e \<in> set (registeredWatches s)" for e using that d(4,5) by blast
  then show ?thesis using d(2,3,4) by blast
qed

theorem enabled_watches_are_polled_witness:
  "\<exists>s. watch_run s \<and> registeredWatches s = [1] \<and> enabled s = {5} \<and> (\<exists>d\<in>set (registeredWatches s). watchData s 5 = Some d)"
proof -
  define s1 where "s1 = new_watches\<lparr>present := {5}, nextWatch := 1\<rparr>"
  define s2 where "s2 = s1\<lparr>enabled := {5}, nextWatch := 2, watchData := [5 \<mapsto> 1], registeredWatches := [1]\<rparr>"
  have "watch_run s1"
    by (rule watch_run.add[OF watch_run.start, of 5 False True]) (simp_all add: s1_def watch_defs new_watches_def)
  then have "watch_run (onToggleWatch True 5 (s1\<lparr>enabled := (if 5 \<in> enabled s1 then enabled s1 - {5} else insert 5 (enabled s1))\<rparr>))"
    by (rule watch_run.toggle) (simp add: s1_def)
  also have "onToggleWatch True 5 (s1\<lparr>enabled := (if 5 \<in> enabled s1 then enabled s1 - {5} else insert 5 (enabled s1))\<rparr>) = s2"
    by (simp add: s1_def s2_def watch_defs new_watches_def)
  finally have r: "watch_run s2" .
  have s2: "registeredWatches s2 = [1]" "enabled s2 = {5}" by (simp_all add: s2_def)
  from enabled_watches_are_polled[OF r] have "\<exists>d\<in>set (registeredWatches s2). watchData s2 5 = Some d" using s2(2) by blast
  with r s2 show ?thesis by blast
qed

end
