(* ===== verification/Attach.thy ===== *)
theory Attach
  imports Watch_Binding
begin

text \<open>
  How a connection is bound to a main loop context (\<open>attachMainLoopContext\<close>, \<open>disconnect\<close> and the destructor in
  \<open>DBusConnection.cpp\<close>): the dispatch sources and watches it registers there, the functions it gives to
  libdbus, and what it takes back. At the end, a connection that is gone has left nothing at the context.

  Objects that are allocated here are numbers; the watches of libdbus and their objects are those of theory
  \<open>Watch_Binding\<close>.
\<close>

section \<open>State\<close>

datatype source = QueueSource nat | ConnectionSource nat

text \<open>
  \<open>contextSources\<close> and \<open>contextQueueWatches\<close> are what the connection has registered at the context, beside the
  watches of \<open>binding\<close>. \<open>haveFunctions\<close> and \<open>haveWakeup\<close> belong to libdbus: whether it has the functions of the
  connection. \<open>isAttached\<close> is whether \<open>mainLoopContext_\<close> was set, \<open>opened\<close> whether \<open>connection_\<close> is not null.
\<close>

record attachment =
  binding :: watches
  contextSources :: "source list"
  contextQueueWatches :: "nat list"
  opened :: bool
  isAttached :: bool
  queueWatch :: "nat option"
  queueDispatchSource :: "source option"
  dispatchSource :: "source option"
  watchContext :: "nat option"
  haveFunctions :: bool
  haveWakeup :: bool
  nextObject :: nat

text \<open>A connection that \<open>dbus_bus_get_private\<close> has just opened; libdbus has watches, but no functions for them.\<close>

definition opened_connection :: "nat list \<Rightarrow> nat set \<Rightarrow> attachment" where
  "opened_connection ws on =
     \<lparr>binding = new_watches\<lparr>present := set ws, enabled := on\<rparr>, contextSources = [], contextQueueWatches = [], opened = True,
      isAttached = False, queueWatch = None, queueDispatchSource = None, dispatchSource = None, watchContext = None,
      haveFunctions = False, haveWakeup = False, nextObject = 0\<rparr>"

section \<open>The functions of libdbus\<close>

text \<open>
  \<open>dbus_connection_set_watch_functions\<close> calls back: new functions are told of watches, then the old functions
  are told to remove them. The list \<open>ws\<close> of the watches it tells of, in its order, is an argument of the model;
  that these are all watches of libdbus, each once, is its documented behaviour and a premise of \<open>attach_run\<close>
  below. \<open>memory\<close> is its result; when it is false nothing has changed. Null functions are told nothing.
\<close>

definition add_watches :: "nat list \<Rightarrow> watches \<Rightarrow> watches" where
  "add_watches ws b = fold (\<lambda>w b. snd (onAddWatch True w b)) ws b"

definition remove_watches :: "nat list \<Rightarrow> watches \<Rightarrow> watches" where
  "remove_watches ws b = fold onRemoveWatch ws b"

definition set_functions :: "nat list \<Rightarrow> bool \<Rightarrow> attachment \<Rightarrow> bool \<times> attachment" where
  "set_functions ws memory s =
     (if \<not> memory then (False, s)
      else (True, s\<lparr>binding := add_watches ws (binding s), haveFunctions := True\<rparr>))"

definition reset_functions :: "nat list \<Rightarrow> attachment \<Rightarrow> attachment" where
  "reset_functions ws s =
     (if haveFunctions s then s\<lparr>binding := remove_watches ws (binding s), haveFunctions := False\<rparr> else s)"

text \<open>Between these calls libdbus makes, toggles and removes watches of its own accord.\<close>

datatype watch_change = Made nat bool | Toggled nat | Gone nat

fun allowed :: "watch_change \<Rightarrow> watches \<Rightarrow> bool" where
  "allowed (Made w on) b = (w \<notin> present b)"
| "allowed (Toggled w) b = (w \<in> present b)"
| "allowed (Gone w) b = (w \<in> present b)"

fun change_watch :: "bool \<Rightarrow> watch_change \<Rightarrow> watches \<Rightarrow> watches" where
  "change_watch told (Made w on) b =
     (let b1 = b\<lparr>present := insert w (present b), enabled := (if on then insert w (enabled b) else enabled b)\<rparr>
      in if told then snd (onAddWatch True w b1) else b1)"
| "change_watch told (Toggled w) b =
     (let b1 = b\<lparr>enabled := (if w \<in> enabled b then enabled b - {w} else insert w (enabled b))\<rparr>
      in if told then onToggleWatch True w b1 else b1)"
| "change_watch told (Gone w) b =
     (let b1 = (if told then onRemoveWatch w b else b)
      in b1\<lparr>present := present b - {w}, enabled := enabled b - {w}\<rparr>)"

section \<open>The connection\<close>

definition allocate :: "attachment \<Rightarrow> nat \<times> attachment" where
  "allocate s = (nextObject s, s\<lparr>nextObject := nextObject s + 1\<rparr>)"

definition registerSource :: "source \<Rightarrow> attachment \<Rightarrow> attachment" where
  "registerSource x s = s\<lparr>contextSources := contextSources s @ [x]\<rparr>"

definition deregisterSource :: "source option \<Rightarrow> attachment \<Rightarrow> attachment" where
  "deregisterSource x s = (case x of None \<Rightarrow> s | Some y \<Rightarrow> s\<lparr>contextSources := remove1 y (contextSources s)\<rparr>)"

definition deregisterQueueWatch :: "nat option \<Rightarrow> attachment \<Rightarrow> attachment" where
  "deregisterQueueWatch x s = (case x of None \<Rightarrow> s | Some q \<Rightarrow> s\<lparr>contextQueueWatches := remove1 q (contextQueueWatches s)\<rparr>)"

text \<open>\<open>alive\<close> is whether the context can be locked.\<close>

definition attachMainLoopContext :: "nat list \<Rightarrow> bool \<Rightarrow> bool \<Rightarrow> attachment \<Rightarrow> bool \<times> attachment" where
  "attachMainLoopContext ws memory alive s =
     (let s0 = s\<lparr>isAttached := True\<rparr>
      in if \<not> alive then (False, s0)
         else
           (let (q, s1) = allocate s0;
                s2 = s1\<lparr>queueWatch := Some q\<rparr>;
                (x, s3) = allocate s2;
                s4 = s3\<lparr>queueDispatchSource := Some (QueueSource x)\<rparr>;
                s5 = registerSource (QueueSource x) s4;
                s6 = s5\<lparr>contextQueueWatches := contextQueueWatches s5 @ [q]\<rparr>;
                (d, s7) = allocate s6;
                s8 = s7\<lparr>dispatchSource := Some (ConnectionSource d)\<rparr>;
                (c, s9) = allocate s8;
                s10 = registerSource (ConnectionSource d) (s9\<lparr>watchContext := Some c\<rparr>)
            in if \<not> opened s10 then (False, s10)
               else set_functions ws memory (s10\<lparr>haveWakeup := True\<rparr>)))"

text \<open>The part of \<open>disconnect\<close> that concerns libdbus; the connection is closed before.\<close>

definition close_connection :: "nat list \<Rightarrow> attachment \<Rightarrow> attachment" where
  "close_connection ws s = (reset_functions ws s)\<lparr>opened := False\<rparr>"

definition destroy_connection :: "nat list \<Rightarrow> bool \<Rightarrow> attachment \<Rightarrow> attachment" where
  "destroy_connection ws alive s =
     (if \<not> (isAttached s \<and> alive) then s
      else
        (let s1 = (if opened s then reset_functions ws s else s);
             s2 = deregisterSource (queueDispatchSource s1) s1;
             s3 = deregisterSource (dispatchSource s2) s2;
             s4 = deregisterQueueWatch (queueWatch s3) s3
         in s4\<lparr>watchContext := None\<rparr>))"

text \<open>The function that libdbus calls to wake the main loop; \<open>data\<close> is a context that may be gone.\<close>

definition onWakeupMainContext :: "bool option \<Rightarrow> nat \<Rightarrow> nat" where
  "onWakeupMainContext data wakeups =
     (case data of None \<Rightarrow> wakeups | Some alive \<Rightarrow> if alive then wakeups + 1 else wakeups)"

section \<open>Runs\<close>

text \<open>
  The life of a connection at one context: it is opened, attached once, closed at most once; libdbus changes its
  watches at any time while it is open.
\<close>

inductive attach_run :: "attachment \<Rightarrow> bool" where
  start: "on \<subseteq> set ws \<Longrightarrow> attach_run (opened_connection ws on)"
| attach: "attach_run s \<Longrightarrow> \<not> isAttached s \<Longrightarrow> distinct ws \<Longrightarrow> set ws = present (binding s) \<Longrightarrow>
    attach_run (snd (attachMainLoopContext ws memory alive s))"
| change: "attach_run s \<Longrightarrow> opened s \<Longrightarrow> allowed x (binding s) \<Longrightarrow>
    attach_run (s\<lparr>binding := change_watch (haveFunctions s) x (binding s)\<rparr>)"
| close: "attach_run s \<Longrightarrow> opened s \<Longrightarrow> set ws = present (binding s) \<Longrightarrow> attach_run (close_connection ws s)"


section \<open>What is registered at the context\<close>

text \<open>
  The invariant of the watches without the part that ties an enabled watch to its object: it holds also while
  libdbus tells of its watches one after the other.
\<close>

definition tied :: "watches \<Rightarrow> bool" where
  "tied b \<longleftrightarrow> (\<forall>w. watchData b w \<noteq> None \<longrightarrow> w \<in> enabled b) \<and> distinct (registeredWatches b) \<and>
     (\<forall>d. d \<in> set (registeredWatches b) \<longleftrightarrow> (\<exists>w. watchData b w = Some d)) \<and>
     (\<forall>w w' d. watchData b w = Some d \<longrightarrow> watchData b w' = Some d \<longrightarrow> w = w') \<and>
     (\<forall>w d. watchData b w = Some d \<longrightarrow> d < nextWatch b)"

lemma tiedD:
  assumes "tied b"
  shows "watchData b w \<noteq> None \<Longrightarrow> w \<in> enabled b" "distinct (registeredWatches b)"
    and "d \<in> set (registeredWatches b) \<longleftrightarrow> (\<exists>w. watchData b w = Some d)"
    and "watchData b w = Some d \<Longrightarrow> watchData b w' = Some d \<Longrightarrow> w = w'" "watchData b w = Some d \<Longrightarrow> d < nextWatch b"
  using assms unfolding tied_def by blast+

lemma watches_inv_tied:
  "watches_inv b \<longleftrightarrow> tied b \<and> enabled b \<subseteq> present b \<and> (\<forall>w\<in>enabled b. watchData b w \<noteq> None)"
  unfolding watches_inv_def tied_def by blast

text \<open>Telling of one watch, and taking one back.\<close>

lemma tied_add:
  assumes "tied b" "watchData b w = None"
  shows "tied (snd (onAddWatch True w b)) \<and> enabled (snd (onAddWatch True w b)) = enabled b \<and>
    present (snd (onAddWatch True w b)) = present b \<and>
    (\<forall>v. watchData (snd (onAddWatch True w b)) v \<noteq> None \<longleftrightarrow> watchData b v \<noteq> None \<or> v = w \<and> w \<in> enabled b)"
proof (cases "w \<in> enabled b")
  case True
  let ?b = "b\<lparr>nextWatch := nextWatch b + 1, watchData := (watchData b)(w \<mapsto> nextWatch b),
    registeredWatches := registeredWatches b @ [nextWatch b]\<rparr>"
  have e: "snd (onAddWatch True w b) = ?b" using True by (simp add: watch_defs)
  note d = tiedD[OF assms(1)]
  have new: "watchData b v \<noteq> Some (nextWatch b)" for v using d(5) by fastforce
  have "tied ?b"
    unfolding tied_def
  proof (intro conjI allI impI)
    show "v \<in> enabled ?b" if "watchData ?b v \<noteq> None" for v using that d(1)[of v] True by (auto split: if_splits)
    show "distinct (registeredWatches ?b)" using d(2) d(3)[of "nextWatch b"] new by simp
    show "x \<in> set (registeredWatches ?b) \<longleftrightarrow> (\<exists>v. watchData ?b v = Some x)" for x
      using d(3)[of x] ex_upd_fresh[of "watchData b", OF assms(2)] by (simp del: fun_upd_apply)
    show "u = v" if "watchData ?b u = Some x" "watchData ?b v = Some x" for u v x
      using that d(4)[of u x v] new[of u] new[of v] by (simp split: if_splits)
    show "x < nextWatch ?b" if "watchData ?b v = Some x" for v x
      using that d(5)[of v x] by (auto split: if_splits)
  qed
  then show ?thesis using True by (auto simp: e)
next
  case False
  have "(watchData b)(w := None) = watchData b" using assms(2) by auto
  then have "snd (onAddWatch True w b) = b\<lparr>nextWatch := nextWatch b + 1\<rparr>" using False by (simp add: watch_defs)
  then show ?thesis using assms(1) False by (auto simp: tied_def less_Suc_eq)
qed

lemma tied_remove:
  assumes "tied b"
  shows "tied (onRemoveWatch w b) \<and> watchData (onRemoveWatch w b) = (watchData b)(w := None)"
proof (cases "watchData b w")
  case None
  then show ?thesis using assms by (auto simp: onRemoveWatch_def)
next
  case (Some d)
  note i = tiedD[OF assms]
  let ?b = "b\<lparr>watchData := (watchData b)(w := None), registeredWatches := remove1 d (registeredWatches b)\<rparr>"
  have "onRemoveWatch w b = ?b" using Some i(1)[of w] by (simp add: watch_defs)
  moreover have "tied ?b"
    unfolding tied_def
  proof (intro conjI allI impI)
    show "v \<in> enabled ?b" if "watchData ?b v \<noteq> None" for v using that i(1)[of v] by (auto split: if_splits)
    show "distinct (registeredWatches ?b)" using i(2) by simp
    show "x \<in> set (registeredWatches ?b) \<longleftrightarrow> (\<exists>v. watchData ?b v = Some x)" for x
      using i(2) i(3)[of x] ex_upd_gone[of "watchData b" w d x, OF Some i(4)[OF _ Some]] by (auto simp del: fun_upd_apply)
    show "u = v" if "watchData ?b u = Some x" "watchData ?b v = Some x" for u v x
      using that i(4)[of u x v] by (simp split: if_splits)
    show "x < nextWatch ?b" if "watchData ?b v = Some x" for v x
      using that i(5)[of v x] by (auto split: if_splits)
  qed
  ultimately show ?thesis by simp
qed

lemma tied_add_watches:
  assumes "tied b" "distinct ws" "\<And>w. w \<in> set ws \<Longrightarrow> watchData b w = None"
  shows "tied (add_watches ws b) \<and> enabled (add_watches ws b) = enabled b \<and> present (add_watches ws b) = present b \<and>
    (\<forall>v. watchData (add_watches ws b) v \<noteq> None \<longleftrightarrow> watchData b v \<noteq> None \<or> v \<in> set ws \<inter> enabled b)"
  using assms
proof (induction ws arbitrary: b)
  case Nil
  then show ?case by (simp add: add_watches_def)
next
  case (Cons w ws)
  let ?b = "snd (onAddWatch True w b)"
  have a: "tied ?b" "enabled ?b = enabled b" "present ?b = present b"
      "\<And>v. watchData ?b v \<noteq> None \<longleftrightarrow> watchData b v \<noteq> None \<or> v = w \<and> w \<in> enabled b"
    using tied_add[of b w] Cons.prems by auto
  have "add_watches (w # ws) b = add_watches ws ?b" by (simp add: add_watches_def)
  moreover have "watchData ?b v = None" if "v \<in> set ws" for v using a(4)[of v] that Cons.prems by auto
  ultimately show ?case using Cons.IH[OF a(1)] Cons.prems(2) a(2,3,4) by auto
qed

lemma tied_remove_watches:
  "tied b \<Longrightarrow> tied (remove_watches ws b) \<and> (\<forall>w. watchData (remove_watches ws b) w = (if w \<in> set ws then None else watchData b w))"
proof (induction ws arbitrary: b)
  case Nil
  then show ?case by (simp add: remove_watches_def)
next
  case (Cons w ws)
  have "remove_watches (w # ws) b = remove_watches ws (onRemoveWatch w b)" by (simp add: remove_watches_def)
  then show ?case using Cons.IH[of "onRemoveWatch w b"] tied_remove[OF Cons.prems, of w] by simp
qed

text \<open>Setting the functions gives every enabled watch its object, resetting them deregisters every object.\<close>

lemma add_watches_inv:
  assumes "watchData b = Map.empty" "registeredWatches b = []" "enabled b \<subseteq> present b" "distinct ws" "set ws = present b"
  shows "watches_inv (add_watches ws b) \<and> present (add_watches ws b) = present b"
proof -
  have "tied b" using assms(1,2) by (simp add: tied_def)
  from tied_add_watches[OF this assms(4)] show ?thesis
    using assms by (auto simp: watches_inv_tied)
qed

lemma remove_watches_none:
  assumes "watches_inv b" "set ws = present b"
  shows "registeredWatches (remove_watches ws b) = []"
proof -
  note r = tied_remove_watches[of b ws]
  have t: "tied b" using assms(1) by (simp add: watches_inv_tied)
  have "watchData (remove_watches ws b) w = None" for w
    using r[OF t] watches_invD(1,2)[OF assms(1), of w] assms(2) by (cases "w \<in> set ws") auto
  then show ?thesis using tiedD(3)[of "remove_watches ws b"] r[OF t]
    by (metis empty_iff list.set_intros(1) neq_Nil_conv option.distinct(1))
qed

lemma change_watch_inv:
  assumes "watches_inv b" "allowed x b"
  shows "watches_inv (change_watch True x b)"
proof (cases x)
  case (Made w on)
  obtain r b1 where a:
      "onAddWatch True w (b\<lparr>present := insert w (present b), enabled := (if on then insert w (enabled b) else enabled b)\<rparr>) = (r, b1)"
    by fastforce
  have "w \<notin> present b" using assms(2) Made by simp
  from watches_inv_add[OF assms(1) this a] show ?thesis unfolding Made change_watch.simps Let_def a by simp
next
  case (Toggled w)
  then have "w \<in> present b" using assms(2) by simp
  from watches_inv_toggle[OF assms(1) this] show ?thesis unfolding Toggled change_watch.simps Let_def if_True .
next
  case (Gone w)
  then have "w \<in> present b" using assms(2) by simp
  from watches_inv_remove[OF assms(1) this] show ?thesis
    unfolding Gone change_watch.simps Let_def if_True by (simp add: onRemoveWatch_def stop_watch_def stopWatching_def split: option.splits)
qed

section \<open>The invariant\<close>

definition attach_inv :: "attachment \<Rightarrow> bool" where
  "attach_inv s \<longleftrightarrow>
     (if haveFunctions s then opened s \<and> watches_inv (binding s)
      else registeredWatches (binding s) = [] \<and>
        (opened s \<longrightarrow> watchData (binding s) = Map.empty \<and> enabled (binding s) \<subseteq> present (binding s))) \<and>
     contextSources s = (case queueDispatchSource s of None \<Rightarrow> [] | Some x \<Rightarrow> [x]) @ (case dispatchSource s of None \<Rightarrow> [] | Some x \<Rightarrow> [x]) \<and>
     contextQueueWatches s = (case queueWatch s of None \<Rightarrow> [] | Some x \<Rightarrow> [x]) \<and>
     (\<not> isAttached s \<longrightarrow> \<not> haveFunctions s \<and> queueDispatchSource s = None \<and> dispatchSource s = None \<and> queueWatch s = None)"

lemma attach_inv_attach:
  assumes "attach_inv s" "\<not> isAttached s" "distinct ws" "set ws = present (binding s)"
  shows "attach_inv (snd (attachMainLoopContext ws memory alive s))"
proof -
  have n: "\<not> haveFunctions s" "queueDispatchSource s = None" "dispatchSource s = None" "queueWatch s = None"
      "contextSources s = []" "contextQueueWatches s = []" "registeredWatches (binding s) = []"
    using assms(1,2) by (auto simp: attach_inv_def)
  have "watches_inv (add_watches ws (binding s))" if "opened s"
    using add_watches_inv[of "binding s" ws] assms that n by (auto simp: attach_inv_def)
  moreover have "opened s \<Longrightarrow> watchData (binding s) = Map.empty \<and> enabled (binding s) \<subseteq> present (binding s)"
    using assms(1) n by (auto simp: attach_inv_def)
  ultimately show ?thesis using n
    by (auto simp: attachMainLoopContext_def set_functions_def allocate_def registerSource_def attach_inv_def Let_def)
qed

lemma change_untold:
  assumes "allowed x b" "watchData b = Map.empty" "enabled b \<subseteq> present b"
  shows "watchData (change_watch False x b) = Map.empty" "registeredWatches (change_watch False x b) = registeredWatches b"
    and "enabled (change_watch False x b) \<subseteq> present (change_watch False x b)"
  using assms by (cases x; auto simp: Let_def)+

lemma attach_inv_change:
  assumes "attach_inv s" "opened s" "allowed x (binding s)"
  shows "attach_inv (s\<lparr>binding := change_watch (haveFunctions s) x (binding s)\<rparr>)"
proof (cases "haveFunctions s")
  case True
  then have "watches_inv (change_watch True x (binding s))"
    using assms(1,3) change_watch_inv by (auto simp: attach_inv_def)
  then show ?thesis using assms(1) True by (auto simp: attach_inv_def)
next
  case False
  then have "watchData (binding s) = Map.empty" "enabled (binding s) \<subseteq> present (binding s)"
    using assms(1,2) by (auto simp: attach_inv_def)
  from change_untold[OF assms(3) this] show ?thesis using assms(1,2) False by (auto simp: attach_inv_def)
qed

lemma attach_inv_reset:
  assumes "attach_inv s" "set ws = present (binding s)"
  shows "registeredWatches (binding (reset_functions ws s)) = []" "\<not> haveFunctions (reset_functions ws s)"
  using assms remove_watches_none[of "binding s" ws] by (auto simp: reset_functions_def attach_inv_def)

lemma reset_frame [simp]:
  "contextSources (reset_functions ws s) = contextSources s" "contextQueueWatches (reset_functions ws s) = contextQueueWatches s"
  "queueDispatchSource (reset_functions ws s) = queueDispatchSource s" "dispatchSource (reset_functions ws s) = dispatchSource s"
  "queueWatch (reset_functions ws s) = queueWatch s" "isAttached (reset_functions ws s) = isAttached s"
  by (simp_all add: reset_functions_def)

lemma attach_run_inv: "attach_run s \<Longrightarrow> attach_inv s"
proof (induction rule: attach_run.induct)
  case (start on ws)
  then show ?case by (simp add: attach_inv_def opened_connection_def new_watches_def)
next
  case (attach s ws memory alive)
  then show ?case by (blast intro: attach_inv_attach)
next
  case (change s x)
  then show ?case by (blast intro: attach_inv_change)
next
  case (close s ws)
  then show ?case using attach_inv_reset[OF close.IH close.hyps(3)]
    by (auto simp: close_connection_def attach_inv_def)
qed

text \<open>C38: a connection that is destroyed leaves nothing at its main loop context: whatever watches libdbus made, toggled
  and removed since the connection was attached, and whether it was disconnected before or not, no watch, no queue watch and no
  dispatch source of it is registered there any more.\<close>

theorem destroyed_connection_leaves_context:
  assumes "attach_run s" "set ws = present (binding s)" "s' = destroy_connection ws True s"
  shows "registeredWatches (binding s') = [] \<and> contextSources s' = [] \<and> contextQueueWatches s' = []"
proof -
  note i = attach_run_inv[OF assms(1)]
  have "registeredWatches (binding s) = []" if "\<not> opened s \<or> \<not> isAttached s"
    using i that by (auto simp: attach_inv_def split: if_splits)
  then show ?thesis
    using i attach_inv_reset(1)[OF i assms(2)] unfolding assms(3)
    by (auto simp: destroy_connection_def deregisterSource_def deregisterQueueWatch_def attach_inv_def Let_def split: option.splits)
qed

text \<open>A connection with two watches, the second is switched on after it was attached.\<close>

definition example_attachment :: attachment where
  "example_attachment = snd (attachMainLoopContext [5, 7] True True (opened_connection [5, 7] {5}))"

definition example_toggled :: attachment where
  "example_toggled = example_attachment\<lparr>binding := change_watch (haveFunctions example_attachment) (Toggled 7) (binding example_attachment)\<rparr>"

theorem destroyed_connection_leaves_context_witness:
  "registeredWatches (binding example_toggled) = [0, 2] \<and> contextSources example_toggled = [QueueSource 1, ConnectionSource 2] \<and>
   registeredWatches (binding (destroy_connection [7, 5] True example_toggled)) = [] \<and>
   contextSources (destroy_connection [7, 5] True example_toggled) = []"
proof -
  have "attach_run example_attachment"
    unfolding example_attachment_def by (intro attach_run.attach attach_run.start) (simp_all add: opened_connection_def new_watches_def)
  moreover have a: "opened example_attachment" "present (binding example_attachment) = {5, 7}" "haveFunctions example_attachment"
    by (simp_all add: example_attachment_def attachMainLoopContext_def opened_connection_def new_watches_def allocate_def
        registerSource_def set_functions_def add_watches_def watch_defs)
  ultimately have r: "attach_run example_toggled"
    unfolding example_toggled_def by (intro attach_run.change) simp_all
  have "registeredWatches (binding example_toggled) = [0, 2]" "contextSources example_toggled = [QueueSource 1, ConnectionSource 2]"
      "present (binding example_toggled) = {5, 7}"
    by (simp_all add: example_toggled_def example_attachment_def attachMainLoopContext_def opened_connection_def new_watches_def allocate_def
        registerSource_def set_functions_def add_watches_def watch_defs)
  moreover have "set [7, 5] = present (binding example_toggled)" using calculation(3) by auto
  ultimately show ?thesis using destroyed_connection_leaves_context[OF r, of "[7, 5]", OF _ refl] by simp
qed

end
