(* ===== verification/Lifecycle.thy ===== *)
theory Lifecycle
  imports Async_Reply
begin

text \<open>
  The life of a connection: \<open>connect\<close>, \<open>disconnect\<close> and the threads they start and end
  (\<open>DBusConnection.cpp\<close>), with the \<open>CompletionHelper\<close> that joins at exit what cannot be joined before.
  The names and match rules that both functions handle are in theory \<open>Connection\<close>.

  \<open>disconnect\<close> holds \<open>connectionGuard_\<close> from its first line to the end of the wait for a running
  dispatch, but for the wait itself; the rest runs without a lock. So it has three kinds of steps, which
  interleave with the steps of \<open>setDispatching\<close> on other threads.
\<close>

section \<open>The state\<close>

datatype disconnecting = Idle | Waits | Unlocked

datatype fate = Joined | HandedOver | Detached

text \<open>
  \<open>hconnections\<close> and \<open>hthreads\<close> are the members of the \<open>CompletionHelper\<close>, which is null once the statics of
  the program are gone. The other threads are numbers. \<open>status_told\<close>, \<open>thread_fates\<close> and \<open>inDispatch\<close>, the threads
  between an accepted \<open>setDispatching(true)\<close> and the next \<open>setDispatching(false)\<close>, are logs.
\<close>

record completion =
  hconnections :: "nat list"
  hthreads :: "nat list"

record life =
  isOpen :: bool
  dstate :: dispatch_state
  dispatchThread :: "nat option"
  enforcerThread :: "nat option"
  enforcerCancelled :: bool
  nextThread :: nat
  helper :: "completion option"
  phase_at :: "nat \<Rightarrow> disconnecting"
  status_told :: "bool list"
  thread_fates :: "(nat \<times> fate) list"
  inDispatch :: "nat list"

definition new_dispatch_state :: dispatch_state where
  "new_dispatch_state = \<lparr>isDispatching = False, isDisconnecting = False, isWaitingOnFinishedDispatching = False,
     dispatchThreads = {}, notified = 0\<rparr>"

definition new_life :: "nat \<Rightarrow> completion option \<Rightarrow> life" where
  "new_life n h =
     \<lparr>isOpen = False, dstate = new_dispatch_state, dispatchThread = None, enforcerThread = None, enforcerCancelled = False,
      nextThread = n, helper = h, phase_at = (\<lambda>_. Idle), status_told = [], thread_fates = [], inDispatch = []\<rparr>"

section \<open>The completion helper\<close>

definition registerConnection :: "nat \<Rightarrow> completion \<Rightarrow> completion" where
  "registerConnection c h = h\<lparr>hconnections := List.insert c (hconnections h)\<rparr>"

definition unregisterConnection :: "nat \<Rightarrow> completion \<Rightarrow> completion" where
  "unregisterConnection c h = h\<lparr>hconnections := remove1 c (hconnections h)\<rparr>"

definition joinOnExit :: "nat \<Rightarrow> nat \<Rightarrow> completion \<Rightarrow> completion" where
  "joinOnExit c t h =
     (if c \<in> set (hconnections h) then
        (if t \<in> set (hthreads h) then h else h\<lparr>hthreads := hthreads h @ [t]\<rparr>)
      else h)"

section \<open>connect\<close>

text \<open>
  \<open>self\<close> is the address of the connection, \<open>got\<close> whether libdbus returned one. A dispatch thread runs the
  main loop that is made for it.
\<close>

definition start_thread :: "life \<Rightarrow> nat \<times> life" where
  "start_thread s = (nextThread s, s\<lparr>nextThread := nextThread s + 1\<rparr>)"

definition life_connect :: "nat \<Rightarrow> bool \<Rightarrow> bool \<Rightarrow> life \<Rightarrow> bool \<times> life" where
  "life_connect self startDispatchThread got s =
     (if isOpen s then (True, s)
      else if \<not> got then (False, s)
      else
        (let (e, s1) = start_thread (s\<lparr>isOpen := True\<rparr>);
             s2 = s1\<lparr>enforcerThread := Some e, status_told := status_told s1 @ [True],
                     dstate := (dstate s1)\<lparr>isDisconnecting := False\<rparr>\<rparr>;
             s3 = (if startDispatchThread
                   then (let (d, s') = start_thread s2 in s'\<lparr>dispatchThread := Some d\<rparr>)
                   else s2)
         in (True, s3\<lparr>helper := map_option (registerConnection self) (helper s3)\<rparr>)))"

section \<open>disconnect\<close>

definition set_at :: "nat \<Rightarrow> disconnecting \<Rightarrow> life \<Rightarrow> life" where
  "set_at me p s = s\<lparr>phase_at := (phase_at s)(me := p)\<rparr>"

text \<open>The first section, up to the wait or the unlock. A connection that is not connected ends it.\<close>

definition disconnect_begin :: "nat \<Rightarrow> life \<Rightarrow> life" where
  "disconnect_begin me s =
     (let s1 = s\<lparr>dstate := (dstate s)\<lparr>isDisconnecting := True\<rparr>\<rparr>
      in if isOpen s1 then
           (let s2 = s1\<lparr>status_told := status_told s1 @ [False]\<rparr>
            in if me \<notin> dispatchThreads (dstate s2) \<and> isDispatching (dstate s2)
               then set_at me Waits (s2\<lparr>dstate := (dstate s2)\<lparr>isWaitingOnFinishedDispatching := True\<rparr>\<rparr>)
               else set_at me Unlocked s2)
         else s1)"

text \<open>A return of the wait, notified or not.\<close>

definition disconnect_wake :: "nat \<Rightarrow> life \<Rightarrow> life" where
  "disconnect_wake me s =
     (if isDispatching (dstate s) then s
      else set_at me Unlocked (s\<lparr>dstate := (dstate s)\<lparr>isWaitingOnFinishedDispatching := False\<rparr>\<rparr>))"

text \<open>What becomes of a thread that \<open>disconnect\<close> ends on thread \<open>me\<close>.\<close>

definition end_thread :: "nat \<Rightarrow> nat \<Rightarrow> nat \<Rightarrow> life \<Rightarrow> life" where
  "end_thread self me t s =
     (if me \<noteq> t then s\<lparr>thread_fates := thread_fates s @ [(t, Joined)]\<rparr>
      else (case helper s of
              Some h \<Rightarrow> s\<lparr>helper := Some (joinOnExit self t h), thread_fates := thread_fates s @ [(t, HandedOver)]\<rparr>
            | None \<Rightarrow> s\<lparr>thread_fates := thread_fates s @ [(t, Detached)]\<rparr>))"

text \<open>
  The rest, without the lock. When another \<open>disconnect\<close> has finished meanwhile, it uses the null connection and
  a thread that was deleted.
\<close>

datatype life_error = UseAfterDisconnect

definition disconnect_finish :: "nat \<Rightarrow> nat \<Rightarrow> life \<Rightarrow> life_error + life" where
  "disconnect_finish self me s =
     (if \<not> isOpen s then Inl UseAfterDisconnect
      else
        (let s1 = (case dispatchThread s of
                     None \<Rightarrow> s
                   | Some d \<Rightarrow> (end_thread self me d s)\<lparr>dispatchThread := None\<rparr>);
             s2 = s1\<lparr>enforcerCancelled := True\<rparr>;
             s3 = (case enforcerThread s2 of None \<Rightarrow> s2 | Some e \<Rightarrow> end_thread self me e s2);
             s4 = s3\<lparr>helper := map_option (unregisterConnection self) (helper s3)\<rparr>
         in Inr (set_at me Idle (s4\<lparr>isOpen := False\<rparr>))))"

definition life_disconnect :: "nat \<Rightarrow> nat \<Rightarrow> life \<Rightarrow> life_error + life" where
  "life_disconnect self me s =
     (case phase_at s me of
        Idle \<Rightarrow> Inr (disconnect_begin me s)
      | Waits \<Rightarrow> Inr (disconnect_wake me s)
      | Unlocked \<Rightarrow> disconnect_finish self me s)"

section \<open>Dispatching\<close>

definition life_setDispatching :: "nat \<Rightarrow> bool \<Rightarrow> life \<Rightarrow> bool \<times> life" where
  "life_setDispatching t b s =
     (case setDispatching t b (dstate s) of
        (accepted, d) \<Rightarrow>
          (accepted, s\<lparr>dstate := d,
             inDispatch := (if b then (if accepted then t # inDispatch s else inDispatch s) else remove1 t (inDispatch s))\<rparr>))"

text \<open>The loop of the enforcer thread is entered while it is not cancelled.\<close>

definition enforcer_goes_on :: "life \<Rightarrow> bool" where
  "enforcer_goes_on s \<longleftrightarrow> \<not> enforcerCancelled s"

section \<open>Runs\<close>

datatype life_action = ConnectAs bool bool | DisconnectBy nat | Dispatching nat bool

fun life_step :: "nat \<Rightarrow> life_action \<Rightarrow> life \<Rightarrow> life_error + life" where
  "life_step self (ConnectAs start got) s = Inr (snd (life_connect self start got s))"
| "life_step self (DisconnectBy me) s = life_disconnect self me s"
| "life_step self (Dispatching t b) s = Inr (snd (life_setDispatching t b s))"

fun life_run :: "nat \<Rightarrow> life_action list \<Rightarrow> life \<Rightarrow> life_error + life" where
  "life_run self [] s = Inr s"
| "life_run self (a # as) s = (case life_step self a s of Inl err \<Rightarrow> Inl err | Inr s1 \<Rightarrow> life_run self as s1)"

text \<open>
  A main loop: one thread \<open>m\<close> dispatches, one dispatch at a time, and one thread \<open>me\<close> disconnects.
\<close>

fun orderly :: "nat \<Rightarrow> nat \<Rightarrow> life_action \<Rightarrow> life \<Rightarrow> bool" where
  "orderly m me (ConnectAs start got) s = True"
| "orderly m me (DisconnectBy t) s = (t = me)"
| "orderly m me (Dispatching t b) s = (t = m \<and> (b = (inDispatch s = [])))"

inductive orderly_run :: "nat \<Rightarrow> nat \<Rightarrow> nat \<Rightarrow> life \<Rightarrow> life \<Rightarrow> bool" for self m me s0 where
  start: "orderly_run self m me s0 s0"
| step: "orderly_run self m me s0 s \<Longrightarrow> orderly m me a s \<Longrightarrow> life_step self a s = Inr s' \<Longrightarrow> orderly_run self m me s0 s'"

end
