(* ===== verification/Lifecycle_Correct.thy ===== *)
theory Lifecycle_Correct
  imports Lifecycle
begin

text \<open>
  With one thread that dispatches and one that disconnects, \<open>disconnect\<close> closes the connection only when no
  dispatch is running on another thread, and the status listeners hear of every change once. With two
  threads that disconnect it uses what the other has deleted; and the flag that cancels the enforcer
  thread is never taken back.
\<close>

section \<open>The invariant\<close>

definition dispatch_inv :: "nat \<Rightarrow> life \<Rightarrow> bool" where
  "dispatch_inv m s \<longleftrightarrow>
     (isDispatching (dstate s) \<longleftrightarrow> inDispatch s \<noteq> []) \<and> inDispatch s \<in> {[], [m]} \<and> dispatchThreads (dstate s) \<subseteq> {m}"

definition closing_inv :: "nat \<Rightarrow> nat \<Rightarrow> life \<Rightarrow> bool" where
  "closing_inv m me s \<longleftrightarrow>
     (\<forall>t. t \<noteq> me \<longrightarrow> phase_at s t = Idle) \<and>
     (phase_at s me \<noteq> Idle \<longrightarrow> isOpen s \<and> isDisconnecting (dstate s)) \<and>
     (phase_at s me = Unlocked \<longrightarrow> me = m \<or> inDispatch s = [])"

definition status_inv :: "nat \<Rightarrow> life \<Rightarrow> bool" where
  "status_inv me s \<longleftrightarrow> alternates True (status_told s) \<and>
     (odd (length (status_told s)) \<longleftrightarrow> isOpen s \<and> phase_at s me = Idle)"

definition life_inv :: "nat \<Rightarrow> nat \<Rightarrow> life \<Rightarrow> bool" where
  "life_inv m me s \<longleftrightarrow> dispatch_inv m s \<and> closing_inv m me s \<and> status_inv me s"

lemmas life_inv_defs = life_inv_def dispatch_inv_def closing_inv_def status_inv_def

lemma end_thread_frame [simp]:
  "isOpen (end_thread self me t s) = isOpen s" "dstate (end_thread self me t s) = dstate s"
  "phase_at (end_thread self me t s) = phase_at s" "status_told (end_thread self me t s) = status_told s"
  "inDispatch (end_thread self me t s) = inDispatch s" "enforcerCancelled (end_thread self me t s) = enforcerCancelled s"
  "dispatchThread (end_thread self me t s) = dispatchThread s" "enforcerThread (end_thread self me t s) = enforcerThread s"
  by (simp_all add: end_thread_def split: option.splits)

lemma life_inv_connect: "life_inv m me s \<Longrightarrow> life_inv m me (snd (life_connect self start got s))"
  by (auto simp: life_inv_defs life_connect_def start_thread_def alternates_snoc Let_def)

lemma life_inv_begin: "life_inv m me s \<Longrightarrow> phase_at s me = Idle \<Longrightarrow> life_inv m me (disconnect_begin me s)"
  by (auto simp: life_inv_defs disconnect_begin_def set_at_def alternates_snoc Let_def)

lemma life_inv_wake: "life_inv m me s \<Longrightarrow> phase_at s me = Waits \<Longrightarrow> life_inv m me (disconnect_wake me s)"
  by (auto simp: life_inv_defs disconnect_wake_def set_at_def)

lemma life_inv_finish:
  "life_inv m me s \<Longrightarrow> phase_at s me = Unlocked \<Longrightarrow> \<exists>s'. disconnect_finish self me s = Inr s' \<and> life_inv m me s'"
  by (auto simp: life_inv_defs disconnect_finish_def set_at_def Let_def split: option.splits)

lemma life_inv_disconnect: "life_inv m me s \<Longrightarrow> \<exists>s'. life_disconnect self me s = Inr s' \<and> life_inv m me s'"
  using life_inv_begin life_inv_wake life_inv_finish by (cases "phase_at s me") (auto simp: life_disconnect_def)

lemma life_inv_dispatching:
  "life_inv m me s \<Longrightarrow> b = (inDispatch s = []) \<Longrightarrow> life_inv m me (snd (life_setDispatching m b s))"
  by (auto simp: life_inv_defs life_setDispatching_def setDispatching_def Let_def)

lemma life_inv_step:
  assumes "life_inv m me s" "orderly m me a s"
  shows "\<exists>s'. life_step self a s = Inr s' \<and> life_inv m me s'"
  using assms life_inv_disconnect by (cases a) (auto simp: life_inv_connect life_inv_dispatching)

lemma life_inv_new: "life_inv m me (new_life n h)"
  by (simp add: life_inv_defs new_life_def new_dispatch_state_def)

lemma orderly_run_inv: "orderly_run self m me s0 s \<Longrightarrow> life_inv m me s0 \<Longrightarrow> life_inv m me s"
proof (induction rule: orderly_run.induct)
  case (step s a s')
  then show ?case using life_inv_step[of m me s a self] by auto
qed

fun orderly_all :: "nat \<Rightarrow> nat \<Rightarrow> nat \<Rightarrow> life_action list \<Rightarrow> life \<Rightarrow> bool" where
  "orderly_all self m me [] s = True"
| "orderly_all self m me (a # as) s =
     (orderly m me a s \<and> (case life_step self a s of Inl err \<Rightarrow> False | Inr s1 \<Rightarrow> orderly_all self m me as s1))"

lemma orderly_all_run:
  "orderly_run self m me s0 s \<Longrightarrow> orderly_all self m me as s \<Longrightarrow> life_run self as s = Inr s' \<Longrightarrow> orderly_run self m me s0 s'"
  by (induction as arbitrary: s) (auto split: sum.splits intro: orderly_run.step)

definition sample_start :: life where
  "sample_start = new_life 100 (Some \<lparr>hconnections = [], hthreads = []\<rparr>)"

lemma sample_orderly:
  assumes "orderly_all 1 7 3 as sample_start" "life_run 1 as sample_start = Inr s"
  shows "orderly_run 1 7 3 (new_life 100 (Some \<lparr>hconnections = [], hthreads = []\<rparr>)) s"
  using orderly_all_run[OF orderly_run.start] assms by (simp add: sample_start_def)

definition at_end :: "(life \<Rightarrow> bool) \<Rightarrow> life_action list \<Rightarrow> bool" where
  "at_end P as = (case life_run 1 as sample_start of Inl err \<Rightarrow> False | Inr s \<Rightarrow> P s)"

lemma at_endD: "at_end P as \<Longrightarrow> \<exists>s. life_run 1 as sample_start = Inr s \<and> P s"
  by (simp add: at_end_def split: sum.splits)

section \<open>Cancelling\<close>

lemma finish_result: "disconnect_finish self me s = Inr s' \<Longrightarrow> enforcerCancelled s' \<and> \<not> isOpen s'"
  by (auto simp: disconnect_finish_def set_at_def Let_def split: if_splits option.splits)

lemma finish_open:
  "isOpen s \<Longrightarrow> \<exists>s'. disconnect_finish self me s = Inr s' \<and> \<not> isOpen s' \<and> phase_at s' = (phase_at s)(me := Idle)"
  by (auto simp: disconnect_finish_def set_at_def Let_def split: option.splits)

lemma begin_open:
  "isOpen s \<Longrightarrow> \<not> isDispatching (dstate s) \<Longrightarrow> isOpen (disconnect_begin me s) \<and>
    \<not> isDispatching (dstate (disconnect_begin me s)) \<and> phase_at (disconnect_begin me s) = (phase_at s)(me := Unlocked)"
  by (simp add: disconnect_begin_def set_at_def Let_def)

lemma cancelled_step: "life_step self a s = Inr s' \<Longrightarrow> enforcerCancelled s \<Longrightarrow> enforcerCancelled s'"
  by (cases a) (auto simp: life_connect_def start_thread_def life_disconnect_def disconnect_begin_def disconnect_wake_def
      disconnect_finish_def set_at_def life_setDispatching_def Let_def split: disconnecting.splits if_splits option.splits prod.splits)

lemma cancelled_run: "life_run self as s = Inr s' \<Longrightarrow> enforcerCancelled s \<Longrightarrow> enforcerCancelled s'"
  by (induction as arbitrary: s) (auto split: sum.splits dest: cancelled_step)

section \<open>Properties\<close>

text \<open>C18: when one thread dispatches and another one disconnects, the connection is closed only while no dispatch
  is running, and from the unlock on none begins: whatever the interleaving, the disconnecting thread
  that has got through its wait finds no thread in a dispatch. It never uses what another has deleted.\<close>

theorem disconnect_waits_for_dispatch:
  assumes "orderly_run self m me (new_life n h) s" "phase_at s me = Unlocked" "me \<noteq> m"
  shows "inDispatch s = [] \<and> isOpen s \<and> \<not> fst (life_setDispatching m True s) \<and>
    (\<exists>s'. disconnect_finish self me s = Inr s' \<and> \<not> isOpen s')"
proof -
  have inv: "life_inv m me s" using orderly_run_inv[OF assms(1) life_inv_new] .
  then obtain s' where "disconnect_finish self me s = Inr s'" using life_inv_finish[OF inv assms(2)] by blast
  moreover have "\<not> isOpen s'" using finish_result calculation by blast
  ultimately show ?thesis
    using inv assms(2,3) by (auto simp: life_inv_defs life_setDispatching_def setDispatching_def)
qed

theorem disconnect_waits_for_dispatch_witness:
  "\<exists>s s'. life_run 1 [ConnectAs True True, Dispatching 7 True, DisconnectBy 3, DisconnectBy 3, Dispatching 7 False, DisconnectBy 3]
      sample_start = Inr s \<and> \<not> fst (life_setDispatching 7 True s) \<and> disconnect_finish 1 3 s = Inr s'"
proof -
  let ?as = "[ConnectAs True True, Dispatching 7 True, DisconnectBy 3, DisconnectBy 3, Dispatching 7 False, DisconnectBy 3]"
  have "at_end (\<lambda>s. phase_at s 3 = Unlocked) ?as" "orderly_all 1 7 3 ?as sample_start" by code_simp+
  then obtain s where s: "life_run 1 ?as sample_start = Inr s" "phase_at s 3 = Unlocked" "orderly_all 1 7 3 ?as sample_start"
    using at_endD by blast
  show ?thesis using disconnect_waits_for_dispatch[OF sample_orderly[OF s(3,1)] s(2)] s(1) by auto
qed

text \<open>The status listeners of a connection are told alternately that it is available and that it is not;
  the last they were told is that it is available exactly while it is connected and no \<open>disconnect\<close> has
  begun.\<close>

theorem status_told_alternates:
  assumes "orderly_run self m me (new_life n h) s"
  shows "alternates True (status_told s) \<and> (odd (length (status_told s)) \<longleftrightarrow> isOpen s \<and> phase_at s me = Idle)"
  using orderly_run_inv[OF assms life_inv_new] by (simp add: life_inv_def status_inv_def)

theorem status_told_alternates_witness:
  "\<exists>s. life_run 1 [ConnectAs False True, DisconnectBy 3, DisconnectBy 3, ConnectAs False True] sample_start = Inr s \<and>
    alternates True (status_told s) \<and> odd (length (status_told s))"
proof -
  let ?as = "[ConnectAs False True, DisconnectBy 3, DisconnectBy 3, ConnectAs False True]"
  have "at_end (\<lambda>s. isOpen s \<and> phase_at s 3 = Idle) ?as" "orderly_all 1 7 3 ?as sample_start" by code_simp+
  then obtain s where s: "life_run 1 ?as sample_start = Inr s" "isOpen s \<and> phase_at s 3 = Idle" "orderly_all 1 7 3 ?as sample_start"
    using at_endD by blast
  show ?thesis using status_told_alternates[OF sample_orderly[OF s(3,1)]] s(1,2) by auto
qed

text \<open>After a \<open>disconnect\<close> the enforcer thread of every later connection of the object leaves its loop at
  once: the flag that cancels it stays set, so timeouts of asynchronous calls are no longer enforced.\<close>

theorem reconnected_enforces_nothing:
  assumes "disconnect_finish self me s = Inr s1" "life_run self as s1 = Inr s2" "\<not> isOpen s2"
  shows "case life_connect self start True s2 of (connected, s3) \<Rightarrow>
    connected \<and> isOpen s3 \<and> enforcerThread s3 = Some (nextThread s2) \<and> \<not> enforcer_goes_on s3"
proof -
  have "enforcerCancelled s2" using finish_result[OF assms(1)] cancelled_run[OF assms(2)] by blast
  then show ?thesis using assms(3) by (auto simp: life_connect_def start_thread_def enforcer_goes_on_def Let_def)
qed

theorem reconnected_enforces_nothing_witness:
  "\<exists>s. life_run 1 [ConnectAs False True, DisconnectBy 3] sample_start = Inr s \<and>
    (\<exists>s1. disconnect_finish 1 3 s = Inr s1 \<and> \<not> enforcer_goes_on (snd (life_connect 1 True True s1)))"
proof -
  have "at_end isOpen [ConnectAs False True, DisconnectBy 3]" by code_simp
  then obtain s where s: "life_run 1 [ConnectAs False True, DisconnectBy 3] sample_start = Inr s" "isOpen s"
    using at_endD by blast
  obtain s1 where s1: "disconnect_finish 1 3 s = Inr s1" "\<not> isOpen s1" using finish_open[OF s(2)] by blast
  have "life_run 1 [] s1 = Inr s1" by simp
  from reconnected_enforces_nothing[OF s1(1) this s1(2), of True] have "\<not> enforcer_goes_on (snd (life_connect 1 True True s1))"
    by (auto split: prod.splits)
  then show ?thesis using s(1) s1(1) by blast
qed

text \<open>Two threads that disconnect at the same time: both get past the wait before one finishes, and the
  other then uses the null connection and deleted threads.\<close>

theorem concurrent_disconnects_crash:
  assumes "isOpen s" "\<not> isDispatching (dstate s)" "phase_at s a = Idle" "phase_at s b = Idle" "a \<noteq> b"
  shows "life_run self [DisconnectBy a, DisconnectBy b, DisconnectBy a, DisconnectBy b] s = Inl UseAfterDisconnect"
proof -
  let ?s = "disconnect_begin b (disconnect_begin a s)"
  have "isOpen ?s" "phase_at ?s = (phase_at s)(a := Unlocked, b := Unlocked)"
    using begin_open[of s a] begin_open[of "disconnect_begin a s" b] assms(1,2) by simp_all
  moreover obtain s' where s': "disconnect_finish self a ?s = Inr s'" "\<not> isOpen s'" "phase_at s' = (phase_at ?s)(a := Idle)"
    using finish_open calculation(1) by blast
  moreover have "disconnect_finish self b s' = Inl UseAfterDisconnect"
    using s'(2) by (simp add: disconnect_finish_def)
  ultimately show ?thesis
    using assms(3-5) begin_open[of s a] assms(1,2) by (simp add: life_disconnect_def)
qed


theorem concurrent_disconnects_crash_witness:
  "\<exists>s. life_run 1 [ConnectAs False True] sample_start = Inr s \<and>
    life_run 1 [DisconnectBy 3, DisconnectBy 4, DisconnectBy 3, DisconnectBy 4] s = Inl UseAfterDisconnect"
proof -
  have "at_end (\<lambda>s. isOpen s \<and> \<not> isDispatching (dstate s) \<and> phase_at s 3 = Idle \<and> phase_at s 4 = Idle) [ConnectAs False True]"
    by code_simp
  then obtain s where s: "life_run 1 [ConnectAs False True] sample_start = Inr s" "isOpen s" "\<not> isDispatching (dstate s)"
    "phase_at s 3 = Idle" "phase_at s 4 = Idle" using at_endD by blast
  show ?thesis using concurrent_disconnects_crash[OF s(2-5), of 1] s(1) by auto
qed

text \<open>A thread that ever dispatched is never made to wait, whatever thread dispatches now.\<close>

lemma former_dispatcher_does_not_wait:
  "isOpen s \<Longrightarrow> me \<in> dispatchThreads (dstate s) \<Longrightarrow> phase_at (disconnect_begin me s) me = Unlocked"
  by (simp add: disconnect_begin_def set_at_def Let_def)

end
