(* ===== verification/Attribute.thy ===== *)
theory Attribute
  imports Method_Call Stub_Dispatch
begin

text \<open>
  Attributes on the side of the client (\<open>DBusAttribute.hpp\<close>), and attributes that are published as D-Bus
  properties: their client side (\<open>DBusFreedesktopAttribute.hpp\<close>), their dispatchers
  (\<open>DBusFreedesktopStubAdapterHelper.hpp\<close>) and the interface \<open>org.freedesktop.DBus.Properties\<close> of a stub
  (\<open>DBusFreedesktopPropertiesStub.cpp\<close>).

  The value that a default-constructed \<open>Deployable\<close> holds is a member of the attribute. \<open>G\<close> stands for
  \<open>CommonAPI::Variant::get\<close>, which is not in the repository; \<open>None\<close> is its exception, and \<open>VUnset\<close> a variant
  without value.
\<close>

section \<open>Attributes\<close>

record dbus_attribute =
  proxyAddress :: DBusAddress
  getMethodName :: string
  setMethodName :: string
  setMethodSignature :: string
  valueType :: ty
  initialValue :: val

definition first_value :: "val \<Rightarrow> val list \<Rightarrow> val" where
  "first_value old vs = (case vs of [] \<Rightarrow> old | v # _ \<Rightarrow> v)"

definition attribute_call :: "string \<Rightarrow> string \<Rightarrow> dbus_attribute \<Rightarrow> message" where
  "attribute_call name signature a = createMethodCall (proxyAddress a) name signature"

definition attribute_getValue :: "args_lib \<Rightarrow> bool \<Rightarrow> remote \<Rightarrow> dbus_attribute \<Rightarrow> status \<times> val" where
  "attribute_getValue L available remote a =
     (case callMethodWithReply L available remote [] [] [valueType a] [initialValue a]
             (attribute_call (getMethodName a) '''' a) of
        (st, vs) \<Rightarrow> (st, first_value (initialValue a) vs))"

definition attribute_setValue :: "args_lib \<Rightarrow> bool \<Rightarrow> remote \<Rightarrow> val \<Rightarrow> dbus_attribute \<Rightarrow> status \<times> val" where
  "attribute_setValue L available remote request a =
     (case callMethodWithReply L available remote [valueType a] [request] [valueType a] [initialValue a]
             (attribute_call (setMethodName a) (setMethodSignature a) a) of
        (st, vs) \<Rightarrow> (st, first_value (initialValue a) vs))"

definition attribute_getValueAsync :: "args_lib \<Rightarrow> bool \<Rightarrow> bool \<Rightarrow> dbus_attribute \<Rightarrow> future \<times> async_action list" where
  "attribute_getValueAsync L available accepted a =
     callMethodAsync L available accepted [] [] (attribute_call (getMethodName a) '''' a)"

definition attribute_setValueAsync :: "args_lib \<Rightarrow> bool \<Rightarrow> bool \<Rightarrow> val \<Rightarrow> dbus_attribute \<Rightarrow> future \<times> async_action list" where
  "attribute_setValueAsync L available accepted request a =
     callMethodAsync L available accepted [valueType a] [request]
       (attribute_call (setMethodName a) (setMethodSignature a) a)"

text \<open>The reply of both: the status of the future, and what the callback gets if the proxy is alive.\<close>

definition attribute_onReply :: "args_lib \<Rightarrow> bool \<Rightarrow> dbus_attribute \<Rightarrow> status \<Rightarrow> message \<Rightarrow> status \<times> (status \<times> val) option" where
  "attribute_onReply L alive a st m =
     (case handleDBusMessageReply L alive [] [valueType a] [initialValue a] st m of
        (future, called, told) \<Rightarrow> (future, map_option (\<lambda>(s, vs). (s, first_value (initialValue a) vs)) called))"

section \<open>Properties\<close>

definition PROPERTIES :: string where
  "PROPERTIES = ''org.freedesktop.DBus.Properties''"

text \<open>The two names are strings on the wire.\<close>

record property =
  serviceAddress :: DBusAddress
  interfaceName :: "byte list"
  propertyName :: "byte list"
  propertyType :: ty

datatype variant_error = BadCast

type_synonym variant_get = "val \<Rightarrow> val option"

text \<open>\<open>get\<close> returns the value of the alternative that the variant holds, and throws if it holds none.\<close>

definition variant_get_spec :: "ext \<Rightarrow> variant_get \<Rightarrow> bool" where
  "variant_get_spec E G \<longleftrightarrow>
     (\<forall>k v. G (VVariant k v) = (if visit E 1 k = Some 0 then Some v else None)) \<and> G VUnset = None"

definition property_variant :: "ty \<Rightarrow> ty" where
  "property_variant t = TVariant True [t]"

definition property_call :: "string \<Rightarrow> string \<Rightarrow> property \<Rightarrow> message" where
  "property_call method signature p = createMethodCall (setInterface PROPERTIES (serviceAddress p)) method signature"

text \<open>The exception of \<open>get\<close> leaves \<open>getValue\<close>.\<close>

definition property_getValue :: "args_lib \<Rightarrow> variant_get \<Rightarrow> bool \<Rightarrow> remote \<Rightarrow> property \<Rightarrow> variant_error + status \<times> val" where
  "property_getValue L G available remote p =
     (case callMethodWithReply L available remote [TString False, TString False] [VString (interfaceName p), VString (propertyName p)]
             [property_variant (propertyType p)] [VUnset] (property_call ''Get'' ''ss'' p) of
        (st, vs) \<Rightarrow> (case G (first_value VUnset vs) of None \<Rightarrow> Inl BadCast | Some v \<Rightarrow> Inr (st, v)))"

definition set_arguments :: "byte \<Rightarrow> val \<Rightarrow> property \<Rightarrow> val list" where
  "set_arguments tag request p = [VString (interfaceName p), VString (propertyName p), VVariant tag request]"

definition set_types :: "property \<Rightarrow> ty list" where
  "set_types p = [TString False, TString False, property_variant (propertyType p)]"

definition property_setValue :: "args_lib \<Rightarrow> bool \<Rightarrow> remote \<Rightarrow> byte \<Rightarrow> val \<Rightarrow> property \<Rightarrow> status \<times> val" where
  "property_setValue L available remote tag request p =
     (case callMethodWithReply L available remote (set_types p) (set_arguments tag request p) [] []
             (property_call ''Set'' ''ssv'' p) of
        (st, vs) \<Rightarrow> (st, request))"

definition property_getValueAsync :: "args_lib \<Rightarrow> bool \<Rightarrow> bool \<Rightarrow> property \<Rightarrow> future \<times> async_action list" where
  "property_getValueAsync L available accepted p =
     callMethodAsync L available accepted [TString False, TString False] [VString (interfaceName p), VString (propertyName p)]
       (property_call ''Get'' ''ss'' p)"

definition property_setValueAsync :: "args_lib \<Rightarrow> bool \<Rightarrow> bool \<Rightarrow> byte \<Rightarrow> val \<Rightarrow> property \<Rightarrow> future \<times> async_action list" where
  "property_setValueAsync L available accepted tag request p =
     callMethodAsync L available accepted (set_types p) (set_arguments tag request p) (property_call ''Set'' ''ssv'' p)"

text \<open>
  The replies: the status of the future and what the callback gets. The callback of \<open>getValueAsync\<close> throws out of
  the handler, before the future is set.
\<close>

definition property_onGetReply :: "args_lib \<Rightarrow> variant_get \<Rightarrow> bool \<Rightarrow> property \<Rightarrow> status \<Rightarrow> message \<Rightarrow>
    variant_error + status \<times> (status \<times> val) option" where
  "property_onGetReply L G alive p st m =
     (case handleDBusMessageReply L alive [] [property_variant (propertyType p)] [VUnset] st m of
        (future, None, told) \<Rightarrow> Inr (future, None)
      | (future, Some (s, vs), told) \<Rightarrow>
          (case G (first_value VUnset vs) of None \<Rightarrow> Inl BadCast | Some v \<Rightarrow> Inr (future, Some (s, v))))"

definition property_onSetReply :: "args_lib \<Rightarrow> bool \<Rightarrow> val \<Rightarrow> status \<Rightarrow> message \<Rightarrow> status \<times> (status \<times> val) option" where
  "property_onSetReply L alive request st m =
     (case handleDBusMessageReply L alive [] [] [] st m of
        (future, called, told) \<Rightarrow> (future, map_option (\<lambda>(s, vs). (s, request)) called))"

section \<open>The dispatchers of properties\<close>

text \<open>
  What is overridden: the reply is a variant, and the stub is not locked while its value is taken; the value of
  a \<open>Set\<close> stands behind two names.
\<close>

definition property_sendAttributeValueReply :: "ext \<Rightarrow> byte \<Rightarrow> send \<Rightarrow> 's attribute \<Rightarrow> message \<Rightarrow> 's \<Rightarrow> bool \<times> stub_effect list" where
  "property_sendAttributeValueReply E tag send a m st =
     (let v = VVariant tag (getStub a (getSender m) st);
          output = writeValue E (property_variant (attrType a)) v new_ostream;
          reply = setBody (flush output) (createMethodReturn ''v'' m)
      in case send of
           None \<Rightarrow> (False, [])
         | Some f \<Rightarrow> (f reply, [Sent reply]))"

definition property_dispatchGet :: "ext \<Rightarrow> byte \<Rightarrow> send \<Rightarrow> 's attribute \<Rightarrow> message \<Rightarrow> 's \<Rightarrow> bool \<times> stub_effect list" where
  "property_dispatchGet E tag send a m st =
     (if \<not> attrImplemented a then (False, []) else property_sendAttributeValueReply E tag send a m st)"

definition property_retrieveAttributeValue :: "ext \<Rightarrow> variant_get \<Rightarrow> 's attribute \<Rightarrow> message \<Rightarrow> variant_error + bool \<times> val" where
  "property_retrieveAttributeValue E G a m =
     (case readFields E [TString False, TString False, property_variant (attrType a)] (new_istream (getBody m)) of
        (vs, s) \<Rightarrow> (case G (last vs) of None \<Rightarrow> Inl BadCast | Some v \<Rightarrow> Inr (isErrorSet s, v)))"

definition property_set :: "ext \<Rightarrow> variant_get \<Rightarrow> byte \<Rightarrow> send \<Rightarrow> 's attribute \<Rightarrow> message \<Rightarrow> 's \<Rightarrow>
    variant_error + bool \<times> bool \<times> stub_effect list \<times> 's" where
  "property_set E G tag send a m st =
     ebind (property_retrieveAttributeValue E G a m)
       (\<lambda>r. Inr (set_attribute_with (\<lambda>_. r) (property_sendAttributeValueReply E tag send a) a m st))"

definition property_dispatchSet :: "ext \<Rightarrow> variant_get \<Rightarrow> byte \<Rightarrow> send \<Rightarrow> 's attribute \<Rightarrow> message \<Rightarrow> 's \<Rightarrow>
    variant_error + bool \<times> stub_effect list \<times> 's" where
  "property_dispatchSet E G tag send a m st =
     (if \<not> attrImplemented a then Inr (False, [], st)
      else ebind (property_set E G tag send a m st)
             (\<lambda>(ok, changed, es, st1). Inr (if \<not> ok then (False, es, st1)
                else (True, es @ (if changed then [RemoteChanged] else []), st1))))"

definition property_dispatchSetObservable :: "ext \<Rightarrow> variant_get \<Rightarrow> byte \<Rightarrow> send \<Rightarrow> 's attribute \<Rightarrow> message \<Rightarrow> 's \<Rightarrow>
    variant_error + bool \<times> stub_effect list \<times> 's" where
  "property_dispatchSetObservable E G tag send a m st =
     (if \<not> attrImplemented a then Inr (False, [], st)
      else ebind (property_set E G tag send a m st)
             (\<lambda>(ok, changed, es, st1). Inr (if \<not> ok then (False, es, st1)
                else (True, es @ (if changed then fireAttributeValueChanged a (getSender m) st1 @ [RemoteChanged] else []), st1))))"

text \<open>The signal of a changed property: a map with one entry, and no invalidated properties.\<close>

definition sendPropertiesChangedSignal :: "args_lib \<Rightarrow> (message \<Rightarrow> bool) \<Rightarrow> byte \<Rightarrow> DBusAddress \<Rightarrow> byte list \<Rightarrow> byte list \<Rightarrow>
    ty \<Rightarrow> val \<Rightarrow> bool \<times> message option" where
  "sendPropertiesChangedSignal L send tag address interface property t v =
     sendSignal L send None (setInterface PROPERTIES address) ''PropertiesChanged'' ''sa{sv}as''
       [TString False, TMap (TString False) (property_variant t), TVector (TString False)]
       [VString interface, VMap [(VString property, VVariant tag v)], VVector []]"

section \<open>The properties interface of a stub\<close>

text \<open>
  \<open>managedInterfaces\<close> maps an interface to its adapters, which are numbers. An adapter is a function \<open>h\<close> from
  messages to state changes with a result, its \<open>onInterfaceDBusFreedesktopPropertiesMessage\<close>; an exception
  passes through.
\<close>

definition manage_interface :: "string \<Rightarrow> nat \<Rightarrow> (string \<times> nat list) list \<Rightarrow> (string \<times> nat list) list" where
  "manage_interface interface adapter m =
     (case map_of m interface of
        Some adapters \<Rightarrow> (if adapter \<in> set adapters then m else al_put interface (adapters @ [adapter]) m)
      | None \<Rightarrow> al_insert interface [adapter] m)"

definition new_properties_stub :: "string \<Rightarrow> nat \<Rightarrow> (string \<times> nat list) list" where
  "new_properties_stub interface adapter = manage_interface interface adapter []"

fun tell_adapters :: "(nat \<Rightarrow> message \<Rightarrow> 's \<Rightarrow> 'e + bool \<times> 's) \<Rightarrow> message \<Rightarrow> nat list \<Rightarrow> 's \<Rightarrow> 'e + 's" where
  "tell_adapters h m [] st = Inr st"
| "tell_adapters h m (a # as) st = ebind (h a m st) (\<lambda>(r, st1). tell_adapters h m as st1)"

definition properties_onInterfaceDBusMessage :: "ext \<Rightarrow> bool \<Rightarrow> (string \<times> nat list) list \<Rightarrow>
    (nat \<Rightarrow> message \<Rightarrow> 's \<Rightarrow> 'e + bool \<times> 's) \<Rightarrow> message \<Rightarrow> 's \<Rightarrow> 'e + bool \<times> 's" where
  "properties_onInterfaceDBusMessage E connected managedInterfaces h m st =
     (if \<not> connected then Inr (False, st)
      else
        (case m of
           MethodCall address sender member signature b \<Rightarrow>
             (if member \<notin> {''Get'', ''GetAll'', ''Set''} then Inr (False, st)
              else
                (case readValue E (TString False) (new_istream b) of
                   (interface, s) \<Rightarrow>
                     if isErrorSet s then Inr (False, st)
                     else
                       (case map_of managedInterfaces (as_string interface) of
                          None \<Rightarrow> Inr (False, st)
                        | Some adapters \<Rightarrow> ebind (tell_adapters h m adapters st) (\<lambda>st1. Inr (True, st1)))))
         | _ \<Rightarrow> Inr (False, st)))"

end
