(* ===== verification/Attribute_Correct.thy ===== *)
theory Attribute_Correct
  imports Attribute Rpc_Correct
begin

text \<open>
  Attributes and properties across the two sides: what a client gets is what the stub shows to it; what a
  client is told after it has set an attribute, and after it has set a property; and what a message
  that does not fit the property does to the process of the stub.
\<close>

section \<open>A message that begins with two names\<close>

lemma encFields_append:
  "length ts = length vs \<Longrightarrow>
    encFields E (ts @ us) (vs @ ws) p = encFields E ts vs p @ encFields E us ws (p + length (encFields E ts vs p))"
  by (induction ts vs arbitrary: p rule: list_induct2) (simp_all add: add.assoc)

lemma wtFields_append:
  "length ts = length vs \<Longrightarrow> wtFields E (ts @ us) (vs @ ws) \<longleftrightarrow> wtFields E ts vs \<and> wtFields E us ws"
  by (induction ts vs rule: list_induct2) auto

lemma body_of_enc: "wtFields E ts vs \<Longrightarrow> body_of E ts vs = encFields E ts vs 0"
  using fields_refine[of E ts vs new_ostream] by (simp add: body_of_def flush_def new_ostream_def)

lemma fits_ahead:
  assumes "fits E ts vs"
  shows "ahead (new_istream (body_of E ts vs)) (encFields E ts vs 0)"
  using assms body_of_enc[of E ts vs] by (simp add: fits_def ahead_def new_istream_def)

lemma prefix_read_back:
  assumes "fits E (ts @ us) (vs @ ws)" "length ts = length vs"
  defines "s \<equiv> new_istream (body_of E (ts @ us) (vs @ ws))"
  shows "readFields E ts s = (vs, skip (length (encFields E ts vs 0)) s)"
    and "ahead (skip (length (encFields E ts vs 0)) s) (encFields E us ws (length (encFields E ts vs 0)))"
proof -
  have w: "wtFields E ts vs" "list_all (readable E) ts" using assms(1,2) by (simp_all add: fits_def wtFields_append)
  have a: "ahead s (encFields E ts vs 0)" "ahead (skip (length (encFields E ts vs 0)) s) (encFields E us ws (length (encFields E ts vs 0)))"
    using fits_ahead[OF assms(1)] assms(2) by (simp_all add: s_def encFields_append ahead_append)
  have "current s = 0" by (simp add: s_def new_istream_def)
  then show "readFields E ts s = (vs, skip (length (encFields E ts vs 0)) s)"
    using fields_read_back[OF w(2,1), of s] a(1) by simp
  show "ahead (skip (length (encFields E ts vs 0)) s) (encFields E us ws (length (encFields E ts vs 0)))" by (rule a(2))
qed

abbreviation names_of :: "byte list \<Rightarrow> byte list \<Rightarrow> val list" where
  "names_of i n \<equiv> [VString i, VString n]"

abbreviation name_types :: "ty list" where
  "name_types \<equiv> [TString False, TString False]"

lemma names_read:
  assumes "fits E (name_types @ us) (names_of i n @ ws)" "b = body_of E (name_types @ us) (names_of i n @ ws)"
  obtains s1 s2 where "readValue E (TString False) (new_istream b) = (VString i, s1)" "\<not> isErrorSet s1"
    "readValue E (TString False) s1 = (VString n, s2)" "\<not> isErrorSet s2"
    "ahead s2 (encFields E us ws (current s2))"
proof -
  let ?s = "new_istream b" and ?k = "length (encFields E name_types (names_of i n) 0)"
  note r = prefix_read_back[of E name_types us "names_of i n" ws]
  have 2: "readFields E name_types ?s = (names_of i n, skip ?k ?s)" "ahead (skip ?k ?s) (encFields E us ws ?k)"
    using r assms by auto
  obtain s1 where 1: "readValue E (TString False) ?s = (VString i, s1)" "readValue E (TString False) s1 = (VString n, skip ?k ?s)"
    using 2(1) by (auto split: prod.splits simp del: readValue.simps)
  have "fits E ([TString False] @ [TString False] @ us) ([VString i] @ [VString n] @ ws)" using assms(1) by simp
  from prefix_read_back(1)[OF this] have "s1 = skip (length (encFields E [TString False] [VString i] 0)) ?s"
    using 1(1) assms(2) by (auto split: prod.splits simp del: readValue.simps)
  then have "\<not> isErrorSet s1" by (simp add: isErrorSet_def new_istream_def)
  moreover have "\<not> isErrorSet (skip ?k ?s)" by (simp add: isErrorSet_def new_istream_def)
  moreover have "current (skip ?k ?s) = ?k" by (simp add: new_istream_def)
  ultimately show ?thesis using that[OF 1(1) _ 1(2)] 2(2) by simp
qed

section \<open>The server\<close>

text \<open>
  An adapter whose getters and setters are those of properties: dispatcher \<open>d\<close> is \<open>D d\<close>, with whether it sets.
  The state is that of the stub and the replies that were sent; \<open>getAll\<close> answers \<open>GetAll\<close>.
\<close>

type_synonym 's server = "'s \<times> message list"

definition replies_in :: "stub_effect list \<Rightarrow> message list" where
  "replies_in es = concat (map (\<lambda>e. case e of Sent r \<Rightarrow> [r] | _ \<Rightarrow> []) es)"

definition run_dispatcher :: "ext \<Rightarrow> variant_get \<Rightarrow> byte \<Rightarrow> bool \<times> 's attribute \<Rightarrow> message \<Rightarrow> 's server \<Rightarrow>
    variant_error + bool \<times> 's server" where
  "run_dispatcher E G tag d m s =
     (if fst d then
        ebind (property_dispatchSet E G tag (Some (\<lambda>_. True)) (snd d) m (fst s))
          (\<lambda>(ok, es, st). Inr (ok, (st, snd s @ replies_in es)))
      else (case property_dispatchGet E tag (Some (\<lambda>_. True)) (snd d) m (fst s) of
              (ok, es) \<Rightarrow> Inr (ok, (fst s, snd s @ replies_in es))))"

definition property_adapter :: "ext \<Rightarrow> variant_get \<Rightarrow> byte \<Rightarrow> attribute_table list \<Rightarrow> (nat \<Rightarrow> bool \<times> 's attribute) \<Rightarrow>
    (message \<Rightarrow> 's server \<Rightarrow> variant_error + bool \<times> 's server) \<Rightarrow> message \<Rightarrow> 's server \<Rightarrow> variant_error + bool \<times> 's server" where
  "property_adapter E G tag tables D getAll =
     onInterfaceDBusFreedesktopPropertiesMessage E tables (\<lambda>s. Inr (False, s)) (\<lambda>d. run_dispatcher E G tag (D d)) getAll"

text \<open>
  What a client sees: the first reply. Without a reply, or after the process has ended by an exception, the call
  ends with an error of the bus.
\<close>

definition serve_property :: "ext \<Rightarrow> (string \<times> nat list) list \<Rightarrow> (nat \<Rightarrow> message \<Rightarrow> 's server \<Rightarrow> variant_error + bool \<times> 's server) \<Rightarrow>
    string \<Rightarrow> 's \<Rightarrow> remote" where
  "serve_property E managed h client st m =
     (case properties_onInterfaceDBusMessage E True managed h (setSender client m) (st, []) of
        Inr (True, (st1, reply # _)) \<Rightarrow> (None, reply)
      | Inr (False, _) \<Rightarrow> (Some UNKNOWN_METHOD, NoMessage)
      | _ \<Rightarrow> (Some ''org.freedesktop.DBus.Error.NoReply'', NoMessage))"

lemma as_string_VString: "as_string (VString i) = map (\<lambda>b. char_of (unat b)) i"
  by (simp add: as_string_def)

text \<open>A call of \<open>Get\<close> or \<open>Set\<close> for an interface with one adapter goes to the adapter.\<close>

lemma properties_call_one:
  assumes "fits E (name_types @ us) (names_of i n @ ws)" "b = body_of E (name_types @ us) (names_of i n @ ws)"
    and "member \<in> {''Get'', ''Set''}" "map_of managed (as_string (VString i)) = Some [adapter]"
  shows "properties_onInterfaceDBusMessage E True managed h (MethodCall address sender member sg b) s =
    ebind (h adapter (MethodCall address sender member sg b) s) (\<lambda>(r, s1). Inr (True, s1))"
proof -
  obtain s1 s2 where r: "readValue E (TString False) (new_istream b) = (VString i, s1)" "\<not> isErrorSet s1"
    using names_read[OF assms(1,2)] by metis
  have f: "ebind (tell_adapters h m [adapter] s) (\<lambda>st. Inr (True, st)) = ebind (h adapter m s) (\<lambda>(r, s1). Inr (True, s1))" for m
    by (cases "h adapter m s") auto
  have "member \<in> {''Get'', ''GetAll'', ''Set''}" using assms(3) by auto
  then show ?thesis
    unfolding properties_onInterfaceDBusMessage_def using r assms(4) f
    by (auto simp del: readValue.simps tell_adapters.simps)
qed

lemma adapter_get:
  assumes "fits E (name_types @ us) (names_of i n @ ws)" "b = body_of E (name_types @ us) (names_of i n @ ws)"
  shows "property_adapter E G tag tables D getAll (MethodCall address sender ''Get'' sg b) =
    (case findAttributeDispatcher tables (as_string (VString n)) of
       None \<Rightarrow> (\<lambda>s. Inr (False, s))
     | Some (getter, setter) \<Rightarrow> run_dispatcher E G tag (D getter) (MethodCall address sender ''Get'' sg b))"
proof -
  obtain s1 s2 where r: "readValue E (TString False) (new_istream b) = (VString i, s1)" "\<not> isErrorSet s1"
    "readValue E (TString False) s1 = (VString n, s2)" "\<not> isErrorSet s2"
    using names_read[OF assms] by metis
  then show ?thesis
    by (simp add: property_adapter_def onInterfaceDBusFreedesktopPropertiesMessage_def handleFreedesktopGet_def read_names_def
        del: readValue.simps)
qed

lemma adapter_set:
  assumes "fits E (name_types @ us) (names_of i n @ ws)" "b = body_of E (name_types @ us) (names_of i n @ ws)"
  shows "property_adapter E G tag tables D getAll (MethodCall address sender ''Set'' sg b) =
    (case findAttributeDispatcher tables (as_string (VString n)) of
       Some (getter, Some setter) \<Rightarrow> run_dispatcher E G tag (D setter) (MethodCall address sender ''Set'' sg b)
     | _ \<Rightarrow> (\<lambda>s. Inr (False, s)))"
proof -
  obtain s1 s2 where r: "readValue E (TString False) (new_istream b) = (VString i, s1)" "\<not> isErrorSet s1"
    "readValue E (TString False) s1 = (VString n, s2)" "\<not> isErrorSet s2"
    using names_read[OF assms] by metis
  then show ?thesis
    by (simp add: property_adapter_def onInterfaceDBusFreedesktopPropertiesMessage_def handleFreedesktopSet_def read_names_def
        split: option.splits del: readValue.simps)
qed

section \<open>A property that is served\<close>

definition serves :: "ext \<Rightarrow> variant_get \<Rightarrow> byte \<Rightarrow> (string \<times> nat list) list \<Rightarrow>
    (nat \<Rightarrow> message \<Rightarrow> 's server \<Rightarrow> variant_error + bool \<times> 's server) \<Rightarrow> property \<Rightarrow> 's attribute \<Rightarrow> bool" where
  "serves E G tag managed h p a \<longleftrightarrow>
     (\<exists>adapter tables D getAll getter setter.
        map_of managed (as_string (VString (interfaceName p))) = Some [adapter] \<and>
        h adapter = property_adapter E G tag tables D getAll \<and>
        findAttributeDispatcher tables (as_string (VString (propertyName p))) = Some (getter, Some setter) \<and>
        D getter = (False, a) \<and> D setter = (True, a)) \<and>
     attrImplemented a \<and> attrType a = propertyType p"

abbreviation property_names :: "property \<Rightarrow> val list" where
  "property_names p \<equiv> names_of (interfaceName p) (propertyName p)"

abbreviation shown_variant :: "byte \<Rightarrow> 's attribute \<Rightarrow> string \<Rightarrow> 's \<Rightarrow> val list" where
  "shown_variant tag a client st \<equiv> [VVariant tag (getStub a client st)]"

lemma sent_reply:
  "property_sendAttributeValueReply E tag (Some (\<lambda>_. True)) a m st =
    (True, [Sent (setBody (body_of E [property_variant (attrType a)] (shown_variant tag a (getSender m) st)) (createMethodReturn ''v'' m))])"
  by (simp add: property_sendAttributeValueReply_def body_of_def Let_def)

lemma served_call:
  assumes "serves E G tag managed h p a" "fits E (name_types @ us) (property_names p @ ws)"
    and "b = body_of E (name_types @ us) (property_names p @ ws)" "member \<in> {''Get'', ''Set''}"
  shows "properties_onInterfaceDBusMessage E True managed h (MethodCall address client member sg b) s =
    ebind (run_dispatcher E G tag (member = ''Set'', a) (MethodCall address client member sg b) s) (\<lambda>(r, s1). Inr (True, s1))"
proof -
  obtain adapter tables D getAll getter setter where v:
    "map_of managed (as_string (VString (interfaceName p))) = Some [adapter]"
    "h adapter = property_adapter E G tag tables D getAll"
    "findAttributeDispatcher tables (as_string (VString (propertyName p))) = Some (getter, Some setter)"
    "D getter = (False, a)" "D setter = (True, a)"
    using assms(1) unfolding serves_def by blast
  show ?thesis
    unfolding properties_call_one[OF assms(2-4) v(1)]
    using adapter_get[OF assms(2,3), of G tag tables D getAll] adapter_set[OF assms(2,3), of G tag tables D getAll] v(2-5) assms(4)
    by auto
qed

lemma served_get:
  assumes "serves E G tag managed h p a" "fits E name_types (property_names p)"
  shows "\<exists>r. serve_property E managed h client st (setBody (body_of E name_types (property_names p)) (property_call ''Get'' ''ss'' p)) =
      (None, setBody (body_of E [property_variant (propertyType p)] (shown_variant tag a client st)) (createMethodReturn ''v'' r))"
proof -
  let ?b = "body_of E name_types (property_names p)"
  let ?m = "MethodCall (setInterface PROPERTIES (serviceAddress p)) client ''Get'' ''ss'' ?b"
  have m: "setSender client (setBody ?b (property_call ''Get'' ''ss'' p)) = ?m"
    by (simp add: property_call_def createMethodCall_def)
  have "properties_onInterfaceDBusMessage E True managed h ?m (st, []) =
      ebind (run_dispatcher E G tag (False, a) ?m (st, [])) (\<lambda>(r, s1). Inr (True, s1))"
    using served_call[of E G tag managed h p a "[]" "[]" ?b "''Get''"] assms by simp
  also have "\<dots> = Inr (True, (st, [setBody (body_of E [property_variant (propertyType p)] (shown_variant tag a client st))
      (createMethodReturn ''v'' ?m)]))"
    using assms(1) by (simp add: run_dispatcher_def property_dispatchGet_def sent_reply replies_in_def serves_def)
  finally show ?thesis by (auto simp: serve_property_def m)
qed

lemma variant_one: "wt E (property_variant t) (VVariant k v) \<Longrightarrow> visit E 1 k = Some 0"
  by (auto simp: property_variant_def split: option.splits nat.splits)

text \<open>C21: what a client gets as the value of a property is the value the stub shows to this client: the names
  reach the dispatcher of the property, the value comes back in a variant, and \<open>get\<close> takes it out.\<close>

theorem property_get_reads_stub:
  assumes "args_spec E L" "variant_get_spec E G" "serves E G tag managed h p a"
    and "fits E name_types (property_names p)" "fits E [property_variant (propertyType p)] (shown_variant tag a client st)"
  shows "property_getValue L G True (sendDBusMessageWithReplyAndBlock True (serve_property E managed h client st)) p =
    Inr (SUCCESS, getStub a client st)"
proof -
  let ?m = "setBody (body_of E name_types (property_names p)) (property_call ''Get'' ''ss'' p)"
  obtain r where r: "serve_property E managed h client st ?m =
      (None, setBody (body_of E [property_variant (propertyType p)] (shown_variant tag a client st)) (createMethodReturn ''v'' r))"
    using served_get[OF assms(3,4)] by blast
  have n: "?m \<noteq> NoMessage" by (simp add: property_call_def createMethodCall_def)
  have g: "get_arguments L [property_variant (propertyType p)] [VUnset]
      (setBody (body_of E [property_variant (propertyType p)] (shown_variant tag a client st)) (createMethodReturn ''v'' r)) =
      (True, shown_variant tag a client st)"
    by (rule get_arguments_ok[OF assms(1,5)]) simp_all
  have "visit E 1 tag = Some 0" using assms(5) variant_one by (auto simp: fits_def)
  then have "G (VVariant tag (getStub a client st)) = Some (getStub a client st)"
    using assms(2) by (simp add: variant_get_spec_def)
  then show ?thesis
    using put_arguments_ok[OF assms(1,4), of "property_call ''Get'' ''ss'' p"] r n g
    by (simp add: property_getValue_def callMethodWithReply_def callMethodWithReply_message_def
        sendDBusMessageWithReplyAndBlock_def first_value_def)
qed

section \<open>Setting\<close>

lemma set_arguments_split: "set_types p = name_types @ [property_variant (propertyType p)]"
    "set_arguments tag x p = property_names p @ [VVariant tag x]"
  by (simp_all add: set_types_def set_arguments_def)

lemma length_wtFields: "wtFields E ts vs \<Longrightarrow> length ts = length vs"
  by (induction ts arbitrary: vs) (auto split: list.splits)

lemma all_read_back:
  assumes "fits E ts vs"
  shows "\<exists>n. readFields E ts (new_istream (body_of E ts vs)) = (vs, skip n (new_istream (body_of E ts vs)))"
  using prefix_read_back(1)[of E ts "[]" vs "[]"] assms length_wtFields[of E ts vs] by (auto simp: fits_def)

lemma retrieved:
  assumes "fits E (set_types p) (set_arguments tag x p)" "getBody m = body_of E (set_types p) (set_arguments tag x p)"
    and "attrType a = propertyType p" "variant_get_spec E G"
  shows "property_retrieveAttributeValue E G a m = Inr (False, x)"
proof -
  have "visit E 1 tag = Some 0"
    using assms(1) variant_one[of E "propertyType p" tag x] by (simp add: fits_def set_types_def set_arguments_def)
  moreover obtain n where "readFields E (set_types p) (new_istream (getBody m)) = (set_arguments tag x p, skip n (new_istream (getBody m)))"
    using all_read_back[OF assms(1)] assms(2) by auto
  ultimately show ?thesis
    using assms(3,4)
    by (simp add: property_retrieveAttributeValue_def set_types_def set_arguments_def variant_get_spec_def isErrorSet_def new_istream_def
        del: readFields.simps)
qed

lemma served_set:
  assumes "serves E G tag managed h p a" "variant_get_spec E G"
    and "fits E (set_types p) (set_arguments tag x p)" "onRemoteSet a client x st = (changed, st1)"
  shows "\<exists>r. serve_property E managed h client st (setBody (body_of E (set_types p) (set_arguments tag x p)) (property_call ''Set'' ''ssv'' p)) =
      (None, setBody (body_of E [property_variant (propertyType p)] (shown_variant tag a client st1)) (createMethodReturn ''v'' r))"
proof -
  let ?b = "body_of E (set_types p) (set_arguments tag x p)"
  let ?m = "MethodCall (setInterface PROPERTIES (serviceAddress p)) client ''Set'' ''ssv'' ?b"
  have m: "setSender client (setBody ?b (property_call ''Set'' ''ssv'' p)) = ?m"
    by (simp add: property_call_def createMethodCall_def)
  have a: "attrType a = propertyType p" "attrImplemented a" using assms(1) by (simp_all add: serves_def)
  have "property_retrieveAttributeValue E G a ?m = Inr (False, x)" by (rule retrieved[OF assms(3) _ a(1) assms(2)]) simp
  then have "\<exists>es. property_dispatchSet E G tag (Some (\<lambda>_. True)) a ?m st = Inr (True, es, st1) \<and> replies_in es =
      [setBody (body_of E [property_variant (propertyType p)] (shown_variant tag a client st1)) (createMethodReturn ''v'' ?m)]"
    using a assms(4) by (simp add: property_dispatchSet_def property_set_def set_attribute_with_def sent_reply replies_in_def)
  moreover have "properties_onInterfaceDBusMessage E True managed h ?m (st, []) =
      ebind (run_dispatcher E G tag (True, a) ?m (st, [])) (\<lambda>(r, s1). Inr (True, s1))"
    using served_call[OF assms(1) _ _ , of "[property_variant (propertyType p)]" "[VVariant tag x]" ?b "''Set''"] assms(3)
    by (simp add: set_arguments_split)
  ultimately show ?thesis by (auto simp: serve_property_def m run_dispatcher_def)
qed

text \<open>An attribute that is no property, in the same surroundings.\<close>

definition serve_attribute :: "ext \<Rightarrow> 's attribute \<Rightarrow> string \<Rightarrow> 's \<Rightarrow> remote" where
  "serve_attribute E a client st m =
     (case dispatchSetAttribute E (Some (\<lambda>_. True)) a (setSender client m) st of
        (handled, es, st1) \<Rightarrow>
          (case replies_in es of
             reply # _ \<Rightarrow> (None, reply)
           | [] \<Rightarrow> (Some ''org.freedesktop.DBus.Error.NoReply'', NoMessage)))"

text \<open>After setting an attribute, the client is told the value that the stub then has.\<close>

theorem attribute_set_returns_stub_value:
  assumes "args_spec E L" "attrImplemented a" "attrType a = valueType A" "fits E [valueType A] [x]"
    and "onRemoteSet a client x st = (changed, st1)" "fits E [valueType A] [getStub a client st1]"
  shows "attribute_setValue L True (sendDBusMessageWithReplyAndBlock True (serve_attribute E a client st)) x A =
    (SUCCESS, getStub a client st1)"
proof -
  let ?c = "attribute_call (setMethodName A) (setMethodSignature A) A"
  let ?m = "setBody (body_of E [valueType A] [x]) ?c"
  let ?reply = "setBody (body_of E [valueType A] [getStub a client st1]) (createMethodReturn (attrSignature a) (setSender client ?m))"
  have b: "getBody (setSender client ?m) = body_of E [valueType A] [x]" and c: "getSender (setSender client ?m) = client"
    by (simp_all add: attribute_call_def)
  have "retrieveAttributeValue E a (setSender client ?m) = (False, x)"
    using one_read_back[OF assms(4)] assms(3) b by (simp add: retrieveAttributeValue_def isErrorSet_def new_istream_def)
  then have "\<exists>es. dispatchSetAttribute E (Some (\<lambda>_. True)) a (setSender client ?m) st = (True, es, st1) \<and> replies_in es = [?reply]"
    using assms(2,3,5) c
    by (simp add: dispatchSetAttribute_def setAttributeValue_def set_attribute_with_def sendAttributeValueReply_def
        replies_in_def body_of_def Let_def)
  then have "serve_attribute E a client st ?m = (None, ?reply)" by (auto simp: serve_attribute_def)
  moreover have "get_arguments L [valueType A] [initialValue A] ?reply = (True, [getStub a client st1])"
    by (rule get_arguments_ok[OF assms(1,6)]) simp_all
  moreover have "?m \<noteq> NoMessage" by (simp add: attribute_call_def createMethodCall_def)
  ultimately show ?thesis
    using put_arguments_ok[OF assms(1,4), of ?c]
    by (simp add: attribute_setValue_def callMethodWithReply_def callMethodWithReply_message_def
        sendDBusMessageWithReplyAndBlock_def first_value_def)
qed

text \<open>A client that sets a property is told that it has the requested value, also when the stub refuses
  it: the answer carries the value of the stub, and the client does not read it.\<close>

theorem refused_property_set_succeeds:
  assumes "args_spec E L" "variant_get_spec E G" "serves E G tag managed h p a"
    and "fits E (set_types p) (set_arguments tag x p)" "onRemoteSet a client x st = (False, st)"
  shows "property_setValue L True (sendDBusMessageWithReplyAndBlock True (serve_property E managed h client st)) tag x p = (SUCCESS, x) \<and>
    (\<exists>reply. serve_property E managed h client st (setBody (body_of E (set_types p) (set_arguments tag x p)) (property_call ''Set'' ''ssv'' p)) =
        (None, reply) \<and> getBody reply = body_of E [property_variant (propertyType p)] (shown_variant tag a client st))"
proof -
  obtain r where r: "serve_property E managed h client st
        (setBody (body_of E (set_types p) (set_arguments tag x p)) (property_call ''Set'' ''ssv'' p)) =
      (None, setBody (body_of E [property_variant (propertyType p)] (shown_variant tag a client st)) (createMethodReturn ''v'' r))"
    using served_set[OF assms(3,2,4,5)] by blast
  have n: "setBody b (property_call ''Set'' ''ssv'' p) \<noteq> NoMessage" for b by (simp add: property_call_def createMethodCall_def)
  have ne: "set_types p \<noteq> []" by (simp add: set_types_def)
  show ?thesis
    using put_arguments_ok[OF assms(1,4), of "property_call ''Set'' ''ssv'' p"] r n ne
    by (simp add: property_setValue_def callMethodWithReply_def callMethodWithReply_message_def
        sendDBusMessageWithReplyAndBlock_def get_arguments_def)
qed

text \<open>
  Asynchronous calls that fail: the callback of an attribute gets a default-constructed value, that of the setter
  of a property the requested value, and that of its getter is never called.
\<close>

lemma failed_replies:
  "st \<noteq> SUCCESS \<Longrightarrow> attribute_onReply L True A st m = (st, Some (st, initialValue A))"
  "st \<noteq> SUCCESS \<Longrightarrow> property_onSetReply L True x st m = (st, Some (st, x))"
  "st \<noteq> SUCCESS \<Longrightarrow> variant_get_spec E G \<Longrightarrow> property_onGetReply L G True p st m = Inl BadCast"
  by (simp_all add: attribute_onReply_def property_onSetReply_def property_onGetReply_def handleDBusMessageReply_def
      first_value_def variant_get_spec_def Let_def)

section \<open>Messages that do not fit\<close>

lemma foreign_signature:
  assumes "ahead s (encSignature (sig_bytes t))" "length (getSignature t) < 256" "getSignature t \<notin> getSignature ` set ts"
  shows "\<exists>s'. readDBusVariantType ts s = (None, s')"
proof -
  let ?sg = "sig_bytes t"
  have b: "ahead s [of_nat (length ?sg)]" "ahead (skip 1 s) (?sg @ [0])"
    using assms(1) ahead_append[of s "[of_nat (length ?sg)]" "?sg @ [0]"] by (simp_all add: encSignature_def)
  have u: "unat (of_nat (length ?sg) :: byte) = length ?sg" using assms(2) by (simp add: unat_of_nat)
  show ?thesis
    using ahead_readInt[of s 1 "of_nat (length ?sg) :: byte"] b(1) ahead_readRaw[OF b(2), of "length ?sg + 1"]
      ApplyTypeCompareVisitor_none[OF assms(3)]
      ahead_not_error[OF b(1)]
    by (simp add: readDBusVariantType_def orelse_def u isErrorSet_def char_of_sig_bytes Let_def del: length_sig_bytes)
qed

lemma foreign_retrieve:
  assumes "fits E (name_types @ [property_variant t]) (names_of i n @ [VVariant k v])" "variant_get_spec E G"
    and "getBody m = body_of E (name_types @ [property_variant t]) (names_of i n @ [VVariant k v])"
    and "getSignature t \<noteq> getSignature (attrType a)"
  shows "property_retrieveAttributeValue E G a m = Inl BadCast"
proof -
  obtain s1 s2 where r: "readValue E (TString False) (new_istream (getBody m)) = (VString i, s1)" "readValue E (TString False) s1 = (VString n, s2)"
    and a: "ahead s2 (encFields E [property_variant t] [VVariant k v] (current s2))"
    using names_read[OF assms(1,3)] by metis
  have w: "wt E (property_variant t) (VVariant k v)" using assms(1) by (simp add: fits_def)
  then have k: "visit E 1 k = Some 0" by (rule variant_one)
  with w have l: "length (getSignature t) < 256" by (simp add: property_variant_def)
  have "ahead s2 (encSignature (sig_bytes t))" using a k by (simp add: property_variant_def Let_def ahead_append)
  then obtain s3 where "readDBusVariantType [attrType a] s2 = (None, s3)"
    using foreign_signature[OF _ l, of s2 "[attrType a]"] assms(4) by auto
  then have "readValue E (property_variant (attrType a)) s2 = (VUnset, s3)" by (simp add: property_variant_def)
  then show ?thesis
    using r assms(2) by (simp add: property_retrieveAttributeValue_def variant_get_spec_def del: readValue.simps)
qed

text \<open>A \<open>Set\<close> whose value has another type than the property throws an exception through the dispatcher, the
  properties interface and the callback of libdbus: any client on the bus can end the process of the stub.\<close>

theorem foreign_value_throws:
  assumes "variant_get_spec E G" "serves E G tag managed h p a"
    and "fits E (name_types @ [property_variant t]) (property_names p @ [VVariant k v])" "getSignature t \<noteq> getSignature (propertyType p)"
  shows "properties_onInterfaceDBusMessage E True managed h
      (MethodCall address client ''Set'' sg (body_of E (name_types @ [property_variant t]) (property_names p @ [VVariant k v]))) s =
    Inl BadCast"
proof -
  let ?m = "MethodCall address client ''Set'' sg (body_of E (name_types @ [property_variant t]) (property_names p @ [VVariant k v]))"
  have a: "attrType a = propertyType p" "attrImplemented a" using assms(2) by (simp_all add: serves_def)
  have "property_retrieveAttributeValue E G a ?m = Inl BadCast"
    using foreign_retrieve[OF assms(3,1), of ?m a] assms(4) a(1) by simp
  then have "run_dispatcher E G tag (True, a) ?m s = Inl BadCast"
    using a by (simp add: run_dispatcher_def property_dispatchSet_def property_set_def)
  then show ?thesis using served_call[OF assms(2,3) refl, of "''Set''"] by simp
qed

text \<open>A \<open>Get\<close> of a property that the interface does not have counts as handled, and nothing answers it; when
  the call of the client has timed out, \<open>getValue\<close> does not return this status but throws.\<close>

theorem unknown_property_throws:
  assumes "args_spec E L" "variant_get_spec E G" "fits E name_types (property_names p)"
    and "map_of managed (as_string (VString (interfaceName p))) = Some [adapter]"
    and "h adapter = property_adapter E G tag tables D getAll"
    and "findAttributeDispatcher tables (as_string (VString (propertyName p))) = None"
  shows "properties_onInterfaceDBusMessage E True managed h
      (MethodCall address client ''Get'' ''ss'' (body_of E name_types (property_names p))) s = Inr (True, s) \<and>
    property_getValue L G True (sendDBusMessageWithReplyAndBlock True (serve_property E managed h client st)) p = Inl BadCast"
proof -
  let ?b = "body_of E name_types (property_names p)"
  have f: "fits E (name_types @ []) (property_names p @ [])" "?b = body_of E (name_types @ []) (property_names p @ [])"
    using assms(3) by simp_all
  have 1: "properties_onInterfaceDBusMessage E True managed h (MethodCall ad client ''Get'' ''ss'' ?b) x = Inr (True, x)" for ad x
    unfolding properties_call_one[OF f, of "''Get''", simplified, OF assms(4)]
    using adapter_get[OF f, of G tag tables D getAll] assms(5,6) by simp
  have "serve_property E managed h client st (setBody ?b (property_call ''Get'' ''ss'' p)) =
      (Some ''org.freedesktop.DBus.Error.NoReply'', NoMessage)"
    using 1 by (simp add: serve_property_def property_call_def createMethodCall_def)
  moreover have "setBody ?b (property_call ''Get'' ''ss'' p) \<noteq> NoMessage" by (simp add: property_call_def createMethodCall_def)
  ultimately have "property_getValue L G True (sendDBusMessageWithReplyAndBlock True (serve_property E managed h client st)) p = Inl BadCast"
    using put_arguments_ok[OF assms(1,3), of "property_call ''Get'' ''ss'' p"] assms(2)
    by (simp add: property_getValue_def callMethodWithReply_def callMethodWithReply_message_def
        sendDBusMessageWithReplyAndBlock_def first_value_def variant_get_spec_def)
  then show ?thesis using 1 by blast
qed

section \<open>Instances\<close>

definition some_get :: variant_get where
  "some_get v = (case v of VVariant k x \<Rightarrow> (if visit some_ext 1 k = Some 0 then Some x else None) | _ \<Rightarrow> None)"

lemma some_get_spec: "variant_get_spec some_ext some_get"
  by (simp add: variant_get_spec_def some_get_def)

definition sample_property :: property where
  "sample_property = \<lparr>serviceAddress = DBusAddress ''s'' ''/p'' ''i'', interfaceName = [105], propertyName = [97], propertyType = TUInt8\<rparr>"

definition sample_adapter :: "val attribute \<Rightarrow> nat \<Rightarrow> message \<Rightarrow> val server \<Rightarrow> variant_error + bool \<times> val server" where
  "sample_adapter a n = property_adapter some_ext some_get 1 [[(''a'', (0, Some 1))]] (\<lambda>d. (d = 1, a)) (\<lambda>m s. Inr (False, s))"

lemma sample_serves:
  "attrImplemented a \<Longrightarrow> attrType a = TUInt8 \<Longrightarrow>
    serves some_ext some_get 1 (new_properties_stub ''i'' 7) (sample_adapter a) sample_property a"
proof -
  assume a: "attrImplemented a" "attrType a = TUInt8"
  have "map_of (new_properties_stub ''i'' 7) (as_string (VString [105])) = Some [7]"
    "findAttributeDispatcher [[(''a'', (0, Some 1))]] (as_string (VString [97])) = Some (0, Some 1)" by code_simp+
  with a show ?thesis
    unfolding serves_def sample_property_def
    by (intro conjI exI[of _ "7 :: nat"] exI[of _ "[[(''a'', (0, Some 1))]]"] exI[of _ "\<lambda>d. (d = 1, a)"]
        exI[of _ "\<lambda>m s. Inr (False, s)"] exI[of _ "0 :: nat"] exI[of _ "1 :: nat"]) (simp_all add: sample_adapter_def)
qed

lemma sample_variants:
  "wt some_ext (property_variant TUInt8) (VVariant 1 (V8 3))" "wt some_ext (property_variant TUInt8) (VVariant 1 (V8 7))"
  "wt some_ext (property_variant TBool) (VVariant 1 (VBool True))"
  "readable some_ext (property_variant TUInt8)" "readable some_ext (property_variant TBool)" "readable some_ext (TString False)"
  by code_simp+

lemma sample_strings: "wt some_ext (TString False) (VString [105])" "wt some_ext (TString False) (VString [97])"
    "wt some_ext (TString False) (VString [98])"
  by simp_all

lemma sample_lengths:
  "length (body_of some_ext name_types (names_of [105] [97])) < 1000"
  "length (body_of some_ext name_types (names_of [105] [98])) < 1000"
  "length (body_of some_ext [property_variant TUInt8] [VVariant 1 (V8 3)]) < 1000"
  "length (body_of some_ext [property_variant TUInt8] [VVariant 1 (V8 7)]) < 1000"
  "length (body_of some_ext (name_types @ [property_variant TUInt8]) (names_of [105] [97] @ [VVariant 1 (V8 7)])) < 1000"
  "length (body_of some_ext (name_types @ [property_variant TBool]) (names_of [105] [97] @ [VVariant 1 (VBool True)])) < 1000"
  by code_simp+

lemma sample_fits:
  "fits some_ext name_types (names_of [105] [97])" "fits some_ext name_types (names_of [105] [98])"
  "fits some_ext [property_variant TUInt8] [VVariant 1 (V8 3)]" "fits some_ext [property_variant TUInt8] [VVariant 1 (V8 7)]"
  "fits some_ext (name_types @ [property_variant TUInt8]) (names_of [105] [97] @ [VVariant 1 (V8 7)])"
  "fits some_ext (name_types @ [property_variant TBool]) (names_of [105] [97] @ [VVariant 1 (VBool True)])"
  by (rule fits_small[OF _ _ refl]; simp add: sample_variants sample_strings sample_lengths[simplified] del: wt.simps readable.simps)+

abbreviation sample_managed :: "(string \<times> nat list) list" where
  "sample_managed \<equiv> new_properties_stub ''i'' 7"

lemma sample_property_simps:
  "interfaceName sample_property = [105]" "propertyName sample_property = [97]" "propertyType sample_property = TUInt8"
  "set_types sample_property = name_types @ [property_variant TUInt8]"
  "set_arguments 1 x sample_property = names_of [105] [97] @ [VVariant 1 x]"
  by (simp_all add: sample_property_def set_types_def set_arguments_def)

lemma sample_attribute_simps:
  "attrImplemented sample_attribute" "attrType sample_attribute = TUInt8" "getStub sample_attribute c st = st"
  "onRemoteSet sample_attribute c v st = (v \<noteq> st, v)"
  by (simp_all add: sample_attribute_def)

theorem property_get_reads_stub_witness:
  "property_getValue (some_args some_ext) some_get True (sendDBusMessageWithReplyAndBlock True
      (serve_property some_ext sample_managed (sample_adapter sample_attribute) ''client'' (V8 3))) sample_property =
    Inr (SUCCESS, V8 3)"
  using property_get_reads_stub[OF some_args_spec some_get_spec sample_serves[OF sample_attribute_simps(1,2)],
      of "''client''" "V8 3"] sample_fits(1,3)
  by (simp add: sample_property_simps sample_attribute_simps)

theorem attribute_set_returns_stub_value_witness:
  "attribute_setValue (some_args some_ext) True
      (sendDBusMessageWithReplyAndBlock True (serve_attribute some_ext sample_attribute ''client'' (V8 2))) (V8 5)
      \<lparr>proxyAddress = DBusAddress ''s'' ''/p'' ''i'', getMethodName = ''get'', setMethodName = ''set'',
       setMethodSignature = ''y'', valueType = TUInt8, initialValue = V8 0\<rparr> = (SUCCESS, V8 5)"
proof -
  have "body_of some_ext [TUInt8] [V8 5] = [5]" by code_simp
  then have f: "fits some_ext [TUInt8] [V8 5]" by (auto intro: fits_small)
  let ?A = "\<lparr>proxyAddress = DBusAddress ''s'' ''/p'' ''i'', getMethodName = ''get'', setMethodName = ''set'',
       setMethodSignature = ''y'', valueType = TUInt8, initialValue = V8 0\<rparr>"
  from attribute_set_returns_stub_value[of some_ext "some_args some_ext" sample_attribute ?A "V8 5" "''client''" "V8 2" True "V8 5"] f
  show ?thesis by (simp add: some_args_spec sample_attribute_simps)
qed

theorem refused_property_set_succeeds_witness:
  "property_setValue (some_args some_ext) True (sendDBusMessageWithReplyAndBlock True
      (serve_property some_ext sample_managed (sample_adapter (sample_attribute\<lparr>onRemoteSet := (\<lambda>c v s. (False, s))\<rparr>)) ''client'' (V8 3)))
      1 (V8 7) sample_property = (SUCCESS, V8 7)"
proof -
  let ?a = "sample_attribute\<lparr>onRemoteSet := (\<lambda>c v s. (False, s))\<rparr>"
  have s: "serves some_ext some_get 1 sample_managed (sample_adapter ?a) sample_property ?a"
    by (rule sample_serves) (simp_all add: sample_attribute_simps)
  have "fits some_ext (set_types sample_property) (set_arguments 1 (V8 7) sample_property)"
    using sample_fits(5) by (simp add: sample_property_simps)
  from refused_property_set_succeeds[OF some_args_spec some_get_spec s this, of "''client''" "V8 3"]
  show ?thesis by simp
qed

theorem foreign_value_throws_witness:
  "properties_onInterfaceDBusMessage some_ext True sample_managed (sample_adapter sample_attribute)
      (MethodCall (DBusAddress ''s'' ''/p'' PROPERTIES) ''attacker'' ''Set'' ''ssv''
        (body_of some_ext (name_types @ [property_variant TBool]) (names_of [105] [97] @ [VVariant 1 (VBool True)]))) (V8 3, []) =
    Inl BadCast"
proof -
  have "getSignature TBool \<noteq> getSignature TUInt8" by code_simp
  then show ?thesis
    using foreign_value_throws[OF some_get_spec sample_serves[OF sample_attribute_simps(1,2)], of TBool 1 "VBool True"] sample_fits(6)
    by (simp add: sample_property_simps)
qed

theorem unknown_property_throws_witness:
  "property_getValue (some_args some_ext) some_get True (sendDBusMessageWithReplyAndBlock True
      (serve_property some_ext sample_managed (sample_adapter sample_attribute) ''client'' (V8 3)))
      (sample_property\<lparr>propertyName := [98]\<rparr>) = Inl BadCast"
proof -
  let ?p = "sample_property\<lparr>propertyName := [98]\<rparr>"
  have n: "map_of sample_managed (as_string (VString (interfaceName ?p))) = Some [7]"
    "findAttributeDispatcher [[(''a'', (0, Some 1))]] (as_string (VString (propertyName ?p))) = None" by code_simp+
  have f: "fits some_ext name_types (property_names ?p)" using sample_fits(2) by (simp add: sample_property_simps)
  show ?thesis
    by (rule unknown_property_throws[OF some_args_spec some_get_spec f n(1) _ n(2), THEN conjunct2])
      (simp add: sample_adapter_def)
qed

end
