(* ===== verification/Event.thy ===== *)
theory Event
  imports Proxy Message
begin

text \<open>
  The events of a proxy: \<open>DBusEvent\<close> (\<open>DBusEvent.hpp\<close>), \<open>DBusSelectiveEvent\<close> (\<open>DBusSelectiveEvent.hpp\<close>), and
  \<open>DBusMultiEvent\<close> (\<open>DBusMultiEvent.hpp\<close>).

  \<open>CommonAPI::Event\<close>, the base class that keeps the listeners, is not in the repository. The functions it calls
  when listeners come and go are the operations below; the order in which it calls them is the relation
  \<open>broadcast_run\<close> of the theory \<open>Event_Correct\<close>. An event works on the proxy it is a member of.
\<close>

section \<open>Events\<close>

text \<open>
  \<open>eventPath\<close> is \<open>path_\<close>, \<open>interface_\<close>, \<open>name_\<close> and \<open>signature_\<close>, \<open>argTypes\<close> the template parameters. The handler is a
  shared pointer, which is null until the first listener comes; \<open>fresh\<close> is the address of a new one.
\<close>

record dbus_event =
  eventPath :: handler_path
  eventGetMethod :: string
  argTypes :: "ty list"
  signalHandler :: "handler option"
  subscription :: token
  arguments :: "val list"

definition no_token :: token where
  "no_token = ('''', '''', '''', '''')"

definition new_event :: "handler_path \<Rightarrow> string \<Rightarrow> ty list \<Rightarrow> val list \<Rightarrow> dbus_event" where
  "new_event path getMethodName ts vs =
     \<lparr>eventPath = path, eventGetMethod = getMethodName, argTypes = ts, signalHandler = None, subscription = no_token, arguments = vs\<rparr>"

definition event_init :: "handler \<Rightarrow> dbus_event \<Rightarrow> dbus_event" where
  "event_init fresh ev = (case signalHandler ev of None \<Rightarrow> ev\<lparr>signalHandler := Some fresh\<rparr> | Some h \<Rightarrow> ev)"

text \<open>\<open>None\<close> is the use of a null handler, or the undefined behaviour of \<open>removeLibdbusSignalMatchRule\<close>.\<close>

definition event_onFirstListenerAdded :: "libdbus \<Rightarrow> (handler \<Rightarrow> bool) \<Rightarrow> handler \<Rightarrow> dbus_event \<Rightarrow> proxy \<Rightarrow> (dbus_event \<times> proxy) option" where
  "event_onFirstListenerAdded E alive fresh ev p =
     (let ev1 = event_init fresh ev
      in case signalHandler ev1 of
           None \<Rightarrow> None
         | Some h \<Rightarrow>
             (case proxy_addSignalMemberHandler E alive (eventPath ev1) (eventGetMethod ev1) h False p of
                (tok, p1) \<Rightarrow> Some (ev1\<lparr>subscription := tok\<rparr>, p1)))"

definition event_onListenerAdded :: "tag \<Rightarrow> dbus_event \<Rightarrow> proxy \<Rightarrow> proxy option" where
  "event_onListenerAdded t ev p =
     (case signalHandler ev of
        None \<Rightarrow> None
      | Some h \<Rightarrow>
          (let p1 = (if eventGetMethod ev \<noteq> '''' then getCurrentValueForSignalListener (eventGetMethod ev) h t p else p)
           in Some (addSignalStateHandler h t p1)))"

definition event_onListenerRemoved :: "tag \<Rightarrow> dbus_event \<Rightarrow> proxy \<Rightarrow> proxy" where
  "event_onListenerRemoved t ev p =
     (case signalHandler ev of None \<Rightarrow> p | Some h \<Rightarrow> removeSignalStateHandler h t False p)"

definition event_onLastListenerRemoved :: "libdbus \<Rightarrow> dbus_event \<Rightarrow> proxy \<Rightarrow> (dbus_event \<times> proxy) option" where
  "event_onLastListenerRemoved E ev p =
     map_option (\<lambda>p1. (ev\<lparr>subscription := no_token\<rparr>, p1))
       (snd (proxy_removeSignalMemberHandler E (subscription ev) (signalHandler ev) p))"

definition event_destroy :: "libdbus \<Rightarrow> dbus_event \<Rightarrow> proxy \<Rightarrow> proxy option" where
  "event_destroy E ev p =
     (let p1 = (case signalHandler ev of None \<Rightarrow> p | Some h \<Rightarrow> removeSignalStateHandler h 0 True p)
      in snd (proxy_removeSignalMemberHandler E (subscription ev) (signalHandler ev) p1))"

text \<open>
  A signal: the arguments are read into the members of the event, and the listeners are called with them unless
  the stream has an error. \<open>proxy_alive\<close> is whether the handler can lock its proxy. The initial value of an
  attribute is read in the same way, for the listener \<open>t\<close>.
\<close>

datatype event_call = AllListeners "val list" | OneListener tag "val list"

definition handleSignalDBusMessage :: "args_lib \<Rightarrow> tag option \<Rightarrow> message \<Rightarrow> dbus_event \<Rightarrow> event_call list \<times> dbus_event" where
  "handleSignalDBusMessage L t m ev =
     (case get_arguments L (argTypes ev) (arguments ev) m of
        (success, vs) \<Rightarrow>
          (if success then (case t of None \<Rightarrow> [AllListeners vs] | Some x \<Rightarrow> [OneListener x vs]) else [],
           ev\<lparr>arguments := vs\<rparr>))"

definition handler_onSignalDBusMessage :: "args_lib \<Rightarrow> bool \<Rightarrow> message \<Rightarrow> dbus_event \<Rightarrow> event_call list \<times> dbus_event" where
  "handler_onSignalDBusMessage L proxy_alive m ev = (if proxy_alive then handleSignalDBusMessage L None m ev else ([], ev))"

definition handler_onInitialValueSignalDBusMessage :: "args_lib \<Rightarrow> bool \<Rightarrow> tag \<Rightarrow> message \<Rightarrow> dbus_event \<Rightarrow> event_call list \<times> dbus_event" where
  "handler_onInitialValueSignalDBusMessage L proxy_alive t m ev =
     (if proxy_alive then handleSignalDBusMessage L (Some t) m ev else ([], ev))"

section \<open>Selective events\<close>

definition selective_onFirstListenerAdded :: "handler \<Rightarrow> dbus_event \<Rightarrow> dbus_event" where
  "selective_onFirstListenerAdded fresh ev = event_init fresh ev"

text \<open>The connection answers by \<open>setSubscriptionToken\<close> if the handler is alive, which it is: the event owns it.\<close>

definition setSubscriptionToken :: "token \<Rightarrow> tag \<Rightarrow> dbus_event \<Rightarrow> proxy \<Rightarrow> dbus_event \<times> proxy" where
  "setSubscriptionToken tok t ev p =
     (ev\<lparr>subscription := tok\<rparr>,
      case (signalHandler ev, eventPath ev) of
        (Some h, (path, interface, name, signature)) \<Rightarrow> insertSelectiveSubscription name h t signature p
      | (None, _) \<Rightarrow> p)"

definition selective_onListenerAdded :: "libdbus \<Rightarrow> (handler \<Rightarrow> bool) \<Rightarrow> tag \<Rightarrow> dbus_event \<Rightarrow> proxy \<Rightarrow> dbus_event \<times> proxy" where
  "selective_onListenerAdded E alive t ev p =
     (case signalHandler ev of
        None \<Rightarrow> (ev, p)
      | Some h \<Rightarrow> (if alive h then ev\<lparr>subscription := eventPath ev\<rparr> else ev, subscribeForSelectiveBroadcast E alive (eventPath ev) h t p))"

definition selective_onLastListenerRemoved :: "libdbus \<Rightarrow> dbus_event \<Rightarrow> proxy \<Rightarrow> proxy option" where
  "selective_onLastListenerRemoved E ev p =
     (case signalHandler ev of
        None \<Rightarrow> Some p
      | Some h \<Rightarrow> unsubscribeFromSelectiveBroadcast E (fst (snd (snd (eventPath ev)))) (subscription ev) h p)"

section \<open>Events with several names\<close>

text \<open>
  The listeners are a multimap from names to functions; \<open>answer l\<close> is whether listener \<open>l\<close> wants to be removed.
  The iteration erases the entry its iterator stands at and increments the iterator after that.
\<close>

record multi_event =
  listenersMap :: "(string \<times> nat) list"
  multi_called :: "(string \<times> nat) list"

datatype multi_error = ErasedIterator

datatype SubscriptionStatus = RETAIN | CANCEL

definition multi_subscribe :: "string \<Rightarrow> nat \<Rightarrow> multi_event \<Rightarrow> multi_event" where
  "multi_subscribe eventName listener ev = ev\<lparr>listenersMap := listenersMap ev @ [(eventName, listener)]\<rparr>"

definition multi_unsubscribe :: "string \<times> nat \<Rightarrow> multi_event \<Rightarrow> multi_event" where
  "multi_unsubscribe s ev = ev\<lparr>listenersMap := remove1 s (listenersMap ev)\<rparr>"

fun notifyListenersRange :: "(nat \<Rightarrow> bool) \<Rightarrow> string \<Rightarrow> (string \<times> nat) list \<Rightarrow> multi_event \<Rightarrow> multi_error + SubscriptionStatus \<times> multi_event" where
  "notifyListenersRange answer name [] ev = Inr (if listenersMap ev = [] then CANCEL else RETAIN, ev)"
| "notifyListenersRange answer name (e # es) ev =
     (let ev1 = ev\<lparr>multi_called := multi_called ev @ [(name, snd e)]\<rparr>
      in if answer (snd e) then Inl ErasedIterator
         else notifyListenersRange answer name es ev1)"

definition multi_notifyListeners :: "(nat \<Rightarrow> bool) \<Rightarrow> string \<Rightarrow> multi_event \<Rightarrow> multi_error + SubscriptionStatus \<times> multi_event" where
  "multi_notifyListeners answer name ev =
     ebind (notifyListenersRange answer name (filter (\<lambda>e. fst e = name) (listenersMap ev)) ev)
       (\<lambda>(st, ev1). if st = CANCEL then Inr (CANCEL, ev1)
          else notifyListenersRange answer name (filter (\<lambda>e. fst e = '''') (listenersMap ev1)) ev1)"

end
