(* ===== verification/Event_Correct.thy ===== *)
theory Event_Correct
  imports Event Proxy_Props Rpc_Correct
begin

text \<open>
  A broadcast across the two sides: while an event has listeners, every signal that the stub sends under its name
  reaches them with the arguments of the stub; without listeners, and after the event is gone, its handler
  is not called.
\<close>

section \<open>Listeners that come and go\<close>

text \<open>
  How \<open>CommonAPI::Event\<close> is documented to call the event: \<open>onFirstListenerAdded\<close> before the first listener,
  \<open>onListenerAdded\<close> for each, \<open>onListenerRemoved\<close> for each that goes, \<open>onLastListenerRemoved\<close> after the last one. The
  listeners are their subscriptions. Between these calls everything else may happen on the connection that
  leaves the handler of this event alone; a new handler is not registered anywhere.
\<close>

definition unheard :: "dbus_event \<Rightarrow> conn \<Rightarrow> bool" where
  "unheard ev c \<longleftrightarrow> (\<forall>h. signalHandler ev = Some h \<longrightarrow> h \<notin> handlers_at c (eventPath ev))"

definition roomy :: "proxy \<Rightarrow> bool" where
  "roomy p \<longleftrightarrow> length (signalHandlers (connection p)) < 2 ^ 32 - 1"

inductive broadcast_run :: "libdbus \<Rightarrow> (handler \<Rightarrow> bool) \<Rightarrow> tag list \<Rightarrow> dbus_event \<Rightarrow> proxy \<Rightarrow> bool" for E alive where
  start: "rules_inv (connection p) \<Longrightarrow> broadcast_run E alive [] (new_event path '''' ts vs) p"
| first: "broadcast_run E alive [] ev p \<Longrightarrow> roomy p \<Longrightarrow> (signalHandler ev = None \<Longrightarrow> fresh \<notin> handlers_at (connection p) (eventPath ev)) \<Longrightarrow>
    (\<And>h. signalHandler (event_init fresh ev) = Some h \<Longrightarrow> alive h) \<Longrightarrow>
    event_onFirstListenerAdded E alive fresh ev p = Some (ev1, p1) \<Longrightarrow> event_onListenerAdded t ev1 p1 = Some p2 \<Longrightarrow>
    broadcast_run E alive [t] ev1 p2"
| more: "broadcast_run E alive ls ev p \<Longrightarrow> ls \<noteq> [] \<Longrightarrow> event_onListenerAdded t ev p = Some p1 \<Longrightarrow> broadcast_run E alive (ls @ [t]) ev p1"
| fewer: "broadcast_run E alive ls ev p \<Longrightarrow> t \<in> set ls \<Longrightarrow> remove1 t ls \<noteq> [] \<Longrightarrow>
    broadcast_run E alive (remove1 t ls) ev (event_onListenerRemoved t ev p)"
| last: "broadcast_run E alive [t] ev p \<Longrightarrow> event_onLastListenerRemoved E ev (event_onListenerRemoved t ev p) = Some (ev1, p1) \<Longrightarrow>
    broadcast_run E alive [] ev1 p1"
| signal: "broadcast_run E alive ls ev p \<Longrightarrow> handler_onSignalDBusMessage L b m ev = (told, ev1) \<Longrightarrow> broadcast_run E alive ls ev1 p"
| elsewhere: "broadcast_run E alive ls ev p \<Longrightarrow> rules_inv (connection p') \<Longrightarrow>
    (\<And>h. signalHandler ev = Some h \<Longrightarrow> h \<in> handlers_at (connection p') (eventPath ev) \<longleftrightarrow> h \<in> handlers_at (connection p) (eventPath ev)) \<Longrightarrow>
    broadcast_run E alive ls ev p'"

definition broadcast_inv :: "(handler \<Rightarrow> bool) \<Rightarrow> tag list \<Rightarrow> dbus_event \<Rightarrow> proxy \<Rightarrow> bool" where
  "broadcast_inv alive ls ev p \<longleftrightarrow> rules_inv (connection p) \<and> eventGetMethod ev = '''' \<and>
     (if ls = [] then unheard ev (connection p)
      else subscription ev = eventPath ev \<and>
        (\<exists>h. signalHandler ev = Some h \<and> alive h \<and> h \<in> handlers_at (connection p) (eventPath ev)))"

text \<open>What the operations do to the handlers.\<close>

lemma state_handlers_frame [simp]:
  "connection (addSignalStateHandler h t p) = connection p" "connection (removeSignalStateHandler h t b p) = connection p"
  by (simp_all add: addSignalStateHandler_def removeSignalStateHandler_def push_function_def Let_def split: option.splits)

lemma event_onListenerAdded_frame:
  "eventGetMethod ev = '''' \<Longrightarrow> event_onListenerAdded t ev p = Some p1 \<Longrightarrow> connection p1 = connection p"
  by (auto simp: event_onListenerAdded_def split: option.splits)

lemma event_onListenerRemoved_frame [simp]: "connection (event_onListenerRemoved t ev p) = connection p"
  by (simp add: event_onListenerRemoved_def split: option.splits)

lemma event_first:
  assumes "event_onFirstListenerAdded E alive fresh ev p = Some (ev1, p1)" "eventGetMethod ev = ''''"
  obtains h where "signalHandler (event_init fresh ev) = Some h" "signalHandler ev1 = Some h" "eventPath ev1 = eventPath ev"
    "eventGetMethod ev1 = ''''" "subscription ev1 = eventPath ev"
    "connection p1 = snd (addSignalMemberHandler E alive (eventPath ev) h False (connection p))"
proof (cases "signalHandler ev")
  case None
  then show ?thesis
    using assms that[of fresh]
    by (auto simp: event_onFirstListenerAdded_def event_init_def proxy_addSignalMemberHandler_def Let_def split: prod.splits
        dest: arg_cong[where f = fst] arg_cong[where f = snd])
next
  case (Some h)
  then show ?thesis
    using assms that[of h]
    by (auto simp: event_onFirstListenerAdded_def event_init_def proxy_addSignalMemberHandler_def Let_def split: prod.splits
        dest: arg_cong[where f = fst] arg_cong[where f = snd])
qed

text \<open>A removal of the handler from its path always succeeds.\<close>

lemma proxy_remove_handler:
  assumes "rules_inv (connection p)"
  shows "\<exists>r p'. proxy_removeSignalMemberHandler E q (Some h) p = (r, Some p') \<and> rules_inv (connection p') \<and>
    handlers_at (connection p') = (\<lambda>q'. handlers_at (connection p) q' - (if q' = q then {h} else {})) \<and>
    signalStateHandlers p' = signalStateHandlers p"
proof -
  obtain c where c: "snd (removeSignalMemberHandler E q h (connection p)) = Some c" "rules_inv c"
    using rules_inv_removeSignalMemberHandler[OF assms] by blast
  obtain r where r: "removeSignalMemberHandler E q h (connection p) = (r, Some c)"
    using c(1) by (cases "removeSignalMemberHandler E q h (connection p)") auto
  have "handlers_at c q' = handlers_at (connection p) q' - (if q' = q then {h} else {})" for q'
    by (rule handlers_at_remove[OF assms c(1)])
  then show ?thesis using r c(2) by (auto simp: proxy_removeSignalMemberHandler_def Let_def)
qed

lemma broadcast_run_inv: "broadcast_run E alive ls ev p \<Longrightarrow> broadcast_inv alive ls ev p"
proof (induction rule: broadcast_run.induct)
  case (start p path ts vs)
  then show ?case by (simp add: broadcast_inv_def new_event_def unheard_def)
next
  case (first ev p fresh ev1 p1 t p2)
  have g: "eventGetMethod ev = ''''" and r: "rules_inv (connection p)" using first.IH by (simp_all add: broadcast_inv_def)
  obtain h where h: "signalHandler (event_init fresh ev) = Some h" "signalHandler ev1 = Some h" "eventPath ev1 = eventPath ev"
    "eventGetMethod ev1 = ''''" "subscription ev1 = eventPath ev"
    "connection p1 = snd (addSignalMemberHandler E alive (eventPath ev) h False (connection p))"
    using event_first[OF first.hyps(5) g] by metis
  have "connection p2 = connection p1" using event_onListenerAdded_frame[OF h(4) first.hyps(6)] .
  moreover have "rules_inv (connection p1)"
    using rules_inv_addSignalMemberHandler[OF r] first.hyps(2) h(6) by (simp add: roomy_def)
  moreover have "alive h" using first.hyps(4) h(1) by blast
  ultimately show ?case using h by (simp add: broadcast_inv_def handlers_at_add)
next
  case (more ls ev p t p1)
  then show ?case using event_onListenerAdded_frame[of ev t p p1] by (auto simp: broadcast_inv_def)
next
  case (fewer ls ev p t)
  then have "ls \<noteq> []" by auto
  then show ?case using fewer by (simp add: broadcast_inv_def)
next
  case (last t ev p ev1 p1)
  let ?p = "event_onListenerRemoved t ev p"
  obtain h where h: "signalHandler ev = Some h" and r: "rules_inv (connection ?p)" "subscription ev = eventPath ev" "eventGetMethod ev = ''''"
    using last.IH by (auto simp: broadcast_inv_def)
  obtain x p' where "proxy_removeSignalMemberHandler E (eventPath ev) (Some h) ?p = (x, Some p')" "rules_inv (connection p')"
    "h \<notin> handlers_at (connection p') (eventPath ev)"
    using proxy_remove_handler[OF r(1), of E "eventPath ev" h] by auto
  then show ?case
    using last.hyps(2) h r by (auto simp: event_onLastListenerRemoved_def broadcast_inv_def unheard_def)
next
  case (signal ls ev p L b m told ev1)
  then show ?case
    by (auto simp: broadcast_inv_def handler_onSignalDBusMessage_def handleSignalDBusMessage_def unheard_def
        split: if_splits prod.splits)
next
  case (elsewhere ls ev p p')
  then show ?case by (auto simp: broadcast_inv_def unheard_def)
qed

section \<open>Broadcasts\<close>

text \<open>A signal as the filter of the receiving connection sees it.\<close>

fun signal_view :: "string \<Rightarrow> message \<Rightarrow> signal_message" where
  "signal_view sender (Signal d path interface member signature b) =
     \<lparr>is_signal = True, msg_path = Some path, msg_interface = Some interface, msg_member = Some member,
      msg_signature = Some signature, msg_sender = Some sender\<rparr>"
| "signal_view sender m =
     \<lparr>is_signal = False, msg_path = None, msg_interface = None, msg_member = None, msg_signature = None, msg_sender = None\<rparr>"

definition broadcast_path :: "DBusAddress \<Rightarrow> string \<Rightarrow> string \<Rightarrow> handler_path" where
  "broadcast_path address name signature = (getObjectPath address, getInterface address, name, signature)"

definition is_called :: "(handler \<Rightarrow> bool) \<Rightarrow> signal_message \<Rightarrow> dbus_event \<Rightarrow> conn \<Rightarrow> bool" where
  "is_called alive m ev c \<longleftrightarrow> (\<exists>h. signalHandler ev = Some h \<and> h \<in> set (snd (onLibdbusSignalFilter alive m c)))"

lemma filter_handlers:
  assumes "i \<noteq> ''org.freedesktop.DBus.ObjectManager''"
  shows "set (snd (onLibdbusSignalFilter alive (signal_view sender (Signal d path i n sg b)) c)) =
    {h \<in> handlers_at c (path, i, n, sg). alive h}"
  using assms by (auto simp: onLibdbusSignalFilter_def notifyDBusSignalHandlers_def handlers_at_def split: option.splits)

lemma sendSignal_message:
  assumes "args_spec E L" "fits E ts vs"
  shows "\<exists>d b. sendSignal L send target address name sg ts vs =
      (send (Signal d (getObjectPath address) (getInterface address) name sg b),
       Some (Signal d (getObjectPath address) (getInterface address) name sg b)) \<and> (ts \<noteq> [] \<longrightarrow> b = body_of E ts vs)"
  using put_arguments_ok[OF assms]
  by (cases target) (simp_all add: sendSignal_def createSignal_def Let_def)

lemma called_while_heard:
  assumes "broadcast_run X alive ls ev p" "eventPath ev = broadcast_path address name sg"
    and "getInterface address \<noteq> ''org.freedesktop.DBus.ObjectManager''"
  shows "is_called alive (signal_view sender (Signal d (getObjectPath address) (getInterface address) name sg b)) ev (connection p) \<longleftrightarrow>
    ls \<noteq> []"
proof -
  let ?m = "Signal d (getObjectPath address) (getInterface address) name sg b"
  have "is_called alive (signal_view sender ?m) ev (connection p) \<longleftrightarrow>
      (\<exists>h. signalHandler ev = Some h \<and> h \<in> handlers_at (connection p) (eventPath ev) \<and> alive h)"
    unfolding is_called_def filter_handlers[OF assms(3)] assms(2) broadcast_path_def by simp
  also have "\<dots> \<longleftrightarrow> ls \<noteq> []"
    using broadcast_run_inv[OF assms(1)] by (auto simp: broadcast_inv_def unheard_def split: if_splits)
  finally show ?thesis .
qed

text \<open>C7: a broadcast that a stub fires is sent as one signal. The connection of a client hands it to an event of
  that name exactly while the event has listeners, and the event calls its listeners with the arguments
  the stub has fired.\<close>

theorem broadcast_reaches_listeners:
  assumes "broadcast_run X alive ls ev p" "args_spec E L" "fits E ts vs"
    and "eventPath ev = broadcast_path address name sg" "argTypes ev = ts" "ts = [] \<Longrightarrow> arguments ev = []"
    and "getInterface address \<noteq> ''org.freedesktop.DBus.ObjectManager''"
  shows "\<exists>m. snd (sendSignal L send None address name sg ts vs) = Some m \<and>
    (is_called alive (signal_view sender m) ev (connection p) \<longleftrightarrow> ls \<noteq> []) \<and>
    fst (handler_onSignalDBusMessage L True m ev) = [AllListeners vs]"
proof -
  obtain d b where m: "snd (sendSignal L send None address name sg ts vs) =
      Some (Signal d (getObjectPath address) (getInterface address) name sg b)" "ts \<noteq> [] \<Longrightarrow> b = body_of E ts vs"
    using sendSignal_message[OF assms(2,3)] by (metis snd_conv)
  let ?m = "Signal d (getObjectPath address) (getInterface address) name sg b"
  have "get_arguments L ts (arguments ev) ?m = (True, vs)"
    by (rule get_arguments_ok[OF assms(2,3)]) (use m(2) assms(6) in simp_all)
  then have a: "fst (handler_onSignalDBusMessage L True ?m ev) = [AllListeners vs]"
    using assms(5) by (simp add: handler_onSignalDBusMessage_def handleSignalDBusMessage_def)
  show ?thesis using m(1) a called_while_heard[OF assms(1,4,7)] by blast
qed


section \<open>Instances\<close>

definition sample_address :: DBusAddress where
  "sample_address = DBusAddress ''s'' ''/p'' ''i''"

abbreviation idle_event :: dbus_event where
  "idle_event \<equiv> new_event (broadcast_path sample_address ''changed'' ''y'') '''' [TUInt8] [V8 0]"

lemma sample_broadcast:
  "\<exists>ev p. broadcast_run all_ok (\<lambda>_. True) [4] ev p \<and> eventPath ev = broadcast_path sample_address ''changed'' ''y'' \<and>
    argTypes ev = [TUInt8] \<and> signalHandler ev = Some 7"
proof -
  let ?p = "new_proxy ''/p'' ''i'' new_conn"
  obtain ev1 p1 where f: "event_onFirstListenerAdded all_ok (\<lambda>_. True) 7 idle_event ?p = Some (ev1, p1)"
    by (cases "proxy_addSignalMemberHandler all_ok (\<lambda>_. True) (eventPath idle_event) [] 7 False ?p")
      (auto simp: event_onFirstListenerAdded_def event_init_def new_event_def)
  have ev1: "signalHandler ev1 = Some 7" "eventPath ev1 = eventPath idle_event" "argTypes ev1 = [TUInt8]"
    using f by (auto simp: event_onFirstListenerAdded_def event_init_def new_event_def split: prod.splits)
  obtain p2 where p2: "event_onListenerAdded 4 ev1 p1 = Some p2" using ev1(1) by (simp add: event_onListenerAdded_def)
  have "broadcast_run all_ok (\<lambda>_. True) [] idle_event ?p" by (rule start) (simp add: new_proxy_def rules_inv_new)
  from first[OF this _ _ _ f p2] have "broadcast_run all_ok (\<lambda>_. True) [4] ev1 p2"
    by (simp add: roomy_def new_proxy_def new_conn_def handlers_at_def)
  with ev1 show ?thesis by (auto simp: new_event_def)
qed

theorem broadcast_reaches_listeners_witness:
  "\<exists>ev p m. broadcast_run all_ok (\<lambda>_. True) [4] ev p \<and>
    snd (sendSignal (some_args some_ext) (\<lambda>_. True) None sample_address ''changed'' ''y'' [TUInt8] [V8 5]) = Some m \<and>
    is_called (\<lambda>_. True) (signal_view '':1.7'' m) ev (connection p) \<and>
    fst (handler_onSignalDBusMessage (some_args some_ext) True m ev) = [AllListeners [V8 5]]"
proof -
  have "body_of some_ext [TUInt8] [V8 5] = [5]" by code_simp
  then have f: "fits some_ext [TUInt8] [V8 5]" by (auto intro: fits_small)
  obtain ev p where r: "broadcast_run all_ok (\<lambda>_. True) [4] ev p" "eventPath ev = broadcast_path sample_address ''changed'' ''y''"
    "argTypes ev = [TUInt8]" using sample_broadcast by blast
  have "getInterface sample_address \<noteq> ''org.freedesktop.DBus.ObjectManager''" by (simp add: sample_address_def)
  from broadcast_reaches_listeners[OF r(1) some_args_spec f r(2,3) _ this, of "\<lambda>_. True" "'':1.7''"] r(1)
  show ?thesis by auto
qed


section \<open>Events with several names\<close>

text \<open>A listener that cancels its subscription while it is called leaves the iteration with an erased iterator.\<close>

lemma cancel_uses_erased_iterator:
  "\<exists>e\<in>set (listenersMap ev). fst e = name \<and> answer (snd e) \<Longrightarrow> multi_notifyListeners answer name ev = Inl ErasedIterator"
proof -
  assume a: "\<exists>e\<in>set (listenersMap ev). fst e = name \<and> answer (snd e)"
  have "\<exists>e\<in>set es. answer (snd e) \<Longrightarrow> notifyListenersRange answer name es ev' = Inl ErasedIterator" for es ev'
    by (induction es arbitrary: ev') auto
  moreover have "\<exists>e\<in>set (filter (\<lambda>e. fst e = name) (listenersMap ev)). answer (snd e)" using a by auto
  ultimately have "notifyListenersRange answer name (filter (\<lambda>e. fst e = name) (listenersMap ev)) ev = Inl ErasedIterator"
    by blast
  then show ?thesis by (simp add: multi_notifyListeners_def)
qed

end
