(* ===== verification/Daemon.thy ===== *)
theory Daemon
  imports Method_Call Stub_Dispatch Rpc_Correct
begin

text \<open>
  The proxy of the bus daemon (\<open>DBusDaemonProxy.cpp\<close>, \<open>DBusDaemonProxy.hpp\<close>). Its calls are written out, they
  do not use \<open>DBusProxyHelper\<close>; it counts as available while the connection is open. An array of strings on the
  wire is a vector.
\<close>

section \<open>The proxy\<close>

definition dbusProxyAddress :: DBusAddress where
  "dbusProxyAddress = DBusAddress ''org.freedesktop.DBus'' ''/org/freedesktop/DBus'' ''org.freedesktop.DBus''"

definition daemon_call :: "string \<Rightarrow> string \<Rightarrow> message" where
  "daemon_call name signature = createMethodCall dbusProxyAddress name signature"

definition daemon_isAvailable :: "bool \<Rightarrow> bool" where
  "daemon_isAvailable connected = connected"

text \<open>The future of \<open>isAvailableAsync\<close>, and the calls of its callback.\<close>

definition daemon_isAvailableAsync :: "bool \<Rightarrow> bool \<times> bool list" where
  "daemon_isAvailableAsync connected = (daemon_isAvailable connected, [])"

text \<open>\<open>StaticInterfaceVersionAttribute\<close>: the status, and the version, of which the callback also hears.\<close>

definition static_version :: "nat \<times> nat" where
  "static_version = (1, 0)"

definition version_getValue :: "status \<times> (nat \<times> nat)" where
  "version_getValue = (SUCCESS, static_version)"

definition version_getValueAsync :: "future \<times> (status \<times> (nat \<times> nat)) list" where
  "version_getValueAsync = (Ready SUCCESS, [(SUCCESS, static_version)])"

section \<open>Blocking calls\<close>

definition listNames :: "args_lib \<Rightarrow> remote \<Rightarrow> val list \<Rightarrow> status \<times> val list" where
  "listNames L remote busNames =
     (case remote (daemon_call ''ListNames'' '''') of
        (error, reply) \<Rightarrow>
          if error \<noteq> None \<or> \<not> isMethodReturnType reply then (REMOTE_ERROR, busNames)
          else (case get_arguments L [TVector (TString False)] busNames reply of
                  (success, vs) \<Rightarrow> if \<not> success then (SERIALIZATION_ERROR, vs) else (SUCCESS, vs)))"

definition nameHasOwner :: "args_lib \<Rightarrow> remote \<Rightarrow> byte list \<Rightarrow> val list \<Rightarrow> status \<times> val list" where
  "nameHasOwner L remote busName hasOwner =
     (case put_arguments L [TString False] [VString busName] (daemon_call ''NameHasOwner'' ''s'') of
        None \<Rightarrow> (SERIALIZATION_ERROR, hasOwner)
      | Some m \<Rightarrow>
          (case remote m of
             (error, reply) \<Rightarrow>
               if error \<noteq> None \<or> \<not> isMethodReturnType reply then (REMOTE_ERROR, hasOwner)
               else (case get_arguments L [TBool] hasOwner reply of
                       (success, vs) \<Rightarrow> if \<not> success then (SERIALIZATION_ERROR, vs) else (SUCCESS, vs))))"

section \<open>Asynchronous calls\<close>

text \<open>\<open>accepted\<close> is whether the connection takes the message.\<close>

definition listNamesAsync :: "bool \<Rightarrow> future \<times> async_action list" where
  "listNamesAsync accepted =
     (if accepted then OfHandler else Invalid, [SendWithReply (daemon_call ''ListNames'' '''') None])"

definition nameHasOwnerAsync :: "args_lib \<Rightarrow> bool \<Rightarrow> byte list \<Rightarrow> future \<times> async_action list" where
  "nameHasOwnerAsync L accepted busName =
     (case put_arguments L [TString False] [VString busName] (daemon_call ''NameHasOwner'' ''s'') of
        None \<Rightarrow> (Ready SERIALIZATION_ERROR, [])
      | Some m \<Rightarrow> (if accepted then OfHandler else Invalid, [SendWithReply m None]))"

definition getNameOwnerAsync :: "args_lib \<Rightarrow> bool \<Rightarrow> byte list \<Rightarrow> future \<times> async_action list" where
  "getNameOwnerAsync L accepted busName =
     (case put_arguments L [TString False] [VString busName] (daemon_call ''GetNameOwner'' ''s'') of
        None \<Rightarrow> (Ready SERIALIZATION_ERROR, [])
      | Some m \<Rightarrow> (if accepted then OfHandler else Invalid, [SendWithReply m None]))"

text \<open>The address is a static variable of the function: \<open>address\<close> is its value, \<open>None\<close> before the first call.\<close>

definition daemon_getManagedObjectsAsync :: "string \<Rightarrow> DBusAddress option \<Rightarrow> async_action list \<times> DBusAddress option" where
  "daemon_getManagedObjectsAsync forDBusServiceName address =
     (let a = (case address of
                 Some x \<Rightarrow> x
               | None \<Rightarrow> DBusAddress forDBusServiceName ''/'' ''org.freedesktop.DBus.ObjectManager'')
      in ([SendWithReply (createMethodCall a ''GetManagedObjects'' '''') None], Some a))"

section \<open>Properties\<close>

text \<open>The blocking calls of the daemon proxy, which are written out, do what \<open>DBusProxyHelper\<close> would do for
  a proxy that is available: same status, same results, on every exit.\<close>

theorem daemon_calls_match_helper:
  "listNames L remote old =
      callMethodWithReply_message L remote [] [] [TVector (TString False)] old (daemon_call ''ListNames'' '''') \<and>
    nameHasOwner L remote busName old' =
      callMethodWithReply_message L remote [TString False] [VString busName] [TBool] old' (daemon_call ''NameHasOwner'' ''s'')"
  by (auto simp: listNames_def nameHasOwner_def callMethodWithReply_message_def put_arguments_def
      split: option.splits prod.splits)

text \<open>A name that the daemon answers for: the answer is what the caller gets.\<close>

lemma nameHasOwner_answer:
  assumes "args_spec E L" "fits E [TString False] [VString busName]" "fits E [TBool] [VBool owned]"
    and "remote (setBody (body_of E [TString False] [VString busName]) (daemon_call ''NameHasOwner'' ''s'')) =
      (None, setBody (body_of E [TBool] [VBool owned]) (createMethodReturn ''b'' m))"
  shows "nameHasOwner L remote busName old = (SUCCESS, [VBool owned])"
proof -
  let ?r = "setBody (body_of E [TBool] [VBool owned]) (createMethodReturn ''b'' m)"
  have "get_arguments L [TBool] old ?r = (True, [VBool owned])" by (rule get_arguments_ok[OF assms(1,3)]) simp_all
  then show ?thesis
    using put_arguments_ok[OF assms(1,2), of "daemon_call ''NameHasOwner'' ''s''"] assms(4) by (simp add: nameHasOwner_def)
qed

text \<open>
  The second service that is asked for its objects is not asked: the call goes to the first one again.
\<close>

lemma managed_objects_of_first_service:
  "fst (daemon_getManagedObjectsAsync b (snd (daemon_getManagedObjectsAsync a None))) = fst (daemon_getManagedObjectsAsync a None)"
  by (simp add: daemon_getManagedObjectsAsync_def Let_def)

end
