(* ===== verification/Creation.thy ===== *)
theory Creation
  imports Factory
begin

text \<open>
  How an application gets its proxies and stubs (\<open>DBusFactory.cpp\<close>): the initializers of the interface libraries,
  the creation functions they register, \<open>createProxy\<close>, \<open>createDBusStubAdapter\<close>, and the end of a proxy (the
  constructor, \<open>init\<close> and the destructor in \<open>DBusProxy.cpp\<close> and \<open>DBusProxyBase.cpp\<close>).

  Interface libraries and creation functions are generated code and are numbers here; \<open>generated\<close> says what they do.
\<close>

section \<open>State\<close>

datatype registration = ProxyFunction string nat | StubFunction string nat

record generated =
  registrations :: "nat \<Rightarrow> registration list"
  makesProxy :: "nat \<Rightarrow> DBusAddress \<Rightarrow> bool"
  stubKind :: "nat \<Rightarrow> bool \<times> bool"

text \<open>\<open>ranInitializers\<close> is a log of the initializers that were called.\<close>

record live_proxy =
  proxyDBusAddress :: DBusAddress
  proxyAddress :: capi_address
  proxyConnection :: nat

record app =
  fac :: factory
  initializers :: "nat list"
  isInitialized :: bool
  proxyCreateFunctions :: "(string \<times> nat) list"
  stubAdapterCreateFunctions :: "(string \<times> nat) list"
  liveProxies :: "(nat \<times> live_proxy) list"
  availabilitySubscriptions :: "(nat \<times> string) list"
  nextProxy :: nat
  ranInitializers :: "nat list"

definition new_app :: "translator \<Rightarrow> app" where
  "new_app T =
     \<lparr>fac = new_factory T, initializers = [], isInitialized = False, proxyCreateFunctions = [], stubAdapterCreateFunctions = [],
      liveProxies = [], availabilitySubscriptions = [], nextProxy = 0, ranInitializers = []\<rparr>"

section \<open>Interface libraries\<close>

definition registerProxyCreateMethod :: "string \<Rightarrow> nat \<Rightarrow> app \<Rightarrow> app" where
  "registerProxyCreateMethod interface f a = a\<lparr>proxyCreateFunctions := al_put interface f (proxyCreateFunctions a)\<rparr>"

definition registerStubAdapterCreateMethod :: "string \<Rightarrow> nat \<Rightarrow> app \<Rightarrow> app" where
  "registerStubAdapterCreateMethod interface f a =
     a\<lparr>stubAdapterCreateFunctions := al_put interface f (stubAdapterCreateFunctions a)\<rparr>"

fun register_function :: "registration \<Rightarrow> app \<Rightarrow> app" where
  "register_function (ProxyFunction i f) a = registerProxyCreateMethod i f a"
| "register_function (StubFunction i f) a = registerStubAdapterCreateMethod i f a"

definition run_initializer :: "generated \<Rightarrow> nat \<Rightarrow> app \<Rightarrow> app" where
  "run_initializer G i a = fold register_function (registrations G i) (a\<lparr>ranInitializers := ranInitializers a @ [i]\<rparr>)"

definition init_factory :: "generated \<Rightarrow> app \<Rightarrow> app" where
  "init_factory G a =
     (if isInitialized a then a
      else (fold (run_initializer G) (initializers a) a)\<lparr>initializers := [], isInitialized := True\<rparr>)"

definition registerInterface :: "generated \<Rightarrow> nat \<Rightarrow> app \<Rightarrow> app" where
  "registerInterface G i a =
     (if isInitialized a then run_initializer G i a else a\<lparr>initializers := initializers a @ [i]\<rparr>)"

section \<open>Proxies\<close>

text \<open>
  The constructor asks the translator for the address of the proxy, whose default is the empty address; \<open>init\<close>
  subscribes for the availability of the service under that address.
\<close>

definition make_proxy :: "fac_env \<Rightarrow> DBusAddress \<Rightarrow> nat \<Rightarrow> app \<Rightarrow> nat \<times> app" where
  "make_proxy F d c a =
     (let p = nextProxy a
      in case tr_translate_back (ext F) d (translation (fac a)) of
           (k, T) \<Rightarrow>
             (p, a\<lparr>fac := (fac a)\<lparr>translation := T\<rparr>,
                   liveProxies := liveProxies a @
                     [(p, \<lparr>proxyDBusAddress = d, proxyAddress = (case k of Some x \<Rightarrow> x | None \<Rightarrow> emptyAddress F), proxyConnection = c\<rparr>)],
                   nextProxy := p + 1\<rparr>))"

definition init_proxy :: "fac_env \<Rightarrow> nat \<Rightarrow> app \<Rightarrow> app" where
  "init_proxy F p a =
     (case map_of (liveProxies a) p of
        None \<Rightarrow> a
      | Some x \<Rightarrow> a\<lparr>availabilitySubscriptions := availabilitySubscriptions a @ [(p, print_address (ext F) (proxyAddress x))]\<rparr>)"

definition createProxy_on ::
    "fac_env \<Rightarrow> generated \<Rightarrow> capi_address \<Rightarrow> (factory \<Rightarrow> nat option \<times> factory) \<Rightarrow> app \<Rightarrow> nat option \<times> app" where
  "createProxy_on F G address get a =
     (case map_of (proxyCreateFunctions a) (capi_interface address) of
        None \<Rightarrow> (None, a)
      | Some f \<Rightarrow>
          (case tr_translate (ext F) address (translation (fac a)) of
             (None, T) \<Rightarrow> (None, a\<lparr>fac := (fac a)\<lparr>translation := T\<rparr>\<rparr>)
           | (Some d, T) \<Rightarrow>
               (case get ((fac a)\<lparr>translation := T\<rparr>) of
                  (None, s) \<Rightarrow> (None, a\<lparr>fac := s\<rparr>)
                | (Some c, s) \<Rightarrow>
                    if \<not> makesProxy G f d then (None, a\<lparr>fac := s\<rparr>)
                    else (case make_proxy F d c (a\<lparr>fac := s\<rparr>) of (p, a1) \<Rightarrow> (Some p, init_proxy F p a1)))))"

text \<open>The two functions \<open>createProxy\<close> differ in how they get the connection.\<close>

definition createProxy :: "fac_env \<Rightarrow> generated \<Rightarrow> capi_address \<Rightarrow> string \<Rightarrow> app \<Rightarrow> nat option \<times> app" where
  "createProxy F G address connectionId a = createProxy_on F G address (getConnection F connectionId) a"

definition createProxy_context ::
    "fac_env \<Rightarrow> generated \<Rightarrow> string \<Rightarrow> capi_address \<Rightarrow> string option \<Rightarrow> app \<Rightarrow> nat option \<times> app" where
  "createProxy_context F G defaultId address context a =
     createProxy_on F G address (getConnection_context F defaultId context) a"

text \<open>The destructor. The factory is a weak pointer; \<open>factoryAlive\<close> is whether it can be locked.\<close>

definition destroyProxy :: "fac_env \<Rightarrow> bool \<Rightarrow> nat \<Rightarrow> app \<Rightarrow> app" where
  "destroyProxy F factoryAlive p a =
     (case map_of (liveProxies a) p of
        None \<Rightarrow> a
      | Some x \<Rightarrow>
          (let a1 = a\<lparr>availabilitySubscriptions :=
                 filter (\<lambda>s. s \<noteq> (p, print_address (ext F) (proxyAddress x))) (availabilitySubscriptions a)\<rparr>;
               s1 = (if factoryAlive then decrementConnection F (proxyConnection x) (fac a1) else fac a1);
               s2 = s1\<lparr>translation := tr_remove (proxyAddress x) (translation s1)\<rparr>
           in a1\<lparr>fac := s2, liveProxies := al_erase p (liveProxies a1)\<rparr>))"

section \<open>Stubs\<close>

text \<open>What the creation functions of the interfaces give for a stub, as theory \<open>Factory\<close> uses it.\<close>

definition stub_creation :: "generated \<Rightarrow> app \<Rightarrow> string \<Rightarrow> (bool \<times> bool) option" where
  "stub_creation G a interface = map_option (stubKind G) (map_of (stubAdapterCreateFunctions a) interface)"

definition app_registerStub ::
    "fac_env \<Rightarrow> generated \<Rightarrow> capi_address \<Rightarrow> string \<Rightarrow> app \<Rightarrow> factory_error + bool \<times> app" where
  "app_registerStub F G address connectionId a =
     ebind (registerStub (F\<lparr>creates := stub_creation G a\<rparr>) address connectionId (fac a)) (\<lambda>(ok, s). Inr (ok, a\<lparr>fac := s\<rparr>))"

definition createDBusStubAdapter ::
    "fac_env \<Rightarrow> generated \<Rightarrow> string \<Rightarrow> DBusAddress \<Rightarrow> nat \<Rightarrow> app \<Rightarrow> adapter option \<times> app" where
  "createDBusStubAdapter F G interface d c a =
     (case stub_creation G a interface of
        None \<Rightarrow> (None, a)
      | Some kind \<Rightarrow> (case new_adapter F d c kind (fac a) of (x, s) \<Rightarrow> (Some x, a\<lparr>fac := s\<rparr>)))"

section \<open>Runs\<close>

datatype app_action =
    RegisterInterface nat
  | InitFactory
  | CreateProxy capi_address string
  | CreateProxyContext capi_address "string option"
  | DestroyProxy nat

fun app_step :: "fac_env \<Rightarrow> generated \<Rightarrow> string \<Rightarrow> app_action \<Rightarrow> app \<Rightarrow> app" where
  "app_step F G defaultId (RegisterInterface i) a = registerInterface G i a"
| "app_step F G defaultId InitFactory a = init_factory G a"
| "app_step F G defaultId (CreateProxy k c) a = snd (createProxy F G k c a)"
| "app_step F G defaultId (CreateProxyContext k x) a = snd (createProxy_context F G defaultId k x a)"
| "app_step F G defaultId (DestroyProxy p) a = destroyProxy F True p a"

definition app_run :: "fac_env \<Rightarrow> generated \<Rightarrow> string \<Rightarrow> app_action list \<Rightarrow> app \<Rightarrow> app" where
  "app_run F G defaultId as a = fold (app_step F G defaultId) as a"

end
