(* ===== verification/Creation_Correct.thy ===== *)
theory Creation_Correct
  imports Creation Factory_Props
begin

text \<open>
  The initializers of interface libraries run once and in order; a connection is open exactly while a proxy uses
  it, and has the number of its proxies; what a null proxy and a main loop context that is gone leave behind.
\<close>

section \<open>Initializers\<close>

fun registered_interfaces :: "app_action list \<Rightarrow> nat list" where
  "registered_interfaces [] = []"
| "registered_interfaces (RegisterInterface i # as) = i # registered_interfaces as"
| "registered_interfaces (a # as) = registered_interfaces as"

lemma registered_append: "registered_interfaces (as @ bs) = registered_interfaces as @ registered_interfaces bs"
  by (induction as rule: registered_interfaces.induct) simp_all

lemma register_function_frame [simp]:
  "ranInitializers (register_function r a) = ranInitializers a" "initializers (register_function r a) = initializers a"
  "isInitialized (register_function r a) = isInitialized a" "fac (register_function r a) = fac a"
  "liveProxies (register_function r a) = liveProxies a" "nextProxy (register_function r a) = nextProxy a"
  by (cases r; simp add: registerProxyCreateMethod_def registerStubAdapterCreateMethod_def)+

lemma register_functions_frame [simp]:
  "ranInitializers (fold register_function rs a) = ranInitializers a" "initializers (fold register_function rs a) = initializers a"
  "isInitialized (fold register_function rs a) = isInitialized a" "fac (fold register_function rs a) = fac a"
  "liveProxies (fold register_function rs a) = liveProxies a" "nextProxy (fold register_function rs a) = nextProxy a"
  by (induction rs arbitrary: a) simp_all

lemma run_initializers_frame [simp]:
  "ranInitializers (fold (run_initializer G) is a) = ranInitializers a @ is"
  "fac (fold (run_initializer G) is a) = fac a" "liveProxies (fold (run_initializer G) is a) = liveProxies a"
  "nextProxy (fold (run_initializer G) is a) = nextProxy a"
  by (induction "is" arbitrary: a) (simp_all add: run_initializer_def)

lemma createProxy_on_frame [simp]:
  "ranInitializers (snd (createProxy_on F G k get a)) = ranInitializers a"
  "initializers (snd (createProxy_on F G k get a)) = initializers a"
  "isInitialized (snd (createProxy_on F G k get a)) = isInitialized a"
  by (auto simp: createProxy_on_def make_proxy_def init_proxy_def Let_def split: option.splits prod.splits)

lemma destroyProxy_frame [simp]:
  "ranInitializers (destroyProxy F ok p a) = ranInitializers a" "initializers (destroyProxy F ok p a) = initializers a"
  "isInitialized (destroyProxy F ok p a) = isInitialized a"
  by (auto simp: destroyProxy_def Let_def split: option.splits)

definition initializers_inv :: "app_action list \<Rightarrow> app \<Rightarrow> bool" where
  "initializers_inv as a \<longleftrightarrow> (isInitialized a \<longleftrightarrow> InitFactory \<in> set as) \<and>
     (if isInitialized a then initializers a = [] \<and> ranInitializers a = registered_interfaces as
      else ranInitializers a = [] \<and> initializers a = registered_interfaces as)"

lemma initializers_inv_step: "initializers_inv as a \<Longrightarrow> initializers_inv (as @ [x]) (app_step F G d x a)"
  by (cases x)
    (auto simp: initializers_inv_def registered_append registerInterface_def init_factory_def createProxy_def createProxy_context_def
      run_initializer_def)

lemma initializers_inv_run: "initializers_inv as (app_run F G d as (new_app T))"
proof (induction as rule: rev_induct)
  case Nil
  then show ?case by (simp add: initializers_inv_def app_run_def new_app_def)
next
  case (snoc x as)
  then show ?case using initializers_inv_step by (simp add: app_run_def)
qed

text \<open>The initializer of every interface library runs exactly once, in the order in which the libraries were
  registered, whether that was before the factory was initialized or after; none runs before.\<close>

theorem initializers_run_once:
  "ranInitializers (app_run F G d as (new_app T)) = (if InitFactory \<in> set as then registered_interfaces as else [])"
  using initializers_inv_run[of as F G d T] by (auto simp: initializers_inv_def split: if_splits)

section \<open>Users of connections\<close>

definition proxyUsers :: "app \<Rightarrow> nat \<Rightarrow> nat" where
  "proxyUsers a c = length (filter (\<lambda>x. proxyConnection (snd x) = c) (liveProxies a))"

text \<open>The factory knows the connections with users, each once, open, and with their number of users.\<close>

definition counts_users :: "factory \<Rightarrow> (nat \<Rightarrow> nat) \<Rightarrow> bool" where
  "counts_users s u \<longleftrightarrow> distinct (map fst (connections s)) \<and> distinct (map snd (connections s)) \<and>
     (\<forall>c. c \<in> snd ` set (connections s) \<longleftrightarrow> 0 < u c) \<and>
     (\<forall>c. 0 < u c \<longrightarrow> c < nextPointer s \<and> activeConnections s c = int (u c) \<and> connected (con (buses s c)))"

lemma counts_usersD:
  assumes "counts_users s u"
  shows "distinct (map fst (connections s))" "distinct (map snd (connections s))"
    and "c \<in> snd ` set (connections s) \<longleftrightarrow> 0 < u c" "0 < u c \<Longrightarrow> c < nextPointer s"
    and "0 < u c \<Longrightarrow> activeConnections s c = int (u c)" "0 < u c \<Longrightarrow> connected (con (buses s c))"
  using assms unfolding counts_users_def by blast+

lemma counts_users_translation [simp]: "counts_users (s\<lparr>translation := T\<rparr>) u \<longleftrightarrow> counts_users s u"
  by (simp add: counts_users_def)

lemma libdbus_init_connected [simp]:
  "connected (initLibdbusObjectPathHandler E ps c) = connected c" "connected (addRules E rs c) = connected c"
proof -
  show "connected (initLibdbusObjectPathHandler E ps c) = connected c"
    by (induction ps arbitrary: c) (simp_all add: call_def Let_def)
  have "connected (snd (addRule E r c)) = connected c" for r c
    by (auto simp: addRule_def call_def Let_def split: prod.splits if_splits)
  then show "connected (addRules E rs c) = connected c" by (induction rs arbitrary: c) simp_all
qed

lemma connect_opens: "connect E got s = (True, k) \<Longrightarrow> connected k"
  by (auto simp: connect_def initLibdbusSignalFilterAfterConnect_def initLibdbusObjectPathHandlerAfterConnect_def split: if_splits)

lemma new_bus_open: "connected (con (new_bus e k)) = connected k"
  by (auto simp: new_bus_def addToRegisteredObjectsTable_def registerObjectPath_def call_def Let_def split: option.splits)

lemma incremented_user:
  assumes "counts_users s u" "c \<in> snd ` set (connections s)"
  shows "counts_users (incrementConnection c s) (u(c := u c + 1))"
  using assms by (auto simp: counts_users_def incrementConnection_def)

lemma opened_user:
  assumes "counts_users s u" "map_of (connections s) i = None" "connect (lib e) got new_conn = (True, k)" "c = nextPointer s"
  shows "counts_users (incrementConnection c (s\<lparr>connections := al_insert i c (connections s), buses := (buses s)(c := new_bus e k),
    activeConnections := (activeConnections s)(c := 0), contextOf := x, nextPointer := c + 1\<rparr>)) (u(c := u c + 1))"
proof -
  have new: "u c = 0" using counts_usersD(4)[OF assms(1), of c] assms(4) by auto
  have "c \<notin> snd ` set (connections s)" using counts_usersD(3)[OF assms(1), of c] new by simp
  moreover have "i \<notin> fst ` set (connections s)" using assms(2) by (simp add: map_of_eq_None_iff)
  moreover have "connected (con (new_bus e k))" using connect_opens[OF assms(3)] by (simp add: new_bus_open)
  ultimately show ?thesis using assms(1,2,4) new
    by (auto simp: counts_users_def incrementConnection_def al_insert_def less_Suc_eq split: if_splits)
qed


lemma contextOf_same:
  "s\<lparr>connections := m, buses := b, activeConnections := n, contextOf := contextOf s, nextPointer := p\<rparr> =
   s\<lparr>connections := m, buses := b, activeConnections := n, nextPointer := p\<rparr>"
  by simp

lemma getConnection_counts:
  assumes "counts_users s u"
  shows "case getConnection F i s of (None, s1) \<Rightarrow> s1 = s | (Some c, s1) \<Rightarrow> counts_users s1 (u(c := u c + 1))"
proof (cases "map_of (connections s) i")
  case None
  obtain ok k where k: "connect (lib (bus_of F)) (canConnect F i) new_conn = (ok, k)" by fastforce
  show ?thesis
    using None k opened_user[OF assms None, of "bus_of F" "canConnect F i" k "nextPointer s" "contextOf s"]
    by (cases ok) (simp_all add: getConnection_def Let_def contextOf_same)
next
  case (Some c)
  then have "c \<in> snd ` set (connections s)" by (force dest: map_of_SomeD)
  then show ?thesis using Some incremented_user[OF assms] by (simp add: getConnection_def)
qed

lemma getConnection_context_counts:
  assumes "counts_users s u"
  shows "case getConnection_context F d x s of (None, s1) \<Rightarrow> s1 = s | (Some c, s1) \<Rightarrow> counts_users s1 (u(c := u c + 1))"
proof (cases x)
  case None
  then show ?thesis using getConnection_counts[OF assms] by (simp add: getConnection_context_def)
next
  case (Some name)
  show ?thesis
  proof (cases "map_of (connections s) name")
    case None
    obtain ok k where k: "connect (lib (bus_of F)) (canConnect F name) new_conn = (ok, k)" by fastforce
    show ?thesis
      using Some None k
        opened_user[OF assms None, of "bus_of F" "canConnect F name" k "nextPointer s" "(contextOf s)(nextPointer s \<mapsto> name)"]
      by (cases ok) (simp_all add: getConnection_context_def Let_def)
  next
    case (Some c)
    then have "c \<in> snd ` set (connections s)" by (force dest: map_of_SomeD)
    then show ?thesis using Some \<open>x = Some name\<close> incremented_user[OF assms] by (simp add: getConnection_context_def)
  qed
qed

lemma connection_id_of: "map_of (connections s) i = Some c \<Longrightarrow> distinct (map snd (connections s)) \<Longrightarrow> connection_id c s = i"
proof -
  assume "map_of (connections s) i = Some c" "distinct (map snd (connections s))"
  moreover have "(i, c) \<in> set m \<Longrightarrow> distinct (map snd m) \<Longrightarrow> filter (\<lambda>x. snd x = c) m = [(i, c)]" for m :: "(string \<times> nat) list"
  proof (induction m)
    case (Cons x m)
    then show ?case by (auto simp: filter_empty_conv rev_image_eqI)
  qed simp
  ultimately show ?thesis by (simp add: connection_id_def map_of_SomeD)
qed

lemma al_erase_values:
  assumes "map_of m i = Some c" "distinct (map fst m)" "distinct (map snd m)"
  shows "v \<in> snd ` set (al_erase i m) \<longleftrightarrow> v \<in> snd ` set m \<and> v \<noteq> c"
proof -
  have i: "(i, c) \<in> set m" using assms(1) by (rule map_of_SomeD)
  have one: "j = i" if "(j, c) \<in> set m" for j
    using assms(3) i that by (metis distinct_map inj_onD prod.sel snd_conv prod.inject)
  have two: "w = c" if "(i, w) \<in> set m" for w
    using assms(2) i that by (simp add: eq_key_imp_eq_value)
  show ?thesis
  proof
    assume "v \<in> snd ` set (al_erase i m)"
    then obtain j where "(j, v) \<in> set m" "j \<noteq> i" by (auto simp: al_erase_def)
    then show "v \<in> snd ` set m \<and> v \<noteq> c" using one by (metis image_eqI snd_conv)
  next
    assume a: "v \<in> snd ` set m \<and> v \<noteq> c"
    then obtain j where "(j, v) \<in> set m" by auto
    moreover from this have "j \<noteq> i" using two a by blast
    ultimately have "(j, v) \<in> set (al_erase i m)" by (simp add: al_erase_def)
    then show "v \<in> snd ` set (al_erase i m)" by (metis image_eqI snd_conv)
  qed
qed

lemma left_user:
  assumes "counts_users s u" "0 < u c" "contextAlive F c"
  shows "counts_users (decrementConnection F c s) (u(c := u c - 1))"
proof -
  note d = counts_usersD[OF assms(1)]
  have inn: "c \<in> snd ` set (connections s)" using d(3) assms(2) by simp
  then obtain i where i: "map_of (connections s) i = Some c" using d(1) by (force simp: map_of_eq_Some_iff)
  show ?thesis
  proof (cases "u c = 1")
    case False
    then have "decrementConnection F c s = s\<lparr>activeConnections := (activeConnections s)(c := activeConnections s c - 1)\<rparr>"
      using inn d(5)[OF assms(2)] assms(2) by (simp add: decrementConnection_def Let_def)
    then show ?thesis using assms(1,2) False by (auto simp: counts_users_def)
  next
    case True
    define s1 where "s1 = s\<lparr>activeConnections := (activeConnections s)(c := 0)\<rparr>"
    have id: "connection_id c s1 = i" using connection_id_of[of s1 i c] i d(2) by (simp add: s1_def)
    have e: "connections (decrementConnection F c s) = al_erase i (connections s)"
      "nextPointer (decrementConnection F c s) = nextPointer s"
      "activeConnections (decrementConnection F c s) = (activeConnections s)(c := 0)"
      "v \<noteq> c \<Longrightarrow> buses (decrementConnection F c s) v = buses s v" for v
      using inn d(5)[OF assms(2)] assms(3) True id
      by (simp_all add: decrementConnection_def Let_def on_bus_def on_conn_def releaseConnection_def s1_def split: prod.splits)
    have gone: "v \<in> snd ` set (al_erase i (connections s)) \<longleftrightarrow> v \<in> snd ` set (connections s) \<and> v \<noteq> c" for v
      by (rule al_erase_values[OF i d(1,2)])
    have "distinct (map snd (al_erase i (connections s)))" using d(2) by (simp add: al_erase_def distinct_map_filter)
    moreover have "v < nextPointer s \<and> activeConnections s v = int (u v) \<and> connected (con (buses s v))" if "0 < u v" for v
      using d(4-6)[OF that] by simp
    ultimately show ?thesis
      unfolding counts_users_def e(1-3) using d(1,3) e(4) True gone by (auto simp: distinct_al_erase)
  qed
qed

section \<open>Proxies and their connections\<close>

definition proxies_ok :: "app \<Rightarrow> bool" where
  "proxies_ok a \<longleftrightarrow> counts_users (fac a) (proxyUsers a) \<and> distinct (map fst (liveProxies a)) \<and> (\<forall>x\<in>set (liveProxies a). fst x < nextProxy a)"

lemma users_cong: "liveProxies a = liveProxies b \<Longrightarrow> proxyUsers a = proxyUsers b"
  by (simp add: proxyUsers_def fun_eq_iff)

lemma proxies_ok_cong:
  "proxies_ok a \<Longrightarrow> fac b = fac a \<Longrightarrow> liveProxies b = liveProxies a \<Longrightarrow> nextProxy b = nextProxy a \<Longrightarrow> proxies_ok b"
  using users_cong[of a b] by (simp add: proxies_ok_def)

lemma users_fac [simp]: "proxyUsers (a\<lparr>fac := s\<rparr>) = proxyUsers a"
  by (simp add: proxyUsers_def fun_eq_iff)

lemma proxies_ok_create:
  assumes "proxies_ok a" "\<And>f d. makesProxy G f d"
    and "\<And>s u. counts_users s u \<Longrightarrow> case get s of (None, s1) \<Rightarrow> s1 = s | (Some c, s1) \<Rightarrow> counts_users s1 (u(c := u c + 1))"
  shows "proxies_ok (snd (createProxy_on F G k get a))"
proof (cases "map_of (proxyCreateFunctions a) (capi_interface k)")
  case None
  then show ?thesis using assms(1) by (simp add: createProxy_on_def)
next
  case (Some f)
  obtain r T where t: "tr_translate (ext F) k (translation (fac a)) = (r, T)" by fastforce
  let ?s = "(fac a)\<lparr>translation := T\<rparr>"
  obtain x s1 where g: "get ?s = (x, s1)" by fastforce
  have "counts_users ?s (proxyUsers a)" using assms(1) by (simp add: proxies_ok_def)
  note c = assms(3)[OF this, unfolded g]
  consider "r = None" | "r \<noteq> None" "x = None" | d v where "r = Some d" "x = Some v" by (cases r; cases x) auto
  then show ?thesis
  proof cases
    case 1
    then have "snd (createProxy_on F G k get a) = a\<lparr>fac := ?s\<rparr>" using Some t by (simp add: createProxy_on_def)
    then show ?thesis using assms(1) by (simp add: proxies_ok_def)
  next
    case 2
    then have "snd (createProxy_on F G k get a) = a\<lparr>fac := s1\<rparr>" using Some t g by (auto simp: createProxy_on_def)
    then show ?thesis using assms(1) c 2 by (simp add: proxies_ok_def)
  next
    case (3 d v)
    note dv = this
    obtain k' T' where b: "tr_translate_back (ext F) d (translation s1) = (k', T')" by fastforce
    define a1 where "a1 = snd (createProxy_on F G k get a)"
    obtain y where y: "liveProxies a1 = liveProxies a @ [(nextProxy a, y)]" "proxyConnection y = v"
        "fac a1 = s1\<lparr>translation := T'\<rparr>" "nextProxy a1 = nextProxy a + 1"
      using Some t g dv b assms(2)
      by (cases "map_of (liveProxies a @ [(nextProxy a, \<lparr>proxyDBusAddress = d,
            proxyAddress = (case k' of Some x \<Rightarrow> x | None \<Rightarrow> emptyAddress F), proxyConnection = v\<rparr>)]) (nextProxy a)")
        (simp_all add: a1_def createProxy_on_def make_proxy_def init_proxy_def Let_def)
    have "proxyUsers a1 = (proxyUsers a)(v := proxyUsers a v + 1)" using y(1,2) by (auto simp: proxyUsers_def fun_eq_iff)
    then show ?thesis
      using c dv assms(1) y(1,3,4) by (auto simp: a1_def[symmetric] proxies_ok_def)
  qed
qed

lemma proxies_ok_destroy:
  assumes "proxies_ok a" "\<And>c. contextAlive F c"
  shows "proxies_ok (destroyProxy F True p a)"
proof (cases "map_of (liveProxies a) p")
  case None
  then show ?thesis using assms(1) by (simp add: destroyProxy_def)
next
  case (Some x)
  let ?c = "proxyConnection x" and ?m = "liveProxies a"
  have x: "(p, x) \<in> set ?m" using Some by (rule map_of_SomeD)
  have dist: "distinct (map fst ?m)" using assms(1) by (simp add: proxies_ok_def)
  have pos: "0 < proxyUsers a ?c" using x by (force simp: proxyUsers_def filter_empty_conv)
  have less: "length (filter (\<lambda>y. proxyConnection (snd y) = v) (al_erase p m)) =
      length (filter (\<lambda>y. proxyConnection (snd y) = v) m) - (if v = ?c then 1 else 0)"
    if "(p, x) \<in> set m" "distinct (map fst m)" for v and m :: "(nat \<times> live_proxy) list"
    using that
  proof (induction m)
    case (Cons y m)
    show ?case
    proof (cases "fst y = p")
      case True
      then have "p \<notin> fst ` set m" using Cons.prems(2) by simp
      then have "\<forall>z\<in>set m. fst z \<noteq> p" by auto
      then have "al_erase p (y # m) = m" using True by (simp add: al_erase_def filter_id_conv)
      moreover have "snd y = x" using Cons.prems(1) \<open>p \<notin> fst ` set m\<close> by (metis fst_conv image_eqI set_ConsD snd_conv)
      ultimately show ?thesis by simp
    next
      case False
      then have "(p, x) \<in> set m" using Cons.prems by auto
      moreover from this have "0 < length (filter (\<lambda>y. proxyConnection (snd y) = ?c) m)" by (force simp: filter_empty_conv)
      ultimately show ?thesis using Cons False by (auto simp: al_erase_def Suc_diff_Suc)
    qed
  qed simp
  have "counts_users (fac (destroyProxy F True p a)) ((proxyUsers a)(?c := proxyUsers a ?c - 1))"
    using left_user[of "fac a" "proxyUsers a" ?c F] assms pos Some by (simp add: destroyProxy_def proxies_ok_def Let_def)
  moreover have "proxyUsers (destroyProxy F True p a) = (proxyUsers a)(?c := proxyUsers a ?c - 1)"
    using Some less[OF x dist] by (auto simp: proxyUsers_def destroyProxy_def Let_def)
  ultimately show ?thesis
    using assms(1) Some by (auto simp: proxies_ok_def destroyProxy_def Let_def distinct_al_erase dest: subsetD[OF set_al_erase])
qed

lemma proxies_ok_step:
  assumes "proxies_ok a" "\<And>f d. makesProxy G f d" "\<And>c. contextAlive F c"
  shows "proxies_ok (app_step F G d x a)"
proof (cases x)
  case (RegisterInterface i)
  then show ?thesis using proxies_ok_cong[OF assms(1)] by (simp add: registerInterface_def run_initializer_def)
next
  case InitFactory
  then show ?thesis using proxies_ok_cong[OF assms(1)] by (simp add: init_factory_def)
next
  case (CreateProxy k c)
  then show ?thesis using proxies_ok_create[OF assms(1,2) getConnection_counts] by (simp add: createProxy_def)
next
  case (CreateProxyContext k c)
  then show ?thesis using proxies_ok_create[OF assms(1,2) getConnection_context_counts] by (simp add: createProxy_context_def)
next
  case (DestroyProxy p)
  then show ?thesis using proxies_ok_destroy[OF assms(1,3)] by simp
qed

lemma proxies_ok_run:
  assumes "\<And>f d. makesProxy G f d" "\<And>c. contextAlive F c"
  shows "proxies_ok (app_run F G d as (new_app T))"
proof (induction as rule: rev_induct)
  case Nil
  then show ?case by (simp add: proxies_ok_def app_run_def new_app_def new_factory_def counts_users_def proxyUsers_def)
next
  case (snoc x as)
  then show ?case using proxies_ok_step[OF _ assms] by (simp add: app_run_def)
qed



text \<open>Two proxies on one connection; the second goes away.\<close>

definition example_generated :: generated where
  "example_generated = \<lparr>registrations = (\<lambda>i. [ProxyFunction ''a.b:v1_0'' i]), makesProxy = (\<lambda>f d. True), stubKind = (\<lambda>f. (False, False))\<rparr>"

definition example_actions :: "app_action list" where
  "example_actions = [RegisterInterface 3, InitFactory, CreateProxy (example_address ''x'') ''c'',
     CreateProxyContext (example_address ''y'') (Some ''c''), DestroyProxy 1]"

lemma example_actions_run:
  "(let a = app_run example_fac_env example_generated ''d'' example_actions (new_app (new_translator True))
    in ranInitializers a = [3] \<and> connections (fac a) = [(''c'', 0)] \<and> map fst (liveProxies a) = [0] \<and> proxyUsers a 0 = 1 \<and>
       activeConnections (fac a) 0 = 1 \<and> availabilitySubscriptions a = [(0, ''x'')])"
  by code_simp


section \<open>What is left behind\<close>

text \<open>A creation function that gives no proxy leaves its connection with a user that never leaves.\<close>

lemma null_proxy_keeps_user:
  assumes "map_of (proxyCreateFunctions a) (capi_interface k) = Some f"
    and "tr_translate (ext F) k (translation (fac a)) = (Some d, T)" "\<not> makesProxy G f d"
    and "map_of (connections (fac a)) i = Some c"
  shows "\<exists>a'. createProxy F G k i a = (None, a') \<and> liveProxies a' = liveProxies a \<and>
    activeConnections (fac a') c = activeConnections (fac a) c + 1"
proof -
  have "c \<in> snd ` set (connections (fac a))" using assms(4) by (force dest: map_of_SomeD)
  then show ?thesis using assms
    by (simp add: createProxy_def createProxy_on_def getConnection_def incrementConnection_def)
qed

text \<open>When the last user of a connection leaves after its main loop context is gone, the connection is closed but the
  factory keeps it: whoever asks for a connection with this id again gets the closed one.\<close>

theorem gone_context_hands_out_closed:
  assumes "map_of (connections s) i = Some c" "activeConnections s c = 1" "\<not> contextAlive F c"
  shows "\<exists>s'. getConnection F' i (decrementConnection F c s) = (Some c, s') \<and> \<not> connected (con (buses s' c))"
proof -
  have inn: "c \<in> snd ` set (connections s)" using assms(1) by (force dest: map_of_SomeD)
  have off: "\<not> connected (disconnect E k)" for E k by (simp add: disconnect_def Let_def)
  define s1 where "s1 = decrementConnection F c s"
  have "s1 = s\<lparr>activeConnections := (activeConnections s)(c := 0),
      buses := (buses s)(c := (buses s c)\<lparr>con := disconnect (lib (bus_of F)) (con (buses s c))\<rparr>)\<rparr>"
    using inn assms(2,3) by (simp add: s1_def decrementConnection_def Let_def on_bus_def on_conn_def)
  then have "connections s1 = connections s" "\<not> connected (con (buses s1 c))" using off by simp_all
  then show ?thesis
    using assms(1) inn by (simp add: s1_def[symmetric] getConnection_def incrementConnection_def)
qed

lemma gone_context_hands_out_closed_witness:
  "\<exists>s'. getConnection example_fac_env ''c'' (decrementConnection (example_fac_env\<lparr>contextAlive := (\<lambda>c. False)\<rparr>) 0 example_factory)
     = (Some 0, s') \<and> \<not> connected (con (buses s' 0))"
  by (rule gone_context_hands_out_closed[of example_factory "''c''" 0]) (simp_all add: example_factory_tables)

end
