(* ===== verification/Incoming.thy ===== *)
theory Incoming
  imports Object_Manager
begin

text \<open>
  The way of a method call from libdbus to the handler of its interface (\<open>onLibdbusObjectPathMessageThunk\<close> and
  \<open>onLibdbusObjectPathMessage\<close> in \<open>DBusConnection.cpp\<close>, \<open>handleMessage\<close> in \<open>DBusObjectManager.cpp\<close>), and the answer
  to \<open>Introspect\<close>, which is given by the object manager itself.
\<close>

section \<open>Messages from libdbus\<close>

text \<open>
  The header of a message as libdbus gives it: fields that are not there are null. A pointer is its value or
  null, or the number of a connection.
\<close>

record incoming =
  inCall :: bool
  inPath :: "string option"
  inInterface :: "string option"
  inMember :: "string option"

text \<open>
  What goes wrong: a \<open>std::string\<close> made of a null pointer, the first element of an empty vector, the call of an empty
  \<open>std::function\<close>.
\<close>

datatype incoming_error = NullString | EmptyHandlers | EmptyFunction

datatype verdict = Handled | NotYetHandled

type_synonym message_handler = "incoming \<Rightarrow> incoming_error + bool"

definition onLibdbusObjectPathMessage :: "message_handler option \<Rightarrow> incoming option \<Rightarrow> incoming_error + verdict" where
  "onLibdbusObjectPathMessage handler libdbusMessage =
     (case libdbusMessage of
        None \<Rightarrow> Inr NotYetHandled
      | Some m \<Rightarrow>
          if \<not> inCall m then Inr NotYetHandled
          else (case handler of
                  None \<Rightarrow> Inl EmptyFunction
                | Some f \<Rightarrow> ebind (f m) (\<lambda>handled. Inr (if handled then Handled else NotYetHandled))))"

text \<open>
  The two functions that libdbus calls check their arguments alike; \<open>own\<close> is the connection that \<open>userData\<close> refers
  to, and \<open>f\<close> what is done then.
\<close>

definition libdbus_thunk ::
    "nat option \<Rightarrow> incoming option \<Rightarrow> nat option \<Rightarrow> (incoming option \<Rightarrow> incoming_error + verdict) \<Rightarrow> incoming_error + verdict" where
  "libdbus_thunk caller libdbusMessage own f =
     (if caller = None then Inr NotYetHandled
      else if libdbusMessage = None then Inr NotYetHandled
      else if own = None then Inr NotYetHandled
      else if own \<noteq> caller then Inr NotYetHandled
      else f libdbusMessage)"

definition onLibdbusObjectPathMessageThunk ::
    "nat option \<Rightarrow> incoming option \<Rightarrow> nat option \<Rightarrow> message_handler option \<Rightarrow> incoming_error + verdict" where
  "onLibdbusObjectPathMessageThunk caller libdbusMessage own handler =
     libdbus_thunk caller libdbusMessage own (onLibdbusObjectPathMessage handler)"

definition onLibdbusSignalFilterThunk ::
    "nat option \<Rightarrow> incoming option \<Rightarrow> nat option \<Rightarrow> (incoming option \<Rightarrow> verdict) \<Rightarrow> incoming_error + verdict" where
  "onLibdbusSignalFilterThunk caller libdbusMessage own signal_filter =
     libdbus_thunk caller libdbusMessage own (\<lambda>m. Inr (signal_filter m))"

section \<open>Introspection\<close>

text \<open>
  The answer is a text; here it is the list of the pieces that are written to \<open>xmlData\<close>. \<open>nodeNames\<close> is the
  \<open>nodeSet\<close>. \<open>CommonAPI::split\<close> belongs to another library and is the argument \<open>split\<close>.
\<close>

datatype xml_item = FullHeader string | BareHeader | InterfaceItem string string | NodeItem string

record xml =
  xmlItems :: "xml_item list"
  nodeNames :: "string list"
  foundRegisteredObjects :: bool

definition list_node :: "string \<Rightarrow> xml \<Rightarrow> xml" where
  "list_node n x =
     (if n \<in> set (nodeNames x) then x
      else (let xs = (if nodeNames x = [] then [BareHeader] else xmlItems x)
            in x\<lparr>xmlItems := xs @ [NodeItem n], nodeNames := n # nodeNames x, foundRegisteredObjects := True\<rparr>))"

text \<open>The inner loop: the path is built from its elements until it is the path that is asked for.\<close>

fun child_below :: "string \<Rightarrow> string \<Rightarrow> nat \<Rightarrow> string list \<Rightarrow> string option" where
  "child_below path build (Suc i) (e # n # es) =
     (let b = build @ ''/'' @ e in if b = path then Some n else child_below path b i (n # es))"
| "child_below path build i es = None"

text \<open>One entry of the table. A split has at least one part, the one before the first separator.\<close>

definition introspect_entry ::
    "(string \<Rightarrow> string list) \<Rightarrow> (om_handler \<Rightarrow> string) \<Rightarrow> string \<Rightarrow> (string \<times> string) \<times> om_handler \<Rightarrow> xml \<Rightarrow> xml" where
  "introspect_entry split xmlOf path entry x =
     (case entry of
        ((q, interface), h) \<Rightarrow>
          (let elems = split q
           in if path = q then
                x\<lparr>xmlItems := xmlItems x @ [InterfaceItem interface (xmlOf h)],
                  nodeNames := List.insert (last elems) (nodeNames x), foundRegisteredObjects := True\<rparr>
              else if path = ''/'' \<and> length elems > 1 then list_node (elems ! 1) x
              else fold (\<lambda>i x. case child_below path [] i (tl elems) of None \<Rightarrow> x | Some n \<Rightarrow> list_node n x)
                     [1..<length elems - 1] x))"

fun fronts :: "((string \<times> string) \<times> om_handler list) list \<Rightarrow> incoming_error + ((string \<times> string) \<times> om_handler) list" where
  "fronts [] = Inr []"
| "fronts ((k, []) # t) = Inl EmptyHandlers"
| "fronts ((k, h # hs) # t) = ebind (fronts t) (\<lambda>r. Inr ((k, h) # r))"

definition introspect ::
    "(string \<Rightarrow> string list) \<Rightarrow> (om_handler \<Rightarrow> string) \<Rightarrow> string \<Rightarrow> ((string \<times> string) \<times> om_handler) list \<Rightarrow> xml" where
  "introspect split xmlOf path entries =
     fold (introspect_entry split xmlOf path) entries
       \<lparr>xmlItems = [FullHeader path], nodeNames = [], foundRegisteredObjects = False\<rparr>"

section \<open>The text\<close>

definition newline :: string where
  "newline = [CHR 0x0A]"

definition in_quotes :: "string \<Rightarrow> string" where
  "in_quotes s = [CHR 0x22] @ s @ [CHR 0x22]"

text \<open>\<open>publicId\<close> and \<open>systemId\<close> are the constants of libdbus.\<close>

definition doctype :: "string \<Rightarrow> string \<Rightarrow> string" where
  "doctype publicId systemId = ''<!DOCTYPE node PUBLIC '' @ in_quotes publicId @ newline @ in_quotes systemId @ ''>'' @ newline"

fun render :: "string \<Rightarrow> string \<Rightarrow> xml_item \<Rightarrow> string" where
  "render p s (FullHeader path) =
     doctype p s @ ''<node name='' @ in_quotes path @ ''>'' @ newline
       @ ''<interface name='' @ in_quotes ''org.freedesktop.DBus.Introspectable'' @ ''>'' @ newline
       @ ''<method name='' @ in_quotes ''Introspect'' @ ''>'' @ newline
       @ ''<arg type='' @ in_quotes ''s'' @ '' name='' @ in_quotes ''xml_data'' @ '' direction='' @ in_quotes ''out'' @ ''/>'' @ newline
       @ ''</method>'' @ newline @ ''</interface>'' @ newline"
| "render p s BareHeader = doctype p s @ ''<node>'' @ newline"
| "render p s (InterfaceItem interface d) =
     ''<interface name='' @ in_quotes interface @ ''>'' @ newline @ d @ newline @ ''</interface>'' @ newline"
| "render p s (NodeItem n) = ''    <node name='' @ in_quotes n @ ''/>'' @ newline"

definition xml_text :: "string \<Rightarrow> string \<Rightarrow> xml \<Rightarrow> string" where
  "xml_text p s x = concat (map (render p s) (xmlItems x)) @ ''</node>''"

section \<open>The object manager\<close>

text \<open>
  The surroundings: what a handler answers, whether a text can be sent, the description of a handler, the constants.
  The log \<open>answers\<close> of a call is the handler that got it or the text that was sent.
\<close>

record incoming_env =
  splitPath :: "string \<Rightarrow> string list"
  introspectionXml :: "om_handler \<Rightarrow> string"
  handlerAnswers :: "om_handler \<Rightarrow> incoming \<Rightarrow> bool"
  textSent :: "string \<Rightarrow> bool"
  managerConnected :: bool
  publicIdentifier :: string
  systemIdentifier :: string

datatype reaction = Reached om_handler | Told string | Ignored

definition onIntrospectableInterfaceDBusMessage :: "incoming_env \<Rightarrow> string \<Rightarrow> incoming \<Rightarrow> bus \<Rightarrow> incoming_error + bool \<times> reaction" where
  "onIntrospectableInterfaceDBusMessage I path m b =
     (if \<not> managerConnected I \<or> \<not> inCall m \<or> inMember m \<noteq> Some ''Introspect'' then Inr (False, Ignored)
      else
        ebind (fronts (handlerTable b)) (\<lambda>entries.
          let x = introspect (splitPath I) (introspectionXml I) path entries
          in if foundRegisteredObjects x then
               (let t = xml_text (publicIdentifier I) (systemIdentifier I) x in Inr (textSent I t, Told t))
             else Inr (False, Ignored)))"

definition handle_incoming :: "incoming_env \<Rightarrow> bus \<Rightarrow> incoming \<Rightarrow> incoming_error + bool \<times> reaction" where
  "handle_incoming I b m =
     (case (inPath m, inInterface m) of
        (Some path, Some interface) \<Rightarrow>
          (case handleMessage path interface b of
             Deliver h \<Rightarrow> Inr (handlerAnswers I h m, Reached h)
           | Introspect \<Rightarrow> onIntrospectableInterfaceDBusMessage I path m b
           | NotHandled \<Rightarrow> Inr (False, Ignored)
           | EmptyList \<Rightarrow> Inl EmptyHandlers)
      | _ \<Rightarrow> Inl NullString)"

text \<open>The function that the object manager gives to the connection, as the connection calls it.\<close>

definition object_path_handler :: "incoming_env \<Rightarrow> bus \<Rightarrow> message_handler" where
  "object_path_handler I b m = ebind (handle_incoming I b m) (\<lambda>(handled, r). Inr handled)"

end
