(* ===== verification/Incoming_Correct.thy ===== *)
theory Incoming_Correct
  imports Incoming Factory_Props
begin

text \<open>
  Introspection shows the tree of the registered objects; a call from libdbus fails exactly if it names no interface.
\<close>

section \<open>Paths and their elements\<close>

definition path_cat :: "string list \<Rightarrow> string" where
  "path_cat es = concat (map (\<lambda>e. CHR ''/'' # e) es)"

definition path_of :: "string list \<Rightarrow> string" where
  "path_of es = (if es = [] then ''/'' else path_cat es)"

definition elements :: "string list \<Rightarrow> bool" where
  "elements es \<longleftrightarrow> (\<forall>e\<in>set es. e \<noteq> [] \<and> CHR ''/'' \<notin> set e)"

text \<open>What \<open>CommonAPI::split\<close> does to the path of an object.\<close>

definition split_spec :: "(string \<Rightarrow> string list) \<Rightarrow> bool" where
  "split_spec split \<longleftrightarrow> (\<forall>es. elements es \<longrightarrow> split (path_of es) = '''' # es)"

lemma path_cat_simps [simp]: "path_cat [] = []" "path_cat (e # es) = CHR ''/'' # e @ path_cat es" "path_cat (es @ fs) = path_cat es @ path_cat fs"
  by (simp_all add: path_cat_def)

lemma elements_simps [simp]:
  "elements []" "elements (e # es) \<longleftrightarrow> e \<noteq> [] \<and> CHR ''/'' \<notin> set e \<and> elements es" "elements (es @ fs) \<longleftrightarrow> elements es \<and> elements fs"
  by (auto simp: elements_def)

lemma takeWhile_element:
  "CHR ''/'' \<notin> set e \<Longrightarrow> takeWhile (\<lambda>c. c \<noteq> CHR ''/'') (e @ path_cat es) = e"
  by (cases es) (auto simp: takeWhile_tail)

lemma path_cat_inj: "elements es \<Longrightarrow> elements fs \<Longrightarrow> path_cat es = path_cat fs \<longleftrightarrow> es = fs"
proof (induction es arbitrary: fs)
  case Nil
  then show ?case by (cases fs) simp_all
next
  case (Cons e es)
  show ?case
  proof (cases fs)
    case (Cons f fs')
    then have "e = f" if "path_cat (e # es) = path_cat fs"
      using that Cons.prems takeWhile_element[of e es] takeWhile_element[of f fs'] by simp
    then show ?thesis using Cons Cons.IH[of fs'] Cons.prems by auto
  qed simp
qed

lemma path_of_inj: "elements es \<Longrightarrow> elements fs \<Longrightarrow> path_of es = path_of fs \<longleftrightarrow> es = fs"
proof (cases "es = [] \<or> fs = []")
  case True
  then show "elements es \<Longrightarrow> elements fs \<Longrightarrow> ?thesis" by (cases es; cases fs) (auto simp: path_of_def)
next
  case False
  then show "elements es \<Longrightarrow> elements fs \<Longrightarrow> ?thesis" by (simp add: path_of_def path_cat_inj)
qed

section \<open>One entry\<close>

text \<open>The next element of a path \<open>qs\<close> below \<open>ps\<close>.\<close>

definition child :: "string list \<Rightarrow> string list \<Rightarrow> string option" where
  "child ps qs = (if length ps < length qs \<and> take (length ps) qs = ps then Some (qs ! length ps) else None)"

lemma child_below_spec:
  assumes "elements (ds @ es)" "elements ps" "i < length es"
  shows "child_below (path_cat ps) (path_cat ds) i es =
    (if \<exists>j\<in>{1..i}. ds @ take j es = ps then Some (es ! (length ps - length ds)) else None)"
  using assms
proof (induction i arbitrary: ds es)
  case 0
  then show ?case by simp
next
  case (Suc i)
  obtain e n es' where es: "es = e # n # es'" using Suc.prems(3) by (cases es; cases "tl es") auto
  have b: "path_cat ds @ ''/'' @ e = path_cat (ds @ [e])" by simp
  have eq: "path_cat (ds @ [e]) = path_cat ps \<longleftrightarrow> ds @ [e] = ps"
    by (rule path_cat_inj) (use Suc.prems es in auto)
  have range: "(\<exists>j\<in>{1..Suc i}. P j) \<longleftrightarrow> P 1 \<or> (\<exists>j\<in>{1..i}. P (Suc j))" for P
    by (auto simp: Bex_def) (metis Suc_le_mono le_0_eq not_less_eq_eq old.nat.exhaust One_nat_def)+
  show ?case
  proof (cases "ds @ [e] = ps")
    case True
    then have "child_below (path_cat ps) (path_cat ds) (Suc i) es = Some n" unfolding es child_below.simps Let_def b eq by simp
    moreover have "\<exists>j\<in>{1..Suc i}. ds @ take j es = ps" using True es by (intro bexI[of _ 1]) auto
    moreover have "es ! (length ps - length ds) = n" using True es by auto
    ultimately show ?thesis by simp
  next
    case False
    then have "child_below (path_cat ps) (path_cat ds) (Suc i) es = child_below (path_cat ps) (path_cat (ds @ [e])) i (n # es')"
      unfolding es child_below.simps Let_def b eq by simp
    also have "\<dots> = (if \<exists>j\<in>{1..i}. (ds @ [e]) @ take j (n # es') = ps then Some ((n # es') ! (length ps - length (ds @ [e]))) else None)"
      by (rule Suc.IH) (use Suc.prems es in auto)
    also have "\<dots> = (if \<exists>j\<in>{1..Suc i}. ds @ take j es = ps then Some (es ! (length ps - length ds)) else None)"
    proof -
      have "(\<exists>j\<in>{1..Suc i}. ds @ take j es = ps) \<longleftrightarrow> (\<exists>j\<in>{1..i}. (ds @ [e]) @ take j (n # es') = ps)"
        unfolding range using False es by simp
      moreover have "(n # es') ! (length ps - length (ds @ [e])) = es ! (length ps - length ds)"
        if "(ds @ [e]) @ take j (n # es') = ps" "j \<ge> 1" for j
      proof -
        have "length ps - length ds = Suc (length ps - length (ds @ [e]))"
          using arg_cong[OF that(1), of length] that(2) by simp
        then show ?thesis using es by simp
      qed
      ultimately show ?thesis by auto
    qed
    finally show ?thesis .
  qed
qed

lemma list_node_again: "list_node n (list_node n x) = list_node n x"
  by (simp add: list_node_def Let_def)

lemma fold_list_node:
  assumes "\<And>i m. i \<in> set is \<Longrightarrow> f i = Some m \<Longrightarrow> m = n"
  shows "fold (\<lambda>i x. case f i of None \<Rightarrow> x | Some n \<Rightarrow> list_node n x) is x = (if \<exists>i\<in>set is. f i \<noteq> None then list_node n x else x)"
  using assms
proof (induction "is" arbitrary: x)
  case (Cons i "is")
  have IH: "fold (\<lambda>i x. case f i of None \<Rightarrow> x | Some n \<Rightarrow> list_node n x) is y = (if \<exists>i\<in>set is. f i \<noteq> None then list_node n y else y)" for y
    by (rule Cons.IH) (use Cons.prems in auto)
  show ?case
  proof (cases "f i")
    case None
    then show ?thesis using IH[of x] by auto
  next
    case (Some m)
    then show ?thesis using IH[of "list_node n x"] Cons.prems[of i m] by (simp add: list_node_again)
  qed
qed simp

lemma introspect_entry_spec:
  assumes "split_spec split" "elements ps" "elements qs"
  shows "introspect_entry split xmlOf (path_of ps) ((path_of qs, interface), h) x =
    (if ps = qs then x\<lparr>xmlItems := xmlItems x @ [InterfaceItem interface (xmlOf h)],
       nodeNames := List.insert (last ('''' # qs)) (nodeNames x), foundRegisteredObjects := True\<rparr>
     else (case child ps qs of None \<Rightarrow> x | Some n \<Rightarrow> list_node n x))"
proof -
  have s: "split (path_of qs) = '''' # qs" using assms(1,3) by (simp add: split_spec_def)
  consider "ps = qs" | "ps \<noteq> qs" "ps = []" | "ps \<noteq> qs" "ps \<noteq> []" by blast
  then show ?thesis
  proof cases
    case 1
    then show ?thesis by (simp add: introspect_entry_def s)
  next
    case 2
    then obtain q qs' where "qs = q # qs'" by (cases qs) auto
    moreover have "path_of ps \<noteq> path_of qs" using path_of_inj[OF assms(2,3)] 2(1) by simp
    ultimately show ?thesis using 2 s by (simp add: introspect_entry_def child_def path_of_def[of "[]"])
  next
    case 3
    have ne: "path_of ps \<noteq> path_of qs" using path_of_inj[OF assms(2,3)] 3(1) by simp
    have root: "path_of ps \<noteq> ''/''" using path_of_inj[OF assms(2), of "[]"] 3(2) by (simp add: path_of_def)
    have p: "path_of ps = path_cat ps" using 3(2) by (simp add: path_of_def)
    let ?f = "\<lambda>i. child_below (path_of ps) [] i qs"
    have f: "?f i = (if \<exists>j\<in>{1..i}. take j qs = ps then Some (qs ! length ps) else None)" if "i \<in> set [1..<length qs]" for i
      using child_below_spec[of "[]" qs ps i] assms(2,3) that by (simp add: p)
    have "(\<exists>i\<in>set [1..<length qs]. ?f i \<noteq> None) \<longleftrightarrow> length ps < length qs \<and> take (length ps) qs = ps"
    proof
      assume "\<exists>i\<in>set [1..<length qs]. ?f i \<noteq> None"
      then obtain i j where "i \<in> set [1..<length qs]" "j \<in> {1..i}" "take j qs = ps" using f by (metis (no_types, lifting))
      then show "length ps < length qs \<and> take (length ps) qs = ps" by auto
    next
      assume a: "length ps < length qs \<and> take (length ps) qs = ps"
      then have i: "length ps \<in> set [1..<length qs]" using 3(2) by (simp add: Suc_leI)
      then have "?f (length ps) \<noteq> None" using f[OF i] a by force
      with i show "\<exists>i\<in>set [1..<length qs]. ?f i \<noteq> None" by blast
    qed
    moreover have "m = qs ! length ps" if "i \<in> set [1..<length qs]" "?f i = Some m" for i m
      using f[OF that(1)] that(2) by (simp split: if_splits)
    ultimately have "fold (\<lambda>i x. case ?f i of None \<Rightarrow> x | Some n \<Rightarrow> list_node n x) [1..<length qs] x =
        (case child ps qs of None \<Rightarrow> x | Some n \<Rightarrow> list_node n x)"
      using fold_list_node[of "[1..<length qs]" ?f "qs ! length ps" x] by (simp add: child_def)
    then show ?thesis using 3 ne root s by (simp add: introspect_entry_def)
  qed
qed


section \<open>The tree\<close>

text \<open>The entries at the path \<open>ps\<close>, and the children of \<open>ps\<close>, of a part of the table whose paths are lists of elements.\<close>

type_synonym tree_entry = "(string list \<times> string) \<times> om_handler"

definition as_entry :: "tree_entry \<Rightarrow> (string \<times> string) \<times> om_handler" where
  "as_entry e = (case e of ((qs, i), h) \<Rightarrow> ((path_of qs, i), h))"

definition at_path :: "string list \<Rightarrow> tree_entry list \<Rightarrow> bool" where
  "at_path ps es \<longleftrightarrow> (\<exists>i h. ((ps, i), h) \<in> set es)"

definition below :: "string list \<Rightarrow> string \<Rightarrow> tree_entry list \<Rightarrow> bool" where
  "below ps n es \<longleftrightarrow> (\<exists>qs i h. ((ps @ n # qs, i), h) \<in> set es)"

lemma child_Some: "child ps qs = Some n \<longleftrightarrow> (\<exists>rs. qs = ps @ n # rs)"
proof
  assume "child ps qs = Some n"
  then have "length ps < length qs" "take (length ps) qs = ps" "qs ! length ps = n" by (auto simp: child_def split: if_splits)
  then show "\<exists>rs. qs = ps @ n # rs" using id_take_nth_drop[of "length ps" qs] by auto
qed (auto simp: child_def)

lemma below_snoc: "below ps n (es @ [((qs, i), h)]) \<longleftrightarrow> below ps n es \<or> child ps qs = Some n"
  unfolding child_Some by (auto simp: below_def)

lemma at_path_snoc: "at_path ps (es @ [((qs, i), h)]) \<longleftrightarrow> at_path ps es \<or> qs = ps"
  by (auto simp: at_path_def)

text \<open>What has been written after a part \<open>es\<close> of the table. \<open>own\<close> is the last element of the path.\<close>

definition tree_inv :: "(om_handler \<Rightarrow> string) \<Rightarrow> string list \<Rightarrow> tree_entry list \<Rightarrow> xml \<Rightarrow> bool" where
  "tree_inv xmlOf ps es x \<longleftrightarrow>
     (\<forall>i d. InterfaceItem i d \<in> set (xmlItems x) \<longleftrightarrow> (\<exists>h. ((ps, i), h) \<in> set es \<and> d = xmlOf h)) \<and>
     set (nodeNames x) = (if at_path ps es then {last ('''' # ps)} else {}) \<union> {n. NodeItem n \<in> set (xmlItems x)} \<and>
     (\<forall>n. NodeItem n \<in> set (xmlItems x) \<longrightarrow> below ps n es) \<and>
     (\<forall>n. below ps n es \<longrightarrow> n \<noteq> last ('''' # ps) \<or> \<not> at_path ps es \<longrightarrow> NodeItem n \<in> set (xmlItems x)) \<and>
     (foundRegisteredObjects x \<longleftrightarrow> nodeNames x \<noteq> [])"

lemma tree_inv_own:
  assumes "tree_inv xmlOf ps es x"
  shows "tree_inv xmlOf ps (es @ [((ps, i), h)])
    (x\<lparr>xmlItems := xmlItems x @ [InterfaceItem i (xmlOf h)], nodeNames := List.insert (last ('''' # ps)) (nodeNames x),
      foundRegisteredObjects := True\<rparr>)"
proof -
  have "child ps ps = None" by (simp add: child_def)
  moreover have "List.insert a as \<noteq> []" for a :: string and "as" by (auto simp: List.insert_def)
  ultimately show ?thesis
    using assms unfolding tree_inv_def by (auto simp: below_snoc at_path_snoc)
qed

lemma tree_inv_other:
  assumes "tree_inv xmlOf ps es x" "ps \<noteq> qs" "child ps qs = None"
  shows "tree_inv xmlOf ps (es @ [((qs, i), h)]) x"
  using assms unfolding tree_inv_def by (auto simp: below_snoc at_path_snoc)

lemma tree_inv_child:
  assumes "tree_inv xmlOf ps es x" "ps \<noteq> qs" "child ps qs = Some n"
  shows "tree_inv xmlOf ps (es @ [((qs, i), h)]) (list_node n x)"
proof (cases "n \<in> set (nodeNames x)")
  case True
  then have "list_node n x = x" by (simp add: list_node_def)
  moreover have "NodeItem n \<in> set (xmlItems x) \<or> n = last ('''' # ps) \<and> at_path ps es"
    using assms(1) True unfolding tree_inv_def by (auto split: if_splits)
  ultimately show ?thesis using assms unfolding tree_inv_def by (auto simp: below_snoc at_path_snoc)
next
  case False
  have empty: "nodeNames x = [] \<Longrightarrow> \<not> at_path ps es \<and> (\<forall>m. NodeItem m \<notin> set (xmlItems x))"
    using assms(1) unfolding tree_inv_def by (auto split: if_splits)
  have "(\<exists>h. ((ps, j), h) \<in> set es \<and> d = xmlOf h) \<Longrightarrow> at_path ps es" for j d by (auto simp: at_path_def)
  then show ?thesis
    using assms False empty unfolding tree_inv_def
    by (auto simp: list_node_def Let_def below_snoc at_path_snoc)
qed

lemma tree_inv_fold:
  assumes "split_spec split" "elements ps" "\<And>e. e \<in> set es \<Longrightarrow> elements (fst (fst e))"
  shows "tree_inv xmlOf ps es (introspect split xmlOf (path_of ps) (map as_entry es))"
  using assms(3)
proof (induction es rule: rev_induct)
  case Nil
  then show ?case by (simp add: tree_inv_def introspect_def at_path_def below_def)
next
  case (snoc e es)
  obtain qs i h where e: "e = ((qs, i), h)" by (metis prod.collapse)
  have "elements qs" using snoc.prems[of e] e by simp
  note spec = introspect_entry_spec[OF assms(1,2) this, of xmlOf i h]
  let ?x = "introspect split xmlOf (path_of ps) (map as_entry es)"
  have x: "tree_inv xmlOf ps es ?x" using snoc by simp
  have "introspect split xmlOf (path_of ps) (map as_entry (es @ [e])) = introspect_entry split xmlOf (path_of ps) ((path_of qs, i), h) ?x"
    by (simp add: introspect_def e as_entry_def)
  also have "tree_inv xmlOf ps (es @ [((qs, i), h)]) \<dots>"
  proof (cases "ps = qs")
    case True
    then show ?thesis unfolding spec using tree_inv_own[OF x] by simp
  next
    case False
    then show ?thesis unfolding spec using tree_inv_other[OF x False] tree_inv_child[OF x False] by (cases "child ps qs") simp_all
  qed
  finally show ?case by (simp add: e)
qed


lemma fronts_entries: "\<forall>(k, hs)\<in>set t. hs \<noteq> [] \<Longrightarrow> \<exists>es. fronts t = Inr es \<and> set es = (\<lambda>(k, hs). (k, hd hs)) ` set t"
  by (induction t rule: fronts.induct) auto

text \<open>C39: the answer to \<open>Introspect\<close> shows the tree of the registered objects: every interface of the path with the
  description of its first handler, and as nodes exactly the next elements of the paths below it. Only a node with
  the name of the last element of the path itself may be missing, when objects are registered at the path.\<close>

theorem introspection_shows_tree:
  assumes "split_spec split" "elements ps" "\<And>e. e \<in> set es \<Longrightarrow> elements (fst (fst e))"
    and "x = introspect split xmlOf (path_of ps) (map as_entry es)"
  shows "(foundRegisteredObjects x \<longleftrightarrow> at_path ps es \<or> (\<exists>n. below ps n es)) \<and>
    (\<forall>i d. InterfaceItem i d \<in> set (xmlItems x) \<longleftrightarrow> (\<exists>h. ((ps, i), h) \<in> set es \<and> d = xmlOf h)) \<and>
    (\<forall>n. n \<noteq> last ('''' # ps) \<or> \<not> at_path ps es \<longrightarrow> (NodeItem n \<in> set (xmlItems x) \<longleftrightarrow> below ps n es))"
proof -
  have inv: "tree_inv xmlOf ps es x" using tree_inv_fold[OF assms(1-3)] assms(4) by simp
  then have "nodeNames x \<noteq> [] \<longleftrightarrow> at_path ps es \<or> (\<exists>n. below ps n es)"
    unfolding tree_inv_def set_empty[symmetric] by (auto split: if_splits)
  then show ?thesis using inv unfolding tree_inv_def by blast
qed

text \<open>A split as the library documents it: the parts between the separators, without an empty last one.\<close>

fun split_slash :: "string \<Rightarrow> string list" where
  "split_slash [] = ['''']"
| "split_slash (c # cs) = (if c = CHR ''/'' then '''' # split_slash cs
     else (case split_slash cs of [] \<Rightarrow> [[c]] | x # xs \<Rightarrow> (c # x) # xs))"

definition some_split :: "string \<Rightarrow> string list" where
  "some_split s = (let r = split_slash s in if last r = [] then butlast r else r)"

lemma split_slash_element: "CHR ''/'' \<notin> set e \<Longrightarrow> split_slash (e @ path_cat es) = e # es" if "elements es"
  using that
proof (induction es arbitrary: e)
  case Nil
  then show ?case by (induction e) auto
next
  case (Cons f es)
  have "split_slash (CHR ''/'' # f @ path_cat es) = '''' # f # es" using Cons by simp
  with Cons.prems(1) show ?case by (induction e) auto
qed

lemma some_split_spec: "split_spec some_split"
  unfolding split_spec_def
proof (intro allI impI)
  fix es assume e: "elements es"
  show "some_split (path_of es) = '''' # es"
  proof (cases "es = []")
    case True
    then show ?thesis by (simp add: some_split_def path_of_def)
  next
    case False
    have "split_slash (path_of es) = '''' # es" using split_slash_element[OF e, of "''''"] False by (simp add: path_of_def)
    moreover have "last es \<noteq> []" using e False by (auto simp: elements_def)
    ultimately show ?thesis using False by (simp add: some_split_def)
  qed
qed

definition example_tree :: "tree_entry list" where
  "example_tree = [(([''a'', ''b'', ''c''], ''i''), AdapterHandler 1), (([''a''], ''j''), AdapterHandler 2), (([''a'', ''a''], ''k''), AdapterHandler 3)]"

theorem introspection_shows_tree_witness:
  "InterfaceItem ''j'' ''xml'' \<in> set (xmlItems (introspect some_split (\<lambda>h. ''xml'') ''/a'' (map as_entry example_tree))) \<and>
   NodeItem ''b'' \<in> set (xmlItems (introspect some_split (\<lambda>h. ''xml'') ''/a'' (map as_entry example_tree)))"
proof -
  have "elements [''a'']" and e: "\<And>e. e \<in> set example_tree \<Longrightarrow> elements (fst (fst e))" by (auto simp: example_tree_def)
  note t = introspection_shows_tree[where es = example_tree and xmlOf = "\<lambda>h. ''xml''", OF some_split_spec this refl]
  have "below [''a''] ''b'' example_tree" unfolding below_def example_tree_def by auto
  moreover have "((([''a''], ''j''), AdapterHandler 2) \<in> set example_tree)" by (simp add: example_tree_def)
  ultimately show ?thesis using t by (auto simp: path_of_def)
qed

text \<open>In the same tree the object \<open>/a/a\<close> is not shown below \<open>/a\<close>.\<close>

lemma child_of_same_name_hidden:
  "below [''a''] ''a'' example_tree \<and>
   NodeItem ''a'' \<notin> set (xmlItems (introspect some_split (\<lambda>h. ''xml'') ''/a'' (map as_entry example_tree)))"
proof
  show "below [''a''] ''a'' example_tree" unfolding below_def example_tree_def by auto
  show "NodeItem ''a'' \<notin> set (xmlItems (introspect some_split (\<lambda>h. ''xml'') ''/a'' (map as_entry example_tree)))" by code_simp
qed

section \<open>Calls\<close>

lemma object_path_handler_ok:
  assumes "no_empty b" "inPath m = Some p" "inInterface m = Some i"
  shows "\<exists>r. object_path_handler I b m = Inr r"
proof -
  have n: "\<forall>(k, hs)\<in>set (handlerTable b). hs \<noteq> []" using assms(1) by (auto simp: no_empty_def)
  have "handleMessage p i b \<noteq> EmptyList"
    using n by (auto simp: handleMessage_def dest!: map_of_SomeD split: option.splits list.splits)
  then show ?thesis using assms(2,3) fronts_entries[OF n]
    by (cases "handleMessage p i b")
      (auto simp: object_path_handler_def handle_incoming_def onIntrospectableInterfaceDBusMessage_def Let_def)
qed

text \<open>C23: a method call crashes the process exactly if it names no interface, which the protocol allows: whatever
  objects are registered, a call with an interface is answered or left to libdbus, and a call without one, from any
  peer, makes a string of a null pointer. A call has a path, libdbus sees to that.\<close>

theorem call_crashes_iff_no_interface:
  assumes "inCall m" "inPath m = Some p" "b = fold (om_step e A) ops (new_bus e c)"
  shows "(\<exists>err. onLibdbusObjectPathMessageThunk (Some n) (Some m) (Some n) (Some (object_path_handler I b)) = Inl err) \<longleftrightarrow>
    inInterface m = None"
proof (cases "inInterface m")
  case None
  then show ?thesis using assms(1,2)
    by (simp add: onLibdbusObjectPathMessageThunk_def libdbus_thunk_def onLibdbusObjectPathMessage_def object_path_handler_def handle_incoming_def)
next
  case (Some i)
  have "no_empty b" unfolding assms(3) by (rule no_empty_steps[OF no_empty_new])
  from object_path_handler_ok[OF this assms(2) Some] obtain r where "object_path_handler I b m = Inr r" ..
  then show ?thesis using assms(1) Some
    by (simp add: onLibdbusObjectPathMessageThunk_def libdbus_thunk_def onLibdbusObjectPathMessage_def)
qed

definition example_incoming_env :: incoming_env where
  "example_incoming_env = \<lparr>splitPath = some_split, introspectionXml = (\<lambda>h. ''''), handlerAnswers = (\<lambda>h m. True), textSent = (\<lambda>t. True),
     managerConnected = True, publicIdentifier = ''p'', systemIdentifier = ''s''\<rparr>"

theorem call_crashes_iff_no_interface_witness:
  "\<exists>err. onLibdbusObjectPathMessageThunk (Some 1) (Some \<lparr>inCall = True, inPath = Some ''/'', inInterface = None, inMember = Some ''f''\<rparr>) (Some 1)
     (Some (object_path_handler example_incoming_env (new_bus (bus_of example_fac_env) new_conn))) = Inl err"
  using call_crashes_iff_no_interface[of "\<lparr>inCall = True, inPath = Some ''/'', inInterface = None, inMember = Some ''f''\<rparr>" "''/''"
      "new_bus (bus_of example_fac_env) new_conn" "bus_of example_fac_env" "\<lambda>a. undefined" "[]" new_conn 1 example_incoming_env]
  by simp

end
