(* ===== verification/Hash.thy ===== *)
theory Hash
  imports Bytes Message
begin

text \<open>
  The hash functions of the keys of the \<open>std::unordered_map\<close>s (\<open>DBusFunctionalHash.cpp\<close>), on \<open>MurmurHash3_x86_32\<close>
  (\<open>MurmurHash3.cpp\<close>), and the identity of a client (\<open>DBusClientId.cpp\<close>). A container of the standard library
  relies on equal keys having equal hashes; that, and how keys collide, is shown here.
\<close>

section \<open>MurmurHash3\<close>

unbundle bit_operations_syntax

definition rotl32 :: "u32 \<Rightarrow> nat \<Rightarrow> u32" where
  "rotl32 x r = push_bit r x OR drop_bit (32 - r) x"

definition getblock :: "byte list \<Rightarrow> nat \<Rightarrow> u32" where
  "getblock data i = of_le (take 4 (drop (4 * i) data))"

definition fmix :: "u32 \<Rightarrow> u32" where
  "fmix h0 =
     (let h1 = h0 XOR drop_bit 16 h0;
          h2 = h1 * 0x85ebca6b;
          h3 = h2 XOR drop_bit 13 h2;
          h4 = h3 * 0xc2b2ae35
      in h4 XOR drop_bit 16 h4)"

definition mix_key :: "u32 \<Rightarrow> u32" where
  "mix_key k = rotl32 (k * 0xcc9e2d51) 15 * 0x1b873593"

definition mix_block :: "u32 \<Rightarrow> u32 \<Rightarrow> u32" where
  "mix_block k1 h1 = rotl32 (h1 XOR mix_key k1) 13 * 5 + 0xe6546b64"

text \<open>The last bytes; the cases of the \<open>switch\<close> fall through. Keys are shorter than \<open>2 ^ 31\<close> bytes.\<close>

definition tail_key :: "byte list \<Rightarrow> u32" where
  "tail_key tail =
     (let k3 = (if length tail \<ge> 3 then push_bit 16 (ucast (tail ! 2)) else 0);
          k2 = (if length tail \<ge> 2 then k3 XOR push_bit 8 (ucast (tail ! 1)) else k3)
      in if length tail \<ge> 1 then k2 XOR ucast (tail ! 0) else k2)"

definition MurmurHash3_x86_32 :: "byte list \<Rightarrow> u32 \<Rightarrow> u32" where
  "MurmurHash3_x86_32 data seed =
     (let len = length data;
          nblocks = len div 4;
          h1 = fold (\<lambda>i. mix_block (getblock data i)) [0..<nblocks] seed;
          tail = drop (nblocks * 4) data;
          h2 = (if tail \<noteq> [] then h1 XOR mix_key (tail_key tail) else h1)
      in fmix (h2 XOR of_nat len))"

section \<open>Hashes of keys\<close>

definition SMHASHER_SEED_VALUE :: u32 where
  "SMHASHER_SEED_VALUE = 0xc70f6907"

definition string_bytes :: "string \<Rightarrow> byte list" where
  "string_bytes s = map (\<lambda>c. word_of_nat (of_char c)) s"

definition hash_string :: "string \<Rightarrow> u32 \<Rightarrow> u32" where
  "hash_string s seed = MurmurHash3_x86_32 (string_bytes s) seed"

text \<open>A C string is an address of a memory, or null.\<close>

type_synonym cstring = "nat option"

definition hash_cstring_pair :: "(nat \<Rightarrow> string) \<Rightarrow> cstring \<times> cstring \<Rightarrow> u64" where
  "hash_cstring_pair mem t =
     (let s0 = SMHASHER_SEED_VALUE;
          s1 = (case fst t of None \<Rightarrow> s0 | Some a \<Rightarrow> hash_string (mem a) s0);
          s2 = (case snd t of None \<Rightarrow> s1 | Some b \<Rightarrow> hash_string (mem b) s1)
      in ucast s2)"

definition hash_cstring :: "string \<Rightarrow> u64" where
  "hash_cstring t = ucast (hash_string t SMHASHER_SEED_VALUE)"

definition hash_pair :: "string \<times> string \<Rightarrow> u64" where
  "hash_pair t = (case t of (a, b) \<Rightarrow> ucast (hash_string b (hash_string a SMHASHER_SEED_VALUE)))"

definition hash_triple :: "string \<times> string \<times> string \<Rightarrow> u64" where
  "hash_triple t = (case t of (a, b, c) \<Rightarrow>
     ucast (hash_string c (hash_string b (hash_string a SMHASHER_SEED_VALUE))))"

definition hash_triple_bool :: "string \<times> string \<times> string \<times> bool \<Rightarrow> u64" where
  "hash_triple_bool t = (case t of (a, b, c, d) \<Rightarrow>
     ucast (MurmurHash3_x86_32 [if d then 1 else 0]
       (hash_string c (hash_string b (hash_string a SMHASHER_SEED_VALUE)))))"

definition hash_triple_int :: "string \<times> string \<times> string \<times> u32 \<Rightarrow> u64" where
  "hash_triple_int t = (case t of (a, b, c, d) \<Rightarrow>
     ucast (MurmurHash3_x86_32 (to_le 4 d)
       (hash_string c (hash_string b (hash_string a SMHASHER_SEED_VALUE)))))"

definition hash_quadruple :: "string \<times> string \<times> string \<times> string \<Rightarrow> u64" where
  "hash_quadruple t = (case t of (a, b, c, d) \<Rightarrow>
     ucast (hash_string d (hash_string c (hash_string b (hash_string a SMHASHER_SEED_VALUE)))))"

text \<open>\<open>std::string\<close> of a null pointer is \<open>None\<close>; the second strings are made only when the first are equal.\<close>

definition equal_to_cstring_pair :: "(nat \<Rightarrow> string) \<Rightarrow> cstring \<times> cstring \<Rightarrow> cstring \<times> cstring \<Rightarrow> bool option" where
  "equal_to_cstring_pair mem a b =
     (if fst a = fst b \<and> snd a = snd b then Some True
      else
        (case (fst a, fst b) of
           (Some x, Some y) \<Rightarrow>
             if mem x \<noteq> mem y then Some False
             else (case (snd a, snd b) of (Some u, Some v) \<Rightarrow> Some (mem u = mem v) | _ \<Rightarrow> None)
         | _ \<Rightarrow> None))"

section \<open>Client ids\<close>

text \<open>\<open>OtherClient\<close> is a \<open>ClientId\<close> of another class. \<open>h\<close> is \<open>std::hash<std::string>\<close>.\<close>

datatype client_id = DBusClient string | OtherClient nat

definition dbus_client_equal :: "string \<Rightarrow> string \<Rightarrow> bool" where
  "dbus_client_equal self other \<longleftrightarrow> other = self"

definition client_equal :: "string \<Rightarrow> client_id \<Rightarrow> bool" where
  "client_equal self other = (case other of DBusClient i \<Rightarrow> dbus_client_equal i self | OtherClient n \<Rightarrow> False)"

definition hashCode :: "(string \<Rightarrow> u64) \<Rightarrow> string \<Rightarrow> u64" where
  "hashCode h self = h self"

definition client_createMessage :: "string \<Rightarrow> string \<Rightarrow> string \<Rightarrow> string \<Rightarrow> message" where
  "client_createMessage self objectPath interfaceName signalName =
     setDestination self (createSignal objectPath interfaceName signalName '''')"

definition client_getUid :: u32 where
  "client_getUid = 0xFFFFFFFF"

section \<open>Equal keys have equal hashes\<close>

lemma client_hash_respects_equality: "client_equal a (DBusClient b) \<Longrightarrow> hashCode h a = hashCode h b"
  by (simp add: client_equal_def dbus_client_equal_def)

text \<open>The hash of a pair of C strings depends on the strings only, not on their addresses: keys that
  compare as equal have equal hashes, which the containers rely on.\<close>

theorem cstring_hash_respects_equality:
  "equal_to_cstring_pair mem a b = Some True \<Longrightarrow> hash_cstring_pair mem a = hash_cstring_pair mem b"
  by (cases a; cases b)
    (auto simp: equal_to_cstring_pair_def hash_cstring_pair_def split: option.splits if_splits)

text \<open>Two different pairs with a null pointer cannot be compared.\<close>

lemma null_key_comparison_crashes:
  "x \<noteq> y \<Longrightarrow> equal_to_cstring_pair mem (None, Some x) (None, Some y) = None"
  by (simp add: equal_to_cstring_pair_def)

section \<open>Collisions\<close>

text \<open>Every step of the hash is invertible: rotations, shifts with exclusive or, products with an odd number.\<close>

lemma xor_shift_inj:
  fixes x y :: u32
  assumes "x XOR drop_bit s x = y XOR drop_bit s y" "0 < s"
  shows "x = y"
proof (rule bit_word_eqI)
  have eq: "bit x n \<noteq> bit x (n + s) \<longleftrightarrow> bit y n \<noteq> bit y (n + s)" if "n < 32" for n
    using arg_cong[OF assms(1), of "\<lambda>w. bit w n"] by (simp add: bit_simps add.commute)
  have "bit x (31 - m) \<longleftrightarrow> bit y (31 - m)" for m
  proof (induction m rule: less_induct)
    case (less m)
    show ?case
    proof (cases "31 - m + s < 32")
      case True
      then have "bit x (31 - m + s) \<longleftrightarrow> bit y (31 - m + s)"
        using less[of "31 - (31 - m + s)"] assms(2) by (cases "m \<le> 31") auto
      then show ?thesis using eq[of "31 - m"] by auto
    next
      case False
      then have "\<not> bit x (31 - m + s)" "\<not> bit y (31 - m + s)" by (auto dest: bit_imp_le_length)
      then show ?thesis using eq[of "31 - m"] by auto
    qed
  qed
  note top = this
  show "bit x n \<longleftrightarrow> bit y n" if "n < LENGTH(32)" for n using top[of "31 - n"] that by simp
qed

lemma odd_factor_inj:
  fixes x y c d :: u32
  assumes "x * c = y * c" "c * d = 1"
  shows "x = y"
  using arg_cong[OF assms(1), of "\<lambda>z. z * d"] assms(2) by (simp add: mult.assoc)

lemma rotl32_back: "0 < r \<Longrightarrow> r < 32 \<Longrightarrow> rotl32 (rotl32 x r) (32 - r) = x"
  by (rule bit_word_eqI) (auto simp: rotl32_def bit_simps)

lemma rotl32_inj: "rotl32 x r = rotl32 y r \<Longrightarrow> 0 < r \<Longrightarrow> r < 32 \<Longrightarrow> x = y"
  by (metis rotl32_back)

lemma fmix_inj: "fmix x = fmix y \<longleftrightarrow> x = y"
proof
  assume e: "fmix x = fmix y"
  have "(x XOR drop_bit 16 x) * 0x85ebca6b XOR drop_bit 13 ((x XOR drop_bit 16 x) * 0x85ebca6b) =
      (y XOR drop_bit 16 y) * 0x85ebca6b XOR drop_bit 13 ((y XOR drop_bit 16 y) * 0x85ebca6b)"
    by (rule odd_factor_inj[of _ "0xc2b2ae35" _ "0x7ed1b41d"], rule xor_shift_inj[where s = 16])
      (use e in \<open>simp_all add: fmix_def Let_def\<close>)
  then have "(x XOR drop_bit 16 x) * 0x85ebca6b = (y XOR drop_bit 16 y) * 0x85ebca6b" by (rule xor_shift_inj) simp
  then have "x XOR drop_bit 16 x = y XOR drop_bit 16 y" by (rule odd_factor_inj[of _ _ _ "0xa5cb9243"]) simp
  then show "x = y" by (rule xor_shift_inj) simp
qed simp

lemma mix_key_inj: "mix_key x = mix_key y \<longleftrightarrow> x = y"
proof
  assume "mix_key x = mix_key y"
  then have "rotl32 (x * 0xcc9e2d51) 15 = rotl32 (y * 0xcc9e2d51) 15"
    unfolding mix_key_def by (rule odd_factor_inj[of _ _ _ "0x56ed309b"]) simp
  then have "x * 0xcc9e2d51 = y * 0xcc9e2d51" by (rule rotl32_inj) simp_all
  then show "x = y" by (rule odd_factor_inj[of _ _ _ "0xdee13bb1"]) simp
qed simp

lemma xor_cancel: "(a :: u32) XOR b = a XOR c \<longleftrightarrow> b = c" "b XOR a = c XOR (a :: u32) \<longleftrightarrow> b = c"
  by (metis bit.xor_left_self xor.commute)+

lemma mix_block_inj: "mix_block k x = mix_block k y \<longleftrightarrow> x = y" "mix_block k x = mix_block l x \<longleftrightarrow> k = l"
proof -
  have step: "mix_block k x = mix_block l y \<longleftrightarrow> x XOR mix_key k = y XOR mix_key l" for k l x y
  proof
    assume "mix_block k x = mix_block l y"
    then have "rotl32 (x XOR mix_key k) 13 * 5 = rotl32 (y XOR mix_key l) 13 * 5"
      unfolding mix_block_def by (rule add_right_imp_eq)
    then have "rotl32 (x XOR mix_key k) 13 = rotl32 (y XOR mix_key l) 13"
      by (rule odd_factor_inj[of _ _ _ "0xcccccccd"]) simp
    then show "x XOR mix_key k = y XOR mix_key l" by (rule rotl32_inj) simp_all
  qed (simp add: mix_block_def)
  show "mix_block k x = mix_block k y \<longleftrightarrow> x = y" "mix_block k x = mix_block l x \<longleftrightarrow> k = l"
    by (simp_all add: step xor_cancel mix_key_inj)
qed


text \<open>The hash is a permutation of the seeds, so a chained hash loses nothing after its first string.\<close>

lemma fold_mix_inj: "fold (\<lambda>i. mix_block (f i)) is x = fold (\<lambda>i. mix_block (f i)) is y \<longleftrightarrow> x = y"
  by (induction "is" arbitrary: x y) (simp_all add: mix_block_inj)

lemma murmur_seed_inj: "MurmurHash3_x86_32 data s = MurmurHash3_x86_32 data t \<longleftrightarrow> s = t"
  by (simp add: MurmurHash3_x86_32_def Let_def fmix_inj xor_cancel fold_mix_inj)

text \<open>Short keys.\<close>

lemma of_le_inj: "length a = length b \<Longrightarrow> length a \<le> 4 \<Longrightarrow> (of_le a :: u32) = of_le b \<longleftrightarrow> a = b"
proof
  assume l: "length a = length b" "length a \<le> 4" and e: "(of_le a :: u32) = of_le b"
  show "a = b"
  proof (rule nth_equalityI[OF l(1)])
    fix i assume i: "i < length a"
    show "a ! i = b ! i"
    proof (rule bit_word_eqI)
      fix n assume n: "n < LENGTH(8)"
      have "(8 * i + n) div 8 = i" "(8 * i + n) mod 8 = n" "8 * i + n < 32" using n i l(2) by auto
      then show "bit (a ! i) n \<longleftrightarrow> bit (b ! i) n"
        using arg_cong[OF e, of "\<lambda>w. bit w (8 * i + n)"] i l(1) by (simp add: bit_of_le)
    qed
  qed
qed simp

lemma byte_bit: "8 \<le> n \<Longrightarrow> \<not> bit (x :: byte) n"
  using bit_imp_le_length[of x n] by auto

lemma tail_key_of_le: "length t < 4 \<Longrightarrow> tail_key t = of_le t"
proof -
  assume "length t < 4"
  then consider "t = []" | a where "t = [a]" | a b where "t = [a, b]" | a b c where "t = [a, b, c]"
    by (cases t; cases "tl t"; cases "tl (tl t)"; cases "tl (tl (tl t))") auto
  then show ?thesis
    by cases (auto simp: tail_key_def Let_def intro!: bit_word_eqI simp: bit_simps byte_bit)
qed

lemma murmur_short:
  assumes "length data \<le> 4" "data \<noteq> []"
  shows "MurmurHash3_x86_32 data seed =
    fmix ((if length data = 4 then mix_block (of_le data) seed else seed XOR mix_key (of_le data)) XOR of_nat (length data))"
proof (cases "length data = 4")
  case True
  then show ?thesis by (simp add: MurmurHash3_x86_32_def getblock_def Let_def)
next
  case False
  then show ?thesis using assms by (simp add: MurmurHash3_x86_32_def tail_key_of_le Let_def)
qed

lemma murmur_short_inj:
  assumes "length a = length b" "length a \<le> 4" "MurmurHash3_x86_32 a s = MurmurHash3_x86_32 b s"
  shows "a = b"
proof (cases "a = []")
  case False
  then have "b \<noteq> []" using assms(1) by auto
  from murmur_short[of a s] murmur_short[of b s] assms False this
  have "of_le a = (of_le b :: u32)"
    by (auto simp: fmix_inj xor_cancel mix_block_inj mix_key_inj split: if_splits)
  then show ?thesis using of_le_inj[OF assms(1,2)] by simp
qed (use assms(1) in auto)

lemma byte_char: "char_of (unat (word_of_nat (of_char c) :: byte)) = c"
  by (simp add: unat_of_nat)

text \<open>Two keys of two strings, the second ones equal, have the same hash exactly if the first strings have, and
  different strings of one length of at most four bytes never have: such keys never collide.\<close>

theorem pair_hash_collisions:
  "(hash_pair (a, c) = hash_pair (b, c) \<longleftrightarrow> hash_cstring a = hash_cstring b) \<and>
   (length a = length b \<and> length a \<le> 4 \<and> hash_pair (a, c) = hash_pair (b, c) \<longrightarrow> a = b)"
proof -
  have u: "(ucast x :: u64) = ucast y \<longleftrightarrow> x = y" for x y :: u32
  proof
    have "(ucast (ucast z :: u64) :: u32) = z" for z by (rule bit_word_eqI) (simp add: bit_simps)
    then show "(ucast x :: u64) = ucast y \<Longrightarrow> x = y" by metis
  qed simp
  have e: "hash_pair (a, c) = hash_pair (b, c) \<longleftrightarrow> hash_string a SMHASHER_SEED_VALUE = hash_string b SMHASHER_SEED_VALUE"
    by (simp add: hash_pair_def u hash_string_def murmur_seed_inj)
  moreover have "a = b" if "length a = length b" "length a \<le> 4" "hash_string a SMHASHER_SEED_VALUE = hash_string b SMHASHER_SEED_VALUE"
  proof -
    have "string_bytes a = string_bytes b"
      using murmur_short_inj[of "string_bytes a" "string_bytes b"] that by (simp add: hash_string_def string_bytes_def)
    then have "map (\<lambda>b. char_of (unat b)) (string_bytes a) = map (\<lambda>b. char_of (unat b)) (string_bytes b)" by simp
    then show ?thesis by (simp add: string_bytes_def byte_char comp_def)
  qed
  ultimately show ?thesis by (simp add: hash_cstring_def u)
qed

theorem pair_hash_collisions_witness:
  "hash_pair (''abcd'', ''x'') \<noteq> hash_pair (''abce'', ''x'')"
  using pair_hash_collisions[of "''abcd''" "''x''" "''abce''"] by auto

theorem cstring_hash_respects_equality_witness:
  "let mem = (\<lambda>p. if p < 10 then ''Get'' else ''ss'') :: nat \<Rightarrow> string
   in hash_cstring_pair mem (Some 1, Some 11) = hash_cstring_pair mem (Some 2, Some 12)"
  unfolding Let_def by (rule cstring_hash_respects_equality) (simp add: equal_to_cstring_pair_def)

end
