(* ===== verification/Async_Call.thy ===== *)
theory Async_Call
  imports Rpc_Correct Async_Reply
begin

text \<open>
  A call by its asynchronous and by its blocking variant (\<open>DBusProxyHelper.hpp\<close>): what the callback of the one gets
  is what the other returns. Between the two lies the completion of the pending call (\<open>onLibdbusPendingCallNotifyThunk\<close>,
  \<open>convertToDBusMessage\<close> and the status of \<open>onLibdbusPendingCall\<close> in \<open>DBusConnection.cpp\<close>).
\<close>

section \<open>The completion of a pending call\<close>

text \<open>
  A pending call of libdbus may be null, and so may the reply that is stolen from it.
\<close>

definition convertToDBusMessage :: "message option option \<Rightarrow> message" where
  "convertToDBusMessage libdbusPendingCall =
     (case libdbusPendingCall of
        None \<Rightarrow> NoMessage
      | Some reply \<Rightarrow> (case reply of None \<Rightarrow> NoMessage | Some m \<Rightarrow> m))"

text \<open>What \<open>onLibdbusPendingCall\<close> is called with, if it is; \<open>userData\<close> is the handler.\<close>

definition onLibdbusPendingCallNotifyThunk :: "message option option \<Rightarrow> nat option \<Rightarrow> (message \<times> nat) option" where
  "onLibdbusPendingCallNotifyThunk libdbusPendingCall userData =
     (case (libdbusPendingCall, userData) of
        (None, _) \<Rightarrow> None
      | (Some p, None) \<Rightarrow> None
      | (Some p, Some h) \<Rightarrow> Some (convertToDBusMessage (Some p), h))"

fun as_status :: "CallStatus \<Rightarrow> status" where
  "as_status Async_Reply.SUCCESS = Method_Call.SUCCESS"
| "as_status Async_Reply.NOT_AVAILABLE = Method_Call.NOT_AVAILABLE"
| "as_status Async_Reply.CONNECTION_FAILED = Method_Call.CONNECTION_FAILED"
| "as_status Async_Reply.REMOTE_ERROR = Method_Call.REMOTE_ERROR"

text \<open>Only an error has a name; the name of another message is null, and a \<open>std::string\<close> made of it is \<open>None\<close>.\<close>

fun error_name :: "message \<Rightarrow> string option" where
  "error_name (MethodError m code signature b) = Some code"
| "error_name m = None"

definition pending_status :: "message \<Rightarrow> status option" where
  "pending_status reply =
     (if isErrorType reply \<or> \<not> isMethodReturnType reply then
        map_option (\<lambda>n. as_status (reply_status (isErrorType reply) (isMethodReturnType reply) (n = UNKNOWN_METHOD))) (error_name reply)
      else Some (as_status (reply_status False True False)))"

text \<open>A reply as the callback of an asynchronous call gets it.\<close>

definition completed_call :: "args_lib \<Rightarrow> bool \<Rightarrow> error_event list \<Rightarrow> ty list \<Rightarrow> val list \<Rightarrow> message \<Rightarrow>
    (status \<times> (status \<times> val list) option \<times> notification list) option" where
  "completed_call L alive evs outs old reply =
     map_option (\<lambda>status. handleDBusMessageReply L alive evs outs old status reply) (pending_status reply)"

section \<open>Both variants\<close>

text \<open>
  The documented behaviour of \<open>dbus_connection_send_with_reply_and_block\<close>: an error reply is turned into the error
  and there is no message; every other reply is returned. \<open>answer\<close> is what the peer replies.
\<close>

definition blocks_for :: "(message \<Rightarrow> message) \<Rightarrow> remote \<Rightarrow> bool" where
  "blocks_for answer remote \<longleftrightarrow>
     (\<forall>m. remote m = (if isErrorType (answer m) then (Some (getError (answer m)), NoMessage) else (None, answer m)))"

lemma pending_status_cases:
  "pending_status reply =
     (if isMethodReturnType reply then Some Method_Call.SUCCESS
      else if \<not> isErrorType reply then None
      else if getError reply = UNKNOWN_METHOD then Some Method_Call.NOT_AVAILABLE else Some Method_Call.REMOTE_ERROR)"
  by (cases reply) (simp_all add: pending_status_def reply_status_def)

text \<open>C22: an asynchronous call tells its callback what the blocking call returns: for every peer, the same
  status and the same results, whether the reply is well-formed, malformed or an error; only the error
  \<open>UnknownMethod\<close> is reported differently. A reply is a method return or an error, as libdbus promises.\<close>

theorem async_call_agrees_with_blocking:
  assumes "blocks_for answer remote" "put_arguments L ins args call = Some m" "isMethodReturnType (answer m) \<or> isErrorType (answer m)"
    "getError (answer m) \<noteq> UNKNOWN_METHOD"
  shows "callMethodAsync L True True ins args call = (OfHandler, [SendWithReply m None]) \<and>
    completed_call L True [] outs old (answer m) =
      Some (let (st, vs) = callMethodWithReply L True remote ins args outs old call in (st, Some (st, vs), []))"
proof -
  have r: "remote m = (if isErrorType (answer m) then (Some (getError (answer m)), NoMessage) else (None, answer m))"
    using assms(1) by (simp add: blocks_for_def)
  have n: "notifyListeners L x y n [] = []" for x y n by simp
  show ?thesis
    using assms(2-4) r
    by (cases "answer m")
      (auto simp: callMethodAsync_def completed_call_def handleDBusMessageReply_def pending_status_cases callMethodWithReply_def
        callMethodWithReply_message_def Let_def split: prod.splits)
qed

text \<open>An error \<open>UnknownMethod\<close> of a peer is taken for an unavailable service by the one, for an error by the other.\<close>

lemma unknown_method_reported_differently:
  assumes "blocks_for answer remote" "put_arguments L ins args call = Some m" "answer m = createMethodError UNKNOWN_METHOD '''' m"
  shows "completed_call L True [] outs old (answer m) = Some (Method_Call.NOT_AVAILABLE, Some (Method_Call.NOT_AVAILABLE, old), [])"
    "callMethodWithReply L True remote ins args outs old call = (Method_Call.REMOTE_ERROR, old)"
  using assms
  by (simp_all add: blocks_for_def completed_call_def handleDBusMessageReply_def pending_status_cases createMethodError_def
      callMethodWithReply_def callMethodWithReply_message_def)

text \<open>A call whose service does not become available ends with the status that the blocking call reports at once.\<close>

lemma unavailable_call_ends:
  assumes "onAvailability False remaining True m = (held, acts)" "PushError e \<in> set acts"
  shows "completed_call L True [] outs old e = Some (Method_Call.NOT_AVAILABLE, Some (Method_Call.NOT_AVAILABLE, old), [])"
    and "callMethodWithReply L False remote ins args outs old call = (Method_Call.NOT_AVAILABLE, old)"
  using assms
  by (auto simp: onAvailability_def completed_call_def handleDBusMessageReply_def pending_status_cases createMethodError_def
      callMethodWithReply_def)

text \<open>A reply of any other type, or none, makes a string of a null pointer.\<close>

lemma other_reply_crashes: "completed_call L alive evs outs old reply = None \<longleftrightarrow> \<not> isMethodReturnType reply \<and> \<not> isErrorType reply"
  by (cases reply) (simp_all add: completed_call_def pending_status_cases)

text \<open>A peer that refuses.\<close>

definition refusing :: "message \<Rightarrow> message" where
  "refusing m = createMethodError ''a.b.Refused'' '''' m"

theorem async_call_agrees_with_blocking_witness:
  "completed_call (some_args some_ext) True [] [TUInt8] [V8 0] (refusing (createMethodCall (DBusAddress ''s'' ''/p'' ''i'') ''m'' '''')) =
    Some (Method_Call.REMOTE_ERROR, Some (Method_Call.REMOTE_ERROR, [V8 0]), [])"
proof -
  let ?call = "createMethodCall (DBusAddress ''s'' ''/p'' ''i'') ''m'' ''''"
  let ?remote = "\<lambda>m. (Some (getError (refusing m)), NoMessage)"
  have "blocks_for refusing ?remote" by (simp add: blocks_for_def refusing_def createMethodError_def)
  moreover have "put_arguments (some_args some_ext) [] [] ?call = Some ?call" by (simp add: put_arguments_def)
  ultimately show ?thesis
    using async_call_agrees_with_blocking[of refusing ?remote "some_args some_ext" "[]" "[]" ?call ?call "[TUInt8]" "[V8 0]"]
    by (simp add: refusing_def createMethodError_def UNKNOWN_METHOD_def callMethodWithReply_def callMethodWithReply_message_def put_arguments_def)
qed

end
