(* ===== verification/Legacy_Event.thy ===== *)
theory Legacy_Event
  imports Event_Correct Attribute_Correct Async_Call
begin

text \<open>
  The changed event of an attribute that is a D-Bus property (\<open>LegacyEvent\<close> in \<open>DBusFreedesktopAttribute.hpp\<close>). Inside
  is an event for the signal \<open>PropertiesChanged\<close>, which all properties of an object share; its only listener
  picks the property out. A new listener is told the value that a call of \<open>Get\<close> returns
  (\<open>freeDesktopGetCurrentValueForSignalListener\<close> in \<open>DBusProxy.cpp\<close>, \<open>DBusProxyAsyncSignalMemberCallbackHandler.hpp\<close>).
\<close>

section \<open>The event\<close>

record legacy_event =
  legacyProperty :: property
  isSubscriptionSet :: bool
  legacySubscription :: tag
  internalEvent :: dbus_event

definition changed_types :: "ty \<Rightarrow> ty list" where
  "changed_types t = [TString False, TMap (TString False) (property_variant t), TVector (TString False)]"

definition new_legacy_event :: "property \<Rightarrow> legacy_event" where
  "new_legacy_event q =
     \<lparr>legacyProperty = q, isSubscriptionSet = False, legacySubscription = 0,
      internalEvent = new_event (getObjectPath (serviceAddress q), PROPERTIES, ''PropertiesChanged'', ''sa{sv}as'') ''''
        (changed_types (propertyType q)) [VString [], VMap [], VVector []]\<rparr>"

text \<open>
  \<open>subscribe\<close> of the inner event: it has no other listener, so this one is its first. \<open>sub\<close> is the subscription that is
  given out, \<open>fresh\<close> a new handler. \<open>None\<close> as for the inner event.
\<close>

definition legacy_onFirstListenerAdded :: "libdbus \<Rightarrow> (handler \<Rightarrow> bool) \<Rightarrow> handler \<Rightarrow> tag \<Rightarrow> legacy_event \<Rightarrow> proxy \<Rightarrow>
    (legacy_event \<times> proxy) option" where
  "legacy_onFirstListenerAdded E alive fresh sub le p =
     (if isSubscriptionSet le then Some (le, p)
      else
        (case event_onFirstListenerAdded E alive fresh (internalEvent le) p of
           None \<Rightarrow> None
         | Some (ev1, p1) \<Rightarrow>
             (case event_onListenerAdded sub ev1 p1 of
                None \<Rightarrow> None
              | Some p2 \<Rightarrow> Some (le\<lparr>internalEvent := ev1, legacySubscription := sub, isSubscriptionSet := True\<rparr>, p2))))"

text \<open>The call that asks for the current value, if there is one.\<close>

definition freeDesktopGetCurrentValueForSignalListener :: "args_lib \<Rightarrow> property \<Rightarrow> proxy \<Rightarrow> message option" where
  "freeDesktopGetCurrentValueForSignalListener L q p =
     (if availabilityStatus p = AVAILABLE
      then put_arguments L [TString False, TString False] [VString (interfaceName q), VString (propertyName q)] (property_call ''Get'' ''ss'' q)
      else None)"

definition legacy_onListenerAdded :: "args_lib \<Rightarrow> legacy_event \<Rightarrow> proxy \<Rightarrow> message option" where
  "legacy_onListenerAdded L le p = freeDesktopGetCurrentValueForSignalListener L (legacyProperty le) p"

definition legacy_onLastListenerRemoved :: "libdbus \<Rightarrow> legacy_event \<Rightarrow> proxy \<Rightarrow> (legacy_event \<times> proxy) option" where
  "legacy_onLastListenerRemoved E le p =
     (if isSubscriptionSet le then
        map_option (\<lambda>(ev1, p1). (le\<lparr>internalEvent := ev1, isSubscriptionSet := False\<rparr>, p1))
          (event_onLastListenerRemoved E (internalEvent le) (event_onListenerRemoved (legacySubscription le) (internalEvent le) p))
      else Some (le, p))"

text \<open>Its own destructor does nothing; that of the inner event takes the handler away.\<close>

definition legacy_destroy :: "libdbus \<Rightarrow> legacy_event \<Rightarrow> proxy \<Rightarrow> proxy option" where
  "legacy_destroy E le p = event_destroy E (internalEvent le) p"

section \<open>What listeners are told\<close>

text \<open>The listener of the inner event: the value for the listeners outside, if any; an exception of \<open>get\<close> passes on.\<close>

definition legacy_listener :: "variant_get \<Rightarrow> property \<Rightarrow> val list \<Rightarrow> variant_error + event_call list" where
  "legacy_listener G q vs =
     (case vs of
        [VString interface, VMap properties, invalid] \<Rightarrow>
          (if interfaceName q = interface then
             (case map_of properties (VString (propertyName q)) of
                None \<Rightarrow> Inr []
              | Some v \<Rightarrow> (case G v of None \<Rightarrow> Inl BadCast | Some x \<Rightarrow> Inr [AllListeners [x]]))
           else Inr [])
      | _ \<Rightarrow> Inr [])"

definition legacy_onSignal :: "args_lib \<Rightarrow> variant_get \<Rightarrow> bool \<Rightarrow> message \<Rightarrow> legacy_event \<Rightarrow> (variant_error + event_call list) \<times> legacy_event" where
  "legacy_onSignal L G proxy_alive m le =
     (case handler_onSignalDBusMessage L proxy_alive m (internalEvent le) of
        (calls, ev1) \<Rightarrow>
          (case calls of
             [AllListeners vs] \<Rightarrow> (if isSubscriptionSet le then legacy_listener G (legacyProperty le) vs else Inr [])
           | _ \<Rightarrow> Inr [],
           le\<lparr>internalEvent := ev1\<rparr>))"

definition legacy_onInitialValue :: "args_lib \<Rightarrow> variant_get \<Rightarrow> tag \<Rightarrow> message \<Rightarrow> legacy_event \<Rightarrow> variant_error + event_call list" where
  "legacy_onInitialValue L G t m le =
     (case get_arguments L [property_variant (propertyType (legacyProperty le))] [VUnset] m of
        (success, vs) \<Rightarrow>
          (if success then (case G (first_value VUnset vs) of None \<Rightarrow> Inl BadCast | Some x \<Rightarrow> Inr [OneListener t [x]])
           else Inr []))"

text \<open>
  The reply to a call for a signal handler: the result is for the future, the callback runs if the proxy is alive.
\<close>

definition signalMember_onDBusMessageReply :: "bool \<Rightarrow> (status \<Rightarrow> message \<Rightarrow> 'r) \<Rightarrow> status \<Rightarrow> message \<Rightarrow> status \<times> 'r option" where
  "signalMember_onDBusMessageReply object_alive f st m = (st, if object_alive then Some (f st m) else None)"

text \<open>With \<open>signalInitialValueCallback\<close> as the callback, for the listener \<open>t\<close>. \<open>alive\<close> is whether the handler is.\<close>

definition initial_value_reply :: "args_lib \<Rightarrow> variant_get \<Rightarrow> bool \<Rightarrow> tag \<Rightarrow> legacy_event \<Rightarrow> status \<Rightarrow> message \<Rightarrow>
    variant_error + event_call list" where
  "initial_value_reply L G alive t le st m =
     (if st \<noteq> Method_Call.SUCCESS then Inr []
      else if alive then legacy_onInitialValue L G t m le else Inr [])"

section \<open>Listeners that come and go\<close>

inductive legacy_run :: "libdbus \<Rightarrow> (handler \<Rightarrow> bool) \<Rightarrow> tag list \<Rightarrow> legacy_event \<Rightarrow> proxy \<Rightarrow> bool" for E alive where
  new: "rules_inv (connection p) \<Longrightarrow> legacy_run E alive [] (new_legacy_event q) p"
| one: "legacy_run E alive [] le p \<Longrightarrow> roomy p \<Longrightarrow>
    (signalHandler (internalEvent le) = None \<Longrightarrow> fresh \<notin> handlers_at (connection p) (eventPath (internalEvent le))) \<Longrightarrow>
    (\<And>h. signalHandler (event_init fresh (internalEvent le)) = Some h \<Longrightarrow> alive h) \<Longrightarrow>
    legacy_onFirstListenerAdded E alive fresh sub le p = Some (le1, p1) \<Longrightarrow> legacy_run E alive [t] le1 p1"
| another: "legacy_run E alive ls le p \<Longrightarrow> ls \<noteq> [] \<Longrightarrow> legacy_run E alive (ls @ [t]) le p"
| less: "legacy_run E alive ls le p \<Longrightarrow> t \<in> set ls \<Longrightarrow> remove1 t ls \<noteq> [] \<Longrightarrow> legacy_run E alive (remove1 t ls) le p"
| none: "legacy_run E alive [t] le p \<Longrightarrow> legacy_onLastListenerRemoved E le p = Some (le1, p1) \<Longrightarrow> legacy_run E alive [] le1 p1"
| told: "legacy_run E alive ls le p \<Longrightarrow> legacy_onSignal L G b m le = (r, le1) \<Longrightarrow> legacy_run E alive ls le1 p"
| outside: "legacy_run E alive ls le p \<Longrightarrow> rules_inv (connection p') \<Longrightarrow>
    (\<And>h. signalHandler (internalEvent le) = Some h \<Longrightarrow>
      h \<in> handlers_at (connection p') (eventPath (internalEvent le)) \<longleftrightarrow> h \<in> handlers_at (connection p) (eventPath (internalEvent le))) \<Longrightarrow>
    legacy_run E alive ls le p'"

text \<open>The inner event has its one listener exactly while there are listeners outside.\<close>

definition legacy_inv :: "libdbus \<Rightarrow> (handler \<Rightarrow> bool) \<Rightarrow> tag list \<Rightarrow> legacy_event \<Rightarrow> proxy \<Rightarrow> bool" where
  "legacy_inv E alive ls le p \<longleftrightarrow>
     broadcast_run E alive (if ls = [] then [] else [legacySubscription le]) (internalEvent le) p \<and>
     (isSubscriptionSet le \<longleftrightarrow> ls \<noteq> []) \<and>
     eventPath (internalEvent le) =
       broadcast_path (setInterface PROPERTIES (serviceAddress (legacyProperty le))) ''PropertiesChanged'' ''sa{sv}as'' \<and>
     argTypes (internalEvent le) = changed_types (propertyType (legacyProperty le))"

lemma event_frame:
  "event_onFirstListenerAdded E alive fresh ev p = Some (ev1, p1) \<Longrightarrow> eventPath ev1 = eventPath ev \<and> argTypes ev1 = argTypes ev"
  "event_onLastListenerRemoved E ev p = Some (ev1, p1) \<Longrightarrow> eventPath ev1 = eventPath ev \<and> argTypes ev1 = argTypes ev"
  "handler_onSignalDBusMessage L b m ev = (calls, ev1) \<Longrightarrow> eventPath ev1 = eventPath ev \<and> argTypes ev1 = argTypes ev"
  by (auto simp: event_onFirstListenerAdded_def event_init_def event_onLastListenerRemoved_def handler_onSignalDBusMessage_def
      handleSignalDBusMessage_def Let_def split: option.splits prod.splits if_splits)

lemma legacy_run_inv: "legacy_run E alive ls le p \<Longrightarrow> legacy_inv E alive ls le p"
proof (induction rule: legacy_run.induct)
  case (new p q)
  then show ?case
    using start[OF new, of E alive "(getObjectPath (serviceAddress q), PROPERTIES, ''PropertiesChanged'', ''sa{sv}as'')"]
    by (cases "serviceAddress q") (simp add: legacy_inv_def new_legacy_event_def new_event_def broadcast_path_def)
next
  case (one le p fresh sub le1 p1 t)
  have i: "broadcast_run E alive [] (internalEvent le) p" "\<not> isSubscriptionSet le" using one.IH by (simp_all add: legacy_inv_def)
  obtain ev1 q1 where e: "event_onFirstListenerAdded E alive fresh (internalEvent le) p = Some (ev1, q1)"
    "event_onListenerAdded sub ev1 q1 = Some p1"
    "le1 = le\<lparr>internalEvent := ev1, legacySubscription := sub, isSubscriptionSet := True\<rparr>"
    using one.hyps(5) i(2) by (auto simp: legacy_onFirstListenerAdded_def split: option.splits)
  from first[OF i(1) one.hyps(2,3,4) e(1,2)] have "broadcast_run E alive [sub] ev1 p1" .
  then show ?case using one.IH event_frame(1)[OF e(1)] e(3) by (simp add: legacy_inv_def)
next
  case (another ls le p t)
  then show ?case by (simp add: legacy_inv_def)
next
  case (less ls le p t)
  then have "ls \<noteq> []" by auto
  then show ?case using less by (simp add: legacy_inv_def)
next
  case (none t le p le1 p1)
  have i: "broadcast_run E alive [legacySubscription le] (internalEvent le) p" "isSubscriptionSet le"
    using none.IH by (simp_all add: legacy_inv_def)
  obtain ev1 where e: "event_onLastListenerRemoved E (internalEvent le) (event_onListenerRemoved (legacySubscription le) (internalEvent le) p) = Some (ev1, p1)"
    "le1 = le\<lparr>internalEvent := ev1, isSubscriptionSet := False\<rparr>"
    using none.hyps(2) i(2) by (auto simp: legacy_onLastListenerRemoved_def)
  from last[OF i(1) e(1)] show ?case using none.IH event_frame(2)[OF e(1)] e(2) by (simp add: legacy_inv_def)
next
  case (told ls le p L G b m r le1)
  obtain calls ev1 where e: "handler_onSignalDBusMessage L b m (internalEvent le) = (calls, ev1)" "le1 = le\<lparr>internalEvent := ev1\<rparr>"
    using told.hyps(2) by (auto simp: legacy_onSignal_def split: prod.splits)
  have "broadcast_run E alive (if ls = [] then [] else [legacySubscription le]) ev1 p"
    using signal[OF _ e(1)] told.IH by (simp add: legacy_inv_def)
  then show ?case using told.IH event_frame(3)[OF e(1)] e(2) by (cases "ls = []") (simp_all add: legacy_inv_def)
next
  case (outside ls le p p')
  then show ?case unfolding legacy_inv_def using elsewhere by blast
qed

section \<open>Changes of a property\<close>

lemma signal_get_arguments:
  assumes "args_spec E L" "fits E (changed_types t) vs"
  shows "get_arguments L (changed_types t) old (Signal d path i n sg (body_of E (changed_types t) vs)) = (True, vs)"
  by (rule get_arguments_ok[OF assms]) (simp_all add: changed_types_def)

lemma change_told:
  assumes "legacy_inv X alive ls le p" "ls \<noteq> []" "args_spec E L"
    and "fits E (changed_types (propertyType (legacyProperty le))) vs"
  shows "fst (legacy_onSignal L G True (Signal d path i n sg (body_of E (changed_types (propertyType (legacyProperty le))) vs)) le) =
    legacy_listener G (legacyProperty le) vs"
  using assms signal_get_arguments[OF assms(3,4)]
  by (simp add: legacy_inv_def legacy_onSignal_def handler_onSignalDBusMessage_def handleSignalDBusMessage_def)

text \<open>C24: a stub announces a change of a property by one signal, in which all properties of the object look alike. The
  connection of a client hands it to the event of a property exactly while that event has listeners, and they are called
  with the new value if the signal is about this property of this interface, and not called otherwise.\<close>

theorem property_change_reaches_listeners:
  assumes "legacy_run X alive ls le p" "legacyProperty le = q" "args_spec E L" "variant_get_spec E G"
    and "fits E (changed_types (propertyType q)) [VString i, VMap [(VString n, VVariant tag v)], VVector []]"
  shows "\<exists>m. snd (sendPropertiesChangedSignal L send tag (serviceAddress q) i n (propertyType q) v) = Some m \<and>
    (is_called alive (signal_view sender m) (internalEvent le) (connection p) \<longleftrightarrow> ls \<noteq> []) \<and>
    (ls \<noteq> [] \<longrightarrow> fst (legacy_onSignal L G True m le) =
      Inr (if i = interfaceName q \<and> n = propertyName q then [AllListeners [v]] else []))"
proof -
  let ?a = "setInterface PROPERTIES (serviceAddress q)" and ?ts = "changed_types (propertyType q)"
    and ?vs = "[VString i, VMap [(VString n, VVariant tag v)], VVector []]"
  have inv: "legacy_inv X alive ls le p" by (rule legacy_run_inv[OF assms(1)])
  then have r: "broadcast_run X alive (if ls = [] then [] else [legacySubscription le]) (internalEvent le) p"
    "eventPath (internalEvent le) = broadcast_path ?a ''PropertiesChanged'' ''sa{sv}as''"
    using assms(2) by (simp_all add: legacy_inv_def)
  have i: "getInterface ?a \<noteq> ''org.freedesktop.DBus.ObjectManager''" by (cases "serviceAddress q") (simp add: PROPERTIES_def)
  obtain d b where m: "snd (sendSignal L send None ?a ''PropertiesChanged'' ''sa{sv}as'' ?ts ?vs) =
      Some (Signal d (getObjectPath ?a) (getInterface ?a) ''PropertiesChanged'' ''sa{sv}as'' b)" "b = body_of E ?ts ?vs"
    using sendSignal_message[OF assms(3,5)] by (metis snd_conv changed_types_def list.distinct(1))
  let ?m = "Signal d (getObjectPath ?a) (getInterface ?a) ''PropertiesChanged'' ''sa{sv}as'' b"
  have "is_called alive (signal_view sender ?m) (internalEvent le) (connection p) \<longleftrightarrow> ls \<noteq> []"
    using called_while_heard[OF r i] by simp
  moreover have "wt E (property_variant (propertyType q)) (VVariant tag v)" using assms(5) by (simp add: fits_def changed_types_def)
  then have "G (VVariant tag v) = Some v" using assms(4) variant_one by (simp add: variant_get_spec_def)
  then have "legacy_listener G q ?vs = Inr (if i = interfaceName q \<and> n = propertyName q then [AllListeners [v]] else [])"
    by (auto simp: legacy_listener_def)
  then have "ls \<noteq> [] \<longrightarrow> fst (legacy_onSignal L G True ?m le) =
      Inr (if i = interfaceName q \<and> n = propertyName q then [AllListeners [v]] else [])"
    using change_told[OF inv _ assms(3), of ?vs] assms(2,5) m(2) by simp
  ultimately show ?thesis using m(1) unfolding sendPropertiesChangedSignal_def changed_types_def by blast
qed

section \<open>The first value\<close>

text \<open>C40: a listener that comes while the service is available is told the value that the stub shows to this client: the
  call of \<open>Get\<close> that is sent for it is answered by the dispatcher of the property, and the completed call tells this
  listener alone.\<close>

theorem new_listener_gets_stub_value:
  assumes "args_spec E L" "variant_get_spec E G" "serves E G tag managed h q a" "legacyProperty le = q" "availabilityStatus p = AVAILABLE"
    and "fits E name_types (property_names q)" "fits E [property_variant (propertyType q)] (shown_variant tag a client st)"
  shows "\<exists>m reply status. legacy_onListenerAdded L le p = Some m \<and> serve_property E managed h client st m = (None, reply) \<and>
    pending_status reply = Some status \<and>
    signalMember_onDBusMessageReply True (initial_value_reply L G True t le) status reply =
      (Method_Call.SUCCESS, Some (Inr [OneListener t [getStub a client st]]))"
proof -
  let ?m = "setBody (body_of E name_types (property_names q)) (property_call ''Get'' ''ss'' q)"
  obtain r where r: "serve_property E managed h client st ?m =
      (None, setBody (body_of E [property_variant (propertyType q)] (shown_variant tag a client st)) (createMethodReturn ''v'' r))"
    using served_get[OF assms(3,6)] by blast
  let ?r = "setBody (body_of E [property_variant (propertyType q)] (shown_variant tag a client st)) (createMethodReturn ''v'' r)"
  have "get_arguments L [property_variant (propertyType q)] [VUnset] ?r = (True, shown_variant tag a client st)"
    by (rule get_arguments_ok[OF assms(1,7)]) simp_all
  moreover have "G (VVariant tag (getStub a client st)) = Some (getStub a client st)"
    using assms(2,7) variant_one by (auto simp: variant_get_spec_def fits_def)
  ultimately have "initial_value_reply L G True t le Method_Call.SUCCESS ?r = Inr [OneListener t [getStub a client st]]"
    using assms(4) by (simp add: initial_value_reply_def legacy_onInitialValue_def first_value_def)
  moreover have "pending_status ?r = Some Method_Call.SUCCESS"
    by (simp add: pending_status_cases createMethodReturn_def)
  moreover have "legacy_onListenerAdded L le p = Some ?m"
    using put_arguments_ok[OF assms(1,6), of "property_call ''Get'' ''ss'' q"] assms(4,5)
    by (simp add: legacy_onListenerAdded_def freeDesktopGetCurrentValueForSignalListener_def)
  ultimately show ?thesis using r by (auto simp: signalMember_onDBusMessageReply_def)
qed

text \<open>A listener that comes earlier is not told a first value, then or later: nothing is sent for it, and the handler is not
  in the queue of the proxy, from which the values of other attributes are fetched when the service becomes available.\<close>

lemma early_listener_gets_no_value:
  assumes "availabilityStatus p \<noteq> AVAILABLE"
  shows "legacy_onListenerAdded L le p = None"
    and "legacy_onFirstListenerAdded E alive fresh sub (new_legacy_event q) p = Some (le1, p1) \<Longrightarrow>
      signalMemberHandlerQueue p1 = signalMemberHandlerQueue p"
  using assms
  by (auto simp: legacy_onListenerAdded_def freeDesktopGetCurrentValueForSignalListener_def legacy_onFirstListenerAdded_def
      new_legacy_event_def new_event_def event_onFirstListenerAdded_def event_init_def proxy_addSignalMemberHandler_def
      event_onListenerAdded_def addSignalStateHandler_def push_function_def Let_def split: option.splits prod.splits if_splits)

section \<open>Instances\<close>

lemma sample_legacy:
  "\<exists>le p. legacy_run all_ok (\<lambda>_. True) [4] le p \<and> legacyProperty le = sample_property"
proof -
  let ?p = "new_proxy ''/p'' ''i'' new_conn" and ?le = "new_legacy_event sample_property"
  obtain le1 p1 where f: "legacy_onFirstListenerAdded all_ok (\<lambda>_. True) 7 3 ?le ?p = Some (le1, p1)"
    by (cases "proxy_addSignalMemberHandler all_ok (\<lambda>_. True) (eventPath (internalEvent ?le)) [] 7 False ?p")
      (auto simp: legacy_onFirstListenerAdded_def new_legacy_event_def event_onFirstListenerAdded_def event_init_def
        event_onListenerAdded_def new_event_def)
  have q: "legacyProperty le1 = sample_property"
    using f by (auto simp: legacy_onFirstListenerAdded_def new_legacy_event_def split: option.splits prod.splits)
  have "legacy_run all_ok (\<lambda>_. True) [] ?le ?p" by (rule new) (simp add: new_proxy_def rules_inv_new)
  from one[OF this _ _ _ f, of 4] q show ?thesis by (auto simp: roomy_def new_proxy_def new_conn_def handlers_at_def)
qed

lemma sample_change_fits:
  "fits some_ext (changed_types TUInt8) [VString [105], VMap [(VString [97], VVariant 1 (V8 7))], VVector []]"
proof (rule fits_small[OF _ _ refl])
  show "wtFields some_ext (changed_types TUInt8) [VString [105], VMap [(VString [97], VVariant 1 (V8 7))], VVector []]"
    by (simp add: changed_types_def sample_variants(2))
  show "list_all (readable some_ext) (changed_types TUInt8)" by code_simp
  show "length (body_of some_ext (changed_types TUInt8) [VString [105], VMap [(VString [97], VVariant 1 (V8 7))], VVector []]) < 1000"
    by code_simp
qed

theorem property_change_reaches_listeners_witness:
  "\<exists>le p m. legacy_run all_ok (\<lambda>_. True) [4] le p \<and>
    snd (sendPropertiesChangedSignal (some_args some_ext) (\<lambda>_. True) 1 (serviceAddress sample_property) [105] [97] TUInt8 (V8 7)) = Some m \<and>
    is_called (\<lambda>_. True) (signal_view '':1.7'' m) (internalEvent le) (connection p) \<and>
    fst (legacy_onSignal (some_args some_ext) some_get True m le) = Inr [AllListeners [V8 7]]"
proof -
  obtain le p where r: "legacy_run all_ok (\<lambda>_. True) [4] le p" "legacyProperty le = sample_property" using sample_legacy by blast
  note t = property_change_reaches_listeners[OF r some_args_spec some_get_spec, of "[105]" "[97]" 1 "V8 7" "\<lambda>_. True" "'':1.7''",
      unfolded sample_property_simps(1-3), OF sample_change_fits]
  have "[4 :: tag] \<noteq> []" by simp
  with t r(1) show ?thesis by force
qed

theorem new_listener_gets_stub_value_witness:
  "\<exists>m reply status. legacy_onListenerAdded (some_args some_ext) (new_legacy_event sample_property)
      ((new_proxy ''/p'' ''i'' new_conn)\<lparr>availabilityStatus := AVAILABLE\<rparr>) = Some m \<and>
    serve_property some_ext sample_managed (sample_adapter sample_attribute) ''client'' (V8 3) m = (None, reply) \<and>
    pending_status reply = Some status \<and>
    signalMember_onDBusMessageReply True (initial_value_reply (some_args some_ext) some_get True 4 (new_legacy_event sample_property)) status reply =
      (Method_Call.SUCCESS, Some (Inr [OneListener 4 [V8 3]]))"
  using new_listener_gets_stub_value[OF some_args_spec some_get_spec sample_serves[OF sample_attribute_simps(1,2)],
      where le = "new_legacy_event sample_property" and p = "(new_proxy ''/p'' ''i'' new_conn)\<lparr>availabilityStatus := AVAILABLE\<rparr>"
        and client = "''client''" and st = "V8 3" and t = 4] sample_fits(1,3)
  by (simp add: sample_property_simps sample_attribute_simps new_legacy_event_def)

end
