(* ===== verification/Announcement.thy ===== *)
theory Announcement
  imports Connection_Correct Registry_Props Instance_Event_Correct Object_Manager Hash Attribute
begin

text \<open>
  What the managers of objects say to the clients, on the wire: the signals \<open>InterfacesAdded\<close> and
  \<open>InterfacesRemoved\<close> and the answer to \<open>GetManagedObjects\<close> (\<open>DBusObjectManagerStub.cpp\<close>), and how the registry of
  a client reads them (\<open>onSignalDBusMessage\<close>, \<open>getManagedObjects\<close> in \<open>DBusServiceRegistry.cpp\<close>). The two components
  are composed: a stub that is exported is seen by the subscribers on the other side.
\<close>

section \<open>Messages\<close>

text \<open>The dictionaries (\<open>DBusTypes.hpp\<close>). A property is a \<open>bool\<close> in them; the dictionaries that are sent have none.\<close>

definition DBusPropertiesChangedDict :: ty where
  "DBusPropertiesChangedDict = TMap (TString False) TBool"

definition DBusInterfacesAndPropertiesDict :: ty where
  "DBusInterfacesAndPropertiesDict = TMap (TString False) DBusPropertiesChangedDict"

definition DBusObjectPathAndInterfacesDict :: ty where
  "DBusObjectPathAndInterfacesDict = TMap (TString False) DBusInterfacesAndPropertiesDict"

definition cpp_string :: "string \<Rightarrow> val" where
  "cpp_string s = VString (string_bytes s)"

definition interfaces_dict :: "string list \<Rightarrow> val" where
  "interfaces_dict is = VMap (map (\<lambda>i. (cpp_string i, VMap [])) is)"

text \<open>What is written into a message, with the types; the message itself, for the answer to the call \<open>question\<close>.\<close>

fun om_arguments :: "om_message \<Rightarrow> ty list \<times> val list" where
  "om_arguments (InterfacesAdded manager path is) =
     ([TString False, DBusInterfacesAndPropertiesDict], [cpp_string path, interfaces_dict is])"
| "om_arguments (InterfacesRemoved manager path is) =
     ([TString False, TVector (TString False)], [cpp_string path, VVector (map cpp_string is)])"
| "om_arguments (ManagedObjects manager ps) =
     ([DBusObjectPathAndInterfacesDict], [VMap (map (\<lambda>(p, is). (cpp_string p, interfaces_dict is)) ps)])"

fun om_header :: "message \<Rightarrow> om_message \<Rightarrow> message" where
  "om_header question (InterfacesAdded manager path is) = createSignal manager OM_INTERFACE ''InterfacesAdded'' ''oa{sa{sv}}''"
| "om_header question (InterfacesRemoved manager path is) = createSignal manager OM_INTERFACE ''InterfacesRemoved'' ''oas''"
| "om_header question (ManagedObjects manager ps) = createMethodReturn ''a{oa{sa{sv}}}'' question"

definition om_wire :: "ext \<Rightarrow> message \<Rightarrow> om_message \<Rightarrow> message" where
  "om_wire E question m =
     (case om_arguments m of (ts, vs) \<Rightarrow> setBody (flush (writeFields E ts vs new_ostream)) (om_header question m))"

section \<open>The registry\<close>

text \<open>
  A signal: the names are collected in a set, and an error of the stream is looked at when all is read. \<open>None\<close> is
  the loop that does not end.
\<close>

definition registry_onSignalDBusMessage :: "ext \<Rightarrow> renv \<Rightarrow> name \<Rightarrow> message \<Rightarrow> registry \<Rightarrow> registry option" where
  "registry_onSignalDBusMessage E e sender m r =
     (let (path, s1) = read_string E '''' (new_istream (getBody m))
      in if getMember m = ''InterfacesAdded'' then
           map_option
             (\<lambda>(names, s2). if isErrorSet (endReadMapOfSerializableStructs s2) then r else onSignalDBusMessage e sender path True names r)
             (interfaces_loop E set_add '''' [] (beginReadMapOfSerializableStructs s1))
         else
           (let (v, s2) = readValue E (TVector (TString False)) s1;
                names = fold set_add (case v of VVector vs \<Rightarrow> map as_string vs | _ \<Rightarrow> []) []
            in Some (if isErrorSet s2 then r else onSignalDBusMessage e sender path False names r)))"

text \<open>\<open>getManagedObjects\<close>; \<open>old\<close> is what the dictionary held before.\<close>

definition getManagedObjects :: "args_lib \<Rightarrow> bool \<Rightarrow> remote \<Rightarrow> name \<Rightarrow> name \<Rightarrow> val \<Rightarrow> bool \<times> val" where
  "getManagedObjects L isUp remote service path old =
     (if isUp then
        (case remote (createMethodCall (DBusAddress service path OM_INTERFACE) ''GetManagedObjects'' '''') of
           (error, reply) \<Rightarrow>
             (case deserialize L [DBusObjectPathAndInterfacesDict] (new_istream (getBody reply)) of
                (success, vs, s) \<Rightarrow> (success \<and> error = None, first_value old vs)))
      else (True, old))"

text \<open>
  The asynchronous variant; \<open>answer\<close> is the status and the message with which the call is completed, \<open>None\<close> means
  that nothing is sent and nobody is called back.
\<close>

definition getManagedObjectsAsync :: "bool \<Rightarrow> (message \<Rightarrow> status \<times> message) \<Rightarrow> name \<Rightarrow> name \<Rightarrow> (status \<times> message) option" where
  "getManagedObjectsAsync isUp answer service path =
     (if isUp then Some (answer (createMethodCall (DBusAddress service path OM_INTERFACE) ''GetManagedObjects'' '''')) else None)"

text \<open>A dictionary as the rest of the registry sees it; the properties are not looked at.\<close>

definition dict_entries :: "val \<Rightarrow> (name \<times> name list) list" where
  "dict_entries v =
     (case v of
        VMap es \<Rightarrow> map (\<lambda>(p, d). (as_string p, case d of VMap is \<Rightarrow> map (\<lambda>i. as_string (fst i)) is | _ \<Rightarrow> [])) es
      | _ \<Rightarrow> [])"

text \<open>The reply to \<open>getManagedObjectsAsync\<close> as its callback gets it.\<close>

definition managed_objects_reply :: "args_lib \<Rightarrow> status \<Rightarrow> message \<Rightarrow> (name \<times> name list) list option" where
  "managed_objects_reply L st m =
     (case handleDBusMessageReply L True [] [DBusObjectPathAndInterfacesDict] [VMap []] st m of
        (future, Some (s, vs), n) \<Rightarrow> (if s = Method_Call.SUCCESS then Some (dict_entries (first_value (VMap []) vs)) else None)
      | _ \<Rightarrow> None)"

text \<open>What \<open>getAvailableServiceInstancesAsync\<close> forwards: the dictionary, whatever the status is.\<close>

definition forwarded_objects :: "args_lib \<Rightarrow> status \<Rightarrow> message \<Rightarrow> (name \<times> name list) list" where
  "forwarded_objects L st m =
     (case handleDBusMessageReply L True [] [DBusObjectPathAndInterfacesDict] [VMap []] st m of
        (future, Some (s, vs), n) \<Rightarrow> dict_entries (first_value (VMap []) vs)
      | _ \<Rightarrow> [])"

section \<open>Strings\<close>

lemma as_string_cpp [simp]: "as_string (cpp_string s) = s"
  by (simp add: as_string_def cpp_string_def string_bytes_def byte_char comp_def)

lemma as_string_comp_cpp [simp]: "as_string \<circ> cpp_string = id"
  by (rule ext) simp

lemma map_as_string_cpp [simp]: "map (as_string \<circ> (fst \<circ> (\<lambda>i. (cpp_string i, x)))) is = is"
  by (induction "is") auto

section \<open>What is sent is what is read\<close>

abbreviation added_types :: "ty list" where
  "added_types \<equiv> [TString False, DBusInterfacesAndPropertiesDict]"

abbreviation removed_types :: "ty list" where
  "removed_types \<equiv> [TString False, TVector (TString False)]"

definition om_fits :: "ext \<Rightarrow> om_message \<Rightarrow> bool" where
  "om_fits E m = (case om_arguments m of (ts, vs) \<Rightarrow> fits E ts vs)"

lemma om_wire_body: "getBody (om_wire E question m) = (case om_arguments m of (ts, vs) \<Rightarrow> body_of E ts vs)"
  by (cases m) (simp_all add: om_wire_def body_of_def createSignal_def)

lemma om_wire_member:
  "getMember (om_wire E question (InterfacesAdded mp p is)) = ''InterfacesAdded''"
  "getMember (om_wire E question (InterfacesRemoved mp p is)) = ''InterfacesRemoved''"
  by (simp_all add: om_wire_def createSignal_def)

lemma first_string:
  assumes "fits E [TString False, t] [cpp_string p, v]"
  obtains s where "read_string E old (new_istream (body_of E [TString False, t] [cpp_string p, v])) = (p, s)"
    "ahead s (enc E t v (current s))" "\<not> isErrorSet s"
proof -
  let ?s = "new_istream (body_of E [TString False, t] [cpp_string p, v])" and ?l = "length (enc E (TString False) (cpp_string p) 0)"
  note r = two_fields_read[OF assms]
  show thesis
  proof
    show "read_string E old ?s = (p, skip ?l ?s)" using r(1) by (simp add: read_string_def cpp_string_def as_string_cpp[unfolded cpp_string_def] del: enc.simps readValue.simps)
    show "ahead (skip ?l ?s) (enc E t v (current (skip ?l ?s)))" using r(2) by (simp add: new_istream_def del: enc.simps)
    show "\<not> isErrorSet (skip ?l ?s)" by (simp add: isErrorSet_def new_istream_def)
  qed
qed

lemma registry_reads_added:
  assumes "om_fits E (InterfacesAdded mp p is)"
  shows "registry_onSignalDBusMessage E e u (om_wire E question (InterfacesAdded mp p is)) r =
    Some (onSignalDBusMessage e u p True (fold set_add is []) r)"
proof -
  let ?d = "interfaces_dict is" and ?es = "map (\<lambda>i. (cpp_string i, VMap [])) is"
  have f: "fits E added_types [cpp_string p, ?d]" using assms by (simp add: om_fits_def)
  obtain s where s: "read_string E '''' (new_istream (body_of E added_types [cpp_string p, ?d])) = (p, s)"
    "ahead s (enc E DBusInterfacesAndPropertiesDict ?d (current s))" "\<not> isErrorSet s"
    by (rule first_string[OF f])
  have t: "DBusInterfacesAndPropertiesDict = TMap (TString False) (TMap (TString False) TBool)"
    by (simp add: DBusInterfacesAndPropertiesDict_def DBusPropertiesChangedDict_def)
  have w: "wt E (TString False) (fst x) \<and> wt E (TMap (TString False) TBool) (snd x)" if "x \<in> set ?es" for x
    using f that unfolding t by (auto simp: fits_def interfaces_dict_def list_all_iff)
  have "ahead s (enc E (TMap (TString False) (TMap (TString False) TBool)) (VMap ?es) (current s))"
    using s(2) unfolding t interfaces_dict_def .
  from begin_map_back[OF this] obtain s1 n where s1: "beginReadMapOfSerializableStructs s = s1" "sizes s1 = n # sizes s"
    "marks s1 = current s1 # marks s" "ahead s1 (encElems (enc_entry E (TString False) TBool) ?es (current s1))"
    "unat n = length (encElems (enc_entry E (TString False) TBool) ?es (current s1))" .
  have "unat n = current s1 - current s1 + length (encElems (enc_entry E (TString False) TBool) ?es (current s1))"
    using s1(5) by (simp del: enc.simps)
  note l = interfaces_loop_back[OF w s1(4) s1(2,3) order.refl this, of set_add "''''" "[]"]
  have "\<not> isErrorSet s1" using ahead_not_error[OF s1(4)] by (simp add: isErrorSet_def)
  then show ?thesis
    using s(1) s1(1) l by (simp add: registry_onSignalDBusMessage_def om_wire_body om_wire_member isErrorSet_def
        endReadMapOfSerializableStructs_def popSize_def in_popPosition_def comp_def del: enc.simps)
qed

lemma registry_reads_removed:
  assumes "om_fits E (InterfacesRemoved mp p is)"
  shows "registry_onSignalDBusMessage E e u (om_wire E question (InterfacesRemoved mp p is)) r =
    Some (onSignalDBusMessage e u p False (fold set_add is []) r)"
proof -
  let ?v = "VVector (map cpp_string is)"
  have f: "fits E removed_types [cpp_string p, ?v]" using assms by (simp add: om_fits_def)
  obtain s where s: "read_string E '''' (new_istream (body_of E removed_types [cpp_string p, ?v])) = (p, s)"
    "ahead s (enc E (TVector (TString False)) ?v (current s))" "\<not> isErrorSet s"
    by (rule first_string[OF f])
  have "readable E (TVector (TString False))" "wt E (TVector (TString False)) ?v" using f by (simp_all add: fits_def)
  from readValue_enc[OF this s(2)] s(1,3) show ?thesis
    by (simp add: registry_onSignalDBusMessage_def om_wire_body om_wire_member isErrorSet_def del: enc.simps readValue.simps)
qed

section \<open>From the stub to the subscribers\<close>

definition emitSignal :: "bool \<Rightarrow> bus_env \<Rightarrow> (adapter \<Rightarrow> stub_adapter) \<Rightarrow> adapter \<Rightarrow> string \<Rightarrow> bus \<Rightarrow> bool \<times> bus" where
  "emitSignal added v A a manager b =
     (if added then emitInterfacesAddedSignal v A a manager b else emitInterfacesRemovedSignal v A a manager b)"

lemma sent_last: "sendDBusMessage v m b = (True, b') \<Longrightarrow> last (Object_Manager.sent b') = m"
  by (auto simp: sendDBusMessage_def split: if_splits)

lemma set_set_add [simp]: "set (set_add x xs) = insert x (set xs)"
  by (auto simp: set_add_def)

lemma emitted:
  assumes "emitSignal added v A a manager b = (True, b')"
  obtains "is" where "adapter_interface A a \<in> set is"
    "last (Object_Manager.sent b') =
      (if added then InterfacesAdded manager (adapter_path A a) is else InterfacesRemoved manager (adapter_path A a) is)"
proof (cases added)
  case True
  let ?d = "if isManaging (A a) then set_add OM_INTERFACE [adapter_interface A a] else [adapter_interface A a]"
  let ?is = "if hasFreedesktopProperties (A a) then set_add PROPERTIES_INTERFACE ?d else ?d"
  have "sendDBusMessage v (InterfacesAdded manager (adapter_path A a) ?is) b = (True, b')"
    using assms True by (simp add: emitSignal_def emitInterfacesAddedSignal_def Let_def)
  from sent_last[OF this] show thesis using True that[of ?is] by simp
next
  case False
  then show thesis
    using assms that[of "adapter_interface A a # (if isManaging (A a) then [OM_INTERFACE] else [])"]
    by (simp add: emitSignal_def emitInterfacesRemovedSignal_def sent_last)
qed

lemma set_fold_set_add: "set (fold set_add xs ys) = set xs \<union> set ys"
  by (induction xs arbitrary: ys) (auto simp: set_add_def)

lemma registry_reads:
  assumes "om_fits E m" "m = (if added then InterfacesAdded manager p is else InterfacesRemoved manager p is)"
  shows "registry_onSignalDBusMessage E e u (om_wire E question m) r = Some (onSignalDBusMessage e u p added (fold set_add is []) r)"
  using assms registry_reads_added registry_reads_removed by (cases added) simp_all

text \<open>C4: a stub that is exported or taken back is seen by every subscriber on the other side: the signal that its manager
  sends is read by the registry of a client to its end and without error, and at a resolved path of a resolved
  service every listener of the interface that is not about to be removed gets the new state.\<close>

theorem export_reaches_subscribers:
  assumes "emitSignal added v A a manager b = (True, b')" "m = last (Object_Manager.sent b')" "om_fits E m"
    and "map_of (dbusUniqueNamesMap r) u = Some rec" "s \<in> set (ownedBusNames rec)"
    and "map_of (objectPathsCache rec) (adapter_path A a) = Some c" "cacheState c = RESOLVED"
    and "uniqueBusNameState (service_at s r) = RESOLVED" "find_interface (s, adapter_path A a, adapter_interface A a) r = Some l"
    and "(k, x) \<in> set (listenerList l)" "k \<notin> set (listenersToRemove l)"
  shows "\<exists>r' l'. registry_onSignalDBusMessage E e u (om_wire E question m) r = Some r' \<and>
    find_interface (s, adapter_path A a, adapter_interface A a) r' = Some l' \<and>
    state l' = (if added then AVAILABLE else Service_Registry.NOT_AVAILABLE) \<and> (k, x) \<in> set (listenerList l') \<and>
    (if liveProxy e x \<and> state l \<noteq> state l'
     then Notify s (adapter_path A a) (adapter_interface A a) k added \<in> set (rlog r') else True)"
proof -
  obtain "is" where i: "adapter_interface A a \<in> set is"
    "m = (if added then InterfacesAdded manager (adapter_path A a) is else InterfacesRemoved manager (adapter_path A a) is)"
    using emitted[OF assms(1)] assms(2) by metis
  have "adapter_interface A a \<in> set (fold set_add is [])" using i(1) by (simp add: set_fold_set_add)
  from signal_updates_listeners[OF assms(4-7) this assms(8-11), of e added] registry_reads[OF assms(3) i(2)]
  show ?thesis by metis
qed

text \<open>The event of a proxy manager reads the same signals.\<close>

lemma export_reaches_instance_event:
  assumes "om_fits E (InterfacesAdded manager p is)"
  shows "instance_onSignalDBusMessage E alive (om_wire E question (InterfacesAdded manager p is)) ev =
    Some (fold (interface_added alive p) is ev)"
proof -
  have "fits E [TString False, TMap (TString False) (TMap (TString False) TBool)] [VString (string_bytes p), VMap (map (\<lambda>i. (cpp_string i, VMap [])) is)]"
    using assms by (simp add: om_fits_def interfaces_dict_def DBusInterfacesAndPropertiesDict_def DBusPropertiesChangedDict_def cpp_string_def)
  from interfaces_added_read[OF this] show ?thesis
    by (simp add: instance_onSignalDBusMessage_def om_wire_member om_wire_body interfaces_dict_def comp_def
        DBusInterfacesAndPropertiesDict_def DBusPropertiesChangedDict_def cpp_string_def as_string_cpp[unfolded cpp_string_def])
qed

section \<open>The managed objects\<close>

lemma dict_entries_back:
  "dict_entries (VMap (map (\<lambda>(p, is). (cpp_string p, interfaces_dict is)) ps)) = ps"
  by (simp add: dict_entries_def interfaces_dict_def comp_def case_prod_unfold)

lemma managed_objects_back:
  assumes "args_spec E L" "om_fits E (ManagedObjects manager ps)"
  shows "managed_objects_reply L Method_Call.SUCCESS (om_wire E question (ManagedObjects manager ps)) = Some ps"
    and "forwarded_objects L Method_Call.SUCCESS (om_wire E question (ManagedObjects manager ps)) = ps"
proof -
  let ?v = "VMap (map (\<lambda>(p, is). (cpp_string p, interfaces_dict is)) ps)"
  have "get_arguments L [DBusObjectPathAndInterfacesDict] [VMap []] (om_wire E question (ManagedObjects manager ps)) = (True, [?v])"
    by (rule get_arguments_ok[OF assms(1)]) (use assms(2) in \<open>simp_all add: om_fits_def om_wire_body\<close>)
  then show "managed_objects_reply L Method_Call.SUCCESS (om_wire E question (ManagedObjects manager ps)) = Some ps"
    "forwarded_objects L Method_Call.SUCCESS (om_wire E question (ManagedObjects manager ps)) = ps"
    by (simp_all add: managed_objects_reply_def forwarded_objects_def handleDBusMessageReply_def first_value_def dict_entries_back)
qed

lemma getManagedObjects_back:
  assumes "args_spec E L" "om_fits E (ManagedObjects manager ps)"
    and "q = createMethodCall (DBusAddress service path OM_INTERFACE) ''GetManagedObjects'' ''''"
    and "remote q = (None, om_wire E q (ManagedObjects manager ps))"
  shows "\<exists>v. getManagedObjects L True remote service path old = (True, v) \<and> dict_entries v = ps"
proof -
  let ?v = "VMap (map (\<lambda>(p, is). (cpp_string p, interfaces_dict is)) ps)"
  let ?m = "om_wire E (createMethodCall (DBusAddress service path OM_INTERFACE) ''GetManagedObjects'' '''') (ManagedObjects manager ps)"
  have "get_arguments L [DBusObjectPathAndInterfacesDict] [VMap []] ?m = (True, [?v])"
    by (rule get_arguments_ok[OF assms(1)]) (use assms(2) in \<open>simp_all add: om_fits_def om_wire_body\<close>)
  then show ?thesis
    using assms(4) unfolding assms(3)
    by (auto simp: getManagedObjects_def get_arguments_def first_value_def dict_entries_back split: prod.splits)
qed

text \<open>A manager that is not of this library may list properties; a value is then a variant on the wire, as the signature
  \<open>a{oa{sa{sv}}}\<close> says, and not a \<open>bool\<close> as in the dictionary. Such an answer, here with one property of one object, cannot be
  read: the service counts as one without objects.\<close>

definition foreign_answer :: message where
  "foreign_answer = setBody
     (body_of some_ext [TMap (TString False) (TMap (TString False) (TMap (TString False) (TVariant True [TUInt8])))]
       [VMap [(cpp_string ''/p'', VMap [(cpp_string ''i'', VMap [(cpp_string ''a'', VVariant 1 (V8 7))])])]])
     (createMethodReturn ''a{oa{sa{sv}}}'' NoMessage)"

lemma foreign_properties_unreadable:
  "managed_objects_reply (some_args some_ext) Method_Call.SUCCESS foreign_answer = None"
  "getManagedObjects (some_args some_ext) True (\<lambda>m. (None, foreign_answer)) s p old = (False, VMap [])"
proof -
  have "(case deserialize (some_args some_ext) [DBusObjectPathAndInterfacesDict] (new_istream (getBody foreign_answer)) of
      (success, vs, s) \<Rightarrow> (success, vs)) = (False, [VMap []])" by code_simp
  then show "managed_objects_reply (some_args some_ext) Method_Call.SUCCESS foreign_answer = None"
    "getManagedObjects (some_args some_ext) True (\<lambda>m. (None, foreign_answer)) s p old = (False, VMap [])"
    by (auto simp: managed_objects_reply_def handleDBusMessageReply_def get_arguments_def getManagedObjects_def first_value_def
        split: prod.splits)
qed

section \<open>Instances\<close>

definition sample_adapters :: "adapter \<Rightarrow> stub_adapter" where
  "sample_adapters a = \<lparr>adapterAddress = DBusAddress ''s'' ''/p'' ''i'', isManaging = False, hasFreedesktopProperties = False\<rparr>"

lemma sample_removed_fits: "om_fits some_ext (InterfacesRemoved ''/'' ''/p'' [''i''])"
proof -
  have c: "cpp_string ''/p'' = VString [47, 112]" "cpp_string ''i'' = VString [105]" by code_simp+
  have b: "length (body_of some_ext removed_types [VString [47, 112], VVector [VString [105]]]) < 1000" by code_simp
  have "wtFields some_ext removed_types [VString [47, 112], VVector [VString [105]]]" by simp
  moreover have "list_all (readable some_ext) removed_types" by simp
  ultimately have "fits some_ext removed_types [VString [47, 112], VVector [VString [105]]]" by (intro fits_small[OF _ _ refl b])
  then show ?thesis by (simp add: om_fits_def c)
qed

theorem export_reaches_subscribers_witness:
  "\<exists>b' r r' l'. emitSignal False \<lparr>lib = all_ok, canSend = (\<lambda>_ _. True)\<rparr> sample_adapters 1 ''/'' (new_bus \<lparr>lib = all_ok, canSend = (\<lambda>_ _. True)\<rparr> new_conn) = (True, b') \<and>
    registry_run example_ops new_registry = Inr r \<and>
    registry_onSignalDBusMessage some_ext example_renv '':1.5'' (om_wire some_ext NoMessage (last (Object_Manager.sent b'))) r = Some r' \<and>
    find_interface (''s'', ''/p'', ''i'') r' = Some l' \<and> state l' = Service_Registry.NOT_AVAILABLE \<and>
    Notify ''s'' ''/p'' ''i'' 0 False \<in> set (rlog r')"
proof -
  let ?v = "\<lparr>lib = all_ok, canSend = (\<lambda>_ _. True)\<rparr>" let ?b = "new_bus ?v new_conn"
  let ?m = "InterfacesRemoved ''/'' ''/p'' [''i'']"
  have a: "adapter_path sample_adapters x = ''/p''" "adapter_interface sample_adapters x = ''i''" for x
    by (simp_all add: adapter_path_def adapter_interface_def sample_adapters_def)
  have e: "emitSignal False ?v sample_adapters 1 ''/'' ?b = (True, ?b\<lparr>Object_Manager.sent := Object_Manager.sent ?b @ [?m]\<rparr>)"
    by (simp add: emitSignal_def emitInterfacesRemovedSignal_def sendDBusMessage_def a) (simp add: sample_adapters_def)
  obtain r rec c l where r: "registry_run example_ops new_registry = Inr r" "map_of (dbusUniqueNamesMap r) '':1.5'' = Some rec"
      "ownedBusNames rec = [''s'']" "map_of (objectPathsCache rec) ''/p'' = Some c" "cacheState c = RESOLVED"
      "uniqueBusNameState (service_at ''s'' r) = RESOLVED" "find_interface (''s'', ''/p'', ''i'') r = Some l"
      "state l = AVAILABLE" "listenerList l = [(0, 1)]" "listenersToRemove l = []"
    using example_registry by blast
  from export_reaches_subscribers[OF e _ _ r(2) _ _ r(5,6), where m = ?m and E = some_ext and k = 0 and x = 1 and l = l and e = example_renv and question = NoMessage]
  have "\<exists>r' l'. registry_onSignalDBusMessage some_ext example_renv '':1.5'' (om_wire some_ext NoMessage ?m) r = Some r' \<and>
      find_interface (''s'', ''/p'', ''i'') r' = Some l' \<and> state l' = Service_Registry.NOT_AVAILABLE \<and>
      Notify ''s'' ''/p'' ''i'' 0 False \<in> set (rlog r')"
    using r sample_removed_fits a by (force simp: example_renv_def)
  then show ?thesis using e r(1) by auto
qed

end
