(* ===== verification/Proxy_Manager.thy ===== *)
theory Proxy_Manager
  imports Announcement "HOL-Library.Multiset"
begin

text \<open>
  The requests of a proxy manager (\<open>DBusProxyManager.cpp\<close>) and of its event (\<open>getAvailableServiceInstances\<close> and the
  following operations in \<open>DBusInstanceAvailabilityStatusChangedEvent.cpp\<close>): the list of the available instances and
  the status of one instance, blocking and asynchronous.
\<close>

section \<open>Instances\<close>

text \<open>
  The dictionaries are \<open>std::unordered_map\<close>s, whose order of iteration is not specified: \<open>order\<close> rearranges the entries and
  the interfaces of every entry. \<open>remote\<close> answers a blocking call. The result of \<open>getManagedObjects\<close> is not looked at.
\<close>

type_synonym objects_of_service = "(string \<times> string list) list"

definition iteration_order :: "(objects_of_service \<Rightarrow> objects_of_service) \<Rightarrow> bool" where
  "iteration_order order \<longleftrightarrow>
     (\<forall>d. \<exists>d'. mset (order d) = mset d' \<and> list_all2 (\<lambda>x y. fst x = fst y \<and> mset (snd x) = mset (snd y)) d d')"

definition getAvailableServiceInstances :: "args_lib \<Rightarrow> (objects_of_service \<Rightarrow> objects_of_service) \<Rightarrow> bool \<Rightarrow> remote \<Rightarrow> name \<Rightarrow> name \<Rightarrow>
    instance_event \<Rightarrow> status \<times> DBusAddress list" where
  "getAvailableServiceInstances L order isUp remote service path ev =
     (Method_Call.SUCCESS,
      translate_instances service (order (dict_entries (snd (getManagedObjects L isUp remote service path (VMap []))))) ev)"

definition no_address :: capi_address where
  "no_address = \<lparr>capi_domain = [], capi_interface = [], capi_instance = []\<rparr>"

definition manager_getAvailableInstances :: "tr_ext \<Rightarrow> args_lib \<Rightarrow> (objects_of_service \<Rightarrow> objects_of_service) \<Rightarrow> bool \<Rightarrow> remote \<Rightarrow> name \<Rightarrow> name \<Rightarrow>
    instance_event \<Rightarrow> translator \<Rightarrow> (status \<times> string list) \<times> translator" where
  "manager_getAvailableInstances X L order isUp remote service path ev T =
     (case getAvailableServiceInstances L order isUp remote service path ev of
        (st, addresses) \<Rightarrow> (case manager_translate X addresses no_address T of (names, T1) \<Rightarrow> ((st, names), T1)))"

text \<open>What the callback of \<open>getAvailableInstancesAsync\<close> gets.\<close>

definition instancesAsyncCallback :: "tr_ext \<Rightarrow> status \<Rightarrow> DBusAddress list \<Rightarrow> translator \<Rightarrow> (status \<times> string list) \<times> translator" where
  "instancesAsyncCallback X st addresses T =
     (if st = Method_Call.SUCCESS
      then (case manager_translate X addresses no_address T of (names, T1) \<Rightarrow> ((st, names), T1))
      else ((st, []), T))"

text \<open>
  The registry forwards the dictionary whatever the status of the call was, and \<open>serviceInstancesAsyncCallback\<close>
  passes \<open>SUCCESS\<close> on. The result is what the callback of the application gets, \<open>None\<close> if it is never called.
\<close>

definition manager_getAvailableInstancesAsync :: "tr_ext \<Rightarrow> args_lib \<Rightarrow> (objects_of_service \<Rightarrow> objects_of_service) \<Rightarrow> bool \<Rightarrow>
    (message \<Rightarrow> status \<times> message) \<Rightarrow> name \<Rightarrow> name \<Rightarrow> instance_event \<Rightarrow> translator \<Rightarrow> ((status \<times> string list) \<times> translator) option" where
  "manager_getAvailableInstancesAsync X L order isUp answer service path ev T =
     map_option
       (\<lambda>(st, reply). instancesAsyncCallback X Method_Call.SUCCESS (translate_instances service (order (forwarded_objects L st reply)) ev) T)
       (getManagedObjectsAsync isUp answer service path)"

section \<open>The status of an instance\<close>

text \<open>
  \<open>alive\<close> is \<open>isServiceInstanceAlive\<close> of the registry, of an interface, a service and an object path. When the address
  cannot be translated, the registry is asked for an empty one.
\<close>

definition getServiceInstanceAvailabilityStatus :: "tr_ext \<Rightarrow> (string \<Rightarrow> string \<Rightarrow> string \<Rightarrow> bool) \<Rightarrow> string \<Rightarrow> string \<Rightarrow> translator \<Rightarrow>
    (status \<times> DBusRecordState) \<times> translator" where
  "getServiceInstanceAvailabilityStatus X alive observedCapiInterfaceName instance T =
     (case tr_translate X \<lparr>capi_domain = ''local'', capi_interface = observedCapiInterfaceName, capi_instance = instance\<rparr> T of
        (d, T1) \<Rightarrow>
          (let a = (case d of Some x \<Rightarrow> x | None \<Rightarrow> DBusAddress [] [] [])
           in ((Method_Call.SUCCESS,
                if alive (getInterface a) (getService a) (getObjectPath a) then AVAILABLE else Service_Registry.NOT_AVAILABLE), T1)))"

text \<open>
  The asynchronous variant starts a thread by \<open>std::async\<close>. The standard says that the destructor of the future
  it returns waits for the thread; here that future is a temporary object, destroyed at the end of the statement.
  The order of what happens is a list.
\<close>

datatype 'a async_effect = ThreadRuns "'a async_effect list" | CallbackCalled 'a | PromiseSet | Waited | Returned

definition std_async :: "'a async_effect list \<Rightarrow> bool \<Rightarrow> 'a async_effect list" where
  "std_async work temporary = (if temporary then work @ [Waited] else [ThreadRuns work])"

definition getServiceInstanceAvailabilityStatusAsync :: "status \<times> DBusRecordState \<Rightarrow> (status \<times> DBusRecordState) async_effect list" where
  "getServiceInstanceAvailabilityStatusAsync answer = std_async [CallbackCalled answer, PromiseSet] True @ [Returned]"

section \<open>Correctness\<close>

lemma map_filter_one: "distinct is \<Longrightarrow> map (f :: 'a \<Rightarrow> 'b) (filter (\<lambda>i. i = x) is) = (if x \<in> set is then [f x] else [])"
  by (induction "is") (auto simp: filter_empty_conv)

lemma translate_instances_eq:
  assumes "\<And>p is. (p, is) \<in> set ps \<Longrightarrow> distinct is"
  shows "translate_instances service ps ev =
    map (\<lambda>e. DBusAddress service (fst e) (observedDbusInterfaceName ev)) (filter (\<lambda>e. observedDbusInterfaceName ev \<in> set (snd e)) ps)"
  using assms
proof (induction ps)
  case (Cons e ps)
  obtain p "is" where e: "e = (p, is)" by (cases e)
  have "distinct is" using Cons.prems[of p "is"] e by simp
  moreover have "translate_instances service ps ev =
      map (\<lambda>e. DBusAddress service (fst e) (observedDbusInterfaceName ev)) (filter (\<lambda>e. observedDbusInterfaceName ev \<in> set (snd e)) ps)"
    by (rule Cons.IH) (use Cons.prems in auto)
  ultimately show ?case by (simp add: translate_instances_def e map_filter_one)
qed (simp add: translate_instances_def)

lemma manager_translate_known:
  assumes "\<And>d. d \<in> set ds \<Longrightarrow> backwards T d = Some (g d)"
  shows "manager_translate X ds a T = (map (\<lambda>d. capi_instance (g d)) ds, T)"
  using assms by (induction ds arbitrary: a) (simp_all add: tr_translate_back_def)

text \<open>In whatever order the dictionary is iterated, it has the same objects with the interface.\<close>

lemma ordered_filter:
  "list_all2 (\<lambda>x y. fst x = fst y \<and> mset (snd x) = mset (snd y)) d d' \<Longrightarrow>
    map fst (filter (\<lambda>e. i \<in> set (snd e)) d') = map fst (filter (\<lambda>e. i \<in> set (snd e)) d)"
  by (induction rule: list_all2_induct) (auto dest: mset_eq_setD)

lemma iteration_order_objects:
  assumes "iteration_order order"
  shows "mset (map fst (filter (\<lambda>e. i \<in> set (snd e)) (order d))) = mset (map fst (filter (\<lambda>e. i \<in> set (snd e)) d))"
    and "(\<And>p is. (p, is) \<in> set d \<Longrightarrow> distinct is) \<Longrightarrow> (p, is) \<in> set (order d) \<Longrightarrow> distinct is"
proof -
  obtain d' where d': "mset (order d) = mset d'" "list_all2 (\<lambda>x y. fst x = fst y \<and> mset (snd x) = mset (snd y)) d d'"
    using assms unfolding iteration_order_def by blast
  have "mset (map fst (filter (\<lambda>e. i \<in> set (snd e)) (order d))) = mset (map fst (filter (\<lambda>e. i \<in> set (snd e)) d'))"
    by (simp only: mset_map mset_filter d'(1))
  then show "mset (map fst (filter (\<lambda>e. i \<in> set (snd e)) (order d))) = mset (map fst (filter (\<lambda>e. i \<in> set (snd e)) d))"
    by (simp only: ordered_filter[OF d'(2)])
  assume dist: "\<And>p is. (p, is) \<in> set d \<Longrightarrow> distinct is" and m: "(p, is) \<in> set (order d)"
  then have "(p, is) \<in> set d'" using mset_eq_setD[OF d'(1)] by simp
  then obtain k where k: "k < length d'" "d' ! k = (p, is)" by (auto simp: in_set_conv_nth)
  then have "k < length d" "mset (snd (d ! k)) = mset is" using d'(2) by (auto simp: list_all2_conv_all_nth)
  moreover from this have "distinct (snd (d ! k))" using dist[of "fst (d ! k)"] by (metis nth_mem prod.collapse)
  ultimately show "distinct is" using mset_eq_imp_distinct_iff by blast
qed

text \<open>C25: a client that asks for the available instances of an interface calls \<open>GetManagedObjects\<close> at the path of the
  manager, and gets the names of exactly the objects with that interface that the manager answers this call with, each as often
  as there (in the order in which the dictionary of the answer is iterated, which is not specified), by the blocking and
  by the asynchronous request alike. The translator has to know the addresses of all of these objects, otherwise the
  name of another one is repeated.\<close>

theorem available_instances_are_exported:
  assumes "args_spec E L" "om_fits E (ManagedObjects manager ps)" "\<And>p is. (p, is) \<in> set ps \<Longrightarrow> distinct is"
    and "q = createMethodCall (DBusAddress service path OM_INTERFACE) ''GetManagedObjects'' ''''"
    and "remote q = (None, om_wire E q (ManagedObjects manager ps))" "answer q = (Method_Call.SUCCESS, om_wire E q (ManagedObjects manager ps))"
    and "iteration_order order" "i = observedDbusInterfaceName ev"
    and "\<And>p is. (p, is) \<in> set ps \<Longrightarrow> i \<in> set is \<Longrightarrow> backwards T (DBusAddress service p i) = Some (known p)"
  shows "\<exists>names. mset names = mset (map (\<lambda>e. capi_instance (known (fst e))) (filter (\<lambda>e. i \<in> set (snd e)) ps)) \<and>
    manager_getAvailableInstances X L order True remote service path ev T = ((Method_Call.SUCCESS, names), T) \<and>
    manager_getAvailableInstancesAsync X L order True answer service path ev T = Some ((Method_Call.SUCCESS, names), T)"
proof -
  let ?has = "\<lambda>e. i \<in> set (snd e)"
  define instances where "instances = map fst (filter ?has (order ps))"
  define names where "names = map (\<lambda>p. capi_instance (known p)) instances"
  have m: "mset instances = mset (map fst (filter ?has ps))"
    unfolding instances_def by (rule iteration_order_objects(1)[OF assms(7)])
  then have n: "mset names = mset (map (\<lambda>e. capi_instance (known (fst e))) (filter ?has ps))"
    unfolding names_def mset_map m by (simp add: multiset.map_comp comp_def)
  obtain v where v: "getManagedObjects L True remote service path (VMap []) = (True, v)" "dict_entries v = ps"
    using getManagedObjects_back[where remote = remote and q = q, OF assms(1,2,4,5)] by blast
  have t: "translate_instances service (order ps) ev = map (\<lambda>p. DBusAddress service p i) instances"
    using translate_instances_eq[OF iteration_order_objects(2)[OF assms(7,3)]] assms(8) by (simp add: instances_def)
  have "set instances = fst ` {e \<in> set ps. ?has e}" using mset_eq_setD[OF m] by simp
  then have "backwards T (DBusAddress service p i) = Some (known p)" if "p \<in> set instances" for p using that assms(9) by auto
  then have "manager_translate X (map (\<lambda>p. DBusAddress service p i) instances) no_address T =
      (map (\<lambda>d. capi_instance (known (getObjectPath d))) (map (\<lambda>p. DBusAddress service p i) instances), T)"
    by (intro manager_translate_known) auto
  then have "manager_translate X (map (\<lambda>p. DBusAddress service p i) instances) no_address T = (names, T)"
    by (simp add: names_def comp_def)
  then show ?thesis
    using v t n managed_objects_back(2)[OF assms(1,2), of q] assms(4,6)
    by (intro exI[of _ names])
      (simp add: manager_getAvailableInstances_def getAvailableServiceInstances_def manager_getAvailableInstancesAsync_def
        getManagedObjectsAsync_def instancesAsyncCallback_def)
qed

text \<open>An answer that cannot be read, and a connection that is down, count as a success without instances.\<close>

lemma unreadable_answer_is_success:
  "getAvailableServiceInstances (some_args some_ext) id True (\<lambda>m. (None, foreign_answer)) service path ev = (Method_Call.SUCCESS, [])"
  "getAvailableServiceInstances L id False remote service path ev = (Method_Call.SUCCESS, [])"
  by (simp_all add: getAvailableServiceInstances_def foreign_properties_unreadable)
    (simp_all add: getManagedObjects_def dict_entries_def translate_instances_def)

text \<open>The asynchronous request for a status returns after its callback.\<close>

lemma status_request_blocks:
  "getServiceInstanceAvailabilityStatusAsync answer = [CallbackCalled answer, PromiseSet, Waited, Returned]"
  by (simp add: getServiceInstanceAvailabilityStatusAsync_def std_async_def)

text \<open>Two objects, one of them with the interface; the dictionary is iterated from its end.\<close>

lemma rev_is_order: "iteration_order rev"
  by (auto simp: iteration_order_def list_all2_same intro!: exI)

theorem available_instances_are_exported_witness:
  "\<exists>X L remote. manager_getAvailableInstances X L rev True remote ''s'' ''/'' (new_instance_event ''i'')
      ((new_translator True)\<lparr>backwards := [DBusAddress ''s'' ''/p'' ''i'' \<mapsto> no_address\<lparr>capi_instance := ''one''\<rparr>]\<rparr>) =
    ((Method_Call.SUCCESS, [''one'']), (new_translator True)\<lparr>backwards := [DBusAddress ''s'' ''/p'' ''i'' \<mapsto> no_address\<lparr>capi_instance := ''one''\<rparr>]\<rparr>)"
proof -
  let ?T = "(new_translator True)\<lparr>backwards := [DBusAddress ''s'' ''/p'' ''i'' \<mapsto> no_address\<lparr>capi_instance := ''one''\<rparr>]\<rparr>"
  let ?ps = "[(''/p'', [''i'']), (''/q'', [''j''])]"
  have c: "cpp_string ''/p'' = VString [47, 112]" "cpp_string ''/q'' = VString [47, 113]" "cpp_string ''i'' = VString [105]" "cpp_string ''j'' = VString [106]"
    by code_simp+
  have b: "length (body_of some_ext [DBusObjectPathAndInterfacesDict]
      [VMap [(VString [47, 112], VMap [(VString [105], VMap [])]), (VString [47, 113], VMap [(VString [106], VMap [])])]]) < 1000"
    by code_simp
  have t: "DBusObjectPathAndInterfacesDict = TMap (TString False) (TMap (TString False) (TMap (TString False) TBool))"
    by (simp add: DBusObjectPathAndInterfacesDict_def DBusInterfacesAndPropertiesDict_def DBusPropertiesChangedDict_def)
  have "fits some_ext [DBusObjectPathAndInterfacesDict]
      [VMap [(VString [47, 112], VMap [(VString [105], VMap [])]), (VString [47, 113], VMap [(VString [106], VMap [])])]]"
    by (rule fits_small[OF _ _ refl b]) (simp_all add: t)
  then have f: "om_fits some_ext (ManagedObjects ''/'' ?ps)" by (simp add: om_fits_def interfaces_dict_def c)
  let ?q = "createMethodCall (DBusAddress ''s'' ''/'' OM_INTERFACE) ''GetManagedObjects'' ''''"
  let ?reply = "om_wire some_ext ?q (ManagedObjects ''/'' ?ps)"
  have 1: "distinct is" if "(p, is) \<in> set ?ps" for p "is" using that by auto
  have 2: "(\<lambda>m. (None, ?reply)) ?q = (None, ?reply)" "(\<lambda>m. (Method_Call.SUCCESS, ?reply)) ?q = (Method_Call.SUCCESS, ?reply)" by simp_all
  have 3: "''i'' = observedDbusInterfaceName (new_instance_event ''i'')" by (simp add: new_instance_event_def)
  have 4: "backwards ?T (DBusAddress ''s'' p ''i'') = Some ((\<lambda>p. no_address\<lparr>capi_instance := ''one''\<rparr>) p)"
    if "(p, is) \<in> set ?ps" "''i'' \<in> set is" for p "is" using that by auto
  obtain names where "mset names = mset [''one'']"
      "manager_getAvailableInstances some_tr_ext (some_args some_ext) rev True (\<lambda>m. (None, ?reply)) ''s'' ''/'' (new_instance_event ''i'') ?T =
        ((Method_Call.SUCCESS, names), ?T)"
    using available_instances_are_exported[where remote = "\<lambda>m. (None, ?reply)" and answer = "\<lambda>m. (Method_Call.SUCCESS, ?reply)"
        and q = ?q and known = "\<lambda>p. no_address\<lparr>capi_instance := ''one''\<rparr>" and X = some_tr_ext, OF some_args_spec f 1 refl 2 rev_is_order 3 4]
    by auto
  then show ?thesis by auto
qed

end
