(* ===== verification/Message_Ref.thy ===== *)
theory Message_Ref
  imports Prelude
begin

text \<open>
  \<open>DBusMessage\<close> as the owner of a reference to a message of libdbus: the constructors, the destructor and the
  assignments of \<open>DBusMessage.cpp\<close>. A message is freed when its count becomes 0.
\<close>

section \<open>Operations\<close>

text \<open>
  \<open>pointers\<close> are the live objects with their member \<open>message_\<close>, which may be null. \<open>owned\<close> counts the references that
  code outside these objects is responsible for: no operation reads it.
\<close>

record message_refs =
  counts :: "nat \<Rightarrow> nat"
  pointers :: "(nat \<times> nat option) list"
  owned :: "nat \<Rightarrow> nat"

datatype ref_error = FreedMessage | UninitialisedPointer

definition dbus_message_ref :: "nat \<Rightarrow> message_refs \<Rightarrow> ref_error + message_refs" where
  "dbus_message_ref m s = (if counts s m = 0 then Inl FreedMessage else Inr (s\<lparr>counts := (counts s)(m := counts s m + 1)\<rparr>))"

definition dbus_message_unref :: "nat \<Rightarrow> message_refs \<Rightarrow> ref_error + message_refs" where
  "dbus_message_unref m s = (if counts s m = 0 then Inl FreedMessage else Inr (s\<lparr>counts := (counts s)(m := counts s m - 1)\<rparr>))"

definition message_of :: "nat \<Rightarrow> message_refs \<Rightarrow> nat option" where
  "message_of x s = (case map_of (pointers s) x of None \<Rightarrow> None | Some p \<Rightarrow> p)"

definition set_message :: "nat \<Rightarrow> nat option \<Rightarrow> message_refs \<Rightarrow> message_refs" where
  "set_message x p s = s\<lparr>pointers := al_put x p (pointers s)\<rparr>"

text \<open>\<open>p != nullptr ? dbus_message_ref(p) : nullptr\<close>, stored in \<open>message_\<close>; and \<open>if (message_) dbus_message_unref(message_)\<close>.\<close>

definition ref_into :: "nat \<Rightarrow> nat option \<Rightarrow> message_refs \<Rightarrow> ref_error + message_refs" where
  "ref_into x p s =
     (case p of
        None \<Rightarrow> Inr (set_message x None s)
      | Some m \<Rightarrow> ebind (dbus_message_ref m s) (\<lambda>s1. Inr (set_message x p s1)))"

definition unref_own :: "nat \<Rightarrow> message_refs \<Rightarrow> ref_error + message_refs" where
  "unref_own x s = (case message_of x s of None \<Rightarrow> Inr s | Some m \<Rightarrow> dbus_message_unref m s)"

definition construct_null :: "nat \<Rightarrow> message_refs \<Rightarrow> ref_error + message_refs" where
  "construct_null x s = Inr (set_message x None s)"

definition construct_pointer :: "nat \<Rightarrow> nat option \<Rightarrow> message_refs \<Rightarrow> ref_error + message_refs" where
  "construct_pointer x p s = ref_into x p s"

text \<open>
  The constructor with \<open>reference\<close>: without it the object takes the reference of its caller over. With it the message
  that is referenced is that of the member, which has no value yet.
\<close>

definition construct_reference :: "nat \<Rightarrow> nat option \<Rightarrow> bool \<Rightarrow> message_refs \<Rightarrow> ref_error + message_refs" where
  "construct_reference x p reference s =
     (case p of
        None \<Rightarrow> Inr (set_message x None s)
      | Some m \<Rightarrow> if reference then Inl UninitialisedPointer
                 else Inr (set_message x (Some m) (s\<lparr>owned := (owned s)(m := owned s m - 1)\<rparr>)))"

definition construct_copy :: "nat \<Rightarrow> nat \<Rightarrow> message_refs \<Rightarrow> ref_error + message_refs" where
  "construct_copy x source s = ref_into x (message_of source s) s"

definition construct_move :: "nat \<Rightarrow> nat \<Rightarrow> message_refs \<Rightarrow> ref_error + message_refs" where
  "construct_move x source s = Inr (set_message source None (set_message x (message_of source s) s))"

definition destruct :: "nat \<Rightarrow> message_refs \<Rightarrow> ref_error + message_refs" where
  "destruct x s = ebind (unref_own x s) (\<lambda>s1. Inr (s1\<lparr>pointers := al_erase x (pointers s1)\<rparr>))"

definition assign_copy :: "nat \<Rightarrow> nat \<Rightarrow> message_refs \<Rightarrow> ref_error + message_refs" where
  "assign_copy x source s =
     (if x \<noteq> source then ebind (unref_own x s) (\<lambda>s1. ref_into x (message_of source s1) s1) else Inr s)"

definition assign_move :: "nat \<Rightarrow> nat \<Rightarrow> message_refs \<Rightarrow> ref_error + message_refs" where
  "assign_move x source s =
     (if x \<noteq> source then ebind (unref_own x s) (\<lambda>s1. Inr (set_message source None (set_message x (message_of source s1) s1)))
      else Inr s)"

section \<open>Use\<close>

text \<open>
  How the operations are used: an object is constructed once, only live objects are used, a message that is passed as
  a pointer has an owner. \<open>NewMessage\<close>, \<open>Retain\<close> and \<open>Release\<close> are what libdbus and its callers do; a new
  message has one reference, which its creator owns.
\<close>

datatype ref_op =
    NewMessage nat | Retain nat | Release nat
  | Construct nat | FromPointer nat "nat option" | Adopt nat "nat option" bool
  | Copy nat nat | Move nat nat | Destroy nat | AssignCopy nat nat | AssignMove nat nat

fun ref_step :: "ref_op \<Rightarrow> message_refs \<Rightarrow> ref_error + message_refs" where
  "ref_step (NewMessage m) s = Inr (s\<lparr>counts := (counts s)(m := 1), owned := (owned s)(m := 1)\<rparr>)"
| "ref_step (Retain m) s = ebind (dbus_message_ref m s) (\<lambda>s1. Inr (s1\<lparr>owned := (owned s1)(m := owned s1 m + 1)\<rparr>))"
| "ref_step (Release m) s = ebind (dbus_message_unref m s) (\<lambda>s1. Inr (s1\<lparr>owned := (owned s1)(m := owned s1 m - 1)\<rparr>))"
| "ref_step (Construct x) s = construct_null x s"
| "ref_step (FromPointer x p) s = construct_pointer x p s"
| "ref_step (Adopt x p reference) s = construct_reference x p reference s"
| "ref_step (Copy x y) s = construct_copy x y s"
| "ref_step (Move x y) s = construct_move x y s"
| "ref_step (Destroy x) s = destruct x s"
| "ref_step (AssignCopy x y) s = assign_copy x y s"
| "ref_step (AssignMove x y) s = assign_move x y s"

abbreviation is_live :: "nat \<Rightarrow> message_refs \<Rightarrow> bool" where
  "is_live x s \<equiv> x \<in> fst ` set (pointers s)"

fun ref_allowed :: "ref_op \<Rightarrow> message_refs \<Rightarrow> bool" where
  "ref_allowed (NewMessage m) s \<longleftrightarrow> counts s m = 0"
| "ref_allowed (Retain m) s \<longleftrightarrow> owned s m > 0"
| "ref_allowed (Release m) s \<longleftrightarrow> owned s m > 0"
| "ref_allowed (Construct x) s \<longleftrightarrow> \<not> is_live x s"
| "ref_allowed (FromPointer x p) s \<longleftrightarrow> \<not> is_live x s \<and> (case p of None \<Rightarrow> True | Some m \<Rightarrow> owned s m > 0)"
| "ref_allowed (Adopt x p reference) s \<longleftrightarrow> \<not> is_live x s \<and> (case p of None \<Rightarrow> True | Some m \<Rightarrow> owned s m > 0)"
| "ref_allowed (Copy x y) s \<longleftrightarrow> \<not> is_live x s \<and> is_live y s"
| "ref_allowed (Move x y) s \<longleftrightarrow> \<not> is_live x s \<and> is_live y s"
| "ref_allowed (Destroy x) s \<longleftrightarrow> is_live x s"
| "ref_allowed (AssignCopy x y) s \<longleftrightarrow> is_live x s \<and> is_live y s"
| "ref_allowed (AssignMove x y) s \<longleftrightarrow> is_live x s \<and> is_live y s"

definition no_messages :: message_refs where
  "no_messages = \<lparr>counts = (\<lambda>_. 0), pointers = [], owned = (\<lambda>_. 0)\<rparr>"

inductive refs_run :: "message_refs \<Rightarrow> bool" where
  no_objects: "refs_run no_messages"
| operation: "refs_run s \<Longrightarrow> ref_allowed x s \<Longrightarrow> ref_step x s = Inr s' \<Longrightarrow> refs_run s'"

section \<open>Counting\<close>

definition holding :: "nat \<Rightarrow> (nat \<times> nat option) list \<Rightarrow> nat" where
  "holding m hs = length (filter (\<lambda>e. snd e = Some m) hs)"

lemma holding_simps [simp]:
  "holding m [] = 0" "holding m ((x, p) # hs) = (if p = Some m then 1 else 0) + holding m hs"
  by (simp_all add: holding_def)

lemma holding_put:
  "distinct (map fst hs) \<Longrightarrow>
    holding m (al_put x p hs) + (if map_of hs x = Some (Some m) then 1 else 0) = holding m hs + (if p = Some m then 1 else 0)"
  by (induction x p hs rule: al_put.induct) (auto simp: map_of_eq_None_iff[symmetric])

lemma al_erase_dead: "x \<notin> fst ` set hs \<Longrightarrow> al_erase x hs = hs"
  by (force simp: al_erase_def filter_id_conv)

lemma al_erase_Cons: "al_erase x ((y, p) # hs) = (if x = y then al_erase x hs else (y, p) # al_erase x hs)"
  by (simp add: al_erase_def)

lemma holding_erase:
  "distinct (map fst hs) \<Longrightarrow> holding m (al_erase x hs) + (if map_of hs x = Some (Some m) then 1 else 0) = holding m hs"
proof (induction hs)
  case (Cons e hs)
  then show ?case by (cases e) (auto simp: al_erase_Cons al_erase_dead)
qed (simp add: al_erase_def)

lemma holding_pos: "map_of hs x = Some (Some m) \<Longrightarrow> 0 < holding m hs"
  by (force simp: holding_def filter_empty_conv dest!: map_of_SomeD)

definition balanced :: "message_refs \<Rightarrow> bool" where
  "balanced s \<longleftrightarrow> distinct (map fst (pointers s)) \<and> (\<forall>m. counts s m = owned s m + holding m (pointers s))"

lemma message_of_live: "is_live x s \<Longrightarrow> map_of (pointers s) x = Some (message_of x s)"
  by (auto simp: message_of_def map_of_eq_None_iff split: option.splits)

lemma holder_counts: "balanced s \<Longrightarrow> map_of (pointers s) x = Some (Some m) \<Longrightarrow> 0 < counts s m"
  using holding_pos by (fastforce simp: balanced_def)

lemma unref_own_ok:
  assumes "balanced s" "is_live x s"
  shows "\<exists>s1. unref_own x s = Inr s1 \<and> pointers s1 = pointers s \<and> owned s1 = owned s \<and>
    (\<forall>m. counts s1 m = owned s m + holding m (al_erase x (pointers s)))"
proof -
  have e: "holding m (al_erase x (pointers s)) + (if map_of (pointers s) x = Some (Some m) then 1 else 0) = holding m (pointers s)" for m
    using assms(1) holding_erase by (auto simp: balanced_def)
  have b: "counts s m = owned s m + holding m (pointers s)" for m using assms(1) by (simp add: balanced_def)
  show ?thesis
  proof (cases "message_of x s")
    case None
    then show ?thesis using e b message_of_live[OF assms(2)] by (simp add: unref_own_def)
  next
    case (Some m)
    then have "map_of (pointers s) x = Some (Some m)" using message_of_live[OF assms(2)] by simp
    then have k: "holding n (pointers s) = holding n (al_erase x (pointers s)) + (if n = m then 1 else 0)" for n using e[of n] by auto
    show ?thesis using Some b k by (auto simp: unref_own_def dbus_message_unref_def)
  qed
qed

text \<open>After the own reference is gone, storing another one restores the balance.\<close>

lemma ref_into_ok:
  assumes "distinct (map fst (pointers s))" "\<And>m. counts s m = owned s m + holding m (al_erase x (pointers s))"
    and "\<And>m. p = Some m \<Longrightarrow> 0 < counts s m"
  shows "\<exists>s'. ref_into x p s = Inr s' \<and> balanced s'"
proof -
  have h: "holding m (al_put x p (pointers s)) = holding m (al_erase x (pointers s)) + (if p = Some m then 1 else 0)" for m
    using holding_put[OF assms(1), of m x p] holding_erase[OF assms(1), of m x] by simp
  have d: "distinct (map fst (al_put x p (pointers s)))" by (rule distinct_al_put[OF assms(1)])
  show ?thesis
    using assms(2,3) h d
    by (cases p) (auto simp: ref_into_def set_message_def dbus_message_ref_def balanced_def)
qed

lemma moved_holding:
  assumes "distinct (map fst hs)" "x \<noteq> y" "map_of hs y = Some p"
  shows "holding m (al_put y None (al_put x p hs)) = holding m (al_erase x hs)"
proof -
  have "holding m (al_put y None (al_put x p hs)) + (if p = Some m then 1 else 0) = holding m (al_put x p hs)"
    using holding_put[OF distinct_al_put[OF assms(1)], of m y None x p] assms(2,3) by simp
  then show ?thesis using holding_put[OF assms(1), of m x p] holding_erase[OF assms(1), of m x] by simp
qed

text \<open>The one operation that fails: the constructor that is asked to take a reference of its own.\<close>

fun takes_reference :: "ref_op \<Rightarrow> bool" where
  "takes_reference (Adopt x (Some m) True) = True"
| "takes_reference _ = False"

lemma ref_step_balanced:
  assumes "balanced s" "ref_allowed op s" "\<not> takes_reference op"
  shows "\<exists>s'. ref_step op s = Inr s' \<and> balanced s'"
proof -
  have d: "distinct (map fst (pointers s))" and c: "counts s m = owned s m + holding m (pointers s)" for m
    using assms(1) by (simp_all add: balanced_def)
  have into: "\<exists>s'. ref_into x p s = Inr s' \<and> balanced s'" if "\<not> is_live x s" "\<And>m. p = Some m \<Longrightarrow> 0 < counts s m" for x p
    using ref_into_ok[OF d, of x p] c that by (simp add: al_erase_dead)
  show ?thesis
  proof (cases op)
    case (Construct x)
    then show ?thesis using into[of x None] assms(2) by (simp add: construct_null_def ref_into_def)
  next
    case (FromPointer x p)
    then show ?thesis using into[of x p] assms(2) c by (cases p) (auto simp: construct_pointer_def)
  next
    case (Adopt x p reference)
    then show ?thesis
      using assms(2,3) c d distinct_al_put[OF d, of x p] holding_put[OF d, of _ x p]
      by (cases p; cases reference) (auto simp: construct_reference_def set_message_def balanced_def map_of_eq_None_iff[symmetric])
  next
    case (Copy x y)
    then have "0 < counts s m" if "message_of y s = Some m" for m
      using that assms(2) message_of_live[of y s] holder_counts[OF assms(1)] by simp
    then show ?thesis using into[of x "message_of y s"] Copy assms(2) by (simp add: construct_copy_def)
  next
    case (Move x y)
    then have y: "x \<noteq> y" "map_of (pointers s) y = Some (message_of y s)" "al_erase x (pointers s) = pointers s"
      using assms(2) message_of_live[of y s] al_erase_dead by auto
    then show ?thesis
      using Move c d moved_holding[OF d y(1,2)] distinct_al_put[OF distinct_al_put[OF d]]
      by (simp add: construct_move_def set_message_def balanced_def)
  next
    case (Destroy x)
    then obtain s1 where "unref_own x s = Inr s1" "pointers s1 = pointers s" "owned s1 = owned s"
      "\<forall>m. counts s1 m = owned s m + holding m (al_erase x (pointers s))" using unref_own_ok assms by fastforce
    then show ?thesis using Destroy distinct_al_erase[OF d] by (simp add: destruct_def balanced_def)
  next
    case (AssignCopy x y)
    show ?thesis
    proof (cases "x = y")
      case False
      obtain s1 where s1: "unref_own x s = Inr s1" "pointers s1 = pointers s" "owned s1 = owned s"
        "\<forall>m. counts s1 m = owned s m + holding m (al_erase x (pointers s))"
        using unref_own_ok[OF assms(1), of x] assms(2) AssignCopy by auto
      have "0 < counts s1 m" if "message_of y s1 = Some m" for m
      proof -
        have "map_of (al_erase x (pointers s)) y = Some (Some m)"
          using that s1(2) False message_of_live[of y s] assms(2) AssignCopy by (simp add: message_of_def)
        then show ?thesis using holding_pos s1(4) by (metis add_gr_0)
      qed
      then have "\<exists>s'. ref_into x (message_of y s1) s1 = Inr s' \<and> balanced s'"
        using ref_into_ok[of s1 x "message_of y s1"] s1 d by simp
      then show ?thesis using AssignCopy False s1(1) by (simp add: assign_copy_def)
    qed (use AssignCopy assms(1) in \<open>simp add: assign_copy_def\<close>)
  next
    case (AssignMove x y)
    show ?thesis
    proof (cases "x = y")
      case False
      obtain s1 where s1: "unref_own x s = Inr s1" "pointers s1 = pointers s" "owned s1 = owned s"
        "\<forall>m. counts s1 m = owned s m + holding m (al_erase x (pointers s))"
        using unref_own_ok[OF assms(1), of x] assms(2) AssignMove by auto
      have "map_of (pointers s) y = Some (message_of y s1)"
        using message_of_live[of y s] s1(2) assms(2) AssignMove by (simp add: message_of_def)
      from moved_holding[OF d False this] show ?thesis
        using AssignMove False s1 distinct_al_put[OF distinct_al_put[OF d]]
        by (simp add: assign_move_def set_message_def balanced_def)
    qed (use AssignMove assms(1) in \<open>simp add: assign_move_def\<close>)
  qed (use assms c in \<open>auto simp: balanced_def dbus_message_ref_def dbus_message_unref_def\<close>)
qed

lemma takes_reference_fails: "takes_reference op \<Longrightarrow> ref_step op s = Inl UninitialisedPointer"
  by (cases op rule: takes_reference.cases) (simp_all add: construct_reference_def)

lemma refs_run_balanced: "refs_run s \<Longrightarrow> balanced s"
proof (induction rule: refs_run.induct)
  case no_objects
  then show ?case by (simp add: no_messages_def balanced_def)
next
  case (operation s x s')
  then have "\<not> takes_reference x" by (auto simp: takes_reference_fails)
  then show ?case using operation ref_step_balanced[of s x] by auto
qed

section \<open>Properties\<close>

text \<open>C26: in every state that is reached, each operation in its place succeeds, except the constructor that is asked
  to take a reference of its own (\<open>reference\<close> set, and a message): that one fails always, because it references the
  message of a member that has no value yet. After an operation that succeeds the count of a message is the number
  of references that are owned outside and of objects that hold it. So no other operation uses a message that is freed,
  and when all objects are gone, nothing is left of their references.\<close>

theorem message_references_balanced:
  assumes "refs_run s" "ref_allowed op s"
  shows "if \<exists>x m. op = Adopt x (Some m) True then ref_step op s = Inl UninitialisedPointer
    else \<exists>s'. ref_step op s = Inr s' \<and> (\<forall>m. counts s' m = owned s' m + holding m (pointers s')) \<and>
      (pointers s' = [] \<longrightarrow> counts s' = owned s')"
proof -
  have t: "takes_reference op \<longleftrightarrow> (\<exists>x m. op = Adopt x (Some m) True)" by (cases op rule: takes_reference.cases) auto
  show ?thesis
  proof (cases "takes_reference op")
    case True
    then show ?thesis using takes_reference_fails t by simp
  next
    case False
    obtain s' where "ref_step op s = Inr s'" "balanced s'"
      using ref_step_balanced[OF refs_run_balanced[OF assms(1)] assms(2) False] by blast
    then show ?thesis using False t by (auto simp: balanced_def)
  qed
qed

theorem message_references_balanced_witness:
  "\<exists>s s'. refs_run s \<and> counts s 4 = 2 \<and> ref_step (AssignMove 1 2) s = Inr s' \<and> counts s' 4 = 1"
proof -
  let ?s1 = "no_messages\<lparr>counts := (\<lambda>_. 0)(4 := 1), owned := (\<lambda>_. 0)(4 := 1)\<rparr>"
  let ?s2 = "?s1\<lparr>pointers := [(1, Some 4)], owned := (\<lambda>_. 0)(4 := 0)\<rparr>"
  let ?s3 = "?s2\<lparr>counts := (\<lambda>_. 0)(4 := 2), pointers := [(1, Some 4), (2, Some 4)]\<rparr>"
  have "refs_run ?s1" by (rule operation[OF no_objects, of "NewMessage 4"]) (simp_all add: no_messages_def)
  then have "refs_run ?s2" by (rule operation[of _ "Adopt 1 (Some 4) False"])
      (simp_all add: construct_reference_def set_message_def no_messages_def)
  then have s3: "refs_run ?s3" by (rule operation[of _ "Copy 2 1"])
      (simp_all add: construct_copy_def ref_into_def message_of_def dbus_message_ref_def set_message_def no_messages_def numeral_2_eq_2)
  have a: "ref_allowed (AssignMove 1 2) ?s3" by simp
  obtain s' where "ref_step (AssignMove 1 2) ?s3 = Inr s'" "\<forall>m. counts s' m = owned s' m + holding m (pointers s')"
    using message_references_balanced[OF s3 a] by auto
  moreover from this have "counts s' 4 = 1"
    by (auto simp: assign_move_def unref_own_def message_of_def dbus_message_unref_def set_message_def)
  moreover have "counts ?s3 4 = 2" by simp
  ultimately show ?thesis using s3 by blast
qed

end
