(* ===== verification/Spec2Isabelle.thy ===== *)
theory Spec2Isabelle
  imports Read_Correct Read_Typed Wire_Spec Translator_Correct Connection_Correct Async_Threads Main_Loop_Props Registry_Props Factory_Props
    Proxy_Props Avail_Thread_Correct Rpc_Correct Instance_Event_Correct Queue_Watch_Correct Attach
    Lifecycle_Correct Attribute_Correct Event_Correct Daemon Creation_Correct Incoming_Correct
    Hash Async_Call Legacy_Event Announcement Proxy_Manager Message_Ref
begin

text \<open>
  A verification of the D-Bus binding of CommonAPI (\<open>src/include/CommonAPI/DBus/\<close> and
  \<open>src/src/CommonAPI/DBus/\<close>), the runtime library that generated proxies and stubs are linked with. File
  names below are relative to these two directories.

  The program and its parts.

  A client calls a generated proxy. The proxy (\<open>DBusProxy\<close>, \<open>DBusProxyHelper\<close>) serialises the arguments with a
  \<open>DBusOutputStream\<close>, puts them into a \<open>DBusMessage\<close> and gives it to its \<open>DBusConnection\<close>, which hands it to libdbus
  and waits, or registers a handler for the reply. On the other side the connection gets the message from
  libdbus while it dispatches, the \<open>DBusObjectManager\<close> finds the \<open>DBusStubAdapter\<close> of the object path and
  interface, and the dispatcher of the member (\<open>DBusStubAdapterHelper\<close>) reads the arguments with a
  \<open>DBusInputStream\<close>, calls the user's stub and sends the reply back the same way. Around this path stand the
  \<open>DBusFactory\<close>, which publishes stubs and owns the connections; the \<open>DBusAddressTranslator\<close>, which knows the
  D-Bus address of a CommonAPI address; the \<open>DBusServiceRegistry\<close>, which tells proxies whether their service is
  there; the \<open>DBusObjectManagerStub\<close>, which announces managed instances, and the event of
  \<open>DBusProxyManager\<close>, which hears of them; and the main loop with its context, which runs everything that is not called by the user.

  Where the parts are modelled.

  \<^item> \<open>Prelude\<close>: machine integers, association lists for \<open>std::unordered_map\<close>, sequencing with errors.
  \<^item> \<open>Bytes\<close>, \<open>Ieee_Float\<close>: integers and floating point numbers as raw memory. \<open>Wire_Types\<close>: the C++ types a stream is
    instantiated with (\<open>ty\<close>: type and deployment), their values, their signatures (\<open>DBusTypeOutputStream.hpp\<close>,
    \<open>DBusDeployment.hpp\<close>, \<open>DBusFreedesktopVariant.hpp\<close>). \<open>Out_Stream\<close>, \<open>In_Stream\<close>: the two streams
    (\<open>DBusOutputStream.hpp/.cpp\<close>, \<open>DBusInputStream.hpp/.cpp\<close>), one definition for each overload.
  \<^item> \<open>Wire_Format\<close>, \<open>Write_Correct\<close>, \<open>Wire_Spec\<close>, \<open>Read_Safe\<close>, \<open>Read_Typed\<close>, \<open>Read_Correct\<close>: what the streams write and read.
  \<^item> \<open>Address\<close>, \<open>Names\<close>, \<open>Translator\<close>, \<open>Translator_Correct\<close>: \<open>DBusAddress.cpp\<close>, \<open>DBusAddressTranslator.cpp\<close>.
  \<^item> \<open>Connection\<close>, \<open>Connection_Correct\<close>: bus names, object paths, signal handlers and match rules of \<open>DBusConnection.cpp\<close>.
    \<open>Counted_Resource\<close>: the contract of a reference count for a resource outside the process.
  \<^item> \<open>Async_Reply\<close>, \<open>Async_Correct\<close>, \<open>Async_Threads\<close>: asynchronous calls of \<open>DBusConnection.cpp\<close>: sending, the
    completion of the pending call, the thread that enforces timeouts, dispatching.
  \<^item> \<open>Lifecycle\<close>, \<open>Lifecycle_Correct\<close>: \<open>connect\<close>, \<open>disconnect\<close> and the threads of a connection.
  \<^item> \<open>Main_Loop\<close>, \<open>Main_Loop_Correct\<close>, \<open>Main_Loop_Safe\<close>, \<open>Main_Loop_Phases\<close>, \<open>Main_Loop_Props\<close>: \<open>DBusMainLoop.cpp\<close>.
  \<^item> \<open>Queue_Watch\<close>, \<open>Queue_Watch_Correct\<close>, \<open>Watch_Binding\<close>: what a connection registers at a main loop
    (\<open>DBusMainLoopContext.cpp\<close>, and \<open>onAddWatch\<close>, \<open>onRemoveWatch\<close>, \<open>onToggleWatch\<close> of the connection). \<open>Attach\<close>:
    \<open>attachMainLoopContext\<close>, the watches in \<open>disconnect\<close>, and the destructor of the connection.
  \<^item> \<open>Service_Registry\<close>, \<open>Service_Registry_Correct\<close>, \<open>Registry_Signals\<close>, \<open>Registry_Props\<close>: \<open>DBusServiceRegistry.cpp\<close>.
  \<^item> \<open>Object_Manager\<close>, \<open>Object_Manager_Correct\<close>: \<open>DBusObjectManager.cpp\<close>, \<open>DBusObjectManagerStub.cpp\<close>.
    \<open>Incoming\<close>, \<open>Incoming_Correct\<close>: how a message from libdbus gets to its handler, and the answer to \<open>Introspect\<close>.
    \<open>Factory\<close>, \<open>Factory_Correct\<close>, \<open>Factory_Props\<close>: \<open>DBusFactory.cpp\<close>, over the translator and the object manager.
    \<open>Creation\<close>, \<open>Creation_Correct\<close>: interface libraries, \<open>createProxy\<close>, and proxies as users of connections.
  \<^item> \<open>Proxy\<close>, \<open>Proxy_Correct\<close>, \<open>Proxy_Props\<close>: availability, signal handlers and selective broadcasts of \<open>DBusProxy.cpp\<close>.
    \<open>Avail_Thread\<close>, \<open>Avail_Thread_Correct\<close>: \<open>isAvailableAsync\<close> and its thread.
  \<^item> \<open>Message\<close>, \<open>Method_Call\<close>, \<open>Stub_Dispatch\<close>, \<open>Rpc_Correct\<close>: messages, the calls of \<open>DBusProxyHelper.hpp\<close> with
    their replies and error events, the dispatchers of \<open>DBusStubAdapterHelper.hpp\<close>, and both sides composed.
    \<open>Async_Call\<close>: the completion of a pending call, and how the asynchronous call compares to the blocking one.
  \<^item> \<open>Attribute\<close>, \<open>Attribute_Correct\<close>: the attributes of a proxy (\<open>DBusAttribute.hpp\<close>), attributes that are D-Bus
    properties on both sides (\<open>DBusFreedesktopAttribute.hpp\<close>, \<open>DBusFreedesktopStubAdapterHelper.hpp\<close>), and the
    interface \<open>org.freedesktop.DBus.Properties\<close> of a stub (\<open>DBusFreedesktopPropertiesStub.cpp\<close>). \<open>Legacy_Event\<close>: the changed
    event of a property, from the stub to the listeners.
  \<^item> \<open>Event\<close>, \<open>Event_Correct\<close>: the events of a proxy (\<open>DBusEvent.hpp\<close>, \<open>DBusSelectiveEvent.hpp\<close>,
    \<open>DBusMultiEvent.hpp\<close>), and a broadcast from the stub to the listeners of an event.
  \<^item> \<open>Hash\<close>: the hashes of keys (\<open>DBusFunctionalHash.cpp\<close>, \<open>MurmurHash3_x86_32\<close>) and client ids (\<open>DBusClientId.cpp\<close>).
  \<^item> \<open>Daemon\<close>: the proxy of the bus daemon (\<open>DBusDaemonProxy.cpp/.hpp\<close>).
  \<^item> \<open>Instance_Event\<close>, \<open>Instance_Event_Correct\<close>: \<open>DBusInstanceAvailabilityStatusChangedEvent.cpp\<close>. \<open>Proxy_Manager\<close>: the
    requests for instances (\<open>DBusProxyManager.cpp\<close>).
  \<^item> \<open>Announcement\<close>: the messages of an object manager on the wire, and the registry of a client that reads them.
  \<^item> \<open>Message_Ref\<close>: a \<open>DBusMessage\<close> as the owner of a reference to a message of libdbus (\<open>DBusMessage.cpp\<close>).

  How the code is modelled.

  A class is a record with the names of its members, an operation a function on the record that returns it
  updated, and an error, an exception or a dereferenced null pointer is a value of a sum or option type. A
  pointer to an object whose life matters is an address of an explicit heap (\<open>Main_Loop\<close>) or a key (\<open>Service_Registry\<close>);
  elsewhere an object is a number. A thread is a sequence of steps, one for each critical section of the source,
  and the properties quantify over all interleavings of them. What is not in the repository is an argument:
  libdbus (an environment that answers each call and may look at all earlier ones), the clock and \<open>poll\<close>, the
  generated code, the user's callbacks, \<open>CommonAPI::SerializableArguments\<close> (\<open>args_spec\<close> in \<open>Message\<close> states what it
  does), and \<open>CommonAPI::Variant\<close>, the maximal length of a name and similar values (\<open>ext\<close>). The logs among the
  members (\<open>log\<close>, \<open>rlog\<close>, \<open>events\<close>, \<open>effects\<close>, \<open>told\<close>) record the calls that leave a component; no operation reads them.

  What the lemmas show.

  \<^item> The streams: \<open>write_refines\<close> says that the imperative writer appends exactly the bytes \<open>enc\<close> of a value, so a
    placeholder is always patched with the right length; \<open>enc_conforms\<close> compares these bytes with the marshalling
    rules of the specification, written down independently, and names the types for which they differ.
    \<open>readValue_enc\<close> inverts \<open>enc\<close> in any surrounding body. \<open>Read_Safe\<close> is about arbitrary bodies: every read ends,
    moves forward, keeps the stacks, and reads within the body except where a property says otherwise.
  \<^item> Reference counts: the locale \<open>counted_resource\<close> extends the laws of one acquisition and one release to all
    sequences; names and object paths interpret it, match rules have an invariant of their own.
  \<^item> Asynchronous calls: the invariant looks at one handler at a time (\<open>view\<close>); every step of every thread keeps it.
  \<^item> The main loop: \<open>safe P r\<close> says that a computation does not touch freed memory and ends in \<open>P\<close>. The invariant is
    kept by each phase of an iteration, whatever the callbacks register and unregister.
  \<^item> Registry, proxy, instance events: what listeners and handlers are told agrees with the state, and is told in
    alternation; the sequences in which a notification is lost are stated as well.
  \<^item> Announcements: what a manager of objects sends is what the registry and the proxy manager of a client read, so an
    exported stub is seen by the subscribers and among the available instances.
  \<^item> Calls: arguments and results survive both messages for all types the streams can carry, a dispatcher answers
    each call at most once, and each error path ends with its status.

  Loops and bounds. Element loops of the input stream have the fuel \<open>loop_fuel\<close>, the length of the body and nine
  more; each iteration of a proper type consumes a byte or reports an error, and \<open>readValue_terminates\<close> shows that the
  fuel is never used up, for every type whose elements are not empty. The draining of a dispatch source has an
  explicit number of rounds, because the callback of the application decides how long it goes on; a run that
  exceeds it is the error \<open>OutOfFuel\<close>, and the safety properties hold for every number. The loop
  over an \<open>InterfacesAdded\<close> signal may really not end, so \<open>interfaces_loop\<close> is a \<open>partial_function\<close>: it returns on each well-formed body
  (\<open>interfaces_added_read\<close>, \<open>registry_reads_added\<close>) and does not on a truncated one (\<open>truncated_signal_never_ends\<close>). All other loops are structural or have a measure. Lengths, serial numbers and call ids are words of 32 bits
  and wrap around; positions in a body are natural numbers, and the properties that depend on 32-bit positions
  state the bound (\<open>fits\<close>). Time is in milliseconds or nanoseconds, as an integer.

  Not modelled. \<open>pugixml\<close> is a vendored library, and nothing calls the 128-bit variants of \<open>MurmurHash3\<close>. The hash maps
  are modelled by their contents; \<open>Hash\<close> is about the hash functions alone. Messages to the log, the reading of the configuration file, the parts compiled on Windows only, and the static mutexes
  around calls have no effect on the modelled results. Polymorphic structs are serialised by generated code.
  The destructors of connection and proxy run when nobody uses the object; modelled is what they undo at the
  connection, the main loop context, the registry and the factory. An iteration of the main loop that is started by one of its own callbacks, and listeners of the registry
  that call back into it, are outside the model.
\<close>

end
